(* ===== verification/Rust_Prelude.thy ===== *)
theory Rust_Prelude
  imports Complex_Main "HOL-Library.Sublist" "HOL-Library.Word" "HOL-Library.AList"
    "HOL-Library.Char_ord" "HOL-Library.List_Lexorder"
begin

text \<open>
  What the Rust code uses of its standard library, shared by every component.

  A Rust string is a \<open>string\<close>, the list of its UTF-8 bytes, so \<open>length\<close> is \<open>str::len\<close> and
  \<open>@\<close> is concatenation. The operations that classify characters (\<open>trim\<close>, \<open>to_lowercase\<close>,
  \<open>is_alphanumeric\<close>) are those of ASCII text: bytes of a multi-byte character are neither
  white space nor letters here. \<open>Result<T, String>\<close> is \<open>string + 'a\<close> with \<open>Inl\<close> for \<open>Err\<close>.
  A \<open>HashMap\<close> is a map. A Rust panic is the value \<open>Panicked\<close> of \<open>outcome\<close>.
\<close>

named_theorems rust_str \<open>facts about the string operations\<close>
named_theorems wf_intros \<open>every operation keeps its component's invariant\<close>

type_synonym 'a res = "string + 'a"

datatype 'a outcome = Done 'a | Panicked

definition is_ok :: "'a res \<Rightarrow> bool" where
  "is_ok r = (case r of Inl _ \<Rightarrow> False | Inr _ \<Rightarrow> True)"

definition ok_or :: "string \<Rightarrow> 'a option \<Rightarrow> 'a res" where
  "ok_or e x = (case x of None \<Rightarrow> Inl e | Some v \<Rightarrow> Inr v)"

definition map_err :: "(string \<Rightarrow> string) \<Rightarrow> 'a res \<Rightarrow> 'a res" where
  "map_err f r = (case r of Inl e \<Rightarrow> Inl (f e) | Inr v \<Rightarrow> Inr v)"

definition res_ok :: "'a res \<Rightarrow> 'a option" where
  "res_ok r = (case r of Inl _ \<Rightarrow> None | Inr v \<Rightarrow> Some v)"

lemma is_ok_simps [simp]: "is_ok (Inr v)" "\<not> is_ok (Inl e)"
  by (simp_all add: is_ok_def)

lemma ok_or_simps [simp]: "ok_or e None = Inl e" "ok_or e (Some v) = Inr v"
  by (simp_all add: ok_or_def)

lemma map_err_simps [simp]: "map_err f (Inl e) = Inl (f e)" "map_err f (Inr v) = Inr v"
  by (simp_all add: map_err_def)

lemma res_ok_simps [simp]: "res_ok (Inl e) = None" "res_ok (Inr v) = Some v"
  by (simp_all add: res_ok_def)

lemma ok_or_Inr_iff: "ok_or e x = Inr v \<longleftrightarrow> x = Some v"
  by (cases x) auto

subsection \<open>Steps\<close>

text \<open>Threads that interleave are a step relation; what each step keeps holds in every run.\<close>

locale step_invariant =
  fixes step :: "'s \<Rightarrow> 's \<Rightarrow> bool"
    and inv :: "'s \<Rightarrow> bool"
  assumes kept: "step s s' \<Longrightarrow> inv s \<Longrightarrow> inv s'"
begin

lemma runs: "step\<^sup>*\<^sup>* s s' \<Longrightarrow> inv s \<Longrightarrow> inv s'"
  by (induction rule: rtranclp_induct) (auto intro: kept)

lemma runs_of: "(step ^^ n) s s' \<Longrightarrow> inv s \<Longrightarrow> inv s'"
  by (rule runs [OF relpowp_imp_rtranclp])

end

subsection \<open>Characters\<close>

definition is_ws :: "char \<Rightarrow> bool" where
  "is_ws c = (of_char c \<in> {9, 10, 11, 12, 13, 32 :: nat})"

definition is_digit :: "char \<Rightarrow> bool" where
  "is_digit c = (48 \<le> (of_char c :: nat) \<and> (of_char c :: nat) \<le> 57)"

definition is_upper :: "char \<Rightarrow> bool" where
  "is_upper c = (65 \<le> (of_char c :: nat) \<and> (of_char c :: nat) \<le> 90)"

definition is_lower :: "char \<Rightarrow> bool" where
  "is_lower c = (97 \<le> (of_char c :: nat) \<and> (of_char c :: nat) \<le> 122)"

definition is_alphanumeric :: "char \<Rightarrow> bool" where
  "is_alphanumeric c = (is_digit c \<or> is_upper c \<or> is_lower c)"

definition char_lower :: "char \<Rightarrow> char" where
  "char_lower c = (if is_upper c then char_of (of_char c + 32 :: nat) else c)"

definition char_upper :: "char \<Rightarrow> char" where
  "char_upper c = (if is_lower c then char_of (of_char c - 32 :: nat) else c)"

definition digit_val :: "char \<Rightarrow> nat" where
  "digit_val c = of_char c - 48"

lemma char_lower_idem [simp]: "char_lower (char_lower c) = char_lower c"
proof (cases "is_upper c")
  case True
  then have "65 \<le> (of_char c :: nat)" "(of_char c :: nat) \<le> 90"
    by (simp_all add: is_upper_def)
  then have "\<not> is_upper (char_lower c)"
    by (simp add: char_lower_def is_upper_def)
  then show ?thesis by (simp add: char_lower_def)
next
  case False
  then show ?thesis by (simp add: char_lower_def)
qed

definition to_lowercase :: "string \<Rightarrow> string" where
  "to_lowercase s = map char_lower s"

definition to_uppercase :: "string \<Rightarrow> string" where
  "to_uppercase s = map char_upper s"

lemma to_lowercase_idem [rust_str]: "to_lowercase (to_lowercase s) = to_lowercase s"
  by (simp add: to_lowercase_def)

lemma length_to_lowercase [simp]: "length (to_lowercase s) = length s"
  by (simp add: to_lowercase_def)

subsection \<open>Searching and cutting\<close>

abbreviation starts_with :: "string \<Rightarrow> string \<Rightarrow> bool" where
  "starts_with s p \<equiv> prefix p s"

abbreviation ends_with :: "string \<Rightarrow> string \<Rightarrow> bool" where
  "ends_with s p \<equiv> suffix p s"

fun str_contains :: "string \<Rightarrow> string \<Rightarrow> bool" where
  "str_contains [] p = (p = [])"
| "str_contains (c # s) p = (prefix p (c # s) \<or> str_contains s p)"

lemma str_contains_iff [rust_str]: "str_contains s p \<longleftrightarrow> (\<exists>u v. s = u @ p @ v)"
proof (induction s)
  case Nil
  then show ?case by auto
next
  case (Cons c s)
  show ?case
  proof
    assume "str_contains (c # s) p"
    then consider "prefix p (c # s)" | "str_contains s p" by auto
    then show "\<exists>u v. c # s = u @ p @ v"
    proof cases
      case 1
      then obtain v where "c # s = p @ v" by (auto simp: prefix_def)
      then have "c # s = [] @ p @ v" by simp
      then show ?thesis by blast
    next
      case 2
      then obtain u v where "s = u @ p @ v" using Cons.IH by blast
      then have "c # s = (c # u) @ p @ v" by simp
      then show ?thesis by blast
    qed
  next
    assume "\<exists>u v. c # s = u @ p @ v"
    then obtain u v where "c # s = u @ p @ v" by blast
    then show "str_contains (c # s) p"
    proof (cases u)
      case Nil
      with \<open>c # s = u @ p @ v\<close> have "prefix p (c # s)" by (simp add: prefix_def)
      then show ?thesis by simp
    next
      case (Cons d u')
      with \<open>c # s = u @ p @ v\<close> have "s = u' @ p @ v" by simp
      with Cons.IH show ?thesis by auto
    qed
  qed
qed

lemma str_contains_mono [rust_str]: "str_contains s (u @ p @ v) \<Longrightarrow> str_contains s p"
  unfolding str_contains_iff by (metis append.assoc)

definition strip_prefix :: "string \<Rightarrow> string \<Rightarrow> string option" where
  "strip_prefix p s = (if prefix p s then Some (drop (length p) s) else None)"

definition strip_suffix :: "string \<Rightarrow> string \<Rightarrow> string option" where
  "strip_suffix p s = (if suffix p s then Some (take (length s - length p) s) else None)"

lemma strip_prefix_append [simp]: "strip_prefix p (p @ s) = Some s"
  by (simp add: strip_prefix_def)

lemma strip_prefix_eq_Some [rust_str]: "strip_prefix p s = Some r \<longleftrightarrow> s = p @ r"
  by (auto simp: strip_prefix_def prefix_def)

lemma strip_suffix_eq_Some [rust_str]: "strip_suffix p s = Some r \<longleftrightarrow> s = r @ p"
  by (auto simp: strip_suffix_def suffix_def)

definition trim_start :: "string \<Rightarrow> string" where
  "trim_start s = dropWhile is_ws s"

definition trim_end :: "string \<Rightarrow> string" where
  "trim_end s = rev (dropWhile is_ws (rev s))"

definition trim :: "string \<Rightarrow> string" where
  "trim s = trim_end (trim_start s)"

definition trim_matches :: "(char \<Rightarrow> bool) \<Rightarrow> string \<Rightarrow> string" where
  "trim_matches p s = rev (dropWhile p (rev (dropWhile p s)))"

lemma trim_Nil [simp]: "trim [] = []"
  by (simp add: trim_def trim_end_def trim_start_def)

lemma trim_end_id: "s = [] \<or> \<not> is_ws (last s) \<Longrightarrow> trim_end s = s"
  by (cases s rule: rev_cases) (auto simp: trim_end_def)

lemma trim_id [rust_str]: "s = [] \<or> (\<not> is_ws (hd s) \<and> \<not> is_ws (last s)) \<Longrightarrow> trim s = s"
  by (cases s) (auto simp: trim_def trim_start_def trim_end_id)

lemma trim_eq_Nil_iff [rust_str]: "trim s = [] \<longleftrightarrow> (\<forall>c \<in> set s. is_ws c)"
proof -
  have *: "dropWhile is_ws t = [] \<longleftrightarrow> (\<forall>c \<in> set t. is_ws c)" for t by simp
  have "(\<forall>c \<in> set (dropWhile is_ws s). is_ws c) \<longleftrightarrow> (\<forall>c \<in> set s. is_ws c)"
    by (induction s) auto
  then show ?thesis
    by (simp add: trim_def trim_start_def trim_end_def)
qed

lemma trim_edges: "t = trim s \<Longrightarrow> t \<noteq> [] \<Longrightarrow> \<not> is_ws (hd t) \<and> \<not> is_ws (last t)"
proof -
  assume t: "t = trim s" and ne: "t \<noteq> []"
  define u where "u = dropWhile is_ws s"
  define w where "w = dropWhile is_ws (rev u)"
  have tw: "t = rev w"
    using t by (simp add: trim_def trim_start_def trim_end_def u_def w_def)
  have w: "w \<noteq> []" using ne tw by simp
  have last: "\<not> is_ws (last t)"
    using w tw w_def by (simp add: last_rev hd_dropWhile)
  have u: "u \<noteq> []" using w w_def by auto
  have "suffix w (rev u)" unfolding w_def by (rule suffix_dropWhile)
  then have "prefix t u" using tw by (simp add: suffix_to_prefix)
  then obtain v where "u = t @ v" by (auto simp: prefix_def)
  then have "hd t = hd u" using ne by simp
  moreover have "\<not> is_ws (hd u)" using u u_def by (simp add: hd_dropWhile)
  ultimately show ?thesis using last by simp
qed

lemma trim_idem [rust_str]: "trim (trim s) = trim s"
  using trim_edges [of "trim s" s] trim_id by blast

lemma trim_end_append:
  "x \<noteq> [] \<Longrightarrow> \<not> is_ws (last x) \<Longrightarrow> trim_end (x @ y) = x @ trim_end y"
proof -
  assume "x \<noteq> []" "\<not> is_ws (last x)"
  then obtain x' c where x: "x = x' @ [c]" "\<not> is_ws c" by (cases x rule: rev_cases) auto
  show ?thesis
  proof (cases "\<forall>c \<in> set y. is_ws c")
    case True
    then have "dropWhile is_ws (rev y) = []" by simp
    then show ?thesis using True x by (simp add: trim_end_def dropWhile_append)
  next
    case False
    then show ?thesis by (auto simp: trim_end_def dropWhile_append)
  qed
qed

lemma trim_ws_append:
  assumes "\<forall>c \<in> set w. is_ws c" "x \<noteq> []" "\<not> is_ws (hd x)" "\<not> is_ws (last x)"
  shows "trim (w @ x @ y) = x @ trim_end y"
proof -
  have "dropWhile is_ws (w @ x @ y) = dropWhile is_ws (x @ y)"
    using assms(1) by (simp add: dropWhile_append2)
  also have "\<dots> = x @ y" using assms(2,3) by (cases x) auto
  finally show ?thesis using trim_end_append [OF assms(2,4)] by (simp add: trim_def trim_start_def)
qed

fun find_char :: "char \<Rightarrow> string \<Rightarrow> nat option" where
  "find_char c [] = None"
| "find_char c (x # xs) = (if x = c then Some 0 else map_option Suc (find_char c xs))"

definition rfind_char :: "char \<Rightarrow> string \<Rightarrow> nat option" where
  "rfind_char c s = map_option (\<lambda>i. length s - 1 - i) (find_char c (rev s))"

lemma find_char_None [rust_str]: "find_char c s = None \<longleftrightarrow> c \<notin> set s"
  by (induction s) auto

lemma find_char_Some [rust_str]:
  "find_char c s = Some i \<Longrightarrow> i < length s \<and> s ! i = c \<and> c \<notin> set (take i s)"
  by (induction s arbitrary: i) (auto split: if_splits simp: less_Suc_eq_0_disj)

lemma find_char_append: "c \<notin> set u \<Longrightarrow> find_char c (u @ c # v) = Some (length u)"
  by (induction u) auto

lemma rfind_char_append: "c \<notin> set v \<Longrightarrow> rfind_char c (u @ c # v) = Some (length u)"
  by (simp add: rfind_char_def find_char_append)

lemma rfind_char_Some [rust_str]:
  assumes "rfind_char c s = Some i"
  shows "i < length s \<and> s ! i = c \<and> c \<notin> set (drop (Suc i) s)"
proof -
  from assms obtain j where j: "find_char c (rev s) = Some j" and i: "i = length s - 1 - j"
    by (auto simp: rfind_char_def)
  from find_char_Some [OF j] have "j < length s" "rev s ! j = c" "c \<notin> set (take j (rev s))"
    by auto
  moreover have "take j (rev s) = rev (drop (Suc i) s)"
    using \<open>j < length s\<close> i by (simp add: take_rev Suc_diff_Suc)
  ultimately show ?thesis using i by (simp add: rev_nth)
qed

definition split_once :: "char \<Rightarrow> string \<Rightarrow> (string \<times> string) option" where
  "split_once c s = map_option (\<lambda>i. (take i s, drop (i + 1) s)) (find_char c s)"

lemma split_once_append: "c \<notin> set u \<Longrightarrow> split_once c (u @ c # v) = Some (u, v)"
  by (simp add: split_once_def find_char_append)

lemma split_once_None: "split_once c s = None \<longleftrightarrow> c \<notin> set s"
  by (simp add: split_once_def find_char_None)

fun split_on :: "char \<Rightarrow> string \<Rightarrow> string list" where
  "split_on c [] = [[]]"
| "split_on c (x # xs) =
     (if x = c then [] # split_on c xs
      else (case split_on c xs of [] \<Rightarrow> [[x]] | p # ps \<Rightarrow> (x # p) # ps))"

fun join :: "string \<Rightarrow> string list \<Rightarrow> string" where
  "join sep [] = []"
| "join sep [x] = x"
| "join sep (x # y # ys) = x @ sep @ join sep (y # ys)"

lemma split_on_not_Nil [simp]: "split_on c s \<noteq> []"
  by (induction s) (auto split: list.splits)

lemma split_on_fresh [rust_str]: "c \<notin> set s \<Longrightarrow> split_on c s = [s]"
  by (induction s) auto

lemma split_on_append [rust_str]: "c \<notin> set u \<Longrightarrow> split_on c (u @ c # v) = u # split_on c v"
  by (induction u) auto

lemma split_on_parts [rust_str]: "p \<in> set (split_on c s) \<Longrightarrow> c \<notin> set p"
  by (induction s arbitrary: p) (auto split: if_splits list.splits)

lemma hd_split_on [rust_str]: "hd (split_on c s) = takeWhile (\<lambda>x. x \<noteq> c) s"
  by (induction s) (auto split: list.splits)

lemma split_on_join: "\<forall>p \<in> set ps. c \<notin> set p \<Longrightarrow> ps \<noteq> [] \<Longrightarrow> split_on c (join [c] ps) = ps"
  by (induction "[c]" ps rule: join.induct) (auto simp: split_on_fresh split_on_append)

lemma join_split_on [rust_str]: "join [c] (split_on c s) = s"
proof (induction s)
  case Nil
  then show ?case by simp
next
  case (Cons x xs)
  obtain p ps where sp: "split_on c xs = p # ps"
    by (cases "split_on c xs") auto
  then show ?case
    using Cons.IH by (cases ps) auto
qed

definition replace_char :: "char \<Rightarrow> string \<Rightarrow> string \<Rightarrow> string" where
  "replace_char c r s = concat (map (\<lambda>x. if x = c then r else [x]) s)"

lemma replace_char_simps [simp]:
  "replace_char c r [] = []"
  "replace_char c r (x # xs) = (if x = c then r else [x]) @ replace_char c r xs"
  by (simp_all add: replace_char_def)

text \<open>\<open>str::lines\<close>: cut at line feeds, one trailing carriage return of each line dropped, no
  empty last line.\<close>

definition strip_cr :: "string \<Rightarrow> string" where
  "strip_cr l = (if l \<noteq> [] \<and> last l = CHR 0x0D then butlast l else l)"

definition str_lines :: "string \<Rightarrow> string list" where
  "str_lines s =
     (let ps = split_on (CHR 0x0A) s
      in map strip_cr (butlast ps) @ (if last ps = [] then [] else [last ps]))"

lemma split_on_lines:
  "\<forall>l \<in> set ls. CHR 0x0A \<notin> set l \<Longrightarrow>
     split_on (CHR 0x0A) (concat (map (\<lambda>l. l @ [CHR 0x0A]) ls)) = ls @ [[]]"
  by (induction ls) (auto simp: split_on_append)

lemma str_lines_concat [rust_str]:
  "\<forall>l \<in> set ls. CHR 0x0A \<notin> set l \<Longrightarrow>
     str_lines (concat (map (\<lambda>l. l @ [CHR 0x0A]) ls)) = map strip_cr ls"
  by (simp add: str_lines_def split_on_lines)

lemma strip_cr_id: "l = [] \<or> last l \<noteq> CHR 0x0D \<Longrightarrow> strip_cr l = l"
  by (auto simp: strip_cr_def)

subsection \<open>Database statements\<close>

text \<open>Which statement of a call, counted from 0, fails on its own account, and with what message.\<close>

type_synonym faults = "nat \<Rightarrow> string option"

abbreviation no_faults :: faults where "no_faults \<equiv> \<lambda>_. None"

text \<open>FTS5's reading of a phrase: after the opening quote a doubled quote stands for one and a
  single one closes the phrase, which must end there.\<close>

fun phrase_body :: "string \<Rightarrow> string option" where
  "phrase_body [] = None"
| "phrase_body [c] = (if c = CHR 0x22 then Some [] else None)"
| "phrase_body (c # d # s) =
     (if c = CHR 0x22
      then (if d = CHR 0x22 then map_option ((#) (CHR 0x22)) (phrase_body s) else None)
      else map_option ((#) c) (phrase_body (d # s)))"

definition phrase_of :: "string \<Rightarrow> string option" where
  "phrase_of s = (case s of [] \<Rightarrow> None | c # t \<Rightarrow> if c = CHR 0x22 then phrase_body t else None)"

lemma phrase_body_escaped:
  "phrase_body (replace_char (CHR 0x22) [CHR 0x22, CHR 0x22] q @ [CHR 0x22]) = Some q"
proof (induction q)
  case Nil
  then show ?case by simp
next
  case (Cons c q)
  obtain d s where "replace_char (CHR 0x22) [CHR 0x22, CHR 0x22] q @ [CHR 0x22] = d # s"
    by (cases "replace_char (CHR 0x22) [CHR 0x22, CHR 0x22] q @ [CHR 0x22]") auto
  with Cons show ?case by simp
qed

subsection \<open>Numbers in text\<close>

fun digits_val :: "nat \<Rightarrow> string \<Rightarrow> nat option" where
  "digits_val acc [] = Some acc"
| "digits_val acc (c # s) = (if is_digit c then digits_val (10 * acc + digit_val c) s else None)"

text \<open>\<open>str::parse\<close> for an unsigned type of \<open>w\<close> bits: an optional plus sign, then one or more
  digits, and an error when the value does not fit.\<close>

definition parse_uint :: "nat \<Rightarrow> string \<Rightarrow> nat option" where
  "parse_uint w s =
     (let d = (case s of [] \<Rightarrow> [] | c # t \<Rightarrow> if c = CHR ''+'' then t else s)
      in if d = [] then None
         else (case digits_val 0 d of
                 None \<Rightarrow> None
               | Some n \<Rightarrow> if n < 2 ^ w then Some n else None))"

definition digit_char :: "nat \<Rightarrow> char" where
  "digit_char d = char_of (48 + d)"

fun show_nat :: "nat \<Rightarrow> string" where
  "show_nat n = (if n < 10 then [digit_char n] else show_nat (n div 10) @ [digit_char (n mod 10)])"

declare show_nat.simps [simp del]

definition show_int :: "int \<Rightarrow> string" where
  "show_int i = (if i < 0 then ''-'' @ show_nat (nat (- i)) else show_nat (nat i))"

lemma digit_char_props [simp]:
  "d < 10 \<Longrightarrow> is_digit (digit_char d)" "d < 10 \<Longrightarrow> digit_val (digit_char d) = d"
  by (simp_all add: is_digit_def digit_char_def digit_val_def)

lemma is_digit_not: "is_digit c \<Longrightarrow> c \<noteq> CHR ''+'' \<and> c \<noteq> CHR '':'' \<and> c \<noteq> CHR ''.'' \<and> \<not> is_ws c"
  by (auto simp: is_digit_def is_ws_def)

lemma digits_val_append:
  "digits_val acc (s @ t) = (case digits_val acc s of None \<Rightarrow> None | Some n \<Rightarrow> digits_val n t)"
  by (induction s arbitrary: acc) auto

lemma digits_val_bound: "digits_val acc s = Some n \<Longrightarrow> n < (acc + 1) * 10 ^ length s"
proof (induction s arbitrary: acc)
  case (Cons c s)
  then have d: "is_digit c" and n: "digits_val (10 * acc + digit_val c) s = Some n"
    by (auto split: if_splits)
  from Cons.IH [OF n] have "n < (10 * acc + digit_val c + 1) * 10 ^ length s" .
  also have "\<dots> \<le> (10 * (acc + 1)) * 10 ^ length s"
    using d by (intro mult_right_mono) (auto simp: is_digit_def digit_val_def)
  finally show ?case by (simp add: algebra_simps)
qed auto

lemma show_nat_not_Nil [simp]: "show_nat n \<noteq> []"
  by (subst show_nat.simps) simp

lemma show_nat_digits [rust_str]: "c \<in> set (show_nat n) \<Longrightarrow> is_digit c"
proof (induction n rule: show_nat.induct)
  case (1 n)
  then show ?case by (subst (asm) (2) show_nat.simps) (auto split: if_splits)
qed

lemma digits_val_show_nat: "digits_val 0 (show_nat n) = Some n"
proof (induction n rule: show_nat.induct)
  case (1 n)
  show ?case
  proof (cases "n < 10")
    case True
    then show ?thesis by (subst show_nat.simps) simp
  next
    case False
    with "1.IH" have "digits_val 0 (show_nat (n div 10)) = Some (n div 10)" by simp
    with False show ?thesis by (subst show_nat.simps) (simp add: digits_val_append)
  qed
qed

lemma parse_show_nat [rust_str]: "n < 2 ^ w \<Longrightarrow> parse_uint w (show_nat n) = Some n"
proof -
  assume n: "n < 2 ^ w"
  obtain c t where ct: "show_nat n = c # t" by (cases "show_nat n") auto
  then have "c \<noteq> CHR ''+''" using show_nat_digits [of c n] is_digit_not by auto
  then show ?thesis
    using n ct digits_val_show_nat [of n] by (simp add: parse_uint_def Let_def)
qed

lemma parse_uint_lt: "parse_uint w s = Some n \<Longrightarrow> n < 2 ^ w"
  by (auto simp: parse_uint_def Let_def split: if_splits option.splits)

subsection \<open>Lists\<close>

lemma list_split_at_pred:
  "takeWhile P xs @ dropWhile P xs = xs"
  by simp

lemma find_Some_mem: "List.find P xs = Some x \<Longrightarrow> x \<in> set xs \<and> P x"
  by (metis find_Some_iff nth_mem)

text \<open>\<open>Iterator::find_map\<close>.\<close>

fun find_map :: "('a \<Rightarrow> 'b option) \<Rightarrow> 'a list \<Rightarrow> 'b option" where
  "find_map f [] = None"
| "find_map f (x # xs) = (case f x of None \<Rightarrow> find_map f xs | Some y \<Rightarrow> Some y)"

lemma find_map_Some: "find_map f xs = Some y \<Longrightarrow> \<exists>x \<in> set xs. f x = Some y"
  by (induction xs) (auto split: option.splits)

lemma find_map_None [simp]: "find_map f xs = None \<longleftrightarrow> (\<forall>x \<in> set xs. f x = None)"
  by (induction xs) (auto split: option.splits)

lemma find_map_cong: "(\<And>x. x \<in> set xs \<Longrightarrow> f x = g x) \<Longrightarrow> find_map f xs = find_map g xs"
  by (induction xs) (auto split: option.splits)

definition nonempty :: "string \<Rightarrow> string option" where
  "nonempty s = (if s = [] then None else Some s)"

lemma nonempty_eq_Some: "nonempty s = Some t \<longleftrightarrow> s = t \<and> t \<noteq> []"
  by (auto simp: nonempty_def)

lemma find_append:
  "List.find P (xs @ ys) = (case List.find P xs of None \<Rightarrow> List.find P ys | Some x \<Rightarrow> Some x)"
  by (induction xs) auto

lemma filter_map_conv: "List.map_filter f xs = map (the \<circ> f) (filter (\<lambda>x. f x \<noteq> None) xs)"
  by (induction xs) (auto simp: List.map_filter_def)

text \<open>\<open>slice::chunks\<close> for a positive size; size 0 panics and is excluded by the callers.\<close>

fun chunks_of :: "nat \<Rightarrow> 'a list \<Rightarrow> 'a list list" where
  "chunks_of n xs = (if n = 0 \<or> xs = [] then [] else take n xs # chunks_of n (drop n xs))"

declare chunks_of.simps [simp del]

lemma chunks_of_lengths: "n > 0 \<Longrightarrow> length (chunks_of n xs) = (length xs + n - 1) div n"
proof (induction n xs rule: chunks_of.induct)
  case (1 n xs)
  show ?case
  proof (cases "xs = []")
    case True
    with "1.prems" show ?thesis by (simp add: chunks_of.simps)
  next
    case False
    with 1 have IH: "length (chunks_of n (drop n xs)) = (length xs - n + n - 1) div n" by simp
    from False "1.prems" have "length (chunks_of n xs) = Suc (length (chunks_of n (drop n xs)))"
      by (subst chunks_of.simps) simp
    also have "\<dots> = (length xs + n - 1) div n"
    proof -
      have "length xs + n - 1 = (length xs - 1) + n" using False by (cases xs) auto
      then have r: "(length xs + n - 1) div n = Suc ((length xs - 1) div n)"
        using "1.prems" by (simp only: div_add_self2)
      show ?thesis
      proof (cases "n \<le> length xs")
        case True
        then show ?thesis using IH r by simp
      next
        case n: False
        then show ?thesis using IH r "1.prems" by simp
      qed
    qed
    finally show ?thesis .
  qed
qed

lemma chunks_of_concat: "n > 0 \<Longrightarrow> concat (chunks_of n xs) = xs"
proof (induction n xs rule: chunks_of.induct)
  case (1 n xs)
  then show ?case by (subst chunks_of.simps) auto
qed

lemma chunks_of_eq_map:
  "n > 0 \<Longrightarrow> chunks_of n xs = map (\<lambda>k. take n (drop (k * n) xs)) [0..<(length xs + n - 1) div n]"
proof (induction n xs rule: chunks_of.induct)
  case (1 n xs)
  show ?case
  proof (cases "xs = []")
    case True
    with "1.prems" show ?thesis by (simp add: chunks_of.simps)
  next
    case False
    let ?l = "(length (drop n xs) + n - 1) div n"
    from False "1.prems" have step: "chunks_of n xs = take n xs # chunks_of n (drop n xs)"
      by (subst chunks_of.simps) simp
    have "(length xs + n - 1) div n = Suc ?l"
      using chunks_of_lengths [OF "1.prems", of xs] chunks_of_lengths [OF "1.prems", of "drop n xs"]
      by (simp add: step)
    moreover have "[0..<Suc ?l] = 0 # map Suc [0..<?l]"
      by (simp add: upt_conv_Cons map_Suc_upt del: upt_Suc)
    ultimately show ?thesis
      using "1.IH" False "1.prems" by (simp add: step add.commute)
  qed
qed

end
