(* ===== verification/Audio.thy ===== *)
theory Audio
  imports Rust_Prelude
begin

text \<open>
  The microphone of \<open>src-tauri/src/audio.rs\<close>: the recorder's state, opening and closing the input
  stream, draining the buffer, and what the stream's callback appends.

  The sound card (cpal) is a parameter: which device there is, the configuration it reports and
  whether a stream can be built and played. Samples are real numbers.
\<close>

datatype sample_format = F32 | I16 | U16 | OtherFormat string

text \<open>What a callback delivers, in the format of the stream.\<close>

datatype raw = RawF32 "real list" | RawI16 "16 word list" | RawU16 "16 word list"

record input_device =
  default_config :: "(32 word \<times> nat \<times> sample_format) res"
  build_stream :: "unit res"
  play :: "unit res"

record audio_recorder =
  mic_buffer :: "real list"
  native_sample_rate :: "32 word"
  stream :: "(nat \<times> sample_format) option"

definition recorder_new :: audio_recorder where
  "recorder_new = \<lparr>mic_buffer = [], native_sample_rate = 16000, stream = None\<rparr>"

text \<open>\<open>AudioRecorder::start\<close>: the rate of the device is stored before the stream is built, so a
  start that fails afterwards leaves the new rate behind.\<close>

definition mic_start :: "input_device option \<Rightarrow> audio_recorder \<Rightarrow> audio_recorder \<times> unit res" where
  "mic_start dev r =
     (case dev of
        None \<Rightarrow> (r, Inl ''No default input device found'')
      | Some d \<Rightarrow>
          (case default_config d of
             Inl e \<Rightarrow> (r, Inl e)
           | Inr (rate, channels, format) \<Rightarrow>
               let r1 = r\<lparr>native_sample_rate := rate\<rparr> in
               (case format of
                  OtherFormat f \<Rightarrow> (r1, Inl (''Unsupported sample format: '' @ f))
                | _ \<Rightarrow>
                    (case build_stream d of
                       Inl e \<Rightarrow> (r1, Inl e)
                     | Inr _ \<Rightarrow>
                         (case play d of
                            Inl e \<Rightarrow> (r1, Inl e)
                          | Inr _ \<Rightarrow> (r1\<lparr>stream := Some (channels, format)\<rparr>, Inr ()))))))"

definition mic_stop :: "audio_recorder \<Rightarrow> audio_recorder" where
  "mic_stop r = r\<lparr>stream := None, mic_buffer := []\<rparr>"

definition drain :: "audio_recorder \<Rightarrow> audio_recorder \<times> real list" where
  "drain r = (r\<lparr>mic_buffer := []\<rparr>, mic_buffer r)"

text \<open>\<open>push_mono\<close>: the average of each frame of interleaved channels is appended. \<open>chunks(0)\<close>
  panics.\<close>

definition push_mono :: "real list \<Rightarrow> nat \<Rightarrow> real list \<Rightarrow> real list outcome" where
  "push_mono data channels buf =
     (if channels = 1 then Done (buf @ data)
      else if channels = 0 then Panicked
      else Done (buf @ map (\<lambda>frame. sum_list frame / real channels) (chunks_of channels data)))"

text \<open>The conversions in the callbacks of the three stream formats.\<close>

definition to_f32 :: "raw \<Rightarrow> real list" where
  "to_f32 d =
     (case d of
        RawF32 xs \<Rightarrow> xs
      | RawI16 xs \<Rightarrow> map (\<lambda>s. real_of_int (sint s) / 32767) xs
      | RawU16 xs \<Rightarrow> map (\<lambda>s. real (unat s) / 65535 * 2 - 1) xs)"

definition format_of :: "raw \<Rightarrow> sample_format" where
  "format_of d = (case d of RawF32 _ \<Rightarrow> F32 | RawI16 _ \<Rightarrow> I16 | RawU16 _ \<Rightarrow> U16)"

text \<open>One call of the stream's callback; a recorder without a stream gets none.\<close>

definition mic_callback :: "raw \<Rightarrow> audio_recorder \<Rightarrow> audio_recorder outcome" where
  "mic_callback d r =
     (case stream r of
        None \<Rightarrow> Done r
      | Some (channels, _) \<Rightarrow>
          (case push_mono (to_f32 d) channels (mic_buffer r) of
             Done b \<Rightarrow> Done (r\<lparr>mic_buffer := b\<rparr>)
           | Panicked \<Rightarrow> Panicked))"

lemma mic_start_frame:
  "mic_start dev r = (r', res) \<Longrightarrow> mic_buffer r' = mic_buffer r \<and>
     (stream r' = stream r \<or> stream r' \<noteq> None \<and> res = Inr ()) \<and>
     (res = Inr () \<longrightarrow> stream r' \<noteq> None)"
  by (auto simp: mic_start_def Let_def split: option.splits sum.splits prod.splits
      sample_format.splits)

lemma mic_start_Inr:
  assumes "mic_start dev r = (r', Inr u)"
  shows "\<exists>d rate ch f. dev = Some d \<and> default_config d = Inr (rate, ch, f) \<and>
    r' = r\<lparr>native_sample_rate := rate, stream := Some (ch, f)\<rparr>"
  using assms
  by (auto simp: mic_start_def Let_def split: option.splits sum.splits prod.splits
      sample_format.splits)

end
