(* ===== verification/Transcription.thy ===== *)
theory Transcription
  imports Rust_Prelude
begin

text \<open>
  The transcription pipeline of \<open>src-tauri/src/transcription.rs\<close>: the silence detector that cuts
  the microphone stream into utterances, the resampler, the filter on Whisper's output.

  Samples are \<open>real\<close>: the model computes \<open>f32\<close> and \<open>f64\<close> arithmetic exactly. Sizes and counters
  (\<open>usize\<close>) are \<open>nat\<close>; the products of \<open>SilenceDetector::new\<close> are \<open>u32\<close> and wrap, as the release
  build does. The \<open>while\<close> loop of \<open>push\<close> is \<open>scan\<close>, a partial function: a loop that never
  ends is the value \<open>None\<close>.

  The interface \<open>chunker\<close> is what the dictation client relies on: no sample is lost, duplicated or
  reordered between what is pushed and what comes out as chunks. The detector provides it.
\<close>

section \<open>The interface of a chunker\<close>

text \<open>Feeding a list of sample blocks, collecting the chunks that come out.\<close>

fun feed :: "('d \<Rightarrow> 'a list \<Rightarrow> ('d \<times> 'a list option) option) \<Rightarrow> 'd \<Rightarrow> 'a list list
    \<Rightarrow> ('d \<times> 'a list list) option" where
  "feed p d [] = Some (d, [])"
| "feed p d (s # ss) =
     (case p d s of
        None \<Rightarrow> None
      | Some (d1, r) \<Rightarrow>
          (case feed p d1 ss of
             None \<Rightarrow> None
           | Some (d2, cs) \<Rightarrow> Some (d2, (case r of None \<Rightarrow> cs | Some c \<Rightarrow> c # cs))))"

locale chunker =
  fixes ok :: "'d \<Rightarrow> bool"
    and pending :: "'d \<Rightarrow> 'a list"
    and push :: "'d \<Rightarrow> 'a list \<Rightarrow> ('d \<times> 'a list option) option"
    and flush :: "'d \<Rightarrow> 'd \<times> 'a list option"
  assumes push_total: "ok d \<Longrightarrow> \<exists>d' r. push d s = Some (d', r)"
    and push_ok: "ok d \<Longrightarrow> push d s = Some (d', r) \<Longrightarrow> ok d'"
    and push_keep: "push d s = Some (d', None) \<Longrightarrow> pending d' = pending d @ s"
    and push_emit: "push d s = Some (d', Some c) \<Longrightarrow> pending d' = [] \<and> c = pending d @ s"
    and flush_ok: "ok d \<Longrightarrow> ok (fst (flush d))"
    and flush_empty: "pending (fst (flush d)) = []"
    and flush_emit: "snd (flush d) = Some c \<Longrightarrow> c = pending d"
begin

lemma push_conserves:
  "push d s = Some (d', r) \<Longrightarrow>
     (case r of None \<Rightarrow> [] | Some c \<Rightarrow> c) @ pending d' = pending d @ s"
  by (cases r) (auto dest: push_keep push_emit)

lemma feed_total: "ok d \<Longrightarrow> \<exists>d' cs. feed push d ss = Some (d', cs) \<and> ok d'"
proof (induction ss arbitrary: d)
  case Nil
  then show ?case by simp
next
  case (Cons s ss)
  from push_total [OF Cons.prems] obtain d1 r where p: "push d s = Some (d1, r)" by blast
  with Cons.prems have "ok d1" by (rule push_ok)
  from Cons.IH [OF this] p show ?case by auto
qed

lemma feed_conserves:
  "feed push d ss = Some (d', cs) \<Longrightarrow> concat cs @ pending d' = pending d @ concat ss"
proof (induction ss arbitrary: d cs)
  case Nil
  then show ?case by simp
next
  case (Cons s ss)
  then obtain d1 r cs' where p: "push d s = Some (d1, r)"
    and f: "feed push d1 ss = Some (d', cs')"
    and cs: "cs = (case r of None \<Rightarrow> cs' | Some c \<Rightarrow> c # cs')"
    by (auto split: option.splits)
  note IH = Cons.IH [OF f] and c = push_conserves [OF p]
  show ?case
  proof (cases r)
    case None
    with IH c cs show ?thesis by simp
  next
    case (Some x)
    with c have "x @ pending d1 = pending d @ s" by simp
    then have "x @ pending d1 @ concat ss = pending d @ s @ concat ss" by (metis append_assoc)
    with IH cs Some show ?thesis by simp
  qed
qed

text \<open>Stopping: push the rest, and flush when that gave no chunk.\<close>

lemma stop_conserves:
  assumes "push d s = Some (d1, r)"
    and "(d2, c) = (case r of Some x \<Rightarrow> (d1, Some x) | None \<Rightarrow> flush d1)"
  shows "pending d2 = [] \<and> (\<forall>x. c = Some x \<longrightarrow> x = pending d @ s)"
proof (cases r)
  case None
  with assms have "d2 = fst (flush d1)" "c = snd (flush d1)"
    by (auto simp: prod_eq_iff)
  with assms None show ?thesis
    using flush_empty flush_emit push_keep by metis
next
  case (Some x)
  with assms show ?thesis using push_emit by auto
qed

end

section \<open>The silence detector\<close>

record silence_detector =
  threshold :: real
  silence_frames_needed :: nat
  min_chunk_samples :: nat
  max_chunk_samples :: nat
  frame_size :: nat
  buffer :: "real list"
  silent_frames :: nat
  cursor :: nat
  speech_samples :: nat

definition detector_new :: "32 word \<Rightarrow> real \<Rightarrow> 32 word \<Rightarrow> 32 word \<Rightarrow> 32 word \<Rightarrow> silence_detector" where
  "detector_new sample_rate thr silence_ms min_chunk_ms max_chunk_ms =
     (let frame_ms = 20 in
      \<lparr>threshold = thr,
       silence_frames_needed = unat (silence_ms div frame_ms),
       min_chunk_samples = unat (sample_rate * min_chunk_ms div 1000),
       max_chunk_samples = unat (sample_rate * max_chunk_ms div 1000),
       frame_size = unat (sample_rate * frame_ms div 1000),
       buffer = [], silent_frames = 0, cursor = 0, speech_samples = 0\<rparr>)"

definition rms :: "real list \<Rightarrow> real" where
  "rms samples =
     (if samples = [] then 0
      else sqrt (sum_list (map (\<lambda>s. s * s) samples) / real (length samples)))"

definition take_buffer :: "silence_detector \<Rightarrow> silence_detector \<times> real list" where
  "take_buffer d =
     (d\<lparr>silent_frames := 0, cursor := 0, speech_samples := 0, buffer := []\<rparr>, buffer d)"

text \<open>One turn of the loop of \<open>push\<close>: classify the frame at the cursor and advance.\<close>

definition frame_step :: "silence_detector \<Rightarrow> silence_detector" where
  "frame_step d =
     (let frame = take (frame_size d) (drop (cursor d) (buffer d));
          d1 = (if rms frame < threshold d then d\<lparr>silent_frames := silent_frames d + 1\<rparr>
                else d\<lparr>silent_frames := 0, speech_samples := speech_samples d + frame_size d\<rparr>)
      in d1\<lparr>cursor := cursor d1 + frame_size d1\<rparr>)"

partial_function (option) scan ::
    "silence_detector \<Rightarrow> (silence_detector \<times> real list option) option" where
  "scan d =
     (if cursor d + frame_size d \<le> length (buffer d) then
        (if silence_frames_needed d \<le> silent_frames (frame_step d) \<and>
            min_chunk_samples d \<le> speech_samples (frame_step d)
         then Some (fst (take_buffer (frame_step d)), Some (snd (take_buffer (frame_step d))))
         else scan (frame_step d))
      else Some (d, None))"

definition push :: "silence_detector \<Rightarrow> real list
    \<Rightarrow> (silence_detector \<times> real list option) option" where
  "push d samples =
     (let d1 = d\<lparr>buffer := buffer d @ samples\<rparr> in
      if max_chunk_samples d1 \<le> length (buffer d1)
      then Some (fst (take_buffer d1), Some (snd (take_buffer d1)))
      else scan d1)"

definition flush :: "silence_detector \<Rightarrow> silence_detector \<times> real list option" where
  "flush d =
     (if min_chunk_samples d \<le> speech_samples d
      then (fst (take_buffer d), Some (snd (take_buffer d)))
      else (d\<lparr>buffer := [], cursor := 0, speech_samples := 0, silent_frames := 0\<rparr>, None))"

lemma frame_step_frame [simp]:
  "buffer (frame_step d) = buffer d" "frame_size (frame_step d) = frame_size d"
  "threshold (frame_step d) = threshold d"
  "silence_frames_needed (frame_step d) = silence_frames_needed d"
  "min_chunk_samples (frame_step d) = min_chunk_samples d"
  "max_chunk_samples (frame_step d) = max_chunk_samples d"
  "cursor (frame_step d) = cursor d + frame_size d"
  by (simp_all add: frame_step_def Let_def)

lemma take_buffer_simps [simp]:
  "snd (take_buffer d) = buffer d" "buffer (fst (take_buffer d)) = []"
  "cursor (fst (take_buffer d)) = 0" "speech_samples (fst (take_buffer d)) = 0"
  "silent_frames (fst (take_buffer d)) = 0" "frame_size (fst (take_buffer d)) = frame_size d"
  "threshold (fst (take_buffer d)) = threshold d"
  "silence_frames_needed (fst (take_buffer d)) = silence_frames_needed d"
  "min_chunk_samples (fst (take_buffer d)) = min_chunk_samples d"
  "max_chunk_samples (fst (take_buffer d)) = max_chunk_samples d"
  by (simp_all add: take_buffer_def)

section \<open>What the detector computes: a reference over the whole buffer\<close>

text \<open>
  The reference looks at the buffer as a sequence of complete frames. \<open>trailing\<close> is the length
  of the run of silent frames that ends the first \<open>n\<close> frames, \<open>speech\<close> the number of samples in
  the frames that are not silent. The detector's counters are these two numbers for the frames
  before the cursor, so they are a function of the buffer alone.
\<close>

definition nth_frame :: "silence_detector \<Rightarrow> nat \<Rightarrow> real list" where
  "nth_frame d i = take (frame_size d) (drop (i * frame_size d) (buffer d))"

definition is_silent :: "silence_detector \<Rightarrow> nat \<Rightarrow> bool" where
  "is_silent d i = (rms (nth_frame d i) < threshold d)"

fun trailing :: "silence_detector \<Rightarrow> nat \<Rightarrow> nat" where
  "trailing d 0 = 0"
| "trailing d (Suc n) = (if is_silent d n then trailing d n + 1 else 0)"

fun speech :: "silence_detector \<Rightarrow> nat \<Rightarrow> nat" where
  "speech d 0 = 0"
| "speech d (Suc n) = (if is_silent d n then speech d n else speech d n + frame_size d)"

definition boundary :: "silence_detector \<Rightarrow> nat \<Rightarrow> bool" where
  "boundary d n = (silence_frames_needed d \<le> trailing d n \<and> min_chunk_samples d \<le> speech d n)"

definition counted :: "silence_detector \<Rightarrow> nat \<Rightarrow> bool" where
  "counted d n = (cursor d = n * frame_size d \<and> silent_frames d = trailing d n \<and>
     speech_samples d = speech d n)"

definition settled :: "silence_detector \<Rightarrow> silence_detector" where
  "settled d =
     (let n = length (buffer d) div frame_size d
      in d\<lparr>silent_frames := trailing d n, cursor := n * frame_size d, speech_samples := speech d n\<rparr>)"

text \<open>The state between two calls: positive frame size, cursor on a frame border inside the
  buffer, counters that count the frames before it.\<close>

definition detector_ok :: "silence_detector \<Rightarrow> bool" where
  "detector_ok d = (0 < frame_size d \<and> cursor d \<le> length (buffer d) \<and>
     counted d (cursor d div frame_size d))"

lemma is_silent_cong:
  "buffer d' = buffer d \<Longrightarrow> frame_size d' = frame_size d \<Longrightarrow> threshold d' = threshold d \<Longrightarrow>
     is_silent d' = is_silent d"
  by (simp add: is_silent_def nth_frame_def fun_eq_iff)

lemma counts_cong:
  assumes "\<And>i. i < n \<Longrightarrow> is_silent d' i = is_silent d i" "frame_size d' = frame_size d"
  shows "trailing d' n = trailing d n" "speech d' n = speech d n"
  using assms by (induction n) auto

lemma frame_step_is_silent [simp]: "is_silent (frame_step d) = is_silent d"
  by (rule is_silent_cong) simp_all

lemma frame_step_counts [simp]:
  "trailing (frame_step d) n = trailing d n" "speech (frame_step d) n = speech d n"
  by (rule counts_cong, simp_all)+

lemma frame_step_boundary [simp]: "boundary (frame_step d) n = boundary d n"
  by (simp add: boundary_def)

lemma counted_frame_step:
  assumes "counted d n" shows "counted (frame_step d) (Suc n)"
proof -
  from assms have c: "cursor d = n * frame_size d" and s: "silent_frames d = trailing d n"
    and p: "speech_samples d = speech d n" by (simp_all add: counted_def)
  have "is_silent d n = (rms (take (frame_size d) (drop (cursor d) (buffer d))) < threshold d)"
    by (simp add: is_silent_def nth_frame_def c)
  then show ?thesis
    using c s p unfolding counted_def frame_step_counts
    by (simp add: frame_step_def Let_def)
qed

lemma frame_step_take_buffer [simp]: "fst (take_buffer (frame_step d)) = fst (take_buffer d)"
  by (simp add: frame_step_def take_buffer_def Let_def)

lemma settled_frame_step [simp]: "settled (frame_step d) = settled d"
proof -
  have "settled (frame_step d) =
      (let n = length (buffer d) div frame_size d
       in (frame_step d)\<lparr>silent_frames := trailing d n, cursor := n * frame_size d,
             speech_samples := speech d n\<rparr>)"
    by (simp add: settled_def Let_def)
  then show ?thesis by (simp add: settled_def frame_step_def Let_def)
qed

lemma settled_counted:
  assumes "counted d n" "n = length (buffer d) div frame_size d"
  shows "settled d = d"
  using assms by (simp add: counted_def settled_def Let_def)

lemma settled_id:
  assumes "counted d n" "0 < frame_size d" "cursor d \<le> length (buffer d)"
    "length (buffer d) < cursor d + frame_size d"
  shows "settled d = d"
proof (rule settled_counted [OF assms(1)])
  from assms have "n * frame_size d \<le> length (buffer d)"
    "length (buffer d) < n * frame_size d + frame_size d"
    by (simp_all add: counted_def)
  then show "n = length (buffer d) div frame_size d"
    by (metis add.commute div_nat_eqI mult.commute mult_Suc)
qed

text \<open>The loop finds the first frame border at which an utterance ends.\<close>

definition utterance_ends :: "silence_detector \<Rightarrow> nat \<Rightarrow> bool" where
  "utterance_ends d n =
     (\<exists>m. n < m \<and> m \<le> length (buffer d) div frame_size d \<and> boundary d m)"

lemma utterance_ends_frame_step [simp]: "utterance_ends (frame_step d) n = utterance_ends d n"
  by (simp add: utterance_ends_def)

lemma utterance_ends_Suc: "\<not> boundary d (Suc n) \<Longrightarrow> utterance_ends d n = utterance_ends d (Suc n)"
  unfolding utterance_ends_def by (metis Suc_lessD Suc_lessI)

lemma scan_spec:
  assumes "0 < frame_size d" "counted d n" "cursor d \<le> length (buffer d)"
  shows "scan d =
    Some (if utterance_ends d n then (fst (take_buffer d), Some (buffer d)) else (settled d, None))"
  using assms
proof (induction "length (buffer d) - cursor d" arbitrary: d n rule: less_induct)
  case (less d n)
  let ?k = "frame_size d" and ?N = "length (buffer d) div frame_size d"
  have cur: "cursor d = n * ?k" using less.prems by (simp add: counted_def)
  show ?case
  proof (cases "cursor d + ?k \<le> length (buffer d)")
    case False
    then have "length (buffer d) < (n + 1) * ?k" using cur by simp
    then have "?N < n + 1" using less.prems(1) by (simp add: div_less_iff_less_mult)
    then have "\<not> utterance_ends d n" by (auto simp: utterance_ends_def)
    moreover have "settled d = d"
      using settled_id less.prems False by simp
    ultimately show ?thesis using False by (subst scan.simps) simp
  next
    case True
    have cnt: "counted (frame_step d) (Suc n)" by (rule counted_frame_step) (rule less.prems)
    have "Suc n * ?k \<le> length (buffer d)" using True cur by simp
    then have le: "Suc n \<le> ?N" using less.prems(1) by (simp add: less_eq_div_iff_mult_less_eq)
    have here: "(silence_frames_needed d \<le> silent_frames (frame_step d) \<and>
        min_chunk_samples d \<le> speech_samples (frame_step d)) = boundary d (Suc n)"
      using cnt by (simp add: boundary_def counted_def)
    show ?thesis
    proof (cases "boundary d (Suc n)")
      case b: True
      then have "utterance_ends d n" using le unfolding utterance_ends_def by blast
      with b here True show ?thesis by (subst scan.simps) simp
    next
      case nb: False
      have "scan (frame_step d) =
          Some (if utterance_ends (frame_step d) (Suc n)
            then (fst (take_buffer (frame_step d)), Some (buffer (frame_step d)))
            else (settled (frame_step d), None))"
        by (rule less.hyps) (use less.prems(1) True cnt in simp_all)
      then have "scan (frame_step d) =
          Some (if utterance_ends d n then (fst (take_buffer d), Some (buffer d))
            else (settled d, None))"
        using utterance_ends_Suc [OF nb] by simp
      then show ?thesis using nb here True by (subst scan.simps) simp
    qed
  qed
qed

section \<open>The contract of \<open>push\<close> and \<open>flush\<close>\<close>

lemma detector_ok_counted: "detector_ok d \<Longrightarrow> cursor d = (cursor d div frame_size d) * frame_size d"
  by (simp add: detector_ok_def counted_def)

lemma counted_extend:
  assumes "counted d n" "cursor d \<le> length (buffer d)" "0 < frame_size d"
  shows "counted (d\<lparr>buffer := buffer d @ s\<rparr>) n"
proof -
  let ?d = "d\<lparr>buffer := buffer d @ s\<rparr>"
  have "is_silent ?d i = is_silent d i" if "i < n" for i
  proof -
    have "Suc i * frame_size d \<le> n * frame_size d" using that by (intro mult_right_mono) auto
    also have "\<dots> \<le> length (buffer d)" using assms by (simp add: counted_def)
    finally have "i * frame_size d + frame_size d \<le> length (buffer d)" by simp
    then show ?thesis by (simp add: is_silent_def nth_frame_def)
  qed
  then have "trailing ?d n = trailing d n" "speech ?d n = speech d n"
    by (auto intro!: counts_cong)
  with assms(1) show ?thesis by (simp add: counted_def)
qed

lemma settled_simps [simp]:
  "buffer (settled d) = buffer d" "frame_size (settled d) = frame_size d"
  "threshold (settled d) = threshold d"
  "silence_frames_needed (settled d) = silence_frames_needed d"
  "min_chunk_samples (settled d) = min_chunk_samples d"
  "max_chunk_samples (settled d) = max_chunk_samples d"
  "cursor (settled d) = length (buffer d) div frame_size d * frame_size d"
  "silent_frames (settled d) = trailing d (length (buffer d) div frame_size d)"
  "speech_samples (settled d) = speech d (length (buffer d) div frame_size d)"
  by (simp_all add: settled_def Let_def)

lemma settled_counts [simp]:
  "trailing (settled d) n = trailing d n" "speech (settled d) n = speech d n"
proof -
  have "is_silent (settled d) = is_silent d" by (rule is_silent_cong) simp_all
  then show "trailing (settled d) n = trailing d n" "speech (settled d) n = speech d n"
    by (auto intro!: counts_cong)
qed

lemma settled_ok: "0 < frame_size d \<Longrightarrow> detector_ok (settled d)"
  by (simp add: detector_ok_def counted_def)

lemma take_buffer_ok: "0 < frame_size d \<Longrightarrow> detector_ok (fst (take_buffer d))"
  by (simp add: detector_ok_def counted_def)

lemma push_cases:
  assumes "detector_ok d" and b: "b = d\<lparr>buffer := buffer d @ s\<rparr>"
  shows "push d s =
    Some (if max_chunk_samples d \<le> length (buffer d @ s) \<or> utterance_ends b (cursor d div frame_size d)
          then (fst (take_buffer d), Some (buffer d @ s)) else (settled b, None))"
proof -
  from assms(1) have k: "0 < frame_size d" and c: "counted d (cursor d div frame_size d)"
    and le: "cursor d \<le> length (buffer d)" by (simp_all add: detector_ok_def)
  have "counted b (cursor d div frame_size d)"
    unfolding b by (rule counted_extend [OF c le k])
  from scan_spec [OF _ this] k le have
    "scan b = Some (if utterance_ends b (cursor d div frame_size d)
        then (fst (take_buffer b), Some (buffer b)) else (settled b, None))"
    by (simp add: b)
  moreover have "fst (take_buffer b) = fst (take_buffer d)" "buffer b = buffer d @ s"
    "max_chunk_samples b = max_chunk_samples d"
    by (simp_all add: b take_buffer_def)
  ultimately show ?thesis by (simp add: push_def b [symmetric] Let_def)
qed

definition emits_rest :: "silence_detector \<Rightarrow> silence_detector \<times> real list option \<Rightarrow> bool" where
  "emits_rest d y = (case snd y of None \<Rightarrow> buffer (fst y) = buffer d
      | Some c \<Rightarrow> buffer (fst y) = [] \<and> c = buffer d)"

lemma scan_conserves:
  assumes "scan d = Some y" shows "emits_rest d y"
proof (rule scan.raw_induct [where P = emits_rest, OF _ assms])
  fix f :: "silence_detector \<Rightarrow> (silence_detector \<times> real list option) option" and d y
  assume IH: "\<And>d y. f d = Some y \<Longrightarrow> emits_rest d y"
    and eq: "(if cursor d + frame_size d \<le> length (buffer d) then
        (if silence_frames_needed d \<le> silent_frames (frame_step d) \<and>
            min_chunk_samples d \<le> speech_samples (frame_step d)
         then Some (fst (take_buffer (frame_step d)), Some (snd (take_buffer (frame_step d))))
         else f (frame_step d))
      else Some (d, None)) = Some y"
  have "f (frame_step d) = Some y \<Longrightarrow> emits_rest d y"
    using IH [of "frame_step d" y] by (cases "snd y") (simp_all add: emits_rest_def)
  with eq show "emits_rest d y"
    by (auto split: if_splits) (auto simp: emits_rest_def)
qed

lemma detector_push_conserves:
  "push d s = Some y \<Longrightarrow> emits_rest (d\<lparr>buffer := buffer d @ s\<rparr>) y"
  unfolding push_def Let_def
  by (auto split: if_splits dest: scan_conserves) (simp add: emits_rest_def)

lemma push_detector_ok [wf_intros]:
  assumes "detector_ok d" "push d s = Some (d', r)" shows "detector_ok d'"
proof -
  have k: "0 < frame_size d" using assms(1) by (simp add: detector_ok_def)
  then have "detector_ok (fst (take_buffer d))" "detector_ok (settled (d\<lparr>buffer := buffer d @ s\<rparr>))"
    by (simp_all add: take_buffer_ok settled_ok)
  then show ?thesis
    using assms(2) unfolding push_cases [OF assms(1) refl] by (auto split: if_splits)
qed

lemma flush_detector_ok [wf_intros]: "detector_ok d \<Longrightarrow> detector_ok (fst (flush d))"
  by (simp add: flush_def detector_ok_def counted_def)

interpretation det: chunker detector_ok buffer push flush
proof
  fix d s d' r c
  show "detector_ok d \<Longrightarrow> \<exists>d' r. push d s = Some (d', r)"
    by (auto simp: push_cases [OF _ refl])
  show "detector_ok d \<Longrightarrow> push d s = Some (d', r) \<Longrightarrow> detector_ok d'"
    by (rule push_detector_ok)
  show "push d s = Some (d', None) \<Longrightarrow> buffer d' = buffer d @ s"
    by (drule detector_push_conserves) (simp add: emits_rest_def)
  show "push d s = Some (d', Some c) \<Longrightarrow> buffer d' = [] \<and> c = buffer d @ s"
    by (drule detector_push_conserves) (simp add: emits_rest_def)
  show "detector_ok d \<Longrightarrow> detector_ok (fst (flush d))" by (rule flush_detector_ok)
  show "buffer (fst (flush d)) = []" by (simp add: flush_def)
  show "snd (flush d) = Some c \<Longrightarrow> c = buffer d" by (simp add: flush_def split: if_splits)
qed

section \<open>Properties of the detector\<close>

lemma boundary_cong:
  assumes "buffer d' = buffer d" "frame_size d' = frame_size d" "threshold d' = threshold d"
    "silence_frames_needed d' = silence_frames_needed d" "min_chunk_samples d' = min_chunk_samples d"
  shows "boundary d' n = boundary d n"
proof -
  have "is_silent d' = is_silent d" by (rule is_silent_cong) (rule assms)+
  then have "trailing d' n = trailing d n" "speech d' n = speech d n"
    using assms by (auto intro!: counts_cong)
  with assms show ?thesis by (simp add: boundary_def)
qed

lemma boundary_prefix:
  assumes "n * frame_size d \<le> length (buffer d)"
  shows "boundary (d\<lparr>buffer := buffer d @ s\<rparr>) n = boundary d n"
proof -
  let ?d = "d\<lparr>buffer := buffer d @ s\<rparr>"
  have "is_silent ?d i = is_silent d i" if "i < n" for i
  proof -
    have "Suc i * frame_size d \<le> n * frame_size d" using that by (intro mult_right_mono) auto
    with assms have "i * frame_size d + frame_size d \<le> length (buffer d)" by simp
    then show ?thesis by (simp add: is_silent_def nth_frame_def)
  qed
  then have "trailing ?d n = trailing d n" "speech ?d n = speech d n"
    by (auto intro!: counts_cong)
  then show ?thesis by (simp add: boundary_def)
qed

lemma speech_le: "speech d n \<le> n * frame_size d"
  by (induction n) auto

lemma settled_cong:
  assumes "d'\<lparr>silent_frames := 0, cursor := 0, speech_samples := 0\<rparr> =
           d\<lparr>silent_frames := 0, cursor := 0, speech_samples := 0\<rparr>"
  shows "settled d' = settled d"
proof -
  have eq: "buffer d' = buffer d" "frame_size d' = frame_size d" "threshold d' = threshold d"
    "silence_frames_needed d' = silence_frames_needed d" "min_chunk_samples d' = min_chunk_samples d"
    "max_chunk_samples d' = max_chunk_samples d" "more d' = more d"
    using assms by (cases d, cases d', simp)+
  have "is_silent d' = is_silent d" by (rule is_silent_cong) (rule eq)+
  then have "trailing d' n = trailing d n" "speech d' n = speech d n" for n
    using eq by (auto intro!: counts_cong)
  with eq show ?thesis by (cases d, cases d') (simp add: settled_def Let_def)
qed

lemma detector_new_fields [simp]:
  "buffer (detector_new r t a b c) = []" "cursor (detector_new r t a b c) = 0"
  "speech_samples (detector_new r t a b c) = 0"
  "frame_size (detector_new r t a b c) = unat (r * 20 div 1000)"
  "min_chunk_samples (detector_new r t a b c) = unat (r * b div 1000)"
  "max_chunk_samples (detector_new r t a b c) = unat (r * c div 1000)"
  by (simp_all add: detector_new_def Let_def)

lemma unat_product_ms:
  assumes "unat r * unat (ms :: 32 word) < 2 ^ 32"
  shows "unat (r * ms div 1000) = unat r * unat ms div 1000"
  using assms by (simp add: unat_div unat_mult_lem [THEN iffD1])

lemma detector_new_ok:
  assumes "50 \<le> unat r" "unat r \<le> 214748364"
  shows "detector_ok (detector_new r t a b c)"
proof -
  have "unat (r * 20 div 1000) = unat r * 20 div 1000"
    using unat_product_ms [of r 20] assms by simp
  then show ?thesis using assms
    by (simp add: detector_ok_def counted_def detector_new_def Let_def)
qed

text \<open>C2. Functional contract of \<open>SilenceDetector::push\<close>: from a state the detector can be in, the
  call returns; it emits the whole buffer exactly when the buffer has reached its maximum or when
  some frame border not looked at before ends a long enough run of silence after enough speech,
  and otherwise leaves the counters equal to the reference counts of the whole buffer.\<close>

theorem push_contract:
  assumes "detector_ok d"
  shows "push d s =
    (let b = d\<lparr>buffer := buffer d @ s\<rparr> in
     Some (if max_chunk_samples d \<le> length (buffer b) \<or>
              (\<exists>m \<in> {cursor d div frame_size d <.. length (buffer b) div frame_size d}.
                 silence_frames_needed d \<le> trailing b m \<and> min_chunk_samples d \<le> speech b m)
           then (fst (take_buffer d), Some (buffer d @ s)) else (settled b, None)))"
  using push_cases [OF assms refl, of s]
  by (auto simp: Let_def utterance_ends_def boundary_def)

text \<open>A detector small enough to evaluate: one sample per frame, one silent frame ends an
  utterance of at least one sample, ten samples force a split.\<close>

definition demo_detector :: silence_detector where
  "demo_detector = \<lparr>threshold = 1/2, silence_frames_needed = 1, min_chunk_samples = 1,
     max_chunk_samples = 10, frame_size = 1, buffer = [], silent_frames = 0, cursor = 0,
     speech_samples = 0\<rparr>"

lemma demo_detector_ok: "detector_ok demo_detector"
  by (simp add: demo_detector_def detector_ok_def counted_def)

lemma demo_ends:
  "\<exists>m \<in> {cursor demo_detector div frame_size demo_detector <..
        length (buffer (demo_detector\<lparr>buffer := [1, 0]\<rparr>)) div frame_size demo_detector}.
     silence_frames_needed demo_detector \<le> trailing (demo_detector\<lparr>buffer := [1, 0]\<rparr>) m \<and>
     min_chunk_samples demo_detector \<le> speech (demo_detector\<lparr>buffer := [1, 0]\<rparr>) m"
  by (rule bexI [of _ "Suc (Suc 0)"])
     (simp_all add: demo_detector_def is_silent_def nth_frame_def rms_def)

theorem push_contract_witness:
  "detector_ok demo_detector \<and> snd (the (push demo_detector [1, 0])) = Some [1, 0]"
proof -
  have "push demo_detector [1, 0] = Some (fst (take_buffer demo_detector), Some [1, 0])"
    using push_contract [OF demo_detector_ok, of "[1, 0]"] demo_ends
    by (simp add: Let_def demo_detector_def)
  then show ?thesis using demo_detector_ok by simp
qed

text \<open>C1. No audio is lost: a detector made by \<open>SilenceDetector::new\<close> for a real sample rate
  accepts every sequence of blocks, and the chunks it has emitted followed by what it still
  buffers are exactly the samples pushed, in order.\<close>

theorem detector_conserves_audio:
  assumes "50 \<le> unat rate" "unat rate \<le> 214748364"
  shows "\<exists>d cs. feed push (detector_new rate thr silence_ms min_ms max_ms) blocks = Some (d, cs)
           \<and> concat cs @ buffer d = concat blocks"
proof -
  let ?d = "detector_new rate thr silence_ms min_ms max_ms"
  from det.feed_total [OF detector_new_ok [OF assms]]
  obtain d cs where f: "feed push ?d blocks = Some (d, cs)" by blast
  from det.feed_conserves [OF this] show ?thesis using f by auto
qed

theorem detector_conserves_audio_witness:
  "\<exists>d cs. feed push (detector_new 44100 (1/100) 300 300 10000) [[0, 1], [2]] = Some (d, cs)
     \<and> concat cs @ buffer d = [0, 1, 2]"
  using detector_conserves_audio [of 44100 "1/100" 300 300 10000 "[[0, 1], [2]]"] by simp

text \<open>The blocks the sound card delivers do not matter: when the first block does not complete
  an utterance, pushing two blocks one after the other is pushing them joined.\<close>

theorem push_blocks_join:
  assumes "detector_ok d" "push d a = Some (d1, None)"
  shows "push d (a @ b) = push d1 b"
proof -
  let ?a = "d\<lparr>buffer := buffer d @ a\<rparr>" and ?ab = "d\<lparr>buffer := buffer d @ a @ b\<rparr>"
  let ?b = "d1\<lparr>buffer := buffer d1 @ b\<rparr>" and ?k = "frame_size d" and ?n = "cursor d div frame_size d"
  from push_cases [OF assms(1) refl, of a] assms(2)
  have d1: "d1 = settled ?a" and ne: "\<not> utterance_ends ?a ?n"
    and mx: "\<not> max_chunk_samples d \<le> length (buffer d @ a)"
    by (auto split: if_splits)
  have k: "0 < ?k" using assms(1) by (simp add: detector_ok_def)
  have ok1: "detector_ok d1" by (rule push_detector_ok [OF assms])
  let ?N = "length (buffer d @ a) div ?k"
  have n1: "cursor d1 div frame_size d1 = ?N" using d1 k by simp
  have len1: "buffer d1 @ b = buffer d @ a @ b" using d1 by simp
  have bd: "boundary ?b m = boundary ?ab m" for m
    by (rule boundary_cong) (simp_all add: d1)
  have early: "\<not> boundary ?ab m" if "?n < m" "m \<le> ?N" for m
  proof -
    have "m * ?k \<le> length (buffer ?a)"
      using that(2) k by (simp add: less_eq_div_iff_mult_less_eq)
    then have "boundary ?ab m = boundary ?a m"
      using boundary_prefix [of m ?a b] by simp
    with ne that show ?thesis by (auto simp: utterance_ends_def)
  qed
  have nN: "?n \<le> ?N"
    using assms(1) by (intro div_le_mono) (simp add: detector_ok_def)
  define M where "M = length (buffer d @ a @ b) div ?k"
  have ue_b: "utterance_ends ?b ?N = (\<exists>m. ?N < m \<and> m \<le> M \<and> boundary ?ab m)"
    unfolding utterance_ends_def bd M_def using len1 d1 by simp
  have ue_ab: "utterance_ends ?ab ?n = (\<exists>m. ?n < m \<and> m \<le> M \<and> boundary ?ab m)"
    unfolding utterance_ends_def M_def by simp
  have "utterance_ends ?b ?N = utterance_ends ?ab ?n"
    unfolding ue_b ue_ab using early nN by (meson le_less_trans not_le)
  moreover have "settled ?b = settled ?ab"
    by (rule settled_cong) (simp add: d1 settled_def Let_def)
  moreover have "fst (take_buffer d1) = fst (take_buffer d)"
    by (simp add: d1 take_buffer_def settled_def Let_def)
  moreover have "max_chunk_samples d1 = max_chunk_samples d" by (simp add: d1)
  ultimately show ?thesis
    using push_cases [OF assms(1) refl, of "a @ b"] push_cases [OF ok1 refl, of b] n1 len1
    by simp
qed

theorem push_blocks_join_witness:
  "\<exists>d1. push demo_detector [1] = Some (d1, None) \<and> push demo_detector ([1] @ [0]) = push d1 [0]"
proof -
  have "\<not> utterance_ends (demo_detector\<lparr>buffer := [1]\<rparr>) 0"
    by (auto simp: utterance_ends_def boundary_def demo_detector_def is_silent_def nth_frame_def
      rms_def le_Suc_eq)
  then have "push demo_detector [1] = Some (settled (demo_detector\<lparr>buffer := [1]\<rparr>), None)"
    using push_cases [OF demo_detector_ok refl, of "[1]"] by (simp add: demo_detector_def)
  with push_blocks_join [OF demo_detector_ok this, of "[0]"] show ?thesis by blast
qed

lemma boundary_long:
  assumes "utterance_ends b n" shows "min_chunk_samples b \<le> length (buffer b)"
proof -
  from assms obtain m where "m \<le> length (buffer b) div frame_size b" "min_chunk_samples b \<le> speech b m"
    by (auto simp: utterance_ends_def boundary_def)
  moreover have "speech b m \<le> m * frame_size b" by (rule speech_le)
  moreover have "m * frame_size b \<le> length (buffer b)" if "m \<le> length (buffer b) div frame_size b"
    using that by (metis div_times_less_eq_dividend le_trans mult_le_mono1)
  ultimately show ?thesis by (meson le_trans)
qed



lemma scan_stuck:
  assumes "frame_size d = 0" "cursor d \<le> length (buffer d)" "speech_samples d < min_chunk_samples d"
  shows "scan d = None"
proof (rule ccontr)
  assume "scan d \<noteq> None"
  then obtain y where y: "scan d = Some y" by blast
  let ?P = "\<lambda>d (y :: silence_detector \<times> real list option). \<not> (frame_size d = 0 \<and>
      cursor d \<le> length (buffer d) \<and> speech_samples d < min_chunk_samples d)"
  have "?P d y"
  proof (rule scan.raw_induct [where P = ?P, OF _ y])
    fix f :: "silence_detector \<Rightarrow> (silence_detector \<times> real list option) option" and d y
    assume IH: "\<And>d y. f d = Some y \<Longrightarrow> ?P d y"
      and eq: "(if cursor d + frame_size d \<le> length (buffer d) then
        (if silence_frames_needed d \<le> silent_frames (frame_step d) \<and>
            min_chunk_samples d \<le> speech_samples (frame_step d)
         then Some (fst (take_buffer (frame_step d)), Some (snd (take_buffer (frame_step d))))
         else f (frame_step d))
      else Some (d, None)) = Some y"
    show "?P d y"
    proof
      assume s: "frame_size d = 0 \<and> cursor d \<le> length (buffer d) \<and>
        speech_samples d < min_chunk_samples d"
      then have "speech_samples (frame_step d) = speech_samples d"
        by (simp add: frame_step_def Let_def)
      with IH [of "frame_step d" y] s eq show False by (auto split: if_splits)
    qed
  qed
  with assms show False by blast
qed

text \<open>Termination is conditional: below 50 samples per second a frame has no samples, the cursor
  stands still, and \<open>push\<close> loops for ever on any block that does not fill the buffer. The
  \<open>debug_assert\<close> of \<open>new\<close> excludes the rate 0 only.\<close>

theorem push_loops_below_50_hz:
  assumes "0 < unat rate" "unat rate < 50"
    and "0 < min_chunk_samples (detector_new rate thr silence_ms min_ms max_ms)"
    and "length samples < max_chunk_samples (detector_new rate thr silence_ms min_ms max_ms)"
  shows "push (detector_new rate thr silence_ms min_ms max_ms) samples = None"
proof -
  let ?d = "detector_new rate thr silence_ms min_ms max_ms"
  have "unat (rate * 20 div 1000) = unat rate * 20 div 1000"
    using unat_product_ms [of rate 20] assms(2) by simp
  then have "frame_size ?d = 0" using assms(2) by simp
  then have "scan (?d\<lparr>buffer := buffer ?d @ samples\<rparr>) = None"
    using assms(3) by (intro scan_stuck) simp_all
  then show ?thesis using assms(4) by (simp add: push_def Let_def)
qed

theorem push_loops_below_50_hz_witness: "push (detector_new 49 (1/100) 300 300 10000) [0, 0] = None"
proof -
  have "unat ((49 :: 32 word) * 300 div 1000) = 14" "unat ((49 :: 32 word) * 10000 div 1000) = 490"
    using unat_product_ms [of 49 300] unat_product_ms [of 49 10000] by simp_all
  then show ?thesis by (intro push_loops_below_50_hz) simp_all
qed

section \<open>What Whisper returns\<close>

definition is_hallucination :: "string \<Rightarrow> bool" where
  "is_hallucination text =
     (let t = to_lowercase (trim text) in
      if (starts_with t ''['' \<and> ends_with t '']'') \<or> (starts_with t ''('' \<and> ends_with t '')'')
      then True
      else t \<in> {''thank you.'', ''thanks for watching.'', ''thanks for watching!'', ''you'',
                ''bye.'', ''bye!'', ''goodbye.''})"

text \<open>The loop of \<open>transcribe\<close> over the segments; \<open>None\<close> is a segment whose text could not be read.\<close>

fun join_segments :: "string \<Rightarrow> string option list \<Rightarrow> string" where
  "join_segments text [] = text"
| "join_segments text (None # segs) = join_segments text segs"
| "join_segments text (Some seg # segs) =
     (let t = trim seg in
      if t \<noteq> [] \<and> \<not> is_hallucination t
      then join_segments ((if text \<noteq> [] then text @ '' '' else text) @ t) segs
      else join_segments text segs)"

text \<open>One run of the model on \<open>audio\<close>: the state, the inference and the segments are Whisper's,
  so the record of what they return is a parameter.\<close>

record whisper_run =
  create_state :: "unit res"
  full :: "unit res"
  segments :: "(string option list) res"

definition transcribe :: "whisper_run \<Rightarrow> real list \<Rightarrow> string res" where
  "transcribe w audio =
     (if length audio < 1600 then Inr []
      else (case create_state w of
              Inl e \<Rightarrow> Inl (''whisper state error: '' @ e)
            | Inr _ \<Rightarrow>
                (case full w of
                   Inl e \<Rightarrow> Inl (''whisper inference error: '' @ e)
                 | Inr _ \<Rightarrow>
                     (case segments w of
                        Inl e \<Rightarrow> Inl (''segment count error: '' @ e)
                      | Inr segs \<Rightarrow> Inr (join_segments [] segs)))))"

lemma trim_join_step:
  assumes "trim a = a" "trim t = t" "t \<noteq> []"
  shows "trim ((if a \<noteq> [] then a @ '' '' else a) @ t) = (if a \<noteq> [] then a @ '' '' else a) @ t"
proof (rule trim_id, rule disjI2)
  have t: "\<not> is_ws (hd t) \<and> \<not> is_ws (last t)" using trim_edges [of t t] assms by simp
  show "\<not> is_ws (hd ((if a \<noteq> [] then a @ '' '' else a) @ t)) \<and>
    \<not> is_ws (last ((if a \<noteq> [] then a @ '' '' else a) @ t))"
  proof (cases "a = []")
    case True
    with t show ?thesis by simp
  next
    case False
    with trim_edges [of a a] assms(1) have "\<not> is_ws (hd a)" by simp
    with t assms(3) False show ?thesis by simp
  qed
qed

lemma join_segments_trimmed: "trim acc = acc \<Longrightarrow> trim (join_segments acc segs) = join_segments acc segs"
proof (induction acc segs rule: join_segments.induct)
  case (3 acc seg segs)
  show ?case
  proof (cases "trim seg \<noteq> [] \<and> \<not> is_hallucination (trim seg)")
    case True
    then have "trim ((if acc \<noteq> [] then acc @ '' '' else acc) @ trim seg) =
        (if acc \<noteq> [] then acc @ '' '' else acc) @ trim seg"
      using trim_join_step [of acc "trim seg"] "3.prems" by (simp add: trim_idem)
    with True "3.IH"(1) [OF refl] show ?thesis by (simp add: Let_def)
  next
    case False
    with "3.IH"(2) [OF refl] "3.prems" show ?thesis by (auto simp: Let_def)
  qed
qed simp_all

lemma join_segments_join:
  "join_segments acc segs =
     join '' '' ((if acc = [] then [] else [acc]) @
       filter (\<lambda>t. t \<noteq> [] \<and> \<not> is_hallucination t) (map (\<lambda>s. trim (the s)) (filter (\<lambda>s. s \<noteq> None) segs)))"
proof (induction acc segs rule: join_segments.induct)
  case (3 acc seg segs)
  have sp: "join '' '' (x # y # zs) = join '' '' ((x @ '' '' @ y) # zs)" for x y zs
    by (cases zs) simp_all
  show ?case
  proof (cases "trim seg \<noteq> [] \<and> \<not> is_hallucination (trim seg)")
    case True
    with "3.IH"(1) [OF refl] show ?thesis by (simp add: Let_def sp del: join.simps)
  next
    case False
    with "3.IH"(2) [OF refl] show ?thesis by (auto simp: Let_def)
  qed
qed simp_all

text \<open>\<open>WhisperEngine::transcribe\<close> returns the trimmed texts of the readable, non-empty segments
  that are not hallucinations, joined by single blanks, and the result needs no further trimming;
  audio shorter than a tenth of a second gives the empty text.\<close>

theorem transcribe_joins_real_segments:
  "transcribe \<lparr>create_state = Inr (), full = Inr (), segments = Inr segs\<rparr> audio =
     Inr (if length audio < 1600 then []
          else join '' '' (filter (\<lambda>t. t \<noteq> [] \<and> \<not> is_hallucination t)
                 (map (\<lambda>s. trim (the s)) (filter (\<lambda>s. s \<noteq> None) segs)))) \<and>
   trim (join_segments [] segs) = join_segments [] segs"
  using join_segments_trimmed [of "[]" segs] join_segments_join [of "[]" segs]
  by (simp add: transcribe_def)

section \<open>Resampling to 16 kHz\<close>

definition low_pass_tap :: "real \<Rightarrow> nat \<Rightarrow> real" where
  "low_pass_tap cutoff i =
     (let n = real i - 31;
          sinc = (if n = 0 then 2 * cutoff else sin (2 * cutoff * pi * n) / (pi * n));
          window = 42/100 - 1/2 * cos (2 * pi * real i / 62) + 8/100 * cos (4 * pi * real i / 62)
      in sinc * window)"

definition low_pass_kernel :: "real \<Rightarrow> real list" where
  "low_pass_kernel cutoff =
     (let kernel = map (low_pass_tap cutoff) [0..<63]; total = sum_list kernel
      in map (\<lambda>k. k / total) kernel)"

definition low_pass_filter :: "real list \<Rightarrow> real \<Rightarrow> real list" where
  "low_pass_filter samples cutoff =
     (let kernel = low_pass_kernel cutoff in
      map (\<lambda>i. sum_list (map (\<lambda>j.
             let idx = int i + int j - 31 in
             if 0 \<le> idx \<and> nat idx < length samples then samples ! nat idx * kernel ! j else 0)
           [0..<63]))
        [0..<length samples])"

definition get_or :: "real list \<Rightarrow> nat \<Rightarrow> real \<Rightarrow> real" where
  "get_or xs i d = (if i < length xs then xs ! i else d)"

definition resample_to_16k :: "real list \<Rightarrow> 32 word \<Rightarrow> real list" where
  "resample_to_16k samples from_rate =
     (if from_rate = 0 then samples
      else if from_rate = 16000 then samples
      else
        (let ratio = real (unat from_rate) / 16000;
             filtered = (if ratio > 1
                         then low_pass_filter samples (16000 / (2 * real (unat from_rate)))
                         else samples);
             out_len = nat \<lfloor>real (length filtered) / ratio\<rfloor>
         in map (\<lambda>i.
               let src = real i * ratio;
                   idx = nat \<lfloor>src\<rfloor>;
                   frac = src - real idx;
                   a = get_or filtered idx 0;
                   b = get_or filtered (idx + 1) a
               in a + (b - a) * frac)
             [0..<out_len]))"

lemma length_low_pass_filter [simp]: "length (low_pass_filter samples cutoff) = length samples"
  by (simp add: low_pass_filter_def Let_def)

lemma floor_ratio: "nat \<lfloor>real n / (real r / 16000)\<rfloor> = n * 16000 div r"
proof -
  have "real n / (real r / 16000) = real (n * 16000) / real r" by simp
  then have "\<lfloor>real n / (real r / 16000)\<rfloor> = int (n * 16000 div r)"
    by (metis floor_divide_of_nat_eq)
  then show ?thesis by simp
qed

lemma interpolate_between:
  fixes a b f :: real
  assumes "lo \<le> a" "a \<le> hi" "lo \<le> b" "b \<le> hi" "0 \<le> f" "f \<le> 1"
  shows "lo \<le> a + (b - a) * f \<and> a + (b - a) * f \<le> hi"
proof -
  have "a + (b - a) * f = (1 - f) * a + f * b" by (simp add: algebra_simps)
  moreover have "lo \<le> (1 - f) * a + f * b" "(1 - f) * a + f * b \<le> hi"
    using assms convex_bound_le [of a hi b "1 - f" f] convex_bound_le [of "-a" "-lo" "-b" "1 - f" f]
    by (auto simp: algebra_simps)
  ultimately show ?thesis by simp
qed

definition interpolate_at :: "real list \<Rightarrow> real \<Rightarrow> nat \<Rightarrow> real" where
  "interpolate_at xs ratio i =
     (let src = real i * ratio; idx = nat \<lfloor>src\<rfloor>; frac = src - real idx;
          a = get_or xs idx 0; b = get_or xs (idx + 1) a
      in a + (b - a) * frac)"

lemma resample_unfold:
  "from_rate \<noteq> 0 \<Longrightarrow> from_rate \<noteq> 16000 \<Longrightarrow> resample_to_16k samples from_rate =
     (let ratio = real (unat from_rate) / 16000;
          filtered = (if ratio > 1
                      then low_pass_filter samples (16000 / (2 * real (unat from_rate)))
                      else samples)
      in map (interpolate_at filtered ratio) [0..<nat \<lfloor>real (length filtered) / ratio\<rfloor>])"
  by (simp add: resample_to_16k_def interpolate_at_def Let_def)

lemma interpolate_at_range:
  assumes "\<forall>s \<in> set xs. lo \<le> s \<and> s \<le> hi" "0 \<le> ratio" "real i * ratio < real (length xs)"
  shows "lo \<le> interpolate_at xs ratio i \<and> interpolate_at xs ratio i \<le> hi"
proof -
  define src where "src = real i * ratio"
  define idx where "idx = nat \<lfloor>src\<rfloor>"
  have src0: "0 \<le> src" using assms(2) by (simp add: src_def)
  have fl: "real idx \<le> src" "src \<le> real idx + 1"
    using src0 unfolding idx_def by linarith+
  then have idx: "idx < length xs" using assms(3) src_def by simp
  have a: "lo \<le> xs ! idx \<and> xs ! idx \<le> hi" using assms(1) idx by simp
  have b: "lo \<le> get_or xs (idx + 1) (xs ! idx) \<and> get_or xs (idx + 1) (xs ! idx) \<le> hi"
    using assms(1) a by (simp add: get_or_def)
  have "interpolate_at xs ratio i =
      xs ! idx + (get_or xs (idx + 1) (xs ! idx) - xs ! idx) * (src - real idx)"
    using idx by (simp add: interpolate_at_def Let_def src_def [symmetric] idx_def [symmetric] get_or_def)
  then show ?thesis
    using interpolate_between [of lo "xs ! idx" hi _ "src - real idx"] a b fl by simp
qed

text \<open>The resampler produces exactly \<open>len * 16000 / rate\<close> samples (rounded down) for every
  non-zero rate, and upsampling interpolates: every output sample lies between the least and the
  greatest input sample.\<close>

theorem resample_length_and_range:
  assumes "from_rate \<noteq> 0"
  shows "length (resample_to_16k samples from_rate) = length samples * 16000 div unat from_rate \<and>
    (unat from_rate < 16000 \<longrightarrow> (\<forall>s \<in> set samples. lo \<le> s \<and> s \<le> hi) \<longrightarrow>
       (\<forall>y \<in> set (resample_to_16k samples from_rate). lo \<le> y \<and> y \<le> hi))"
proof (intro conjI impI ballI)
  show "length (resample_to_16k samples from_rate) = length samples * 16000 div unat from_rate"
    using assms floor_ratio [of "length samples" "unat from_rate"]
    by (cases "from_rate = 16000") (simp add: resample_to_16k_def, simp add: resample_unfold Let_def)
  fix y assume up: "unat from_rate < 16000" and rng: "\<forall>s \<in> set samples. lo \<le> s \<and> s \<le> hi"
    and y: "y \<in> set (resample_to_16k samples from_rate)"
  let ?r = "real (unat from_rate) / 16000"
  have pos: "0 < unat from_rate" using assms by (simp add: unat_gt_0)
  have ne: "from_rate \<noteq> 16000" using up by auto
  have "real (unat from_rate) < real 16000" using up by (simp only: of_nat_less_iff)
  then have "\<not> ?r > 1" by simp
  with y resample_unfold [OF assms ne, of samples] obtain i
    where i: "i < nat \<lfloor>real (length samples) / ?r\<rfloor>" and yi: "y = interpolate_at samples ?r i"
    by (auto simp: Let_def)
  from i have "real i < real (length samples) / ?r" by linarith
  moreover have "0 < ?r" using pos by (simp only: zero_less_divide_iff of_nat_0_less_iff) simp
  ultimately have below: "real i * ?r < real (length samples)" and "0 \<le> ?r"
    by (simp_all only: pos_less_divide_eq less_imp_le)
  from interpolate_at_range [OF rng this(2) below] show "lo \<le> y" "y \<le> hi" by (simp_all only: yi)
qed

theorem resample_length_and_range_witness:
  "length (resample_to_16k [0, 1, 0] 8000) = 6 \<and>
   set (resample_to_16k [0, 1, 0] 8000) \<subseteq> {0..1}"
  using resample_length_and_range [of 8000 "[0, 1, 0]" 0 1] by auto

section \<open>Typing the text\<close>

text \<open>What \<open>type_text\<close> does to the desktop; whether \<open>Enigo\<close> and the clipboard accept it is theirs.\<close>

datatype desktop_act = TypeText string | ClipboardSet string | PasteKeys

definition clipboard_paste :: "bool \<Rightarrow> bool \<Rightarrow> string \<Rightarrow> desktop_act list" where
  "clipboard_paste clip_ok enigo_ok text =
     (if clip_ok then ClipboardSet text # (if enigo_ok then [PasteKeys] else []) else [])"

definition type_text :: "bool \<Rightarrow> bool \<Rightarrow> bool \<Rightarrow> string \<Rightarrow> desktop_act list" where
  "type_text enigo_ok typed_ok clip_ok text =
     (let trimmed = trim text in
      if trimmed = [] then []
      else if enigo_ok then
        (if typed_ok then [TypeText (trimmed @ '' '')]
         else clipboard_paste clip_ok enigo_ok (trimmed @ '' ''))
      else clipboard_paste clip_ok enigo_ok (trimmed @ '' ''))"

end
