(* ===== verification/Dictation.thy ===== *)
theory Dictation
  imports Audio Transcription
begin

text \<open>
  Voice dictation, the part of \<open>src-tauri/src/lib.rs\<close> that connects the microphone, the silence
  detector and Whisper: the dictation hotkey (in \<open>run\<close>), the in-app button
  (\<open>toggle_in_app_dictation\<close>), the polling thread, the transcription worker and the bounded channel
  between them.

  The two handlers run on the main thread, one at a time; everything else interleaves with them. A
  handler is cut into the steps between which other threads can run: what it does while it holds
  the dictation lock is one step. \<open>main\<close> says where the main thread is.
\<close>

datatype source = Hotkey | InApp

datatype overlay_state = Hidden | Listening | Transcribing

text \<open>A queued chunk: samples, native rate, and whether the text goes to the frontend.\<close>

type_synonym chunk = "real list \<times> 32 word \<times> bool"

datatype main_pc =
    MainIdle
  | Begin source
  | FinishStop "real list option" "32 word" bool
  | Sending chunk

datatype delivery = Emitted string | Typed string

text \<open>The history records what the handlers did to the session. Together with \<open>heard\<close>, the samples
  the microphone has delivered since the stream was opened, and \<open>cut\<close>, the chunks cut since then,
  it is not part of the program's state: no operation reads them.\<close>

datatype session_event = Started source | Stopped source

record dictation =
  detector :: silence_detector
  is_recording :: bool
  in_app_mode :: bool
  recording_flag :: bool
  recorder :: audio_recorder
  channel :: "chunk list"
  worker_alive :: bool
  shutdown :: bool
  main :: main_pc
  overlay :: overlay_state
  tray_red :: bool
  delivered :: "delivery list"
  heard :: "real list"
  cut :: "real list list"
  history :: "session_event list"

definition channel_capacity :: nat where "channel_capacity = 8"

definition dictation_new :: "bool \<Rightarrow> dictation" where
  "dictation_new model_loaded =
     \<lparr>detector = detector_new 44100 (1/100) 300 500 10000, is_recording = False,
      in_app_mode = False, recording_flag = False, recorder = recorder_new, channel = [],
      worker_alive = model_loaded, shutdown = False, main = MainIdle, overlay = Hidden,
      tray_red = False, delivered = [], heard = [], cut = [], history = []\<rparr>"

text \<open>Pressing the button while nothing is recorded: the stream is opened before the dictation lock
  is taken.\<close>

definition open_mic :: "input_device option \<Rightarrow> source \<Rightarrow> dictation \<Rightarrow> dictation" where
  "open_mic dev src d =
     (case mic_start dev (recorder d) of
        (r, Inl _) \<Rightarrow> d\<lparr>recorder := r\<rparr>
      | (r, Inr _) \<Rightarrow> d\<lparr>recorder := r, main := Begin src, heard := [], cut := []\<rparr>)"

definition begin_session :: "source \<Rightarrow> dictation \<Rightarrow> dictation" where
  "begin_session src d =
     d\<lparr>detector := detector_new (native_sample_rate (recorder d)) (1/100) 300 300 10000,
       is_recording := True, in_app_mode := (src = InApp), recording_flag := True,
       tray_red := True, overlay := Listening, main := MainIdle,
       history := history d @ [Started src]\<rparr>"

text \<open>\<open>d.detector.push(&remaining).or_else(|| d.detector.flush())\<close>\<close>

definition push_or_flush ::
  "silence_detector \<Rightarrow> real list \<Rightarrow> (silence_detector \<times> real list option) option" where
  "push_or_flush dt samples =
     (case push dt samples of
        None \<Rightarrow> None
      | Some (dt', Some c) \<Rightarrow> Some (dt', Some c)
      | Some (dt', None) \<Rightarrow> Some (flush dt'))"

text \<open>Pressing it while a session runs: only the source that started it stops it. \<open>None\<close> is a
  \<open>push\<close> that does not return.\<close>

definition end_session :: "source \<Rightarrow> dictation \<Rightarrow> dictation option" where
  "end_session src d =
     (if in_app_mode d \<noteq> (src = InApp) then Some d
      else
        (case drain (recorder d) of
           (r, remaining) \<Rightarrow>
             (case push_or_flush (detector d) remaining of
                None \<Rightarrow> None
              | Some (dt, chunk_to_send) \<Rightarrow>
                  Some (d\<lparr>recorder := r, detector := dt, is_recording := False,
                    recording_flag := False,
                    main := FinishStop chunk_to_send (native_sample_rate r) (src = InApp),
                    cut := cut d @ (case chunk_to_send of None \<Rightarrow> [] | Some c \<Rightarrow> [c]),
                    history := history d @ [Stopped src]\<rparr>))))"

definition press :: "input_device option \<Rightarrow> source \<Rightarrow> dictation \<Rightarrow> dictation option" where
  "press dev src d =
     (if \<not> is_recording d then Some (open_mic dev src d) else end_session src d)"

definition finish_stop :: "real list option \<Rightarrow> 32 word \<Rightarrow> bool \<Rightarrow> dictation \<Rightarrow> dictation" where
  "finish_stop c rate emit d =
     (let d1 = d\<lparr>recorder := mic_stop (recorder d), tray_red := False\<rparr> in
      case c of
        Some chunk \<Rightarrow> d1\<lparr>overlay := Transcribing, main := Sending (chunk, rate, emit)\<rparr>
      | None \<Rightarrow> d1\<lparr>overlay := Hidden, main := MainIdle\<rparr>)"

text \<open>The blocking \<open>send\<close>: it waits while the channel is full (\<open>None\<close>) and fails when the worker's
  end is gone.\<close>

definition blocking_send :: "chunk \<Rightarrow> dictation \<Rightarrow> dictation option" where
  "blocking_send c d =
     (if \<not> worker_alive d then Some (d\<lparr>overlay := Hidden, main := MainIdle\<rparr>)
      else if length (channel d) < channel_capacity
           then Some (d\<lparr>channel := channel d @ [c], main := MainIdle\<rparr>)
      else None)"

text \<open>One turn of the polling thread; drain and push are under the dictation lock.\<close>

definition try_send :: "chunk \<Rightarrow> dictation \<Rightarrow> dictation" where
  "try_send c d =
     (if worker_alive d \<and> length (channel d) < channel_capacity
      then d\<lparr>channel := channel d @ [c]\<rparr> else d)"

definition poll :: "dictation \<Rightarrow> dictation option" where
  "poll d =
     (if \<not> is_recording d then Some d
      else
        (case drain (recorder d) of
           (r, samples) \<Rightarrow>
             (if samples = [] then Some (d\<lparr>recorder := r\<rparr>)
              else
                (case push (detector d) samples of
                   None \<Rightarrow> None
                 | Some (dt, None) \<Rightarrow> Some (d\<lparr>recorder := r, detector := dt\<rparr>)
                 | Some (dt, Some c) \<Rightarrow>
                     Some (try_send (c, native_sample_rate r, in_app_mode d)
                       (d\<lparr>recorder := r, detector := dt, cut := cut d @ [c]\<rparr>))))))"

text \<open>One turn of the worker on the first chunk of the channel; \<open>whisper\<close> is what the model does
  with the resampled audio. \<open>type_text\<close> is recorded with its argument.\<close>

definition worker_turn :: "(real list \<Rightarrow> whisper_run) \<Rightarrow> chunk \<Rightarrow> dictation \<Rightarrow> dictation" where
  "worker_turn whisper ch d =
     (case ch of
        (samples, rate, emit) \<Rightarrow>
          let resampled = resample_to_16k samples rate;
              result = transcribe (whisper resampled) resampled;
              d1 = d\<lparr>overlay := Hidden\<rparr>
          in case result of
               Inl _ \<Rightarrow> d1
             | Inr t \<Rightarrow>
                 if trim t = [] then d1
                 else d1\<lparr>delivered := delivered d @ [if emit then Emitted t else Typed t]\<rparr>)"

definition mic_delivers :: "raw \<Rightarrow> dictation \<Rightarrow> dictation option" where
  "mic_delivers x d =
     (case mic_callback x (recorder d) of
        Panicked \<Rightarrow> None
      | Done r \<Rightarrow>
          Some (d\<lparr>recorder := r,
            heard := heard d @ drop (length (mic_buffer (recorder d))) (mic_buffer r)\<rparr>))"

text \<open>What the sound card may report: a rate for which the detector has non-empty frames and no
  product of \<open>new\<close> wraps.\<close>

definition card_ok :: "input_device option \<Rightarrow> bool" where
  "card_ok dev =
     (case dev of
        None \<Rightarrow> True
      | Some x \<Rightarrow>
          (case default_config x of
             Inl _ \<Rightarrow> True
           | Inr (rate, _, _) \<Rightarrow> 50 \<le> unat rate \<and> unat rate \<le> 214748364))"

text \<open>The threads interleave.\<close>

inductive step :: "(real list \<Rightarrow> whisper_run) \<Rightarrow> dictation \<Rightarrow> dictation \<Rightarrow> bool"
  for whisper :: "real list \<Rightarrow> whisper_run"
where
  Press: "main d = MainIdle \<Longrightarrow> card_ok dev \<Longrightarrow> press dev src d = Some d' \<Longrightarrow> step whisper d d'"
| Begun: "main d = Begin src \<Longrightarrow> step whisper d (begin_session src d)"
| Finish: "main d = FinishStop c rate emit \<Longrightarrow> step whisper d (finish_stop c rate emit d)"
| Send: "main d = Sending c \<Longrightarrow> blocking_send c d = Some d' \<Longrightarrow> step whisper d d'"
| Quit: "main d = MainIdle \<Longrightarrow> step whisper d (d\<lparr>shutdown := True\<rparr>)"
| Poll: "\<not> shutdown d \<Longrightarrow> poll d = Some d' \<Longrightarrow> step whisper d d'"
| Mic: "mic_delivers x d = Some d' \<Longrightarrow> step whisper d d'"
| Work: "worker_alive d \<Longrightarrow> channel d = c # rest \<Longrightarrow>
    step whisper d (worker_turn whisper c (d\<lparr>channel := rest\<rparr>))"

inductive reach :: "(real list \<Rightarrow> whisper_run) \<Rightarrow> dictation \<Rightarrow> dictation \<Rightarrow> bool"
  for whisper :: "real list \<Rightarrow> whisper_run"
where
  Refl: "reach whisper d d"
| Step: "reach whisper d e \<Longrightarrow> step whisper e f \<Longrightarrow> reach whisper d f"

inductive_cases stepE: "step whisper d d'"

section \<open>The detector in a session\<close>

definition params :: "silence_detector \<Rightarrow> nat \<times> real \<times> nat \<times> nat \<times> nat" where
  "params d = (frame_size d, threshold d, silence_frames_needed d, min_chunk_samples d,
     max_chunk_samples d)"

abbreviation session_detector :: "32 word \<Rightarrow> silence_detector" where
  "session_detector rate \<equiv> detector_new rate (1/100) 300 300 10000"

lemma push_params:
  assumes "detector_ok d" "push d s = Some (d', r)" shows "params d' = params d"
proof -
  have "params (settled (d\<lparr>buffer := buffer d @ s\<rparr>)) = params d"
    by (simp add: params_def)
  moreover have "params (fst (take_buffer d)) = params d"
    by (simp add: params_def take_buffer_def)
  ultimately show ?thesis
    using assms(2) push_cases [OF assms(1) refl, of s] by (auto split: if_splits)
qed

lemma push_or_flush_spec:
  assumes "detector_ok d"
  obtains d' r where "push_or_flush d s = Some (d', r)" "detector_ok d'" "buffer d' = []"
    "\<forall>c. r = Some c \<longrightarrow> c = buffer d @ s"
proof -
  from det.push_total [OF assms] obtain d1 r1 where p: "push d s = Some (d1, r1)" by blast
  have ok1: "detector_ok d1" using assms p by (rule det.push_ok)
  define y where "y = (case r1 of Some x \<Rightarrow> (d1, Some x) | None \<Rightarrow> flush d1)"
  have pf: "push_or_flush d s = Some y"
    using p by (cases r1) (simp_all add: push_or_flush_def y_def)
  have "detector_ok (fst y)"
    using ok1 det.flush_ok [OF ok1] by (cases r1) (simp_all add: y_def)
  moreover have "buffer (fst y) = [] \<and> (\<forall>x. snd y = Some x \<longrightarrow> x = buffer d @ s)"
    by (rule det.stop_conserves [OF p]) (simp add: y_def)
  ultimately show ?thesis using that [of "fst y" "snd y"] pf by simp
qed

section \<open>The invariant\<close>

fun run_history :: "source option \<Rightarrow> session_event list \<Rightarrow> source option option" where
  "run_history s [] = Some s"
| "run_history None (Started x # es) = run_history (Some x) es"
| "run_history (Some x) (Stopped y # es) = (if x = y then run_history None es else None)"
| "run_history _ _ = None"

lemma run_history_append:
  "run_history s (es @ [e]) =
     (case run_history s es of None \<Rightarrow> None | Some t \<Rightarrow> run_history t [e])"
  by (induction s es rule: run_history.induct) auto

definition current_owner :: "dictation \<Rightarrow> source option" where
  "current_owner d = (if is_recording d then Some (if in_app_mode d then InApp else Hotkey) else None)"

definition rate_ok :: "32 word \<Rightarrow> bool" where
  "rate_ok rate = (50 \<le> unat rate \<and> unat rate \<le> 214748364)"

text \<open>Where the main thread is decides whether the stream is open, whether a session runs and what
  the microphone's buffer holds.\<close>

definition phase_ok :: "dictation \<Rightarrow> bool" where
  "phase_ok d =
     (case main d of
        MainIdle \<Rightarrow> if is_recording d then stream (recorder d) \<noteq> None
                    else stream (recorder d) = None \<and> mic_buffer (recorder d) = []
      | Begin _ \<Rightarrow> \<not> is_recording d \<and> stream (recorder d) \<noteq> None \<and>
          rate_ok (native_sample_rate (recorder d)) \<and> cut d = [] \<and> mic_buffer (recorder d) = heard d
      | FinishStop _ _ _ \<Rightarrow> \<not> is_recording d \<and> stream (recorder d) \<noteq> None
      | Sending _ \<Rightarrow> \<not> is_recording d \<and> stream (recorder d) = None \<and> mic_buffer (recorder d) = [])"

definition audio_ok :: "dictation \<Rightarrow> bool" where
  "audio_ok d =
     (is_recording d \<longrightarrow>
        concat (cut d) @ buffer (detector d) @ mic_buffer (recorder d) = heard d \<and>
        params (detector d) = params (session_detector (native_sample_rate (recorder d))))"

definition dictation_ok :: "dictation \<Rightarrow> bool" where
  "dictation_ok d =
     (detector_ok (detector d) \<and> recording_flag d = is_recording d \<and>
      length (channel d) \<le> channel_capacity \<and> (\<not> worker_alive d \<longrightarrow> channel d = []) \<and>
      phase_ok d \<and> audio_ok d \<and> run_history None (history d) = Some (current_owner d))"

lemmas ok_defs = dictation_ok_def phase_ok_def audio_ok_def current_owner_def

lemma dictation_new_ok [wf_intros]: "dictation_ok (dictation_new m)"
  using detector_new_ok [of 44100]
  by (simp add: ok_defs dictation_new_def recorder_new_def)

lemma open_mic_ok [wf_intros]:
  assumes "dictation_ok d" "main d = MainIdle" "\<not> is_recording d" "card_ok dev"
  shows "dictation_ok (open_mic dev src d)"
proof -
  obtain r res where m: "mic_start dev (recorder d) = (r, res)" by fastforce
  note fr = mic_start_frame [OF m]
  show ?thesis
  proof (cases res)
    case (Inl e)
    then show ?thesis using assms m fr by (auto simp: ok_defs open_mic_def)
  next
    case (Inr u)
    from mic_start_Inr [OF m [unfolded Inr]] assms(4)
    have "rate_ok (native_sample_rate r)" by (auto simp: card_ok_def rate_ok_def)
    then show ?thesis using Inr assms m fr by (auto simp: ok_defs open_mic_def)
  qed
qed

lemma begin_session_ok [wf_intros]:
  assumes "dictation_ok d" "main d = Begin src"
  shows "dictation_ok (begin_session src d)"
  using assms detector_new_ok [of "native_sample_rate (recorder d)"]
  by (cases src) (auto simp: ok_defs begin_session_def rate_ok_def run_history_append)

lemma end_session_cases:
  assumes "dictation_ok d" "is_recording d"
  obtains (other) "in_app_mode d \<noteq> (src = InApp)" "end_session src d = Some d"
  | (owner) dt c where "in_app_mode d = (src = InApp)" "detector_ok dt" "buffer dt = []"
      "push_or_flush (detector d) (mic_buffer (recorder d)) = Some (dt, c)"
      "\<forall>x. c = Some x \<longrightarrow> x = buffer (detector d) @ mic_buffer (recorder d)"
      "end_session src d = Some (d\<lparr>recorder := (recorder d)\<lparr>mic_buffer := []\<rparr>, detector := dt,
         is_recording := False, recording_flag := False,
         main := FinishStop c (native_sample_rate (recorder d)) (src = InApp),
         cut := cut d @ (case c of None \<Rightarrow> [] | Some c \<Rightarrow> [c]),
         history := history d @ [Stopped src]\<rparr>)"
proof -
  have "detector_ok (detector d)" using assms by (simp add: dictation_ok_def)
  then obtain dt c where "push_or_flush (detector d) (mic_buffer (recorder d)) = Some (dt, c)"
    "detector_ok dt" "buffer dt = []" "\<forall>x. c = Some x \<longrightarrow> x = buffer (detector d) @ mic_buffer (recorder d)"
    by (rule push_or_flush_spec)
  then show ?thesis
    using that by (cases "in_app_mode d = (src = InApp)") (simp_all add: end_session_def drain_def)
qed

lemma end_session_ok [wf_intros]:
  assumes "dictation_ok d" "main d = MainIdle" "is_recording d" "end_session src d = Some d'"
  shows "dictation_ok d'"
  using assms(1,3)
proof (cases rule: end_session_cases [where src = src])
  case other
  then show ?thesis using assms by simp
next
  case (owner dt c)
  then show ?thesis using assms
    by (cases src) (auto simp: ok_defs run_history_append split: option.splits)
qed

lemma finish_stop_ok [wf_intros]:
  assumes "dictation_ok d" "main d = FinishStop c rate emit"
  shows "dictation_ok (finish_stop c rate emit d)"
  using assms by (auto simp: ok_defs finish_stop_def mic_stop_def Let_def split: option.splits)

lemma blocking_send_ok [wf_intros]:
  assumes "dictation_ok d" "main d = Sending c" "blocking_send c d = Some d'"
  shows "dictation_ok d'"
  using assms by (auto simp: ok_defs blocking_send_def split: if_splits)

lemma try_send_fields [simp]:
  "detector (try_send c d) = detector d" "is_recording (try_send c d) = is_recording d"
  "in_app_mode (try_send c d) = in_app_mode d" "recording_flag (try_send c d) = recording_flag d"
  "recorder (try_send c d) = recorder d" "main (try_send c d) = main d"
  "heard (try_send c d) = heard d" "cut (try_send c d) = cut d" "history (try_send c d) = history d"
  "worker_alive (try_send c d) = worker_alive d" "shutdown (try_send c d) = shutdown d"
  by (simp_all add: try_send_def)

lemma try_send_channel:
  "channel (try_send c d) = (if worker_alive d \<and> length (channel d) < channel_capacity
     then channel d @ [c] else channel d)"
  by (simp add: try_send_def)

lemma poll_ok [wf_intros]:
  assumes "dictation_ok d" "poll d = Some d'" shows "dictation_ok d'"
proof (cases "is_recording d \<and> mic_buffer (recorder d) \<noteq> []")
  case False
  then show ?thesis using assms by (auto simp: ok_defs poll_def drain_def split: main_pc.splits)
next
  case True
  let ?x = "mic_buffer (recorder d)"
  have ok: "detector_ok (detector d)" using assms by (simp add: dictation_ok_def)
  from det.push_total [OF ok] obtain dt r where p: "push (detector d) ?x = Some (dt, r)" by blast
  have dt: "detector_ok dt" "params dt = params (detector d)"
    using det.push_ok [OF ok p] push_params [OF ok p] by simp_all
  show ?thesis
  proof (cases r)
    case None
    have "buffer dt = buffer (detector d) @ ?x" using p None by (simp add: det.push_keep)
    then show ?thesis using assms True p None dt
      by (auto simp: ok_defs poll_def drain_def split: main_pc.splits)
  next
    case (Some c)
    have "buffer dt = []" "c = buffer (detector d) @ ?x"
      using det.push_emit [OF p [unfolded Some]] by simp_all
    then show ?thesis using assms True p Some dt
      by (auto simp: ok_defs poll_def drain_def try_send_channel split: main_pc.splits)
  qed
qed

lemma worker_turn_fields [simp]:
  "detector (worker_turn w c d) = detector d" "is_recording (worker_turn w c d) = is_recording d"
  "in_app_mode (worker_turn w c d) = in_app_mode d"
  "recording_flag (worker_turn w c d) = recording_flag d"
  "recorder (worker_turn w c d) = recorder d" "main (worker_turn w c d) = main d"
  "heard (worker_turn w c d) = heard d" "cut (worker_turn w c d) = cut d"
  "history (worker_turn w c d) = history d" "channel (worker_turn w c d) = channel d"
  "worker_alive (worker_turn w c d) = worker_alive d" "shutdown (worker_turn w c d) = shutdown d"
  by (simp_all add: worker_turn_def Let_def split: prod.splits sum.splits)

lemma worker_turn_ok [wf_intros]:
  assumes "dictation_ok d" "channel d = c # rest"
  shows "dictation_ok (worker_turn w c (d\<lparr>channel := rest\<rparr>))"
  using assms by (auto simp: ok_defs split: main_pc.splits)

lemma mic_callback_cases:
  assumes "mic_callback x r = Done r'"
  obtains (closed) "stream r = None" "r' = r"
  | (opened) new where "stream r \<noteq> None" "r' = r\<lparr>mic_buffer := mic_buffer r @ new\<rparr>"
  using assms
  by (auto simp: mic_callback_def push_mono_def split: option.splits outcome.splits if_splits)

lemma mic_delivers_ok [wf_intros]:
  assumes "dictation_ok d" "mic_delivers x d = Some d'" shows "dictation_ok d'"
proof -
  from assms(2) obtain r where c: "mic_callback x (recorder d) = Done r"
    and d': "d' = d\<lparr>recorder := r,
      heard := heard d @ drop (length (mic_buffer (recorder d))) (mic_buffer r)\<rparr>"
    by (auto simp: mic_delivers_def split: outcome.splits)
  from c show ?thesis
  proof (cases rule: mic_callback_cases)
    case closed
    then show ?thesis using assms(1) d' by (auto simp: ok_defs split: main_pc.splits)
  next
    case (opened new)
    then show ?thesis using assms(1) d' by (auto simp: ok_defs split: main_pc.splits)
  qed
qed

lemma step_ok [wf_intros]: "step whisper d d' \<Longrightarrow> dictation_ok d \<Longrightarrow> dictation_ok d'"
proof (induction rule: step.induct)
  case (Press d dev src d')
  then show ?case
    by (auto simp: press_def split: if_splits intro: open_mic_ok end_session_ok)
next
  case (Quit d)
  then show ?case by (auto simp: ok_defs)
qed (auto intro: wf_intros)

lemma reach_ok: "reach whisper d d' \<Longrightarrow> dictation_ok d \<Longrightarrow> dictation_ok d'"
  by (induction rule: reach.induct) (auto intro: step_ok)

lemma reach_trans: "reach w d e \<Longrightarrow> reach w e f \<Longrightarrow> reach w d f"
  by (rotate_tac, induction rule: reach.induct) (auto intro: reach.intros)

lemmas reachable_ok = reach_ok [OF _ dictation_new_ok]

section \<open>Properties\<close>

text \<open>C14. A session belongs to the source that started it. In every interleaving of the hotkey, the
  in-app button, the microphone, the polling thread and the worker, the session history is a
  sequence of sessions each started and stopped by the same source, the last one possibly open
  and then owned by the source that \<open>in_app_mode\<close> names; the flag the tray animation reads is
  the state's \<open>is_recording\<close>; the microphone is open while a session runs and closed, its buffer
  empty, while the main thread is idle without one.\<close>

theorem sessions_are_owned:
  assumes "reach whisper (dictation_new m) d"
  shows "run_history None (history d) = Some (current_owner d) \<and>
    recording_flag d = is_recording d \<and>
    (is_recording d \<longrightarrow> stream (recorder d) \<noteq> None) \<and>
    (main d = MainIdle \<longrightarrow> \<not> is_recording d \<longrightarrow>
       stream (recorder d) = None \<and> mic_buffer (recorder d) = [])"
  using reachable_ok [OF assms] by (auto simp: dictation_ok_def phase_ok_def split: main_pc.splits)

text \<open>A run to evaluate: a card with one channel at 50 Hz, on which a frame is one sample and ten
  seconds are 500 samples.\<close>

definition demo_card :: input_device where
  "demo_card = \<lparr>default_config = Inr (50, 1, F32), build_stream = Inr (), play = Inr ()\<rparr>"

definition demo_listening :: dictation where
  "demo_listening = begin_session Hotkey (open_mic (Some demo_card) Hotkey (dictation_new True))"

lemma demo_listening_reach: "reach whisper (dictation_new True) demo_listening"
proof -
  let ?d = "dictation_new True" and ?e = "open_mic (Some demo_card) Hotkey (dictation_new True)"
  have "step whisper ?d ?e"
    by (rule step.Press [of _ "Some demo_card" Hotkey])
       (simp_all add: dictation_new_def card_ok_def demo_card_def press_def)
  moreover have "step whisper ?e demo_listening"
    unfolding demo_listening_def
    by (rule step.Begun) (simp add: open_mic_def mic_start_def demo_card_def dictation_new_def)
  ultimately show ?thesis by (blast intro: reach.intros)
qed

lemma demo_listening_fields [simp]:
  "is_recording demo_listening" "in_app_mode demo_listening = False"
  "main demo_listening = MainIdle" "history demo_listening = [Started Hotkey]"
  "mic_buffer (recorder demo_listening) = []" "stream (recorder demo_listening) = Some (1, F32)"
  "heard demo_listening = []" "cut demo_listening = []" "shutdown demo_listening = False"
  "detector demo_listening = session_detector 50" "channel demo_listening = []"
  "worker_alive demo_listening" "native_sample_rate (recorder demo_listening) = 50"
  by (simp_all add: demo_listening_def begin_session_def open_mic_def mic_start_def demo_card_def
      dictation_new_def recorder_new_def Let_def)

theorem sessions_are_owned_witness:
  "run_history None (history demo_listening) = Some (Some Hotkey) \<and> recording_flag demo_listening"
  using sessions_are_owned [OF demo_listening_reach [of undefined]]
  by (simp add: current_owner_def)

text \<open>C3. No audio is lost while a session runs: whatever the interleaving of the callbacks of the
  sound card with the polling thread, the chunks cut so far, the detector's buffer and the
  microphone's buffer are together exactly what the microphone has delivered since it was opened,
  in order, and the detector works at the rate of the card.\<close>

theorem recording_loses_no_audio:
  assumes "reach whisper (dictation_new m) d" "is_recording d"
  shows "concat (cut d) @ buffer (detector d) @ mic_buffer (recorder d) = heard d \<and>
    params (detector d) = params (session_detector (native_sample_rate (recorder d)))"
  using reachable_ok [OF assms(1)] assms(2) by (simp add: dictation_ok_def audio_ok_def)

theorem recording_loses_no_audio_witness:
  "concat (cut demo_listening) @ buffer (detector demo_listening) = heard demo_listening"
  using recording_loses_no_audio [OF demo_listening_reach [of undefined]] by simp

lemma push_or_flush_discards:
  assumes "detector_ok dt" "push_or_flush dt s = Some (dt', None)"
  shows "speech (dt\<lparr>buffer := buffer dt @ s\<rparr>) (length (buffer dt @ s) div frame_size dt)
    < min_chunk_samples dt"
proof -
  from assms(2) obtain d1 where p: "push dt s = Some (d1, None)" and f: "flush d1 = (dt', None)"
    by (auto simp: push_or_flush_def split: option.splits)
  from p have "d1 = settled (dt\<lparr>buffer := buffer dt @ s\<rparr>)"
    using push_cases [OF assms(1) refl, of s] by (auto split: if_splits)
  with f show ?thesis by (simp add: flush_def split: if_splits)
qed



lemma sending_progress:
  assumes "dictation_ok d" "main d = Sending c"
  shows "\<exists>d'. reach whisper d d' \<and> main d' = MainIdle"
proof (cases "blocking_send c d")
  case (Some d')
  then have "main d' = MainIdle" by (auto simp: blocking_send_def split: if_splits)
  then show ?thesis using step.Send [OF assms(2) Some] by (blast intro: reach.intros)
next
  case None
  then have alive: "worker_alive d" and full: "\<not> length (channel d) < channel_capacity"
    by (auto simp: blocking_send_def split: if_splits)
  then obtain x rest where ch: "channel d = x # rest"
    by (cases "channel d") (auto simp: channel_capacity_def)
  let ?e = "worker_turn whisper x (d\<lparr>channel := rest\<rparr>)"
  have e: "step whisper d ?e" by (rule step.Work [OF alive ch])
  have "length rest < channel_capacity" using assms(1) ch by (simp add: dictation_ok_def)
  then obtain f where f: "blocking_send c ?e = Some f" "main f = MainIdle"
    using alive by (simp add: blocking_send_def)
  have "step whisper ?e f" by (rule step.Send [OF _ f(1)]) (simp add: assms(2))
  then have "reach whisper d f" using e by (blast intro: reach.intros)
  with f(2) show ?thesis by blast
qed

lemma finish_stop_main:
  "main (finish_stop c rate emit d) =
     (case c of None \<Rightarrow> MainIdle | Some x \<Rightarrow> Sending (x, rate, emit))"
  by (simp add: finish_stop_def Let_def split: option.splits)

text \<open>C30. The main thread never hangs for good: although it sends on a bounded channel with a
  blocking \<open>send\<close>, from every reachable state some schedule of the threads brings it back to its
  event loop; when the channel is full the worker can always take a chunk, and without a worker
  the \<open>send\<close> fails at once.\<close>

theorem main_thread_returns:
  assumes "reach whisper (dictation_new m) d"
  shows "\<exists>d'. reach whisper d d' \<and> main d' = MainIdle"
proof (cases "main d")
  case MainIdle
  then show ?thesis by (blast intro: reach.intros)
next
  case (Begin src)
  then have "step whisper d (begin_session src d)" by (rule step.Begun)
  moreover have "main (begin_session src d) = MainIdle" by (simp add: begin_session_def)
  ultimately show ?thesis by (blast intro: reach.intros)
next
  case (FinishStop c rate emit)
  let ?e = "finish_stop c rate emit d"
  from FinishStop have e: "step whisper d ?e" by (rule step.Finish)
  have ok: "dictation_ok ?e" using step_ok [OF e] reachable_ok [OF assms] by blast
  have "\<exists>f. reach whisper ?e f \<and> main f = MainIdle"
  proof (cases c)
    case None
    then have "main ?e = MainIdle" by (simp add: finish_stop_main)
    then show ?thesis by (blast intro: reach.intros)
  next
    case (Some x)
    then have "main ?e = Sending (x, rate, emit)" by (simp add: finish_stop_main)
    then show ?thesis by (rule sending_progress [OF ok])
  qed
  moreover have "reach whisper d ?e" using e by (blast intro: reach.intros)
  ultimately show ?thesis by (blast intro: reach_trans)
next
  case (Sending c)
  then show ?thesis using sending_progress reachable_ok [OF assms] by blast
qed

theorem main_thread_returns_witness:
  "\<exists>d'. reach (\<lambda>_. \<lparr>create_state = Inr (), full = Inr (), segments = Inr []\<rparr>) demo_listening d' \<and>
     main d' = MainIdle"
  by (rule main_thread_returns [OF demo_listening_reach])

text \<open>The overlay can disappear while a session still runs: the worker hides it after every
  chunk, also after one that the polling thread cut in the middle of a session, and nothing shows
  it again.\<close>

theorem overlay_hidden_while_recording:
  "\<exists>d. reach whisper (dictation_new True) d \<and> is_recording d \<and> overlay d = Hidden"
proof -
  define x :: "real list" where "x = replicate 500 0"
  define e where "e = demo_listening\<lparr>recorder := (recorder demo_listening)\<lparr>mic_buffer := x\<rparr>,
    heard := x\<rparr>"
  have mic: "step whisper demo_listening e"
    by (rule step.Mic [of "RawF32 x"])
       (simp add: mic_delivers_def mic_callback_def push_mono_def to_f32_def e_def)
  have ok: "dictation_ok demo_listening" by (rule reachable_ok [OF demo_listening_reach])
  have mx: "max_chunk_samples (session_detector 50) = 500"
    by (simp add: unat_product_ms)
  have p: "push (session_detector 50) x = Some (fst (take_buffer (session_detector 50)), Some x)"
    using push_cases [OF detector_new_ok refl, of 50 "1/100" 300 300 10000 x] mx
    by (simp add: x_def)
  define f where "f = try_send (x, 50, False) (e\<lparr>recorder := (recorder demo_listening)\<lparr>mic_buffer := []\<rparr>,
    detector := fst (take_buffer (session_detector 50)), cut := [x]\<rparr>)"
  have "poll e = Some f"
    using p by (simp add: poll_def drain_def e_def f_def) (simp add: x_def)
  then have poll: "step whisper e f" by (intro step.Poll) (simp_all add: e_def)
  have ch: "channel f = [(x, 50, False)]"
    unfolding f_def e_def try_send_channel by (simp add: channel_capacity_def)
  define g where "g = worker_turn whisper (x, 50, False) (f\<lparr>channel := []\<rparr>)"
  have "step whisper f g"
    unfolding g_def by (rule step.Work [OF _ ch]) (simp add: f_def e_def)
  with mic poll demo_listening_reach [of whisper]
  have "reach whisper (dictation_new True) g" by (blast intro: reach.intros)
  moreover have "is_recording g" by (simp add: g_def f_def e_def)
  moreover have "overlay g = Hidden"
    by (simp add: g_def worker_turn_def Let_def split: sum.splits)
  ultimately show ?thesis by blast
qed

end
