(* ===== verification/Voice_Db.thy ===== *)
theory Voice_Db
  imports Rust_Prelude "HOL-Library.Multiset"
begin

text \<open>
  The voice database of \<open>src-tauri/src/voice_db.rs\<close>: its four tables, one definition per function.

  A table is the list of its rows in insertion order. Each statement is modelled with what SQLite
  checks: primary keys and \<open>UNIQUE\<close> columns, the foreign keys that \<open>init_db\<close> switches on, and
  \<open>ON DELETE CASCADE\<close>. Every statement may also fail for a reason of its own (disk, lock): a call
  takes \<open>faults\<close>, which says for each of its statements, counted from 0, with what message. A
  failed transaction is rolled back. Ids from \<open>Uuid::new_v4\<close> and the clock are arguments. Rows
  with equal sort keys come in insertion order.
\<close>

record voice_session =
  vs_id :: string
  title :: string
  session_type :: string
  status :: string
  started_at :: int
  ended_at :: "int option"
  duration_sec :: "int option"
  vs_created_at :: int

record transcript_segment =
  ts_id :: string
  ts_session :: string
  ts_text :: string
  start_ms :: int
  end_ms :: int
  ts_created_at :: int

record session_notes =
  sn_id :: string
  sn_session :: string
  raw_notes :: "string option"
  ai_summary :: "string option"
  ai_action_items :: "string option"
  ai_decisions :: "string option"
  sn_updated_at :: int

record voice_db =
  sessions :: "voice_session list"
  segment_rows :: "transcript_segment list"
  note_rows :: "session_notes list"
  voice_fts :: "(string \<times> string) list"

definition empty_db :: voice_db where
  "empty_db = \<lparr>sessions = [], segment_rows = [], note_rows = [], voice_fts = []\<rparr>"

section \<open>Sessions\<close>

definition create_session ::
  "faults \<Rightarrow> int \<Rightarrow> string \<Rightarrow> string \<Rightarrow> string \<Rightarrow> voice_db \<Rightarrow> voice_db \<times> unit res" where
  "create_session f now i t ty db =
     (case f 0 of
        Some e \<Rightarrow> (db, Inl (''create_session: '' @ e))
      | None \<Rightarrow>
          if i \<in> vs_id ` set (sessions db)
          then (db, Inl ''create_session: UNIQUE constraint failed: voice_sessions.id'')
          else (db\<lparr>sessions := sessions db @
                 [\<lparr>vs_id = i, title = t, session_type = ty, status = ''recording'',
                   started_at = now, ended_at = None, duration_sec = None,
                   vs_created_at = now\<rparr>]\<rparr>, Inr ()))"

text \<open>\<open>delete_session\<close>, one transaction: begin, the index, the session with its children, commit.\<close>

definition delete_session :: "faults \<Rightarrow> string \<Rightarrow> voice_db \<Rightarrow> voice_db \<times> unit res" where
  "delete_session f i db =
     (case f 0 of Some e \<Rightarrow> (db, Inl (''delete_session txn: '' @ e)) | None \<Rightarrow>
      (case f 1 of Some e \<Rightarrow> (db, Inl (''delete_session fts: '' @ e)) | None \<Rightarrow>
       (case f 2 of Some e \<Rightarrow> (db, Inl (''delete_session: '' @ e)) | None \<Rightarrow>
        (case f 3 of Some e \<Rightarrow> (db, Inl (''delete_session commit: '' @ e)) | None \<Rightarrow>
           (\<lparr>sessions = filter (\<lambda>s. vs_id s \<noteq> i) (sessions db),
             segment_rows = filter (\<lambda>s. ts_session s \<noteq> i) (segment_rows db),
             note_rows = filter (\<lambda>n. sn_session n \<noteq> i) (note_rows db),
             voice_fts = filter (\<lambda>r. fst r \<noteq> i) (voice_fts db)\<rparr>, Inr ())))))"

definition update_session ::
  "string \<Rightarrow> (voice_session \<Rightarrow> voice_session) \<Rightarrow> voice_db \<Rightarrow> voice_db" where
  "update_session i g db =
     db\<lparr>sessions := map (\<lambda>s. if vs_id s = i then g s else s) (sessions db)\<rparr>"

definition update_session_status :: "faults \<Rightarrow> string \<Rightarrow> string \<Rightarrow> voice_db \<Rightarrow> voice_db \<times> unit res" where
  "update_session_status f i st db =
     (case f 0 of
        Some e \<Rightarrow> (db, Inl (''update_session_status: '' @ e))
      | None \<Rightarrow> (update_session i (\<lambda>s. s\<lparr>status := st\<rparr>) db, Inr ()))"

definition finish_session :: "faults \<Rightarrow> string \<Rightarrow> int \<Rightarrow> int \<Rightarrow> voice_db \<Rightarrow> voice_db \<times> unit res" where
  "finish_session f i ended dur db =
     (case f 0 of
        Some e \<Rightarrow> (db, Inl (''finish_session: '' @ e))
      | None \<Rightarrow>
          (update_session i
             (\<lambda>s. s\<lparr>status := ''processing'', ended_at := Some ended, duration_sec := Some dur\<rparr>) db,
           Inr ()))"

definition complete_session :: "faults \<Rightarrow> string \<Rightarrow> voice_db \<Rightarrow> voice_db \<times> unit res" where
  "complete_session f i db = update_session_status f i ''complete'' db"

section \<open>Segments and notes\<close>

definition insert_segment ::
  "faults \<Rightarrow> string \<Rightarrow> int \<Rightarrow> string \<Rightarrow> string \<Rightarrow> int \<Rightarrow> int \<Rightarrow> voice_db \<Rightarrow> voice_db \<times> unit res" where
  "insert_segment f uuid now sid t start_at end_at db =
     (case f 0 of Some e \<Rightarrow> (db, Inl (''insert_segment txn: '' @ e)) | None \<Rightarrow>
      (case f 1 of Some e \<Rightarrow> (db, Inl (''insert_segment: '' @ e)) | None \<Rightarrow>
       if uuid \<in> ts_id ` set (segment_rows db)
       then (db, Inl ''insert_segment: UNIQUE constraint failed: transcript_segments.id'')
       else if sid \<notin> vs_id ` set (sessions db)
       then (db, Inl ''insert_segment: FOREIGN KEY constraint failed'')
       else
        (case f 2 of Some e \<Rightarrow> (db, Inl (''insert_segment fts: '' @ e)) | None \<Rightarrow>
         (case f 3 of Some e \<Rightarrow> (db, Inl (''insert_segment commit: '' @ e)) | None \<Rightarrow>
            (db\<lparr>segment_rows := segment_rows db @
                  [\<lparr>ts_id = uuid, ts_session = sid, ts_text = t, start_ms = start_at,
                    end_ms = end_at, ts_created_at = now\<rparr>],
                voice_fts := voice_fts db @ [(sid, t)]\<rparr>, Inr ())))))"

definition update_notes ::
  "string \<Rightarrow> (session_notes \<Rightarrow> session_notes) \<Rightarrow> voice_db \<Rightarrow> voice_db" where
  "update_notes sid g db =
     db\<lparr>note_rows := map (\<lambda>n. if sn_session n = sid then g n else n) (note_rows db)\<rparr>"

definition upsert_notes ::
  "faults \<Rightarrow> string \<Rightarrow> int \<Rightarrow> string \<Rightarrow> string option \<Rightarrow> voice_db \<Rightarrow> voice_db \<times> unit res" where
  "upsert_notes f uuid now sid raw db =
     (case f 0 of
        Some e \<Rightarrow> (db, Inl (''upsert_notes: '' @ e))
      | None \<Rightarrow>
          if sid \<in> sn_session ` set (note_rows db)
          then (update_notes sid (\<lambda>n. n\<lparr>raw_notes := raw, sn_updated_at := now\<rparr>) db, Inr ())
          else if uuid \<in> sn_id ` set (note_rows db)
          then (db, Inl ''upsert_notes: UNIQUE constraint failed: session_notes.id'')
          else if sid \<notin> vs_id ` set (sessions db)
          then (db, Inl ''upsert_notes: FOREIGN KEY constraint failed'')
          else (db\<lparr>note_rows := note_rows db @
                 [\<lparr>sn_id = uuid, sn_session = sid, raw_notes = raw, ai_summary = None,
                   ai_action_items = None, ai_decisions = None, sn_updated_at = now\<rparr>]\<rparr>, Inr ()))"

text \<open>No row for the session is not an error: it is only logged.\<close>

definition update_ai_output ::
  "faults \<Rightarrow> int \<Rightarrow> string \<Rightarrow> string \<Rightarrow> string \<Rightarrow> string \<Rightarrow> voice_db \<Rightarrow> voice_db \<times> unit res" where
  "update_ai_output f now sid summary actions decisions db =
     (case f 0 of
        Some e \<Rightarrow> (db, Inl (''update_ai_output: '' @ e))
      | None \<Rightarrow>
          (update_notes sid
             (\<lambda>n. n\<lparr>ai_summary := Some summary, ai_action_items := Some actions,
                    ai_decisions := Some decisions, sn_updated_at := now\<rparr>) db, Inr ()))"

section \<open>Queries\<close>

definition list_sessions :: "faults \<Rightarrow> voice_db \<Rightarrow> voice_session list res" where
  "list_sessions f db =
     (case f 0 of Some e \<Rightarrow> Inl (''list_sessions prepare: '' @ e) | None \<Rightarrow>
      (case f 1 of Some e \<Rightarrow> Inl (''list_sessions query: '' @ e) | None \<Rightarrow>
         Inr (take 200 (sort_key (\<lambda>s. - started_at s) (sessions db)))))"

definition get_session :: "faults \<Rightarrow> string \<Rightarrow> voice_db \<Rightarrow> voice_session option res" where
  "get_session f i db =
     (case f 0 of Some e \<Rightarrow> Inl (''get_session: '' @ e)
      | None \<Rightarrow> Inr (List.find (\<lambda>s. vs_id s = i) (sessions db)))"

definition get_segments :: "faults \<Rightarrow> string \<Rightarrow> voice_db \<Rightarrow> transcript_segment list res" where
  "get_segments f sid db =
     (case f 0 of Some e \<Rightarrow> Inl (''get_segments prepare: '' @ e) | None \<Rightarrow>
      (case f 1 of Some e \<Rightarrow> Inl (''get_segments query: '' @ e) | None \<Rightarrow>
         Inr (sort_key start_ms (filter (\<lambda>s. ts_session s = sid) (segment_rows db)))))"

definition get_notes :: "faults \<Rightarrow> string \<Rightarrow> voice_db \<Rightarrow> session_notes option res" where
  "get_notes f sid db =
     (case f 0 of Some e \<Rightarrow> Inl (''get_notes: '' @ e)
      | None \<Rightarrow> Inr (List.find (\<lambda>n. sn_session n = sid) (note_rows db)))"

text \<open>The query as one phrase of FTS5: quoted, with the quotes inside doubled.\<close>

definition safe_query :: "string \<Rightarrow> string" where
  "safe_query q = CHR 0x22 # replace_char (CHR 0x22) [CHR 0x22, CHR 0x22] q @ [CHR 0x22]"

text \<open>\<open>matches query text\<close> is FTS5's answer for one row.\<close>

definition search_sessions ::
  "(string \<Rightarrow> string \<Rightarrow> bool) \<Rightarrow> faults \<Rightarrow> string \<Rightarrow> voice_db \<Rightarrow> string list res" where
  "search_sessions matches f q db =
     (if trim q = [] then Inr []
      else
        (case f 0 of Some e \<Rightarrow> Inl (''search_sessions prepare: '' @ e) | None \<Rightarrow>
         (case f 1 of Some e \<Rightarrow> Inl (''search_sessions query: '' @ e) | None \<Rightarrow>
            Inr (take 50 (rev (remdups (rev
              (map fst (filter (\<lambda>r. matches (safe_query q) (snd r)) (voice_fts db))))))))))"

section \<open>The invariant of the database\<close>

text \<open>Keys are unique, children belong to a session, and the full-text index holds exactly the
  texts of the stored segments.\<close>

definition db_ok :: "voice_db \<Rightarrow> bool" where
  "db_ok db =
     (distinct (map vs_id (sessions db)) \<and> distinct (map ts_id (segment_rows db)) \<and>
      distinct (map sn_session (note_rows db)) \<and> distinct (map sn_id (note_rows db)) \<and>
      ts_session ` set (segment_rows db) \<subseteq> vs_id ` set (sessions db) \<and>
      sn_session ` set (note_rows db) \<subseteq> vs_id ` set (sessions db) \<and>
      voice_fts db = map (\<lambda>s. (ts_session s, ts_text s)) (segment_rows db))"

text \<open>The calls that change the database, to speak of all sequences of them.\<close>

datatype voice_op =
    Create faults int string string string
  | Delete faults string
  | SetStatus faults string string
  | Finish faults string int int
  | InsertSegment faults string int string string int int
  | UpsertNotes faults string int string "string option"
  | UpdateAi faults int string string string string

fun exec_op :: "voice_op \<Rightarrow> voice_db \<Rightarrow> voice_db" where
  "exec_op (Create f now i t ty) db = fst (create_session f now i t ty db)"
| "exec_op (Delete f i) db = fst (delete_session f i db)"
| "exec_op (SetStatus f i st) db = fst (update_session_status f i st db)"
| "exec_op (Finish f i ended dur) db = fst (finish_session f i ended dur db)"
| "exec_op (InsertSegment f u now i t a b) db = fst (insert_segment f u now i t a b db)"
| "exec_op (UpsertNotes f u now i raw) db = fst (upsert_notes f u now i raw db)"
| "exec_op (UpdateAi f now i x y z) db = fst (update_ai_output f now i x y z db)"

lemma update_session_tables [simp]:
  "segment_rows (update_session i g db) = segment_rows db"
  "note_rows (update_session i g db) = note_rows db"
  "voice_fts (update_session i g db) = voice_fts db"
  "sessions (update_session i g db) = map (\<lambda>s. if vs_id s = i then g s else s) (sessions db)"
  by (simp_all add: update_session_def)

lemma update_notes_tables [simp]:
  "segment_rows (update_notes i g db) = segment_rows db"
  "sessions (update_notes i g db) = sessions db"
  "voice_fts (update_notes i g db) = voice_fts db"
  "note_rows (update_notes i g db) = map (\<lambda>n. if sn_session n = i then g n else n) (note_rows db)"
  by (simp_all add: update_notes_def)

lemma map_key_update: "(\<And>x. k (g x) = k x) \<Longrightarrow> map k (map (\<lambda>x. if P x then g x else x) xs) = map k xs"
  by (induction xs) auto

lemma update_session_ok [wf_intros]:
  assumes "\<And>s. vs_id (g s) = vs_id s" "db_ok db" shows "db_ok (update_session i g db)"
proof -
  have ids: "map vs_id (sessions (update_session i g db)) = map vs_id (sessions db)"
    using assms(1) by (simp only: update_session_tables map_key_update)
  then have "vs_id ` set (sessions (update_session i g db)) = vs_id ` set (sessions db)"
    by (metis list.set_map)
  with ids assms(2) show ?thesis unfolding db_ok_def by (simp only: update_session_tables)
qed

lemma update_notes_ok [wf_intros]:
  assumes "\<And>n. sn_session (g n) = sn_session n" "\<And>n. sn_id (g n) = sn_id n" "db_ok db"
  shows "db_ok (update_notes i g db)"
proof -
  have m: "map sn_session (note_rows (update_notes i g db)) = map sn_session (note_rows db)"
    "map sn_id (note_rows (update_notes i g db)) = map sn_id (note_rows db)"
    using assms(1,2) by (simp_all only: update_notes_tables map_key_update)
  then have "sn_session ` set (note_rows (update_notes i g db)) = sn_session ` set (note_rows db)"
    by (metis list.set_map)
  with m assms(3) show ?thesis unfolding db_ok_def by (simp only: update_notes_tables)
qed

lemma empty_db_ok: "db_ok empty_db"
  by (simp add: db_ok_def empty_db_def)

lemma distinct_map_filter': "distinct (map k xs) \<Longrightarrow> distinct (map k (filter P xs))"
  by (induction xs) auto

lemma delete_session_ok [wf_intros]: "db_ok db \<Longrightarrow> db_ok (fst (delete_session f i db))"
  by (auto simp: delete_session_def db_ok_def distinct_map_filter' filter_map comp_def
      split: option.splits)

lemma insert_segment_ok [wf_intros]: "db_ok db \<Longrightarrow> db_ok (fst (insert_segment f u now i t a b db))"
  by (auto simp: insert_segment_def db_ok_def split: option.splits)

lemma upsert_notes_ok [wf_intros]: "db_ok db \<Longrightarrow> db_ok (fst (upsert_notes f u now i raw db))"
  using update_notes_ok [of "\<lambda>n. n\<lparr>raw_notes := raw, sn_updated_at := now\<rparr>" db i]
  by (auto simp: upsert_notes_def split: option.splits) (auto simp: db_ok_def)

lemma create_session_ok [wf_intros]: "db_ok db \<Longrightarrow> db_ok (fst (create_session f now i t ty db))"
  by (auto simp: create_session_def db_ok_def split: option.splits)

lemma exec_op_ok [wf_intros]: "db_ok db \<Longrightarrow> db_ok (exec_op op db)"
  by (cases op)
     (auto simp: update_session_status_def finish_session_def update_ai_output_def
       split: option.splits intro!: wf_intros)

lemma exec_ops_ok: "db_ok db \<Longrightarrow> db_ok (fold exec_op ops db)"
  by (induction ops arbitrary: db) (auto intro: exec_op_ok)

section \<open>Properties\<close>

text \<open>C5. Referential integrity in every state: after any sequence of calls, each with any of its
  statements failing, ids are unique, no segment and no notes row outlives its session, and the
  full-text index is exactly the texts of the stored segments.\<close>

theorem voice_db_integrity:
  "distinct (map vs_id (sessions (fold exec_op ops empty_db))) \<and>
   ts_session ` set (segment_rows (fold exec_op ops empty_db)) \<subseteq>
     vs_id ` set (sessions (fold exec_op ops empty_db)) \<and>
   sn_session ` set (note_rows (fold exec_op ops empty_db)) \<subseteq>
     vs_id ` set (sessions (fold exec_op ops empty_db)) \<and>
   distinct (map sn_session (note_rows (fold exec_op ops empty_db))) \<and>
   voice_fts (fold exec_op ops empty_db) =
     map (\<lambda>s. (ts_session s, ts_text s)) (segment_rows (fold exec_op ops empty_db))"
  using exec_ops_ok [OF empty_db_ok, of ops] by (simp add: db_ok_def)

lemma set_rev_remdups_rev [simp]: "set (rev (remdups (rev xs))) = set xs"
  by simp

text \<open>A search cannot inject FTS5 syntax and cannot dangle: the query reaches FTS5 as one phrase
  whose content is exactly the user's text, every id found is that of a stored session with a
  matching segment, no id comes twice, and below the limit of 50 no such session is missed.\<close>

theorem search_sessions_sound_complete:
  assumes "trim q \<noteq> []"
    and "search_sessions matches no_faults q (fold exec_op ops empty_db) = Inr found"
  shows "phrase_of (safe_query q) = Some q \<and> distinct found \<and> length found \<le> 50 \<and>
    (\<forall>i \<in> set found. i \<in> vs_id ` set (sessions (fold exec_op ops empty_db)) \<and>
       (\<exists>s \<in> set (segment_rows (fold exec_op ops empty_db)).
          ts_session s = i \<and> matches (safe_query q) (ts_text s))) \<and>
    (length found < 50 \<longrightarrow>
       (\<forall>s \<in> set (segment_rows (fold exec_op ops empty_db)).
          matches (safe_query q) (ts_text s) \<longrightarrow> ts_session s \<in> set found))"
proof -
  let ?db = "fold exec_op ops empty_db"
  let ?hits = "rev (remdups (rev (map fst (filter (\<lambda>r. matches (safe_query q) (snd r)) (voice_fts ?db)))))"
  note ok = exec_ops_ok [OF empty_db_ok, of ops, unfolded db_ok_def]
  have found: "found = take 50 ?hits"
    using assms by (simp add: search_sessions_def)
  have hits: "set ?hits = {ts_session s |s. s \<in> set (segment_rows ?db) \<and> matches (safe_query q) (ts_text s)}"
    using ok by (auto simp: filter_map comp_def)
  have "phrase_of (safe_query q) = Some q"
    by (simp add: phrase_of_def safe_query_def phrase_body_escaped)
  moreover have "distinct found" "length found \<le> 50" by (simp_all add: found)
  moreover have sub: "set found \<subseteq> set ?hits" unfolding found by (rule set_take_subset)
  moreover have "\<forall>i \<in> set ?hits. i \<in> vs_id ` set (sessions ?db) \<and>
      (\<exists>s \<in> set (segment_rows ?db). ts_session s = i \<and> matches (safe_query q) (ts_text s))"
    using ok unfolding hits by blast
  moreover have "set found = set ?hits" if "length found < 50"
    using that by (simp add: found)
  ultimately show ?thesis using hits by blast
qed

theorem search_sessions_sound_complete_witness:
  "''m'' \<in> vs_id ` set (sessions (fold exec_op
      [Create no_faults 0 ''m'' ''t'' ''meeting'', InsertSegment no_faults ''u'' 1 ''m'' ''hi'' 0 9]
      empty_db))"
  using search_sessions_sound_complete [of "''h''" "\<lambda>_ _. True"
      "[Create no_faults 0 ''m'' ''t'' ''meeting'', InsertSegment no_faults ''u'' 1 ''m'' ''hi'' 0 9]"
      "[''m'']"]
  by (simp add: search_sessions_def create_session_def insert_segment_def empty_db_def
      trim_eq_Nil_iff is_ws_def)

section \<open>Recovery at startup\<close>

text \<open>The loop of \<open>run\<close> in \<open>lib.rs\<close> that marks sessions a crash has left behind; errors of the
  single updates are dropped. \<open>fs k\<close> are the faults of the \<open>k\<close>-th update.\<close>

fun mark_stuck :: "(nat \<Rightarrow> faults) \<Rightarrow> voice_session list \<Rightarrow> voice_db \<Rightarrow> voice_db" where
  "mark_stuck fs [] db = db"
| "mark_stuck fs (s # ss) db =
     (if status s = ''recording'' \<or> status s = ''processing''
      then mark_stuck (\<lambda>k. fs (Suc k)) ss (fst (update_session_status (fs 0) (vs_id s) ''error'' db))
      else mark_stuck fs ss db)"

definition recover_sessions :: "faults \<Rightarrow> (nat \<Rightarrow> faults) \<Rightarrow> voice_db \<Rightarrow> voice_db" where
  "recover_sessions f fs db =
     (case list_sessions f db of Inl _ \<Rightarrow> db | Inr ss \<Rightarrow> mark_stuck fs ss db)"

definition stuck :: "voice_session \<Rightarrow> bool" where
  "stuck s = (status s = ''recording'' \<or> status s = ''processing'')"

lemma mark_stuck_sessions:
  "sessions (mark_stuck (\<lambda>_. no_faults) ss db) =
     map (\<lambda>s. if vs_id s \<in> vs_id ` set (filter stuck ss) then s\<lparr>status := ''error''\<rparr> else s)
       (sessions db)"
  by (induction ss arbitrary: db)
     (auto simp: update_session_status_def stuck_def)

text \<open>What the recovery at startup repairs, exactly: it looks only at the 200 most recent
  sessions, marks those of them that were recording or being processed as failed, and leaves every
  older session as it is. So nothing stays stuck when at most 200 sessions are stored, and a stuck
  session that 200 newer ones precede stays stuck at every start.\<close>

theorem recovery_sees_200_sessions:
  assumes "distinct (map vs_id (sessions db))"
  shows "sessions (recover_sessions no_faults (\<lambda>_. no_faults) db) =
      map (\<lambda>s. if stuck s \<and> s \<in> set (take 200 (sort_key (\<lambda>s. - started_at s) (sessions db)))
               then s\<lparr>status := ''error''\<rparr> else s) (sessions db) \<and>
    (length (sessions db) \<le> 200 \<longrightarrow>
      (\<forall>s \<in> set (sessions (recover_sessions no_faults (\<lambda>_. no_faults) db)). \<not> stuck s))"
proof -
  let ?top = "take 200 (sort_key (\<lambda>s. - started_at s) (sessions db))"
  have sub: "set ?top \<subseteq> set (sessions db)"
    using set_take_subset [of 200 "sort_key (\<lambda>s. - started_at s) (sessions db)"] by simp
  have inj: "inj_on vs_id (set (sessions db))" using assms by (simp add: distinct_map)
  have mem: "vs_id s \<in> vs_id ` set (filter stuck ?top) \<longleftrightarrow> stuck s \<and> s \<in> set ?top"
    if "s \<in> set (sessions db)" for s
  proof
    assume "vs_id s \<in> vs_id ` set (filter stuck ?top)"
    then obtain u where u: "u \<in> set ?top" "stuck u" "vs_id u = vs_id s" by auto
    with sub that inj have "u = s" by (meson inj_onD subsetD)
    with u show "stuck s \<and> s \<in> set ?top" by simp
  next
    assume "stuck s \<and> s \<in> set ?top"
    then show "vs_id s \<in> vs_id ` set (filter stuck ?top)" by simp
  qed
  have eq: "sessions (recover_sessions no_faults (\<lambda>_. no_faults) db) =
      map (\<lambda>s. if stuck s \<and> s \<in> set ?top then s\<lparr>status := ''error''\<rparr> else s) (sessions db)"
    unfolding recover_sessions_def list_sessions_def
    by (simp add: mark_stuck_sessions) (use mem in auto)
  have fixed: "\<not> stuck (s\<lparr>status := ''error''\<rparr>)" for s :: voice_session
    by (simp add: stuck_def)
  have "\<not> stuck s" if "length (sessions db) \<le> 200"
    and "s \<in> set (sessions (recover_sessions no_faults (\<lambda>_. no_faults) db))" for s
  proof -
    have "set ?top = set (sessions db)" using that(1) by simp
    with that(2) obtain u where "u \<in> set (sessions db)"
      "s = (if stuck u then u\<lparr>status := ''error''\<rparr> else u)"
      unfolding eq by auto
    then show ?thesis by (cases "stuck u") (simp_all add: fixed)
  qed
  with eq show ?thesis by blast
qed

theorem recovery_sees_200_sessions_witness:
  "list_all (\<lambda>s. \<not> stuck s) (sessions (recover_sessions no_faults (\<lambda>_. no_faults)
     (fst (create_session no_faults 0 ''m'' ''t'' ''meeting'' empty_db))))"
  unfolding list_all_iff
  by (rule recovery_sees_200_sessions [THEN conjunct2, THEN mp])
     (simp_all add: create_session_def empty_db_def)

end
