(* ===== verification/Meeting.thy ===== *)
theory Meeting
  imports Voice_Db Transcription
begin

text \<open>
  Meeting recording, transcription and summary of \<open>src-tauri/src/meeting.rs\<close>.

  The state holds the voice database, the slot of the active recording, the ffmpeg processes that
  run, the WAV files on disk, the transcription threads that have not finished and the events
  emitted to the frontend. A WAV file is named by its session, so files and processes are sets of
  session ids. What ffmpeg, Whisper, the model provider, the clock and the id generator answer is
  an argument.
\<close>

datatype meeting_event =
    SegmentEvent string string int int
  | TranscriptionComplete string
  | TranscriptionError string string
  | SummaryReady string string string string
  | SummaryError string string

record meeting_app =
  vdb :: voice_db
  active :: "string option"
  ffmpegs :: "string set"
  wavs :: "string set"
  jobs :: "string list"
  meeting_events :: "meeting_event list"

definition meeting_init :: meeting_app where
  "meeting_init = \<lparr>vdb = empty_db, active = None, ffmpegs = {}, wavs = {}, jobs = [],
     meeting_events = []\<rparr>"

section \<open>Commands\<close>

text \<open>ffmpeg creates its output file once it runs. A failure of \<open>create_session\<close> returns while
  the spawned process goes on: dropping a \<open>Child\<close> does not stop it.\<close>

definition meeting_start ::
  "unit res \<Rightarrow> faults \<Rightarrow> string \<Rightarrow> int \<Rightarrow> string \<Rightarrow> meeting_app \<Rightarrow> meeting_app \<times> string res" where
  "meeting_start spawn f uuid now ttl m =
     (if active m \<noteq> None then (m, Inl ''a meeting recording is already active'')
      else
        (case spawn of
           Inl e \<Rightarrow> (m, Inl (''spawn ffmpeg for meeting: '' @ e))
         | Inr _ \<Rightarrow>
             let m1 = m\<lparr>ffmpegs := insert uuid (ffmpegs m), wavs := insert uuid (wavs m)\<rparr> in
             (case create_session f now uuid ttl ''meeting'' (vdb m1) of
                (db, Inl e) \<Rightarrow> (m1\<lparr>vdb := db\<rparr>, Inl e)
              | (db, Inr _) \<Rightarrow> (m1\<lparr>vdb := db, active := Some uuid\<rparr>, Inr uuid))))"

text \<open>Closing the standard input ends ffmpeg, \<open>wait\<close> reaps it; the slot is empty from here on, also
  when the database refuses.\<close>

definition meeting_stop ::
  "faults \<Rightarrow> int \<Rightarrow> int \<Rightarrow> meeting_app \<Rightarrow> meeting_app \<times> string res" where
  "meeting_stop f now elapsed_sec m =
     (case active m of
        None \<Rightarrow> (m, Inl ''no active meeting recording'')
      | Some sid \<Rightarrow>
          let m1 = m\<lparr>active := None, ffmpegs := ffmpegs m - {sid}\<rparr> in
          (case finish_session f sid now elapsed_sec (vdb m1) of
             (db, Inl e) \<Rightarrow> (m1\<lparr>vdb := db\<rparr>, Inl e)
           | (db, Inr _) \<Rightarrow> (m1\<lparr>vdb := db, jobs := jobs m1 @ [sid]\<rparr>, Inr sid)))"

definition meeting_get_elapsed :: "nat \<Rightarrow> meeting_app \<Rightarrow> nat res" where
  "meeting_get_elapsed elapsed_sec m =
     (case active m of None \<Rightarrow> Inl ''no active meeting recording'' | Some _ \<Rightarrow> Inr elapsed_sec)"

definition meeting_save_notes ::
  "faults \<Rightarrow> string \<Rightarrow> int \<Rightarrow> string \<Rightarrow> string \<Rightarrow> meeting_app \<Rightarrow> meeting_app \<times> unit res" where
  "meeting_save_notes f uuid now sid n m =
     (case upsert_notes f uuid now sid (Some n) (vdb m) of (db, r) \<Rightarrow> (m\<lparr>vdb := db\<rparr>, r))"

definition meeting_list :: "faults \<Rightarrow> meeting_app \<Rightarrow> voice_session list res" where
  "meeting_list f m = list_sessions f (vdb m)"

definition meeting_get ::
  "faults \<Rightarrow> faults \<Rightarrow> faults \<Rightarrow> string \<Rightarrow> meeting_app
     \<Rightarrow> (voice_session \<times> transcript_segment list \<times> session_notes option) res" where
  "meeting_get f1 f2 f3 sid m =
     (case get_session f1 sid (vdb m) of
        Inl e \<Rightarrow> Inl e
      | Inr None \<Rightarrow> Inl (''session not found: '' @ sid)
      | Inr (Some s) \<Rightarrow>
          (case get_segments f2 sid (vdb m) of
             Inl e \<Rightarrow> Inl e
           | Inr segs \<Rightarrow>
               (case get_notes f3 sid (vdb m) of
                  Inl e \<Rightarrow> Inl e
                | Inr n \<Rightarrow> Inr (s, segs, n))))"

text \<open>Removing the WAV is best effort: \<open>rm_ok\<close> says whether the file system allows it.\<close>

definition meeting_delete ::
  "faults \<Rightarrow> bool \<Rightarrow> string \<Rightarrow> meeting_app \<Rightarrow> meeting_app \<times> unit res" where
  "meeting_delete f rm_ok sid m =
     (if active m = Some sid then (m, Inl ''cannot delete a session that is currently recording'')
      else
        (case delete_session f sid (vdb m) of
           (db, Inl e) \<Rightarrow> (m\<lparr>vdb := db\<rparr>, Inl e)
         | (db, Inr _) \<Rightarrow>
             (m\<lparr>vdb := db, wavs := (if rm_ok then wavs m - {sid} else wavs m)\<rparr>, Inr ())))"

text \<open>\<open>fs k\<close> are the faults of the query for the \<open>k\<close>-th id.\<close>

fun get_sessions :: "(nat \<Rightarrow> faults) \<Rightarrow> string list \<Rightarrow> voice_db \<Rightarrow> voice_session list res" where
  "get_sessions fs [] db = Inr []"
| "get_sessions fs (i # is) db =
     (case get_session (fs 0) i db of
        Inl e \<Rightarrow> Inl e
      | Inr x \<Rightarrow>
          (case get_sessions (\<lambda>k. fs (Suc k)) is db of
             Inl e \<Rightarrow> Inl e
           | Inr ss \<Rightarrow> Inr ((case x of None \<Rightarrow> [] | Some s \<Rightarrow> [s]) @ ss)))"

definition meeting_search ::
  "(string \<Rightarrow> string \<Rightarrow> bool) \<Rightarrow> faults \<Rightarrow> (nat \<Rightarrow> faults) \<Rightarrow> string \<Rightarrow> meeting_app
     \<Rightarrow> voice_session list res" where
  "meeting_search matches f fs q m =
     (if q = [] then list_sessions f (vdb m)
      else
        (case search_sessions matches f q (vdb m) of
           Inl e \<Rightarrow> Inl e
         | Inr ids \<Rightarrow> get_sessions fs ids (vdb m)))"

section \<open>Transcription\<close>

text \<open>\<open>chunks_exact(4)\<close> drops an incomplete last group.\<close>

fun chunks_exact4 :: "'a list \<Rightarrow> ('a \<times> 'a \<times> 'a \<times> 'a) list" where
  "chunks_exact4 (a # b # c # d # xs) = (a, b, c, d) # chunks_exact4 xs"
| "chunks_exact4 _ = []"

definition chunk_samples :: nat where "chunk_samples = 480000"

text \<open>The loop's arithmetic on \<open>f64\<close> is exact: \<open>1000 / 16000\<close> is a power of two.\<close>

definition sample_ms :: "nat \<Rightarrow> int" where
  "sample_ms offset = \<lfloor>real offset * (1000 / 16000)\<rfloor>"

text \<open>What one transcription thread meets: the bytes ffmpeg writes, the float of four little-endian
  bytes, the engine if the model was loaded, and ids, times and database faults per chunk.\<close>

record job_env =
  decode :: "8 word list res"
  f32_from_le :: "8 word \<times> 8 word \<times> 8 word \<times> 8 word \<Rightarrow> real"
  engine :: "(real list \<Rightarrow> whisper_run) option"
  job_uuid :: "nat \<Rightarrow> string"
  job_now :: "nat \<Rightarrow> int"
  job_fault :: "nat \<Rightarrow> faults"

definition transcribe_chunk ::
  "job_env \<Rightarrow> (real list \<Rightarrow> whisper_run) \<Rightarrow> string \<Rightarrow> nat \<Rightarrow> real list \<Rightarrow> meeting_app \<Rightarrow> meeting_app" where
  "transcribe_chunk env eng sid k c m =
     (let offset = k * chunk_samples;
          s = sample_ms offset;
          e = sample_ms (offset + length c)
      in case transcribe (eng c) c of
           Inl _ \<Rightarrow> m
         | Inr t \<Rightarrow>
             if trim t = [] then m
             else m\<lparr>vdb := fst (insert_segment (job_fault env k) (job_uuid env k) (job_now env k)
                              sid (trim t) s e (vdb m)),
                    meeting_events := meeting_events m @ [SegmentEvent sid (trim t) s e]\<rparr>)"

fun transcribe_chunks ::
  "job_env \<Rightarrow> (real list \<Rightarrow> whisper_run) \<Rightarrow> string \<Rightarrow> nat \<Rightarrow> real list list \<Rightarrow> meeting_app \<Rightarrow> meeting_app" where
  "transcribe_chunks env eng sid k [] m = m"
| "transcribe_chunks env eng sid k (c # cs) m =
     transcribe_chunks env eng sid (Suc k) cs (transcribe_chunk env eng sid k c m)"

definition run_transcription :: "job_env \<Rightarrow> string \<Rightarrow> meeting_app \<Rightarrow> meeting_app \<times> unit res" where
  "run_transcription env sid m =
     (case decode env of
        Inl e \<Rightarrow> (m, Inl (''ffmpeg decode failed: '' @ e))
      | Inr bytes \<Rightarrow>
          let samples = map (f32_from_le env) (chunks_exact4 bytes) in
          if samples = [] then (m, Inr ())
          else
            (case engine env of
               None \<Rightarrow> (m, Inl ''Whisper engine not available (model failed to load)'')
             | Some eng \<Rightarrow>
                 (transcribe_chunks env eng sid 0 (chunks_of chunk_samples samples) m, Inr ())))"

text \<open>The thread: transcribe, remove the WAV in either case, then the one terminal transition; the
  errors of that last update are dropped.\<close>

definition transcribe_meeting_audio ::
  "job_env \<Rightarrow> faults \<Rightarrow> bool \<Rightarrow> string \<Rightarrow> meeting_app \<Rightarrow> meeting_app" where
  "transcribe_meeting_audio env f rm_ok sid m =
     (case run_transcription env sid m of
        (m1, result) \<Rightarrow>
          let m2 = m1\<lparr>wavs := (if rm_ok then wavs m1 - {sid} else wavs m1)\<rparr> in
          (case result of
             Inr _ \<Rightarrow>
               m2\<lparr>vdb := fst (complete_session f sid (vdb m2)),
                  meeting_events := meeting_events m2 @ [TranscriptionComplete sid]\<rparr>
           | Inl e \<Rightarrow>
               m2\<lparr>vdb := fst (update_session_status f sid ''error'' (vdb m2)),
                  meeting_events := meeting_events m2 @ [TranscriptionError sid e]\<rparr>))"

section \<open>Summary\<close>

text \<open>The part before the task is spawned: what the task then works on.\<close>

definition meeting_generate_summary ::
  "faults \<Rightarrow> faults \<Rightarrow> string res \<Rightarrow> string \<Rightarrow> meeting_app
     \<Rightarrow> (transcript_segment list \<times> session_notes option \<times> string) res" where
  "meeting_generate_summary f1 f2 api_key sid m =
     (case get_segments f1 sid (vdb m) of
        Inl e \<Rightarrow> Inl e
      | Inr segs \<Rightarrow>
          if segs = [] then Inl ''No transcript available''
          else
            (case get_notes f2 sid (vdb m) of
               Inl e \<Rightarrow> Inl e
             | Inr n \<Rightarrow> (case api_key of Inl e \<Rightarrow> Inl e | Inr k \<Rightarrow> Inr (segs, n, k))))"

definition summary_prompt :: "transcript_segment list \<Rightarrow> session_notes option \<Rightarrow> string" where
  "summary_prompt segs n =
     ''TRANSCRIPT:'' @ [CHR 0x0A] @ join '' '' (map ts_text segs) @ [CHR 0x0A, CHR 0x0A] @
     ''NOTES:'' @ [CHR 0x0A] @
     (case n of None \<Rightarrow> [] | Some x \<Rightarrow> (case raw_notes x of None \<Rightarrow> [] | Some r \<Rightarrow> r))"

text \<open>\<open>&text[start..=end]\<close> between the first opening and the last closing brace; a range that ends
  before it starts panics, an empty one (the text \<open>}{\<close>) does not. \<open>from_str\<close> is serde's parser for
  the three fields.\<close>

definition extract_summary ::
  "(string \<Rightarrow> (string \<times> string \<times> string) res) \<Rightarrow> string
     \<Rightarrow> (string \<times> string \<times> string) res outcome" where
  "extract_summary from_str txt =
     (case find_char (CHR ''{'') txt of
        None \<Rightarrow> Done (Inl ''no JSON object in LLM response'')
      | Some start_at \<Rightarrow>
          (case rfind_char (CHR ''}'') txt of
             None \<Rightarrow> Done (Inl ''no closing brace in LLM response'')
           | Some end_at \<Rightarrow>
               if start_at > end_at + 1 then Panicked
               else
                 let json_str = take (end_at + 1 - start_at) (drop start_at txt) in
                 (case from_str json_str of
                    Inl e \<Rightarrow> Done (Inl (''failed to parse summary JSON: '' @ e @ [CHR 0x0A] @
                              ''raw: '' @ json_str))
                  | Inr x \<Rightarrow> Done (Inr x))))"

text \<open>The spawned task, from the model's answer on; \<open>fa\<close>, \<open>fb\<close> and \<open>fc\<close> are the faults of its
  three possible writes. A panic ends the task without an event.\<close>

definition finish_summary ::
  "(string \<Rightarrow> (string \<times> string \<times> string) res) \<Rightarrow> faults \<Rightarrow> faults \<Rightarrow> faults \<Rightarrow> string \<Rightarrow> int
     \<Rightarrow> string res \<Rightarrow> string \<Rightarrow> meeting_app \<Rightarrow> meeting_app" where
  "finish_summary from_str fa fb fc uuid now answer sid m =
     (case (case answer of Inl e \<Rightarrow> Done (Inl e) | Inr t \<Rightarrow> extract_summary from_str t) of
        Panicked \<Rightarrow> m
      | Done (Inl e) \<Rightarrow> m\<lparr>meeting_events := meeting_events m @ [SummaryError sid e]\<rparr>
      | Done (Inr (s, a, d)) \<Rightarrow>
          (case update_ai_output fa now sid s a d (vdb m) of
             (db, Inr _) \<Rightarrow>
               m\<lparr>vdb := db, meeting_events := meeting_events m @ [SummaryReady sid s a d]\<rparr>
           | (db, Inl _) \<Rightarrow>
               (case update_ai_output fc now sid s a d (fst (upsert_notes fb uuid now sid None db)) of
                  (db2, Inr _) \<Rightarrow>
                    m\<lparr>vdb := db2, meeting_events := meeting_events m @ [SummaryReady sid s a d]\<rparr>
                | (db2, Inl e2) \<Rightarrow>
                    m\<lparr>vdb := db2, meeting_events := meeting_events m @
                       [SummaryError sid (''Failed to save summary: '' @ e2)]\<rparr>)))"

section \<open>The life of a session\<close>

text \<open>The commands and threads interleave. Ids are fresh; database statements other than those that
  store segments and notes, and the removal of files, succeed.\<close>

definition used_ids :: "meeting_app \<Rightarrow> string set" where
  "used_ids m = vs_id ` set (sessions (vdb m)) \<union> set (jobs m) \<union> wavs m \<union> ffmpegs m"

inductive mstep :: "meeting_app \<Rightarrow> meeting_app \<Rightarrow> bool" where
  Start: "uuid \<notin> used_ids m \<Longrightarrow> mstep m (fst (meeting_start spawn no_faults uuid now ttl m))"
| Stop: "mstep m (fst (meeting_stop no_faults now elapsed m))"
| Notes: "mstep m (fst (meeting_save_notes f uuid now sid n m))"
| Delete: "mstep m (fst (meeting_delete no_faults True sid m))"
| Job: "sid \<in> set (jobs m) \<Longrightarrow>
    mstep m (transcribe_meeting_audio env no_faults True sid (m\<lparr>jobs := remove1 sid (jobs m)\<rparr>))"
| Summary: "mstep m (finish_summary from_str fa fb fc uuid now answer sid m)"

inductive mreach :: "meeting_app \<Rightarrow> bool" where
  Init: "mreach meeting_init"
| Next: "mreach m \<Longrightarrow> mstep m m' \<Longrightarrow> mreach m'"

definition session_life :: "meeting_app \<Rightarrow> voice_session \<Rightarrow> bool" where
  "session_life m s =
     (status s \<in> {''recording'', ''processing'', ''complete'', ''error''} \<and>
      (status s = ''recording'' \<longleftrightarrow> active m = Some (vs_id s)) \<and>
      (status s = ''processing'' \<longleftrightarrow> vs_id s \<in> set (jobs m)))"

definition meeting_ok :: "meeting_app \<Rightarrow> bool" where
  "meeting_ok m =
     (db_ok (vdb m) \<and> (\<forall>s \<in> set (sessions (vdb m)). session_life m s) \<and>
      (\<forall>sid. active m = Some sid \<longrightarrow> sid \<in> vs_id ` set (sessions (vdb m)) \<and> sid \<notin> set (jobs m)) \<and>
      distinct (jobs m) \<and> ffmpegs m = set_option (active m) \<and>
      wavs m \<subseteq> set_option (active m) \<union> set (jobs m))"

text \<open>Operations that leave sessions, slot, jobs, processes and files alone.\<close>

definition same_life :: "meeting_app \<Rightarrow> meeting_app \<Rightarrow> bool" where
  "same_life m m' =
     (sessions (vdb m') = sessions (vdb m) \<and> active m' = active m \<and> jobs m' = jobs m \<and>
      ffmpegs m' = ffmpegs m \<and> wavs m' = wavs m)"

lemma same_life_ok:
  "same_life m m' \<Longrightarrow> db_ok (vdb m') \<Longrightarrow> meeting_ok m \<Longrightarrow> meeting_ok m'"
  by (auto simp: same_life_def meeting_ok_def session_life_def)

lemma insert_segment_sessions [simp]:
  "sessions (fst (insert_segment f u now i t a b db)) = sessions db"
  by (simp add: insert_segment_def split: option.splits)

lemma upsert_notes_sessions [simp]:
  "sessions (fst (upsert_notes f u now i raw db)) = sessions db"
  by (simp add: upsert_notes_def split: option.splits)

lemma update_ai_output_sessions [simp]:
  "sessions (fst (update_ai_output f now i x y z db)) = sessions db"
  by (simp add: update_ai_output_def split: option.splits)

lemma update_ai_output_ok [wf_intros]:
  "db_ok db \<Longrightarrow> db_ok (fst (update_ai_output f now i x y z db))"
  by (auto simp: update_ai_output_def split: option.splits intro!: wf_intros)

lemma save_notes_same:
  "same_life m (fst (meeting_save_notes f u now i n m)) \<and>
   (db_ok (vdb m) \<longrightarrow> db_ok (vdb (fst (meeting_save_notes f u now i n m))))"
proof -
  obtain db r where up: "upsert_notes f u now i (Some n) (vdb m) = (db, r)" by fastforce
  have "sessions db = sessions (vdb m)" "db_ok (vdb m) \<Longrightarrow> db_ok db"
    using up upsert_notes_sessions [of f u now i "Some n" "vdb m"]
      upsert_notes_ok [of "vdb m" f u now i "Some n"] by simp_all
  then show ?thesis using up by (simp add: meeting_save_notes_def same_life_def)
qed

lemma transcribe_chunk_same:
  "same_life m (transcribe_chunk env eng sid k c m) \<and>
   (db_ok (vdb m) \<longrightarrow> db_ok (vdb (transcribe_chunk env eng sid k c m)))"
  by (auto simp: transcribe_chunk_def same_life_def Let_def split: sum.splits intro!: wf_intros)

lemma transcribe_chunks_same:
  "same_life m (transcribe_chunks env eng sid k cs m) \<and>
   (db_ok (vdb m) \<longrightarrow> db_ok (vdb (transcribe_chunks env eng sid k cs m)))"
proof (induction cs arbitrary: k m)
  case Nil
  then show ?case by (simp add: same_life_def)
next
  case (Cons c cs)
  show ?case
    using Cons.IH [of "transcribe_chunk env eng sid k c m" "Suc k"]
      transcribe_chunk_same [of m env eng sid k c]
    by (auto simp: same_life_def)
qed

lemma run_transcription_same:
  "run_transcription env sid m = (m', r) \<Longrightarrow>
     same_life m m' \<and> (db_ok (vdb m) \<longrightarrow> db_ok (vdb m'))"
  using transcribe_chunks_same
  by (auto simp: run_transcription_def Let_def same_life_def split: sum.splits option.splits if_splits)

lemma finish_summary_same:
  "same_life m (finish_summary from_str fa fb fc u now answer sid m) \<and>
   (db_ok (vdb m) \<longrightarrow> db_ok (vdb (finish_summary from_str fa fb fc u now answer sid m)))"
proof (cases "case answer of Inl e \<Rightarrow> Done (Inl e) | Inr t \<Rightarrow> extract_summary from_str t")
  case Panicked
  then show ?thesis by (simp add: finish_summary_def same_life_def)
next
  case (Done r)
  show ?thesis
  proof (cases r)
    case (Inl e)
    then show ?thesis using Done by (simp add: finish_summary_def same_life_def)
  next
    case (Inr x)
    obtain s a d where x: "x = (s, a, d)" by (cases x)
    define u1 where "u1 = update_ai_output fa now sid s a d (vdb m)"
    define n where "n = upsert_notes fb u now sid None (fst u1)"
    define u2 where "u2 = update_ai_output fc now sid s a d (fst n)"
    have "vdb (finish_summary from_str fa fb fc u now answer sid m) =
        (case snd u1 of Inr _ \<Rightarrow> fst u1 | Inl _ \<Rightarrow> fst u2)"
      "active (finish_summary from_str fa fb fc u now answer sid m) = active m"
      "jobs (finish_summary from_str fa fb fc u now answer sid m) = jobs m"
      "ffmpegs (finish_summary from_str fa fb fc u now answer sid m) = ffmpegs m"
      "wavs (finish_summary from_str fa fb fc u now answer sid m) = wavs m"
      using Done Inr x
      by (simp_all add: finish_summary_def u1_def n_def u2_def split: prod.splits sum.splits)
    moreover have "sessions (fst u1) = sessions (vdb m)" "sessions (fst u2) = sessions (vdb m)"
      by (simp_all add: u1_def n_def u2_def)
    moreover have "db_ok (fst u1) \<and> db_ok (fst u2)" if "db_ok (vdb m)"
      using that by (auto simp: u1_def n_def u2_def intro!: wf_intros)
    ultimately show ?thesis by (auto simp: same_life_def split: sum.splits)
  qed
qed

lemma meeting_start_ok [wf_intros]:
  assumes "meeting_ok m" "uuid \<notin> used_ids m"
  shows "meeting_ok (fst (meeting_start spawn no_faults uuid now ttl m))"
proof -
  obtain db r where c: "create_session no_faults now uuid ttl ''meeting'' (vdb m) = (db, r)"
    by fastforce
  have "uuid \<notin> vs_id ` set (sessions (vdb m))" using assms(2) by (simp add: used_ids_def)
  then have r: "r = Inr ()" and db: "sessions db = sessions (vdb m) @
      [\<lparr>vs_id = uuid, title = ttl, session_type = ''meeting'', status = ''recording'',
        started_at = now, ended_at = None, duration_sec = None, vs_created_at = now\<rparr>]"
    using c by (auto simp: create_session_def)
  have "db_ok db"
    using create_session_ok [of "vdb m" no_faults now uuid ttl "''meeting''"] c assms(1)
    by (simp add: meeting_ok_def)
  with r db c assms show ?thesis
    by (auto simp: meeting_start_def meeting_ok_def session_life_def used_ids_def Let_def
        split: sum.splits)
qed

lemma meeting_stop_ok [wf_intros]:
  assumes "meeting_ok m" shows "meeting_ok (fst (meeting_stop no_faults now elapsed m))"
proof (cases "active m")
  case None
  then show ?thesis using assms by (simp add: meeting_stop_def)
next
  case (Some sid)
  let ?g = "\<lambda>s. s\<lparr>status := ''processing'', ended_at := Some now, duration_sec := Some elapsed\<rparr>"
  have "db_ok (update_session sid ?g (vdb m))"
    by (rule update_session_ok) (use assms in \<open>simp_all add: meeting_ok_def\<close>)
  moreover have "session_life m s" if "s \<in> set (sessions (vdb m))" for s
    using assms that by (simp add: meeting_ok_def)
  ultimately show ?thesis
    using assms Some
    by (auto simp: meeting_stop_def meeting_ok_def session_life_def finish_session_def Let_def)
qed

lemma meeting_delete_ok [wf_intros]:
  assumes "meeting_ok m" shows "meeting_ok (fst (meeting_delete no_faults True sid m))"
proof (cases "active m = Some sid")
  case True
  then show ?thesis using assms by (simp add: meeting_delete_def)
next
  case False
  obtain db r where d: "delete_session no_faults sid (vdb m) = (db, r)" by fastforce
  have "db_ok db" using delete_session_ok [of "vdb m" no_faults sid] d assms
    by (simp add: meeting_ok_def)
  moreover have "r = Inr ()" "sessions db = filter (\<lambda>s. vs_id s \<noteq> sid) (sessions (vdb m))"
    using d by (auto simp: delete_session_def)
  ultimately show ?thesis
    using assms False d by (auto simp: meeting_delete_def meeting_ok_def session_life_def)
qed

lemma transcribe_job_eq:
  "transcribe_meeting_audio env no_faults True sid m =
     (let (m1, r) = run_transcription env sid m in
      m1\<lparr>wavs := wavs m1 - {sid},
         vdb := update_session sid
           (\<lambda>s. s\<lparr>status := (if is_ok r then ''complete'' else ''error'')\<rparr>) (vdb m1),
         meeting_events := meeting_events m1 @
           [case r of Inr _ \<Rightarrow> TranscriptionComplete sid | Inl e \<Rightarrow> TranscriptionError sid e]\<rparr>)"
  by (simp add: transcribe_meeting_audio_def complete_session_def update_session_status_def Let_def
      split: prod.splits sum.splits)

lemma meeting_job_ok [wf_intros]:
  assumes "meeting_ok m" "sid \<in> set (jobs m)"
  shows "meeting_ok (transcribe_meeting_audio env no_faults True sid (m\<lparr>jobs := remove1 sid (jobs m)\<rparr>))"
proof -
  let ?m = "m\<lparr>jobs := remove1 sid (jobs m)\<rparr>"
  obtain m1 r where run: "run_transcription env sid ?m = (m1, r)" by fastforce
  note same = run_transcription_same [OF run]
  let ?st = "if is_ok r then ''complete'' else ''error''"
  let ?g = "\<lambda>s. s\<lparr>status := ?st\<rparr>"
  have "db_ok (vdb m1)" using same assms(1) by (simp add: meeting_ok_def)
  then have db: "db_ok (update_session sid ?g (vdb m1))" by (intro update_session_ok) simp_all
  have st: "?st \<in> {''complete'', ''error''}" by simp
  define m' where "m' = transcribe_meeting_audio env no_faults True sid ?m"
  have m': "vdb m' = update_session sid ?g (vdb m1)" "active m' = active m"
    "jobs m' = remove1 sid (jobs m)" "ffmpegs m' = ffmpegs m" "wavs m' = wavs m - {sid}"
    using run same by (simp_all add: m'_def transcribe_job_eq same_life_def)
  have sess: "sessions (vdb m') = map (\<lambda>s. if vs_id s = sid then ?g s else s) (sessions (vdb m))"
    using same m' by (simp add: same_life_def)
  have jobs: "set (jobs m') = set (jobs m) - {sid}" "distinct (jobs m')" "active m \<noteq> Some sid"
    using assms m' by (auto simp: meeting_ok_def)
  have "session_life m' s'" if s': "s' \<in> set (sessions (vdb m'))" for s'
  proof -
    from s' sess obtain s where s: "s \<in> set (sessions (vdb m))"
      "s' = (if vs_id s = sid then ?g s else s)" by auto
    with assms(1) have "session_life m s" by (simp add: meeting_ok_def)
    then show ?thesis
    proof (cases "vs_id s = sid")
      case False
      then have "s' = s" "vs_id s \<in> set (jobs m') \<longleftrightarrow> vs_id s \<in> set (jobs m)"
        using s(2) jobs(1) by simp_all
      then show ?thesis
        using \<open>session_life m s\<close> unfolding session_life_def by (simp only: m'(2))
    next
      case True
      then have "status s' = ?st" "vs_id s' = sid" using s(2) by simp_all
      then show ?thesis using st jobs m'(2) unfolding session_life_def by auto
    qed
  qed
  then have life: "\<forall>s \<in> set (sessions (vdb m')). session_life m' s" by blast
  have "map vs_id (sessions (vdb m')) = map vs_id (sessions (vdb m))"
    unfolding sess by (rule map_key_update) simp
  then have ids: "vs_id ` set (sessions (vdb m')) = vs_id ` set (sessions (vdb m))"
    by (metis list.set_map)
  have dbm: "db_ok (vdb m')" using db m'(1) by simp
  have "\<forall>i. active m' = Some i \<longrightarrow> i \<in> vs_id ` set (sessions (vdb m')) \<and> i \<notin> set (jobs m')"
    using assms(1) unfolding ids jobs(1) m'(2) meeting_ok_def by blast
  moreover have "wavs m' \<subseteq> set_option (active m') \<union> set (jobs m')"
    using assms(1) unfolding jobs(1) m'(2) m'(5) meeting_ok_def by blast
  moreover have "ffmpegs m' = set_option (active m')"
    using assms(1) m'(2,4) by (simp add: meeting_ok_def)
  ultimately have "meeting_ok m'"
    unfolding meeting_ok_def using dbm life jobs(2) by (intro conjI)
  then show ?thesis by (simp only: m'_def)
qed

lemma mstep_ok: "mstep m m' \<Longrightarrow> meeting_ok m \<Longrightarrow> meeting_ok m'"
proof (induction rule: mstep.induct)
  case (Notes m f uuid now sid n)
  then show ?case using save_notes_same same_life_ok by (meson meeting_ok_def)
next
  case (Summary m from_str fa fb fc uuid now answer sid)
  then show ?case using finish_summary_same same_life_ok by (meson meeting_ok_def)
qed (auto intro: wf_intros)

lemma meeting_init_ok: "meeting_ok meeting_init"
  using empty_db_ok by (simp add: meeting_ok_def meeting_init_def) (simp add: empty_db_def)

lemma mreach_ok: "mreach m \<Longrightarrow> meeting_ok m"
  by (induction rule: mreach.induct) (rule meeting_init_ok, rule mstep_ok)

section \<open>Properties\<close>



subsection \<open>The stored transcript\<close>

definition chunk_text :: "(real list \<Rightarrow> whisper_run) \<Rightarrow> real list \<Rightarrow> string option" where
  "chunk_text eng c =
     (case transcribe (eng c) c of
        Inl _ \<Rightarrow> None | Inr t \<Rightarrow> if trim t = [] then None else Some (trim t))"

text \<open>The transcript of a recording: for each window of 30 seconds with text, the text and the
  window's first and last millisecond.\<close>

definition transcript :: "(real list \<Rightarrow> whisper_run) \<Rightarrow> real list \<Rightarrow> (string \<times> int \<times> int) list" where
  "transcript eng samples =
     List.map_filter (\<lambda>k. map_option
         (\<lambda>t. (t, int (k * 30000), int (min (Suc k * 480000) (length samples) div 16)))
         (chunk_text eng (take 480000 (drop (k * 480000) samples))))
       [0..<(length samples + 479999) div 480000]"

lemma sample_ms_eq: "sample_ms n = int (n div 16)"
proof -
  have "sample_ms n = \<lfloor>real n / real 16\<rfloor>" by (simp add: sample_ms_def)
  then show ?thesis by (simp only: floor_divide_of_nat_eq)
qed

definition segment_of :: "transcript_segment \<Rightarrow> string \<times> int \<times> int" where
  "segment_of s = (ts_text s, start_ms s, end_ms s)"

lemma transcribe_chunks_segments:
  assumes "sid \<in> vs_id ` set (sessions (vdb m))" "job_fault env = (\<lambda>_. no_faults)"
    and "inj (job_uuid env)" "\<forall>j \<ge> k. job_uuid env j \<notin> ts_id ` set (segment_rows (vdb m))"
  shows "\<exists>new. segment_rows (vdb (transcribe_chunks env eng sid k cs m)) = segment_rows (vdb m) @ new \<and>
    list_all (\<lambda>s. ts_session s = sid) new \<and>
    map segment_of new = List.map_filter (\<lambda>(j, c). map_option
        (\<lambda>t. (t, sample_ms (j * chunk_samples), sample_ms (j * chunk_samples + length c)))
        (chunk_text eng c)) (zip [k..<k + length cs] cs)"
  using assms(1,4)
proof (induction cs arbitrary: k m)
  case Nil
  then show ?case by simp
next
  case (Cons c cs)
  let ?m = "transcribe_chunk env eng sid k c m"
  let ?s = "\<lambda>t. \<lparr>ts_id = job_uuid env k, ts_session = sid, ts_text = t,
      start_ms = sample_ms (k * chunk_samples), end_ms = sample_ms (k * chunk_samples + length c),
      ts_created_at = job_now env k\<rparr>"
  define here where "here = (case chunk_text eng c of None \<Rightarrow> [] | Some t \<Rightarrow> [?s t])"
  have segs: "segment_rows (vdb ?m) = segment_rows (vdb m) @ here"
    using Cons.prems assms(2)
    by (auto simp: transcribe_chunk_def insert_segment_def here_def chunk_text_def Let_def
        split: sum.splits)
  have sess: "sessions (vdb ?m) = sessions (vdb m)"
    using transcribe_chunk_same [of m env eng sid k c] by (simp add: same_life_def)
  have "\<forall>j \<ge> Suc k. job_uuid env j \<notin> ts_id ` set (segment_rows (vdb m))"
    using Cons.prems(2) Suc_leD by blast
  then have "\<forall>j \<ge> Suc k. job_uuid env j \<notin> ts_id ` set (segment_rows (vdb ?m))"
    using assms(3) by (auto simp: segs here_def inj_eq split: option.splits)
  with Cons.IH [of ?m "Suc k"] Cons.prems(1) sess obtain new where
    n: "segment_rows (vdb (transcribe_chunks env eng sid (Suc k) cs ?m)) = segment_rows (vdb ?m) @ new"
      "list_all (\<lambda>s. ts_session s = sid) new"
      "map segment_of new = List.map_filter (\<lambda>(j, c). map_option
        (\<lambda>t. (t, sample_ms (j * chunk_samples), sample_ms (j * chunk_samples + length c)))
        (chunk_text eng c)) (zip [Suc k..<Suc k + length cs] cs)"
    by auto
  have up: "[k..<k + length (c # cs)] = k # [Suc k..<Suc k + length cs]"
    by (simp add: upt_conv_Cons del: upt_Suc)
  have seg: "segment_of (?s t) = (t, sample_ms (k * chunk_samples),
      sample_ms (k * chunk_samples + length c))" for t
    by (simp add: segment_of_def)
  show ?case
    using n segs unfolding up
    by (intro exI [of _ "here @ new"])
       (auto simp: here_def seg List.map_filter_simps simp del: upt_Suc split: option.splits)
qed

lemma map_filter_cong':
  "(\<And>x. x \<in> set xs \<Longrightarrow> f x = g x) \<Longrightarrow> List.map_filter f xs = List.map_filter g xs"
proof (induction xs)
  case (Cons a xs)
  from Cons.prems have "f a = g a" "\<And>x. x \<in> set xs \<Longrightarrow> f x = g x" by simp_all
  with Cons.IH show ?case by (simp add: List.map_filter_simps split: option.split)
qed (simp add: List.map_filter_simps)

lemma zip_same_upt: "zip [0..<n] [0..<n] = map (\<lambda>k. (k, k)) [0..<n]"
  by (simp add: zip_same_conv_map)

lemma transcript_eq_chunks:
  "List.map_filter (\<lambda>(j, c). map_option
      (\<lambda>t. (t, sample_ms (j * chunk_samples), sample_ms (j * chunk_samples + length c)))
      (chunk_text eng c)) (zip [0..<length (chunks_of chunk_samples xs)] (chunks_of chunk_samples xs))
   = transcript eng xs"
proof -
  let ?n = "(length xs + 479999) div 480000"
  have ch: "chunks_of 480000 xs = map (\<lambda>k. take 480000 (drop (k * 480000) xs)) [0..<?n]"
    using chunks_of_eq_map [of 480000 xs] by (simp add: add.commute)
  have t: "sample_ms (k * 480000) = int (k * 30000)"
    "sample_ms (k * 480000 + length (take 480000 (drop (k * 480000) xs))) =
       int (min (Suc k * 480000) (length xs) div 16)" if "k < ?n" for k
  proof -
    have "k * 480000 = (k * 30000) * 16" by simp
    then show "sample_ms (k * 480000) = int (k * 30000)" by (simp only: sample_ms_eq div_mult_self_is_m)
    have "k * 480000 < length xs" using that by (simp add: less_eq_div_iff_mult_less_eq Suc_le_eq [symmetric])
    then have "k * 480000 + length (take 480000 (drop (k * 480000) xs)) = min (Suc k * 480000) (length xs)"
      by (simp add: min_def) linarith
    then show "sample_ms (k * 480000 + length (take 480000 (drop (k * 480000) xs))) =
       int (min (Suc k * 480000) (length xs) div 16)" by (simp only: sample_ms_eq)
  qed
  have z: "zip [0..<length (map (\<lambda>k. take 480000 (drop (k * 480000) xs)) [0..<?n])]
      (map (\<lambda>k. take 480000 (drop (k * 480000) xs)) [0..<?n]) =
      map (\<lambda>k. (k, take 480000 (drop (k * 480000) xs))) [0..<?n]"
    by (simp add: zip_map2 zip_same_upt)
  have mf: "List.map_filter f (map g ks) = List.map_filter (f \<circ> g) ks" for f g and ks :: "nat list"
    by (induction ks) (auto simp: List.map_filter_simps split: option.splits)
  show ?thesis
    unfolding chunk_samples_def ch z mf transcript_def
    by (rule map_filter_cong') (simp only: comp_def prod.case set_upt atLeastLessThan_iff t)
qed

lemma transcript_sorted: "sorted (map (\<lambda>x. fst (snd x)) (transcript eng xs))"
proof -
  have *: "sorted (map (\<lambda>x. fst (snd x)) (List.map_filter (\<lambda>k. map_option
      (\<lambda>t. (t, int (k * 30000), e k)) (g k)) ks))" if "sorted ks" for e :: "nat \<Rightarrow> int" and g ks
    using that
    by (induction ks)
       (auto simp: List.map_filter_simps filter_map_conv split: option.splits)
  show ?thesis unfolding transcript_def by (rule *) simp
qed

text \<open>The stored transcript of a meeting: when the audio decodes and a model is loaded, the thread
  leaves in the database, in time order, exactly the texts Whisper gave for the consecutive
  windows of 30 seconds (empty ones and failed windows left out) with the windows' times, which
  tile the recording; the session is complete and its WAV is gone.\<close>

theorem meeting_transcript_stored:
  assumes "sid \<in> vs_id ` set (sessions (vdb m))" "sid \<notin> ts_session ` set (segment_rows (vdb m))"
    and "decode env = Inr bytes" "engine env = Some eng" "job_fault env = (\<lambda>_. no_faults)"
    and "inj (job_uuid env)" "range (job_uuid env) \<inter> ts_id ` set (segment_rows (vdb m)) = {}"
  shows "\<exists>segs. get_segments no_faults sid (vdb (transcribe_meeting_audio env no_faults True sid m)) = Inr segs \<and>
      map segment_of segs = transcript eng (map (f32_from_le env) (chunks_exact4 bytes)) \<and>
      sid \<notin> wavs (transcribe_meeting_audio env no_faults True sid m) \<and>
      list_all (\<lambda>s. vs_id s = sid \<longrightarrow> status s = ''complete'')
        (sessions (vdb (transcribe_meeting_audio env no_faults True sid m)))"
proof -
  let ?x = "map (f32_from_le env) (chunks_exact4 bytes)"
  let ?m = "if ?x = [] then m else transcribe_chunks env eng sid 0 (chunks_of chunk_samples ?x) m"
  have run: "run_transcription env sid m = (?m, Inr ())"
    using assms(3,4) by (simp add: run_transcription_def Let_def)
  have "\<exists>new. segment_rows (vdb ?m) = segment_rows (vdb m) @ new \<and>
      list_all (\<lambda>s. ts_session s = sid) new \<and> map segment_of new = transcript eng ?x"
  proof (cases "?x = []")
    case True
    then show ?thesis by (simp add: transcript_def List.map_filter_simps)
  next
    case False
    have "\<forall>j \<ge> 0. job_uuid env j \<notin> ts_id ` set (segment_rows (vdb m))" using assms(7) by blast
    from transcribe_chunks_segments [OF assms(1,5,6) this, of eng "chunks_of chunk_samples ?x"]
    show ?thesis using False transcript_eq_chunks [of eng ?x] by simp
  qed
  then obtain new where new: "segment_rows (vdb ?m) = segment_rows (vdb m) @ new"
    "list_all (\<lambda>s. ts_session s = sid) new" "map segment_of new = transcript eng ?x" by blast
  have "filter (\<lambda>s. ts_session s = sid) (segment_rows (vdb ?m)) = new"
    using new(1,2) assms(2) by (auto simp: filter_empty_conv filter_id_conv list_all_iff)
  moreover have "sorted (map start_ms new)"
  proof -
    have "map start_ms new = map (\<lambda>x. fst (snd x)) (map segment_of new)"
      by (simp add: segment_of_def)
    then show ?thesis using transcript_sorted new(3) by metis
  qed
  moreover have marked: "list_all (\<lambda>s. vs_id s = sid \<longrightarrow> status s = ''complete'')
      (map (\<lambda>s. if vs_id s = sid then s\<lparr>status := ''complete''\<rparr> else s) xs)" for xs
    by (induction xs) auto
  moreover obtain fin where fin: "?m = fin" by blast
  ultimately show ?thesis
    unfolding transcribe_job_eq run fin using new(3)
    by (simp add: get_segments_def sort_key_id_if_sorted)
qed

definition demo_env :: job_env where
  "demo_env = \<lparr>decode = Inr [1, 2, 3, 4], f32_from_le = \<lambda>_. 0,
     engine = Some (\<lambda>_. \<lparr>create_state = Inr (), full = Inr (), segments = Inr []\<rparr>),
     job_uuid = \<lambda>n. replicate n (CHR ''u''), job_now = \<lambda>_. 0, job_fault = \<lambda>_. no_faults\<rparr>"

theorem meeting_transcript_stored_witness:
  "''m'' \<notin> wavs (transcribe_meeting_audio demo_env no_faults True ''m''
     (fst (meeting_start (Inr ()) no_faults ''m'' 0 ''t'' meeting_init)))"
proof -
  have "inj (job_uuid demo_env)" by (rule injI) (metis demo_env_def job_env.select_convs(4) length_replicate)
  then have "\<exists>segs. get_segments no_faults ''m'' (vdb (transcribe_meeting_audio demo_env no_faults True ''m''
        (fst (meeting_start (Inr ()) no_faults ''m'' 0 ''t'' meeting_init)))) = Inr segs \<and>
      map segment_of segs = transcript (\<lambda>_. \<lparr>create_state = Inr (), full = Inr (), segments = Inr []\<rparr>)
        (map (f32_from_le demo_env) (chunks_exact4 [1, 2, 3, 4])) \<and>
      ''m'' \<notin> wavs (transcribe_meeting_audio demo_env no_faults True ''m''
        (fst (meeting_start (Inr ()) no_faults ''m'' 0 ''t'' meeting_init))) \<and>
      list_all (\<lambda>s. vs_id s = ''m'' \<longrightarrow> status s = ''complete'')
        (sessions (vdb (transcribe_meeting_audio demo_env no_faults True ''m''
          (fst (meeting_start (Inr ()) no_faults ''m'' 0 ''t'' meeting_init)))))"
    by (intro meeting_transcript_stored)
       (simp_all add: demo_env_def meeting_start_def meeting_init_def empty_db_def create_session_def)
  then show ?thesis by blast
qed

subsection \<open>Summaries\<close>

lemma extract_fenced:
  assumes "CHR ''{'' \<notin> set u" "CHR ''}'' \<notin> set v" "json = CHR ''{'' # body @ [CHR ''}'']"
  shows "extract_summary from_str (u @ json @ v) =
    Done (case from_str json of
        Inl e \<Rightarrow> Inl (''failed to parse summary JSON: '' @ e @ [CHR 0x0A] @ ''raw: '' @ json)
      | Inr x \<Rightarrow> Inr x)"
proof -
  have f: "find_char (CHR ''{'') (u @ json @ v) = Some (length u)"
    using find_char_append [OF assms(1), of "body @ CHR ''}'' # v"] by (simp add: assms(3))
  have r: "rfind_char (CHR ''}'') (u @ json @ v) = Some (length (u @ CHR ''{'' # body))"
    using rfind_char_append [OF assms(2), of "u @ CHR ''{'' # body"] by (simp add: assms(3))
  have "take (length (u @ CHR ''{'' # body) + 1 - length u) (drop (length u) (u @ json @ v)) = json"
    by (simp add: assms(3))
  then show ?thesis
    using f r by (simp add: extract_summary_def Let_def split: sum.splits)
qed

text \<open>Whether a summary is kept: when the model's answer holds the JSON object, also between
  other text such as a code fence, and the database works, the task reports the summary as ready;
  but it is stored only if the session already has a notes row, and then without touching the
  user's notes. Without one nothing is written, because \<open>update_ai_output\<close> reports no row as
  success and the branch that would create the row is never taken.\<close>

theorem summary_needs_a_notes_row:
  assumes "CHR ''{'' \<notin> set u" "CHR ''}'' \<notin> set v"
    and "from_str (CHR ''{'' # body @ [CHR ''}'']) = Inr (s, a, d)"
  shows "let m' = finish_summary from_str no_faults fb fc uuid now
        (Inr (u @ (CHR ''{'' # body @ [CHR ''}'']) @ v)) sid m
    in meeting_events m' = meeting_events m @ [SummaryReady sid s a d] \<and>
       (case get_notes no_faults sid (vdb m) of
          Inr (Some n) \<Rightarrow> get_notes no_faults sid (vdb m') =
            Inr (Some (n\<lparr>ai_summary := Some s, ai_action_items := Some a, ai_decisions := Some d,
              sn_updated_at := now\<rparr>))
        | _ \<Rightarrow> vdb m' = vdb m)"
proof -
  have e: "extract_summary from_str (u @ (CHR ''{'' # body @ [CHR ''}'']) @ v) = Done (Inr (s, a, d))"
    using extract_fenced [OF assms(1,2) refl, of from_str body] assms(3) by simp
  let ?g = "\<lambda>n. n\<lparr>ai_summary := Some s, ai_action_items := Some a, ai_decisions := Some d,
      sn_updated_at := now\<rparr>"
  have find: "List.find (\<lambda>n. sn_session n = sid) (map (\<lambda>n. if sn_session n = sid then ?g n else n) xs) =
      map_option ?g (List.find (\<lambda>n. sn_session n = sid) xs)" for xs
    by (induction xs) auto
  have none: "map (\<lambda>n. if sn_session n = sid then ?g n else n) xs = xs"
    if "List.find (\<lambda>n. sn_session n = sid) xs = None" for xs
    using that by (induction xs) (auto split: if_splits)
  show ?thesis
  proof (cases "List.find (\<lambda>n. sn_session n = sid) (note_rows (vdb m))")
    case None
    then have "map (\<lambda>n. if sn_session n = sid then ?g n else n) (note_rows (vdb m)) = note_rows (vdb m)"
      by (rule none)
    then have "update_notes sid ?g (vdb m) = vdb m" by (simp only: update_notes_def) simp
    then show ?thesis
      using e None by (simp add: finish_summary_def update_ai_output_def get_notes_def Let_def)
  next
    case (Some n)
    then show ?thesis
      using e by (simp add: finish_summary_def update_ai_output_def get_notes_def Let_def find)
  qed
qed

theorem summary_needs_a_notes_row_witness:
  "vdb (finish_summary (\<lambda>_. Inr (''s'', [], [])) no_faults no_faults no_faults ''n'' 1
     (Inr ''{}'') ''m'' meeting_init) = empty_db"
  using summary_needs_a_notes_row [of "[]" "[]" "\<lambda>_. Inr (''s'', [], [])" "[]" "''s''" "[]" "[]"
      no_faults no_faults "''n''" 1 "''m''" meeting_init]
  by (simp add: Let_def meeting_init_def empty_db_def get_notes_def)

text \<open>An answer in which the last closing brace comes before the first opening one, with something
  between them, ends the task with a panic: no event reaches the frontend, which goes on waiting.\<close>

theorem summary_panics_on_reversed_braces:
  assumes "CHR ''{'' \<notin> set u" "CHR ''{'' \<notin> set w" "CHR ''}'' \<notin> set w" "CHR ''}'' \<notin> set v"
    and "w \<noteq> []"
  shows "extract_summary from_str (u @ [CHR ''}''] @ w @ [CHR ''{''] @ v) = Panicked \<and>
    finish_summary from_str fa fb fc uuid now (Inr (u @ [CHR ''}''] @ w @ [CHR ''{''] @ v)) sid m = m"
proof -
  have f: "find_char (CHR ''{'') (u @ [CHR ''}''] @ w @ [CHR ''{''] @ v) = Some (length (u @ CHR ''}'' # w))"
    using find_char_append [of "CHR ''{''" "u @ CHR ''}'' # w" v] assms by simp
  have r: "rfind_char (CHR ''}'') (u @ [CHR ''}''] @ w @ [CHR ''{''] @ v) = Some (length u)"
    using rfind_char_append [of "CHR ''}''" "w @ CHR ''{'' # v" u] assms by simp
  have "extract_summary from_str (u @ [CHR ''}''] @ w @ [CHR ''{''] @ v) = Panicked"
    using f r assms(5) by (cases w) (simp_all add: extract_summary_def)
  then show ?thesis by (simp add: finish_summary_def)
qed

theorem summary_panics_on_reversed_braces_witness:
  "extract_summary (\<lambda>_. Inl ''e'') ''} or {'' = Panicked"
  using summary_panics_on_reversed_braces [of "[]" "'' or ''" "[]" "\<lambda>_. Inl ''e''"] by simp

end
