(* ===== verification/Recorder.thy ===== *)
theory Recorder
  imports Rust_Prelude
begin

text \<open>
  Screen recording of \<open>src-tauri/src/recorder.rs\<close>: reading ffmpeg's device list and duration, the
  command lines, the single active recording, the path handed to the trim editor and the bounding
  box of the monitors.

  What ffmpeg prints and whether it can be started are arguments. \<open>u64\<close> values are 64-bit words:
  the sums in \<open>parse_duration_str\<close> wrap in a release build.
\<close>

section \<open>Devices\<close>

text \<open>Between the last opening bracket of a line and the next closing one: the index text, and what
  follows.\<close>

definition bracketed :: "string \<Rightarrow> (string \<times> string) option" where
  "bracketed line =
     (case rfind_char (CHR ''['') line of
        None \<Rightarrow> None
      | Some b \<Rightarrow>
          let rest = drop (b + 1) line in
          (case find_char (CHR '']'') rest of
             None \<Rightarrow> None
           | Some e \<Rightarrow> Some (take e rest, drop (e + 1) rest)))"

text \<open>\<open>MicDevice\<close> as a pair of index and name.\<close>

fun parse_audio_lines :: "bool \<Rightarrow> string list \<Rightarrow> (nat \<times> string) list" where
  "parse_audio_lines in_audio [] = []"
| "parse_audio_lines in_audio (line # ls) =
     (if str_contains line ''AVFoundation audio devices'' then parse_audio_lines True ls
      else if \<not> in_audio then parse_audio_lines in_audio ls
      else
        (case bracketed line of
           None \<Rightarrow> parse_audio_lines in_audio ls
         | Some (idx_str, rest) \<Rightarrow>
             (case parse_uint 32 idx_str of
                None \<Rightarrow> parse_audio_lines in_audio ls
              | Some index \<Rightarrow>
                  let name = trim rest in
                  if name = [] then parse_audio_lines in_audio ls
                  else (index, name) # parse_audio_lines in_audio ls)))"

definition parse_audio_devices :: "string \<Rightarrow> (nat \<times> string) list" where
  "parse_audio_devices output = parse_audio_lines False (str_lines output)"

fun find_screen_line :: "bool \<Rightarrow> string list \<Rightarrow> string" where
  "find_screen_line in_video [] = ''1''"
| "find_screen_line in_video (line # ls) =
     (if str_contains line ''AVFoundation video devices'' then find_screen_line True ls
      else if in_video \<and> str_contains line ''AVFoundation audio devices'' then ''1''
      else if in_video \<and> str_contains (to_lowercase line) ''capture screen'' then
        (case bracketed line of
           None \<Rightarrow> find_screen_line in_video ls
         | Some (idx_str, _) \<Rightarrow>
             if parse_uint 32 idx_str \<noteq> None then idx_str else find_screen_line in_video ls)
      else find_screen_line in_video ls)"

definition find_screen_device_index :: "string \<Rightarrow> string" where
  "find_screen_device_index output = find_screen_line False (str_lines output)"

definition recording_list_mics :: "string res \<Rightarrow> (nat \<times> string) list res" where
  "recording_list_mics listing =
     (case listing of Inl e \<Rightarrow> Inl (''ffmpeg not found: '' @ e) | Inr out \<Rightarrow> Inr (parse_audio_devices out))"

section \<open>Durations\<close>

definition parse_duration_str :: "string \<Rightarrow> 64 word res" where
  "parse_duration_str s =
     (let parts = split_on (CHR '':'') s in
      if length parts \<noteq> 3 then Inl (''unexpected duration format: '' @ s)
      else
        (case parse_uint 64 (parts ! 0) of None \<Rightarrow> Inl (''parse hours: '' @ parts ! 0) | Some h \<Rightarrow>
         (case parse_uint 64 (parts ! 1) of None \<Rightarrow> Inl (''parse minutes: '' @ parts ! 1) | Some m \<Rightarrow>
          let sec_frac = split_on (CHR ''.'') (parts ! 2) in
          (case parse_uint 64 (sec_frac ! 0) of
             None \<Rightarrow> Inl (''parse seconds: '' @ sec_frac ! 0)
           | Some sec \<Rightarrow>
               let ms = (if length sec_frac > 1
                         then (let frac = sec_frac ! 1;
                                   v = (of_nat (case parse_uint 64 frac of None \<Rightarrow> 0 | Some v \<Rightarrow> v) :: 64 word)
                               in if length frac = 1 then v * 100
                                  else if length frac = 2 then v * 10
                                  else v)
                         else 0)
               in Inr (of_nat h * 3600000 + of_nat m * 60000 + of_nat sec * 1000 + ms)))))"

function trim_start_matches :: "string \<Rightarrow> string \<Rightarrow> string" where
  "trim_start_matches p s =
     (if p \<noteq> [] \<and> prefix p s then trim_start_matches p (drop (length p) s) else s)"
  by auto
termination
  by (relation "measure (\<lambda>(p, s). length s)") (auto simp: prefix_def)

declare trim_start_matches.simps [simp del]

fun duration_in_lines :: "string list \<Rightarrow> 64 word res" where
  "duration_in_lines [] = Inl ''Duration not found in ffmpeg output''"
| "duration_in_lines (line # ls) =
     (let trimmed = trim line in
      if starts_with trimmed ''Duration:''
      then parse_duration_str
        (trim (hd (split_on (CHR '','') (trim (trim_start_matches ''Duration:'' trimmed)))))
      else duration_in_lines ls)"

definition parse_duration_from_output :: "string \<Rightarrow> 64 word res" where
  "parse_duration_from_output output = duration_in_lines (str_lines output)"

definition recording_get_duration :: "string res \<Rightarrow> 64 word res" where
  "recording_get_duration probe =
     (case probe of Inl e \<Rightarrow> Inl (''ffmpeg error: '' @ e) | Inr out \<Rightarrow> parse_duration_from_output out)"

section \<open>Command lines\<close>

record rect =
  rect_x :: int
  rect_y :: int
  rect_width :: nat
  rect_height :: nat

definition record_args :: "string \<Rightarrow> string \<Rightarrow> rect option \<Rightarrow> nat option \<Rightarrow> string list" where
  "record_args screen_idx raw_path region mic =
     [''-f'', ''avfoundation'', ''-capture_cursor'', ''1'', ''-capture_mouse_clicks'', ''1'',
      ''-framerate'', ''30''] @
     [''-i'', (case mic of Some i \<Rightarrow> screen_idx @ '':'' @ show_nat i | None \<Rightarrow> screen_idx)] @
     [''-vcodec'', ''libx264'', ''-preset'', ''ultrafast'', ''-pix_fmt'', ''yuv420p''] @
     (case region of
        None \<Rightarrow> []
      | Some r \<Rightarrow> [''-vf'', ''crop='' @ show_nat (rect_width r) @ '':'' @ show_nat (rect_height r) @
          '':'' @ show_int (rect_x r) @ '':'' @ show_int (rect_y r)]) @
     (if mic \<noteq> None then [''-acodec'', ''aac'', ''-b:a'', ''128k''] else []) @
     [raw_path]"

text \<open>\<open>{:.3}\<close> of a number of milliseconds divided by 1000, exact for the range of recordings.\<close>

definition show_seconds :: "nat \<Rightarrow> string" where
  "show_seconds ms =
     show_nat (ms div 1000) @ ''.'' @
     [digit_char (ms mod 1000 div 100), digit_char (ms mod 100 div 10), digit_char (ms mod 10)]"

definition export_args :: "string \<Rightarrow> string \<Rightarrow> nat \<Rightarrow> nat \<Rightarrow> string list" where
  "export_args input output start_ms end_ms =
     [''-ss'', show_seconds start_ms, ''-i'', input, ''-t'', show_seconds (end_ms - start_ms),
      ''-c'', ''copy'', ''-y'', output]"

text \<open>\<open>run\<close> is the exit of ffmpeg: an error to start it, or whether it succeeded and its status text.\<close>

definition recording_export :: "(bool \<times> string) res \<Rightarrow> unit res" where
  "recording_export run =
     (case run of
        Inl e \<Rightarrow> Inl (''ffmpeg export error: '' @ e)
      | Inr (success, st) \<Rightarrow> if \<not> success then Inl (''ffmpeg export failed: '' @ st) else Inr ())"

definition recording_extract_thumbnail :: "(8 word list \<Rightarrow> string) \<Rightarrow> 8 word list res \<Rightarrow> string res" where
  "recording_extract_thumbnail base64 run =
     (case run of
        Inl e \<Rightarrow> Inl (''ffmpeg thumbnail error: '' @ e)
      | Inr png \<Rightarrow> if png = [] then Inl ''empty thumbnail output from ffmpeg'' else Inr (base64 png))"

section \<open>The active recording\<close>

text \<open>The slot, the ffmpeg processes that run (by session id), the files they have finalised, and the
  path for the trim editor.\<close>

record recorder_app =
  active_rec :: "(string \<times> string) option"
  running :: "string set"
  finalized :: "string list"
  pending_trim :: "string option"

definition recorder_init :: recorder_app where
  "recorder_init = \<lparr>active_rec = None, running = {}, finalized = [], pending_trim = None\<rparr>"

text \<open>\<open>q\<close> on the standard input and \<open>wait\<close>.\<close>

definition quit_ffmpeg :: "string \<times> string \<Rightarrow> recorder_app \<Rightarrow> recorder_app" where
  "quit_ffmpeg s a = a\<lparr>running := running a - {fst s}, finalized := finalized a @ [snd s]\<rparr>"

definition raw_path_of :: "string \<Rightarrow> string \<Rightarrow> string" where
  "raw_path_of temp_dir sid = temp_dir @ ''/workwithme-rec-'' @ sid @ ''.mp4''"

definition recording_start ::
  "string \<Rightarrow> string res \<Rightarrow> unit res \<Rightarrow> string \<Rightarrow> rect option \<Rightarrow> nat option \<Rightarrow> recorder_app
     \<Rightarrow> recorder_app \<times> string list \<times> string res" where
  "recording_start temp_dir listing spawn sid region mic a =
     (case listing of
        Inl e \<Rightarrow> (a, [], Inl (''ffmpeg error listing devices: '' @ e))
      | Inr out \<Rightarrow>
          let screen_idx = find_screen_device_index out;
              raw_path = raw_path_of temp_dir sid;
              args = record_args screen_idx raw_path region mic
          in case spawn of
               Inl e \<Rightarrow> (a, args, Inl (''spawn ffmpeg: '' @ e))
             | Inr _ \<Rightarrow>
                 let a1 = a\<lparr>running := insert sid (running a)\<rparr>;
                     a2 = (case active_rec a1 of
                             None \<Rightarrow> a1 | Some s \<Rightarrow> quit_ffmpeg s (a1\<lparr>active_rec := None\<rparr>))
                 in (a2\<lparr>active_rec := Some (sid, raw_path)\<rparr>, args, Inr sid))"

definition recording_stop :: "string \<Rightarrow> recorder_app \<Rightarrow> recorder_app \<times> string res" where
  "recording_stop sid a =
     (case active_rec a of
        None \<Rightarrow> (a, Inl ''no active recording'')
      | Some s \<Rightarrow>
          if fst s \<noteq> sid then (a, Inl (''session_id mismatch: active='' @ fst s))
          else (quit_ffmpeg s (a\<lparr>active_rec := None\<rparr>), Inr (snd s)))"

definition recording_get_elapsed :: "nat \<Rightarrow> string \<Rightarrow> recorder_app \<Rightarrow> nat res" where
  "recording_get_elapsed elapsed_ms sid a =
     (case active_rec a of
        None \<Rightarrow> Inl ''no active recording''
      | Some s \<Rightarrow> if fst s \<noteq> sid then Inl ''session_id mismatch'' else Inr elapsed_ms)"

definition recording_get_current_session :: "recorder_app \<Rightarrow> string option res" where
  "recording_get_current_session a = Inr (map_option fst (active_rec a))"

definition open_trim_editor :: "string \<Rightarrow> recorder_app \<Rightarrow> recorder_app" where
  "open_trim_editor raw_path a = a\<lparr>pending_trim := Some raw_path\<rparr>"

definition recording_get_trim_path :: "recorder_app \<Rightarrow> recorder_app \<times> string option res" where
  "recording_get_trim_path a = (a\<lparr>pending_trim := None\<rparr>, Inr (pending_trim a))"

section \<open>Monitors\<close>

text \<open>Each accessor of a monitor may fail; \<open>logical\<close> is \<open>(pixels / scale) as i32\<close> for a positive
  scale.\<close>

record monitor =
  mon_x :: "int option"
  mon_y :: "int option"
  mon_width :: "nat option"
  mon_height :: "nat option"
  mon_scale :: "real option"

definition logical :: "nat option \<Rightarrow> real option \<Rightarrow> int option" where
  "logical px scale =
     (case (px, scale) of (Some p, Some s) \<Rightarrow> Some \<lfloor>real p / s\<rfloor> | _ \<Rightarrow> None)"

definition sum_opt :: "int option \<Rightarrow> int option \<Rightarrow> int option" where
  "sum_opt a b = (case (a, b) of (Some x, Some y) \<Rightarrow> Some (x + y) | _ \<Rightarrow> None)"

definition min_or :: "int \<Rightarrow> int list \<Rightarrow> int" where
  "min_or d xs = (if xs = [] then d else Min (set xs))"

definition max_or :: "int \<Rightarrow> int list \<Rightarrow> int" where
  "max_or d xs = (if xs = [] then d else Max (set xs))"

definition right_of :: "monitor \<Rightarrow> int option" where
  "right_of m = sum_opt (mon_x m) (logical (mon_width m) (mon_scale m))"

definition bottom_of :: "monitor \<Rightarrow> int option" where
  "bottom_of m = sum_opt (mon_y m) (logical (mon_height m) (mon_scale m))"

definition screen_bounds :: "monitor list \<Rightarrow> int \<times> int \<times> int \<times> int" where
  "screen_bounds ms =
     (if ms = [] then (0, 0, 1920, 1080)
      else (min_or 0 (List.map_filter mon_x ms), min_or 0 (List.map_filter mon_y ms),
            max_or 1920 (List.map_filter right_of ms), max_or 1080 (List.map_filter bottom_of ms)))"

section \<open>Properties\<close>

subsection \<open>Recordings\<close>

datatype rec_op =
    RStart string "string res" "unit res" string "rect option" "nat option"
  | RStop string
  | RTrim string
  | RTake

fun exec_rec :: "rec_op \<Rightarrow> recorder_app \<Rightarrow> recorder_app" where
  "exec_rec (RStart tmp listing spawn sid region mic) a = fst (recording_start tmp listing spawn sid region mic a)"
| "exec_rec (RStop sid) a = fst (recording_stop sid a)"
| "exec_rec (RTrim path) a = open_trim_editor path a"
| "exec_rec RTake a = fst (recording_get_trim_path a)"

text \<open>The recordings that a sequence of calls starts: id and file.\<close>

fun started :: "rec_op list \<Rightarrow> (string \<times> string) list" where
  "started [] = []"
| "started (RStart tmp listing spawn sid region mic # ops) =
     (if is_ok listing \<and> is_ok spawn then [(sid, raw_path_of tmp sid)] else []) @ started ops"
| "started (_ # ops) = started ops"

definition active_list :: "recorder_app \<Rightarrow> (string \<times> string) list" where
  "active_list a = (case active_rec a of None \<Rightarrow> [] | Some s \<Rightarrow> [s])"

lemma recordings_step:
  assumes "running a = fst ` set (active_list a)" "fst ` set (started [op]) \<inter> running a = {}"
  shows "running (exec_rec op a) = fst ` set (active_list (exec_rec op a)) \<and>
    finalized (exec_rec op a) @ map snd (active_list (exec_rec op a)) =
      finalized a @ map snd (active_list a) @ map snd (started [op]) \<and>
    running (exec_rec op a) \<subseteq> running a \<union> fst ` set (started [op])"
proof (cases op)
  case (RStart tmp listing spawn sid region mic)
  then show ?thesis using assms
    by (cases "active_rec a"; cases listing; cases spawn)
       (auto simp: recording_start_def quit_ffmpeg_def active_list_def Let_def)
next
  case (RStop sid)
  then show ?thesis using assms
    by (cases "active_rec a") (auto simp: recording_stop_def quit_ffmpeg_def active_list_def)
qed (use assms in \<open>auto simp: open_trim_editor_def recording_get_trim_path_def active_list_def\<close>)

lemma started_Cons: "started (op # ops) = started [op] @ started ops"
  by (cases op) auto

lemma recordings_run:
  assumes "running a = fst ` set (active_list a)" "fst ` set (started ops) \<inter> running a = {}"
    and "distinct (map fst (started ops))"
  shows "running (fold exec_rec ops a) = fst ` set (active_list (fold exec_rec ops a)) \<and>
    finalized (fold exec_rec ops a) @ map snd (active_list (fold exec_rec ops a)) =
      finalized a @ map snd (active_list a) @ map snd (started ops)"
  using assms
proof (induction ops arbitrary: a)
  case Nil
  then show ?case by simp
next
  case (Cons op ops)
  note st = started_Cons [of op ops]
  have one: "fst ` set (started [op]) \<inter> running a = {}"
    using Cons.prems(2) unfolding st by auto
  note step = recordings_step [OF Cons.prems(1) one]
  have "fst ` set (started [op]) \<inter> fst ` set (started ops) = {}"
    "fst ` set (started ops) \<inter> running a = {}"
    using Cons.prems(2,3) unfolding st by auto
  then have "fst ` set (started ops) \<inter> running (exec_rec op a) = {}"
    using step by blast
  moreover have "distinct (map fst (started ops))" using Cons.prems(3) unfolding st by simp
  ultimately show ?case
    using Cons.IH [of "exec_rec op a"] step by (simp add: st)
qed



subsection \<open>Reading ffmpeg\<close>

definition mic_line :: "string \<Rightarrow> nat \<times> string \<Rightarrow> string" where
  "mic_line p d = ''['' @ p @ ''] ['' @ show_nat (fst d) @ ''] '' @ snd d"

definition device_listing :: "string \<Rightarrow> string list \<Rightarrow> (nat \<times> string) list \<Rightarrow> string" where
  "device_listing p video mics =
     concat (map (\<lambda>l. l @ [CHR 0x0A]) (video @
       [''['' @ p @ ''] AVFoundation audio devices:''] @ map (mic_line p) mics))"

lemma show_nat_fresh: "\<not> is_digit c \<Longrightarrow> c \<notin> set (show_nat n)"
  using show_nat_digits by blast

lemma bracketed_split:
  assumes "CHR ''['' \<notin> set i" "CHR '']'' \<notin> set i" "CHR ''['' \<notin> set r"
  shows "bracketed (u @ CHR ''['' # i @ CHR '']'' # r) = Some (i, r)"
proof -
  have "rfind_char (CHR ''['') (u @ CHR ''['' # i @ CHR '']'' # r) = Some (length u)"
    by (rule rfind_char_append) (use assms in simp)
  moreover have "find_char (CHR '']'') (i @ CHR '']'' # r) = Some (length i)"
    by (rule find_char_append) (rule assms)
  ultimately show ?thesis by (simp add: bracketed_def)
qed

lemma bracketed_mic_line:
  assumes "CHR ''['' \<notin> set (snd d)"
  shows "bracketed (mic_line p d) = Some (show_nat (fst d), '' '' @ snd d)"
  using bracketed_split [of "show_nat (fst d)" "'' '' @ snd d" "''['' @ p @ ''] ''"] assms
  by (simp add: mic_line_def show_nat_fresh is_digit_def)

lemma parse_audio_mics:
  "\<forall>d \<in> set mics. fst d < 2 ^ 32 \<and> snd d \<noteq> [] \<and> trim (snd d) = snd d \<and> CHR ''['' \<notin> set (snd d) \<and>
     \<not> str_contains (mic_line p d) ''AVFoundation audio devices'' \<Longrightarrow>
   parse_audio_lines True (map (mic_line p) mics) = mics"
proof (induction mics)
  case (Cons d mics)
  then have "trim ('' '' @ snd d) = snd d"
    by (simp add: trim_def trim_start_def is_ws_def)
  moreover have "parse_uint 32 (show_nat (fst d)) = Some (fst d)"
    using Cons.prems by (intro parse_show_nat) simp
  ultimately show ?case using Cons by (simp add: bracketed_mic_line Let_def)
qed simp

lemma parse_audio_video:
  "\<forall>l \<in> set video. \<not> str_contains l ''AVFoundation audio devices'' \<Longrightarrow>
     parse_audio_lines False (video @ ls) = parse_audio_lines False ls"
  by (induction video) auto

text \<open>The microphones offered are the ones ffmpeg lists: for a listing with any video devices and
  the audio devices \<open>mics\<close>, each with an index of 32 bits and a trimmed name without an opening
  bracket, the result is exactly \<open>mics\<close>, in order; and a microphone whose name ends in a bracketed
  part is left out, because the index is looked for at the last opening bracket of the line.\<close>

theorem mics_as_listed:
  assumes "list_all (\<lambda>l. CHR 0x0A \<notin> set l \<and> \<not> str_contains (strip_cr l) ''AVFoundation audio devices'') video"
    and "list_all (\<lambda>d. fst d < 2 ^ 32 \<and> snd d \<noteq> [] \<and> trim (snd d) = snd d \<and> CHR ''['' \<notin> set (snd d) \<and>
      CHR 0x0A \<notin> set (snd d) \<and> \<not> str_contains (mic_line p d) ''AVFoundation audio devices'') mics"
    and "CHR 0x0A \<notin> set p" "CHR ''['' \<notin> set n" "CHR '']'' \<notin> set n"
  shows "recording_list_mics (Inr (device_listing p video mics)) = Inr mics \<and>
    parse_audio_lines True [mic_line p (i, nm @ '' ['' @ n @ '']'')] = []"
proof
  have head: "strip_cr (''['' @ p @ ''] AVFoundation audio devices:'') = ''['' @ p @ ''] AVFoundation audio devices:''"
    by (rule strip_cr_id) simp
  have mic: "strip_cr (mic_line p d) = mic_line p d \<and> CHR 0x0A \<notin> set (mic_line p d)" if "d \<in> set mics" for d
  proof -
    have d: "snd d \<noteq> []" "trim (snd d) = snd d" "CHR 0x0A \<notin> set (snd d)"
      using assms(2) that by (simp_all add: list_all_iff)
    then have "\<not> is_ws (last (snd d))" using trim_edges [of "snd d" "snd d"] by simp
    then have "last (mic_line p d) \<noteq> CHR 0x0D" using d(1) by (auto simp: mic_line_def is_ws_def)
    moreover have "CHR 0x0A \<notin> set (show_nat (fst d))"
      by (rule show_nat_fresh) (simp add: is_digit_def)
    ultimately show ?thesis using d(3) assms(3) by (auto simp: strip_cr_def mic_line_def)
  qed
  have "str_lines (device_listing p video mics) = map strip_cr video @
      [''['' @ p @ ''] AVFoundation audio devices:''] @ map (mic_line p) mics"
    unfolding device_listing_def
    by (subst str_lines_concat)
       (use assms(1,3) mic head in \<open>auto simp: list_all_iff\<close>)
  moreover have "str_contains (''['' @ p @ ''] AVFoundation audio devices:'') ''AVFoundation audio devices''"
    unfolding str_contains_iff by (rule exI [of _ "''['' @ p @ ''] ''"], rule exI [of _ "'':''"]) simp
  moreover have "parse_audio_lines False (map strip_cr video @ ls) = parse_audio_lines False ls" for ls
    by (rule parse_audio_video) (use assms(1) in \<open>auto simp: list_all_iff\<close>)
  moreover have "parse_audio_lines True (map (mic_line p) mics) = mics"
    by (rule parse_audio_mics) (use assms(2) in \<open>auto simp: list_all_iff\<close>)
  ultimately show "recording_list_mics (Inr (device_listing p video mics)) = Inr mics"
    by (simp add: recording_list_mics_def parse_audio_devices_def)
  have "bracketed (mic_line p (i, nm @ '' ['' @ n @ '']'')) = Some (n, [])"
    using bracketed_split [of n "[]" "''['' @ p @ ''] ['' @ show_nat i @ ''] '' @ nm @ '' ''"] assms(4,5)
    by (simp add: mic_line_def)
  then show "parse_audio_lines True [mic_line p (i, nm @ '' ['' @ n @ '']'')] = []"
    by (simp split: option.splits)
qed

theorem mics_as_listed_witness:
  "recording_list_mics (Inr (device_listing ''x'' [''[x] [0] Capture screen 0''] [(0, ''Built-in'')])) =
     Inr [(0, ''Built-in'')]"
proof -
  have sn: "show_nat 0 = ''0''" by code_simp
  show ?thesis
    by (rule mics_as_listed [where n = "''2''" and nm = "[]" and i = 0, THEN conjunct1])
       (simp_all add: mic_line_def sn trim_def trim_start_def trim_end_def is_ws_def strip_cr_def)
qed

subsection \<open>Durations\<close>

definition pad2 :: "nat \<Rightarrow> string" where
  "pad2 n = [digit_char (n div 10), digit_char (n mod 10)]"

lemma pad2_parse: "n < 100 \<Longrightarrow> parse_uint 64 (pad2 n) = Some n"
proof -
  assume n: "n < 100"
  then have d: "is_digit (digit_char (n div 10))" "is_digit (digit_char (n mod 10))"
    "digit_val (digit_char (n div 10)) = n div 10" "digit_val (digit_char (n mod 10)) = n mod 10"
    by simp_all
  have "digit_char (n div 10) \<noteq> CHR ''+''" using is_digit_not [OF d(1)] by simp
  then show ?thesis using n d by (simp add: parse_uint_def pad2_def Let_def)
qed

lemma pad2_fresh: "n < 100 \<Longrightarrow> \<not> is_digit c \<Longrightarrow> c \<notin> set (pad2 n)"
  by (auto simp: pad2_def)

lemma parse_duration_digits:
  assumes "h < 100" "m < 100" "s < 100" "cs < 100"
  shows "parse_duration_str (pad2 h @ '':'' @ pad2 m @ '':'' @ pad2 s @ ''.'' @ pad2 cs) =
    Inr (of_nat (h * 3600000 + m * 60000 + s * 1000 + cs * 10))"
proof -
  have f: "CHR '':'' \<notin> set (pad2 n)" "CHR ''.'' \<notin> set (pad2 n)" if "n < 100" for n
    using pad2_fresh [OF that] by (simp_all add: is_digit_def)
  have "split_on (CHR '':'') (pad2 h @ '':'' @ pad2 m @ '':'' @ pad2 s @ ''.'' @ pad2 cs) =
      [pad2 h, pad2 m, pad2 s @ ''.'' @ pad2 cs]"
    using f assms by (simp add: split_on_append split_on_fresh)
  moreover have "split_on (CHR ''.'') (pad2 s @ ''.'' @ pad2 cs) = [pad2 s, pad2 cs]"
    using f assms by (simp add: split_on_append split_on_fresh)
  moreover have "length (pad2 cs) = 2" by (simp add: pad2_def)
  ultimately show ?thesis
    using assms by (simp add: parse_duration_str_def Let_def pad2_parse)
qed

text \<open>The line ffmpeg prints for a file of the given length.\<close>

definition duration_text :: "nat \<Rightarrow> nat \<Rightarrow> nat \<Rightarrow> nat \<Rightarrow> string" where
  "duration_text h m s cs = pad2 h @ '':'' @ pad2 m @ '':'' @ pad2 s @ ''.'' @ pad2 cs"

lemma duration_text_edges:
  assumes "h < 100" "cs < 100"
  shows "duration_text h m s cs \<noteq> []" "\<not> is_ws (hd (duration_text h m s cs))"
    "\<not> is_ws (last (duration_text h m s cs))"
  using assms is_digit_not [of "digit_char (h div 10)"] is_digit_not [of "digit_char (cs mod 10)"]
  by (simp_all add: duration_text_def pad2_def)

lemma trim_start_matches_once:
  "p \<noteq> [] \<Longrightarrow> \<not> prefix p r \<Longrightarrow> trim_start_matches p (p @ r) = r"
  by (subst trim_start_matches.simps) (simp add: trim_start_matches.simps)

text \<open>The length of a recording is read back exactly: whatever lines ffmpeg prints before (none
  of them a duration line) and after, the duration line gives hours, minutes, seconds and
  hundredths as milliseconds.\<close>

theorem duration_as_printed:
  assumes "h < 100" "m < 100" "s < 100" "cs < 100"
    and "list_all (\<lambda>l. CHR 0x0A \<notin> set l) (pre @ [w @ rest] @ post)"
    and "list_all (\<lambda>l. \<not> starts_with (trim (strip_cr l)) ''Duration:'') pre"
    and "list_all is_ws w" "rest = [] \<or> last rest \<noteq> CHR 0x0D"
  shows "recording_get_duration (Inr (concat (map (\<lambda>l. l @ [CHR 0x0A])
      (pre @ [w @ ''Duration: '' @ duration_text h m s cs @ '','' @ rest] @ post)))) =
    Inr (of_nat (h * 3600000 + m * 60000 + s * 1000 + cs * 10))"
proof -
  let ?d = "duration_text h m s cs" and ?line = "w @ ''Duration: '' @ duration_text h m s cs @ '','' @ rest"
  note e = duration_text_edges [OF assms(1,4), of m s]
  have fresh: "CHR 0x0A \<notin> set ?d" "CHR '','' \<notin> set ?d"
    using assms(1-4) by (simp_all add: duration_text_def pad2_fresh is_digit_def)
  have nl: "\<forall>l \<in> set (pre @ [?line] @ post). CHR 0x0A \<notin> set l"
    using assms(5) fresh by (auto simp: list_all_iff)
  have cr: "strip_cr ?line = ?line"
    using assms(8) by (intro strip_cr_id) auto
  have skip: "duration_in_lines (map strip_cr pre @ ls) = duration_in_lines ls" for ls
    using assms(6) by (induction pre) (simp_all add: Let_def)
  have t1: "trim ?line = (''Duration: '' @ ?d @ '','') @ trim_end rest"
    using trim_ws_append [of w "''Duration: '' @ ?d @ '',''" rest] assms(7)
    by (simp add: list_all_iff is_ws_def)
  have t2: "trim_start_matches ''Duration:'' ((''Duration: '' @ ?d @ '','') @ trim_end rest) =
      '' '' @ (?d @ '','') @ trim_end rest"
    using trim_start_matches_once [of "''Duration:''" "'' '' @ (?d @ '','') @ trim_end rest"] by simp
  have t3: "trim ('' '' @ (?d @ '','') @ trim_end rest) = (?d @ '','') @ trim_end (trim_end rest)"
    by (rule trim_ws_append) (use e in \<open>simp_all add: is_ws_def\<close>)
  have t4: "hd (split_on (CHR '','') ((?d @ '','') @ x)) = ?d" for x
    using fresh(2) by (simp add: split_on_append)
  have t5: "trim ?d = ?d" using e by (intro trim_id) simp
  have hit: "duration_in_lines (?line # ls) = parse_duration_str ?d" for ls
    unfolding duration_in_lines.simps t1 Let_def t2 t3 t4 t5 by simp
  have "map strip_cr (pre @ [?line] @ post) = map strip_cr pre @ [?line] @ map strip_cr post"
    by (simp only: map_append list.map cr)
  moreover have "[?line] @ ls = ?line # ls" for ls by (rule append_Cons [of _ "[]", simplified append_Nil])
  ultimately have "duration_in_lines (map strip_cr (pre @ [?line] @ post)) = parse_duration_str ?d"
    by (metis skip hit)
  moreover have "str_lines (concat (map (\<lambda>l. l @ [CHR 0x0A]) (pre @ [?line] @ post))) =
      map strip_cr (pre @ [?line] @ post)"
    by (rule str_lines_concat) (rule nl)
  ultimately show ?thesis
    using parse_duration_digits [OF assms(1-4)]
    by (simp only: recording_get_duration_def parse_duration_from_output_def sum.case duration_text_def)
qed

theorem duration_as_printed_witness:
  "recording_get_duration (Inr (concat (map (\<lambda>l. l @ [CHR 0x0A])
     (([]::string list) @ [''  '' @ ''Duration: '' @ duration_text 1 2 3 45 @ '','' @ '' start: 0''] @ [])))) =
   Inr 3723450"
  using duration_as_printed [of 1 2 3 45 "[]" "''  ''" "'' start: 0''" "[]"] by (simp add: is_ws_def)

end
