(* ===== verification/Library.thy ===== *)
theory Library
  imports Rust_Prelude
begin

text \<open>
  The capture library: the database of \<open>src-tauri/src/library/db.rs\<close>, the commands of
  \<open>commands.rs\<close> and the write-back of \<open>ocr.rs\<close>.

  The state holds the two tables, rows in insertion order, the files of the captures and the OCR
  threads that have not finished. Base64, image decoding, text recognition, FTS5 matching, ids and
  the clock are arguments; statements fail as \<open>faults\<close> says. The columns added by migration have
  their defaults in every row.
\<close>

record capture =
  cap_id :: string
  file_path :: string
  cap_ts :: int
  app_name :: "string option"
  window_title :: "string option"
  is_draft :: bool
  cap_width :: "int option"
  cap_height :: "int option"
  media_type :: string
  thumbnail_path :: "string option"

record fts_row =
  fts_id :: string
  fts_app :: string
  fts_title :: string
  ocr_text :: string

record library =
  captures :: "capture list"
  captures_fts :: "fts_row list"
  files :: "string \<rightharpoonup> 8 word list"
  ocr_jobs :: "(string \<times> string) list"

definition empty_library :: library where
  "empty_library = \<lparr>captures = [], captures_fts = [], files = Map.empty, ocr_jobs = []\<rparr>"

section \<open>The database\<close>

text \<open>The two inserts of \<open>save_draft_conn\<close> and \<open>save_video\<close> are separate statements: when the second
  fails the first stays.\<close>

definition insert_capture ::
  "faults \<Rightarrow> string \<Rightarrow> string \<Rightarrow> capture \<Rightarrow> fts_row \<Rightarrow> library \<Rightarrow> library \<times> string res" where
  "insert_capture f err1 err2 c r l =
     (case f 0 of
        Some e \<Rightarrow> (l, Inl (err1 @ e))
      | None \<Rightarrow>
          if cap_id c \<in> cap_id ` set (captures l)
          then (l, Inl (err1 @ ''UNIQUE constraint failed: captures.id''))
          else
            (let l1 = l\<lparr>captures := captures l @ [c]\<rparr> in
             case f 1 of
               Some e \<Rightarrow> (l1, Inl (err2 @ e))
             | None \<Rightarrow> (l1\<lparr>captures_fts := captures_fts l1 @ [r]\<rparr>, Inr (cap_id c))))"

definition or_empty :: "string option \<Rightarrow> string" where
  "or_empty x = (case x of None \<Rightarrow> [] | Some s \<Rightarrow> s)"

definition save_draft_conn ::
  "faults \<Rightarrow> string \<Rightarrow> int \<Rightarrow> string \<Rightarrow> string option \<Rightarrow> string option \<Rightarrow> int \<Rightarrow> int \<Rightarrow> library
     \<Rightarrow> library \<times> string res" where
  "save_draft_conn f i ts path app ttl w h l =
     insert_capture f ''insert draft: '' ''insert fts: ''
       \<lparr>cap_id = i, file_path = path, cap_ts = ts, app_name = app, window_title = ttl,
        is_draft = True, cap_width = Some w, cap_height = Some h, media_type = ''image'',
        thumbnail_path = None\<rparr>
       \<lparr>fts_id = i, fts_app = or_empty app, fts_title = or_empty ttl, ocr_text = []\<rparr> l"

definition save_video ::
  "faults \<Rightarrow> string \<Rightarrow> int \<Rightarrow> string \<Rightarrow> string \<Rightarrow> library \<Rightarrow> library \<times> string res" where
  "save_video f i ts path thumb l =
     insert_capture f ''insert video: '' ''insert fts video: ''
       \<lparr>cap_id = i, file_path = path, cap_ts = ts, app_name = None, window_title = None,
        is_draft = False, cap_width = None, cap_height = None, media_type = ''video'',
        thumbnail_path = Some thumb\<rparr>
       \<lparr>fts_id = i, fts_app = [], fts_title = [], ocr_text = []\<rparr> l"

definition finalize_conn :: "faults \<Rightarrow> string \<Rightarrow> library \<Rightarrow> library \<times> unit res" where
  "finalize_conn f i l =
     (case f 0 of
        Some e \<Rightarrow> (l, Inl (''finalize: '' @ e))
      | None \<Rightarrow>
          (l\<lparr>captures := map (\<lambda>c. if cap_id c = i then c\<lparr>is_draft := False\<rparr> else c) (captures l)\<rparr>,
           Inr ()))"

definition i64_max :: int where "i64_max = 2 ^ 63 - 1"

definition newest_first :: "capture list \<Rightarrow> capture list" where
  "newest_first cs = sort_key (\<lambda>c. - cap_ts c) cs"

definition list_conn :: "faults \<Rightarrow> int option \<Rightarrow> library \<Rightarrow> capture list res" where
  "list_conn f before_ts l =
     (let ts_filter = (case before_ts of None \<Rightarrow> i64_max | Some t \<Rightarrow> t) in
      case f 0 of Some e \<Rightarrow> Inl (''prepare list: '' @ e) | None \<Rightarrow>
      (case f 1 of Some e \<Rightarrow> Inl (''query list: '' @ e) | None \<Rightarrow>
         Inr (take 50 (newest_first (filter (\<lambda>c. cap_ts c < ts_filter) (captures l))))))"

definition quoted :: "string \<Rightarrow> string" where
  "quoted q = CHR 0x22 # replace_char (CHR 0x22) [CHR 0x22, CHR 0x22] q @ [CHR 0x22]"

text \<open>The join of the matching index rows with the captures.\<close>

definition search_conn ::
  "(string \<Rightarrow> fts_row \<Rightarrow> bool) \<Rightarrow> faults \<Rightarrow> string \<Rightarrow> library \<Rightarrow> capture list res" where
  "search_conn matches f q l =
     (if trim q = [] then Inr []
      else
        (case f 0 of Some e \<Rightarrow> Inl (''prepare search: '' @ e) | None \<Rightarrow>
         (case f 1 of Some e \<Rightarrow> Inl (''query search: '' @ e) | None \<Rightarrow>
            Inr (take 50 (newest_first (concat (map
              (\<lambda>r. filter (\<lambda>c. cap_id c = fts_id r) (captures l))
              (filter (matches (quoted q)) (captures_fts l)))))))))"

definition delete_capture :: "faults \<Rightarrow> string \<Rightarrow> library \<Rightarrow> library \<times> string option res" where
  "delete_capture f i l =
     (let path = (case f 0 of
                    Some _ \<Rightarrow> None
                  | None \<Rightarrow> map_option file_path (List.find (\<lambda>c. cap_id c = i) (captures l))) in
      case f 1 of Some e \<Rightarrow> (l, Inl (''begin: '' @ e)) | None \<Rightarrow>
      (case f 2 of Some e \<Rightarrow> (l, Inl (''delete: '' @ e)) | None \<Rightarrow>
       (case f 3 of Some e \<Rightarrow> (l, Inl (''delete fts: '' @ e)) | None \<Rightarrow>
        (case f 4 of Some e \<Rightarrow> (l, Inl (''commit: '' @ e)) | None \<Rightarrow>
           (l\<lparr>captures := filter (\<lambda>c. cap_id c \<noteq> i) (captures l),
              captures_fts := filter (\<lambda>r. fts_id r \<noteq> i) (captures_fts l)\<rparr>, Inr path)))))"

definition update_ocr_conn :: "faults \<Rightarrow> string \<Rightarrow> string \<Rightarrow> library \<Rightarrow> library \<times> unit res" where
  "update_ocr_conn f i t l =
     (case f 0 of
        Some e \<Rightarrow> (l, Inl (''update ocr: '' @ e))
      | None \<Rightarrow>
          (l\<lparr>captures_fts :=
               map (\<lambda>r. if fts_id r = i then r\<lparr>ocr_text := t\<rparr> else r) (captures_fts l)\<rparr>, Inr ()))"

definition prune_conn :: "faults \<Rightarrow> int \<Rightarrow> library \<Rightarrow> library \<times> string list res" where
  "prune_conn f now l =
     (let cutoff = now - 30 * 24 * 60 * 60 * 1000 in
      case f 0 of Some e \<Rightarrow> (l, Inl (''prepare prune: '' @ e)) | None \<Rightarrow>
      (case f 1 of Some e \<Rightarrow> (l, Inl (''query prune: '' @ e)) | None \<Rightarrow>
       (let paths = map file_path (filter (\<lambda>c. cap_ts c < cutoff) (captures l)) in
        case f 2 of Some e \<Rightarrow> (l, Inl (''delete old: '' @ e)) | None \<Rightarrow>
        (let l1 = l\<lparr>captures := filter (\<lambda>c. \<not> cap_ts c < cutoff) (captures l)\<rparr> in
         case f 3 of
           Some e \<Rightarrow> (l1, Inl (''prune fts: '' @ e))
         | None \<Rightarrow>
             (l1\<lparr>captures_fts :=
                  filter (\<lambda>r. fts_id r \<in> cap_id ` set (captures l1)) (captures_fts l1)\<rparr>,
              Inr paths)))))"

section \<open>The commands\<close>

text \<open>Base64, the image decoder, and the directory of the captures; a \<open>unit res\<close> argument is the
  answer of the file system to a write.\<close>

record media =
  b64_decode :: "string \<Rightarrow> 8 word list res"
  image_size :: "8 word list \<Rightarrow> (nat \<times> nat) res"
  captures_dir :: string

definition as_i32 :: "nat \<Rightarrow> int" where
  "as_i32 n = sint (of_nat n :: 32 word)"

definition write_png ::
  "media \<Rightarrow> unit res \<Rightarrow> unit res \<Rightarrow> string \<Rightarrow> string \<Rightarrow> library
     \<Rightarrow> library \<times> (string \<times> int \<times> int) res" where
  "write_png env mk wr file_id b64 l =
     (case mk of Inl e \<Rightarrow> (l, Inl (''mkdir: '' @ e)) | Inr _ \<Rightarrow>
      (case b64_decode env b64 of Inl e \<Rightarrow> (l, Inl (''base64 decode: '' @ e)) | Inr bytes \<Rightarrow>
       (case image_size env bytes of Inl e \<Rightarrow> (l, Inl (''decode: '' @ e)) | Inr (w, h) \<Rightarrow>
        (case wr of Inl e \<Rightarrow> (l, Inl (''write: '' @ e)) | Inr _ \<Rightarrow>
           (let path = captures_dir env @ ''/'' @ file_id @ ''.png'' in
            (l\<lparr>files := (files l)(path \<mapsto> bytes)\<rparr>, Inr (path, as_i32 w, as_i32 h)))))))"

definition write_png_to :: "media \<Rightarrow> unit res \<Rightarrow> string \<Rightarrow> string \<Rightarrow> library \<Rightarrow> library \<times> unit res" where
  "write_png_to env wr b64 path l =
     (case b64_decode env b64 of
        Inl e \<Rightarrow> (l, Inl (''base64 decode: '' @ e))
      | Inr bytes \<Rightarrow>
          (case wr of
             Inl e \<Rightarrow> (l, Inl (''write png: '' @ e))
           | Inr _ \<Rightarrow> (l\<lparr>files := (files l)(path \<mapsto> bytes)\<rparr>, Inr ())))"

definition spawn_ocr :: "string \<Rightarrow> string \<Rightarrow> library \<Rightarrow> library" where
  "spawn_ocr i path l = l\<lparr>ocr_jobs := ocr_jobs l @ [(i, path)]\<rparr>"

text \<open>The end of an OCR thread: an empty text leaves the index as it is.\<close>

definition ocr_finished :: "faults \<Rightarrow> string res \<Rightarrow> string \<Rightarrow> library \<Rightarrow> library" where
  "ocr_finished f recognised i l =
     (case recognised of
        Inl _ \<Rightarrow> l
      | Inr t \<Rightarrow> if t \<noteq> [] then fst (update_ocr_conn f i t l) else l)"

definition library_save_draft ::
  "media \<Rightarrow> unit res \<Rightarrow> unit res \<Rightarrow> faults \<Rightarrow> string \<Rightarrow> string \<Rightarrow> int \<Rightarrow> string \<Rightarrow> string option
     \<Rightarrow> string option \<Rightarrow> library \<Rightarrow> library \<times> string res" where
  "library_save_draft env mk wr f file_id i ts b64 app ttl l =
     (case write_png env mk wr file_id b64 l of
        (l1, Inl e) \<Rightarrow> (l1, Inl e)
      | (l1, Inr (path, w, h)) \<Rightarrow>
          (case save_draft_conn f i ts path app ttl w h l1 of
             (l2, Inl e) \<Rightarrow> (l2, Inl e)
           | (l2, Inr i') \<Rightarrow> (spawn_ocr i' path l2, Inr i')))"

definition library_finalize ::
  "media \<Rightarrow> unit res \<Rightarrow> faults \<Rightarrow> faults \<Rightarrow> string \<Rightarrow> string \<Rightarrow> library \<Rightarrow> library \<times> unit res" where
  "library_finalize env wr f1 f2 i b64 l =
     (case f1 0 of
        Some e \<Rightarrow> (l, Inl (''lookup: '' @ e))
      | None \<Rightarrow>
          (case List.find (\<lambda>c. cap_id c = i) (captures l) of
             None \<Rightarrow> (l, Inl ''lookup: Query returned no rows'')
           | Some c \<Rightarrow>
               (case write_png_to env wr b64 (file_path c) l of
                  (l1, Inl e) \<Rightarrow> (l1, Inl e)
                | (l1, Inr _) \<Rightarrow>
                    (case finalize_conn f2 i l1 of
                       (l2, Inl e) \<Rightarrow> (l2, Inl e)
                     | (l2, Inr _) \<Rightarrow> (spawn_ocr i (file_path c) l2, Inr ())))))"

definition library_delete :: "faults \<Rightarrow> string \<Rightarrow> library \<Rightarrow> library \<times> unit res" where
  "library_delete f i l =
     (case delete_capture f i l of
        (l1, Inl e) \<Rightarrow> (l1, Inl e)
      | (l1, Inr None) \<Rightarrow> (l1, Inr ())
      | (l1, Inr (Some path)) \<Rightarrow> (l1\<lparr>files := (files l1)(path := None)\<rparr>, Inr ()))"

definition library_save_video ::
  "media \<Rightarrow> string res \<Rightarrow> unit res \<Rightarrow> unit res \<Rightarrow> faults \<Rightarrow> string \<Rightarrow> string \<Rightarrow> int \<Rightarrow> string \<Rightarrow> library
     \<Rightarrow> library \<times> string res" where
  "library_save_video env thumb mk wr f thumb_id i ts path l =
     (case thumb of Inl e \<Rightarrow> (l, Inl e) | Inr b64 \<Rightarrow>
      (case mk of Inl e \<Rightarrow> (l, Inl (''mkdir: '' @ e)) | Inr _ \<Rightarrow>
       (case b64_decode env b64 of Inl e \<Rightarrow> (l, Inl (''base64: '' @ e)) | Inr bytes \<Rightarrow>
        (case wr of Inl e \<Rightarrow> (l, Inl (''write thumb: '' @ e)) | Inr _ \<Rightarrow>
           (let thumb_path = captures_dir env @ ''/'' @ thumb_id @ ''-thumb.png'' in
            save_video f i ts path thumb_path (l\<lparr>files := (files l)(thumb_path \<mapsto> bytes)\<rparr>))))))"

text \<open>The pruning at startup in \<open>lib.rs\<close>: the paths it gets back are only printed.\<close>

definition startup_prune :: "faults \<Rightarrow> int \<Rightarrow> library \<Rightarrow> library" where
  "startup_prune f now l = fst (prune_conn f now l)"

section \<open>Reachable libraries\<close>

text \<open>Any sequence of commands, OCR results and prunings, with any failures; ids are fresh.\<close>

inductive lib_reach :: "library \<Rightarrow> bool" where
  Init: "lib_reach empty_library"
| Draft: "lib_reach l \<Longrightarrow> i \<notin> fts_id ` set (captures_fts l) \<Longrightarrow>
    lib_reach (fst (library_save_draft env mk wr f file_id i ts b64 app ttl l))"
| Finalize: "lib_reach l \<Longrightarrow> lib_reach (fst (library_finalize env wr f1 f2 i b64 l))"
| Delete: "lib_reach l \<Longrightarrow> lib_reach (fst (library_delete f i l))"
| Video: "lib_reach l \<Longrightarrow> i \<notin> fts_id ` set (captures_fts l) \<Longrightarrow>
    lib_reach (fst (library_save_video env thumb mk wr f thumb_id i ts path l))"
| Ocr: "lib_reach l \<Longrightarrow> lib_reach (ocr_finished f recognised i l)"
| Prune: "lib_reach l \<Longrightarrow> lib_reach (startup_prune f now l)"

definition library_ok :: "library \<Rightarrow> bool" where
  "library_ok l = (distinct (map cap_id (captures l)) \<and> distinct (map fts_id (captures_fts l)))"

lemma library_ok_cong:
  "map cap_id (captures l') = map cap_id (captures l) \<Longrightarrow>
   map fts_id (captures_fts l') = map fts_id (captures_fts l) \<Longrightarrow> library_ok l' = library_ok l"
  by (simp add: library_ok_def)

lemma map_update_key: "(\<And>x. k (g x) = k x) \<Longrightarrow> map k (map (\<lambda>x. if P x then g x else x) xs) = map k xs"
  by (induction xs) auto

lemma distinct_map_filter: "distinct (map k xs) \<Longrightarrow> distinct (map k (filter P xs))"
  by (induction xs) auto

lemma insert_capture_ok [wf_intros]:
  "library_ok l \<Longrightarrow> fts_id r \<notin> fts_id ` set (captures_fts l) \<Longrightarrow>
     library_ok (fst (insert_capture f e1 e2 c r l))"
  by (auto simp: insert_capture_def library_ok_def Let_def split: option.splits)

lemma write_png_tables:
  "write_png env mk wr i b l = (l', r) \<Longrightarrow>
     captures l' = captures l \<and> captures_fts l' = captures_fts l"
  by (auto simp: write_png_def Let_def split: sum.splits prod.splits)

lemma write_png_to_tables:
  "write_png_to env wr b p l = (l', r) \<Longrightarrow>
     captures l' = captures l \<and> captures_fts l' = captures_fts l"
  by (auto simp: write_png_to_def split: sum.splits)

lemma spawn_ocr_tables [simp]:
  "captures (spawn_ocr i p l) = captures l" "captures_fts (spawn_ocr i p l) = captures_fts l"
  by (simp_all add: spawn_ocr_def)

lemma save_draft_ok [wf_intros]:
  assumes "library_ok l" "i \<notin> fts_id ` set (captures_fts l)"
  shows "library_ok (fst (library_save_draft env mk wr f file_id i ts b64 app ttl l))"
proof -
  obtain l1 r where w: "write_png env mk wr file_id b64 l = (l1, r)" by fastforce
  from write_png_tables [OF w] have l1: "library_ok l1" "i \<notin> fts_id ` set (captures_fts l1)"
    using assms by (simp_all add: library_ok_def)
  show ?thesis
  proof (cases r)
    case (Inl e)
    then show ?thesis using w l1 by (simp add: library_save_draft_def)
  next
    case (Inr x)
    obtain path wd h where x: "x = (path, wd, h)" by (cases x)
    have "library_ok (fst (save_draft_conn f i ts path app ttl wd h l1))"
      unfolding save_draft_conn_def by (rule insert_capture_ok) (use l1 in simp_all)
    then show ?thesis using w Inr x
      by (auto simp: library_save_draft_def library_ok_def split: prod.splits sum.splits)
  qed
qed

lemma finalize_conn_keys:
  "map cap_id (captures (fst (finalize_conn f i l))) = map cap_id (captures l) \<and>
   captures_fts (fst (finalize_conn f i l)) = captures_fts l"
  by (simp add: finalize_conn_def map_update_key split: option.split del: map_map)

lemma finalize_ok [wf_intros]:
  assumes "library_ok l" shows "library_ok (fst (library_finalize env wr f1 f2 i b64 l))"
proof (cases "f1 0 = None \<and> List.find (\<lambda>c. cap_id c = i) (captures l) \<noteq> None")
  case False
  then show ?thesis using assms by (auto simp: library_finalize_def split: option.split)
next
  case True
  then obtain c where c: "List.find (\<lambda>c. cap_id c = i) (captures l) = Some c" by auto
  obtain l1 r where w: "write_png_to env wr b64 (file_path c) l = (l1, r)" by fastforce
  obtain l2 r2 where z: "finalize_conn f2 i l1 = (l2, r2)" by fastforce
  have "library_ok l1" using write_png_to_tables [OF w] assms by (simp add: library_ok_def)
  moreover have "library_ok l2"
    using finalize_conn_keys [of f2 i l1] \<open>library_ok l1\<close> z by (simp add: library_ok_def)
  then have "library_ok (spawn_ocr i (file_path c) l2)" by (simp add: library_ok_def)
  ultimately show ?thesis
    using True c w z \<open>library_ok l2\<close> by (simp add: library_finalize_def split: sum.split)
qed

lemma delete_ok [wf_intros]: "library_ok l \<Longrightarrow> library_ok (fst (library_delete f i l))"
  by (auto simp: library_delete_def delete_capture_def library_ok_def distinct_map_filter Let_def
      split: option.splits)

lemma save_video_ok [wf_intros]:
  assumes "library_ok l" "i \<notin> fts_id ` set (captures_fts l)"
  shows "library_ok (fst (library_save_video env thumb mk wr f thumb_id i ts path l))"
proof -
  have "library_ok (fst (save_video f i ts path p (l\<lparr>files := g\<rparr>)))" for p g
    unfolding save_video_def
    by (rule insert_capture_ok) (use assms in \<open>simp_all add: library_ok_def\<close>)
  then show ?thesis using assms(1)
    by (auto simp: library_save_video_def Let_def split: sum.splits)
qed

lemma ocr_ok [wf_intros]: "library_ok l \<Longrightarrow> library_ok (ocr_finished f recognised i l)"
  by (auto simp: ocr_finished_def update_ocr_conn_def library_ok_def map_update_key
      split: sum.splits option.splits simp del: map_map)

lemma prune_ok [wf_intros]: "library_ok l \<Longrightarrow> library_ok (startup_prune f now l)"
  by (auto simp: startup_prune_def prune_conn_def library_ok_def distinct_map_filter Let_def
      split: option.splits)

lemma empty_library_ok: "library_ok empty_library"
  by (simp add: library_ok_def empty_library_def)

lemma lib_reach_ok: "lib_reach l \<Longrightarrow> library_ok l"
  by (induction rule: lib_reach.induct) (auto intro: wf_intros empty_library_ok)

section \<open>Properties\<close>

lemma newest_first_props [simp]:
  "set (newest_first cs) = set cs" "length (newest_first cs) = length cs"
  "distinct (newest_first cs) = distinct cs"
  by (simp_all add: newest_first_def)

lemma newest_first_sorted: "sorted (map (\<lambda>c. - cap_ts c) (newest_first cs))"
  by (simp add: newest_first_def)

lemma find_filter_unique:
  "distinct (map cap_id cs) \<Longrightarrow> distinct (filter (\<lambda>c. cap_id c = i) cs)"
  by (simp add: distinct_map)

lemma join_distinct:
  assumes "distinct (map fts_id rs)" "distinct (map cap_id cs)"
  shows "distinct (concat (map (\<lambda>r. filter (\<lambda>c. cap_id c = fts_id r) cs) rs))"
  using assms(1)
proof (induction rs)
  case (Cons r rs)
  have "distinct cs" using assms(2) by (simp add: distinct_map)
  with Cons show ?case by (auto; metis imageI)
qed simp

text \<open>Searching the library: in every reachable state, also after commands that failed half way,
  the query reaches FTS5 as one phrase with exactly the user's text, and the result lists stored
  captures only, none twice, newest first, at most 50, each with an index row that matches; and
  below 50 results no capture with a matching index row is missed.\<close>

theorem library_search_sound_complete:
  assumes "lib_reach l" "trim q \<noteq> []" "search_conn matches no_faults q l = Inr es"
  shows "phrase_of (quoted q) = Some q \<and> distinct es \<and> length es \<le> 50 \<and>
    sorted (map (\<lambda>c. - cap_ts c) es) \<and>
    (\<forall>c \<in> set es. c \<in> set (captures l) \<and>
       (\<exists>r \<in> set (captures_fts l). fts_id r = cap_id c \<and> matches (quoted q) r)) \<and>
    (length es < 50 \<longrightarrow> (\<forall>c \<in> set (captures l). \<forall>r \<in> set (captures_fts l).
       fts_id r = cap_id c \<longrightarrow> matches (quoted q) r \<longrightarrow> c \<in> set es))"
proof -
  let ?hits = "concat (map (\<lambda>r. filter (\<lambda>c. cap_id c = fts_id r) (captures l))
      (filter (matches (quoted q)) (captures_fts l)))"
  have es: "es = take 50 (newest_first ?hits)" using assms(2,3) by (simp add: search_conn_def)
  have hits: "set ?hits = {c \<in> set (captures l).
      \<exists>r \<in> set (captures_fts l). fts_id r = cap_id c \<and> matches (quoted q) r}"
    by auto
  have "phrase_of (quoted q) = Some q" by (simp add: phrase_of_def quoted_def phrase_body_escaped)
  moreover have "distinct ?hits"
    using lib_reach_ok [OF assms(1)]
    by (intro join_distinct) (simp_all add: library_ok_def distinct_map_filter)
  then have "distinct es" by (simp add: es)
  moreover have "length es \<le> 50" by (simp add: es)
  moreover have "sorted (map (\<lambda>c. - cap_ts c) es)"
    unfolding es by (simp only: take_map [symmetric] sorted_wrt_take newest_first_sorted)
  moreover have "set es \<subseteq> set ?hits"
    unfolding es by (metis newest_first_props(1) set_take_subset)
  moreover have "set es = set ?hits" if "length es < 50"
    using that by (simp add: es)
  ultimately show ?thesis unfolding hits by blast
qed

definition demo_media :: media where
  "demo_media = \<lparr>b64_decode = \<lambda>_. Inr [1], image_size = \<lambda>_. Inr (2, 3), captures_dir = ''/c''\<rparr>"

definition demo_library :: library where
  "demo_library = fst (library_save_draft demo_media (Inr ()) (Inr ()) no_faults ''f'' ''i'' 5
     ''b'' (Some ''app'') None empty_library)"

lemma demo_library_reach: "lib_reach demo_library"
  unfolding demo_library_def by (intro lib_reach.intros) (simp add: empty_library_def)

lemma demo_library_fields:
  "map cap_id (captures demo_library) = [''i''] \<and> map fts_app (captures_fts demo_library) = [''app'']"
  by (simp add: demo_library_def library_save_draft_def write_png_def save_draft_conn_def
      insert_capture_def demo_media_def empty_library_def or_empty_def Let_def)

theorem library_search_sound_complete_witness:
  "set (projr (search_conn (\<lambda>q r. fts_app r = ''app'') no_faults ''app'' demo_library)) \<subseteq>
     set (captures demo_library)"
proof -
  have "search_conn (\<lambda>q r. fts_app r = ''app'') no_faults ''app'' demo_library =
      Inr (projr (search_conn (\<lambda>q r. fts_app r = ''app'') no_faults ''app'' demo_library))"
    by (simp add: search_conn_def trim_eq_Nil_iff is_ws_def)
  from library_search_sound_complete [OF demo_library_reach _ this] show ?thesis
    by (auto simp: trim_eq_Nil_iff is_ws_def)
qed

subsection \<open>Paging\<close>

text \<open>The frontend pages through the library by asking for the captures before the last one it got.\<close>

fun walk :: "nat \<Rightarrow> int option \<Rightarrow> library \<Rightarrow> capture list" where
  "walk 0 before_ts l = []"
| "walk (Suc n) before_ts l =
     (case list_conn no_faults before_ts l of
        Inl e \<Rightarrow> []
      | Inr es \<Rightarrow> if es = [] then [] else es @ walk n (Some (cap_ts (last es))) l)"

definition list_from :: "int \<Rightarrow> library \<Rightarrow> capture list" where
  "list_from t l = newest_first (filter (\<lambda>c. cap_ts c < t) (captures l))"

lemma list_conn_eq:
  "list_conn no_faults b l = Inr (take 50 (list_from (case b of None \<Rightarrow> i64_max | Some t \<Rightarrow> t) l))"
  by (simp add: list_conn_def list_from_def Let_def)

lemma list_from_filter:
  "t \<le> u \<Longrightarrow> list_from t l = filter (\<lambda>c. cap_ts c < t) (list_from u l)"
  by (auto simp: list_from_def newest_first_def filter_sort intro!: arg_cong [where f = "sort_key _"] filter_cong)

lemma list_from_strict:
  assumes "distinct (map cap_ts (captures l))"
  shows "sorted_wrt (\<lambda>c d. cap_ts d < cap_ts c) (list_from t l)"
proof -
  let ?xs = "list_from t l"
  have "sorted (map (\<lambda>c. - cap_ts c) ?xs)" by (simp add: list_from_def newest_first_sorted)
  moreover have "distinct (map cap_ts ?xs)"
    using assms by (simp add: list_from_def distinct_map inj_on_def)
  ultimately show ?thesis
    by (induction ?xs rule: list.induct)
       (auto simp: sorted_wrt_iff_nth_less sorted_iff_nth_mono distinct_conv_nth le_less)
qed

lemma filter_after_prefix:
  assumes "sorted_wrt (\<lambda>c d. cap_ts d < cap_ts c) (xs @ ys)" "xs \<noteq> []"
  shows "filter (\<lambda>c. cap_ts c < cap_ts (last xs)) (xs @ ys) = ys"
proof -
  have l: "last xs \<in> set xs" using assms(2) by simp
  have "\<not> cap_ts c < cap_ts (last xs)" if "c \<in> set xs" for c
  proof -
    have xs: "xs = butlast xs @ [last xs]" using assms(2) by simp
    have "sorted_wrt (\<lambda>c d. cap_ts d < cap_ts c) (butlast xs @ [last xs])"
      using assms xs by (simp add: sorted_wrt_append)
    then have "\<forall>c \<in> set (butlast xs). cap_ts (last xs) < cap_ts c" by (simp add: sorted_wrt_append)
    moreover from that have "c \<in> set (butlast xs) \<or> c = last xs" by (metis xs in_set_conv_decomp Un_iff set_append list.set_intros(1) insert_iff list.set(2) empty_iff list.set(1))
    ultimately show ?thesis by auto
  qed
  moreover have "cap_ts d < cap_ts (last xs)" if "d \<in> set ys" for d
    using assms(1) l that by (simp add: sorted_wrt_append)
  ultimately show ?thesis by (simp add: filter_empty_conv filter_id_conv)
qed

lemma walk_all:
  assumes "distinct (map cap_ts (captures l))" "length (list_from t l) < n"
  shows "walk n (Some t) l = list_from t l"
  using assms(2)
proof (induction n arbitrary: t)
  case (Suc n)
  let ?xs = "list_from t l"
  show ?case
  proof (cases "?xs = []")
    case True
    then show ?thesis by (simp add: list_conn_eq)
  next
    case False
    let ?es = "take 50 ?xs" and ?u = "cap_ts (last (take 50 ?xs))"
    have ne: "?es \<noteq> []" using False by simp
    have "last ?es \<in> set ?xs" using ne by (meson in_set_takeD last_in_set)
    then have "?u < t" by (simp add: list_from_def)
    then have "list_from ?u l = filter (\<lambda>c. cap_ts c < ?u) ?xs" by (intro list_from_filter) simp
    also have "\<dots> = drop 50 ?xs"
      using filter_after_prefix [of ?es "drop 50 ?xs"] list_from_strict [OF assms(1), of t] ne by simp
    finally have rest: "list_from ?u l = drop 50 ?xs" .
    have "0 < length ?xs" using False by simp
    then have "length (list_from ?u l) < n" using Suc.prems unfolding rest length_drop by linarith
    from Suc.IH [OF this] show ?thesis
      using ne False by (simp add: list_conn_eq rest)
  qed
qed simp

lemma walk_before: "c \<in> set (walk n (Some t) l) \<Longrightarrow> cap_ts c < t"
proof (induction n arbitrary: t)
  case (Suc n)
  let ?es = "take 50 (list_from t l)"
  have all: "\<forall>d \<in> set ?es. cap_ts d < t"
    by (auto simp: list_from_def dest: in_set_takeD)
  from Suc.prems consider "c \<in> set ?es" | "c \<in> set (walk n (Some (cap_ts (last ?es))) l)" "?es \<noteq> []"
    by (auto simp: list_conn_eq split: if_splits)
  then show ?case
  proof cases
    case 2
    then have "cap_ts c < cap_ts (last ?es)" using Suc.IH by blast
    moreover have "last ?es \<in> set ?es" using 2(2) by (rule last_in_set)
    ultimately show ?thesis using all by fastforce
  qed (use all in blast)
qed simp

text \<open>Paging shows the whole library once, newest first, when no two captures have the same
  time stamp (in milliseconds): asking for the captures before the last one seen, until a page is
  empty, gives the sorted captures. A capture with the same time stamp as the last one of a page
  is never reached from there, because the next page asks for strictly older ones.\<close>

theorem paging_complete:
  assumes "distinct (map cap_ts (captures l))" "list_all (\<lambda>c. cap_ts c < i64_max) (captures l)"
    and "length (captures l) < n"
  shows "walk n None l = newest_first (captures l) \<and>
    (\<forall>c. c \<notin> set (walk n (Some (cap_ts c)) l))"
proof
  have all: "list_from i64_max l = newest_first (captures l)"
    using assms(2) by (simp add: list_from_def list_all_iff)
  have "walk n None l = walk n (Some i64_max) l"
    using assms(3) by (cases n) (simp_all add: list_conn_eq)
  also have "\<dots> = list_from i64_max l"
    by (rule walk_all) (use assms all in simp_all)
  finally show "walk n None l = newest_first (captures l)" by (simp only: all)
  show "\<forall>c. c \<notin> set (walk n (Some (cap_ts c)) l)" using walk_before by blast
qed

theorem paging_complete_witness: "walk 2 None demo_library = newest_first (captures demo_library)"
proof -
  have "map cap_ts (captures demo_library) = [5]"
    by (simp add: demo_library_def library_save_draft_def write_png_def save_draft_conn_def
        insert_capture_def demo_media_def empty_library_def or_empty_def Let_def)
  moreover from this have "length (captures demo_library) = 1" by (metis length_map length_Cons list.size(3) One_nat_def)
  moreover have "list_all (\<lambda>c. cap_ts c < i64_max) (captures demo_library)"
    using calculation(1) by (auto simp: list_all_iff i64_max_def map_eq_Cons_conv)
  ultimately show ?thesis using paging_complete [of demo_library 2] by simp
qed

subsection \<open>Deleting\<close>

text \<open>What deleting a stored capture removes: its row, its index row and its file, and nothing of
  any other capture; but a thumbnail stays on disk. Pruning at startup removes the rows of all
  captures older than 30 days and no file at all.\<close>

theorem delete_leaves_thumbnail:
  assumes "lib_reach l" "c \<in> set (captures l)"
  shows "captures (fst (library_delete no_faults (cap_id c) l)) = filter (\<lambda>d. d \<noteq> c) (captures l) \<and>
    cap_id c \<notin> fts_id ` set (captures_fts (fst (library_delete no_faults (cap_id c) l))) \<and>
    files (fst (library_delete no_faults (cap_id c) l)) = (files l)(file_path c := None) \<and>
    (\<forall>p. thumbnail_path c = Some p \<and> p \<noteq> file_path c \<longrightarrow>
       files (fst (library_delete no_faults (cap_id c) l)) p = files l p) \<and>
    captures (startup_prune no_faults now l) =
      filter (\<lambda>d. now - 2592000000 \<le> cap_ts d) (captures l) \<and>
    files (startup_prune no_faults now l) = files l"
proof -
  have inj: "inj_on cap_id (set (captures l))"
    using lib_reach_ok [OF assms(1)] by (simp add: library_ok_def distinct_map)
  then have same: "d = c" if "d \<in> set (captures l)" "cap_id d = cap_id c" for d
    using that assms(2) by (meson inj_onD)
  have find: "List.find (\<lambda>d. cap_id d = cap_id c) (captures l) = Some c"
  proof (cases "List.find (\<lambda>d. cap_id d = cap_id c) (captures l)")
    case None
    then show ?thesis using assms(2) by (auto simp: find_None_iff)
  next
    case (Some d)
    then show ?thesis using same find_Some_mem [OF Some] by simp
  qed
  have "filter (\<lambda>d. cap_id d \<noteq> cap_id c) (captures l) = filter (\<lambda>d. d \<noteq> c) (captures l)"
    using same by (intro filter_cong) auto
  then show ?thesis
    using find
    by (auto simp: library_delete_def delete_capture_def startup_prune_def prune_conn_def Let_def not_less)
qed

theorem delete_leaves_thumbnail_witness:
  "captures (fst (library_delete no_faults ''i'' demo_library)) = []"
proof -
  obtain c where c: "captures demo_library = [c]" "cap_id c = ''i''"
    using demo_library_fields by (auto simp: map_eq_Cons_conv)
  then show ?thesis using delete_leaves_thumbnail [OF demo_library_reach, of c] by simp
qed

end
