(* ===== verification/Key_Value.thy ===== *)
theory Key_Value
  imports Rust_Prelude
begin

text \<open>
  The interface of a string-keyed store that answers with results: what the clients of the
  keychain and of the settings file (OAuth, API keys, model selection) rely on. \<open>ok\<close> are the
  states in which the store works, \<open>view\<close> is its content.
\<close>

locale kv_store =
  fixes ok :: "'s \<Rightarrow> bool"
    and view :: "'s \<Rightarrow> string \<Rightarrow> 'v option"
    and get :: "string \<Rightarrow> 's \<Rightarrow> 's \<times> 'v option res"
    and put :: "string \<Rightarrow> 'v \<Rightarrow> 's \<Rightarrow> 's \<times> unit res"
    and del :: "string \<Rightarrow> 's \<Rightarrow> 's \<times> bool res"
  assumes get_law: "ok s \<Longrightarrow> \<exists>s'. get k s = (s', Inr (view s k)) \<and> ok s' \<and> view s' = view s"
    and put_law: "ok s \<Longrightarrow> \<exists>s'. put k v s = (s', Inr ()) \<and> ok s' \<and> view s' = (view s)(k \<mapsto> v)"
    and del_law: "ok s \<Longrightarrow> \<exists>s'. del k s = (s', Inr (view s k \<noteq> None)) \<and> ok s' \<and>
      view s' = (view s)(k := None)"
begin

lemma get_ok: "ok s \<Longrightarrow> ok (fst (get k s)) \<and> view (fst (get k s)) = view s"
  using get_law [of s k] by auto

lemma get_value: "ok s \<Longrightarrow> snd (get k s) = Inr (view s k)"
  using get_law [of s k] by auto

lemma put_ok: "ok s \<Longrightarrow> ok (fst (put k v s))"
  using put_law [of s k v] by auto

lemma put_view: "ok s \<Longrightarrow> view (fst (put k v s)) = (view s)(k \<mapsto> v)"
  using put_law [of s k v] by auto

lemma put_value: "ok s \<Longrightarrow> snd (put k v s) = Inr ()"
  using put_law [of s k v] by auto

lemma del_ok: "ok s \<Longrightarrow> ok (fst (del k s))"
  using del_law [of s k] by auto

lemma del_view: "ok s \<Longrightarrow> view (fst (del k s)) = (view s)(k := None)"
  using del_law [of s k] by auto

lemma del_value: "ok s \<Longrightarrow> snd (del k s) = Inr (view s k \<noteq> None)"
  using del_law [of s k] by auto

lemma get_after_put: "ok s \<Longrightarrow> snd (get j (fst (put k v s))) = Inr (if j = k then Some v else view s j)"
  by (simp add: get_value put_ok put_view)

lemma get_after_del: "ok s \<Longrightarrow> snd (get j (fst (del k s))) = Inr (if j = k then None else view s j)"
  by (simp add: get_value del_ok del_view)

lemma del_twice: "ok s \<Longrightarrow> snd (del k (fst (del k s))) = Inr False"
  by (simp add: del_value del_ok del_view)

text \<open>A value that is deleted when it is read is read once.\<close>

lemma take_once:
  "ok s \<Longrightarrow> snd (get k (fst (del k (fst (get k s))))) = Inr None"
  using get_ok [of s k] by (simp add: get_after_del)

lemma puts_view:
  "ok s \<Longrightarrow> ok (fold (\<lambda>(k, v) s. fst (put k v s)) kvs s) \<and>
     view (fold (\<lambda>(k, v) s. fst (put k v s)) kvs s) = view s ++ map_of (rev kvs)"
  by (induction kvs arbitrary: s) (auto simp: put_ok put_view map_add_def split: option.splits)

end

end
