(* ===== verification/Json_Value.thy ===== *)
theory Json_Value
  imports Rust_Prelude
begin

text \<open>
  The values of \<open>serde_json\<close> and what the code does with them. An object is an association list:
  the order of keys is not part of the meaning of any operation here. Numbers are integers or
  rationals.
\<close>

datatype json =
    JNull
  | JBool bool
  | JInt int
  | JFloat rat
  | JStr string
  | JArr "json list"
  | JObj "(string \<times> json) list"

text \<open>\<open>Value::get(key)\<close>: \<open>None\<close> unless the value is an object with the key.\<close>

definition jget :: "string \<Rightarrow> json \<Rightarrow> json option" where
  "jget k j = (case j of JObj kvs \<Rightarrow> map_of kvs k | _ \<Rightarrow> None)"

definition as_str :: "json \<Rightarrow> string option" where
  "as_str j = (case j of JStr s \<Rightarrow> Some s | _ \<Rightarrow> None)"

definition as_array :: "json \<Rightarrow> json list option" where
  "as_array j = (case j of JArr xs \<Rightarrow> Some xs | _ \<Rightarrow> None)"

definition as_bool :: "json \<Rightarrow> bool option" where
  "as_bool j = (case j of JBool b \<Rightarrow> Some b | _ \<Rightarrow> None)"

definition as_u64 :: "json \<Rightarrow> nat option" where
  "as_u64 j = (case j of JInt i \<Rightarrow> if 0 \<le> i \<and> i < 2 ^ 64 then Some (nat i) else None | _ \<Rightarrow> None)"

definition as_i64 :: "json \<Rightarrow> int option" where
  "as_i64 j = (case j of JInt i \<Rightarrow> if - (2 ^ 63) \<le> i \<and> i < 2 ^ 63 then Some i else None | _ \<Rightarrow> None)"

definition jget_str :: "string \<Rightarrow> json \<Rightarrow> string option" where
  "jget_str k j = Option.bind (jget k j) as_str"

definition opt_json :: "json option \<Rightarrow> json" where
  "opt_json x = (case x of None \<Rightarrow> JNull | Some v \<Rightarrow> v)"

definition opt_str :: "string option \<Rightarrow> json" where
  "opt_str x = (case x of None \<Rightarrow> JNull | Some s \<Rightarrow> JStr s)"

text \<open>Assigning through \<open>value[key]\<close>: a null becomes an object, any other non-object panics.\<close>

definition index_assign :: "string \<Rightarrow> json \<Rightarrow> json \<Rightarrow> json outcome" where
  "index_assign k v j =
     (case j of
        JObj kvs \<Rightarrow> Done (JObj (AList.update k v kvs))
      | JNull \<Rightarrow> Done (JObj [(k, v)])
      | _ \<Rightarrow> Panicked)"

lemma jget_simps [simp]:
  "jget k (JObj kvs) = map_of kvs k" "jget k JNull = None" "jget k (JStr s) = None"
  "jget k (JArr xs) = None" "jget k (JInt i) = None" "jget k (JBool b) = None" "jget k (JFloat q) = None"
  by (simp_all add: jget_def)

lemma as_str_simps [simp]: "as_str (JStr s) = Some s" "as_str (JArr xs) = None" "as_str JNull = None"
  by (simp_all add: as_str_def)

lemma as_str_eq_Some: "as_str j = Some s \<longleftrightarrow> j = JStr s"
  by (cases j) (simp_all add: as_str_def)

lemma as_array_simps [simp]: "as_array (JArr xs) = Some xs"
  by (simp add: as_array_def)

lemma map_of_update [simp]: "map_of (AList.update k v kvs) = (map_of kvs)(k \<mapsto> v)"
  by (simp add: update_conv')

lemma map_of_delete [simp]: "map_of (AList.delete k kvs) = (map_of kvs)(k := None)"
  by (simp add: delete_conv')

text \<open>The answer of an HTTP handler: status code and body.\<close>

type_synonym response = "nat \<times> json"

definition ok_body :: "(string \<times> json) list \<Rightarrow> json" where
  "ok_body kvs = JObj ((''success'', JBool True) # kvs)"

definition err_body :: "string \<Rightarrow> json" where
  "err_body e = JObj [(''success'', JBool False), (''error'', JStr e)]"

end
