(* ===== verification/Settings.thy ===== *)
theory Settings
  imports Key_Value Json_Value
begin

text \<open>
  The settings file of \<open>src-tauri/src/server/settings.rs\<close>, its endpoints, and the model list of
  \<open>models.rs\<close> that is kept in it.

  The file is missing, unreadable, not JSON, or holds a value; printing a value and parsing it
  again gives the value back (serde_json). Creating the directory and writing may fail; a write that
  fails could not open the file and leaves it as it was.
\<close>

datatype settings_file = Absent | Unreadable string | Corrupt string | Stored json

record disk =
  mkdir_error :: "string option"
  write_error :: "string option"

definition disk_ok :: disk where
  "disk_ok = \<lparr>mkdir_error = None, write_error = None\<rparr>"

definition disk_works :: "disk \<Rightarrow> bool" where
  "disk_works d \<longleftrightarrow> mkdir_error d = None \<and> write_error d = None"

text \<open>A configuration that is kept whole in such a file: what its owner relies on when it saves and loads.\<close>

fun save_runs :: "(disk \<Rightarrow> 'c \<Rightarrow> settings_file \<Rightarrow> settings_file \<times> unit res) \<Rightarrow> (disk \<times> 'c) list \<Rightarrow> settings_file \<Rightarrow> settings_file" where
  "save_runs save [] f = f"
| "save_runs save ((d, c) # ops) f = save_runs save ops (fst (save d c f))"

fun last_saved :: "'c \<Rightarrow> (disk \<times> 'c) list \<Rightarrow> 'c" where
  "last_saved c0 [] = c0"
| "last_saved c0 ((d, c) # ops) = last_saved (if disk_works d then c else c0) ops"

locale config_file =
  fixes load :: "settings_file \<Rightarrow> 'c"
    and save :: "disk \<Rightarrow> 'c \<Rightarrow> settings_file \<Rightarrow> settings_file \<times> unit res"
  assumes saved: "disk_works d \<Longrightarrow> load (fst (save d c f)) = c"
    and save_answer: "is_ok (snd (save d c f)) \<longleftrightarrow> disk_works d"
    and save_failed: "\<not> disk_works d \<Longrightarrow> fst (save d c f) = f"
begin

lemma load_runs: "load (save_runs save ops f) = last_saved (load f) ops"
proof (induction ops arbitrary: f)
  case (Cons op ops)
  obtain d c where op: "op = (d, c)" by force
  show ?case
  proof (cases "disk_works d")
    case True
    with op Cons saved show ?thesis by simp
  next
    case False
    with op Cons save_failed show ?thesis by simp
  qed
qed simp

lemma saved_or_unchanged: "load (fst (save d c f)) = (if is_ok (snd (save d c f)) then c else load f)"
  using saved save_failed save_answer by simp

end

definition default_settings :: json where
  "default_settings = JObj
     [(''theme'', JStr ''dark''), (''model'', JStr ''claude-opus-4-6''), (''max_tokens'', JInt 4096),
      (''temperature'', JFloat 1), (''api_key_type'', JStr ''keychain''),
      (''auto_save_sessions'', JBool True), (''notification_enabled'', JBool True),
      (''font_size'', JInt 14), (''editor_wrap'', JBool True)]"

definition save_settings :: "disk \<Rightarrow> json \<Rightarrow> settings_file \<Rightarrow> settings_file \<times> unit res" where
  "save_settings d j f =
     (case mkdir_error d of
        Some e \<Rightarrow> (f, Inl (''Failed to create settings directory: '' @ e))
      | None \<Rightarrow>
          (case write_error d of
             Some e \<Rightarrow> (f, Inl (''Failed to write settings: '' @ e))
           | None \<Rightarrow> (Stored j, Inr ())))"

definition load_settings :: "disk \<Rightarrow> settings_file \<Rightarrow> settings_file \<times> json res" where
  "load_settings d f =
     (case f of
        Absent \<Rightarrow>
          (case save_settings d default_settings f of
             (f', Inl e) \<Rightarrow> (f', Inl e)
           | (f', Inr _) \<Rightarrow> (f', Inr default_settings))
      | Stored j \<Rightarrow> (f, Inr j)
      | Corrupt _ \<Rightarrow> (f, Inr default_settings)
      | Unreadable _ \<Rightarrow> (f, Inr default_settings))"

definition get_setting :: "disk \<Rightarrow> string \<Rightarrow> settings_file \<Rightarrow> settings_file \<times> json option res" where
  "get_setting d k f =
     (case load_settings d f of (f', Inl e) \<Rightarrow> (f', Inl e) | (f', Inr j) \<Rightarrow> (f', Inr (jget k j)))"

definition set_setting :: "disk \<Rightarrow> string \<Rightarrow> json \<Rightarrow> settings_file \<Rightarrow> settings_file \<times> unit res" where
  "set_setting d k v f =
     (case load_settings d f of
        (f', Inl e) \<Rightarrow> (f', Inl e)
      | (f', Inr j) \<Rightarrow>
          save_settings d (case j of JObj kvs \<Rightarrow> JObj (AList.update k v kvs) | _ \<Rightarrow> j) f')"

definition delete_setting :: "disk \<Rightarrow> string \<Rightarrow> settings_file \<Rightarrow> settings_file \<times> bool res" where
  "delete_setting d k f =
     (case load_settings d f of
        (f', Inl e) \<Rightarrow> (f', Inl e)
      | (f', Inr (JObj kvs)) \<Rightarrow>
          (case save_settings d (JObj (AList.delete k kvs)) f' of
             (f'', Inl e) \<Rightarrow> (f'', Inl e)
           | (f'', Inr _) \<Rightarrow> (f'', Inr (map_of kvs k \<noteq> None)))
      | (f', Inr _) \<Rightarrow> (f', Inr False))"

text \<open>The settings a file stands for. The store works on every file but one that holds a value which
  is not an object: there a set is dropped without an error.\<close>

definition settings_value :: "settings_file \<Rightarrow> json" where
  "settings_value f = (case f of Stored j \<Rightarrow> j | _ \<Rightarrow> default_settings)"

definition settings_ok :: "settings_file \<Rightarrow> bool" where
  "settings_ok f = (case settings_value f of JObj _ \<Rightarrow> True | _ \<Rightarrow> False)"

definition settings_view :: "settings_file \<Rightarrow> string \<Rightarrow> json option" where
  "settings_view f k = jget k (settings_value f)"

lemma load_settings_ok:
  "\<exists>f'. load_settings disk_ok f = (f', Inr (settings_value f)) \<and> settings_value f' = settings_value f"
  by (cases f) (simp_all add: load_settings_def save_settings_def settings_value_def disk_ok_def)

lemma save_settings_ok [simp]: "save_settings disk_ok j f = (Stored j, Inr ())"
  by (simp add: save_settings_def disk_ok_def)

interpretation settings: kv_store settings_ok settings_view
    "get_setting disk_ok" "set_setting disk_ok" "delete_setting disk_ok"
proof
  fix f k v
  obtain f' where l: "load_settings disk_ok f = (f', Inr (settings_value f))"
    and s: "settings_value f' = settings_value f"
    using load_settings_ok by blast
  show "\<exists>f'. get_setting disk_ok k f = (f', Inr (settings_view f k)) \<and> settings_ok f' \<and>
      settings_view f' = settings_view f" if "settings_ok f"
    using that l s by (simp add: get_setting_def settings_ok_def settings_view_def fun_eq_iff)
  show "\<exists>f'. set_setting disk_ok k v f = (f', Inr ()) \<and> settings_ok f' \<and>
      settings_view f' = (settings_view f)(k \<mapsto> v)" if "settings_ok f"
    using that l
    by (auto simp: set_setting_def settings_ok_def settings_view_def [abs_def] settings_value_def [of "Stored _"]
        split: json.splits)
  show "\<exists>f'. delete_setting disk_ok k f = (f', Inr (settings_view f k \<noteq> None)) \<and> settings_ok f' \<and>
      settings_view f' = (settings_view f)(k := None)" if "settings_ok f"
    using that l
    by (auto simp: delete_setting_def settings_ok_def settings_view_def [abs_def] settings_value_def [of "Stored _"]
        split: json.splits)
qed

section \<open>Endpoints\<close>

definition settings_get_all :: "disk \<Rightarrow> settings_file \<Rightarrow> settings_file \<times> response" where
  "settings_get_all d f =
     (case load_settings d f of
        (f', Inr j) \<Rightarrow> (f', 200, ok_body [(''settings'', j)]) | (f', Inl e) \<Rightarrow> (f', 200, err_body e))"

definition settings_save_all :: "disk \<Rightarrow> json \<Rightarrow> settings_file \<Rightarrow> settings_file \<times> response" where
  "settings_save_all d j f =
     (case save_settings d j f of
        (f', Inr _) \<Rightarrow> (f', 200, ok_body []) | (f', Inl e) \<Rightarrow> (f', 500, err_body e))"

definition settings_endpoint_get :: "disk \<Rightarrow> string \<Rightarrow> settings_file \<Rightarrow> settings_file \<times> response" where
  "settings_endpoint_get d k f =
     (case get_setting d k f of
        (f', Inr (Some v)) \<Rightarrow> (f', 200, ok_body [(''value'', v)])
      | (f', Inr None) \<Rightarrow> (f', 200, err_body ''Setting not found'')
      | (f', Inl e) \<Rightarrow> (f', 200, err_body e))"

definition settings_endpoint_set :: "disk \<Rightarrow> string \<Rightarrow> json \<Rightarrow> settings_file \<Rightarrow> settings_file \<times> response" where
  "settings_endpoint_set d k v f =
     (case set_setting d k v f of
        (f', Inr _) \<Rightarrow> (f', 200, ok_body []) | (f', Inl e) \<Rightarrow> (f', 500, err_body e))"

definition settings_endpoint_delete :: "disk \<Rightarrow> string \<Rightarrow> settings_file \<Rightarrow> settings_file \<times> response" where
  "settings_endpoint_delete d k f =
     (case delete_setting d k f of
        (f', Inr b) \<Rightarrow> (f', 200, ok_body [(''deleted'', JBool b)])
      | (f', Inl e) \<Rightarrow> (f', 200, err_body e))"

end
