(* ===== verification/Models.thy ===== *)
theory Models
  imports Settings
begin

text \<open>
  The models of \<open>src-tauri/src/server/models.rs\<close>: the builtin list, the custom models kept in the
  settings under \<open>custom_models\<close>, and the selected model kept under \<open>model\<close>.
\<close>

record model =
  model_id :: string
  model_name :: string
  provider :: string
  max_tokens :: nat
  context_length :: nat
  description :: string
  custom :: bool

definition em_dash :: string where "em_dash = [CHR 0xE2, CHR 0x80, CHR 0x94]"

definition builtin :: "string \<Rightarrow> string \<Rightarrow> string \<Rightarrow> nat \<Rightarrow> nat \<Rightarrow> string \<Rightarrow> model" where
  "builtin i n p ctx mx d = \<lparr>model_id = i, model_name = n, provider = p, max_tokens = mx,
     context_length = ctx, description = d, custom = False\<rparr>"

definition builtin_models :: "model list" where
  "builtin_models =
     [
builtin ''claude-opus-4-6'' ''Claude Opus 4.6'' ''anthropic'' 1000000 128000 (''Anthropic flagship '' @ em_dash @ '' 1M context, extended thinking, tool use''),
      builtin ''claude-sonnet-4-6'' ''Claude Sonnet 4.6'' ''anthropic'' 1000000 64000 (''Best balance of capability and speed '' @ em_dash @ '' 1M context''),
      builtin ''claude-opus-4-5'' ''Claude Opus 4.5'' ''anthropic'' 200000 64000 (''Highly capable with extended thinking and tool use''),
      builtin ''claude-sonnet-4-5'' ''Claude Sonnet 4.5'' ''anthropic'' 200000 64000 (''Fast, capable, cost-efficient '' @ em_dash @ '' great for most agent tasks''),
      builtin ''claude-haiku-4-5'' ''Claude Haiku 4.5'' ''anthropic'' 200000 64000 (''Fastest Claude '' @ em_dash @ '' ideal for high-throughput or latency-sensitive tasks''),
      builtin ''gpt-5.4'' ''GPT-5.4'' ''openai'' 1050000 128000 (''Latest GPT-5 '' @ em_dash @ '' 1M context, reasoning, tool use''),
      builtin ''gpt-5.4-pro'' ''GPT-5.4 Pro'' ''openai'' 1050000 128000 (''Premium GPT-5.4 '' @ em_dash @ '' extended capabilities''),
      builtin ''gpt-5.4-mini'' ''GPT-5.4 mini'' ''openai'' 400000 128000 (''Fast, affordable GPT-5.4 for everyday tasks''),
      builtin ''gpt-5.1-codex'' ''GPT-5.1 Codex'' ''openai'' 400000 128000 (''Coding-optimised GPT-5 '' @ em_dash @ '' excels at code generation and refactoring''),
      builtin ''gpt-5.1-codex-max'' ''GPT-5.1 Codex Max'' ''openai'' 400000 128000 (''Maximum-power Codex variant for large, complex codebases''),
      builtin ''gpt-4.1'' ''GPT-4.1'' ''openai'' 1047576 32768 (''Reliable all-rounder '' @ em_dash @ '' 1M context, strong instruction following''),
      builtin ''gpt-4.1-mini'' ''GPT-4.1 mini'' ''openai'' 1047576 32768 (''Lightweight GPT-4.1 '' @ em_dash @ '' fast and cost-efficient''),
      builtin ''gpt-4o'' ''GPT-4o'' ''openai'' 128000 16384 (''Multimodal GPT-4 '' @ em_dash @ '' vision + tool use''),
      builtin ''o3'' ''o3'' ''openai'' 200000 100000 (''Deep reasoning '' @ em_dash @ '' best for math, science, complex multi-step problems''),
      builtin ''o3-pro'' ''o3-pro'' ''openai'' 200000 100000 (''Premium reasoning model '' @ em_dash @ '' highest accuracy on hard problems''),
      builtin ''o4-mini'' ''o4-mini'' ''openai'' 200000 100000 (''Fast reasoning '' @ em_dash @ '' affordable o-series for agentic tasks''),
      builtin ''codex-mini-latest'' ''Codex mini'' ''openai'' 200000 100000 (''Compact coding-focused reasoning model'')
     ]"

text \<open>serde's reading and writing of a \<open>Model\<close>: every field is required, unknown ones are ignored.\<close>

definition as_u32 :: "json \<Rightarrow> nat option" where
  "as_u32 j = (case as_u64 j of Some n \<Rightarrow> if n < 2 ^ 32 then Some n else None | None \<Rightarrow> None)"

definition model_of_json :: "json \<Rightarrow> model option" where
  "model_of_json j =
     (case (jget_str ''id'' j, jget_str ''name'' j, jget_str ''provider'' j,
            Option.bind (jget ''max_tokens'' j) as_u32, Option.bind (jget ''context_length'' j) as_u32,
            jget_str ''description'' j, Option.bind (jget ''custom'' j) as_bool) of
        (Some i, Some n, Some p, Some mx, Some ctx, Some d, Some c) \<Rightarrow>
          Some \<lparr>model_id = i, model_name = n, provider = p, max_tokens = mx, context_length = ctx,
                description = d, custom = c\<rparr>
      | _ \<Rightarrow> None)"

definition model_to_json :: "model \<Rightarrow> json" where
  "model_to_json m = JObj
     [(''id'', JStr (model_id m)), (''name'', JStr (model_name m)), (''provider'', JStr (provider m)),
      (''max_tokens'', JInt (int (max_tokens m))), (''context_length'', JInt (int (context_length m))),
      (''description'', JStr (description m)), (''custom'', JBool (custom m))]"

definition list_models :: "disk \<Rightarrow> settings_file \<Rightarrow> settings_file \<times> model list res" where
  "list_models d f =
     (case get_setting d ''custom_models'' f of
        (f', Inr (Some (JArr xs))) \<Rightarrow> (f', Inr (builtin_models @ List.map_filter model_of_json xs))
      | (f', _) \<Rightarrow> (f', Inr builtin_models))"

definition find_model :: "disk \<Rightarrow> string \<Rightarrow> settings_file \<Rightarrow> settings_file \<times> model res" where
  "find_model d i f =
     (case list_models d f of
        (f', Inl e) \<Rightarrow> (f', Inl e)
      | (f', Inr ms) \<Rightarrow> (f', ok_or (''Model not found: '' @ i) (List.find (\<lambda>m. model_id m = i) ms)))"

definition get_selected_model :: "disk \<Rightarrow> settings_file \<Rightarrow> settings_file \<times> model res" where
  "get_selected_model d f =
     (case get_setting d ''model'' f of
        (f', Inl e) \<Rightarrow> (f', Inl e)
      | (f', Inr v) \<Rightarrow>
          find_model d (case Option.bind v as_str of Some s \<Rightarrow> s | None \<Rightarrow> ''claude-sonnet-4-6'') f')"

definition select_model :: "disk \<Rightarrow> string \<Rightarrow> settings_file \<Rightarrow> settings_file \<times> unit res" where
  "select_model d i f =
     (case find_model d i f of
        (f', Inl e) \<Rightarrow> (f', Inl e)
      | (f', Inr _) \<Rightarrow> set_setting d ''model'' (JStr i) f')"

definition custom_array :: "json option \<Rightarrow> json list" where
  "custom_array v = (case v of Some (JArr xs) \<Rightarrow> xs | _ \<Rightarrow> [])"

definition add_custom_model :: "disk \<Rightarrow> model \<Rightarrow> settings_file \<Rightarrow> settings_file \<times> unit res" where
  "add_custom_model d m f =
     (if \<not> custom m then (f, Inl ''Custom models must have custom=true'')
      else
        (case get_setting d ''custom_models'' f of
           (f', Inl e) \<Rightarrow> (f', Inl e)
         | (f', Inr v) \<Rightarrow>
             set_setting d ''custom_models'' (JArr (custom_array v @ [model_to_json m])) f'))"

definition remove_custom_model :: "disk \<Rightarrow> string \<Rightarrow> settings_file \<Rightarrow> settings_file \<times> bool res" where
  "remove_custom_model d i f =
     (case find_model d i f of
        (f1, Inl e) \<Rightarrow> (f1, Inl e)
      | (f1, Inr m) \<Rightarrow>
          if \<not> custom m then (f1, Inl ''Cannot remove builtin models'')
          else
            (case get_setting d ''custom_models'' f1 of
               (f2, Inl e) \<Rightarrow> (f2, Inl e)
             | (f2, Inr v) \<Rightarrow>
                 let kept = filter (\<lambda>j. jget_str ''id'' j \<noteq> Some i) (custom_array v) in
                 if length kept < length (custom_array v)
                 then (case set_setting d ''custom_models'' (JArr kept) f2 of
                         (f3, Inl e) \<Rightarrow> (f3, Inl e) | (f3, Inr _) \<Rightarrow> (f3, Inr True))
                 else (f2, Inr False)))"

section \<open>Endpoints\<close>

text \<open>\<open>has_auth\<close> says for which providers a credential is found.\<close>

definition models_list :: "disk \<Rightarrow> (string \<Rightarrow> bool) \<Rightarrow> settings_file \<Rightarrow> settings_file \<times> response" where
  "models_list d has_auth f =
     (case list_models d f of
        (f1, Inl e) \<Rightarrow> (f1, 200, err_body e)
      | (f1, Inr all) \<Rightarrow>
          (let configured = filter has_auth [''anthropic'', ''openai'', ''google'', ''cohere''];
               show_all = (configured = []);
               filtered = filter (\<lambda>m. custom m \<or> show_all \<or> provider m \<in> set configured) all
           in case get_selected_model d f1 of
                (f2, r) \<Rightarrow>
                  (f2, 200, ok_body [(''models'', JArr (map model_to_json filtered)),
                     (''currentModel'', (case r of Inr m \<Rightarrow> model_to_json m | Inl _ \<Rightarrow> JNull))])))"

definition models_get_selected :: "disk \<Rightarrow> settings_file \<Rightarrow> settings_file \<times> response" where
  "models_get_selected d f =
     (case get_selected_model d f of
        (f', Inr m) \<Rightarrow> (f', 200, ok_body [(''model'', model_to_json m)])
      | (f', Inl e) \<Rightarrow> (f', 200, err_body e))"

definition models_select :: "disk \<Rightarrow> string \<Rightarrow> settings_file \<Rightarrow> settings_file \<times> response" where
  "models_select d i f =
     (case select_model d i f of
        (f', Inr _) \<Rightarrow> (f', 200, ok_body [(''selected'', JStr i)]) | (f', Inl e) \<Rightarrow> (f', 500, err_body e))"

text \<open>\<open>invalid\<close> is serde's message for a body that is not a model.\<close>

definition models_add :: "disk \<Rightarrow> string \<Rightarrow> json \<Rightarrow> settings_file \<Rightarrow> settings_file \<times> response" where
  "models_add d invalid body f =
     (case model_of_json body of
        None \<Rightarrow> (f, 400, err_body (''Invalid model format: '' @ invalid))
      | Some m \<Rightarrow>
          (case add_custom_model d m f of
             (f', Inr _) \<Rightarrow> (f', 201, ok_body []) | (f', Inl e) \<Rightarrow> (f', 500, err_body e)))"

definition models_remove :: "disk \<Rightarrow> string \<Rightarrow> settings_file \<Rightarrow> settings_file \<times> response" where
  "models_remove d i f =
     (case remove_custom_model d i f of
        (f', Inr True) \<Rightarrow> (f', 200, ok_body [(''removed'', JBool True)])
      | (f', Inr False) \<Rightarrow> (f', 404, err_body ''Model not found or is builtin'')
      | (f', Inl e) \<Rightarrow> (f', 500, err_body e))"

section \<open>Properties\<close>

text \<open>What the settings say about models.\<close>

definition customs :: "settings_file \<Rightarrow> json list" where
  "customs f = custom_array (settings_view f ''custom_models'')"

definition models_of :: "settings_file \<Rightarrow> model list" where
  "models_of f = builtin_models @ List.map_filter model_of_json (customs f)"

lemma view_cong:
  "settings_view f' = settings_view f \<Longrightarrow> customs f' = customs f \<and> models_of f' = models_of f"
  by (simp add: customs_def models_of_def)

lemma list_models_ok:
  assumes "settings_ok f"
  shows "\<exists>f'. list_models disk_ok f = (f', Inr (models_of f)) \<and> settings_ok f' \<and>
    settings_view f' = settings_view f"
proof -
  from settings.get_law [OF assms, of "''custom_models''"] obtain f' where
    "get_setting disk_ok ''custom_models'' f = (f', Inr (settings_view f ''custom_models''))"
    "settings_ok f'" "settings_view f' = settings_view f" by blast
  then show ?thesis
    by (auto simp: list_models_def models_of_def customs_def custom_array_def List.map_filter_simps
        split: option.splits json.splits)
qed

lemma find_model_ok:
  assumes "settings_ok f"
  shows "\<exists>f'. find_model disk_ok i f =
      (f', ok_or (''Model not found: '' @ i) (List.find (\<lambda>m. model_id m = i) (models_of f))) \<and>
    settings_ok f' \<and> settings_view f' = settings_view f"
proof -
  from list_models_ok [OF assms] obtain f' where "list_models disk_ok f = (f', Inr (models_of f))"
    "settings_ok f'" "settings_view f' = settings_view f" by blast
  then show ?thesis by (simp add: find_model_def)
qed

lemma get_selected_ok:
  assumes "settings_ok f" "settings_view f ''model'' = Some (JStr i)"
  shows "snd (get_selected_model disk_ok f) =
    ok_or (''Model not found: '' @ i) (List.find (\<lambda>m. model_id m = i) (models_of f))"
proof -
  from settings.get_law [OF assms(1), of "''model''"] obtain f' where
    g: "get_setting disk_ok ''model'' f = (f', Inr (settings_view f ''model''))"
    "settings_ok f'" "settings_view f' = settings_view f" by blast
  from find_model_ok [OF g(2), of i] obtain f'' where
    "find_model disk_ok i f' =
      (f'', ok_or (''Model not found: '' @ i) (List.find (\<lambda>m. model_id m = i) (models_of f')))" by blast
  then show ?thesis using g assms(2) view_cong [OF g(3)] by (simp add: get_selected_model_def)
qed

lemma select_model_ok:
  assumes "settings_ok f" "List.find (\<lambda>m. model_id m = i) (models_of f) = Some m"
  shows "\<exists>f'. select_model disk_ok i f = (f', Inr ()) \<and> settings_ok f' \<and>
    settings_view f' = (settings_view f)(''model'' \<mapsto> JStr i)"
proof -
  from find_model_ok [OF assms(1), of i] assms(2) obtain f1 where
    f1: "find_model disk_ok i f = (f1, Inr m)" "settings_ok f1" "settings_view f1 = settings_view f"
    by auto
  from settings.put_law [OF f1(2), of "''model''" "JStr i"] f1 show ?thesis
    by (auto simp: select_model_def)
qed

lemma customs_upd:
  "settings_view f' = (settings_view f)(''model'' \<mapsto> v) \<Longrightarrow> customs f' = customs f \<and> models_of f' = models_of f"
  "settings_view f' = (settings_view f)(''custom_models'' \<mapsto> JArr xs) \<Longrightarrow> customs f' = xs"
  by (simp_all add: customs_def models_of_def custom_array_def)

text \<open>Selecting a model works exactly for the listed ones: with a working disk, if some listed
  model has the id, the call succeeds, the selected model is then the first one with that id and
  the list is unchanged; otherwise it fails and every setting keeps its value.\<close>

theorem select_model_selects:
  assumes "settings_ok f"
  shows "case List.find (\<lambda>m. model_id m = i) (models_of f) of
      Some m \<Rightarrow> snd (select_model disk_ok i f) = Inr () \<and>
        snd (get_selected_model disk_ok (fst (select_model disk_ok i f))) = Inr m \<and>
        models_of (fst (select_model disk_ok i f)) = models_of f
    | None \<Rightarrow> snd (select_model disk_ok i f) = Inl (''Model not found: '' @ i) \<and>
        settings_view (fst (select_model disk_ok i f)) = settings_view f"
proof (cases "List.find (\<lambda>m. model_id m = i) (models_of f)")
  case None
  from find_model_ok [OF assms, of i] None show ?thesis by (auto simp: select_model_def)
next
  case (Some m)
  from select_model_ok [OF assms Some] obtain f' where
    f': "select_model disk_ok i f = (f', Inr ())" "settings_ok f'"
      "settings_view f' = (settings_view f)(''model'' \<mapsto> JStr i)" by blast
  have "snd (get_selected_model disk_ok f') = Inr m"
    using get_selected_ok [OF f'(2), of i] f'(3) Some customs_upd(1) [OF f'(3)] by simp
  then show ?thesis using Some f' customs_upd(1) [OF f'(3)] by simp
qed

lemma fresh_settings_ok: "settings_ok Absent"
  by (simp add: settings_ok_def settings_value_def default_settings_def)

theorem select_model_selects_witness:
  "snd (select_model disk_ok ''none'' Absent) = Inl (''Model not found: '' @ ''none'')"
proof -
  have "customs Absent = []"
    by (simp add: customs_def settings_view_def settings_value_def default_settings_def custom_array_def)
  then have "models_of Absent = builtin_models" by (simp add: models_of_def List.map_filter_simps)
  then have "List.find (\<lambda>m. model_id m = ''none'') (models_of Absent) = None"
    by (simp add: builtin_models_def builtin_def)
  with select_model_selects [OF fresh_settings_ok, of "''none''"] show ?thesis by simp
qed

lemma model_round_trip:
  "max_tokens m < 2 ^ 32 \<Longrightarrow> context_length m < 2 ^ 32 \<Longrightarrow> model_of_json (model_to_json m) = Some m"
  by (simp add: model_of_json_def model_to_json_def jget_str_def as_u32_def as_u64_def as_bool_def)

lemma model_to_json_id [simp]: "jget_str ''id'' (model_to_json m) = Some (model_id m)"
  by (simp add: model_to_json_def jget_str_def)

lemma map_filter_append: "List.map_filter g (xs @ ys) = List.map_filter g xs @ List.map_filter g ys"
  by (induction xs) (auto simp: List.map_filter_simps split: option.splits)

lemma add_custom_ok:
  assumes "settings_ok f" "custom m"
  shows "\<exists>f'. add_custom_model disk_ok m f = (f', Inr ()) \<and> settings_ok f' \<and>
    settings_view f' = (settings_view f)(''custom_models'' \<mapsto> JArr (customs f @ [model_to_json m]))"
proof -
  from settings.get_law [OF assms(1), of "''custom_models''"] obtain f1 where
    g: "get_setting disk_ok ''custom_models'' f = (f1, Inr (settings_view f ''custom_models''))"
    "settings_ok f1" "settings_view f1 = settings_view f" by blast
  from settings.put_law [OF g(2), of "''custom_models''" "JArr (customs f @ [model_to_json m])"]
  show ?thesis using g assms(2) by (auto simp: add_custom_model_def customs_def)
qed

lemma remove_custom_ok:
  assumes "settings_ok f" "List.find (\<lambda>m. model_id m = i) (models_of f) = Some m" "custom m"
    and "\<exists>j \<in> set (customs f). jget_str ''id'' j = Some i"
  shows "\<exists>f'. remove_custom_model disk_ok i f = (f', Inr True) \<and> settings_ok f' \<and>
    settings_view f' = (settings_view f)(''custom_models'' \<mapsto>
      JArr (filter (\<lambda>j. jget_str ''id'' j \<noteq> Some i) (customs f)))"
proof -
  let ?kept = "filter (\<lambda>j. jget_str ''id'' j \<noteq> Some i) (customs f)"
  from find_model_ok [OF assms(1), of i] assms(2) obtain f1 where
    f1: "find_model disk_ok i f = (f1, Inr m)" "settings_ok f1" "settings_view f1 = settings_view f"
    by auto
  from settings.get_law [OF f1(2), of "''custom_models''"] obtain f2 where
    f2: "get_setting disk_ok ''custom_models'' f1 = (f2, Inr (settings_view f1 ''custom_models''))"
    "settings_ok f2" "settings_view f2 = settings_view f1" by blast
  from settings.put_law [OF f2(2), of "''custom_models''" "JArr ?kept"] obtain f3 where
    f3: "set_setting disk_ok ''custom_models'' (JArr ?kept) f2 = (f3, Inr ())" "settings_ok f3"
    "settings_view f3 = (settings_view f2)(''custom_models'' \<mapsto> JArr ?kept)" by blast
  have c: "custom_array (settings_view f1 ''custom_models'') = customs f"
    by (simp add: f1(3) customs_def)
  have "length ?kept < length (customs f)"
    using assms(4) by (auto intro: length_filter_less)
  then show ?thesis
    using f1 f2 f3 c assms(3) by (simp add: remove_custom_model_def Let_def)
qed

text \<open>Custom models: adding one appends it to the list, with its fields read back as they were
  written. If its id is new, removing it restores the list; but if it was selected before, the
  selection then names no model and asking for the selected model fails. If its id is that of a
  builtin model it can neither be found (the builtin one is) nor ever be removed.\<close>

theorem custom_model_life:
  assumes "settings_ok f" "custom m" "max_tokens m < 2 ^ 32" "context_length m < 2 ^ 32"
    and "f1 = fst (add_custom_model disk_ok m f)"
    and "f2 = fst (select_model disk_ok (model_id m) f1)"
    and "f3 = fst (remove_custom_model disk_ok (model_id m) f2)"
  shows "snd (add_custom_model disk_ok m f) = Inr () \<and> models_of f1 = models_of f @ [m] \<and>
    (model_id m \<in> model_id ` set builtin_models \<longrightarrow>
       snd (remove_custom_model disk_ok (model_id m) f1) = Inl ''Cannot remove builtin models'') \<and>
    (model_id m \<notin> model_id ` set builtin_models \<and>
       (\<forall>j \<in> set (customs f). jget_str ''id'' j \<noteq> Some (model_id m)) \<longrightarrow>
       models_of f3 = models_of f \<and>
       snd (get_selected_model disk_ok f3) = Inl (''Model not found: '' @ model_id m))"
proof (intro conjI impI)
  let ?i = "model_id m"
  from add_custom_ok [OF assms(1,2)] assms(5) have
    a: "snd (add_custom_model disk_ok m f) = Inr ()" "settings_ok f1"
      "settings_view f1 = (settings_view f)(''custom_models'' \<mapsto> JArr (customs f @ [model_to_json m]))"
    by auto
  have cus: "customs f1 = customs f @ [model_to_json m]" by (rule customs_upd(2) [OF a(3)])
  show "snd (add_custom_model disk_ok m f) = Inr ()" by (rule a)
  show mo: "models_of f1 = models_of f @ [m]"
    using model_round_trip [OF assms(3,4)]
    by (simp add: models_of_def cus map_filter_append List.map_filter_simps)
  show "snd (remove_custom_model disk_ok ?i f1) = Inl ''Cannot remove builtin models''"
    if "?i \<in> model_id ` set builtin_models"
  proof -
    from that obtain b where b: "List.find (\<lambda>m. model_id m = ?i) builtin_models = Some b"
      by (cases "List.find (\<lambda>m. model_id m = ?i) builtin_models") (auto simp: find_None_iff)
    then have "b \<in> set builtin_models" using find_Some_mem by fast
    then have "\<not> custom b" by (auto simp: builtin_models_def builtin_def)
    moreover have "List.find (\<lambda>m. model_id m = ?i) (builtin_models @ xs) = Some b" for xs
      using b by (simp add: find_append)
    then have "List.find (\<lambda>m. model_id m = ?i) (models_of f1) = Some b" by (simp add: models_of_def)
    ultimately show ?thesis
      using find_model_ok [OF a(2), of ?i] by (auto simp: remove_custom_model_def)
  qed
  assume new: "?i \<notin> model_id ` set builtin_models \<and> (\<forall>j \<in> set (customs f). jget_str ''id'' j \<noteq> Some ?i)"
  have ids: "model_id x \<noteq> ?i" if "x \<in> set (models_of f)" for x
  proof
    assume eq: "model_id x = ?i"
    have "x \<notin> set builtin_models" using new eq by (metis imageI)
    with that have "x \<in> set (List.map_filter model_of_json (customs f))"
      by (simp add: models_of_def)
    then obtain j where "j \<in> set (customs f)" "model_of_json j = Some x"
      by (auto simp: filter_map_conv)
    moreover from this have "jget_str ''id'' j = Some (model_id x)"
      by (auto simp: model_of_json_def split: option.splits)
    ultimately show False using new eq by auto
  qed
  then have find: "List.find (\<lambda>m. model_id m = ?i) (models_of f) = None" by (auto simp: find_None_iff)
  then have find1: "List.find (\<lambda>x. model_id x = ?i) (models_of f1) = Some m"
    by (simp add: mo find_append)
  from select_model_ok [OF a(2) find1] assms(6) have
    s: "settings_ok f2" "settings_view f2 = (settings_view f1)(''model'' \<mapsto> JStr ?i)" by auto
  note u = customs_upd(1) [OF s(2)]
  from find1 u have find2: "List.find (\<lambda>x. model_id x = ?i) (models_of f2) = Some m" by simp
  have "\<exists>j \<in> set (customs f2). jget_str ''id'' j = Some ?i" using u cus by simp
  from remove_custom_ok [OF s(1) find2 assms(2) this] assms(7) have
    r: "settings_ok f3" "settings_view f3 = (settings_view f2)(''custom_models'' \<mapsto>
        JArr (filter (\<lambda>j. jget_str ''id'' j \<noteq> Some ?i) (customs f2)))" by auto
  have "customs f3 = customs f"
    using customs_upd(2) [OF r(2)] u cus new by (simp add: filter_id_conv)
  then show restored: "models_of f3 = models_of f" by (simp add: models_of_def)
  have "settings_view f3 ''model'' = Some (JStr ?i)" by (simp add: r(2) s(2))
  then show "snd (get_selected_model disk_ok f3) = Inl (''Model not found: '' @ ?i)"
    using get_selected_ok [OF r(1), of ?i] restored find by simp
qed

theorem custom_model_life_witness:
  "snd (remove_custom_model disk_ok ''o3''
     (fst (add_custom_model disk_ok \<lparr>model_id = ''o3'', model_name = ''mine'', provider = ''x'',
        max_tokens = 1, context_length = 1, description = [], custom = True\<rparr> Absent))) =
   Inl ''Cannot remove builtin models''"
proof -
  have "''o3'' \<in> model_id ` set builtin_models" by (simp add: builtin_models_def builtin_def)
  then show ?thesis
    using custom_model_life [OF fresh_settings_ok, of "\<lparr>model_id = ''o3'', model_name = ''mine'',
      provider = ''x'', max_tokens = 1, context_length = 1, description = [], custom = True\<rparr>"]
    by simp
qed

end
