(* ===== verification/Sessions.thy ===== *)
theory Sessions
  imports Json_Value "HOL-Library.Multiset"
begin

text \<open>
  The session store of \<open>src-tauri/src/server/sessions.rs\<close> and its endpoints.

  \<open>files\<close> is the file system as far as regular files go: a map from absolute paths to what reading
  and parsing the file gives. Creating directories, writing, renaming and removing may fail, as
  \<open>faults\<close> says; a write that fails leaves the file as it was. The crates uuid and chrono are arguments: \<open>uuid_ok\<close> tells which strings
  \<open>Uuid::parse_str\<close> accepts, \<open>rfc3339\<close> parses a time stamp to nanoseconds. So are \<open>realpath\<close> for
  \<open>canonicalize\<close>, and the order in which \<open>read_dir\<close> lists a directory.
\<close>

datatype session_file = Broken string | NotJson string | Doc json

type_synonym files = "string \<rightharpoonup> session_file"

definition sessions_dir :: "string option \<Rightarrow> string" where
  "sessions_dir home = (case home of None \<Rightarrow> ''~'' | Some h \<Rightarrow> h) @ ''/.pi/sessions''"

definition archive_dir :: "string option \<Rightarrow> string" where
  "archive_dir home = sessions_dir home @ ''/archive''"

definition json_name :: "string \<Rightarrow> string" where
  "json_name i = i @ ''.json''"

definition in_dir :: "string \<Rightarrow> string \<Rightarrow> string" where
  "in_dir d n = d @ ''/'' @ n"

definition active_path :: "string option \<Rightarrow> string \<Rightarrow> string" where
  "active_path home i = in_dir (sessions_dir home) (json_name i)"

definition archive_path :: "string option \<Rightarrow> string \<Rightarrow> string" where
  "archive_path home i = in_dir (archive_dir home) (json_name i)"

section \<open>Operations by id\<close>

definition validate_session_id :: "(string \<Rightarrow> bool) \<Rightarrow> string \<Rightarrow> unit res" where
  "validate_session_id uuid_ok i = (if uuid_ok i then Inr () else Inl ''Invalid session ID format'')"

definition read_session :: "session_file \<Rightarrow> json res" where
  "read_session c =
     (case c of
        Broken e \<Rightarrow> Inl (''Failed to read session: '' @ e)
      | NotJson e \<Rightarrow> Inl (''Invalid session JSON: '' @ e)
      | Doc j \<Rightarrow> Inr j)"

definition load_session ::
  "(string \<Rightarrow> bool) \<Rightarrow> string option \<Rightarrow> string \<Rightarrow> files \<Rightarrow> json option res" where
  "load_session uuid_ok home i fs =
     (case validate_session_id uuid_ok i of
        Inl e \<Rightarrow> Inl e
      | Inr _ \<Rightarrow>
          (case fs (active_path home i) of
             None \<Rightarrow> Inr None
           | Some c \<Rightarrow> (case read_session c of Inl e \<Rightarrow> Inl e | Inr j \<Rightarrow> Inr (Some j))))"

text \<open>\<open>uuid\<close> is the generated id, \<open>now1\<close> and \<open>now2\<close> the two readings of the clock.\<close>

definition stamp_new :: "string \<Rightarrow> string \<Rightarrow> string \<Rightarrow> json \<Rightarrow> json" where
  "stamp_new uuid now1 now2 j =
     (case j of
        JObj kvs \<Rightarrow> JObj (AList.update ''id'' (JStr uuid) (AList.update ''updated_at'' (JStr now2)
          (AList.update ''created_at'' (JStr now1) kvs)))
      | _ \<Rightarrow> j)"

definition create_session ::
  "faults \<Rightarrow> string option \<Rightarrow> string \<Rightarrow> string \<Rightarrow> string \<Rightarrow> json \<Rightarrow> files \<Rightarrow> files \<times> string res" where
  "create_session f home uuid now1 now2 j fs =
     (case f 0 of Some e \<Rightarrow> (fs, Inl (''Failed to create sessions directory: '' @ e)) | None \<Rightarrow>
      (case f 1 of Some e \<Rightarrow> (fs, Inl (''Failed to create session: '' @ e)) | None \<Rightarrow>
         (fs(active_path home uuid \<mapsto> Doc (stamp_new uuid now1 now2 j)), Inr uuid)))"

definition stamp_update :: "string \<Rightarrow> json \<Rightarrow> json" where
  "stamp_update now j =
     (case j of JObj kvs \<Rightarrow> JObj (AList.update ''updated_at'' (JStr now) kvs) | _ \<Rightarrow> j)"

definition update_session ::
  "(string \<Rightarrow> bool) \<Rightarrow> faults \<Rightarrow> string option \<Rightarrow> string \<Rightarrow> string \<Rightarrow> json \<Rightarrow> files \<Rightarrow> files \<times> unit res" where
  "update_session uuid_ok f home now i j fs =
     (case validate_session_id uuid_ok i of
        Inl e \<Rightarrow> (fs, Inl e)
      | Inr _ \<Rightarrow>
          if fs (active_path home i) = None then (fs, Inl (''Session not found: '' @ i))
          else
            (case f 0 of Some e \<Rightarrow> (fs, Inl (''Failed to update session: '' @ e)) | None \<Rightarrow>
               (fs(active_path home i \<mapsto> Doc (stamp_update now j)), Inr ())))"

text \<open>\<open>fs::rename\<close>: the destination is replaced.\<close>

definition rename_file :: "string \<Rightarrow> string \<Rightarrow> files \<Rightarrow> files" where
  "rename_file src dst fs = (fs(src := None))(dst := fs src)"

definition archive_session ::
  "(string \<Rightarrow> bool) \<Rightarrow> faults \<Rightarrow> string option \<Rightarrow> string \<Rightarrow> files \<Rightarrow> files \<times> bool res" where
  "archive_session uuid_ok f home i fs =
     (case validate_session_id uuid_ok i of
        Inl e \<Rightarrow> (fs, Inl e)
      | Inr _ \<Rightarrow>
          if fs (active_path home i) = None then (fs, Inr False)
          else
            (case f 0 of Some e \<Rightarrow> (fs, Inl (''Failed to create archive directory: '' @ e)) | None \<Rightarrow>
             (case f 1 of Some e \<Rightarrow> (fs, Inl (''Failed to archive session: '' @ e)) | None \<Rightarrow>
                (rename_file (active_path home i) (archive_path home i) fs, Inr True))))"

definition unarchive_session ::
  "(string \<Rightarrow> bool) \<Rightarrow> faults \<Rightarrow> string option \<Rightarrow> string \<Rightarrow> files \<Rightarrow> files \<times> bool res" where
  "unarchive_session uuid_ok f home i fs =
     (case validate_session_id uuid_ok i of
        Inl e \<Rightarrow> (fs, Inl e)
      | Inr _ \<Rightarrow>
          if fs (archive_path home i) = None then (fs, Inr False)
          else
            (case f 0 of Some e \<Rightarrow> (fs, Inl (''Failed to create sessions directory: '' @ e)) | None \<Rightarrow>
             (case f 1 of Some e \<Rightarrow> (fs, Inl (''Failed to unarchive session: '' @ e)) | None \<Rightarrow>
                (rename_file (archive_path home i) (active_path home i) fs, Inr True))))"

section \<open>Operations by path\<close>

text \<open>\<open>Path::file_name\<close> of a path without a trailing slash, and \<open>Path::extension\<close>.\<close>

definition file_name :: "string \<Rightarrow> string option" where
  "file_name p =
     (case filter (\<lambda>c. c \<noteq> [] \<and> c \<noteq> ''.'') (split_on (CHR ''/'') p) of
        [] \<Rightarrow> None
      | cs \<Rightarrow> if last cs = ''..'' then None else Some (last cs))"

definition has_json_extension :: "string \<Rightarrow> bool" where
  "has_json_extension n = (5 < length n \<and> suffix ''.json'' n)"

definition set_archived_by_path ::
  "(string \<Rightarrow> bool) \<Rightarrow> faults \<Rightarrow> string option \<Rightarrow> string \<Rightarrow> bool \<Rightarrow> files \<Rightarrow> files \<times> bool res" where
  "set_archived_by_path uuid_ok f home path archived fs =
     (case file_name path of
        None \<Rightarrow> (fs, Inl ''Invalid path: no filename'')
      | Some n \<Rightarrow>
          let i = (case strip_suffix ''.json'' n of Some s \<Rightarrow> s | None \<Rightarrow> n) in
          if archived then archive_session uuid_ok f home i fs
          else unarchive_session uuid_ok f home i fs)"

text \<open>\<open>Path::starts_with\<close> on the paths that occur: whole components.\<close>

definition path_starts_with :: "string \<Rightarrow> string \<Rightarrow> bool" where
  "path_starts_with p d = (p = d \<or> prefix (d @ ''/'') p)"

definition or_insert :: "string \<Rightarrow> json \<Rightarrow> (string \<times> json) list \<Rightarrow> (string \<times> json) list" where
  "or_insert k v kvs = (if map_of kvs k = None then AList.update k v kvs else kvs)"

definition load_session_by_path ::
  "(string \<Rightarrow> string option) \<Rightarrow> string option \<Rightarrow> string \<Rightarrow> files \<Rightarrow> json option res" where
  "load_session_by_path realpath home path fs =
     (let root = (case realpath (sessions_dir home) of None \<Rightarrow> sessions_dir home | Some d \<Rightarrow> d) in
      case realpath path of
        None \<Rightarrow> Inl (''Session file not found: '' @ path)
      | Some p \<Rightarrow>
          if \<not> path_starts_with p root then Inl ''Access denied: path is outside sessions directory''
          else
            (case fs p of
               None \<Rightarrow> Inr None
             | Some c \<Rightarrow>
                 (case read_session c of
                    Inl e \<Rightarrow> Inl e
                  | Inr (JObj kvs) \<Rightarrow>
                      Inr (Some (JObj (or_insert ''archived'' (JBool (path_starts_with p (archive_dir home)))
                        (AList.update ''path'' (JStr p) kvs))))
                  | Inr j \<Rightarrow> Inr (Some j))))"

section \<open>Listing and expiry\<close>

definition is_session_expired :: "(string \<Rightarrow> int option) \<Rightarrow> int \<Rightarrow> json \<Rightarrow> bool" where
  "is_session_expired rfc3339 now j =
     (case Option.bind (jget_str ''created_at'' j) rfc3339 of
        None \<Rightarrow> False
      | Some t \<Rightarrow> t + 30 * 86400 * 1000000000 < now)"

text \<open>The loop over the entries of the directory; \<open>rm_error\<close> is what removing a file fails with.
  The directory \<open>archive\<close> is an entry as well, and skipped by its name.\<close>

fun cleanup_entries ::
  "(string \<Rightarrow> int option) \<Rightarrow> (string \<Rightarrow> string option) \<Rightarrow> int \<Rightarrow> string option \<Rightarrow> string list
     \<Rightarrow> files \<times> nat \<Rightarrow> files \<times> nat" where
  "cleanup_entries rfc3339 rm_error now home [] (fs, k) = (fs, k)"
| "cleanup_entries rfc3339 rm_error now home (n # ns) (fs, k) =
     cleanup_entries rfc3339 rm_error now home ns
       (if n = ''archive'' \<or> \<not> has_json_extension n then (fs, k)
        else
          (case fs (in_dir (sessions_dir home) n) of
             Some (Doc j) \<Rightarrow>
               if is_session_expired rfc3339 now j \<and> rm_error n = None
               then (fs(in_dir (sessions_dir home) n := None), k + 1) else (fs, k)
           | _ \<Rightarrow> (fs, k)))"

definition cleanup_expired_sessions ::
  "(string \<Rightarrow> int option) \<Rightarrow> (string \<Rightarrow> string option) \<Rightarrow> int \<Rightarrow> string option \<Rightarrow> string list option
     \<Rightarrow> files \<Rightarrow> files \<times> nat res" where
  "cleanup_expired_sessions rfc3339 rm_error now home entries fs =
     (case entries of
        None \<Rightarrow> (fs, Inr 0)
      | Some ns \<Rightarrow> (case cleanup_entries rfc3339 rm_error now home ns (fs, 0) of (fs', k) \<Rightarrow> (fs', Inr k)))"

definition listed :: "bool \<Rightarrow> string \<Rightarrow> files \<Rightarrow> string \<Rightarrow> json list" where
  "listed in_archive dir fs n =
     (if \<not> has_json_extension n then []
      else
        (case fs (in_dir dir n) of
           Some (Doc (JObj kvs)) \<Rightarrow>
             let kvs1 = AList.update ''path'' (JStr (in_dir dir n)) kvs in
             [JObj (if in_archive then AList.update ''archived'' (JBool True) kvs1
                    else or_insert ''archived'' (JBool False) kvs1)]
         | Some (Doc j) \<Rightarrow> [j]
         | _ \<Rightarrow> []))"

definition modified :: "json \<Rightarrow> string" where
  "modified j =
     (case Option.bind (case jget ''updated_at'' j of None \<Rightarrow> jget ''created_at'' j | v \<Rightarrow> v) as_str of
        None \<Rightarrow> [] | Some t \<Rightarrow> t)"

definition list_sessions_all ::
  "faults \<Rightarrow> string option \<Rightarrow> string list \<Rightarrow> string list \<Rightarrow> bool \<Rightarrow> files \<Rightarrow> json list res" where
  "list_sessions_all f home names archived_names include_archived fs =
     (case f 0 of Some e \<Rightarrow> Inl (''Failed to create sessions directory: '' @ e) | None \<Rightarrow>
        let found = concat (map (listed False (sessions_dir home) fs) names) @
              (if include_archived then concat (map (listed True (archive_dir home) fs) archived_names)
               else [])
        in Inr (rev (sort_key modified (rev found))))"


section \<open>Runs of operations\<close>

datatype session_op =
    Create faults string string string json
  | Update faults string string json
  | Archive faults string
  | Unarchive faults string
  | ArchivePath faults string bool
  | Cleanup "string \<Rightarrow> string option" int "string list"

fun exec_session ::
  "(string \<Rightarrow> bool) \<Rightarrow> (string \<Rightarrow> int option) \<Rightarrow> string option \<Rightarrow> session_op \<Rightarrow> files \<Rightarrow> files" where
  "exec_session ok rfc home (Create f u n1 n2 j) fs = fst (create_session f home u n1 n2 j fs)"
| "exec_session ok rfc home (Update f n i j) fs = fst (update_session ok f home n i j fs)"
| "exec_session ok rfc home (Archive f i) fs = fst (archive_session ok f home i fs)"
| "exec_session ok rfc home (Unarchive f i) fs = fst (unarchive_session ok f home i fs)"
| "exec_session ok rfc home (ArchivePath f p b) fs = fst (set_archived_by_path ok f home p b fs)"
| "exec_session ok rfc home (Cleanup rm now ns) fs =
     fst (cleanup_expired_sessions rfc rm now home (Some ns) fs)"

text \<open>What the operations are given: generated ids, and directory entries.\<close>

fun op_ok :: "(string \<Rightarrow> bool) \<Rightarrow> session_op \<Rightarrow> bool" where
  "op_ok ok (Create f u n1 n2 j) = ok u"
| "op_ok ok (Cleanup rm now ns) = list_all (\<lambda>n. CHR ''/'' \<notin> set n) ns"
| "op_ok ok _ = True"

fun created :: "session_op \<Rightarrow> string list" where
  "created (Create f u n1 n2 j) = [u]"
| "created _ = []"

fun is_cleanup :: "session_op \<Rightarrow> bool" where
  "is_cleanup (Cleanup rm now ns) = True"
| "is_cleanup _ = False"

definition slash_free :: "(string \<Rightarrow> bool) \<Rightarrow> bool" where
  "slash_free ok = (\<forall>i. ok i \<longrightarrow> CHR ''/'' \<notin> set i)"

lemma in_dir_inj [simp]: "in_dir d n = in_dir d m \<longleftrightarrow> n = m"
  by (simp add: in_dir_def)

lemma json_name_inj [simp]: "json_name i = json_name j \<longleftrightarrow> i = j"
  by (simp add: json_name_def)

lemma json_name_slash [simp]: "CHR ''/'' \<in> set (json_name i) \<longleftrightarrow> CHR ''/'' \<in> set i"
  by (simp add: json_name_def)

lemma archive_in_dir: "in_dir (archive_dir home) n = in_dir (sessions_dir home) (''archive/'' @ n)"
  by (simp add: in_dir_def archive_dir_def)

lemma active_not_archive:
  "CHR ''/'' \<notin> set i \<Longrightarrow> active_path home i \<noteq> archive_path home j"
  by (auto simp: active_path_def archive_path_def archive_in_dir)
     (metis json_name_slash list.set_intros(1,2) append_Cons set_append UnI1)

lemma path_inj [simp]:
  "active_path home i = active_path home j \<longleftrightarrow> i = j"
  "archive_path home i = archive_path home j \<longleftrightarrow> i = j"
  by (simp_all add: active_path_def archive_path_def)

text \<open>The file \<open>p\<close> lies directly in the sessions directory or directly in the archive.\<close>

definition session_place :: "string option \<Rightarrow> string \<Rightarrow> bool" where
  "session_place home p =
     (\<exists>n. CHR ''/'' \<notin> set n \<and> (p = in_dir (sessions_dir home) n \<or> p = in_dir (archive_dir home) n))"

lemma session_place_paths:
  "CHR ''/'' \<notin> set i \<Longrightarrow> session_place home (active_path home i)"
  "CHR ''/'' \<notin> set i \<Longrightarrow> session_place home (archive_path home i)"
  unfolding session_place_def active_path_def archive_path_def by (metis json_name_slash)+

text \<open>Every operation is the identity, or stores one document, or moves one file.\<close>

lemma validate_Inr [simp]: "validate_session_id ok i = Inr u \<longleftrightarrow> ok i"
  by (simp add: validate_session_id_def)

lemma create_cases:
  "fst (create_session f home u n1 n2 j fs) = fs \<or>
   fst (create_session f home u n1 n2 j fs) = fs(active_path home u \<mapsto> Doc (stamp_new u n1 n2 j))"
  by (simp add: create_session_def split: option.splits)

lemma update_cases:
  "fst (update_session ok f home n i j fs) = fs \<or>
   ok i \<and> fs (active_path home i) \<noteq> None \<and>
   fst (update_session ok f home n i j fs) = fs(active_path home i \<mapsto> Doc (stamp_update n j))"
  by (auto simp: update_session_def split: option.splits sum.splits)

lemma archive_cases:
  "fst (archive_session ok f home i fs) = fs \<or>
   ok i \<and> fs (active_path home i) \<noteq> None \<and>
   fst (archive_session ok f home i fs) = rename_file (active_path home i) (archive_path home i) fs"
  by (auto simp: archive_session_def split: option.splits sum.splits)

lemma unarchive_cases:
  "fst (unarchive_session ok f home i fs) = fs \<or>
   ok i \<and> fs (archive_path home i) \<noteq> None \<and>
   fst (unarchive_session ok f home i fs) = rename_file (archive_path home i) (active_path home i) fs"
  by (auto simp: unarchive_session_def split: option.splits sum.splits)

lemma by_path_cases:
  "fst (set_archived_by_path ok f home p b fs) = fs \<or>
   (\<exists>i. fst (set_archived_by_path ok f home p b fs) =
      (if b then fst (archive_session ok f home i fs) else fst (unarchive_session ok f home i fs)))"
  by (auto simp: set_archived_by_path_def Let_def split: option.splits)

text \<open>What the cleanup does, as a function of the files it found.\<close>

definition removable ::
  "(string \<Rightarrow> int option) \<Rightarrow> (string \<Rightarrow> string option) \<Rightarrow> int \<Rightarrow> string option \<Rightarrow> files \<Rightarrow> string \<Rightarrow> bool" where
  "removable rfc rm now home fs n =
     (n \<noteq> ''archive'' \<and> has_json_extension n \<and> rm n = None \<and>
      (case fs (in_dir (sessions_dir home) n) of
         Some (Doc j) \<Rightarrow> is_session_expired rfc now j | _ \<Rightarrow> False))"

lemma cleanup_entries_spec:
  assumes "distinct ns"
  shows "cleanup_entries rfc rm now home ns (fs, k) =
    ((\<lambda>p. if \<exists>n \<in> set ns. removable rfc rm now home fs n \<and> p = in_dir (sessions_dir home) n
          then None else fs p),
     k + length (filter (removable rfc rm now home fs) ns))"
  using assms
proof (induction ns arbitrary: fs k)
  case Nil
  then show ?case by simp
next
  case (Cons n ns)
  let ?p = "in_dir (sessions_dir home) n" and ?R = "removable rfc rm now home fs"
  have step: "cleanup_entries rfc rm now home (n # ns) (fs, k) =
      cleanup_entries rfc rm now home ns (if ?R n then (fs(?p := None), k + 1) else (fs, k))"
    by (auto simp: removable_def split: option.split session_file.split)
  have same: "removable rfc rm now home (fs(?p := None)) m = ?R m" if "m \<in> set ns" for m
    using that Cons.prems by (auto simp: removable_def)
  have same_filter: "filter (removable rfc rm now home (fs(?p := None))) ns = filter ?R ns"
    by (rule filter_cong) (simp_all add: same)
  show ?case
  proof (cases "?R n")
    case True
    have "cleanup_entries rfc rm now home (n # ns) (fs, k) =
      ((\<lambda>p. if \<exists>m \<in> set ns. removable rfc rm now home (fs(?p := None)) m \<and> p = in_dir (sessions_dir home) m
          then None else (fs(?p := None)) p), k + 1 + length (filter ?R ns))"
      unfolding step if_P [OF True] using Cons.IH [of "fs(?p := None)" "k + 1"] Cons.prems
      by (simp only: same_filter distinct.simps)
    then show ?thesis using True same by (auto simp: fun_eq_iff)
  next
    case False
    then show ?thesis unfolding step using Cons.IH [of fs k] Cons.prems by (auto simp: fun_eq_iff)
  qed
qed

lemma rename_file_other: "p \<noteq> src \<Longrightarrow> p \<noteq> dst \<Longrightarrow> rename_file src dst fs p = fs p"
  by (simp add: rename_file_def)

lemma cleanup_files:
  "fst (cleanup_expired_sessions rfc rm now home (Some ns) fs) =
     fst (cleanup_entries rfc rm now home ns (fs, 0))"
  by (simp add: cleanup_expired_sessions_def split: prod.splits)

lemma cleanup_entries_frame:
  "(\<forall>n \<in> set ns. p \<noteq> in_dir (sessions_dir home) n) \<Longrightarrow>
     fst (cleanup_entries rfc rm now home ns (fs, k)) p = fs p"
  by (induction ns arbitrary: fs k) (auto split: option.split session_file.split)

lemma exec_confined:
  assumes "slash_free ok" "op_ok ok op" "\<not> session_place home p"
  shows "exec_session ok rfc home op fs p = fs p"
proof -
  have act: "ok i \<Longrightarrow> p \<noteq> active_path home i \<and> p \<noteq> archive_path home i" for i
    using assms(1,3) session_place_paths by (auto simp: slash_free_def)
  have arch: "fst (archive_session ok f home i fs) p = fs p" for f i
    using archive_cases [of ok f home i fs] act rename_file_other by metis
  have unarch: "fst (unarchive_session ok f home i fs) p = fs p" for f i
    using unarchive_cases [of ok f home i fs] act rename_file_other by metis
  show ?thesis
  proof (cases op)
    case (Create f u n1 n2 j)
    then show ?thesis using create_cases [of f home u n1 n2 j fs] act [of u] assms(2) by auto
  next
    case (Update f n i j)
    then show ?thesis using update_cases [of ok f home n i j fs] act [of i] by auto
  next
    case (Archive f i)
    then show ?thesis by (simp add: arch)
  next
    case (Unarchive f i)
    then show ?thesis by (simp add: unarch)
  next
    case (ArchivePath f q b)
    then show ?thesis
      using by_path_cases [of ok f home q b fs] arch unarch by (cases b) auto
  next
    case (Cleanup rm now ns)
    have "p \<noteq> in_dir (sessions_dir home) n" if "n \<in> set ns" for n
      using that assms(2,3) Cleanup by (auto simp: session_place_def list_all_iff)
    then show ?thesis using Cleanup by (simp add: cleanup_files cleanup_entries_frame)
  qed
qed

lemma execs_confined:
  "slash_free ok \<Longrightarrow> list_all (op_ok ok) ops \<Longrightarrow> \<not> session_place home p \<Longrightarrow>
     fold (exec_session ok rfc home) ops fs p = fs p"
  by (induction ops arbitrary: fs) (simp_all add: exec_confined)


definition demo_ok :: "string \<Rightarrow> bool" where
  "demo_ok i = (i \<in> {''u1'', ''u2''})"

lemma demo_slash_free: "slash_free demo_ok"
  by (auto simp: slash_free_def demo_ok_def)


section \<open>No session is lost\<close>

definition place :: "string option \<Rightarrow> files \<Rightarrow> string \<Rightarrow> bool \<times> bool" where
  "place home fs i = (fs (active_path home i) \<noteq> None, fs (archive_path home i) \<noteq> None)"

text \<open>\<open>known\<close> are the ids that have been created, \<open>kept\<close> those not exposed to a cleanup since.\<close>

definition place_ok :: "bool \<Rightarrow> bool \<Rightarrow> bool \<times> bool \<Rightarrow> bool" where
  "place_ok kept is_known pl =
     (pl \<noteq> (True, True) \<and> (if is_known then kept \<longrightarrow> pl \<noteq> (False, False) else pl = (False, False)))"

definition store_ok :: "string option \<Rightarrow> string set \<Rightarrow> string set \<Rightarrow> files \<Rightarrow> bool" where
  "store_ok home kept known fs =
     (\<forall>i. CHR ''/'' \<notin> set i \<longrightarrow> place_ok (i \<in> kept) (i \<in> known) (place home fs i))"

lemma place_ok_known: "place_ok kept k pl \<Longrightarrow> pl \<noteq> (False, False) \<Longrightarrow> k"
  by (auto simp: place_ok_def split: if_splits)

lemma place_ok_two: "place_ok True True pl \<longleftrightarrow> pl = (True, False) \<or> pl = (False, True)"
  by (cases pl) (auto simp: place_ok_def)

lemma place_ok_one: "place_ok kept True (True, False)" "place_ok kept True (False, True)"
  by (simp_all add: place_ok_def)

lemma place_upd:
  assumes "CHR ''/'' \<notin> set u"
  shows "place home (fs(active_path home u \<mapsto> c)) i = (i = u \<or> fst (place home fs i), snd (place home fs i))"
  using active_not_archive [OF assms, of home i] by (auto simp: place_def)

lemma place_archive:
  assumes "CHR ''/'' \<notin> set u" "CHR ''/'' \<notin> set i" "fs (active_path home u) \<noteq> None"
  shows "place home (rename_file (active_path home u) (archive_path home u) fs) i =
    (if i = u then (False, True) else place home fs i)"
  using active_not_archive [OF assms(1), of home i] active_not_archive [OF assms(1), of home u]
    active_not_archive [OF assms(2), of home u] assms(3)
  by (auto simp: place_def rename_file_def)

lemma place_unarchive:
  assumes "CHR ''/'' \<notin> set u" "CHR ''/'' \<notin> set i" "fs (archive_path home u) \<noteq> None"
  shows "place home (rename_file (archive_path home u) (active_path home u) fs) i =
    (if i = u then (True, False) else place home fs i)"
  using active_not_archive [OF assms(1), of home i] active_not_archive [OF assms(1), of home u]
    active_not_archive [OF assms(2), of home u] assms(3)
  by (auto simp: place_def rename_file_def)

lemma store_ok_cong:
  assumes "store_ok home kept known fs" "\<And>i. CHR ''/'' \<notin> set i \<Longrightarrow> place home fs' i = place home fs i"
  shows "store_ok home kept known fs'"
  using assms by (simp add: store_ok_def)

lemma store_ok_archive:
  assumes "slash_free ok" "store_ok home kept known fs"
  shows "store_ok home kept known (fst (archive_session ok f home u fs))"
proof -
  have "store_ok home kept known (rename_file (active_path home u) (archive_path home u) fs)"
    if u: "ok u" "fs (active_path home u) \<noteq> None"
    unfolding store_ok_def
  proof (intro allI impI)
    fix i assume i: "CHR ''/'' \<notin> set (i :: string)"
    have su: "CHR ''/'' \<notin> set u" using assms(1) u(1) by (simp add: slash_free_def)
    have ok: "place_ok (j \<in> kept) (j \<in> known) (place home fs j)" if "CHR ''/'' \<notin> set j" for j
      using assms(2) that by (simp add: store_ok_def)
    have "u \<in> known" by (rule place_ok_known [OF ok [OF su]]) (use u(2) in \<open>simp add: place_def\<close>)
    then show "place_ok (i \<in> kept) (i \<in> known)
        (place home (rename_file (active_path home u) (archive_path home u) fs) i)"
      using place_archive [of u i fs home, OF su i u(2)] ok [OF i] by (simp add: place_ok_one)
  qed
  with archive_cases [of ok f home u fs] assms(2) show ?thesis by auto
qed

lemma store_ok_unarchive:
  assumes "slash_free ok" "store_ok home kept known fs"
  shows "store_ok home kept known (fst (unarchive_session ok f home u fs))"
proof -
  have "store_ok home kept known (rename_file (archive_path home u) (active_path home u) fs)"
    if u: "ok u" "fs (archive_path home u) \<noteq> None"
    unfolding store_ok_def
  proof (intro allI impI)
    fix i assume i: "CHR ''/'' \<notin> set (i :: string)"
    have su: "CHR ''/'' \<notin> set u" using assms(1) u(1) by (simp add: slash_free_def)
    have ok: "place_ok (j \<in> kept) (j \<in> known) (place home fs j)" if "CHR ''/'' \<notin> set j" for j
      using assms(2) that by (simp add: store_ok_def)
    have "u \<in> known" by (rule place_ok_known [OF ok [OF su]]) (use u(2) in \<open>simp add: place_def\<close>)
    then show "place_ok (i \<in> kept) (i \<in> known)
        (place home (rename_file (archive_path home u) (active_path home u) fs) i)"
      using place_unarchive [of u i fs home, OF su i u(2)] ok [OF i] by (simp add: place_ok_one)
  qed
  with unarchive_cases [of ok f home u fs] assms(2) show ?thesis by auto
qed

lemma store_ok_cleanup:
  assumes "store_ok home kept known fs"
  shows "store_ok home {} known (fst (cleanup_entries rfc rm now home ns (fs, k)))"
proof -
  have "store_ok home {} known fs" using assms by (auto simp: store_ok_def place_ok_def split: if_splits)
  then show ?thesis
  proof (induction ns arbitrary: fs k)
    case Nil
    then show ?case by simp
  next
    case (Cons n ns)
    have "store_ok home {} known (fs(in_dir (sessions_dir home) n := None))"
      using Cons.prems unfolding store_ok_def place_ok_def place_def by (auto split: if_splits)
    then have "store_ok home {} known (fst (cleanup_entries rfc rm now home ns
        (fs(in_dir (sessions_dir home) n := None), k)))" for k by (rule Cons.IH)
    then show ?case using Cons by (auto split: option.split session_file.split)
  qed
qed

lemma store_ok_exec:
  assumes "slash_free ok" "store_ok home kept known fs" "op_ok ok op" "set (created op) \<inter> known = {}"
  shows "\<exists>new \<subseteq> set (created op).
    store_ok home (if is_cleanup op then {} else kept) (known \<union> new) (exec_session ok rfc home op fs)"
proof (cases op)
  case (Create f u n1 n2 j)
  let ?fs = "fs(active_path home u \<mapsto> Doc (stamp_new u n1 n2 j))"
  have u: "CHR ''/'' \<notin> set u" "u \<notin> known" using assms Create by (auto simp: slash_free_def)
  have "store_ok home kept (known \<union> {u}) ?fs"
    using assms(2) u unfolding store_ok_def place_upd [OF u(1)]
    by (auto simp: place_ok_def prod_eq_iff split: if_splits)
  then have "store_ok home kept known (exec_session ok rfc home op fs) \<or>
      store_ok home kept (known \<union> {u}) (exec_session ok rfc home op fs)"
    using create_cases [of f home u n1 n2 j fs] assms(2) Create by auto
  then have "\<exists>new \<subseteq> {u}. store_ok home kept (known \<union> new) (exec_session ok rfc home op fs)"
    by (metis Un_empty_right empty_subsetI subset_refl)
  then show ?thesis by (simp add: Create)
next
  case (Update f n u j)
  have "store_ok home kept known (fs(active_path home u \<mapsto> Doc (stamp_update n j)))"
    if "ok u" "fs (active_path home u) \<noteq> None"
  proof (rule store_ok_cong [OF assms(2)])
    show "place home (fs(active_path home u \<mapsto> Doc (stamp_update n j))) i = place home fs i" for i
      using place_upd [of u home fs "Doc (stamp_update n j)" i] that assms(1)
      by (auto simp: slash_free_def place_def)
  qed
  then show ?thesis using update_cases [of ok f home n u j fs] assms(2) Update by auto
next
  case (Archive f i)
  then show ?thesis using store_ok_archive [OF assms(1,2)] by simp
next
  case (Unarchive f i)
  then show ?thesis using store_ok_unarchive [OF assms(1,2)] by simp
next
  case (ArchivePath f q b)
  then show ?thesis
    using by_path_cases [of ok f home q b fs] store_ok_archive [OF assms(1,2)]
      store_ok_unarchive [OF assms(1,2)] assms(2)
    by (cases b) auto
next
  case (Cleanup rm now ns)
  then show ?thesis using store_ok_cleanup [OF assms(2)] by (simp add: cleanup_files)
qed

lemma store_ok_execs:
  assumes "slash_free ok" "list_all (op_ok ok) ops" "distinct (concat (map created ops))"
    and "store_ok home kept known fs" "set (concat (map created ops)) \<inter> known = {}"
  shows "\<exists>new \<subseteq> set (concat (map created ops)).
    store_ok home (if list_all (\<lambda>op. \<not> is_cleanup op) ops then kept else {}) (known \<union> new)
      (fold (exec_session ok rfc home) ops fs)"
  using assms(2-)
proof (induction ops arbitrary: kept known fs)
  case Nil
  then show ?case by simp
next
  case (Cons op ops)
  let ?k = "if is_cleanup op then {} else kept" and ?fs = "exec_session ok rfc home op fs"
  have op: "op_ok ok op" "set (created op) \<inter> known = {}" using Cons.prems by auto
  obtain n1 where n1: "n1 \<subseteq> set (created op)" "store_ok home ?k (known \<union> n1) ?fs"
    using store_ok_exec [OF assms(1) Cons.prems(3) op] by blast
  have d: "list_all (op_ok ok) ops" "distinct (concat (map created ops))"
    "set (concat (map created ops)) \<inter> (known \<union> n1) = {}"
    using Cons.prems n1(1) by auto
  obtain n2 where n2: "n2 \<subseteq> set (concat (map created ops))"
    "store_ok home (if list_all (\<lambda>op. \<not> is_cleanup op) ops then ?k else {})
       (known \<union> n1 \<union> n2) (fold (exec_session ok rfc home) ops ?fs)"
    using Cons.IH [OF d(1,2) n1(2) d(3)] by blast
  have "store_ok home (if list_all (\<lambda>op. \<not> is_cleanup op) (op # ops) then kept else {})
       (known \<union> (n1 \<union> n2)) (fold (exec_session ok rfc home) (op # ops) fs)"
    using n2(2) by (simp add: Un_assoc split: if_splits)
  moreover have "n1 \<union> n2 \<subseteq> set (concat (map created (op # ops)))" using n1(1) n2(1) by auto
  ultimately show ?case by blast
qed

text \<open>Sessions are conserved. Once a session has been created, no later updates, archivings and
  restorings, by id or by path, whatever their arguments and whichever of their file operations
  fail, lose or duplicate it: its file is in exactly one of the two directories. Before it is
  created it is in neither.\<close>

theorem sessions_conserved:
  assumes "slash_free ok" "list_all (op_ok ok) (before @ Create f u n1 n2 j # after)"
    and "distinct (concat (map created (before @ Create f u n1 n2 j # after)))"
    and "list_all (\<lambda>op. \<not> is_cleanup op) after" "f 0 = None" "f 1 = None"
  shows "place home (fold (exec_session ok rfc home) before Map.empty) u = (False, False) \<and>
    (fold (exec_session ok rfc home) (before @ Create f u n1 n2 j # after) Map.empty (active_path home u)
       = None) \<noteq>
    (fold (exec_session ok rfc home) (before @ Create f u n1 n2 j # after) Map.empty (archive_path home u)
       = None)"
proof -
  let ?run = "fold (exec_session ok rfc home)"
  let ?c = "exec_session ok rfc home (Create f u n1 n2 j) (?run before Map.empty)"
  have su: "CHR ''/'' \<notin> set u" using assms(1,2) by (simp add: slash_free_def)
  have init: "store_ok home {} {} Map.empty" by (simp add: store_ok_def place_ok_def place_def)
  obtain new where new: "new \<subseteq> set (concat (map created before))"
    and b: "store_ok home {} new (?run before Map.empty)"
    using store_ok_execs [OF assms(1) _ _ init, of before rfc] assms(2,3) by auto
  have un: "u \<notin> new" using new assms(3) by auto
  have first: "place home (?run before Map.empty) u = (False, False)"
    using b un su by (auto simp: store_ok_def place_ok_def)
  have c: "place home ?c i = (i = u \<or> fst (place home (?run before Map.empty) i),
      snd (place home (?run before Map.empty) i))" for i
    using place_upd [OF su] assms(5,6) by (simp add: create_session_def)
  have "store_ok home {u} (insert u new) ?c"
    using b first unfolding store_ok_def c by (auto simp: place_ok_def prod_eq_iff)
  moreover have "set (concat (map created after)) \<inter> insert u new = {}"
    using new assms(3) by fastforce
  ultimately obtain new' where "store_ok home {u} (insert u new \<union> new') (?run after ?c)"
    using store_ok_execs [OF assms(1), of after home "{u}" "insert u new" ?c rfc] assms(2-4) by auto
  then have "place home (?run (before @ Create f u n1 n2 j # after) Map.empty) u \<in> {(True, False), (False, True)}"
    using su by (auto simp: store_ok_def place_ok_two)
  with first show ?thesis by (auto simp: place_def)
qed


theorem sessions_conserved_witness:
  "fold (exec_session demo_ok (\<lambda>_. None) None)
     ([] @ Create no_faults ''u1'' ''t'' ''t'' JNull # [Archive no_faults ''u1'', Archive no_faults ''u1''])
     Map.empty (active_path None ''u1'') = None"
proof -
  have "fold (exec_session demo_ok (\<lambda>_. None) None)
     ([] @ Create no_faults ''u1'' ''t'' ''t'' JNull # [Archive no_faults ''u1'', Archive no_faults ''u1''])
     Map.empty (archive_path None ''u1'') \<noteq> None"
    by (simp add: create_session_def archive_session_def validate_session_id_def rename_file_def demo_ok_def
        active_path_def archive_path_def in_dir_def json_name_def sessions_dir_def archive_dir_def)
  with sessions_conserved [OF demo_slash_free, where before = "[]" and f = no_faults and u = "''u1''"
      and after = "[Archive no_faults ''u1'', Archive no_faults ''u1'']" and home = None and rfc = "\<lambda>_. None"]
  show ?thesis by (simp add: demo_ok_def)
qed

section \<open>Cleanup and listing\<close>

text \<open>The startup cleanup removes exactly what has expired: of the files of the sessions directory
  those with a readable document created more than 30 days ago, unless removing fails; it counts
  them, and it leaves every other file, archived sessions of any age included.\<close>

theorem cleanup_removes_expired:
  assumes "distinct names" "list_all (\<lambda>n. CHR ''/'' \<notin> set n) names"
  shows "cleanup_expired_sessions rfc rm now home (Some names) fs =
    ((\<lambda>p. if p \<in> in_dir (sessions_dir home) ` set (filter (removable rfc rm now home fs) names)
          then None else fs p),
     Inr (length (filter (removable rfc rm now home fs) names))) \<and>
    fst (cleanup_expired_sessions rfc rm now home (Some names) fs) (archive_path home i) =
      fs (archive_path home i)"
proof -
  have e: "cleanup_expired_sessions rfc rm now home (Some names) fs =
    ((\<lambda>p. if p \<in> in_dir (sessions_dir home) ` set (filter (removable rfc rm now home fs) names)
          then None else fs p), Inr (length (filter (removable rfc rm now home fs) names)))"
    by (auto simp: cleanup_expired_sessions_def cleanup_entries_spec [OF assms(1)] fun_eq_iff)
  moreover have "archive_path home i \<noteq> in_dir (sessions_dir home) n" if "n \<in> set names" for n
    using that assms(2) by (auto simp: archive_path_def archive_in_dir list_all_iff)
  ultimately show ?thesis by auto
qed

theorem cleanup_removes_expired_witness:
  "snd (cleanup_expired_sessions (\<lambda>s. Some 0) (\<lambda>_. None) (31 * 86400 * 1000000000) None
     (Some [''archive'', ''u.json''])
     [in_dir (sessions_dir None) ''u.json'' \<mapsto> Doc (JObj [(''created_at'', JStr ''t'')])]) = Inr 1"
  by (subst cleanup_removes_expired [THEN conjunct1])
     (simp_all add: removable_def has_json_extension_def is_session_expired_def jget_str_def suffix_def)

definition listed_path :: "json \<Rightarrow> string" where
  "listed_path j = (case jget_str ''path'' j of None \<Rightarrow> [] | Some p \<Rightarrow> p)"

text \<open>The sessions a directory holds: its \<open>.json\<close> files with a readable object.\<close>

definition session_names :: "string \<Rightarrow> files \<Rightarrow> string list \<Rightarrow> string list" where
  "session_names dir fs names =
     filter (\<lambda>n. has_json_extension n \<and> (\<exists>kvs. fs (in_dir dir n) = Some (Doc (JObj kvs)))) names"

definition objects_only :: "string \<Rightarrow> files \<Rightarrow> string list \<Rightarrow> bool" where
  "objects_only dir fs names =
     list_all (\<lambda>n. case fs (in_dir dir n) of Some (Doc (JObj _)) \<Rightarrow> True | Some (Doc _) \<Rightarrow> False | _ \<Rightarrow> True) names"

lemma listed_paths:
  "objects_only dir fs names \<Longrightarrow>
     map listed_path (concat (map (listed b dir fs) names)) = map (in_dir dir) (session_names dir fs names)"
  by (induction names)
     (auto simp: objects_only_def session_names_def listed_def listed_path_def jget_str_def or_insert_def Let_def
       split: option.splits session_file.splits json.splits)

lemma listed_archived:
  "j \<in> set (concat (map (listed True dir fs) names)) \<Longrightarrow> objects_only dir fs names \<Longrightarrow>
     jget ''archived'' j = Some (JBool True)"
  by (induction names)
     (auto simp: objects_only_def listed_def Let_def split: if_splits option.splits session_file.splits json.splits)

text \<open>Listing is sound and complete: every session file of the directory, and on request of the
  archive, that holds a readable object appears once, under its own path, archived ones marked as
  archived, and the most recently modified first. (Files whose document is not an object would be
  listed without a path; the program writes none.)\<close>

theorem list_sessions_sound_complete:
  assumes "objects_only (sessions_dir home) fs names" "objects_only (archive_dir home) fs old"
    and "distinct names" "distinct old" "list_all (\<lambda>n. CHR ''/'' \<notin> set n) names"
    and "list_sessions_all f home names old include fs = Inr js"
  shows "set (map listed_path js) = in_dir (sessions_dir home) ` set (session_names (sessions_dir home) fs names)
      \<union> (if include then in_dir (archive_dir home) ` set (session_names (archive_dir home) fs old) else {}) \<and>
    distinct (map listed_path js) \<and>
    sorted_wrt (\<lambda>a b. modified b \<le> modified a) js \<and>
    (\<forall>j \<in> set js. listed_path j \<in> in_dir (archive_dir home) ` set old \<longrightarrow> jget ''archived'' j = Some (JBool True))"
proof -
  let ?a = "concat (map (listed False (sessions_dir home) fs) names)"
  let ?b = "if include then concat (map (listed True (archive_dir home) fs) old) else []"
  have js: "js = rev (sort_key modified (rev (?a @ ?b)))"
    using assms(6) by (auto simp: list_sessions_all_def Let_def split: option.splits)
  have pa: "map listed_path ?a = map (in_dir (sessions_dir home)) (session_names (sessions_dir home) fs names)"
    by (rule listed_paths [OF assms(1)])
  have pb: "map listed_path ?b =
      (if include then map (in_dir (archive_dir home)) (session_names (archive_dir home) fs old) else [])"
    using listed_paths [OF assms(2)] by simp
  have sub: "set (session_names d fs ns) \<subseteq> set ns" for d ns by (auto simp: session_names_def)
  have apart: "in_dir (sessions_dir home) n \<noteq> in_dir (archive_dir home) m" if "n \<in> set names" for n m
    using that assms(5) by (auto simp: archive_in_dir list_all_iff)
  have perm: "set js = set (?a @ ?b)" unfolding js set_rev set_sort by (rule refl)
  have perm2: "mset (map listed_path js) = mset (map listed_path (?a @ ?b))"
    unfolding js mset_map mset_rev mset_sort by (rule refl)
  have dist: "distinct (map listed_path (?a @ ?b))"
    unfolding map_append pa pb using assms(3,4) apart sub
    by (auto simp: distinct_map inj_on_def session_names_def)
  have "distinct (map listed_path js)"
    using dist perm2 by (metis mset_eq_imp_distinct_iff)
  moreover have "set (map listed_path js) = set (map listed_path ?a) \<union> set (map listed_path ?b)"
    using perm by auto
  moreover have "sorted_wrt (\<lambda>a b. modified b \<le> modified a) js"
    unfolding js sorted_wrt_rev using sorted_sort_key [of modified] by (simp add: sorted_map)
  moreover have "jget ''archived'' j = Some (JBool True)"
    if j: "j \<in> set js" and p: "listed_path j \<in> in_dir (archive_dir home) ` set old" for j
  proof -
    have "j \<notin> set ?a"
    proof
      assume "j \<in> set ?a"
      then have "listed_path j \<in> set (map listed_path ?a)" by (simp only: set_map image_eqI)
      then show False using pa apart p sub by (metis (no_types, lifting) imageE in_mono set_map)
    qed
    then have "j \<in> set (concat (map (listed True (archive_dir home) fs) old))"
      using j perm by (auto split: if_splits)
    then show ?thesis using listed_archived assms(2) by blast
  qed
  ultimately show ?thesis unfolding pa pb by auto
qed

theorem list_sessions_sound_complete_witness:
  "distinct (map listed_path (projr (list_sessions_all no_faults None [''u.json'', ''archive''] [] True
     [in_dir (sessions_dir None) ''u.json'' \<mapsto> Doc (JObj [])])))"
proof -
  let ?fs = "[in_dir (sessions_dir None) ''u.json'' \<mapsto> Doc (JObj [])]"
  have "objects_only (sessions_dir None) ?fs [''u.json'', ''archive'']"
    by (simp add: objects_only_def)
  moreover have "objects_only (archive_dir None) ?fs []" by (simp add: objects_only_def)
  moreover have "list_sessions_all no_faults None [''u.json'', ''archive''] [] True ?fs =
      Inr (projr (list_sessions_all no_faults None [''u.json'', ''archive''] [] True ?fs))"
    by (simp add: list_sessions_all_def)
  ultimately show ?thesis using list_sessions_sound_complete [of None ?fs "[''u.json'', ''archive'']" "[]"]
    by simp
qed

section \<open>Endpoints\<close>

definition sessions_list ::
  "faults \<Rightarrow> string option \<Rightarrow> string list \<Rightarrow> string list \<Rightarrow> bool option \<Rightarrow> files \<Rightarrow> json" where
  "sessions_list f home names old q fs =
     (case list_sessions_all f home names old (q = Some True) fs of Inr js \<Rightarrow> JArr js | Inl _ \<Rightarrow> JArr [])"

text \<open>\<open>get(a).or_else(|| get(b))\<close>.\<close>

definition jget2 :: "string \<Rightarrow> string \<Rightarrow> json \<Rightarrow> json option" where
  "jget2 a b j = (case jget a j of None \<Rightarrow> jget b j | v \<Rightarrow> v)"

definition str_or_empty :: "json option \<Rightarrow> string" where
  "str_or_empty v = (case Option.bind v as_str of None \<Rightarrow> [] | Some s \<Rightarrow> s)"

definition sessions_load ::
  "(string \<Rightarrow> string option) \<Rightarrow> string option \<Rightarrow> string \<Rightarrow> files \<Rightarrow> response" where
  "sessions_load realpath home path fs =
     (case load_session_by_path realpath home path fs of
        Inr (Some j) \<Rightarrow>
          (200, ok_body
             [(''sessionId'', JStr (str_or_empty (jget ''id'' j))),
              (''messages'', (case jget ''messages'' j of None \<Rightarrow> JArr [] | Some v \<Rightarrow> v)),
              (''toolExecutions'', (case jget2 ''toolExecutions'' ''tool_executions'' j of None \<Rightarrow> JArr [] | Some v \<Rightarrow> v)),
              (''cwd'', JStr (str_or_empty (jget2 ''cwd'' ''working_directory'' j)))])
      | Inr None \<Rightarrow> (404, err_body ''Session not found'')
      | Inl e \<Rightarrow> (400, err_body e))"

definition sessions_archive_by_path ::
  "(string \<Rightarrow> bool) \<Rightarrow> faults \<Rightarrow> string option \<Rightarrow> string \<Rightarrow> bool \<Rightarrow> files \<Rightarrow> files \<times> response" where
  "sessions_archive_by_path ok f home path archived fs =
     (case set_archived_by_path ok f home path archived fs of
        (fs', Inr True) \<Rightarrow> (fs', 200, ok_body [])
      | (fs', Inr False) \<Rightarrow> (fs', 404, err_body ''Session not found'')
      | (fs', Inl e) \<Rightarrow> (fs', 500, err_body e))"

definition sessions_get :: "(string \<Rightarrow> bool) \<Rightarrow> string option \<Rightarrow> string \<Rightarrow> files \<Rightarrow> response" where
  "sessions_get ok home i fs =
     (case load_session ok home i fs of
        Inr (Some j) \<Rightarrow> (200, ok_body [(''session'', j)])
      | Inr None \<Rightarrow> (200, err_body ''Session not found'')
      | Inl e \<Rightarrow> (200, err_body e))"

definition sessions_create ::
  "faults \<Rightarrow> string option \<Rightarrow> string \<Rightarrow> string \<Rightarrow> string \<Rightarrow> json \<Rightarrow> files \<Rightarrow> files \<times> response" where
  "sessions_create f home uuid n1 n2 j fs =
     (case create_session f home uuid n1 n2 j fs of
        (fs', Inr i) \<Rightarrow> (fs', 201, ok_body [(''id'', JStr i)]) | (fs', Inl e) \<Rightarrow> (fs', 500, err_body e))"

definition sessions_update ::
  "(string \<Rightarrow> bool) \<Rightarrow> faults \<Rightarrow> string option \<Rightarrow> string \<Rightarrow> string \<Rightarrow> json \<Rightarrow> files \<Rightarrow> files \<times> response" where
  "sessions_update ok f home now i j fs =
     (case update_session ok f home now i j fs of
        (fs', Inr _) \<Rightarrow> (fs', 200, ok_body []) | (fs', Inl e) \<Rightarrow> (fs', 500, err_body e))"

definition sessions_archive ::
  "(string \<Rightarrow> bool) \<Rightarrow> faults \<Rightarrow> string option \<Rightarrow> string \<Rightarrow> files \<Rightarrow> files \<times> response" where
  "sessions_archive ok f home i fs =
     (case archive_session ok f home i fs of
        (fs', Inr True) \<Rightarrow> (fs', 200, ok_body [(''archived'', JBool True)])
      | (fs', Inr False) \<Rightarrow> (fs', 200, err_body ''Session not found'')
      | (fs', Inl e) \<Rightarrow> (fs', 200, err_body e))"

end
