(* ===== verification/Session_Spec.thy ===== *)
theory Session_Spec
  imports Sessions
begin

text \<open>
  What the session store of \<open>Sessions\<close> promises, without files, directories and paths: two maps from
  ids to documents, the live sessions and the archived ones, and requests that put, move and remove
  entries. The code's store refines it: every run of requests gives the same answers on both, and
  the files are at every moment the two maps.
\<close>

section \<open>The specification\<close>

record session_maps =
  live :: "string \<rightharpoonup> session_file"
  shelf :: "string \<rightharpoonup> session_file"

datatype session_answer =
    Created "string res"
  | Updated "unit res"
  | Moved "bool res"
  | Cleaned "nat res"

definition spec_load :: "(string \<Rightarrow> bool) \<Rightarrow> string \<Rightarrow> session_maps \<Rightarrow> json option res" where
  "spec_load ok i st =
     (if \<not> ok i then Inl ''Invalid session ID format''
      else (case live st i of None \<Rightarrow> Inr None | Some c \<Rightarrow> (case read_session c of Inl e \<Rightarrow> Inl e | Inr j \<Rightarrow> Inr (Some j))))"

text \<open>\<open>err\<close> is the error of the request's file operations; with it, nothing happens.\<close>

definition spec_create :: "string option \<Rightarrow> string \<Rightarrow> json \<Rightarrow> session_maps \<Rightarrow> session_maps \<times> session_answer" where
  "spec_create err u j st =
     (case err of Some e \<Rightarrow> (st, Created (Inl e)) | None \<Rightarrow> (st\<lparr>live := (live st)(u \<mapsto> Doc j)\<rparr>, Created (Inr u)))"

definition spec_update ::
  "(string \<Rightarrow> bool) \<Rightarrow> string option \<Rightarrow> string \<Rightarrow> json \<Rightarrow> session_maps \<Rightarrow> session_maps \<times> session_answer" where
  "spec_update ok err i j st =
     (if \<not> ok i then (st, Updated (Inl ''Invalid session ID format''))
      else if live st i = None then (st, Updated (Inl (''Session not found: '' @ i)))
      else (case err of Some e \<Rightarrow> (st, Updated (Inl e))
              | None \<Rightarrow> (st\<lparr>live := (live st)(i \<mapsto> Doc j)\<rparr>, Updated (Inr ()))))"

definition spec_archive ::
  "(string \<Rightarrow> bool) \<Rightarrow> string option \<Rightarrow> string \<Rightarrow> session_maps \<Rightarrow> session_maps \<times> session_answer" where
  "spec_archive ok err i st =
     (if \<not> ok i then (st, Moved (Inl ''Invalid session ID format''))
      else if live st i = None then (st, Moved (Inr False))
      else (case err of Some e \<Rightarrow> (st, Moved (Inl e))
              | None \<Rightarrow> (\<lparr>live = (live st)(i := None), shelf = (shelf st)(i := live st i)\<rparr>, Moved (Inr True))))"

definition spec_unarchive ::
  "(string \<Rightarrow> bool) \<Rightarrow> string option \<Rightarrow> string \<Rightarrow> session_maps \<Rightarrow> session_maps \<times> session_answer" where
  "spec_unarchive ok err i st =
     (if \<not> ok i then (st, Moved (Inl ''Invalid session ID format''))
      else if shelf st i = None then (st, Moved (Inr False))
      else (case err of Some e \<Rightarrow> (st, Moved (Inl e))
              | None \<Rightarrow> (\<lparr>live = (live st)(i := shelf st i), shelf = (shelf st)(i := None)\<rparr>, Moved (Inr True))))"

text \<open>The ids whose sessions a cleanup removes; only live ones.\<close>

definition spec_expired ::
  "(string \<Rightarrow> int option) \<Rightarrow> (string \<Rightarrow> string option) \<Rightarrow> int \<Rightarrow> string list \<Rightarrow> session_maps \<Rightarrow> string \<Rightarrow> bool" where
  "spec_expired rfc rm now ns st i =
     (i \<noteq> [] \<and> json_name i \<in> set ns \<and> rm (json_name i) = None \<and>
      (case live st i of Some (Doc j) \<Rightarrow> is_session_expired rfc now j | _ \<Rightarrow> False))"

definition spec_cleanup ::
  "(string \<Rightarrow> int option) \<Rightarrow> (string \<Rightarrow> string option) \<Rightarrow> int \<Rightarrow> string list \<Rightarrow> session_maps
     \<Rightarrow> session_maps \<times> session_answer" where
  "spec_cleanup rfc rm now ns st =
     (st\<lparr>live := (\<lambda>i. if spec_expired rfc rm now ns st i then None else live st i)\<rparr>,
      Cleaned (Inr (length (filter (\<lambda>n. \<exists>i. n = json_name i \<and> spec_expired rfc rm now ns st i) ns))))"

text \<open>The id that a path names.\<close>

definition id_of_path :: "string \<Rightarrow> string option" where
  "id_of_path p = map_option (\<lambda>n. case strip_suffix ''.json'' n of Some s \<Rightarrow> s | None \<Rightarrow> n) (file_name p)"

definition two_errors :: "string \<Rightarrow> string \<Rightarrow> faults \<Rightarrow> string option" where
  "two_errors a b f = (case f 0 of Some e \<Rightarrow> Some (a @ e) | None \<Rightarrow> map_option (\<lambda>e. b @ e) (f 1))"

abbreviation archive_error :: "faults \<Rightarrow> string option" where
  "archive_error \<equiv> two_errors ''Failed to create archive directory: '' ''Failed to archive session: ''"

abbreviation unarchive_error :: "faults \<Rightarrow> string option" where
  "unarchive_error \<equiv> two_errors ''Failed to create sessions directory: '' ''Failed to unarchive session: ''"

fun spec_call ::
  "(string \<Rightarrow> bool) \<Rightarrow> (string \<Rightarrow> int option) \<Rightarrow> session_op \<Rightarrow> session_maps \<Rightarrow> session_maps \<times> session_answer" where
  "spec_call ok rfc (Create f u n1 n2 j) st =
     spec_create (two_errors ''Failed to create sessions directory: '' ''Failed to create session: '' f)
       u (stamp_new u n1 n2 j) st"
| "spec_call ok rfc (Update f n i j) st =
     spec_update ok (map_option (\<lambda>e. ''Failed to update session: '' @ e) (f 0)) i (stamp_update n j) st"
| "spec_call ok rfc (Archive f i) st = spec_archive ok (archive_error f) i st"
| "spec_call ok rfc (Unarchive f i) st = spec_unarchive ok (unarchive_error f) i st"
| "spec_call ok rfc (ArchivePath f p b) st =
     (case id_of_path p of
        None \<Rightarrow> (st, Moved (Inl ''Invalid path: no filename''))
      | Some i \<Rightarrow> if b then spec_archive ok (archive_error f) i st else spec_unarchive ok (unarchive_error f) i st)"
| "spec_call ok rfc (Cleanup rm now ns) st = spec_cleanup rfc rm now ns st"

section \<open>The code's answers\<close>

fun call_session ::
  "(string \<Rightarrow> bool) \<Rightarrow> (string \<Rightarrow> int option) \<Rightarrow> string option \<Rightarrow> session_op \<Rightarrow> files \<Rightarrow> files \<times> session_answer" where
  "call_session ok rfc home (Create f u n1 n2 j) fs = map_prod id Created (create_session f home u n1 n2 j fs)"
| "call_session ok rfc home (Update f n i j) fs = map_prod id Updated (update_session ok f home n i j fs)"
| "call_session ok rfc home (Archive f i) fs = map_prod id Moved (archive_session ok f home i fs)"
| "call_session ok rfc home (Unarchive f i) fs = map_prod id Moved (unarchive_session ok f home i fs)"
| "call_session ok rfc home (ArchivePath f p b) fs = map_prod id Moved (set_archived_by_path ok f home p b fs)"
| "call_session ok rfc home (Cleanup rm now ns) fs =
     map_prod id Cleaned (cleanup_expired_sessions rfc rm now home (Some ns) fs)"

text \<open>A run of requests and its answers, on the code's store and on the specification.\<close>

fun answers :: "('op \<Rightarrow> 's \<Rightarrow> 's \<times> 'a) \<Rightarrow> 'op list \<Rightarrow> 's \<Rightarrow> 's \<times> 'a list" where
  "answers step [] s = (s, [])"
| "answers step (op # ops) s =
     (case step op s of (s', a) \<Rightarrow> (case answers step ops s' of (s'', as) \<Rightarrow> (s'', a # as)))"

section \<open>Refinement\<close>

definition session_abs :: "string option \<Rightarrow> files \<Rightarrow> session_maps" where
  "session_abs home fs =
     \<lparr>live = (\<lambda>i. if CHR ''/'' \<in> set i then None else fs (active_path home i)),
      shelf = (\<lambda>i. if CHR ''/'' \<in> set i then None else fs (archive_path home i))\<rparr>"

lemma abs_sel [simp]:
  "CHR ''/'' \<notin> set i \<Longrightarrow> live (session_abs home fs) i = fs (active_path home i)"
  "CHR ''/'' \<notin> set i \<Longrightarrow> shelf (session_abs home fs) i = fs (archive_path home i)"
  by (simp_all add: session_abs_def)

lemma abs_put:
  "CHR ''/'' \<notin> set i \<Longrightarrow>
     session_abs home (fs(active_path home i \<mapsto> c)) = (session_abs home fs)\<lparr>live := (live (session_abs home fs))(i \<mapsto> c)\<rparr>"
  using active_not_archive [of i home] active_not_archive [of i home, symmetric]
  by (auto simp: session_abs_def fun_eq_iff)

lemma abs_archive:
  assumes "CHR ''/'' \<notin> set i"
  shows "session_abs home (rename_file (active_path home i) (archive_path home i) fs) =
    \<lparr>live = (live (session_abs home fs))(i := None), shelf = (shelf (session_abs home fs))(i := fs (active_path home i))\<rparr>"
proof -
  have "active_path home j \<noteq> archive_path home i" if "CHR ''/'' \<notin> set j" for j
    using active_not_archive that by blast
  moreover have "archive_path home j \<noteq> active_path home i" for j using active_not_archive [OF assms] by metis
  ultimately show ?thesis using assms by (auto simp: session_abs_def rename_file_def fun_eq_iff)
qed

lemma abs_unarchive:
  assumes "CHR ''/'' \<notin> set i"
  shows "session_abs home (rename_file (archive_path home i) (active_path home i) fs) =
    \<lparr>live = (live (session_abs home fs))(i := fs (archive_path home i)), shelf = (shelf (session_abs home fs))(i := None)\<rparr>"
proof -
  have "active_path home j \<noteq> archive_path home i" if "CHR ''/'' \<notin> set j" for j
    using active_not_archive that by blast
  moreover have "archive_path home j \<noteq> active_path home i" for j using active_not_archive [OF assms] by metis
  ultimately show ?thesis using assms by (auto simp: session_abs_def rename_file_def fun_eq_iff)
qed

text \<open>The name of a file that a cleanup may remove is that of a session.\<close>

lemma json_extension_iff: "has_json_extension n \<longleftrightarrow> (\<exists>i. i \<noteq> [] \<and> n = json_name i)"
  by (auto simp: has_json_extension_def json_name_def suffix_def)

lemma removable_iff:
  assumes "n \<in> set ns" "CHR ''/'' \<notin> set n"
  shows "removable rfc rm now home fs n \<longleftrightarrow> (\<exists>i. n = json_name i \<and> spec_expired rfc rm now ns (session_abs home fs) i)"
proof -
  have "json_name i \<noteq> ''archive''" for i
  proof
    assume "json_name i = ''archive''"
    then have "last (json_name i) = last ''archive''" by (rule arg_cong)
    then show False by (simp add: json_name_def)
  qed
  moreover have "CHR ''/'' \<notin> set i" if "n = json_name i" for i using assms(2) that by simp
  ultimately show ?thesis
    using assms by (auto simp: removable_def spec_expired_def json_extension_iff active_path_def)
qed

lemma abs_cleanup:
  assumes "distinct ns" "list_all (\<lambda>n. CHR ''/'' \<notin> set n) ns"
  shows "map_prod (session_abs home) Cleaned (cleanup_expired_sessions rfc rm now home (Some ns) fs) =
    spec_cleanup rfc rm now ns (session_abs home fs)"
proof -
  let ?R = "removable rfc rm now home fs" and ?E = "spec_expired rfc rm now ns (session_abs home fs)"
  have slash: "CHR ''/'' \<notin> set n" if "n \<in> set ns" for n using that assms(2) by (auto simp: list_all_iff)
  have filter: "filter ?R ns = filter (\<lambda>n. \<exists>i. n = json_name i \<and> ?E i) ns"
    by (rule filter_cong [OF refl]) (simp add: removable_iff slash)
  have live: "(\<exists>n \<in> set ns. ?R n \<and> active_path home i = in_dir (sessions_dir home) n) \<longleftrightarrow> ?E i"
    if "CHR ''/'' \<notin> set i" for i
  proof -
    have "?E i \<Longrightarrow> json_name i \<in> set ns" by (simp add: spec_expired_def)
    then show ?thesis using removable_iff slash by (fastforce simp: active_path_def)
  qed
  have shelf: "\<not> (\<exists>n \<in> set ns. ?R n \<and> archive_path home i = in_dir (sessions_dir home) n)" for i
    using slash by (fastforce simp: archive_path_def archive_in_dir)
  show ?thesis
    by (auto simp: cleanup_expired_sessions_def cleanup_entries_spec [OF assms(1)] filter spec_cleanup_def
        session_abs_def fun_eq_iff live [unfolded session_abs_def] shelf)
qed

lemma call_refines:
  assumes "slash_free ok" "op_ok ok op" "case op of Cleanup _ _ ns \<Rightarrow> distinct ns | _ \<Rightarrow> True"
  shows "map_prod (session_abs home) id (call_session ok rfc home op fs) = spec_call ok rfc op (session_abs home fs)"
proof -
  have sl: "ok i \<Longrightarrow> CHR ''/'' \<notin> set i" for i using assms(1) by (simp add: slash_free_def)
  have arch: "map_prod (session_abs home) Moved (archive_session ok f home i fs) =
      spec_archive ok (archive_error f) i (session_abs home fs)" for f i
    using sl [of i] abs_archive [of i home fs]
    by (cases "ok i") (auto simp: archive_session_def validate_session_id_def spec_archive_def two_errors_def
        split: option.splits)
  have unarch: "map_prod (session_abs home) Moved (unarchive_session ok f home i fs) =
      spec_unarchive ok (unarchive_error f) i (session_abs home fs)" for f i
    using sl [of i] abs_unarchive [of i home fs]
    by (cases "ok i") (auto simp: unarchive_session_def validate_session_id_def spec_unarchive_def two_errors_def
        split: option.splits)
  show ?thesis
  proof (cases op)
    case (Create f u n1 n2 j)
    then show ?thesis
      using sl [of u] assms(2) abs_put [of u home fs]
      by (auto simp: create_session_def spec_create_def two_errors_def split: option.splits)
  next
    case (Update f n i j)
    then show ?thesis
      using sl [of i] abs_put [of i home fs]
      by (cases "ok i") (auto simp: update_session_def validate_session_id_def spec_update_def split: option.splits)
  next
    case (Archive f i)
    then show ?thesis using arch by (simp add: prod.map_comp)
  next
    case (Unarchive f i)
    then show ?thesis using unarch by (simp add: prod.map_comp)
  next
    case (ArchivePath f p b)
    then show ?thesis
      using arch unarch
      by (cases "file_name p") (simp_all add: set_archived_by_path_def id_of_path_def Let_def prod.map_comp)
  next
    case (Cleanup rm now ns)
    then show ?thesis using abs_cleanup [of ns home rfc rm now fs] assms(2,3) by (simp add: prod.map_comp)
  qed
qed

lemma answers_refine:
  assumes "\<And>op s. op \<in> set ops \<Longrightarrow> map_prod ab id (step op s) = spec op (ab s)"
  shows "map_prod ab id (answers step ops s) = answers spec ops (ab s)"
  using assms
proof (induction ops arbitrary: s)
  case (Cons op ops)
  obtain s' a where st: "step op s = (s', a)" by force
  then have "spec op (ab s) = (ab s', a)" using Cons.prems [of op s] by simp
  moreover have "map_prod ab id (answers step ops s') = answers spec ops (ab s')"
    by (rule Cons.IH) (rule Cons.prems, simp)
  ultimately show ?case using st by (cases "answers step ops s'") (auto split: prod.splits)
qed simp



end
