(* ===== verification/Keychain.thy ===== *)
theory Keychain
  imports Key_Value Json_Value
begin

text \<open>
  The keychain of \<open>src-tauri/src/server/keychain.rs\<close> and its endpoints. The operating system's
  store is a map from account names to passwords; how it answers one call is an argument.
\<close>

type_synonym keychain = "string \<rightharpoonup> string"

datatype kc_answer = KcWorks | KcNoService string | KcFails string

definition format_account :: "string \<Rightarrow> string" where
  "format_account slug = ''remote-mcp/'' @ slug"

definition keychain_get :: "kc_answer \<Rightarrow> string \<Rightarrow> keychain \<Rightarrow> string option res" where
  "keychain_get a slug kc =
     (case a of
        KcNoService e \<Rightarrow> Inl (''Failed to access system keychain for '' @ [CHR 0x27] @ slug @ [CHR 0x27] @
          '': '' @ e @ ''. The keychain service may be unavailable.'')
      | KcFails e \<Rightarrow> Inl (''Failed to retrieve '' @ [CHR 0x27] @ slug @ [CHR 0x27] @
          '' from system keychain: '' @ e @ ''. Ensure the keychain is unlocked and accessible.'')
      | KcWorks \<Rightarrow> Inr (kc (format_account slug)))"

definition keychain_set :: "kc_answer \<Rightarrow> string \<Rightarrow> string \<Rightarrow> keychain \<Rightarrow> keychain \<times> unit res" where
  "keychain_set a slug token kc =
     (case a of
        KcNoService e \<Rightarrow> (kc, Inl (''Failed to access system keychain for storage: '' @ e @
          ''. The keychain service may be unavailable.''))
      | KcFails e \<Rightarrow> (kc, Inl (''Failed to store '' @ [CHR 0x27] @ slug @ [CHR 0x27] @
          '' in system keychain: '' @ e @ ''. Ensure the keychain is unlocked.''))
      | KcWorks \<Rightarrow> (kc(format_account slug \<mapsto> token), Inr ()))"

definition keychain_delete :: "kc_answer \<Rightarrow> string \<Rightarrow> keychain \<Rightarrow> keychain \<times> bool res" where
  "keychain_delete a slug kc =
     (case a of
        KcNoService e \<Rightarrow> (kc, Inl (''Failed to access system keychain for deletion: '' @ e @
          ''. The keychain service may be unavailable.''))
      | KcFails e \<Rightarrow> (kc, Inl (''Failed to delete '' @ [CHR 0x27] @ slug @ [CHR 0x27] @
          '' from system keychain: '' @ e))
      | KcWorks \<Rightarrow> (kc(format_account slug := None), Inr (kc (format_account slug) \<noteq> None)))"

lemma format_account_inj [simp]: "format_account a = format_account b \<longleftrightarrow> a = b"
  by (simp add: format_account_def)

definition keychain_view :: "keychain \<Rightarrow> string \<Rightarrow> string option" where
  "keychain_view kc slug = kc (format_account slug)"

interpretation kc: kv_store "\<lambda>_. True" keychain_view
    "\<lambda>k s. (s, keychain_get KcWorks k s)" "keychain_set KcWorks" "keychain_delete KcWorks"
  by unfold_locales
     (auto simp: keychain_get_def keychain_set_def keychain_delete_def keychain_view_def intro!: ext)

section \<open>Endpoints\<close>

definition keychain_endpoint_get :: "kc_answer \<Rightarrow> string \<Rightarrow> keychain \<Rightarrow> response" where
  "keychain_endpoint_get a key kc =
     (case keychain_get a key kc of
        Inr (Some token) \<Rightarrow> (200, ok_body [(''token'', JStr token)])
      | Inr None \<Rightarrow> (200, err_body ''Token not found'')
      | Inl e \<Rightarrow> (200, err_body e))"

definition keychain_endpoint_set :: "kc_answer \<Rightarrow> string \<Rightarrow> string \<Rightarrow> keychain \<Rightarrow> keychain \<times> response" where
  "keychain_endpoint_set a key token kc =
     (case keychain_set a key token kc of
        (kc', Inr _) \<Rightarrow> (kc', 200, ok_body []) | (kc', Inl e) \<Rightarrow> (kc', 500, err_body e))"

definition keychain_endpoint_delete :: "kc_answer \<Rightarrow> string \<Rightarrow> keychain \<Rightarrow> keychain \<times> response" where
  "keychain_endpoint_delete a key kc =
     (case keychain_delete a key kc of
        (kc', Inr found) \<Rightarrow> (kc', 200, ok_body [(''deleted'', JBool found)])
      | (kc', Inl e) \<Rightarrow> (kc', 200, err_body e))"

text \<open>\<open>auth_endpoints::set_key\<close>: the API key of a provider.\<close>

definition api_key_slug :: "string \<Rightarrow> string" where
  "api_key_slug provider = to_lowercase provider @ ''-api-key''"

definition set_key :: "kc_answer \<Rightarrow> string \<Rightarrow> string \<Rightarrow> keychain \<Rightarrow> keychain \<times> response" where
  "set_key a provider key kc =
     (case keychain_set a (api_key_slug provider) key kc of
        (kc', Inr _) \<Rightarrow> (kc', 200, ok_body [(''message'', JStr (''API key stored for '' @ provider))])
      | (kc', Inl e) \<Rightarrow> (kc', 500, err_body e))"

text \<open>\<open>AuthStorage::get_key\<close>; \<open>env\<close> are the environment variables.\<close>

definition env_key :: "(string \<rightharpoonup> string) \<Rightarrow> string \<Rightarrow> string option" where
  "env_key env p =
     (if p = ''anthropic'' then env ''ANTHROPIC_API_KEY''
      else if p = ''openai'' then env ''OPENAI_API_KEY''
      else if p = ''google'' then env ''GOOGLE_API_KEY''
      else if p = ''cohere'' then env ''COHERE_API_KEY''
      else None)"

definition get_key :: "kc_answer \<Rightarrow> (string \<rightharpoonup> string) \<Rightarrow> string \<Rightarrow> keychain \<Rightarrow> string option" where
  "get_key a env provider kc =
     (case keychain_get a (api_key_slug provider) kc of
        Inr (Some k) \<Rightarrow> Some k
      | _ \<Rightarrow> env_key env (to_lowercase provider))"

lemma api_key_slug_lower [simp]: "api_key_slug (to_lowercase p) = api_key_slug p"
  by (simp add: api_key_slug_def to_lowercase_idem)

lemma get_key_after_set_key:
  "get_key KcWorks env p (fst (set_key KcWorks p key kc)) = Some key"
  by (simp add: get_key_def set_key_def keychain_set_def keychain_get_def)

end
