(* ===== verification/Agent_Api.thy ===== *)
theory Agent_Api
  imports Sessions Keychain
begin

text \<open>
  The state the agent's handlers share, \<open>AppState\<close> of \<open>src-tauri/src/server/mod.rs\<close>, the creation of
  an agent session (\<open>create_pi_session\<close> of \<open>ws.rs\<close>), the HTTP handlers of \<open>agent_endpoints.rs\<close>, and
  the session labels of \<open>extensions.rs\<close>.

  The library pi is an argument: whether it can make a session from given options, and what setting
  the thinking level does. An \<open>Arc\<close> to an agent session is its index in the list of all that have
  been made; abort handles are numbered in the order they are made.
\<close>

record session_options =
  opt_key :: "string option"
  opt_provider :: "string option"
  opt_model :: "string option"
  opt_dir :: "string option"

record pi_handle =
  options :: session_options
  thinking :: "string option"

record app_state =
  arcs :: "pi_handle list"
  session_handles :: "string \<rightharpoonup> nat"
  abort_handles :: "string \<rightharpoonup> nat"
  aborted :: "nat set"
  next_abort :: nat
  session_cwd :: "string \<rightharpoonup> string"
  session_model :: "string \<rightharpoonup> string \<times> string"
  stored :: files

definition app_state_new :: "files \<Rightarrow> app_state" where
  "app_state_new fs = \<lparr>arcs = [], session_handles = Map.empty, abort_handles = Map.empty, aborted = {},
     next_abort = 0, session_cwd = Map.empty, session_model = Map.empty, stored = fs\<rparr>"

section \<open>Making an agent session\<close>

definition model_override :: "string \<Rightarrow> app_state \<Rightarrow> (string \<times> string) option" where
  "model_override sid s =
     (case session_model s sid of Some m \<Rightarrow> Some m | None \<Rightarrow> session_model s ''__global__'')"

text \<open>\<open>token\<close> is \<open>resolve_session_auth_token\<close> for a provider.\<close>

definition options_for :: "(string \<Rightarrow> string option) \<Rightarrow> string \<Rightarrow> string \<Rightarrow> app_state \<Rightarrow> session_options" where
  "options_for token sid cwd s =
     (let ov = model_override sid s;
          provider = map_option fst ov
      in \<lparr>opt_key = token (case provider of None \<Rightarrow> ''anthropic'' | Some p \<Rightarrow> p), opt_provider = provider,
          opt_model = map_option snd ov, opt_dir = (if cwd = [] then None else Some cwd)\<rparr>)"

definition register_handle :: "string \<Rightarrow> pi_handle \<Rightarrow> app_state \<Rightarrow> app_state \<times> nat" where
  "register_handle sid h s =
     (s\<lparr>arcs := arcs s @ [h], session_handles := (session_handles s)(sid \<mapsto> length (arcs s))\<rparr>,
      length (arcs s))"

definition create_pi_session ::
  "(session_options \<Rightarrow> pi_handle res) \<Rightarrow> (string \<Rightarrow> string option) \<Rightarrow> string \<Rightarrow> string \<Rightarrow> app_state
     \<Rightarrow> app_state \<times> nat res" where
  "create_pi_session pi_make token sid cwd s =
     (case pi_make (options_for token sid cwd s) of
        Inl e \<Rightarrow> (s, Inl (''pi session init: '' @ e))
      | Inr h \<Rightarrow> (case register_handle sid h s of (s', i) \<Rightarrow> (s', Inr i)))"

section \<open>Labels\<close>

datatype api_answer = ApiSendFailed string | ApiStatus string | ApiBodyFailed string | ApiBody string

definition first_content_text :: "json \<Rightarrow> string option" where
  "first_content_text j =
     (case jget ''content'' j of
        Some (JArr (c # _)) \<Rightarrow> jget_str ''text'' c
      | _ \<Rightarrow> None)"

definition generate_session_label :: "(string \<Rightarrow> json res) \<Rightarrow> api_answer \<Rightarrow> string res" where
  "generate_session_label of_text a =
     (case a of
        ApiSendFailed e \<Rightarrow> Inl (''Failed to call Claude API: '' @ e)
      | ApiStatus e \<Rightarrow> Inl (''API error: '' @ e)
      | ApiBodyFailed e \<Rightarrow> Inl (''Failed to read response: '' @ e)
      | ApiBody t \<Rightarrow>
          (case of_text t of
             Inl e \<Rightarrow> Inl (''Failed to parse response: '' @ e)
           | Inr j \<Rightarrow>
               (case first_content_text j of
                  None \<Rightarrow> Inl ''Invalid API response format''
                | Some c \<Rightarrow>
                    (let label = to_lowercase (trim_matches (\<lambda>x. x = CHR 0x22) (trim c)) in
                     if label = [] then Inl ''Empty label generated'' else Inr label))))"

definition generate_session_label_with_fallback ::
  "(string \<Rightarrow> json res) \<Rightarrow> string \<Rightarrow> api_answer \<Rightarrow> string" where
  "generate_session_label_with_fallback of_text uuid a =
     (case generate_session_label of_text a of
        Inr label \<Rightarrow> label | Inl _ \<Rightarrow> ''session-'' @ take 8 uuid)"

section \<open>The HTTP handlers\<close>

definition json_insert :: "string \<Rightarrow> json \<Rightarrow> json \<Rightarrow> json" where
  "json_insert k v j = (case j of JObj kvs \<Rightarrow> JObj (AList.update k v kvs) | _ \<Rightarrow> j)"

definition new_session_json :: "string \<Rightarrow> string \<Rightarrow> json \<Rightarrow> json" where
  "new_session_json i now metadata =
     JObj [(''id'', JStr i), (''created_at'', JStr now), (''updated_at'', JStr now),
           (''messages'', JArr []), (''metadata'', metadata)]"

text \<open>\<open>uuid\<close> is the id the handler generates and answers, \<open>uuid2\<close> the one \<open>sessions::create_session\<close>
  generates, \<open>uuid3\<close> that of the fallback label.\<close>

definition agent_create_session ::
  "(string \<Rightarrow> json res) \<Rightarrow> (string \<rightharpoonup> string) \<Rightarrow> kc_answer \<Rightarrow> keychain \<Rightarrow> api_answer \<Rightarrow> faults \<Rightarrow> string option
     \<Rightarrow> string \<Rightarrow> string \<Rightarrow> string \<Rightarrow> string \<Rightarrow> string \<Rightarrow> string \<Rightarrow> json option \<Rightarrow> files \<Rightarrow> files \<times> response" where
  "agent_create_session of_text env a kc api f home now now1 now2 uuid uuid2 uuid3 metadata fs =
     (let meta = (case metadata of None \<Rightarrow> JObj [] | Some m \<Rightarrow> m);
          api_key = (case env ''ANTHROPIC_API_KEY'' of
                       Some k \<Rightarrow> Some k
                     | None \<Rightarrow> (case keychain_get a ''anthropic-api-key'' kc of Inr v \<Rightarrow> v | Inl _ \<Rightarrow> None));
          label = (case api_key of
                     Some _ \<Rightarrow> generate_session_label_with_fallback of_text uuid3 api
                   | None \<Rightarrow> ''session-'' @ take 8 uuid);
          session = new_session_json uuid now (json_insert ''label'' (JStr label) meta)
      in case create_session f home uuid2 now1 now2 session fs of
           (fs', Inr _) \<Rightarrow> (fs', 201, ok_body [(''session'', session)])
         | (fs', Inl e) \<Rightarrow> (fs', 500, err_body e))"

definition set_model :: "string \<Rightarrow> string \<Rightarrow> string option \<Rightarrow> app_state \<Rightarrow> app_state \<times> response" where
  "set_model provider mid sid s =
     (s\<lparr>session_model := (session_model s)
          ((case sid of None \<Rightarrow> ''__global__'' | Some i \<Rightarrow> i) \<mapsto> (provider, mid))\<rparr>,
      200, ok_body [(''provider'', JStr provider), (''model_id'', JStr mid)])"

definition get_thinking :: "string option \<Rightarrow> app_state \<Rightarrow> response" where
  "get_thinking sid s =
     (let level = (case session_handles s (case sid of None \<Rightarrow> ''__global__'' | Some i \<Rightarrow> i) of
                     None \<Rightarrow> ''off''
                   | Some h \<Rightarrow> (case thinking (arcs s ! h) of None \<Rightarrow> ''off'' | Some l \<Rightarrow> l))
      in (200, JObj [(''level'', JStr level)]))"

text \<open>\<open>parse_level\<close> is pi's parser of a level, with its default for unknown ones.\<close>

definition set_thinking ::
  "(string \<Rightarrow> string) \<Rightarrow> (string \<Rightarrow> pi_handle \<Rightarrow> pi_handle res) \<Rightarrow> json \<Rightarrow> app_state
     \<Rightarrow> app_state \<times> response" where
  "set_thinking parse_level pi_set req s =
     (let sid = (case jget_str ''sessionId'' req of None \<Rightarrow> ''__global__'' | Some i \<Rightarrow> i);
          level_str = (case jget_str ''level'' req of None \<Rightarrow> ''off'' | Some l \<Rightarrow> l);
          answer = (200, ok_body [(''level'', JStr level_str)])
      in case session_handles s sid of
           None \<Rightarrow> (s, answer)
         | Some h \<Rightarrow>
             (case pi_set (parse_level level_str) (arcs s ! h) of
                Inl e \<Rightarrow> (s, 500, err_body e)
              | Inr h' \<Rightarrow> (s\<lparr>arcs := (arcs s)[h := h']\<rparr>, answer)))"

definition stop_agent :: "json \<Rightarrow> app_state \<Rightarrow> app_state \<times> response" where
  "stop_agent req s =
     (let sid = str_or_empty (jget ''sessionId'' req) in
      if sid = [] then (s, 400, err_body ''sessionId required'')
      else
        (case abort_handles s sid of
           None \<Rightarrow> (s, 200, ok_body [(''aborted'', JBool False)])
         | Some a \<Rightarrow> (s\<lparr>aborted := insert a (aborted s)\<rparr>, 200, ok_body [(''aborted'', JBool True)])))"

definition get_project :: "string option \<Rightarrow> string option \<Rightarrow> app_state \<Rightarrow> response" where
  "get_project process_dir sid s =
     (200, JObj [(''cwd'', JStr (case sid of
        Some i \<Rightarrow> (case session_cwd s i of None \<Rightarrow> ''/'' | Some d \<Rightarrow> d)
      | None \<Rightarrow> (case process_dir of None \<Rightarrow> ''/'' | Some d \<Rightarrow> d)))])"

definition put_cwd :: "string \<Rightarrow> json \<Rightarrow> json" where
  "put_cwd cwd j =
     (case jget ''metadata'' j of
        Some m \<Rightarrow> json_insert ''metadata'' (json_insert ''cwd'' (JStr cwd) m) j
      | None \<Rightarrow> json_insert ''metadata'' (JObj [(''cwd'', JStr cwd)]) j)"

definition set_project ::
  "(string \<Rightarrow> bool) \<Rightarrow> faults \<Rightarrow> string option \<Rightarrow> string \<Rightarrow> string \<Rightarrow> string \<Rightarrow> string \<Rightarrow> string \<Rightarrow> string
     \<Rightarrow> string option \<Rightarrow> app_state \<Rightarrow> app_state \<times> response" where
  "set_project uuid_ok f home now now1 now2 uuid uuid2 cwd sid s =
     (let fresh = new_session_json uuid now (JObj []);
          data = (case sid of
                    None \<Rightarrow> fresh
                  | Some i \<Rightarrow> (case load_session uuid_ok home i (stored s) of
                                 Inr (Some j) \<Rightarrow> j | _ \<Rightarrow> fresh));
          data = put_cwd cwd data;
          (fs, r) = (case sid of
                       Some i \<Rightarrow> (fst (update_session uuid_ok f home now1 i data (stored s)), Inr i)
                     | None \<Rightarrow> create_session f home uuid2 now1 now2 data (stored s))
      in case r of
           Inl e \<Rightarrow> (s\<lparr>stored := fs\<rparr>, 500, err_body e)
         | Inr i \<Rightarrow>
             (s\<lparr>stored := fs, session_cwd := (session_cwd s)(i \<mapsto> cwd),
                session_handles := (session_handles s)(i := None)\<rparr>,
              201, ok_body [(''sessionId'', JStr i), (''cwd'', JStr cwd)]))"

datatype platform = MacOS | Linux | OtherOS

text \<open>\<open>probe\<close>: \<open>/usr/bin/sandbox-exec\<close> exists, \<open>which bwrap\<close> succeeds.\<close>

definition detect_sandbox_availability :: "platform \<Rightarrow> bool \<Rightarrow> bool \<times> string option" where
  "detect_sandbox_availability os probe =
     (let dash = [CHR 0xE2, CHR 0x80, CHR 0x94] in
      case os of
        MacOS \<Rightarrow> if probe then (True, None)
          else (False, Some (''sandbox-exec not found '' @ dash @ '' tool execution runs unsandboxed.''))
      | Linux \<Rightarrow> if probe then (True, None)
          else (False, Some (''bwrap (bubblewrap) not found '' @ dash @ '' tool execution runs unsandboxed.''))
      | OtherOS \<Rightarrow> (False, Some ''Sandboxing is not supported on this platform.''))"


section \<open>Properties\<close>

definition object_metadata :: "json \<Rightarrow> bool" where
  "object_metadata j =
     (case j of JObj kvs \<Rightarrow> (case map_of kvs ''metadata'' of Some (JObj _) \<Rightarrow> True | None \<Rightarrow> True | _ \<Rightarrow> False)
      | _ \<Rightarrow> False)"

lemma put_cwd_get: "object_metadata j \<Longrightarrow> Option.bind (jget ''metadata'' (put_cwd cwd j)) (jget_str ''cwd'') = Some cwd"
  by (auto simp: object_metadata_def put_cwd_def json_insert_def jget_str_def split: json.splits option.splits)

lemma metadata_stamp: "jget ''metadata'' (stamp_update now j) = jget ''metadata'' j"
  by (cases j) (simp_all add: stamp_update_def)

lemma metadata_stamp_new: "jget ''metadata'' (stamp_new u a b j) = jget ''metadata'' j"
  by (cases j) (simp_all add: stamp_new_def)

lemma load_after_upd:
  "uuid_ok i \<Longrightarrow> load_session uuid_ok home i (fs(active_path home i \<mapsto> Doc j)) = Inr (Some j)"
  by (simp add: load_session_def validate_session_id_def read_session_def)

lemma load_some: "load_session uuid_ok home i fs = Inr (Some j) \<Longrightarrow> uuid_ok i \<and> fs (active_path home i) = Some (Doc j)"
  by (auto simp: load_session_def validate_session_id_def read_session_def
      split: if_splits option.splits session_file.splits)

text \<open>Choosing a project directory takes effect: an answer 201 names the session, the next
  question for its directory gives the new one, its agent is dropped, so the next prompt makes one
  that works in that directory, and no other session changes. A stored session gets the directory
  into its metadata. For an id under which nothing is stored the answer is the same, but nothing is
  written.\<close>

theorem set_project_takes_effect:
  assumes "set_project uuid_ok f home now now1 now2 uuid uuid2 cwd sid s = (s', 201, body)"
  shows "\<exists>i. (case sid of None \<Rightarrow> i = uuid2 | Some j \<Rightarrow> i = j) \<and>
    body = ok_body [(''sessionId'', JStr i), (''cwd'', JStr cwd)] \<and>
    get_project pd (Some i) s' = (200, JObj [(''cwd'', JStr cwd)]) \<and>
    session_handles s' i = None \<and>
    opt_dir (options_for token i (the (session_cwd s' i)) s') = (if cwd = [] then None else Some cwd) \<and>
    (\<forall>j. j \<noteq> i \<longrightarrow> session_cwd s' j = session_cwd s j \<and> session_handles s' j = session_handles s j) \<and>
    (case load_session uuid_ok home i (stored s) of
       Inr (Some j) \<Rightarrow>
         f = no_faults \<longrightarrow> object_metadata j \<longrightarrow> sid \<noteq> None \<longrightarrow>
         (\<exists>j'. load_session uuid_ok home i (stored s') = Inr (Some j') \<and>
            Option.bind (jget ''metadata'' j') (jget_str ''cwd'') = Some cwd)
     | Inr None \<Rightarrow> sid \<noteq> None \<longrightarrow> stored s' = stored s
     | _ \<Rightarrow> True)"
proof (cases sid)
  case None
  then show ?thesis
    using assms
    by (auto simp: set_project_def Let_def create_session_def get_project_def options_for_def
        split: option.splits sum.splits prod.splits if_splits)
next
  case (Some i)
  let ?data = "case load_session uuid_ok home i (stored s) of Inr (Some j) \<Rightarrow> j
    | _ \<Rightarrow> new_session_json uuid now (JObj [])"
  have s': "s' = s\<lparr>stored := fst (update_session uuid_ok f home now1 i (put_cwd cwd ?data) (stored s)),
      session_cwd := (session_cwd s)(i \<mapsto> cwd), session_handles := (session_handles s)(i := None)\<rparr>"
    and b: "body = ok_body [(''sessionId'', JStr i), (''cwd'', JStr cwd)]"
    using assms Some by (simp_all add: set_project_def Let_def)
  have "case load_session uuid_ok home i (stored s) of
       Inr (Some j) \<Rightarrow>
         f = no_faults \<longrightarrow> object_metadata j \<longrightarrow> sid \<noteq> None \<longrightarrow>
         (\<exists>j'. load_session uuid_ok home i (stored s') = Inr (Some j') \<and>
            Option.bind (jget ''metadata'' j') (jget_str ''cwd'') = Some cwd)
     | Inr None \<Rightarrow> sid \<noteq> None \<longrightarrow> stored s' = stored s
     | _ \<Rightarrow> True"
  proof (cases "load_session uuid_ok home i (stored s)")
    case (Inr v)
    show ?thesis
    proof (cases v)
      case None
      then have "stored s (active_path home i) = None"
        using Inr by (auto simp: load_session_def split: sum.splits option.splits)
      then show ?thesis using Inr None by (simp add: s' update_session_def split: sum.split)
    next
      case (Some j)
      then have u: "uuid_ok i" "stored s (active_path home i) = Some (Doc j)"
        using Inr load_some [of uuid_ok home i "stored s" j] by simp_all
      have "stored s' = (stored s)(active_path home i \<mapsto> Doc (stamp_update now1 (put_cwd cwd j)))"
        if "f = no_faults"
        using u Inr Some that by (simp add: s' update_session_def validate_session_id_def)
      then show ?thesis
        using Inr Some u(1) put_cwd_get [of j cwd] by (auto simp: load_after_upd metadata_stamp)
    qed
  qed simp
  then show ?thesis using Some b by (simp add: s' get_project_def options_for_def Let_def)
qed

theorem set_project_takes_effect_witness:
  "session_cwd (fst (set_project demo_ok no_faults None ''t'' ''t'' ''t'' ''a'' ''u1'' ''/p'' None
     (app_state_new Map.empty))) ''u1'' = Some ''/p''"
proof -
  obtain s' b where r: "set_project demo_ok no_faults None ''t'' ''t'' ''t'' ''a'' ''u1'' ''/p'' None
     (app_state_new Map.empty) = (s', 201, b)"
    by (simp add: set_project_def create_session_def Let_def)
  from set_project_takes_effect [OF r, of None "\<lambda>_. None"]
  have "get_project None (Some ''u1'') s' = (200, JObj [(''cwd'', JStr ''/p'')])" by auto
  then show ?thesis using r by (simp add: get_project_def split: option.splits)
qed

text \<open>The id that creating an agent session answers is not the id of a session: the session is
  stored under, and holds, an id generated afterwards. Looking the answered id up finds nothing.\<close>

theorem agent_session_answers_other_id:
  assumes "agent_create_session of_text env a kc api f home now now1 now2 uuid uuid2 uuid3 metadata fs
      = (fs', 201, body)"
    and "uuid_ok uuid" "uuid_ok uuid2" "uuid \<noteq> uuid2" "load_session uuid_ok home uuid fs = Inr None"
  shows "\<exists>answered found. jget ''session'' body = Some answered \<and> jget_str ''id'' answered = Some uuid \<and>
    load_session uuid_ok home uuid fs' = Inr None \<and>
    load_session uuid_ok home uuid2 fs' = Inr (Some found) \<and> jget_str ''id'' found = Some uuid2 \<and>
    jget ''metadata'' found = jget ''metadata'' answered"
proof -
  obtain meta where m: "fs' = fs(active_path home uuid2 \<mapsto> Doc (stamp_new uuid2 now1 now2 (new_session_json uuid now meta)))"
    "body = ok_body [(''session'', new_session_json uuid now meta)]"
    using assms(1)
    by (auto simp: agent_create_session_def Let_def create_session_def split: option.splits)
  have "load_session uuid_ok home uuid fs' = Inr None"
    using assms(2,4,5) by (auto simp: m(1) load_session_def validate_session_id_def split: option.splits sum.splits)
  then show ?thesis
    using assms(3) unfolding m(2)
    by (simp add: m(1) load_after_upd ok_body_def metadata_stamp_new new_session_json_def jget_str_def stamp_new_def)
qed

theorem agent_session_answers_other_id_witness:
  "load_session demo_ok None ''u1'' (fst (agent_create_session (\<lambda>_. Inl ''e'') Map.empty KcWorks Map.empty
     (ApiStatus ''e'') no_faults None ''t'' ''t'' ''t'' ''u1'' ''u2'' ''u3'' None Map.empty)) = Inr None"
proof -
  obtain fs b where r: "agent_create_session (\<lambda>_. Inl ''e'') Map.empty KcWorks Map.empty
     (ApiStatus ''e'') no_faults None ''t'' ''t'' ''t'' ''u1'' ''u2'' ''u3'' None Map.empty = (fs, 201, b)"
    by (simp add: agent_create_session_def create_session_def Let_def)
  have "load_session demo_ok None ''u1'' Map.empty = Inr None"
    by (simp add: load_session_def validate_session_id_def demo_ok_def)
  from agent_session_answers_other_id [OF r _ _ _ this] r show ?thesis by (auto simp: demo_ok_def)
qed

end
