(* ===== verification/Ws_Events.thy ===== *)
theory Ws_Events
  imports Json_Value
begin

text \<open>
  What the frontend hears of an agent: \<open>src-tauri/src/server/ws_events.rs\<close>. The events are those of
  the library pi that the code distinguishes; the rest is \<open>OtherEvent\<close>. The frame is given as the
  JSON value the code prints.
\<close>

datatype content_block = TextBlock string | OtherBlock

datatype assistant_event =
    TextDelta string
  | ThinkingDelta string
  | ToolCallDelta string
  | ToolCallEnd string string json
  | StartEvent
  | OtherAssistantEvent

datatype agent_event =
    MessageStart
  | MessageUpdate assistant_event
  | MessageEnd
  | ToolExecutionStart string string json
  | ToolExecutionUpdate string string "content_block list"
  | ToolExecutionEnd string string "content_block list" bool
  | AgentEnd
  | OtherEvent

definition derive_status_from_tool :: "string \<Rightarrow> string" where
  "derive_status_from_tool tool_name =
     (let n = map (\<lambda>c. if c = CHR ''_'' then CHR ''-'' else c) (to_lowercase tool_name);
          has = str_contains n
      in if has ''read'' \<or> has ''file'' then ''Reading files...''
         else if has ''glob'' \<or> has ''find'' then ''Finding files...''
         else if has ''grep'' \<or> has ''search'' then ''Searching codebase...''
         else if has ''web-search'' \<or> has ''web_search'' then ''Searching the web...''
         else if has ''web-fetch'' \<or> has ''web_fetch'' then ''Fetching content...''
         else if has ''bash'' \<or> has ''shell'' \<or> has ''exec'' then ''Running commands...''
         else if has ''write'' \<or> has ''create'' then ''Writing files...''
         else if has ''edit'' \<or> has ''patch'' then ''Editing files...''
         else if has ''mcp'' then
           (if has ''read'' then ''Reading files...''
            else if has ''write'' then ''Writing files...''
            else if has ''list'' \<or> has ''dir'' then ''Listing directory...''
            else if has ''search'' then ''Searching...''
            else ''Working...'')
         else ''Working on your request...'')"

fun tool_output_text :: "content_block list \<Rightarrow> string" where
  "tool_output_text [] = []"
| "tool_output_text (TextBlock t # bs) = t @ tool_output_text bs"
| "tool_output_text (OtherBlock # bs) = tool_output_text bs"

text \<open>The event type and the payload of a delta.\<close>

definition delta_of :: "assistant_event \<Rightarrow> (string \<times> json) option" where
  "delta_of e =
     (case e of
        TextDelta d \<Rightarrow> Some (''text_delta'', JObj [(''type'', JStr ''text''), (''text'', JStr d)])
      | ThinkingDelta d \<Rightarrow> Some (''thinking_delta'', JObj [(''type'', JStr ''thinking''), (''thinking'', JStr d)])
      | ToolCallDelta d \<Rightarrow> Some (''toolcall_delta'', JObj [(''type'', JStr ''tool_call_delta''), (''delta'', JStr d)])
      | ToolCallEnd i n a \<Rightarrow> Some (''toolcall_end'',
          JObj [(''type'', JStr ''tool_call''), (''toolCallId'', JStr i), (''toolName'', JStr n), (''input'', a)])
      | StartEvent \<Rightarrow> None
      | OtherAssistantEvent \<Rightarrow> None)"

definition tool_fields :: "string \<Rightarrow> string \<Rightarrow> string \<Rightarrow> string \<Rightarrow> (string \<times> json) list" where
  "tool_fields ty sid i n =
     [(''type'', JStr ty), (''sessionId'', JStr sid), (''toolCallId'', JStr i), (''toolName'', JStr n)]"

definition pi_event_to_ws_json :: "agent_event \<Rightarrow> string \<Rightarrow> json option" where
  "pi_event_to_ws_json e sid =
     (case e of
        MessageStart \<Rightarrow> Some (JObj [(''type'', JStr ''message_start''), (''sessionId'', JStr sid),
          (''message'', JObj [(''role'', JStr ''assistant'')])])
      | MessageUpdate a \<Rightarrow>
          (case delta_of a of
             None \<Rightarrow> None
           | Some (t, d) \<Rightarrow> Some (JObj [(''type'', JStr ''message_update''), (''sessionId'', JStr sid),
               (''eventType'', JStr t), (''delta'', d)]))
      | MessageEnd \<Rightarrow> Some (JObj [(''type'', JStr ''message_end''), (''sessionId'', JStr sid),
          (''message'', JObj [])])
      | ToolExecutionStart i n a \<Rightarrow> Some (JObj (tool_fields ''tool_execution_start'' sid i n @
          [(''args'', a), (''status'', JStr (derive_status_from_tool n))]))
      | ToolExecutionUpdate i n out \<Rightarrow> Some (JObj (tool_fields ''tool_execution_update'' sid i n @
          [(''partialResult'', JStr (tool_output_text out))]))
      | ToolExecutionEnd i n out err \<Rightarrow> Some (JObj (tool_fields ''tool_execution_end'' sid i n @
          [(''result'', JStr (tool_output_text out)), (''isError'', JBool err)]))
      | AgentEnd \<Rightarrow> Some (JObj [(''type'', JStr ''agent_end''), (''sessionId'', JStr sid)])
      | OtherEvent \<Rightarrow> None)"

section \<open>What the client can read back\<close>

text \<open>The text a client puts together from the frames of a turn: the deltas, in order.\<close>

definition frame_text :: "json \<Rightarrow> string" where
  "frame_text j =
     (if jget_str ''eventType'' j = Some ''text_delta''
      then (case Option.bind (jget ''delta'' j) (jget_str ''text'') of Some t \<Rightarrow> t | None \<Rightarrow> [])
      else [])"

definition event_text :: "agent_event \<Rightarrow> string" where
  "event_text e = (case e of MessageUpdate (TextDelta d) \<Rightarrow> d | _ \<Rightarrow> [])"

definition frames_of :: "string \<Rightarrow> agent_event list \<Rightarrow> json list" where
  "frames_of sid es = List.map_filter (\<lambda>e. pi_event_to_ws_json e sid) es"

lemma frames_of_simps [simp]:
  "frames_of sid [] = []"
  "frames_of sid (e # es) = (case pi_event_to_ws_json e sid of None \<Rightarrow> [] | Some j \<Rightarrow> [j]) @ frames_of sid es"
  by (simp_all add: frames_of_def List.map_filter_def split: option.split)

lemma frames_of_append [simp]: "frames_of sid (es @ fs) = frames_of sid es @ frames_of sid fs"
  by (induction es) simp_all

lemma frame_text_event: "(case pi_event_to_ws_json e sid of None \<Rightarrow> [] | Some j \<Rightarrow> frame_text j) = event_text e"
  by (auto simp: pi_event_to_ws_json_def delta_of_def frame_text_def event_text_def jget_str_def tool_fields_def
      split: agent_event.split assistant_event.split)

lemma frames_text: "concat (map frame_text (frames_of sid es)) = concat (map event_text es)"
proof (induction es)
  case Nil
  then show ?case by simp
next
  case (Cons e es)
  then show ?case using frame_text_event [of e sid] by (auto split: option.splits)
qed

lemma frames_session: "j \<in> set (frames_of sid es) \<Longrightarrow> jget_str ''sessionId'' j = Some sid"
  by (induction es)
     (auto simp: pi_event_to_ws_json_def tool_fields_def jget_str_def
       split: option.splits agent_event.splits assistant_event.splits)

end
