(* ===== verification/Ws_Server.thy ===== *)
theory Ws_Server
  imports Agent_Api Ws_Events
begin

text \<open>
  The WebSocket server of \<open>src-tauri/src/server/ws.rs\<close> and the approvals of \<open>approval.rs\<close>.

  A connection handles one message at a time. Every handler but \<open>handle_prompt\<close> is one function. A
  prompt is a program of stages, cut where it waits for a lock, for pi or for events; the agent's
  task it spawns runs beside it. Stages of several connections, agent tasks and HTTP requests
  interleave in the step relation \<open>ws_step\<close>.

  The task calls \<open>prompt_with_abort\<close>, which owns the callback and with it the only sender of events:
  when the turn ends the channel closes, and only then, after a failure, does the task put the error
  into its one-shot channel.
\<close>

section \<open>Messages\<close>

record ws_msg =
  m_type :: string
  m_session :: string
  m_content :: string
  m_text :: string
  m_cwd :: string
  m_data :: json

definition field_values :: "string list \<Rightarrow> (string \<times> json) list \<Rightarrow> json list" where
  "field_values ks kvs = map snd (filter (\<lambda>kv. fst kv \<in> set ks) kvs)"

text \<open>\<open>null_to_empty_string\<close> with \<open>serde(default)\<close>; a field given twice is an error.\<close>

definition optional_string :: "json list \<Rightarrow> string option" where
  "optional_string vs =
     (case vs of [] \<Rightarrow> Some [] | [JNull] \<Rightarrow> Some [] | [JStr s] \<Rightarrow> Some s | _ \<Rightarrow> None)"

definition ws_msg_of_json :: "json \<Rightarrow> ws_msg option" where
  "ws_msg_of_json j =
     (case j of
        JObj kvs \<Rightarrow>
          (case (field_values [''type''] kvs,
                 optional_string (field_values [''session_id'', ''sessionId''] kvs),
                 optional_string (field_values [''content''] kvs),
                 optional_string (field_values [''text''] kvs),
                 optional_string (field_values [''cwd''] kvs),
                 field_values [''data''] kvs) of
             ([JStr t], Some sid, Some c, Some tx, Some d, ds) \<Rightarrow>
               (case ds of
                  [] \<Rightarrow> Some \<lparr>m_type = t, m_session = sid, m_content = c, m_text = tx, m_cwd = d, m_data = JNull\<rparr>
                | [v] \<Rightarrow> Some \<lparr>m_type = t, m_session = sid, m_content = c, m_text = tx, m_cwd = d, m_data = v\<rparr>
                | _ \<Rightarrow> None)
           | _ \<Rightarrow> None)
      | _ \<Rightarrow> None)"

definition validate_ws_message :: "ws_msg \<Rightarrow> unit res" where
  "validate_ws_message m =
     (if m_type m = [] then Inl ''Message type cannot be empty''
      else if \<not> list_all (\<lambda>c. is_alphanumeric c \<or> c = CHR '':'' \<or> c = CHR ''-'' \<or> c = CHR ''_'') (m_type m)
        then Inl ''Invalid message type format''
      else if 64 < length (m_session m) then Inl ''Session ID too long''
      else if 1024 * 1024 < length (m_content m) then Inl ''Message content too large''
      else Inr ())"

text \<open>What the server sends: text frames, given by their JSON value.\<close>

definition ws_error :: "string \<Rightarrow> json" where
  "ws_error e = JObj [(''type'', JStr ''error''), (''message'', JStr e)]"

section \<open>Approvals\<close>

record approvals =
  waiting :: "string set"
  decisions :: "(string \<times> bool) list"

definition approvals_new :: approvals where
  "approvals_new = \<lparr>waiting = {}, decisions = []\<rparr>"

definition respond :: "string \<Rightarrow> bool \<Rightarrow> approvals \<Rightarrow> approvals \<times> bool" where
  "respond i approved a =
     (if i \<in> waiting a
      then (a\<lparr>waiting := waiting a - {i}, decisions := decisions a @ [(i, approved)]\<rparr>, True)
      else (a, False))"

definition approval_of_json :: "json \<Rightarrow> (string \<times> bool) option" where
  "approval_of_json j =
     (case j of
        JObj kvs \<Rightarrow>
          (case (field_values [''id''] kvs, field_values [''approved''] kvs) of
             ([JStr i], [JBool b]) \<Rightarrow> Some (i, b) | _ \<Rightarrow> None)
      | _ \<Rightarrow> None)"

section \<open>The state\<close>

record ws_meta =
  connected_at :: string
  meta_session :: "string option"

text \<open>The agent's task of one prompt: waiting for the session's mutex, running the turn, failed with
  the error not yet in its channel, over.\<close>

datatype task = Waiting | Working | Failed string | Over

text \<open>A prompt from the moment its abort handle exists. \<open>emitted\<close>, \<open>received\<close> and \<open>base\<close> record what
  the agent has emitted, what the handler has taken from the channel, and the frames the client had
  been sent before.\<close>

record turn =
  t_conn :: string
  t_session :: string
  t_prompt :: string
  t_handle :: nat
  t_abort :: nat
  t_task :: task
  channel :: "agent_event list"
  open_sender :: bool
  error_box :: "string option"
  emitted :: "agent_event list"
  received :: "agent_event list"
  base :: "json list"

text \<open>Where the handler of a prompt is: its session and text, then the number of its turn.\<close>

datatype stage =
    Lookup string string
  | ReadCwd string string
  | ReadModel string string string
  | Making string string session_options
  | Arming string string nat
  | Forwarding nat
  | Reporting nat
  | Completing nat
  | Disarming nat
  | Labelling nat

record ws_server =
  app :: app_state
  conns :: "string \<rightharpoonup> ws_meta"
  prompts :: "string \<rightharpoonup> stage"
  turns :: "turn list"
  sent :: "string \<Rightarrow> json list"
  gone :: "string set"
  approval :: approvals

definition ws_init :: "files \<Rightarrow> ws_server" where
  "ws_init fs = \<lparr>app = app_state_new fs, conns = Map.empty, prompts = Map.empty, turns = [],
     sent = (\<lambda>_. []), gone = {}, approval = approvals_new\<rparr>"

text \<open>Sending to a client that is gone fails, which only the forwarding loop notices.\<close>

definition send :: "string \<Rightarrow> json \<Rightarrow> ws_server \<Rightarrow> ws_server" where
  "send c j s = (if c \<in> gone s then s else s\<lparr>sent := (sent s)(c := sent s c @ [j])\<rparr>)"

definition set_stage :: "string \<Rightarrow> stage option \<Rightarrow> ws_server \<Rightarrow> ws_server" where
  "set_stage c st s = s\<lparr>prompts := (prompts s)(c := st)\<rparr>"

definition on_turn :: "nat \<Rightarrow> (turn \<Rightarrow> turn) \<Rightarrow> ws_server \<Rightarrow> ws_server" where
  "on_turn t f s = s\<lparr>turns := (turns s)[t := f (turns s ! t)]\<rparr>"

section \<open>Handlers\<close>

definition handle_join :: "string \<Rightarrow> ws_msg \<Rightarrow> ws_server \<Rightarrow> ws_server" where
  "handle_join c m s =
     send c (JObj [(''type'', JStr ''join:ack''), (''session_id'', JStr (m_session m)), (''subscribed'', JBool True)])
       (s\<lparr>conns := (case conns s c of None \<Rightarrow> conns s
                    | Some meta \<Rightarrow> (conns s)(c \<mapsto> meta\<lparr>meta_session := Some (m_session m)\<rparr>))\<rparr>)"

definition cleared :: "string \<Rightarrow> string \<Rightarrow> json" where
  "cleared sid cwd = JObj [(''type'', JStr ''chat_cleared''), (''sessionId'', JStr sid), (''cwd'', JStr cwd)]"

definition handle_new_chat ::
  "(session_options \<Rightarrow> pi_handle res) \<Rightarrow> (string \<Rightarrow> string option) \<Rightarrow> string \<Rightarrow> string \<Rightarrow> ws_msg \<Rightarrow> ws_server
     \<Rightarrow> ws_server" where
  "handle_new_chat pi_make token uuid c m s =
     (let a = (app s)\<lparr>session_cwd := (session_cwd (app s))(uuid \<mapsto> m_cwd m)\<rparr> in
      case create_pi_session pi_make token uuid (m_cwd m) a of
        (a', Inr _) \<Rightarrow> send c (cleared uuid (m_cwd m)) (s\<lparr>app := a'\<rparr>)
      | (a', Inl e) \<Rightarrow> send c (ws_error (''Failed to create session: '' @ e)) (s\<lparr>app := a'\<rparr>))"

definition handle_approval_response :: "string \<Rightarrow> ws_msg \<Rightarrow> ws_server \<Rightarrow> ws_server" where
  "handle_approval_response c m s =
     (case approval_of_json (m_data m) of
        None \<Rightarrow> s
      | Some (i, b) \<Rightarrow>
          (case respond i b (approval s) of
             (a, ok) \<Rightarrow>
               send c (JObj [(''type'', JStr ''approval:ack''), (''success'', JBool ok)]) (s\<lparr>approval := a\<rparr>)))"

text \<open>The beginning of \<open>handle_prompt\<close>, up to the first lock.\<close>

definition begin_prompt :: "string \<Rightarrow> string \<Rightarrow> ws_msg \<Rightarrow> ws_server \<Rightarrow> ws_server" where
  "begin_prompt uuid c m s =
     (let user_text = (if m_text m \<noteq> [] then m_text m else m_content m) in
      if user_text = [] then send c (ws_error ''prompt requires non-empty text'') s
      else if m_session m = [] then set_stage c (Some (Lookup uuid user_text)) (send c (cleared uuid []) s)
      else set_stage c (Some (Lookup (m_session m) user_text)) s)"

definition dispatch_message ::
  "(session_options \<Rightarrow> pi_handle res) \<Rightarrow> (string \<Rightarrow> string option) \<Rightarrow> string \<Rightarrow> string \<Rightarrow> ws_msg \<Rightarrow> ws_server
     \<Rightarrow> ws_server" where
  "dispatch_message pi_make token uuid c m s =
     (if m_type m = ''join'' then handle_join c m s
      else if m_type m = ''new_chat'' then handle_new_chat pi_make token uuid c m s
      else if m_type m = ''prompt'' \<or> m_type m = ''agent:message'' then begin_prompt uuid c m s
      else if m_type m = ''steer'' then
        send c (JObj [(''type'', JStr ''steer:ack''), (''session_id'', JStr (m_session m)), (''success'', JBool True)]) s
      else if m_type m = ''sandbox_approval_response'' \<or> m_type m = ''approval:response''
        then handle_approval_response c m s
      else send c (ws_error (''Unknown message type: '' @ m_type m)) s)"

datatype ws_input = TextMsg string | BinaryMsg | CloseMsg | PingMsg | PongMsg | ErrorMsg

definition disconnect :: "string \<Rightarrow> ws_server \<Rightarrow> ws_server" where
  "disconnect c s = s\<lparr>conns := (conns s)(c := None)\<rparr>"

text \<open>One turn of the loop of \<open>handle_socket\<close>. A pong has no JSON value and is left out.\<close>

definition handle_input ::
  "(string \<Rightarrow> json res) \<Rightarrow> (session_options \<Rightarrow> pi_handle res) \<Rightarrow> (string \<Rightarrow> string option) \<Rightarrow> string \<Rightarrow> string
     \<Rightarrow> ws_input \<Rightarrow> ws_server \<Rightarrow> ws_server" where
  "handle_input of_text pi_make token uuid c i s =
     (case i of
        TextMsg t \<Rightarrow>
          if 1024 * 1024 < length t then disconnect c (send c (ws_error ''Message exceeds 1 MB limit'') s)
          else
            (case Option.bind (res_ok (of_text t)) ws_msg_of_json of
               None \<Rightarrow> send c (ws_error ''Invalid JSON message format'') s
             | Some m \<Rightarrow>
                 (case validate_ws_message m of
                    Inl e \<Rightarrow> send c (ws_error e) s
                  | Inr _ \<Rightarrow> dispatch_message pi_make token uuid c m s))
      | BinaryMsg \<Rightarrow> send c (ws_error ''Binary messages not supported'') s
      | CloseMsg \<Rightarrow> disconnect c s
      | PingMsg \<Rightarrow> s
      | PongMsg \<Rightarrow> s
      | ErrorMsg \<Rightarrow> disconnect c s)"

definition connect :: "string \<Rightarrow> string \<Rightarrow> ws_server \<Rightarrow> ws_server" where
  "connect c now s = s\<lparr>conns := (conns s)(c \<mapsto> \<lparr>connected_at = now, meta_session = None\<rparr>)\<rparr>"

definition get_active_connections :: "ws_server \<Rightarrow> nat" where
  "get_active_connections s = card (dom (conns s))"


section \<open>The stages of a prompt\<close>

text \<open>What pi, the keychain and the file system are to the server.\<close>

record ws_env =
  env_of_text :: "string \<Rightarrow> json res"
  env_pi_make :: "session_options \<Rightarrow> pi_handle res"
  env_token :: "string \<Rightarrow> string option"
  env_uuid_ok :: "string \<Rightarrow> bool"
  env_home :: "string option"
  env_parse_level :: "string \<Rightarrow> string"
  env_pi_set :: "string \<Rightarrow> pi_handle \<Rightarrow> pi_handle res"

text \<open>Creating the abort handle and spawning the agent's task.\<close>

definition arm :: "string \<Rightarrow> string \<Rightarrow> string \<Rightarrow> nat \<Rightarrow> ws_server \<Rightarrow> ws_server" where
  "arm c sid tx h s =
     (let a = next_abort (app s) in
      set_stage c (Some (Forwarding (length (turns s))))
        (s\<lparr>app := (app s)\<lparr>next_abort := Suc a, abort_handles := (abort_handles (app s))(sid \<mapsto> a)\<rparr>,
           turns := turns s @ [\<lparr>t_conn = c, t_session = sid, t_prompt = tx, t_handle = h, t_abort = a,
             t_task = Waiting, channel = [], open_sender = True, error_box = None, emitted = [],
             received = [], base = sent s c\<rparr>]\<rparr>))"

text \<open>The forwarding loop: \<open>None\<close> while it waits for an event.\<close>

definition forward :: "string \<Rightarrow> nat \<Rightarrow> ws_server \<Rightarrow> ws_server option" where
  "forward c t s =
     (case channel (turns s ! t) of
        [] \<Rightarrow> if open_sender (turns s ! t) then None else Some (set_stage c (Some (Reporting t)) s)
      | e # es \<Rightarrow>
          let s1 = on_turn t (\<lambda>u. u\<lparr>channel := es, received := received u @ [e]\<rparr>) s in
          (case pi_event_to_ws_json e (t_session (turns s ! t)) of
             None \<Rightarrow> Some s1
           | Some j \<Rightarrow>
               if c \<in> gone s then Some (set_stage c (Some (Reporting t)) s1) else Some (send c j s1)))"

definition agent_error :: "string \<Rightarrow> json" where
  "agent_error e = ws_error (''Agent error: '' @ e)"

definition prompt_complete :: "string \<Rightarrow> json" where
  "prompt_complete sid = JObj [(''type'', JStr ''prompt_complete''), (''session_id'', JStr sid)]"

text \<open>The label of a session that has none; \<open>key\<close> is the API key, \<open>label\<close> the generated label.\<close>

definition label_session ::
  "(string \<Rightarrow> bool) \<Rightarrow> string option \<Rightarrow> string option \<Rightarrow> string \<Rightarrow> faults \<Rightarrow> string \<Rightarrow> string \<Rightarrow> string \<Rightarrow> ws_server
     \<Rightarrow> ws_server" where
  "label_session uuid_ok home key label f now c sid s =
     (if key = None then s
      else
        (case load_session uuid_ok home sid (stored (app s)) of
           Inr (Some j) \<Rightarrow>
             (if str_or_empty (Option.bind (jget ''metadata'' j) (jget ''label'')) \<noteq> [] then s
              else
                (let j' = (case jget ''metadata'' j of
                             Some m \<Rightarrow> json_insert ''metadata'' (json_insert ''label'' (JStr label) m) j
                           | None \<Rightarrow> j)
                 in send c (JObj [(''type'', JStr ''session_label_updated''), (''sessionId'', JStr sid),
                        (''label'', JStr label)])
                      (s\<lparr>app := (app s)\<lparr>stored := fst (update_session uuid_ok f home now sid j'
                        (stored (app s)))\<rparr>\<rparr>)))
         | _ \<Rightarrow> s))"

definition advance ::
  "ws_env \<Rightarrow> string option \<Rightarrow> string \<Rightarrow> faults \<Rightarrow> string \<Rightarrow> string \<Rightarrow> stage \<Rightarrow> ws_server \<Rightarrow> ws_server option" where
  "advance env key label f now c st s =
     (case st of
        Lookup sid tx \<Rightarrow>
          Some (set_stage c (Some (case session_handles (app s) sid of
            Some h \<Rightarrow> Arming sid tx h | None \<Rightarrow> ReadCwd sid tx)) s)
      | ReadCwd sid tx \<Rightarrow>
          Some (set_stage c (Some (ReadModel sid tx (case session_cwd (app s) sid of None \<Rightarrow> [] | Some d \<Rightarrow> d))) s)
      | ReadModel sid tx cwd \<Rightarrow>
          Some (set_stage c (Some (Making sid tx (options_for (env_token env) sid cwd (app s)))) s)
      | Making sid tx opts \<Rightarrow>
          (case env_pi_make env opts of
             Inl e \<Rightarrow> Some (set_stage c None
               (send c (ws_error (''Could not create session: pi session init: '' @ e)) s))
           | Inr h \<Rightarrow>
               (case register_handle sid h (app s) of
                  (a, i) \<Rightarrow> Some (set_stage c (Some (Arming sid tx i)) (s\<lparr>app := a\<rparr>))))
      | Arming sid tx h \<Rightarrow> Some (arm c sid tx h s)
      | Forwarding t \<Rightarrow> forward c t s
      | Reporting t \<Rightarrow>
          Some (set_stage c (Some (Completing t))
            (case error_box (turns s ! t) of
               None \<Rightarrow> s
             | Some e \<Rightarrow> send c (agent_error e) (on_turn t (\<lambda>u. u\<lparr>error_box := None\<rparr>) s)))
      | Completing t \<Rightarrow>
          Some (set_stage c (Some (Disarming t)) (send c (prompt_complete (t_session (turns s ! t))) s))
      | Disarming t \<Rightarrow>
          Some (set_stage c (Some (Labelling t))
            (s\<lparr>app := (app s)\<lparr>abort_handles := (abort_handles (app s))(t_session (turns s ! t) := None)\<rparr>\<rparr>))
      | Labelling t \<Rightarrow>
          Some (set_stage c None
            (label_session (env_uuid_ok env) (env_home env) key label f now c (t_session (turns s ! t)) s)))"

section \<open>The agent's task\<close>

datatype task_event = Lock | Emit agent_event | Finish | Fail string | PutError

definition holds_lock :: "turn \<Rightarrow> bool" where
  "holds_lock u = (case t_task u of Working \<Rightarrow> True | Failed _ \<Rightarrow> True | _ \<Rightarrow> False)"

definition handle_free :: "nat \<Rightarrow> turn list \<Rightarrow> bool" where
  "handle_free h us = list_all (\<lambda>u. t_handle u = h \<longrightarrow> \<not> holds_lock u) us"

definition task_move :: "task_event \<Rightarrow> nat \<Rightarrow> ws_server \<Rightarrow> ws_server option" where
  "task_move ev t s =
     (if \<not> t < length (turns s) then None
      else
        (case (ev, t_task (turns s ! t)) of
           (Lock, Waiting) \<Rightarrow>
             if handle_free (t_handle (turns s ! t)) (turns s)
             then Some (on_turn t (\<lambda>u. u\<lparr>t_task := Working\<rparr>) s) else None
         | (Emit e, Working) \<Rightarrow>
             Some (on_turn t (\<lambda>u. u\<lparr>channel := channel u @ [e], emitted := emitted u @ [e]\<rparr>) s)
         | (Finish, Working) \<Rightarrow> Some (on_turn t (\<lambda>u. u\<lparr>t_task := Over, open_sender := False\<rparr>) s)
         | (Fail e, Working) \<Rightarrow> Some (on_turn t (\<lambda>u. u\<lparr>t_task := Failed e, open_sender := False\<rparr>) s)
         | (PutError, Failed e) \<Rightarrow> Some (on_turn t (\<lambda>u. u\<lparr>t_task := Over, error_box := Some e\<rparr>) s)
         | _ \<Rightarrow> None))"

section \<open>Steps of the server\<close>

datatype ws_move =
    Connect string string
  | Input string string ws_input
  | Vanish string
  | Advance string "string option" string faults string
  | TaskMove nat task_event
  | Stop json
  | SetModel string string "string option"
  | SetThinking json
  | SetProject faults string string string string string string "string option"

definition ws_move :: "ws_env \<Rightarrow> ws_move \<Rightarrow> ws_server \<Rightarrow> ws_server option" where
  "ws_move env m s =
     (case m of
        Connect c now \<Rightarrow>
          if conns s c = None \<and> prompts s c = None \<and> c \<notin> gone s then Some (connect c now s) else None
      | Input c uuid i \<Rightarrow>
          if conns s c \<noteq> None \<and> prompts s c = None \<and> (c \<notin> gone s \<or> i = CloseMsg \<or> i = ErrorMsg)
          then Some (handle_input (env_of_text env) (env_pi_make env) (env_token env) uuid c i s) else None
      | Vanish c \<Rightarrow> Some (s\<lparr>gone := insert c (gone s)\<rparr>)
      | Advance c key label f now \<Rightarrow>
          (case prompts s c of None \<Rightarrow> None | Some st \<Rightarrow> advance env key label f now c st s)
      | TaskMove t ev \<Rightarrow> task_move ev t s
      | Stop req \<Rightarrow> Some (s\<lparr>app := fst (stop_agent req (app s))\<rparr>)
      | SetModel p i sid \<Rightarrow> Some (s\<lparr>app := fst (set_model p i sid (app s))\<rparr>)
      | SetThinking req \<Rightarrow>
          Some (s\<lparr>app := fst (set_thinking (env_parse_level env) (env_pi_set env) req (app s))\<rparr>)
      | SetProject f now now1 now2 uuid uuid2 cwd sid \<Rightarrow>
          Some (s\<lparr>app := fst (set_project (env_uuid_ok env) f (env_home env) now now1 now2 uuid uuid2 cwd sid
            (app s))\<rparr>))"

fun stage_turn :: "stage \<Rightarrow> nat option" where
  "stage_turn (Forwarding t) = Some t"
| "stage_turn (Reporting t) = Some t"
| "stage_turn (Completing t) = Some t"
| "stage_turn (Disarming t) = Some t"
| "stage_turn (Labelling t) = Some t"
| "stage_turn _ = None"

fun stage_session :: "ws_server \<Rightarrow> stage \<Rightarrow> string" where
  "stage_session s (Lookup sid _) = sid"
| "stage_session s (ReadCwd sid _) = sid"
| "stage_session s (ReadModel sid _ _) = sid"
| "stage_session s (Making sid _ _) = sid"
| "stage_session s (Arming sid _ _) = sid"
| "stage_session s (Forwarding t) = t_session (turns s ! t)"
| "stage_session s (Reporting t) = t_session (turns s ! t)"
| "stage_session s (Completing t) = t_session (turns s ! t)"
| "stage_session s (Disarming t) = t_session (turns s ! t)"
| "stage_session s (Labelling t) = t_session (turns s ! t)"

text \<open>No two connections run prompts of the same session.\<close>

definition sessions_apart :: "ws_server \<Rightarrow> bool" where
  "sessions_apart s = (\<forall>c d st st'. prompts s c = Some st \<longrightarrow> prompts s d = Some st' \<longrightarrow> c \<noteq> d \<longrightarrow>
     stage_session s st \<noteq> stage_session s st')"

text \<open>The states of a run; of a run on which no prompts of one session overlap when \<open>apart\<close> is set.\<close>

inductive ws_reach :: "bool \<Rightarrow> ws_env \<Rightarrow> ws_server \<Rightarrow> bool" for apart :: bool and env :: ws_env where
  Init: "ws_reach apart env (ws_init fs)"
| Next: "ws_reach apart env s \<Longrightarrow> ws_move env m s = Some s' \<Longrightarrow> (apart \<longrightarrow> sessions_apart s') \<Longrightarrow>
    ws_reach apart env s'"

end
