(* ===== verification/Ws_Invariants.thy ===== *)
theory Ws_Invariants
  imports Ws_Server
begin

text \<open>
  The invariants of the WebSocket server and its properties: every reference points to an object,
  the frames of a prompt are those of its turn, one turn at a time works on an agent session, and
  the abort handle that \<open>POST /api/stop\<close> finds is that of the running turn.
\<close>

section \<open>The invariant\<close>

definition handles_ok :: "app_state \<Rightarrow> bool" where
  "handles_ok a = (\<forall>sid h. session_handles a sid = Some h \<longrightarrow> h < length (arcs a))"

definition stage_ok :: "ws_server \<Rightarrow> string \<Rightarrow> stage \<Rightarrow> bool" where
  "stage_ok s c st =
     ((\<forall>sid tx h. st = Arming sid tx h \<longrightarrow> h < length (arcs (app s))) \<and>
      (\<forall>t. stage_turn st = Some t \<longrightarrow> t < length (turns s) \<and> t_conn (turns s ! t) = c))"

definition turn_ok :: "turn \<Rightarrow> bool" where
  "turn_ok u =
     (emitted u = received u @ channel u \<and>
      (open_sender u \<longleftrightarrow> t_task u = Waiting \<or> t_task u = Working) \<and>
      (t_task u = Waiting \<longrightarrow> emitted u = []))"

definition drained :: "turn \<Rightarrow> bool" where
  "drained u = (channel u = [] \<and> \<not> open_sender u)"

definition error_report :: "json list \<Rightarrow> bool" where
  "error_report es = (es = [] \<or> (\<exists>e. es = [agent_error e]))"

text \<open>What the client has been sent when the handler is at a stage of the turn.\<close>

definition forwarded :: "turn \<Rightarrow> json list" where
  "forwarded u = base u @ frames_of (t_session u) (received u)"

fun said :: "stage \<Rightarrow> turn \<Rightarrow> json list \<Rightarrow> bool" where
  "said (Forwarding t) u js = (js = forwarded u)"
| "said (Reporting t) u js = (drained u \<and> js = forwarded u)"
| "said (Completing t) u js = (drained u \<and> (\<exists>es. error_report es \<and> js = forwarded u @ es))"
| "said (Disarming t) u js =
     (drained u \<and> (\<exists>es. error_report es \<and> js = forwarded u @ es @ [prompt_complete (t_session u)]))"
| "said (Labelling t) u js =
     (drained u \<and> (\<exists>es. error_report es \<and> js = forwarded u @ es @ [prompt_complete (t_session u)]))"
| "said _ u js = True"

definition refs_ok :: "ws_server \<Rightarrow> bool" where
  "refs_ok s =
     (handles_ok (app s) \<and>
      (\<forall>c st. prompts s c = Some st \<longrightarrow> stage_ok s c st) \<and>
      (\<forall>sid a. abort_handles (app s) sid = Some a \<longrightarrow>
         (\<exists>u \<in> set (turns s). t_abort u = a \<and> t_session u = sid)) \<and>
      (\<forall>u \<in> set (turns s). t_handle u < length (arcs (app s)) \<and> t_abort u < next_abort (app s)) \<and>
      distinct (map t_abort (turns s)) \<and> aborted (app s) \<subseteq> t_abort ` set (turns s))"

definition stream_ok :: "ws_server \<Rightarrow> bool" where
  "stream_ok s =
     ((\<forall>u \<in> set (turns s). turn_ok u) \<and>
      (\<forall>c st t. prompts s c = Some st \<longrightarrow> stage_turn st = Some t \<longrightarrow> c \<notin> gone s \<longrightarrow>
         said st (turns s ! t) (sent s c)) \<and>
      (\<forall>t < length (turns s). open_sender (turns s ! t) \<longrightarrow> t_conn (turns s ! t) \<notin> gone s \<longrightarrow>
         prompts s (t_conn (turns s ! t)) = Some (Forwarding t)))"

definition mutex_ok :: "turn list \<Rightarrow> bool" where
  "mutex_ok us = (\<forall>t u. t < length us \<longrightarrow> u < length us \<longrightarrow> t \<noteq> u \<longrightarrow>
     holds_lock (us ! t) \<longrightarrow> holds_lock (us ! u) \<longrightarrow> t_handle (us ! t) \<noteq> t_handle (us ! u))"

definition armed_ok :: "ws_server \<Rightarrow> bool" where
  "armed_ok s = (\<forall>c st t. prompts s c = Some st \<longrightarrow> stage_turn st = Some t \<longrightarrow> st \<noteq> Labelling t \<longrightarrow>
     abort_handles (app s) (t_session (turns s ! t)) = Some (t_abort (turns s ! t)))"

definition ws_ok :: "bool \<Rightarrow> ws_server \<Rightarrow> bool" where
  "ws_ok apart s = (refs_ok s \<and> stream_ok s \<and> mutex_ok (turns s) \<and> (apart \<longrightarrow> armed_ok s))"

lemma refs_abort:
  assumes "refs_ok s" "abort_handles (app s) sid = Some a"
  obtains i where "i < length (turns s)" "t_abort (turns s ! i) = a" "t_session (turns s ! i) = sid"
proof -
  obtain u where "u \<in> set (turns s)" "t_abort u = a" "t_session u = sid"
    using assms unfolding refs_ok_def by blast
  then show ?thesis using that by (auto simp: in_set_conv_nth)
qed

section \<open>Steps that leave the turns alone\<close>

text \<open>What a step does that only concerns connection \<open>c\<close> before its prompt has a turn.\<close>

definition quiet :: "string \<Rightarrow> ws_server \<Rightarrow> ws_server \<Rightarrow> bool" where
  "quiet c s s' =
     (turns s' = turns s \<and> gone s' = gone s \<and>
      (\<forall>d. d \<noteq> c \<longrightarrow> prompts s' d = prompts s d \<and> sent s' d = sent s d) \<and>
      (\<forall>st. prompts s c = Some st \<longrightarrow> stage_turn st = None) \<and>
      (\<forall>st. prompts s' c = Some st \<longrightarrow> stage_turn st = None \<and> stage_ok s' c st) \<and>
      abort_handles (app s') = abort_handles (app s) \<and> next_abort (app s') = next_abort (app s) \<and>
      aborted (app s') = aborted (app s) \<and> length (arcs (app s)) \<le> length (arcs (app s')) \<and>
      (handles_ok (app s) \<longrightarrow> handles_ok (app s')))"

lemma stage_ok_mono:
  "stage_ok s c st \<Longrightarrow> turns s' = turns s \<Longrightarrow> length (arcs (app s)) \<le> length (arcs (app s')) \<Longrightarrow> stage_ok s' c st"
  by (auto simp: stage_ok_def)

lemma quiet_ok:
  assumes "quiet c s s'" "ws_ok apart s" shows "ws_ok apart s'"
proof -
  have pr: "prompts s' d = Some st \<Longrightarrow> stage_turn st = Some t \<Longrightarrow> d \<noteq> c \<and> prompts s d = Some st" for d st t
    using assms(1) by (cases "d = c") (auto simp: quiet_def)
  have fw: "prompts s d = Some (Forwarding t) \<Longrightarrow> prompts s' d = Some (Forwarding t)" for d t
    using assms(1) by (cases "d = c") (auto simp: quiet_def)
  have st: "stage_ok s' d st" if p: "prompts s' d = Some st" for d st
  proof (cases "d = c")
    case True
    then show ?thesis using assms(1) p by (simp add: quiet_def)
  next
    case False
    then have "prompts s d = Some st" using assms(1) p by (simp add: quiet_def)
    then have "stage_ok s d st" using assms(2) by (simp add: ws_ok_def refs_ok_def)
    then show ?thesis using assms(1) by (auto simp: quiet_def intro: stage_ok_mono)
  qed
  have eq: "turns s' = turns s" "gone s' = gone s" "abort_handles (app s') = abort_handles (app s)"
    "next_abort (app s') = next_abort (app s)" "aborted (app s') = aborted (app s)"
    and le: "length (arcs (app s)) \<le> length (arcs (app s'))"
    and sd: "d \<noteq> c \<Longrightarrow> sent s' d = sent s d" for d
    using assms(1) by (simp_all add: quiet_def)
  have refs: "refs_ok s" and stream: "stream_ok s" using assms(2) by (simp_all add: ws_ok_def)
  have "handles_ok (app s')" using assms(1) refs by (simp add: quiet_def refs_ok_def)
  then have "refs_ok s'"
    using refs st le unfolding refs_ok_def eq by (meson less_le_trans)
  moreover have "stream_ok s'"
    unfolding stream_ok_def eq
  proof (intro conjI allI impI)
    show "\<forall>u \<in> set (turns s). turn_ok u" using stream by (simp add: stream_ok_def)
    show "said st (turns s ! t) (sent s' d)"
      if "prompts s' d = Some st" "stage_turn st = Some t" "d \<notin> gone s" for d st t
      using pr [OF that(1,2)] that(2,3) sd [of d] stream by (simp add: stream_ok_def)
    show "prompts s' (t_conn (turns s ! t)) = Some (Forwarding t)"
      if "t < length (turns s)" "open_sender (turns s ! t)" "t_conn (turns s ! t) \<notin> gone s" for t
      using that stream by (intro fw) (simp add: stream_ok_def)
  qed
  moreover have "armed_ok s'" if "armed_ok s"
    using that pr unfolding armed_ok_def eq by blast
  ultimately show ?thesis using assms by (auto simp: ws_ok_def quiet_def)
qed

lemma send_simps [simp]:
  "turns (send c j s) = turns s" "gone (send c j s) = gone s" "prompts (send c j s) = prompts s"
  "app (send c j s) = app s" "conns (send c j s) = conns s" "approval (send c j s) = approval s"
  by (simp_all add: send_def)

lemma sent_send: "sent (send c j s) d = (if d = c \<and> c \<notin> gone s then sent s c @ [j] else sent s d)"
  by (simp add: send_def)

lemma set_stage_simps [simp]:
  "turns (set_stage c st s) = turns s" "gone (set_stage c st s) = gone s"
  "prompts (set_stage c st s) = (prompts s)(c := st)" "app (set_stage c st s) = app s"
  "sent (set_stage c st s) = sent s"
  by (simp_all add: set_stage_def)

lemma on_turn_simps [simp]:
  "turns (on_turn t f s) = (turns s)[t := f (turns s ! t)]" "gone (on_turn t f s) = gone s"
  "prompts (on_turn t f s) = prompts s" "app (on_turn t f s) = app s" "sent (on_turn t f s) = sent s"
  by (simp_all add: on_turn_def)

lemma register_handle_ok:
  "register_handle sid h a = (a', i) \<Longrightarrow>
     i < length (arcs a') \<and> length (arcs a) \<le> length (arcs a') \<and> (handles_ok a \<longrightarrow> handles_ok a') \<and>
     abort_handles a' = abort_handles a \<and> next_abort a' = next_abort a \<and> aborted a' = aborted a"
  by (auto simp: register_handle_def handles_ok_def less_SucI split: if_splits)

lemma create_pi_session_ok:
  "create_pi_session mk token sid cwd a = (a', r) \<Longrightarrow>
     length (arcs a) \<le> length (arcs a') \<and> (handles_ok a \<longrightarrow> handles_ok a') \<and>
     abort_handles a' = abort_handles a \<and> next_abort a' = next_abort a \<and> aborted a' = aborted a"
  using register_handle_ok [of sid _ a]
  by (auto simp: create_pi_session_def split: sum.splits prod.splits)

lemma handle_input_quiet:
  assumes "prompts s c = None"
  shows "quiet c s (handle_input of_text mk token uuid c i s)"
proof -
  have base: "quiet c s s'"
    if "turns s' = turns s" "gone s' = gone s" "prompts s' = prompts s" "app s' = app s"
      "\<And>d. d \<noteq> c \<Longrightarrow> sent s' d = sent s d" for s'
    using that assms by (simp add: quiet_def)
  have dis: "quiet c s (disconnect c s')" if "quiet c s s'" for s'
    using that by (simp add: quiet_def disconnect_def stage_ok_def)
  have snd: "quiet c s (send c j s)" for j by (rule base) (simp_all add: sent_send)
  have join: "quiet c s (handle_join c m s)" for m
    by (rule base) (simp_all add: handle_join_def sent_send)
  have appr: "quiet c s (handle_approval_response c m s)" for m
    by (rule base) (simp_all add: handle_approval_response_def sent_send split: option.split prod.split)
  have beg: "quiet c s (begin_prompt uuid c m s)" for m
    using assms by (auto simp: quiet_def begin_prompt_def Let_def stage_ok_def sent_send)
  have new: "quiet c s (handle_new_chat mk token uuid c m s)" for m
  proof -
    obtain a r where a: "create_pi_session mk token uuid (m_cwd m)
        ((app s)\<lparr>session_cwd := (session_cwd (app s))(uuid \<mapsto> m_cwd m)\<rparr>) = (a, r)"
      by (rule prod.exhaust)
    show ?thesis
      using create_pi_session_ok [OF a] assms a
      by (simp add: quiet_def handle_new_chat_def Let_def handles_ok_def sent_send split: sum.split)
  qed
  have "quiet c s (dispatch_message mk token uuid c m s)" for m
    using join appr beg new snd by (simp add: dispatch_message_def)
  then show ?thesis
    using snd dis [OF snd] dis [OF base [OF refl refl refl refl refl]] base [OF refl refl refl refl refl]
    by (simp add: handle_input_def split: ws_input.split option.split sum.split)
qed

lemma connect_quiet: "prompts s c = None \<Longrightarrow> quiet c s (connect c now s)"
  by (simp add: quiet_def connect_def)

text \<open>A step of the HTTP interface: only the shared state changes.\<close>

lemma app_step_ok:
  assumes "ws_ok apart s" "abort_handles a = abort_handles (app s)" "next_abort a = next_abort (app s)"
    and "length (arcs a) = length (arcs (app s))" "handles_ok (app s) \<Longrightarrow> handles_ok a"
    and "aborted a \<subseteq> aborted (app s) \<union> ran (abort_handles (app s))"
  shows "ws_ok apart (s\<lparr>app := a\<rparr>)"
proof -
  have refs: "refs_ok s" using assms(1) by (simp add: ws_ok_def)
  have "ran (abort_handles (app s)) \<subseteq> t_abort ` set (turns s)"
    using refs unfolding refs_ok_def ran_def by blast
  then have "aborted a \<subseteq> t_abort ` set (turns s)"
    using refs assms(6) by (auto simp: refs_ok_def)
  then have "refs_ok (s\<lparr>app := a\<rparr>)"
    using refs assms(2-5) by (simp add: refs_ok_def stage_ok_def)
  then show ?thesis
    using assms(1,2) by (simp add: ws_ok_def stream_ok_def armed_ok_def)
qed

lemma stop_ok: "ws_ok apart s \<Longrightarrow> ws_ok apart (s\<lparr>app := fst (stop_agent req (app s))\<rparr>)"
  by (rule app_step_ok)
     (auto simp: stop_agent_def Let_def handles_ok_def ran_def split: option.splits if_splits)

lemma set_model_ok: "ws_ok apart s \<Longrightarrow> ws_ok apart (s\<lparr>app := fst (set_model p i sid (app s))\<rparr>)"
  by (rule app_step_ok) (simp_all add: set_model_def handles_ok_def)

lemma set_thinking_ok: "ws_ok apart s \<Longrightarrow> ws_ok apart (s\<lparr>app := fst (set_thinking pl ps req (app s))\<rparr>)"
  by (rule app_step_ok)
     (auto simp: set_thinking_def Let_def handles_ok_def split: option.splits sum.splits)

lemma set_project_ok:
  "ws_ok apart s \<Longrightarrow>
     ws_ok apart (s\<lparr>app := fst (set_project ok f home now n1 n2 u u2 cwd sid (app s))\<rparr>)"
  by (rule app_step_ok)
     (auto simp: set_project_def Let_def handles_ok_def split: option.splits sum.splits prod.splits if_splits)

lemma vanish_ok: "ws_ok apart s \<Longrightarrow> ws_ok apart (s\<lparr>gone := insert c (gone s)\<rparr>)"
  by (auto simp: ws_ok_def refs_ok_def stream_ok_def armed_ok_def stage_ok_def)

section \<open>The agent's task\<close>

lemma turn_update_ok:
  assumes "ws_ok apart s" "t < length (turns s)" "turn_ok u'"
    and same: "t_conn u' = t_conn (turns s ! t)" "t_session u' = t_session (turns s ! t)"
      "t_handle u' = t_handle (turns s ! t)" "t_abort u' = t_abort (turns s ! t)"
      "base u' = base (turns s ! t)" "received u' = received (turns s ! t)"
    and open_ok: "open_sender u' \<Longrightarrow> open_sender (turns s ! t)"
    and drained: "drained (turns s ! t) \<Longrightarrow> drained u'"
    and lock: "holds_lock u' \<Longrightarrow> holds_lock (turns s ! t) \<or> handle_free (t_handle u') (turns s)"
  shows "ws_ok apart (s\<lparr>turns := (turns s)[t := u']\<rparr>)"
proof -
  define s' where "s' = s\<lparr>turns := (turns s)[t := u']\<rparr>"
  have s': "turns s' = (turns s)[t := u']" "app s' = app s" "prompts s' = prompts s" "gone s' = gone s"
    "sent s' = sent s"
    by (simp_all add: s'_def)
  let ?us = "(turns s)[t := u']"
  have refs: "refs_ok s" and stream: "stream_ok s" and mutex: "mutex_ok (turns s)"
    using assms(1) by (simp_all add: ws_ok_def)
  have nth: "?us ! i = (if i = t then u' else turns s ! i)" for i using assms(2) by simp
  have ses: "t_session (?us ! i) = t_session (turns s ! i)" "t_abort (?us ! i) = t_abort (turns s ! i)"
    "t_conn (?us ! i) = t_conn (turns s ! i)" for i
    by (simp_all add: nth same)
  have mp: "map t_abort ?us = map t_abort (turns s)"
    using assms(2) same(4) by (simp add: map_update list_update_same_conv)
  have fwd: "forwarded (?us ! i) = forwarded (turns s ! i)" for i
    by (simp add: nth forwarded_def same)
  have dr: "drained (turns s ! i) \<Longrightarrow> drained (?us ! i)" for i using drained by (auto simp: nth)
  have sub: "set ?us \<subseteq> insert u' (set (turns s))" by (rule set_update_subset_insert)
  have r: "refs_ok s'"
    unfolding refs_ok_def s'
  proof (intro conjI allI impI)
    show "handles_ok (app s)" using refs by (simp add: refs_ok_def)
    show "stage_ok s' c st" if "prompts s c = Some st" for c st
      using refs that by (auto simp: refs_ok_def stage_ok_def ses s')
    show "\<exists>u \<in> set ?us. t_abort u = a \<and> t_session u = sid" if ab: "abort_handles (app s) sid = Some a" for sid a
    proof -
      obtain i where "i < length (turns s)" "t_abort (turns s ! i) = a" "t_session (turns s ! i) = sid"
        using ab by (rule refs_abort [OF refs])
      then show ?thesis using ses [of i] by (intro bexI [of _ "?us ! i"]) simp_all
    qed
    show "\<forall>u \<in> set ?us. t_handle u < length (arcs (app s)) \<and> t_abort u < next_abort (app s)"
      using refs sub assms(2) same(3,4) unfolding refs_ok_def by (metis insertE nth_mem subsetD)
    show "distinct (map t_abort ?us)" using refs by (simp add: mp refs_ok_def)
    show "aborted (app s) \<subseteq> t_abort ` set ?us"
      using refs mp unfolding refs_ok_def by (metis list.set_map)
  qed
  have st: "stream_ok s'"
    unfolding stream_ok_def s'
  proof (intro conjI allI impI)
    show "\<forall>u \<in> set ?us. turn_ok u" using stream sub assms(3) by (auto simp: stream_ok_def)
    show "said st (?us ! i) (sent s c)"
      if p: "prompts s c = Some st" "stage_turn st = Some i" "c \<notin> gone s" for c st i
    proof -
      have "said st (turns s ! i) (sent s c)" using stream p by (simp add: stream_ok_def)
      then show ?thesis by (cases st) (auto simp: fwd ses dr)
    qed
    show "prompts s (t_conn (?us ! i)) = Some (Forwarding i)"
      if "i < length ?us" "open_sender (?us ! i)" "t_conn (?us ! i) \<notin> gone s" for i
    proof -
      have "open_sender (turns s ! i)" using that(2) open_ok by (simp add: nth split: if_splits)
      then show ?thesis using stream that(1,3) by (simp add: stream_ok_def ses)
    qed
  qed
  have mu: "mutex_ok ?us"
    unfolding mutex_ok_def
  proof (intro allI impI)
    fix i j assume ij: "i < length ?us" "j < length ?us" "i \<noteq> j" "holds_lock (?us ! i)" "holds_lock (?us ! j)"
    have free: "holds_lock u' \<Longrightarrow> k < length (turns s) \<Longrightarrow> k \<noteq> t \<Longrightarrow> holds_lock (turns s ! k) \<Longrightarrow>
        t_handle (turns s ! k) \<noteq> t_handle u'" for k
      using lock mutex assms(2) same(3) unfolding mutex_ok_def handle_free_def list_all_length by metis
    show "t_handle (?us ! i) \<noteq> t_handle (?us ! j)"
      using ij free [of i] free [of j] mutex unfolding mutex_ok_def nth by (auto split: if_splits)
  qed
  have "armed_ok s'" if "armed_ok s"
    using that by (simp add: armed_ok_def ses s')
  then show ?thesis using r st mu assms(1) unfolding s'_def [symmetric] by (simp add: ws_ok_def s')
qed

lemma task_move_ok:
  assumes "ws_ok apart s" "task_move ev t s = Some s'"
  shows "ws_ok apart s'"
proof -
  have t: "t < length (turns s)" using assms(2) by (simp add: task_move_def split: if_splits)
  then have u: "turn_ok (turns s ! t)" using assms(1) by (auto simp: ws_ok_def stream_ok_def)
  have s': "\<exists>u'. s' = s\<lparr>turns := (turns s)[t := u']\<rparr> \<and> turn_ok u' \<and>
      t_conn u' = t_conn (turns s ! t) \<and> t_session u' = t_session (turns s ! t) \<and>
      t_handle u' = t_handle (turns s ! t) \<and> t_abort u' = t_abort (turns s ! t) \<and>
      base u' = base (turns s ! t) \<and> received u' = received (turns s ! t) \<and>
      (open_sender u' \<longrightarrow> open_sender (turns s ! t)) \<and> (drained (turns s ! t) \<longrightarrow> drained u') \<and>
      (holds_lock u' \<longrightarrow> holds_lock (turns s ! t) \<or> handle_free (t_handle u') (turns s))"
    using assms(2) u
    by (auto simp: task_move_def on_turn_def turn_ok_def drained_def holds_lock_def
        split: if_splits task_event.splits task.splits)
  then show ?thesis using turn_update_ok [OF assms(1) t] by blast
qed

section \<open>The stages\<close>

text \<open>A step of the handler of \<open>c\<close> at turn \<open>t\<close>.\<close>

lemma stage_step_ok:
  assumes "ws_ok apart s" "prompts s c = Some st" "stage_turn st = Some t"
    and us: "turns s' = (turns s)[t := u']" and gone: "gone s' = gone s"
    and prompts: "prompts s' = (prompts s)(c := st')" and sent: "\<And>d. d \<noteq> c \<Longrightarrow> sent s' d = sent s d"
    and app: "handles_ok (app s')" "arcs (app s') = arcs (app s)" "next_abort (app s') = next_abort (app s)"
      "aborted (app s') = aborted (app s)"
    and abort: "abort_handles (app s') = abort_handles (app s) \<or>
      abort_handles (app s') = (abort_handles (app s))(t_session (turns s ! t) := None)"
    and same: "t_conn u' = t_conn (turns s ! t)" "t_session u' = t_session (turns s ! t)"
      "t_handle u' = t_handle (turns s ! t)" "t_abort u' = t_abort (turns s ! t)"
      "t_task u' = t_task (turns s ! t)" "open_sender u' = open_sender (turns s ! t)"
    and ok: "turn_ok u'" "\<And>st1. st' = Some st1 \<Longrightarrow> stage_turn st1 = Some t \<and> (c \<notin> gone s \<longrightarrow> said st1 u' (sent s' c))"
    and closed: "open_sender u' \<Longrightarrow> c \<notin> gone s \<Longrightarrow> st' = Some (Forwarding t)"
    and armed: "\<And>st1. apart \<Longrightarrow> st' = Some st1 \<Longrightarrow> st1 \<noteq> Labelling t \<Longrightarrow>
      st \<noteq> Labelling t \<and> abort_handles (app s') = abort_handles (app s)"
    and apart: "apart \<Longrightarrow> st' \<noteq> None \<Longrightarrow> sessions_apart s'"
    and kept: "st' = None \<Longrightarrow> abort_handles (app s') = abort_handles (app s)"
  shows "ws_ok apart s'"
proof -
  have refs: "refs_ok s" and stream: "stream_ok s" and mutex: "mutex_ok (turns s)"
    using assms(1) by (simp_all add: ws_ok_def)
  have t: "t < length (turns s)" "t_conn (turns s ! t) = c"
    using refs assms(2,3) by (auto simp: refs_ok_def stage_ok_def)
  have nth: "turns s' ! i = (if i = t then u' else turns s ! i)" for i using t(1) by (simp add: us)
  have ses: "t_session (turns s' ! i) = t_session (turns s ! i)" "t_abort (turns s' ! i) = t_abort (turns s ! i)"
    "t_conn (turns s' ! i) = t_conn (turns s ! i)" "t_handle (turns s' ! i) = t_handle (turns s ! i)"
    "open_sender (turns s' ! i) = open_sender (turns s ! i)" "t_task (turns s' ! i) = t_task (turns s ! i)" for i
    by (simp_all add: nth same)
  have len: "length (turns s') = length (turns s)" by (simp add: us)
  have other: "i \<noteq> t" if "prompts s d = Some st1" "stage_turn st1 = Some i" "d \<noteq> c" for d st1 i
    using refs that t(2) by (auto simp: refs_ok_def stage_ok_def)
  have mp: "map t_abort (turns s') = map t_abort (turns s)"
    using t(1) same(4) by (simp add: us map_update list_update_same_conv)
  have member: "u \<in> set (turns s') \<longleftrightarrow> (\<exists>i < length (turns s). u = turns s' ! i)" for u
    by (auto simp: in_set_conv_nth len)
  have "refs_ok s'"
    unfolding refs_ok_def
  proof (intro conjI allI impI)
    show "handles_ok (app s')" by (rule app)
    show "stage_ok s' d st1" if p: "prompts s' d = Some st1" for d st1
    proof (cases "d = c")
      case True
      then have "stage_turn st1 = Some t" using p ok(2) by (simp add: prompts)
      then show ?thesis using t True by (cases st1) (auto simp: stage_ok_def len ses)
    next
      case False
      then have "stage_ok s d st1" using p refs by (simp add: prompts refs_ok_def)
      then show ?thesis by (auto simp: stage_ok_def len ses app)
    qed
    show "\<exists>u \<in> set (turns s'). t_abort u = a \<and> t_session u = sid"
      if ab: "abort_handles (app s') sid = Some a" for sid a
    proof -
      have "abort_handles (app s) sid = Some a" using ab abort by (auto split: if_splits)
      then obtain i where "i < length (turns s)" "t_abort (turns s ! i) = a" "t_session (turns s ! i) = sid"
        by (rule refs_abort [OF refs])
      then show ?thesis using ses by (intro bexI [of _ "turns s' ! i"]) (auto simp: member)
    qed
    show "\<forall>u \<in> set (turns s'). t_handle u < length (arcs (app s')) \<and> t_abort u < next_abort (app s')"
      using refs by (auto simp: member refs_ok_def ses app)
    show "distinct (map t_abort (turns s'))" using refs by (simp add: mp refs_ok_def)
    show "aborted (app s') \<subseteq> t_abort ` set (turns s')"
      using refs mp unfolding refs_ok_def app by (metis list.set_map)
  qed
  moreover have "stream_ok s'"
    unfolding stream_ok_def gone len
  proof (intro conjI allI impI)
    show "\<forall>u \<in> set (turns s'). turn_ok u"
      using stream ok(1) by (auto simp: member nth stream_ok_def)
    show "said st1 (turns s' ! i) (sent s' d)"
      if p: "prompts s' d = Some st1" "stage_turn st1 = Some i" "d \<notin> gone s" for d st1 i
    proof (cases "d = c")
      case True
      then show ?thesis using p ok(2) [of st1] by (simp add: prompts nth)
    next
      case False
      then have q: "prompts s d = Some st1" using p(1) by (simp add: prompts)
      then show ?thesis
        using stream p(2,3) other [OF q p(2) False] sent [OF False] by (simp add: stream_ok_def nth)
    qed
    show "prompts s' (t_conn (turns s' ! i)) = Some (Forwarding i)"
      if i: "i < length (turns s)" "open_sender (turns s' ! i)" "t_conn (turns s' ! i) \<notin> gone s" for i
    proof -
      have p: "prompts s (t_conn (turns s ! i)) = Some (Forwarding i)"
        using stream i by (simp add: stream_ok_def ses)
      show ?thesis
      proof (cases "t_conn (turns s ! i) = c")
        case True
        then have "i = t" using p assms(2,3) by simp
        then show ?thesis using True closed i same(6) t(2) by (simp add: prompts ses same(1) nth)
      next
        case False
        then show ?thesis using p by (simp add: prompts ses)
      qed
    qed
  qed
  moreover have "mutex_ok (turns s')"
    using mutex by (simp add: mutex_ok_def len ses holds_lock_def)
  moreover have "armed_ok s'" if a: "apart"
    unfolding armed_ok_def ses
  proof (intro allI impI)
    fix d st1 i assume p: "prompts s' d = Some st1" "stage_turn st1 = Some i" "st1 \<noteq> Labelling i"
    have arm: "armed_ok s" using assms(1) a by (simp add: ws_ok_def)
    show "abort_handles (app s') (t_session (turns s ! i)) = Some (t_abort (turns s ! i))"
    proof (cases "d = c")
      case True
      then have i: "i = t" "st' = Some st1" using p ok(2) by (simp_all add: prompts)
      then have "st \<noteq> Labelling t" "abort_handles (app s') = abort_handles (app s)"
        using armed [OF a] p(3) by auto
      then show ?thesis using arm assms(2,3) i by (simp add: armed_ok_def)
    next
      case False
      then have q: "prompts s d = Some st1" using p(1) by (simp add: prompts)
      then have h: "abort_handles (app s) (t_session (turns s ! i)) = Some (t_abort (turns s ! i))"
        using arm p(2,3) by (simp add: armed_ok_def)
      have "t_session (turns s ! i) \<noteq> t_session (turns s ! t)" if st': "st' = Some st2" for st2
      proof -
        have "stage_session s' st1 \<noteq> stage_session s' st2"
          using apart [OF a] st' p(1) False unfolding sessions_apart_def prompts
          by (metis fun_upd_same option.distinct(1))
        moreover have "stage_session s' st1 = t_session (turns s ! i)" using p(2) by (cases st1) (simp_all add: ses)
        moreover have "stage_session s' st2 = t_session (turns s ! t)"
          using ok(2) [OF st'] by (cases st2) (simp_all add: ses)
        ultimately show ?thesis by simp
      qed
      then show ?thesis using h abort kept by (cases st') auto
    qed
  qed
  ultimately show ?thesis using assms(1) by (simp add: ws_ok_def)
qed

lemma label_session_frame:
  "turns (label_session ok home key label f now c sid s) = turns s \<and>
   gone (label_session ok home key label f now c sid s) = gone s \<and>
   prompts (label_session ok home key label f now c sid s) = prompts s \<and>
   (\<forall>d. d \<noteq> c \<longrightarrow> sent (label_session ok home key label f now c sid s) d = sent s d) \<and>
   session_handles (app (label_session ok home key label f now c sid s)) = session_handles (app s) \<and>
   arcs (app (label_session ok home key label f now c sid s)) = arcs (app s) \<and>
   next_abort (app (label_session ok home key label f now c sid s)) = next_abort (app s) \<and>
   aborted (app (label_session ok home key label f now c sid s)) = aborted (app s) \<and>
   abort_handles (app (label_session ok home key label f now c sid s)) = abort_handles (app s)"
  by (auto simp: label_session_def Let_def sent_send split: option.split sum.split)

lemma early_stage_ok:
  assumes "ws_ok apart s" "prompts s c = Some st" "stage_turn st = None" "\<And>sid tx h. st \<noteq> Arming sid tx h"
    and "advance env key label f now c st s = Some s'"
  shows "ws_ok apart s'"
proof -
  have ok: "stage_ok s c st" "handles_ok (app s)"
    using assms(1,2) by (simp_all add: ws_ok_def refs_ok_def)
  have "quiet c s s'"
  proof (cases st)
    case (Lookup sid tx)
    then show ?thesis
      using assms(2,5) ok(2)
      by (auto simp: advance_def quiet_def stage_ok_def handles_ok_def split: option.splits)
  next
    case (Making sid tx opts)
    show ?thesis
    proof (cases "env_pi_make env opts")
      case (Inl e)
      then show ?thesis using assms(2,5) Making by (auto simp: advance_def quiet_def sent_send)
    next
      case (Inr h)
      obtain a i where r: "register_handle sid h (app s) = (a, i)" by (rule prod.exhaust)
      then have s': "s' = set_stage c (Some (Arming sid tx i)) (s\<lparr>app := a\<rparr>)"
        using assms(5) Making Inr by (simp add: advance_def)
      from register_handle_ok [OF r] show ?thesis
        unfolding s' using assms(2) Making by (simp add: quiet_def stage_ok_def)
    qed
  next
    case (ReadCwd sid tx)
    then show ?thesis using assms(2,5) by (auto simp: advance_def quiet_def stage_ok_def)
  next
    case (ReadModel sid tx cwd)
    then show ?thesis using assms(2,5) by (auto simp: advance_def quiet_def stage_ok_def)
  qed (use assms(3,4) in simp_all)
  then show ?thesis using assms(1) by (rule quiet_ok)
qed

lemma arm_ok:
  assumes "ws_ok apart s" "prompts s c = Some (Arming sid tx h)" "apart \<Longrightarrow> sessions_apart (arm c sid tx h s)"
  shows "ws_ok apart (arm c sid tx h s)"
proof -
  define s' where "s' = arm c sid tx h s"
  define u where "u = \<lparr>t_conn = c, t_session = sid, t_prompt = tx, t_handle = h, t_abort = next_abort (app s),
    t_task = Waiting, channel = [], open_sender = True, error_box = None, emitted = [], received = [],
    base = sent s c\<rparr>"
  have us: "turns s' = turns s @ [u]" and pr: "prompts s' = (prompts s)(c \<mapsto> Forwarding (length (turns s)))"
    and ah: "abort_handles (app s') = (abort_handles (app s))(sid \<mapsto> next_abort (app s))"
    and eq: "gone s' = gone s" "sent s' = sent s" "arcs (app s') = arcs (app s)"
      "next_abort (app s') = Suc (next_abort (app s))" "aborted (app s') = aborted (app s)"
      "session_handles (app s') = session_handles (app s)"
    by (simp_all add: s'_def arm_def Let_def u_def)
  have refs: "refs_ok s" and stream: "stream_ok s" and mutex: "mutex_ok (turns s)"
    using assms(1) by (simp_all add: ws_ok_def)
  have h: "h < length (arcs (app s))" using refs assms(2) by (auto simp: refs_ok_def stage_ok_def)
  have st: "stage_ok s d st \<Longrightarrow> stage_ok s' d st" for d st
    by (auto simp: stage_ok_def us eq nth_append)
  have lt: "stage_turn st = Some i \<Longrightarrow> prompts s d = Some st \<Longrightarrow> i < length (turns s)" for st i d
    using refs by (auto simp: refs_ok_def stage_ok_def)
  have "refs_ok s'"
    unfolding refs_ok_def
  proof (intro conjI allI impI)
    show "handles_ok (app s')" using refs by (simp add: refs_ok_def handles_ok_def eq)
    show "stage_ok s' d st" if "prompts s' d = Some st" for d st
    proof (cases "d = c")
      case True
      then show ?thesis using that by (auto simp: pr stage_ok_def us u_def)
    next
      case False
      then have "prompts s d = Some st" using that by (simp add: pr)
      then show ?thesis using refs st by (simp add: refs_ok_def)
    qed
    show "\<exists>v \<in> set (turns s'). t_abort v = a \<and> t_session v = i"
      if "abort_handles (app s') i = Some a" for i a
      using that refs by (cases "i = sid") (auto simp: ah us u_def refs_ok_def)
    show "\<forall>v \<in> set (turns s'). t_handle v < length (arcs (app s')) \<and> t_abort v < next_abort (app s')"
      using refs h by (auto simp: us eq u_def refs_ok_def less_SucI)
    show "distinct (map t_abort (turns s'))"
      using refs by (auto simp: us u_def refs_ok_def)
    show "aborted (app s') \<subseteq> t_abort ` set (turns s')"
      using refs by (auto simp: us eq refs_ok_def)
  qed
  moreover have "stream_ok s'"
    unfolding stream_ok_def eq
  proof (intro conjI allI impI)
    show "\<forall>v \<in> set (turns s'). turn_ok v" using stream by (auto simp: us u_def stream_ok_def turn_ok_def)
    show "said st (turns s' ! i) (sent s d)"
      if p: "prompts s' d = Some st" "stage_turn st = Some i" "d \<notin> gone s" for d st i
    proof (cases "d = c")
      case True
      then show ?thesis using p by (auto simp: pr us u_def forwarded_def)
    next
      case False
      then show ?thesis using p lt [of st i d] stream by (simp add: pr us nth_append stream_ok_def)
    qed
    show "prompts s' (t_conn (turns s' ! i)) = Some (Forwarding i)"
      if i: "i < length (turns s')" "open_sender (turns s' ! i)" "t_conn (turns s' ! i) \<notin> gone s" for i
    proof (cases "i = length (turns s)")
      case True
      then show ?thesis by (simp add: us pr u_def)
    next
      case False
      then have "prompts s (t_conn (turns s ! i)) = Some (Forwarding i)"
        using i stream by (simp add: us nth_append stream_ok_def)
      then show ?thesis using False i assms(2) by (auto simp: us pr nth_append)
    qed
  qed
  moreover have "mutex_ok (turns s')"
    using mutex by (auto simp: mutex_ok_def us nth_append u_def holds_lock_def)
  moreover have "armed_ok s'" if a: apart
    unfolding armed_ok_def
  proof (intro allI impI)
    fix d st i assume p: "prompts s' d = Some st" "stage_turn st = Some i" "st \<noteq> Labelling i"
    show "abort_handles (app s') (t_session (turns s' ! i)) = Some (t_abort (turns s' ! i))"
    proof (cases "d = c")
      case True
      then show ?thesis using p by (auto simp: pr us u_def ah)
    next
      case False
      then have q: "prompts s d = Some st" "i < length (turns s)" using p lt by (auto simp: pr)
      have "stage_session s' st \<noteq> stage_session s' (Forwarding (length (turns s)))"
        using assms(3) [OF a] p(1) False unfolding s'_def [symmetric] sessions_apart_def
        by (metis fun_upd_same pr)
      moreover have "stage_session s' st = t_session (turns s ! i)"
        using p(2) q(2) by (cases st) (simp_all add: us nth_append)
      ultimately have "t_session (turns s ! i) \<noteq> sid" by (simp add: us u_def)
      then show ?thesis
        using assms(1) a q p(2,3) by (simp add: ws_ok_def armed_ok_def ah us nth_append)
    qed
  qed
  ultimately show ?thesis by (simp add: ws_ok_def s'_def)
qed

lemma stage_facts:
  assumes "ws_ok apart s" "prompts s c = Some st" "stage_turn st = Some t"
  shows "t < length (turns s)" "turn_ok (turns s ! t)" "handles_ok (app s)"
    "c \<notin> gone s \<Longrightarrow> said st (turns s ! t) (sent s c)" "(turns s)[t := turns s ! t] = turns s"
    "open_sender (turns s ! t) \<Longrightarrow> c \<notin> gone s \<Longrightarrow> st = Forwarding t"
proof -
  show t: "t < length (turns s)" using assms by (auto simp: ws_ok_def refs_ok_def stage_ok_def)
  have c: "t_conn (turns s ! t) = c" using assms by (auto simp: ws_ok_def refs_ok_def stage_ok_def)
  show "turn_ok (turns s ! t)" using assms(1) t by (simp add: ws_ok_def stream_ok_def)
  show "handles_ok (app s)" using assms(1) by (simp add: ws_ok_def refs_ok_def)
  show "said st (turns s ! t) (sent s c)" if "c \<notin> gone s"
    using that assms by (simp add: ws_ok_def stream_ok_def)
  show "(turns s)[t := turns s ! t] = turns s" by simp
  show "st = Forwarding t" if "open_sender (turns s ! t)" "c \<notin> gone s"
    using that assms(1,2) t c by (auto simp: ws_ok_def stream_ok_def)
qed

lemma forward_ok:
  assumes "ws_ok apart s" "prompts s c = Some (Forwarding t)" "forward c t s = Some s'"
    "apart \<Longrightarrow> sessions_apart s'"
  shows "ws_ok apart s'"
proof -
  note f = stage_facts [OF assms(1,2) stage_turn.simps(1)]
  let ?u = "turns s ! t"
  show ?thesis
  proof (cases "channel ?u")
    case Nil
    then have closed: "\<not> open_sender ?u" and s': "s' = set_stage c (Some (Reporting t)) s"
      using assms(3) by (auto simp: forward_def split: if_splits)
    show ?thesis
      by (rule stage_step_ok [OF assms(1,2), of t s' ?u "Some (Reporting t)"])
         (use f closed Nil assms(4) in \<open>simp_all add: s' drained_def\<close>)
  next
    case (Cons e es)
    let ?v = "?u\<lparr>channel := es, received := received ?u @ [e]\<rparr>"
    have v: "turn_ok ?v" using f(2) Cons by (auto simp: turn_ok_def)
    consider
      (skip) "pi_event_to_ws_json e (t_session ?u) = None" "s' = on_turn t (\<lambda>_. ?v) s"
    | (break) j where "pi_event_to_ws_json e (t_session ?u) = Some j" "c \<in> gone s"
        "s' = set_stage c (Some (Reporting t)) (on_turn t (\<lambda>_. ?v) s)"
    | (fwd) j where "pi_event_to_ws_json e (t_session ?u) = Some j" "c \<notin> gone s"
        "s' = send c j (on_turn t (\<lambda>_. ?v) s)"
      using assms(3) Cons by (auto simp: forward_def Let_def on_turn_def split: option.splits if_splits)
    then show ?thesis
    proof cases
      case skip
      show ?thesis
        by (rule stage_step_ok [OF assms(1,2), of t s' ?v "Some (Forwarding t)"])
           (use f v skip assms(2,4) in \<open>simp_all add: fun_upd_idem forwarded_def\<close>)
    next
      case break
      show ?thesis
        by (rule stage_step_ok [OF assms(1,2), of t s' ?v "Some (Reporting t)"])
           (use f v break assms(4) in simp_all)
    next
      case fwd
      show ?thesis
        by (rule stage_step_ok [OF assms(1,2), of t s' ?v "Some (Forwarding t)"])
           (use f v fwd assms(2,4) in \<open>simp_all add: fun_upd_idem forwarded_def sent_send\<close>)
    qed
  qed
qed

lemma advance_ok:
  assumes "ws_ok apart s" "prompts s c = Some st" "advance env key label f now c st s = Some s'"
    "apart \<longrightarrow> sessions_apart s'"
  shows "ws_ok apart s'"
proof (cases "stage_turn st")
  case None
  show ?thesis
  proof (cases "\<exists>sid tx h. st = Arming sid tx h")
    case True
    then show ?thesis using arm_ok assms by (auto simp: advance_def)
  next
    case False
    then show ?thesis using early_stage_ok [OF assms(1,2) None _ assms(3)] by blast
  qed
next
  case (Some t)
  note f = stage_facts [OF assms(1,2) Some]
  let ?u = "turns s ! t"
  show ?thesis
  proof (cases st)
    case (Forwarding t')
    then show ?thesis using forward_ok [of apart s c t' s'] assms by (simp add: advance_def)
  next
    case (Reporting t')
    then have t': "t' = t" using Some by simp
    show ?thesis
    proof (cases "error_box ?u")
      case None
      then have s': "s' = set_stage c (Some (Completing t)) s"
        using assms(3) Reporting t' by (simp add: advance_def)
      show ?thesis
        by (rule stage_step_ok [OF assms(1,2) Some, of s' ?u "Some (Completing t)"])
           (use f assms(4) Reporting t' in \<open>auto simp: s' error_report_def\<close>)
    next
      case e: (Some e)
      let ?v = "?u\<lparr>error_box := None\<rparr>"
      have s': "s' = set_stage c (Some (Completing t)) (send c (agent_error e) (on_turn t (\<lambda>_. ?v) s))"
        using assms(3) Reporting t' e by (simp add: advance_def on_turn_def)
      have v: "turn_ok ?v" "drained ?v = drained ?u" "forwarded ?v = forwarded ?u"
        using f(2) by (auto simp: turn_ok_def drained_def forwarded_def)
      show ?thesis
        by (rule stage_step_ok [OF assms(1,2) Some, of s' ?v "Some (Completing t)"])
           (use f v assms(4) Reporting t' in \<open>auto simp: s' error_report_def sent_send\<close>)
    qed
  next
    case (Completing t')
    then have t': "t' = t" using Some by simp
    have s': "s' = set_stage c (Some (Disarming t)) (send c (prompt_complete (t_session ?u)) s)"
      using assms(3) Completing t' by (simp add: advance_def)
    show ?thesis
      by (rule stage_step_ok [OF assms(1,2) Some, of s' ?u "Some (Disarming t)"])
         (use f assms(4) Completing t' in \<open>auto simp: s' sent_send\<close>)
  next
    case (Disarming t')
    then have t': "t' = t" using Some by simp
    have s': "s' = set_stage c (Some (Labelling t))
        (s\<lparr>app := (app s)\<lparr>abort_handles := (abort_handles (app s))(t_session ?u := None)\<rparr>\<rparr>)"
      using assms(3) Disarming t' by (simp add: advance_def)
    show ?thesis
      by (rule stage_step_ok [OF assms(1,2) Some, of s' ?u "Some (Labelling t)"])
         (use f assms(4) Disarming t' in \<open>auto simp: s' handles_ok_def\<close>)
  next
    case (Labelling t')
    then have t': "t' = t" using Some by simp
    have s': "s' = set_stage c None
        (label_session (env_uuid_ok env) (env_home env) key label f now c (t_session ?u) s)"
      using assms(3) Labelling t' by (simp add: advance_def)
    show ?thesis
      by (rule stage_step_ok [OF assms(1,2) Some, of s' ?u None])
         (use f assms(4) Labelling t' label_session_frame in \<open>auto simp: s' handles_ok_def\<close>)
  qed (use Some in simp_all)
qed

lemma ws_init_ok: "ws_ok apart (ws_init fs)"
  by (simp add: ws_ok_def ws_init_def app_state_new_def refs_ok_def handles_ok_def stream_ok_def mutex_ok_def
      armed_ok_def)

lemma ws_move_ok:
  assumes "ws_ok apart s" "ws_move env m s = Some s'" "apart \<longrightarrow> sessions_apart s'"
  shows "ws_ok apart s'"
proof (cases m)
  case (Connect c now)
  then show ?thesis
    using assms(1,2) quiet_ok [OF connect_quiet [of s c now]] by (auto simp: ws_move_def split: if_splits)
next
  case (Input c uuid i)
  then show ?thesis
    using assms(1,2) quiet_ok [OF handle_input_quiet] by (auto simp: ws_move_def split: if_splits)
next
  case (Vanish c)
  then show ?thesis using assms(1,2) vanish_ok by (auto simp: ws_move_def)
next
  case (Advance c key label f now)
  then show ?thesis using assms advance_ok by (auto simp: ws_move_def split: option.splits)
next
  case (TaskMove t ev)
  then show ?thesis using assms(1,2) task_move_ok by (simp add: ws_move_def)
next
  case (Stop req)
  then show ?thesis using assms(1,2) stop_ok by (auto simp: ws_move_def)
next
  case (SetModel p i sid)
  then show ?thesis using assms(1,2) set_model_ok by (auto simp: ws_move_def)
next
  case (SetThinking req)
  then show ?thesis using assms(1,2) set_thinking_ok by (auto simp: ws_move_def)
next
  case (SetProject f now now1 now2 uuid uuid2 cwd sid)
  then show ?thesis using assms(1,2) set_project_ok by (auto simp: ws_move_def)
qed

lemma ws_reach_ok: "ws_reach apart env s \<Longrightarrow> ws_ok apart s"
  by (induction rule: ws_reach.induct) (auto intro: ws_init_ok ws_move_ok)

section \<open>Runs to evaluate\<close>

fun ws_run :: "ws_env \<Rightarrow> ws_move list \<Rightarrow> ws_server \<Rightarrow> ws_server option" where
  "ws_run env [] s = Some s"
| "ws_run env (m # ms) s = Option.bind (ws_move env m s) (ws_run env ms)"

lemma ws_run_reach: "ws_reach False env s \<Longrightarrow> ws_run env ms s = Some s' \<Longrightarrow> ws_reach False env s'"
  by (induction ms arbitrary: s) (auto simp: bind_eq_Some_conv intro: ws_reach.Next)

fun solo :: "string \<Rightarrow> ws_move \<Rightarrow> bool" where
  "solo c (Connect d now) = (d = c)"
| "solo c (Input d uuid i) = (d = c)"
| "solo c (Advance d key label f now) = (d = c)"
| "solo c (TaskMove t ev) = True"
| "solo c m = False"

lemma task_move_prompts: "task_move ev t s = Some s' \<Longrightarrow> prompts s' = prompts s"
  by (auto simp: task_move_def split: if_splits task_event.splits task.splits)

lemma advance_prompts:
  "advance env key label f now c st s = Some s' \<Longrightarrow> d \<noteq> c \<Longrightarrow> prompts s' d = prompts s d"
  by (auto simp: advance_def forward_def arm_def Let_def label_session_frame
      split: stage.splits option.splits sum.splits prod.splits list.splits if_splits)

lemma solo_prompts:
  assumes "ws_move env m s = Some s'" "solo c m" "d \<noteq> c"
  shows "prompts s' d = prompts s d"
proof (cases m)
  case (Input c' uuid i)
  then have "c' = c" "prompts s c = None"
    "s' = handle_input (env_of_text env) (env_pi_make env) (env_token env) uuid c i s"
    using assms(1,2) by (auto simp: ws_move_def split: if_splits)
  then show ?thesis
    using handle_input_quiet [of s c "env_of_text env" "env_pi_make env" "env_token env" uuid i] assms(3)
    by (simp add: quiet_def)
next
  case (Connect c' now)
  then show ?thesis using assms by (auto simp: ws_move_def connect_def split: if_splits)
next
  case (Advance c' key label f now)
  then show ?thesis using assms advance_prompts by (auto simp: ws_move_def split: option.splits)
next
  case (TaskMove t ev)
  then show ?thesis using assms task_move_prompts [of ev t s s'] by (simp add: ws_move_def)
qed (use assms in simp_all)

lemma solo_run_reach:
  "ws_reach True env s \<Longrightarrow> (\<And>d. d \<noteq> c \<Longrightarrow> prompts s d = None) \<Longrightarrow> list_all (solo c) ms \<Longrightarrow>
     ws_run env ms s = Some s' \<Longrightarrow> ws_reach True env s'"
proof (induction ms arbitrary: s)
  case Nil
  then show ?case by simp
next
  case (Cons m ms)
  obtain s1 where s1: "ws_move env m s = Some s1" "ws_run env ms s1 = Some s'"
    using Cons.prems(4) by (auto simp: bind_eq_Some_conv)
  have none: "prompts s1 d = None" if "d \<noteq> c" for d
    using solo_prompts [OF s1(1) _ that] Cons.prems(2) [OF that] Cons.prems(3) by simp
  then have "sessions_apart s1" by (auto simp: sessions_apart_def) (metis option.distinct(1))
  then have "ws_reach True env s1" using ws_reach.Next [OF Cons.prems(1) s1(1)] by simp
  then show ?case using Cons.IH none Cons.prems(3) s1(2) by simp
qed

lemma solo_reach:
  assumes "list_all (solo c) ms" "ws_run env ms (ws_init fs) = Some s"
  shows "ws_reach True env s"
  using ws_reach.Init _ assms by (rule solo_run_reach) (simp add: ws_init_def)

section \<open>Properties\<close>

text \<open>C36. The client reads exactly what the agent said. When the handler of a prompt has sent
  \<open>prompt_complete\<close> to a client that is still there, the frames sent since the prompt began are the
  frames of all events the agent emitted in that turn, in order, then at most one error frame, then
  \<open>prompt_complete\<close>; and the text deltas among them join to the text of the turn. This holds for every
  interleaving of connections, agent tasks and HTTP requests.\<close>

theorem prompt_stream_faithful:
  assumes "ws_reach apart env s" "prompts s c = Some (Disarming t)" "c \<notin> gone s"
  shows "\<exists>es. error_report es \<and>
    sent s c = base (turns s ! t) @ frames_of (t_session (turns s ! t)) (emitted (turns s ! t)) @ es @
      [prompt_complete (t_session (turns s ! t))] \<and>
    concat (map frame_text (drop (length (base (turns s ! t))) (sent s c))) =
      concat (map event_text (emitted (turns s ! t)))"
proof -
  let ?u = "turns s ! t"
  note f = stage_facts [OF ws_reach_ok [OF assms(1)] assms(2) stage_turn.simps(4)]
  from f(4) [OF assms(3)] obtain es where es: "drained ?u" "error_report es"
    "sent s c = forwarded ?u @ es @ [prompt_complete (t_session ?u)]" by auto
  have "received ?u = emitted ?u" using es(1) f(2) by (simp add: drained_def turn_ok_def)
  then have "sent s c = base ?u @ frames_of (t_session ?u) (emitted ?u) @ es @ [prompt_complete (t_session ?u)]"
    using es(3) by (simp add: forwarded_def)
  moreover have "concat (map frame_text es) = []" "frame_text (prompt_complete (t_session ?u)) = []"
    using es(2) by (auto simp: error_report_def agent_error_def ws_error_def prompt_complete_def frame_text_def
        jget_str_def)
  ultimately show ?thesis using es(2) frames_text by (intro exI [of _ es]) simp
qed

definition demo_env :: ws_env where
  "demo_env = \<lparr>env_of_text = \<lambda>_. Inr (JObj [(''type'', JStr ''prompt''), (''sessionId'', JStr ''s''),
       (''text'', JStr ''hi'')]),
     env_pi_make = \<lambda>p. Inr \<lparr>options = p, thinking = None\<rparr>, env_token = \<lambda>_. None, env_uuid_ok = \<lambda>_. False,
     env_home = None, env_parse_level = id, env_pi_set = \<lambda>_ h. Inr h\<rparr>"

definition go :: "string \<Rightarrow> ws_move" where
  "go c = Advance c None [] no_faults []"

text \<open>A connection whose prompt has reached its turn, of number 0.\<close>

definition demo_prompt :: "ws_move list" where
  "demo_prompt = [Connect ''c'' [], Input ''c'' ''u'' (TextMsg []), go ''c'', go ''c'', go ''c'', go ''c'', go ''c'',
     TaskMove 0 Lock, TaskMove 0 (Emit (MessageUpdate (TextDelta ''yes'')))]"

lemmas move_defs = ws_move_def connect_def handle_input_def dispatch_message_def begin_prompt_def set_stage_def
  validate_ws_message_def ws_msg_of_json_def field_values_def optional_string_def is_alphanumeric_def
  is_digit_def is_upper_def is_lower_def demo_env_def ws_init_def app_state_new_def go_def advance_def
  options_for_def model_override_def register_handle_def arm_def task_move_def on_turn_def handle_free_def
  holds_lock_def Let_def

lemma demo_prompt_runs:
  "\<exists>s. ws_run demo_env demo_prompt (ws_init Map.empty) = Some s \<and> prompts s ''c'' = Some (Forwarding 0) \<and>
     map t_task (turns s) = [Working] \<and> map t_session (turns s) = [''s''] \<and> map t_conn (turns s) = [''c''] \<and>
     gone s = {}"
  by (simp add: demo_prompt_def move_defs)

theorem prompt_stream_faithful_witness:
  "\<exists>s es. ws_run demo_env (demo_prompt @ [TaskMove 0 Finish, go ''c'', go ''c'', go ''c'', go ''c''])
       (ws_init Map.empty) = Some s \<and>
     sent s ''c'' = frames_of ''s'' [MessageUpdate (TextDelta ''yes'')] @ es @ [prompt_complete ''s'']"
proof -
  obtain s where r: "ws_run demo_env (demo_prompt @ [TaskMove 0 Finish, go ''c'', go ''c'', go ''c'', go ''c''])
       (ws_init Map.empty) = Some s"
    and s: "prompts s ''c'' = Some (Disarming 0)" "''c'' \<notin> gone s" "map t_session (turns s) = [''s'']"
      "map base (turns s) = [[]]" "map emitted (turns s) = [[MessageUpdate (TextDelta ''yes'')]]"
    by (simp add: demo_prompt_def move_defs forward_def pi_event_to_ws_json_def delta_of_def send_def)
  have "t_session (turns s ! 0) = ''s''" "base (turns s ! 0) = []"
    "emitted (turns s ! 0) = [MessageUpdate (TextDelta ''yes'')]"
    using s(3-5) by (auto simp: map_eq_Cons_conv)
  with prompt_stream_faithful [OF ws_run_reach [OF ws_reach.Init r] s(1,2)] r show ?thesis by auto
qed



text \<open>C37. At most one turn at a time works on an agent session, and as long as no two connections
  prompt the same session, stopping works: \<open>POST /api/stop\<close> for the session of a turn that runs for a
  connected client aborts this turn, answers that it did, and changes nothing else.\<close>

theorem stop_aborts_running_turn:
  assumes "ws_reach True env s" "t < length (turns s)" "t_task (turns s ! t) = Working"
    and "t_conn (turns s ! t) \<notin> gone s" "t_session (turns s ! t) \<noteq> []"
  shows "stop_agent (JObj [(''sessionId'', JStr (t_session (turns s ! t)))]) (app s) =
      ((app s)\<lparr>aborted := insert (t_abort (turns s ! t)) (aborted (app s))\<rparr>, 200, ok_body [(''aborted'', JBool True)])
    \<and> (\<forall>u < length (turns s). holds_lock (turns s ! u) \<longrightarrow> t_handle (turns s ! u) = t_handle (turns s ! t) \<longrightarrow> u = t)"
proof
  have ok: "ws_ok True s" using ws_reach_ok [OF assms(1)] .
  have "open_sender (turns s ! t)" using ok assms(2,3) by (auto simp: ws_ok_def stream_ok_def turn_ok_def)
  then have "prompts s (t_conn (turns s ! t)) = Some (Forwarding t)"
    using ok assms(2,4) by (simp add: ws_ok_def stream_ok_def)
  then have "abort_handles (app s) (t_session (turns s ! t)) = Some (t_abort (turns s ! t))"
    using ok by (auto simp: ws_ok_def armed_ok_def)
  then show "stop_agent (JObj [(''sessionId'', JStr (t_session (turns s ! t)))]) (app s) =
      ((app s)\<lparr>aborted := insert (t_abort (turns s ! t)) (aborted (app s))\<rparr>, 200, ok_body [(''aborted'', JBool True)])"
    using assms(5) by (simp add: stop_agent_def str_or_empty_def)
  show "\<forall>u < length (turns s). holds_lock (turns s ! u) \<longrightarrow> t_handle (turns s ! u) = t_handle (turns s ! t) \<longrightarrow> u = t"
  proof (intro allI impI)
    fix u assume u: "u < length (turns s)" "holds_lock (turns s ! u)" "t_handle (turns s ! u) = t_handle (turns s ! t)"
    have "holds_lock (turns s ! t)" using assms(3) by (simp add: holds_lock_def)
    moreover have "mutex_ok (turns s)" using ok by (simp add: ws_ok_def)
    ultimately show "u = t" using u assms(2) unfolding mutex_ok_def by blast
  qed
qed

theorem stop_aborts_running_turn_witness:
  "\<exists>s. ws_run demo_env demo_prompt (ws_init Map.empty) = Some s \<and>
     snd (stop_agent (JObj [(''sessionId'', JStr ''s'')]) (app s)) = (200, ok_body [(''aborted'', JBool True)])"
proof -
  from demo_prompt_runs obtain s where r: "ws_run demo_env demo_prompt (ws_init Map.empty) = Some s"
    and s: "map t_task (turns s) = [Working]" "map t_session (turns s) = [''s'']" "gone s = {}"
    by (elim exE conjE)
  have "ws_reach True demo_env s"
    by (rule solo_reach [OF _ r, of "''c''"]) (simp add: demo_prompt_def go_def)
  moreover have "0 < length (turns s)" "t_task (turns s ! 0) = Working" "t_session (turns s ! 0) = ''s''"
    using s(1,2) by (auto simp: map_eq_Cons_conv)
  ultimately have "stop_agent (JObj [(''sessionId'', JStr ''s'')]) (app s) =
      ((app s)\<lparr>aborted := insert (t_abort (turns s ! 0)) (aborted (app s))\<rparr>, 200, ok_body [(''aborted'', JBool True)])"
    using stop_aborts_running_turn [of demo_env s 0, THEN conjunct1] s(3) by simp
  then have "snd (stop_agent (JObj [(''sessionId'', JStr ''s'')]) (app s)) = (200, ok_body [(''aborted'', JBool True)])"
    by (simp only: snd_conv)
  with r show ?thesis by blast
qed

text \<open>With two prompts of one session in flight this is lost: there is a run on which the first
  prompt, when it is over, removes the abort handle of the second, whose turn then works for a
  connected client and cannot be stopped.\<close>

theorem overlapping_prompt_cannot_be_stopped:
  "\<exists>s t. ws_reach False demo_env s \<and> t < length (turns s) \<and> t_task (turns s ! t) = Working \<and>
     t_conn (turns s ! t) \<notin> gone s \<and>
     stop_agent (JObj [(''sessionId'', JStr (t_session (turns s ! t)))]) (app s) =
       (app s, 200, ok_body [(''aborted'', JBool False)])"
proof -
  let ?moves = "demo_prompt @ [Connect ''d'' [], Input ''d'' ''u'' (TextMsg []), go ''d'', go ''d'',
    TaskMove 0 Finish, TaskMove 1 Lock, go ''c'', go ''c'', go ''c'', go ''c'', go ''c'']"
  obtain s where r: "ws_run demo_env ?moves (ws_init Map.empty) = Some s"
    and s: "map t_task (turns s) = [Over, Working]" "map t_session (turns s) = [''s'', ''s'']"
      "gone s = {}" "abort_handles (app s) ''s'' = None"
    by (simp add: demo_prompt_def move_defs forward_def pi_event_to_ws_json_def delta_of_def send_def)
  have "length (turns s) = 2" using s(1) by (metis length_map length_Cons list.size(3) numeral_2_eq_2)
  then have "1 < length (turns s)" "t_task (turns s ! 1) = Working" "t_session (turns s ! 1) = ''s''"
    using s(1,2) by (auto simp: map_eq_Cons_conv)
  then show ?thesis
    using ws_run_reach [OF ws_reach.Init r] s(3,4)
    by (intro exI [of _ s] exI [of _ 1]) (simp add: stop_agent_def str_or_empty_def)
qed

text \<open>An agent's failure can be lost: there is a run on which the turn fails with the client
  connected, and the client is sent \<open>prompt_complete\<close> and no error, because the handler looks for the
  error after the event channel is closed and before the task has put it there.\<close>

theorem agent_error_can_be_lost:
  "\<exists>s t. ws_reach True demo_env s \<and> prompts s ''c'' = Some (Disarming t) \<and> ''c'' \<notin> gone s \<and>
     t_task (turns s ! t) = Failed ''e'' \<and> sent s ''c'' = [prompt_complete ''s'']"
proof -
  let ?moves = "[Connect ''c'' [], Input ''c'' ''u'' (TextMsg []), go ''c'', go ''c'', go ''c'', go ''c'', go ''c'',
     TaskMove 0 Lock, TaskMove 0 (Fail ''e''), go ''c'', go ''c'', go ''c'']"
  obtain s where r: "ws_run demo_env ?moves (ws_init Map.empty) = Some s"
    and s: "map t_task (turns s) = [Failed ''e'']" "prompts s ''c'' = Some (Disarming 0)"
      "gone s = {}" "sent s ''c'' = [prompt_complete ''s'']"
    by (simp add: move_defs forward_def send_def)
  have "ws_reach True demo_env s"
    by (rule solo_reach [OF _ r, of "''c''"]) (simp add: go_def)
  then show ?thesis using s by (intro exI [of _ s] exI [of _ 0]) (auto simp: map_eq_Cons_conv)
qed

end
