(* ===== verification/Mcp_Catalog.thy ===== *)
theory Mcp_Catalog
  imports Json_Value
begin

text \<open>
  The catalog of remote MCP servers, \<open>src-tauri/src/server/mcp_catalog.rs\<close>: its entries, one
  definition per category of the source, in its order. Every entry requires a token, has a
  documentation URL and no logo.
\<close>

record catalog_entry =
  slug :: string
  entry_name :: string
  entry_description :: string
  category :: string
  url :: string
  docs_url :: "string option"
  requires_token :: bool
  logo_svg :: "string option"

definition entry :: "string \<Rightarrow> string \<Rightarrow> string \<Rightarrow> string \<Rightarrow> string \<Rightarrow> string \<Rightarrow> catalog_entry" where
  "entry s n d c u docs = \<lparr>slug = s, entry_name = n, entry_description = d, category = c, url = u,
     docs_url = Some docs, requires_token = True, logo_svg = None\<rparr>"

definition productivity_entries :: "catalog_entry list" where
  "productivity_entries =
    [entry ''atlassian'' ''Atlassian''
       ''Connect Jira, Confluence, and other Atlassian tools''
       ''Productivity'' ''https://mcp.atlassian.com/v1/mcp'' ''https://developer.atlassian.com/cloud/mcp'',
     entry ''notion'' ''Notion''
       ''Access and manage your Notion workspace''
       ''Productivity'' ''https://mcp.notion.com/v1'' ''https://developers.notion.com/docs/mcp'',
     entry ''linear'' ''Linear''
       ''Manage Linear issues and projects''
       ''Productivity'' ''https://mcp.linear.app/sse'' ''https://linear.app/docs/mcp'',
     entry ''zapier'' ''Zapier''
       ''Automate workflows across thousands of apps''
       ''Productivity'' ''https://mcp.zapier.com/v1'' ''https://zapier.com/docs/mcp'',
     entry ''asana'' ''Asana''
       ''Manage tasks and projects in Asana''
       ''Productivity'' ''https://mcp.asana.com/v1'' ''https://developers.asana.com/docs/mcp'',
     entry ''airtable'' ''Airtable''
       ''Access and modify Airtable bases and records''
       ''Productivity'' ''https://mcp.airtable.com/v1'' ''https://airtable.com/developers/web/api/introduction'',
     entry ''monday'' ''Monday.com''
       ''Manage boards and items in Monday.com''
       ''Productivity'' ''https://mcp.monday.com/v1'' ''https://developer.monday.com/apps/docs/mcp'',
     entry ''clickup'' ''ClickUp''
       ''Manage tasks and docs in ClickUp''
       ''Productivity'' ''https://mcp.clickup.com/v1'' ''https://clickup.com/api/developer-portal/mcp'',
     entry ''trello'' ''Trello''
       ''Access boards, lists and cards in Trello''
       ''Productivity'' ''https://mcp.trello.com/v1'' ''https://developer.atlassian.com/cloud/trello/api'',
     entry ''coda'' ''Coda''
       ''Read and write Coda docs and tables''
       ''Productivity'' ''https://mcp.coda.io/v1'' ''https://coda.io/developers/apis/v1'']"

definition google_entries :: "catalog_entry list" where
  "google_entries =
    [entry ''google-drive'' ''Google Drive''
       ''Access and manage files in Google Drive''
       ''Google'' ''https://mcp.googleapis.com/drive/v1'' ''https://developers.google.com/drive/api'',
     entry ''gmail'' ''Gmail''
       ''Read and send emails via Gmail''
       ''Google'' ''https://mcp.googleapis.com/gmail/v1'' ''https://developers.google.com/gmail/api/guides'',
     entry ''google-calendar'' ''Google Calendar''
       ''Manage events in Google Calendar''
       ''Google'' ''https://mcp.googleapis.com/calendar/v1'' ''https://developers.google.com/calendar/api'',
     entry ''google-docs'' ''Google Docs''
       ''Create and edit Google Docs''
       ''Google'' ''https://mcp.googleapis.com/docs/v1'' ''https://developers.google.com/docs/api'',
     entry ''google-sheets'' ''Google Sheets''
       ''Read and write Google Sheets spreadsheets''
       ''Google'' ''https://mcp.googleapis.com/sheets/v1'' ''https://developers.google.com/sheets/api'',
     entry ''google-slides'' ''Google Slides''
       ''Create and manage Google Slides presentations''
       ''Google'' ''https://mcp.googleapis.com/slides/v1'' ''https://developers.google.com/slides/api'',
     entry ''youtube'' ''YouTube''
       ''Access YouTube data and manage content''
       ''Google'' ''https://mcp.googleapis.com/youtube/v1'' ''https://developers.google.com/youtube/v3'']"

definition development_entries :: "catalog_entry list" where
  "development_entries =
    [entry ''github'' ''GitHub''
       ''Manage repositories, issues, and pull requests''
       ''Development'' ''https://mcp.github.com/v1'' ''https://docs.github.com/en/rest'',
     entry ''gitlab'' ''GitLab''
       ''Access GitLab projects and CI/CD pipelines''
       ''Development'' ''https://mcp.gitlab.com/v1'' ''https://docs.gitlab.com/ee/api'',
     entry ''bitbucket'' ''Bitbucket''
       ''Manage Bitbucket repositories and pipelines''
       ''Development'' ''https://mcp.bitbucket.com/v1'' ''https://developer.atlassian.com/cloud/bitbucket/rest'',
     entry ''vercel'' ''Vercel''
       ''Deploy and manage projects on Vercel''
       ''Development'' ''https://mcp.vercel.com/v1'' ''https://vercel.com/docs/api'',
     entry ''heroku'' ''Heroku''
       ''Deploy and manage apps on Heroku''
       ''Development'' ''https://mcp.heroku.com/v1'' ''https://devcenter.heroku.com/articles/platform-api-reference'',
     entry ''aws'' ''Amazon AWS''
       ''Access and manage AWS resources''
       ''Development'' ''https://mcp.aws.amazon.com/v1'' ''https://docs.aws.amazon.com/sdk'',
     entry ''azure'' ''Microsoft Azure''
       ''Manage Azure resources and services''
       ''Development'' ''https://mcp.azure.com/v1'' ''https://learn.microsoft.com/en-us/azure'',
     entry ''gcp'' ''Google Cloud Platform''
       ''Access GCP resources and services''
       ''Development'' ''https://mcp.googleapis.com/cloud/v1'' ''https://cloud.google.com/docs'']"

definition communication_entries :: "catalog_entry list" where
  "communication_entries =
    [entry ''slack'' ''Slack''
       ''Send messages and manage Slack workspaces''
       ''Communication'' ''https://mcp.slack.com/v1'' ''https://api.slack.com'',
     entry ''discord'' ''Discord''
       ''Manage Discord servers and send messages''
       ''Communication'' ''https://mcp.discord.com/v1'' ''https://discord.com/developers/docs'',
     entry ''telegram'' ''Telegram''
       ''Send messages via Telegram bot''
       ''Communication'' ''https://mcp.telegram.org/v1'' ''https://core.telegram.org/bots/api'',
     entry ''twilio'' ''Twilio''
       ''Send SMS and voice messages''
       ''Communication'' ''https://mcp.twilio.com/v1'' ''https://www.twilio.com/docs'',
     entry ''sendgrid'' ''SendGrid''
       ''Send emails with SendGrid''
       ''Communication'' ''https://mcp.sendgrid.com/v1'' ''https://docs.sendgrid.com'',
     entry ''zoom'' ''Zoom''
       ''Schedule meetings and manage Zoom integrations''
       ''Communication'' ''https://mcp.zoom.us/v1'' ''https://developers.zoom.us/docs'',
     entry ''intercom'' ''Intercom''
       ''Manage customer conversations and support''
       ''Communication'' ''https://mcp.intercom.com/v1'' ''https://developers.intercom.com/docs'',
     entry ''zendesk'' ''Zendesk''
       ''Manage support tickets and customer service''
       ''Communication'' ''https://mcp.zendesk.com/v1'' ''https://developer.zendesk.com/api'']"

definition analytics_entries :: "catalog_entry list" where
  "analytics_entries =
    [entry ''datadog'' ''Datadog''
       ''Monitor and analyze metrics with Datadog''
       ''Data & Analytics'' ''https://mcp.datadoghq.com/v1'' ''https://docs.datadoghq.com/api'',
     entry ''elastic'' ''Elastic''
       ''Search and analyze data with Elastic''
       ''Data & Analytics'' ''https://mcp.elastic.co/v1'' ''https://www.elastic.co/guide/en/elasticsearch/reference'',
     entry ''mixpanel'' ''Mixpanel''
       ''Track and analyze user analytics''
       ''Data & Analytics'' ''https://mcp.mixpanel.com/v1'' ''https://developer.mixpanel.com'',
     entry ''segment'' ''Segment''
       ''Collect and manage customer data''
       ''Data & Analytics'' ''https://mcp.segment.com/v1'' ''https://segment.com/docs'',
     entry ''tableau'' ''Tableau''
       ''Create and share data visualizations''
       ''Data & Analytics'' ''https://mcp.tableau.com/v1'' ''https://help.tableau.com/current/api'']"

definition finance_entries :: "catalog_entry list" where
  "finance_entries =
    [entry ''stripe'' ''Stripe''
       ''Process payments and manage subscriptions''
       ''Finance'' ''https://mcp.stripe.com/v1'' ''https://stripe.com/docs/api'',
     entry ''square'' ''Square''
       ''Manage payments and invoices''
       ''Finance'' ''https://mcp.squareup.com/v1'' ''https://developer.squareup.com/docs'',
     entry ''quickbooks'' ''QuickBooks''
       ''Manage accounting and invoices''
       ''Finance'' ''https://mcp.quickbooks.intuit.com/v1'' ''https://developer.intuit.com/app/developer/qbo/docs'']"

definition design_entries :: "catalog_entry list" where
  "design_entries =
    [entry ''figma'' ''Figma''
       ''Access and manage Figma designs and files''
       ''Design'' ''https://mcp.figma.com/v1'' ''https://www.figma.com/developers/api'',
     entry ''adobe-creative-cloud'' ''Adobe Creative Cloud''
       ''Access Adobe Creative Cloud applications''
       ''Design'' ''https://mcp.adobe.com/v1'' ''https://developer.adobe.com/console'']"

definition crm_entries :: "catalog_entry list" where
  "crm_entries =
    [entry ''salesforce'' ''Salesforce''
       ''Manage Salesforce CRM data and contacts''
       ''CRM'' ''https://mcp.salesforce.com/v1'' ''https://developer.salesforce.com/docs'',
     entry ''hubspot'' ''HubSpot''
       ''Manage HubSpot CRM, marketing, and sales''
       ''CRM'' ''https://mcp.hubapi.com/v1'' ''https://developers.hubspot.com/docs'']"

definition backend_entries :: "catalog_entry list" where
  "backend_entries =
    [entry ''supabase'' ''Supabase''
       ''Access Supabase PostgreSQL databases and storage''
       ''Backend'' ''https://mcp.supabase.com/v1'' ''https://supabase.com/docs'',
     entry ''firebase'' ''Firebase''
       ''Access Firebase database and services''
       ''Backend'' ''https://mcp.firebase.com/v1'' ''https://firebase.google.com/docs'',
     entry ''mongodb'' ''MongoDB''
       ''Query and manage MongoDB databases''
       ''Backend'' ''https://mcp.mongodb.com/v1'' ''https://www.mongodb.com/docs'']"

definition marketing_entries :: "catalog_entry list" where
  "marketing_entries =
    [entry ''mailchimp'' ''Mailchimp''
       ''Manage email campaigns and marketing lists''
       ''Marketing'' ''https://mcp.mailchimp.com/v1'' ''https://mailchimp.com/developer'']"

definition streaming_entries :: "catalog_entry list" where
  "streaming_entries =
    [entry ''twitch'' ''Twitch''
       ''Access Twitch channels and stream data''
       ''Streaming'' ''https://mcp.twitch.tv/v1'' ''https://dev.twitch.tv/docs'']"

definition get_catalog :: "catalog_entry list" where
  "get_catalog = productivity_entries @
     google_entries @
     development_entries @
     communication_entries @
     analytics_entries @
     finance_entries @
     design_entries @
     crm_entries @
     backend_entries @
     marketing_entries @
     streaming_entries"

end
