(* ===== verification/Mcp.thy ===== *)
theory Mcp
  imports Mcp_Catalog Settings
begin

text \<open>
  The configured MCP servers: \<open>src-tauri/src/server/mcp.rs\<close>, and the endpoints of
  \<open>mcp_endpoints.rs\<close> and \<open>connectors_endpoints.rs\<close>. The file is what \<open>Settings\<close> calls a settings
  file: missing, unreadable, not JSON, or a value.

  Indexing a JSON value reads null where there is nothing; assigning through an index makes an
  object of a null and panics on any other value that is not an object.
\<close>

section \<open>URL validation\<close>

definition restricted_patterns :: "string list" where
  "restricted_patterns =
     [''localhost'', ''127.0.0.1'', ''0.0.0.0'', ''192.168.'', ''10.'', ''172.1'', ''172.2'', ''172.3'',
      ''[::1]'', ''[::ffff:'', ''169.254.'']"

definition url_host :: "string \<Rightarrow> string" where
  "url_host rest = hd (split_on (CHR '':'') (hd (split_on (CHR ''/'') rest)))"

definition validate_mcp_url :: "string \<Rightarrow> unit res" where
  "validate_mcp_url u =
     (case strip_prefix ''https://'' u of
        None \<Rightarrow> Inl ''MCP URLs must use HTTPS protocol''
      | Some rest \<Rightarrow>
          (let host = url_host rest in
           if host = [] then Inl ''MCP URL must have a valid host''
           else if list_ex (starts_with host) restricted_patterns
             then Inl (''Access denied: cannot connect to internal network: '' @ host)
           else Inr ()))"

section \<open>The configuration file\<close>

definition empty_config :: json where
  "empty_config = JObj [(''mcpServers'', JObj [])]"

definition load_mcp_config :: "settings_file \<Rightarrow> json res" where
  "load_mcp_config f =
     (case f of
        Absent \<Rightarrow> Inr empty_config
      | Unreadable e \<Rightarrow> Inl (''Failed to read mcp.json: '' @ e)
      | Corrupt e \<Rightarrow> Inl (''Invalid mcp.json: '' @ e)
      | Stored j \<Rightarrow> Inr j)"

definition save_mcp_config :: "disk \<Rightarrow> json \<Rightarrow> settings_file \<Rightarrow> settings_file \<times> unit res" where
  "save_mcp_config d j f =
     (case mkdir_error d of
        Some e \<Rightarrow> (f, Inl (''Failed to create mcp directory: '' @ e))
      | None \<Rightarrow>
          (case write_error d of
             Some e \<Rightarrow> (f, Inl (''Failed to write mcp.json: '' @ e))
           | None \<Rightarrow> (Stored j, Inr ())))"

definition index :: "string \<Rightarrow> json \<Rightarrow> json" where
  "index k j = (case jget k j of None \<Rightarrow> JNull | Some v \<Rightarrow> v)"

definition is_object :: "json \<Rightarrow> bool" where
  "is_object j = (case j of JObj _ \<Rightarrow> True | _ \<Rightarrow> False)"

definition get_mcp_server :: "string \<Rightarrow> settings_file \<Rightarrow> json option res" where
  "get_mcp_server sl f =
     (case load_mcp_config f of
        Inl e \<Rightarrow> Inl e
      | Inr config \<Rightarrow>
          (let v = index sl (index ''mcpServers'' config) in Inr (if is_object v then Some v else None)))"

text \<open>The configuration with the server put in; with the server taken out, if it is there.\<close>

definition with_server :: "string \<Rightarrow> json \<Rightarrow> json \<Rightarrow> json outcome" where
  "with_server sl server config =
     (case (if is_object (index ''mcpServers'' config) then Done config
            else index_assign ''mcpServers'' (JObj []) config) of
        Panicked \<Rightarrow> Panicked
      | Done config1 \<Rightarrow>
          (case index_assign sl server (index ''mcpServers'' config1) of
             Panicked \<Rightarrow> Panicked
           | Done ss \<Rightarrow> index_assign ''mcpServers'' ss config1))"

definition without_server :: "string \<Rightarrow> json \<Rightarrow> json option" where
  "without_server sl config =
     (case (config, index ''mcpServers'' config) of
        (JObj outer, JObj ss) \<Rightarrow>
          if index sl (JObj ss) = JNull then None
          else Some (JObj (AList.update ''mcpServers'' (JObj (AList.delete sl ss)) outer))
      | _ \<Rightarrow> None)"

definition set_mcp_server ::
  "disk \<Rightarrow> string \<Rightarrow> json \<Rightarrow> settings_file \<Rightarrow> (settings_file \<times> unit res) outcome" where
  "set_mcp_server d sl server f =
     (case (case jget_str ''url'' server of None \<Rightarrow> Inr () | Some u \<Rightarrow> validate_mcp_url u) of
        Inl e \<Rightarrow> Done (f, Inl e)
      | Inr _ \<Rightarrow>
          (case load_mcp_config f of
             Inl e \<Rightarrow> Done (f, Inl e)
           | Inr config \<Rightarrow>
               (case with_server sl server config of
                  Panicked \<Rightarrow> Panicked
                | Done config' \<Rightarrow> Done (save_mcp_config d config' f))))"

definition remove_mcp_server :: "disk \<Rightarrow> string \<Rightarrow> settings_file \<Rightarrow> settings_file \<times> bool res" where
  "remove_mcp_server d sl f =
     (case load_mcp_config f of
        Inl e \<Rightarrow> (f, Inl e)
      | Inr config \<Rightarrow>
          (case without_server sl config of
             None \<Rightarrow> (f, Inr False)
           | Some config' \<Rightarrow>
               (case save_mcp_config d config' f of
                  (f', Inl e) \<Rightarrow> (f', Inl e) | (f', Inr _) \<Rightarrow> (f', Inr True))))"

section \<open>Endpoints\<close>

definition mcp_get_config :: "settings_file \<Rightarrow> response" where
  "mcp_get_config f =
     (case load_mcp_config f of Inr j \<Rightarrow> (200, ok_body [(''config'', j)]) | Inl e \<Rightarrow> (200, err_body e))"

definition mcp_update_config :: "disk \<Rightarrow> json \<Rightarrow> settings_file \<Rightarrow> settings_file \<times> response" where
  "mcp_update_config d j f =
     (case save_mcp_config d j f of
        (f', Inr _) \<Rightarrow> (f', 200, ok_body []) | (f', Inl e) \<Rightarrow> (f', 500, err_body e))"

definition entry_json :: "catalog_entry \<Rightarrow> json" where
  "entry_json e = JObj
     ([(''slug'', JStr (slug e)), (''name'', JStr (entry_name e)), (''description'', JStr (entry_description e)),
       (''category'', JStr (category e)), (''url'', JStr (url e))] @
      (case docs_url e of None \<Rightarrow> [] | Some u \<Rightarrow> [(''docs_url'', JStr u)]) @
      [(''requires_token'', JBool (requires_token e))] @
      (case logo_svg e of None \<Rightarrow> [] | Some l \<Rightarrow> [(''logo_svg'', JStr l)]))"

definition mcp_get_catalog :: json where
  "mcp_get_catalog = ok_body [(''catalog'', JArr (map entry_json get_catalog))]"

definition connectors_list :: json where
  "connectors_list = ok_body [(''connectors'', JArr (map (\<lambda>e. JObj
     [(''id'', JStr (''remote-mcp/'' @ slug e)), (''type'', JStr ''remote-mcp''), (''slug'', JStr (slug e)),
      (''name'', JStr (entry_name e)), (''description'', JStr (entry_description e)),
      (''category'', JStr (category e)), (''status'', JStr ''available''),
      (''requires_token'', JBool (requires_token e)), (''url'', JStr (url e)),
      (''docs_url'', opt_str (docs_url e))]) get_catalog))]"

definition connectors_get :: "string \<Rightarrow> settings_file \<Rightarrow> response" where
  "connectors_get sl f =
     (case get_mcp_server sl f of
        Inr (Some c) \<Rightarrow> (200, ok_body [(''connector'', c)])
      | Inr None \<Rightarrow> (404, err_body ''Connector not found'')
      | Inl e \<Rightarrow> (500, err_body e))"

definition connectors_add :: "disk \<Rightarrow> json \<Rightarrow> settings_file \<Rightarrow> (settings_file \<times> response) outcome" where
  "connectors_add d payload f =
     (let sl = (case jget_str ''slug'' payload of None \<Rightarrow> [] | Some s \<Rightarrow> s) in
      if sl = [] then Done (f, 400, err_body ''slug is required'')
      else
        (case set_mcp_server d sl payload f of
           Panicked \<Rightarrow> Panicked
         | Done (f', Inr _) \<Rightarrow> Done (f', 200, ok_body [(''connector_id'', JStr (''remote-mcp/'' @ sl))])
         | Done (f', Inl e) \<Rightarrow> Done (f', 500, err_body e)))"

definition connectors_update ::
  "disk \<Rightarrow> string \<Rightarrow> json \<Rightarrow> settings_file \<Rightarrow> (settings_file \<times> response) outcome" where
  "connectors_update d sl config f =
     (case set_mcp_server d sl config f of
        Panicked \<Rightarrow> Panicked
      | Done (f', Inr _) \<Rightarrow> Done (f', 200, ok_body [])
      | Done (f', Inl e) \<Rightarrow> Done (f', 500, err_body e))"

definition connectors_remove :: "disk \<Rightarrow> string \<Rightarrow> settings_file \<Rightarrow> settings_file \<times> response" where
  "connectors_remove d sl f =
     (case remove_mcp_server d sl f of
        (f', Inr True) \<Rightarrow> (f', 200, ok_body [(''deleted'', JBool True)])
      | (f', Inr False) \<Rightarrow> (f', 404, err_body ''Connector not found'')
      | (f', Inl e) \<Rightarrow> (f', 500, err_body e))"


section \<open>What the operations do to the stored servers\<close>

text \<open>The servers of a file that holds a configuration, or none.\<close>

definition servers :: "settings_file \<Rightarrow> string \<Rightarrow> json option" where
  "servers f sl = (case load_mcp_config f of Inl _ \<Rightarrow> None | Inr j \<Rightarrow> Option.bind (jget ''mcpServers'' j) (jget sl))"

definition config_ok :: "settings_file \<Rightarrow> bool" where
  "config_ok f = (case load_mcp_config f of Inl _ \<Rightarrow> False | Inr j \<Rightarrow> is_object j)"

definition url_ok :: "json \<Rightarrow> bool" where
  "url_ok j = (case jget_str ''url'' j of None \<Rightarrow> True | Some u \<Rightarrow> validate_mcp_url u = Inr ())"

lemma is_object_iff: "is_object j \<longleftrightarrow> (\<exists>kvs. j = JObj kvs)"
  by (cases j) (simp_all add: is_object_def)

lemma validate_unit: "validate_mcp_url u = Inr v \<longleftrightarrow> validate_mcp_url u = Inr ()"
  by (cases v) simp

text \<open>The two changes of a configuration, on its servers.\<close>

definition servers_of :: "json \<Rightarrow> string \<Rightarrow> json option" where
  "servers_of j sl = Option.bind (jget ''mcpServers'' j) (jget sl)"

lemma with_server_ok:
  "\<exists>j'. with_server sl v (JObj kvs) = Done j' \<and> is_object j' \<and> servers_of j' = (servers_of (JObj kvs))(sl \<mapsto> v)"
proof (cases "\<exists>ss. map_of kvs ''mcpServers'' = Some (JObj ss)")
  case True
  then obtain ss where "map_of kvs ''mcpServers'' = Some (JObj ss)" by blast
  then show ?thesis
    by (simp add: with_server_def index_def is_object_def index_assign_def servers_of_def fun_eq_iff)
next
  case False
  then have "\<not> is_object (index ''mcpServers'' (JObj kvs))"
    by (auto simp: index_def is_object_iff split: option.splits)
  moreover have "servers_of (JObj kvs) = Map.empty"
    using False
    by (cases "map_of kvs ''mcpServers''") (auto simp: servers_of_def fun_eq_iff jget_def split: json.split)
  ultimately show ?thesis
    by (simp add: with_server_def index_assign_def index_def is_object_def servers_of_def fun_eq_iff)
qed

lemma without_server_ok:
  "without_server sl (JObj kvs) = Some j' \<Longrightarrow>
     is_object j' \<and> servers_of j' = (servers_of (JObj kvs))(sl := None)"
  by (auto simp: without_server_def index_def is_object_def servers_of_def fun_eq_iff
      split: json.splits option.splits if_splits)

lemma config_ok_load: "config_ok f \<Longrightarrow> \<exists>kvs. load_mcp_config f = Inr (JObj kvs) \<and> servers f = servers_of (JObj kvs)"
  by (auto simp: config_ok_def is_object_iff servers_def servers_of_def fun_eq_iff split: sum.splits)

lemma config_ok_stored: "is_object j \<Longrightarrow> config_ok (Stored j) \<and> servers (Stored j) = servers_of j"
  by (simp add: config_ok_def load_mcp_config_def servers_def servers_of_def fun_eq_iff)

lemma save_mcp_config_cases: "save_mcp_config d j f = (Stored j, Inr ()) \<or> (\<exists>e. save_mcp_config d j f = (f, Inl e))"
  by (auto simp: save_mcp_config_def split: option.splits)

lemma set_mcp_server_refused:
  assumes "\<not> url_ok v" shows "\<exists>e. set_mcp_server d sl v f = Done (f, Inl e)"
  using assms validate_unit by (auto simp: url_ok_def set_mcp_server_def split: option.splits sum.splits)

lemma set_mcp_server_ok:
  assumes "config_ok f" "url_ok v"
  shows "(\<exists>f'. set_mcp_server d sl v f = Done (f', Inr ()) \<and> config_ok f' \<and> servers f' = (servers f)(sl \<mapsto> v)) \<or>
    (\<exists>e. set_mcp_server d sl v f = Done (f, Inl e))"
proof -
  obtain kvs where l: "load_mcp_config f = Inr (JObj kvs)" "servers f = servers_of (JObj kvs)"
    using config_ok_load [OF assms(1)] by blast
  obtain j' where j': "with_server sl v (JObj kvs) = Done j'" "is_object j'"
    "servers_of j' = (servers_of (JObj kvs))(sl \<mapsto> v)"
    using with_server_ok by blast
  have "(case jget_str ''url'' v of None \<Rightarrow> Inr () | Some u \<Rightarrow> validate_mcp_url u) = Inr ()"
    using assms(2) by (simp add: url_ok_def split: option.splits)
  then have "set_mcp_server d sl v f = Done (save_mcp_config d j' f)"
    using l j' by (simp add: set_mcp_server_def)
  then show ?thesis using save_mcp_config_cases [of d j' f] config_ok_stored [OF j'(2)] l j' by auto
qed

datatype connector_op =
    AddConnector disk json
  | UpdateConnector disk string json
  | RemoveConnector disk string

text \<open>A panic ends the request and leaves the file.\<close>

fun exec_connector :: "connector_op \<Rightarrow> settings_file \<Rightarrow> settings_file" where
  "exec_connector (AddConnector d j) f = (case connectors_add d j f of Done (f', _) \<Rightarrow> f' | Panicked \<Rightarrow> f)"
| "exec_connector (UpdateConnector d sl j) f =
     (case connectors_update d sl j f of Done (f', _) \<Rightarrow> f' | Panicked \<Rightarrow> f)"
| "exec_connector (RemoveConnector d sl) f = fst (connectors_remove d sl f)"

definition mcp_ok :: "settings_file \<Rightarrow> bool" where
  "mcp_ok f = (config_ok f \<and> (\<forall>v \<in> ran (servers f). url_ok v))"

lemma mcp_ok_set: "mcp_ok f \<Longrightarrow> url_ok v \<Longrightarrow> config_ok f' \<Longrightarrow> servers f' = (servers f)(sl \<mapsto> v) \<Longrightarrow> mcp_ok f'"
  by (auto simp: mcp_ok_def ran_def split: if_splits)

lemma set_step:
  assumes "mcp_ok f"
  shows "\<exists>f' r. set_mcp_server d sl v f = Done (f', r) \<and> mcp_ok f' \<and>
    (if is_ok r then url_ok v \<and> servers f' = (servers f)(sl \<mapsto> v) else f' = f)"
proof (cases "url_ok v")
  case False
  then obtain e where "set_mcp_server d sl v f = Done (f, Inl e)" using set_mcp_server_refused by blast
  then show ?thesis using assms by (intro exI [of _ f] exI [of _ "Inl e"]) simp
next
  case True
  have "config_ok f" using assms by (simp add: mcp_ok_def)
  from set_mcp_server_ok [OF this True, of d sl] show ?thesis
  proof (elim disjE exE conjE)
    fix f' assume "set_mcp_server d sl v f = Done (f', Inr ())" "config_ok f'" "servers f' = (servers f)(sl \<mapsto> v)"
    then show ?thesis using mcp_ok_set [OF assms True] True by (intro exI [of _ f'] exI [of _ "Inr ()"]) simp
  next
    fix e assume "set_mcp_server d sl v f = Done (f, Inl e)"
    then show ?thesis using assms by (intro exI [of _ f] exI [of _ "Inl e"]) simp
  qed
qed

lemma save_mcp_config_kept: "\<exists>r. save_mcp_config d j f = (f, Inl r) \<or> save_mcp_config d j f = (Stored j, Inr ())"
  using save_mcp_config_cases [of d j f] by blast

lemma remove_step:
  assumes "mcp_ok f" shows "mcp_ok (fst (remove_mcp_server d sl f))"
proof -
  have c: "config_ok f" using assms by (simp add: mcp_ok_def)
  obtain kvs where l: "load_mcp_config f = Inr (JObj kvs)" "servers f = servers_of (JObj kvs)"
    using config_ok_load [OF c] by blast
  show ?thesis
  proof (cases "without_server sl (JObj kvs)")
    case None
    then show ?thesis using l assms by (simp add: remove_mcp_server_def)
  next
    case (Some j')
    note j' = without_server_ok [OF Some]
    have "ran ((servers f)(sl := None)) \<subseteq> ran (servers f)" by (auto simp: ran_def)
    then have m: "mcp_ok (Stored j')"
      using assms config_ok_stored [of j'] j' l by (auto simp: mcp_ok_def)
    show ?thesis
      using save_mcp_config_kept [of d j' f] l Some m assms by (auto simp: remove_mcp_server_def)
  qed
qed

lemma exec_connector_ok: "mcp_ok f \<Longrightarrow> mcp_ok (exec_connector op f)"
proof (induction op)
  case (AddConnector d j)
  then show ?case
    using set_step [of f d "case jget_str ''slug'' j of None \<Rightarrow> [] | Some s \<Rightarrow> s" j]
    by (auto simp: connectors_add_def Let_def split: sum.splits)
next
  case (UpdateConnector d sl j)
  then show ?case using set_step [of f d sl j] by (auto simp: connectors_update_def split: sum.splits)
next
  case (RemoveConnector d sl)
  then show ?case
    using remove_step [of f d sl] by (auto simp: connectors_remove_def split: prod.splits sum.splits bool.splits)
qed

lemma exec_connectors_ok: "mcp_ok f \<Longrightarrow> mcp_ok (fold exec_connector ops f)"
  by (induction ops arbitrary: f) (simp_all add: exec_connector_ok)

text \<open>C39. Every connector that the connector requests store has a validated URL: from a fresh
  installation, after any requests to add, update and remove connectors, with any documents, names
  and disk errors, each stored server with a URL has one that passes \<open>validate_mcp_url\<close>, no request
  panics, and a server that was stored is what the next question for it answers, until it is changed
  by its own name. \<open>PUT /api/mcp/config\<close> is not such a request: it stores any document unvalidated.\<close>

theorem connectors_validated:
  assumes "f = fold exec_connector ops Absent"
  shows "(\<forall>v \<in> ran (servers f). url_ok v) \<and>
    set_mcp_server d sl v f \<noteq> Panicked \<and>
    (set_mcp_server d sl v f = Done (f', Inr ()) \<longrightarrow>
       get_mcp_server sl f' = Inr (if is_object v then Some v else None) \<and>
       (\<forall>other. other \<noteq> sl \<longrightarrow> get_mcp_server other f' = get_mcp_server other f)) \<and>
    mcp_update_config disk_ok j f = (Stored j, 200, ok_body [])"
proof -
  have ok: "mcp_ok f"
    unfolding assms(1)
    by (rule exec_connectors_ok) (simp add: mcp_ok_def config_ok_def load_mcp_config_def empty_config_def is_object_def
        servers_def ran_def)
  have get: "get_mcp_server k g = Inr (case servers g k of Some w \<Rightarrow> if is_object w then Some w else None | None \<Rightarrow> None)"
    if "config_ok g" for k g
    using that
    by (auto simp: config_ok_def get_mcp_server_def servers_def index_def Let_def is_object_def
        split: sum.splits option.splits Option.bind_splits)
  obtain f1 r where s: "set_mcp_server d sl v f = Done (f1, r)" "mcp_ok f1"
    "if is_ok r then url_ok v \<and> servers f1 = (servers f)(sl \<mapsto> v) else f1 = f"
    using set_step [OF ok] by blast
  have "get_mcp_server sl f' = Inr (if is_object v then Some v else None) \<and>
       (\<forall>other. other \<noteq> sl \<longrightarrow> get_mcp_server other f' = get_mcp_server other f)"
    if "set_mcp_server d sl v f = Done (f', Inr ())"
    using that s ok get by (auto simp: mcp_ok_def)
  then show ?thesis
    using ok s(1) by (simp add: mcp_ok_def mcp_update_config_def save_mcp_config_def disk_ok_def)
qed

lemma connectors_validated_witness:
  "let f = fold exec_connector [AddConnector disk_ok (JObj [(''slug'', JStr ''a''), (''url'', JStr ''https://a.b'')]),
                                AddConnector disk_ok (JObj [(''slug'', JStr ''b''), (''url'', JStr ''https://10.0.0.1'')])] Absent;
       v = JObj [(''url'', JStr ''https://c.d'')];
       f' = Stored (JObj [(''mcpServers'', JObj [(''a'', JObj [(''slug'', JStr ''a''), (''url'', JStr ''https://a.b'')]),
                                                (''c'', v)])])
   in set_mcp_server disk_ok ''c'' v f = Done (f', Inr ()) \<and>
      get_mcp_server ''c'' f' = Inr (Some v) \<and> get_mcp_server ''a'' f' = get_mcp_server ''a'' f"
proof -
  define ops where "ops = [AddConnector disk_ok (JObj [(''slug'', JStr ''a''), (''url'', JStr ''https://a.b'')]),
                           AddConnector disk_ok (JObj [(''slug'', JStr ''b''), (''url'', JStr ''https://10.0.0.1'')])]"
  define v where "v = JObj [(''url'', JStr ''https://c.d'')]"
  define f' where "f' = Stored (JObj [(''mcpServers'',
     JObj [(''a'', JObj [(''slug'', JStr ''a''), (''url'', JStr ''https://a.b'')]), (''c'', v)])])"
  have run: "set_mcp_server disk_ok ''c'' v (fold exec_connector ops Absent) = Done (f', Inr ())"
    unfolding ops_def v_def f'_def by code_simp
  have obj: "is_object v" by (simp add: v_def is_object_def)
  note facts = connectors_validated [OF refl, of ops disk_ok "''c''" v f' JNull]
  have kept: "get_mcp_server ''c'' f' = Inr (if is_object v then Some v else None)"
    "\<forall>other. other \<noteq> ''c'' \<longrightarrow> get_mcp_server other f' = get_mcp_server other (fold exec_connector ops Absent)"
    using facts run by blast+
  have "get_mcp_server ''a'' f' = get_mcp_server ''a'' (fold exec_connector ops Absent)"
    by (rule kept(2) [rule_format]) simp
  moreover have "get_mcp_server ''c'' f' = Inr (Some v)" using kept(1) obj by (simp only: if_True)
  ultimately show ?thesis using run unfolding Let_def ops_def v_def f'_def by (intro conjI)
qed

section \<open>Addresses that are written as numbers\<close>

definition dotted :: "nat \<Rightarrow> nat \<Rightarrow> nat \<Rightarrow> nat \<Rightarrow> string" where
  "dotted a b c d = show_nat a @ ''.'' @ show_nat b @ ''.'' @ show_nat c @ ''.'' @ show_nat d"

text \<open>The private ranges of RFC 1918, link-local addresses, and the two addresses named.\<close>

definition private_ipv4 :: "nat \<Rightarrow> nat \<Rightarrow> nat \<Rightarrow> nat \<Rightarrow> bool" where
  "private_ipv4 a b c d \<longleftrightarrow>
     a = 10 \<or> a = 192 \<and> b = 168 \<or> a = 172 \<and> 16 \<le> b \<and> b \<le> 31 \<or> a = 169 \<and> b = 254 \<or>
     (a, b, c, d) \<in> {(127, 0, 0, 1), (0, 0, 0, 0)}"

lemma no_dot: "CHR ''.'' \<notin> set (show_nat n)"
  using show_nat_digits [of "CHR ''.''" n] by (auto simp: is_digit_def)

lemma show_nat_inj: "show_nat a = show_nat b \<longleftrightarrow> a = b"
  using digits_val_show_nat by (metis option.inject)

lemma until_dot: "c \<notin> set u \<Longrightarrow> c \<notin> set v \<Longrightarrow> u @ c # r = v @ c # q \<longleftrightarrow> u = v \<and> r = q"
proof (induction u arbitrary: v)
  case Nil
  then show ?case by (cases v) auto
next
  case (Cons x u)
  then show ?case by (cases v) auto
qed

lemma dot_prefix:
  "starts_with (show_nat a @ CHR ''.'' # r) (show_nat k @ CHR ''.'' # q) \<longleftrightarrow> a = k \<and> starts_with r q"
  unfolding prefix_def append_assoc append_Cons until_dot [OF no_dot no_dot] show_nat_inj by blast

definition first_is :: "nat \<Rightarrow> nat \<Rightarrow> bool" where
  "first_is k n \<longleftrightarrow> n = k \<or> k * 10 \<le> n \<and> n < (k + 1) * 10 \<or> k * 100 \<le> n \<and> n < (k + 1) * 100"

lemma hd_show_nat:
  assumes "n < 1000"
  shows "hd (show_nat n) = digit_char (if n < 10 then n else if n < 100 then n div 10 else n div 100)"
proof -
  have small: "hd (show_nat m) = digit_char m" if "m < 10" for m using that by (simp add: show_nat.simps)
  have rest: "hd (show_nat m) = hd (show_nat (m div 10))" if "\<not> m < 10" for m
    using that by (subst show_nat.simps) simp
  show ?thesis
  proof (cases "n < 100")
    case True
    then show ?thesis using small [of n] rest [of n] small [of "n div 10"] by simp
  next
    case False
    then have "n div 10 div 10 = n div 100" by (simp add: div_mult2_eq)
    then show ?thesis
      using False assms rest [of n] rest [of "n div 10"] small [of "n div 100"] by simp
  qed
qed

lemma digit_char_inj: "a < 10 \<Longrightarrow> b < 10 \<Longrightarrow> digit_char a = digit_char b \<longleftrightarrow> a = b"
  using digit_char_props(2) by metis

lemma first_digit:
  assumes "n < 1000" "0 < k" "k < 10"
  shows "starts_with (show_nat n @ r) [digit_char k] \<longleftrightarrow> first_is k n"
proof -
  have "starts_with (show_nat n @ r) [digit_char k] \<longleftrightarrow> hd (show_nat n) = digit_char k"
    by (cases "show_nat n") auto
  also have "\<dots> \<longleftrightarrow> (if n < 10 then n else if n < 100 then n div 10 else n div 100) = k"
    unfolding hd_show_nat [OF assms(1)] using assms by (intro digit_char_inj) auto
  also have "\<dots> \<longleftrightarrow> first_is k n"
    using assms by (auto simp: first_is_def)
  finally show ?thesis .
qed

lemma zero_first:
  assumes "n < 1000" shows "starts_with (show_nat n @ r) [digit_char 0] \<longleftrightarrow> n = 0"
proof -
  have "starts_with (show_nat n @ r) [digit_char 0] \<longleftrightarrow> hd (show_nat n) = digit_char 0"
    by (cases "show_nat n") auto
  also have "\<dots> \<longleftrightarrow> (if n < 10 then n else if n < 100 then n div 10 else n div 100) = 0"
    unfolding hd_show_nat [OF assms(1)] using assms by (intro digit_char_inj) auto
  also have "\<dots> \<longleftrightarrow> n = 0" by auto
  finally show ?thesis .
qed

lemma numeric_patterns:
  "''127.0.0.1'' = show_nat 127 @ ''.'' @ show_nat 0 @ ''.'' @ show_nat 0 @ ''.'' @ [digit_char 1]"
  "''0.0.0.0'' = show_nat 0 @ ''.'' @ show_nat 0 @ ''.'' @ show_nat 0 @ ''.'' @ [digit_char 0]"
  "''192.168.'' = show_nat 192 @ ''.'' @ show_nat 168 @ ''.'' @ []"
  "''10.'' = show_nat 10 @ ''.'' @ []"
  "''172.1'' = show_nat 172 @ ''.'' @ [digit_char 1]"
  "''172.2'' = show_nat 172 @ ''.'' @ [digit_char 2]"
  "''172.3'' = show_nat 172 @ ''.'' @ [digit_char 3]"
  "''169.254.'' = show_nat 169 @ ''.'' @ show_nat 254 @ ''.'' @ []"
  by code_simp+

text \<open>The addresses that the filter refuses, in full.\<close>

definition refused_ipv4 :: "nat \<Rightarrow> nat \<Rightarrow> nat \<Rightarrow> nat \<Rightarrow> bool" where
  "refused_ipv4 a b c d \<longleftrightarrow>
     a = 10 \<or> a = 192 \<and> b = 168 \<or> a = 172 \<and> (\<exists>k \<in> {1, 2, 3}. first_is k b) \<or> a = 169 \<and> b = 254 \<or>
     a = 127 \<and> b = 0 \<and> c = 0 \<and> first_is 1 d \<or> a = 0 \<and> b = 0 \<and> c = 0 \<and> d = 0"

lemma url_host_eq: "url_host u = takeWhile (\<lambda>x. x \<noteq> CHR '':'') (takeWhile (\<lambda>x. x \<noteq> CHR ''/'') u)"
  by (simp add: url_host_def hd_split_on)

lemma dotted_fresh: "x \<in> set (dotted a b c d) \<Longrightarrow> x \<noteq> CHR ''/'' \<and> x \<noteq> CHR '':''"
  using show_nat_digits by (fastforce simp: dotted_def is_digit_def)

lemma url_host_fresh:
  assumes "\<forall>x \<in> set h. x \<noteq> CHR ''/'' \<and> x \<noteq> CHR '':''" "tail = [] \<or> hd tail \<in> {CHR ''/'', CHR '':''}"
  shows "url_host (h @ tail) = h"
  using assms(1)
proof (induction h)
  case Nil
  then show ?case using assms(2) by (cases tail) (auto simp: url_host_eq)
qed (simp add: url_host_eq)

lemma url_host_dotted:
  "tail = [] \<or> hd tail \<in> {CHR ''/'', CHR '':''} \<Longrightarrow> url_host (dotted a b c d @ tail) = dotted a b c d"
  by (rule url_host_fresh) (auto dest: dotted_fresh)

lemma dotted_patterns:
  assumes "a < 256" "b < 256" "c < 256" "d < 256"
  shows "list_ex (starts_with (dotted a b c d)) restricted_patterns \<longleftrightarrow> refused_ipv4 a b c d"
proof -
  obtain x r where x: "show_nat a = x # r" "is_digit x"
    using show_nat_digits [of _ a] by (cases "show_nat a") auto
  have words: "\<not> starts_with (dotted a b c d) ''localhost''" "\<not> starts_with (dotted a b c d) ''[::1]''"
    "\<not> starts_with (dotted a b c d) ''[::ffff:''"
    using x by (auto simp: dotted_def is_digit_def)
  note bytes = first_digit [of b] first_digit [of d _ "[]"] zero_first [of d "[]"]
  show ?thesis
    unfolding restricted_patterns_def numeric_patterns
    using words assms bytes
    by (simp add: dotted_def dot_prefix refused_ipv4_def) blast
qed

text \<open>Which numeric addresses a connector may have. For every address of four bytes, with any
  port, path or query after it, \<open>validate_mcp_url\<close> refuses exactly those of \<open>refused_ipv4\<close>: all the
  private and link-local ranges, \<open>127.0.0.1\<close> and \<open>0.0.0.0\<close>, and, because prefixes of text are
  compared, also public addresses such as \<open>172.100.0.1\<close>. Outside four bytes the filter has gaps: the
  IPv6 loopback address, a user name before the host, and the rest of \<open>127.0.0.0/8\<close> pass.\<close>

theorem ssrf_filter_exact:
  assumes "a < 256" "b < 256" "c < 256" "d < 256"
    and "tail = [] \<or> hd tail \<in> {CHR ''/'', CHR '':''}"
  shows "(validate_mcp_url (''https://'' @ dotted a b c d @ tail) = Inr () \<longleftrightarrow> \<not> refused_ipv4 a b c d) \<and>
    (private_ipv4 a b c d \<longrightarrow> refused_ipv4 a b c d) \<and>
    refused_ipv4 172 100 c d \<and> \<not> private_ipv4 172 100 c d \<and>
    validate_mcp_url (''https://[::1]'' @ tail) = Inr () \<and>
    validate_mcp_url (''https://u@127.0.0.1'' @ tail) = Inr () \<and>
    validate_mcp_url (''https://'' @ dotted 127 0 0 2 @ tail) = Inr ()"
proof -
  have exact: "validate_mcp_url (''https://'' @ dotted p q r s @ tail) = Inr () \<longleftrightarrow> \<not> refused_ipv4 p q r s"
    if "p < 256" "q < 256" "r < 256" "s < 256" for p q r s
  proof -
    have "dotted p q r s \<noteq> []" by (simp add: dotted_def)
    then show ?thesis
      using url_host_dotted [OF assms(5)] dotted_patterns [OF that]
      unfolding validate_mcp_url_def strip_prefix_append by (simp add: Let_def)
  qed
  have "private_ipv4 a b c d \<longrightarrow> refused_ipv4 a b c d"
    by (auto simp: private_ipv4_def refused_ipv4_def first_is_def)
  moreover have "refused_ipv4 172 100 c d" "\<not> private_ipv4 172 100 c d" "\<not> refused_ipv4 127 0 0 2"
    by (simp_all add: private_ipv4_def refused_ipv4_def first_is_def)
  moreover have "validate_mcp_url (''https://[::1]'' @ tail) = Inr ()"
    using assms(5)
    by (cases tail) (auto simp: validate_mcp_url_def strip_prefix_def url_host_eq restricted_patterns_def)
  moreover have "validate_mcp_url (''https://u@127.0.0.1'' @ tail) = Inr ()"
    using assms(5)
    by (cases tail) (auto simp: validate_mcp_url_def strip_prefix_def url_host_eq restricted_patterns_def)
  ultimately show ?thesis using exact [OF assms(1-4)] exact [of 127 0 0 2] by simp
qed

lemma ssrf_filter_exact_witness:
  "validate_mcp_url (''https://'' @ dotted 8 8 8 8 @ ''/mcp'') = Inr () \<and>
   validate_mcp_url (''https://'' @ dotted 172 31 0 1 @ '':8443/'') \<noteq> Inr ()"
proof -
  have "\<not> refused_ipv4 8 8 8 8" "refused_ipv4 172 31 0 1"
    by (simp_all add: refused_ipv4_def first_is_def)
  then show ?thesis
    using ssrf_filter_exact [of 8 8 8 8 "''/mcp''"] ssrf_filter_exact [of 172 31 0 1 "'':8443/''"] by simp
qed

section \<open>The catalog\<close>

lemma slugs_distinct: "distinct (map slug get_catalog)"
  by code_simp

lemma urls_valid: "list_all (\<lambda>e. slug e \<noteq> [] \<and> validate_mcp_url (url e) = Inr ()) get_catalog"
  by code_simp

lemma distinct_key_filter: "x \<in> set xs \<Longrightarrow> distinct (map key xs) \<Longrightarrow> filter (\<lambda>y. key y = key x) xs = [x]"
  by (induction xs) (auto simp: filter_empty_conv rev_image_eqI)

text \<open>Every server of the catalog can be connected to. Slugs identify entries; adding an entry to a
  configuration passes the URL check and answers its id, whatever was configured, and asking for the
  slug then answers the entry.\<close>

theorem catalog_connectable:
  assumes "e \<in> set get_catalog" "config_ok f"
  shows "\<exists>f'. connectors_add disk_ok (entry_json e) f =
        Done (f', 200, ok_body [(''connector_id'', JStr (''remote-mcp/'' @ slug e))]) \<and>
      connectors_get (slug e) f' = (200, ok_body [(''connector'', entry_json e)]) \<and>
      filter (\<lambda>x. slug x = slug e) get_catalog = [e]"
proof -
  have ne: "slug e \<noteq> []" and u: "validate_mcp_url (url e) = Inr ()"
    using urls_valid assms(1) by (auto simp: list_all_iff)
  have js: "jget_str ''slug'' (entry_json e) = Some (slug e)" "url_ok (entry_json e)" "is_object (entry_json e)"
    using u by (simp_all add: jget_str_def entry_json_def url_ok_def is_object_def)
  obtain kvs where l: "load_mcp_config f = Inr (JObj kvs)" using config_ok_load [OF assms(2)] by blast
  obtain j' where j': "with_server (slug e) (entry_json e) (JObj kvs) = Done j'" "is_object j'"
    "servers_of j' = (servers_of (JObj kvs))(slug e \<mapsto> entry_json e)"
    using with_server_ok by blast
  have "(case jget_str ''url'' (entry_json e) of None \<Rightarrow> Inr () | Some u \<Rightarrow> validate_mcp_url u) = Inr ()"
    using js(2) by (simp add: url_ok_def split: option.splits)
  then have s: "set_mcp_server disk_ok (slug e) (entry_json e) f = Done (Stored j', Inr ())"
    using l j' by (simp add: set_mcp_server_def save_mcp_config_def disk_ok_def)
  have "servers_of j' (slug e) = Some (entry_json e)" using j' by simp
  then have g: "get_mcp_server (slug e) (Stored j') = Inr (Some (entry_json e))"
    using js(3)
    by (auto simp: get_mcp_server_def load_mcp_config_def index_def servers_of_def bind_eq_Some_conv Let_def)
  have "filter (\<lambda>x. slug x = slug e) get_catalog = [e]"
    using assms(1) slugs_distinct by (rule distinct_key_filter)
  then show ?thesis
    using s g js ne by (simp add: connectors_add_def connectors_get_def Let_def)
qed

lemma catalog_connectable_witness:
  "let e = hd get_catalog in
   \<exists>f'. connectors_add disk_ok (entry_json e) Absent =
        Done (f', 200, ok_body [(''connector_id'', JStr (''remote-mcp/'' @ slug e))]) \<and>
      connectors_get (slug e) f' = (200, ok_body [(''connector'', entry_json e)])"
proof -
  have "get_catalog \<noteq> []" by code_simp
  moreover have "config_ok Absent" by code_simp
  ultimately show ?thesis using catalog_connectable [of "hd get_catalog" Absent] unfolding Let_def by fastforce
qed

end
