(* ===== verification/Files.thy ===== *)
theory Files
  imports Json_Value "HOL-Library.Product_Lexorder"
begin

text \<open>
  The file requests of the server: \<open>src-tauri/src/server/files.rs\<close> and \<open>files_endpoints.rs\<close>.

  A path is the list of its components below the root. A file system lists its nodes with their
  paths, the root among them, in the order in which directories are read; a node is a directory, a
  file or a symbolic link with its target. \<open>canonicalize\<close> follows links as the operating system does,
  at most forty of them. A request sees one file system from its start to its end. Reading a
  directory may be refused; other rights are not modelled.
\<close>

section \<open>The file system\<close>

type_synonym path = "string list"

datatype node_kind = DirNode | FileNode | LinkNode string

text \<open>\<open>denied\<close> is the error with which the operating system refuses to read a directory; \<open>mtime\<close>
  is \<open>None\<close> where the time of the last change is not known or lies before 1970.\<close>

record node =
  kind_of :: node_kind
  len_of :: nat
  mtime :: "nat option"
  denied :: "string option"

type_synonym filesystem = "(path \<times> node) list"

abbreviation node_at :: "filesystem \<Rightarrow> path \<Rightarrow> node option" where
  "node_at fs p \<equiv> map_of fs p"

text \<open>What stands between the slashes of a path string. Empty parts and \<open>.\<close> are kept: they say nothing,
  but what stands before one must be a directory.\<close>

definition components :: "string \<Rightarrow> path" where
  "components s = split_on (CHR ''/'') s"

definition show_path :: "path \<Rightarrow> string" where
  "show_path p = ''/'' @ join ''/'' p"

definition is_absolute :: "string \<Rightarrow> bool" where
  "is_absolute s = starts_with s ''/''"

text \<open>Walking a path component by component from the directory \<open>cur\<close>, with \<open>links\<close> links left.\<close>

function resolve :: "filesystem \<Rightarrow> nat \<Rightarrow> path \<Rightarrow> path \<Rightarrow> path res" where
  "resolve fs links cur [] = Inr cur"
| "resolve fs links cur (c # cs) =
     (if c = [] \<or> c = ''.'' then resolve fs links cur cs
      else if c = ''..'' then resolve fs links (butlast cur) cs
      else
        (case node_at fs (cur @ [c]) of
           None \<Rightarrow> Inl ''No such file or directory (os error 2)''
         | Some n \<Rightarrow>
             (case kind_of n of
                DirNode \<Rightarrow> resolve fs links (cur @ [c]) cs
              | FileNode \<Rightarrow>
                  if cs = [] then Inr (cur @ [c]) else Inl ''Not a directory (os error 20)''
              | LinkNode t \<Rightarrow>
                  (case links of
                     0 \<Rightarrow> Inl ''Too many levels of symbolic links (os error 40)''
                   | Suc l \<Rightarrow> resolve fs l (if is_absolute t then [] else cur) (components t @ cs)))))"
  by pat_completeness auto

termination
  by (relation "measures [\<lambda>(fs, l, cur, todo). l, \<lambda>(fs, l, cur, todo). length todo]") auto

text \<open>\<open>fs::canonicalize\<close> of a path below \<open>base\<close>: all components are walked from the root.\<close>

definition canonicalize :: "filesystem \<Rightarrow> path \<Rightarrow> path res" where
  "canonicalize fs p = resolve fs 40 [] p"

text \<open>\<open>PathBuf::join\<close>: an absolute path replaces what it is joined to.\<close>

definition path_join :: "path \<Rightarrow> string \<Rightarrow> path" where
  "path_join base s = (if is_absolute s then components s else base @ components s)"

text \<open>The children of a directory, in the order in which they are read.\<close>

definition children :: "filesystem \<Rightarrow> path \<Rightarrow> path list" where
  "children fs p = filter (\<lambda>q. q \<noteq> [] \<and> butlast q = p) (map fst fs)"

section \<open>Entries\<close>

record file_entry =
  fe_name :: string
  fe_path :: string
  fe_is_dir :: bool
  fe_size :: nat
  fe_modified :: string
  fe_type :: string

text \<open>The entry for a node; the three functions of the code build it in the same way.\<close>

definition make_entry :: "string \<Rightarrow> path \<Rightarrow> node \<Rightarrow> file_entry" where
  "make_entry nm p n =
     \<lparr>fe_name = nm, fe_path = show_path p, fe_is_dir = (kind_of n = DirNode), fe_size = len_of n,
      fe_modified = show_nat (case mtime n of None \<Rightarrow> 0 | Some s \<Rightarrow> s),
      fe_type = (case kind_of n of DirNode \<Rightarrow> ''dir'' | LinkNode _ \<Rightarrow> ''symlink'' | FileNode \<Rightarrow> ''file'')\<rparr>"

text \<open>The name of a path as a directory walk gives it: the root is its own name.\<close>

definition file_name :: "path \<Rightarrow> string" where
  "file_name p = (if p = [] then ''/'' else last p)"

section \<open>Where a request may look\<close>

text \<open>\<open>home\<close> is the home directory, unless the system does not know it.\<close>

definition expand_path :: "filesystem \<Rightarrow> path option \<Rightarrow> string \<Rightarrow> path res" where
  "expand_path fs home_dir s =
     (case home_dir of
        None \<Rightarrow> Inl ''Cannot determine home directory''
      | Some home \<Rightarrow>
          if is_absolute s then Inl ''Absolute paths are not allowed''
          else
            (case (if starts_with s ''~/'' then Inr (path_join home (drop 2 s))
                   else if starts_with s ''~'' \<and> CHR ''/'' \<notin> set s then Inr home
                   else if s = [] then Inr home
                   else if str_contains s ''..'' then Inl ''Path traversal (..) is not allowed''
                   else Inr (path_join home s)) of
               Inl e \<Rightarrow> Inl e
             | Inr expanded \<Rightarrow>
                 (case canonicalize fs expanded of
                    Inl e \<Rightarrow> Inl (''Cannot access path: '' @ e)
                  | Inr canonical \<Rightarrow>
                      (case canonicalize fs home of
                         Inl e \<Rightarrow> Inl (''Cannot verify home directory: '' @ e)
                       | Inr canonical_home \<Rightarrow>
                           if \<not> prefix canonical_home canonical
                             then Inl ''Access denied: path escapes home directory''
                           else Inr canonical))))"

definition check_home_directory :: "filesystem \<Rightarrow> path option \<Rightarrow> path \<Rightarrow> unit res" where
  "check_home_directory fs home_dir p =
     (case home_dir of
        None \<Rightarrow> Inl ''Cannot determine home directory''
      | Some home \<Rightarrow>
          (case canonicalize fs home of
             Inl e \<Rightarrow> Inl (''Cannot canonicalize home directory: '' @ e)
           | Inr canonical_home \<Rightarrow>
               (case canonicalize fs p of
                  Inl e \<Rightarrow> Inl (''Cannot access path: '' @ e)
                | Inr canonical_path \<Rightarrow>
                    if \<not> prefix canonical_home canonical_path
                      then Inl ''Access denied: path is outside home directory''
                    else Inr ())))"

section \<open>Listing\<close>

definition read_dir :: "filesystem \<Rightarrow> path \<Rightarrow> path list res" where
  "read_dir fs p =
     (case node_at fs p of
        None \<Rightarrow> Inl ''No such file or directory (os error 2)''
      | Some n \<Rightarrow>
          (case denied n of
             Some e \<Rightarrow> Inl e
           | None \<Rightarrow>
               if kind_of n = DirNode then Inr (children fs p) else Inl ''Not a directory (os error 20)''))"

text \<open>\<open>sort_by\<close>: directories first, then by the bytes of the name.\<close>

definition list_order :: "file_entry \<Rightarrow> bool \<times> string" where
  "list_order e = (\<not> fe_is_dir e, fe_name e)"

definition entry_at :: "filesystem \<Rightarrow> path \<Rightarrow> file_entry option" where
  "entry_at fs p = map_option (make_entry (file_name p) p) (node_at fs p)"

definition list_directory :: "filesystem \<Rightarrow> path option \<Rightarrow> string \<Rightarrow> file_entry list res" where
  "list_directory fs home_dir s =
     (case expand_path fs home_dir s of
        Inl e \<Rightarrow> Inl e
      | Inr p \<Rightarrow>
          (case check_home_directory fs home_dir p of
             Inl e \<Rightarrow> Inl e
           | Inr _ \<Rightarrow>
               (case read_dir fs p of
                  Inl e \<Rightarrow> Inl (''Failed to read directory: '' @ e)
                | Inr qs \<Rightarrow> Inr (sort_key list_order (List.map_filter (entry_at fs) qs)))))"

section \<open>Searching\<close>

text \<open>One row of the matching table, from left to right: \<open>row\<close> is the row of the name without its
  last character \<open>c\<close>, and \<open>left\<close> what the new row has to the left.\<close>

fun glob_cells :: "char \<Rightarrow> bool \<Rightarrow> bool list \<Rightarrow> string \<Rightarrow> bool list" where
  "glob_cells c left (diag # up # row) (q # qs) =
     (let cell = (if q = CHR ''*'' then left \<or> up else (q = CHR ''?'' \<or> q = c) \<and> diag)
      in cell # glob_cells c cell (up # row) qs)"
| "glob_cells c left _ _ = []"

definition glob_row :: "string \<Rightarrow> char \<Rightarrow> bool list \<Rightarrow> bool list" where
  "glob_row pattern c row = False # glob_cells c False row pattern"

text \<open>The first row: only stars match the empty name.\<close>

fun glob_first :: "bool \<Rightarrow> string \<Rightarrow> bool list" where
  "glob_first left [] = [left]"
| "glob_first left (q # qs) = left # glob_first (q = CHR ''*'' \<and> left) qs"

definition glob_match :: "string \<Rightarrow> string \<Rightarrow> bool" where
  "glob_match name pattern = last (fold (glob_row pattern) name (glob_first True pattern))"

text \<open>The walk: a directory before its contents, links not followed, \<open>depth\<close> levels down.\<close>

fun walk_dir :: "nat \<Rightarrow> filesystem \<Rightarrow> path \<Rightarrow> path list" where
  "walk_dir 0 fs p = [p]"
| "walk_dir (Suc d) fs p =
     p # (case read_dir fs p of Inl _ \<Rightarrow> [] | Inr qs \<Rightarrow> concat (map (walk_dir d fs) qs))"

fun search_loop :: "filesystem \<Rightarrow> string \<Rightarrow> file_entry list \<Rightarrow> path list \<Rightarrow> file_entry list" where
  "search_loop fs pattern acc [] = acc"
| "search_loop fs pattern acc (p # ps) =
     (let acc' = (if glob_match (file_name p) pattern
                  then (case entry_at fs p of None \<Rightarrow> acc | Some e \<Rightarrow> acc @ [e]) else acc) in
      if 100 \<le> length acc' then acc' else search_loop fs pattern acc' ps)"

definition search_files :: "filesystem \<Rightarrow> path option \<Rightarrow> string \<Rightarrow> string \<Rightarrow> file_entry list res" where
  "search_files fs home_dir s pattern =
     (case expand_path fs home_dir s of
        Inl e \<Rightarrow> Inl e
      | Inr p \<Rightarrow>
          (case check_home_directory fs home_dir p of
             Inl e \<Rightarrow> Inl e
           | Inr _ \<Rightarrow> Inr (search_loop fs pattern [] (walk_dir 5 fs p))))"

definition get_file_info :: "filesystem \<Rightarrow> path option \<Rightarrow> string \<Rightarrow> file_entry res" where
  "get_file_info fs home_dir s =
     (case expand_path fs home_dir s of
        Inl e \<Rightarrow> Inl e
      | Inr p \<Rightarrow>
          (case check_home_directory fs home_dir p of
             Inl e \<Rightarrow> Inl e
           | Inr _ \<Rightarrow>
               (case node_at fs p of
                  None \<Rightarrow> Inl ''Failed to get file metadata: No such file or directory (os error 2)''
                | Some n \<Rightarrow> Inr (make_entry (if p = [] then ''unknown'' else last p) p n))))"

section \<open>Endpoints\<close>

definition file_entry_json :: "file_entry \<Rightarrow> json" where
  "file_entry_json e = JObj
     [(''name'', JStr (fe_name e)), (''path'', JStr (fe_path e)), (''is_dir'', JBool (fe_is_dir e)),
      (''size'', JInt (int (fe_size e))), (''modified'', JStr (fe_modified e)),
      (''file_type'', JStr (fe_type e))]"

definition files_list :: "filesystem \<Rightarrow> path option \<Rightarrow> string option \<Rightarrow> json" where
  "files_list fs home_dir param =
     (let s = (case param of None \<Rightarrow> ''~'' | Some s \<Rightarrow> s) in
      case list_directory fs home_dir s of
        Inr es \<Rightarrow> ok_body [(''entries'', JArr (map file_entry_json es)), (''path'', JStr s)]
      | Inl e \<Rightarrow> err_body e)"

definition files_search :: "filesystem \<Rightarrow> path option \<Rightarrow> string option \<Rightarrow> string option \<Rightarrow> json" where
  "files_search fs home_dir param query =
     (let s = (case param of None \<Rightarrow> ''~'' | Some s \<Rightarrow> s);
          pattern = (case query of None \<Rightarrow> [] | Some q \<Rightarrow> q) in
      case search_files fs home_dir s pattern of
        Inr es \<Rightarrow> ok_body [(''entries'', JArr (map file_entry_json es)), (''query'', JStr pattern)]
      | Inl e \<Rightarrow> err_body e)"

definition files_info :: "filesystem \<Rightarrow> path option \<Rightarrow> string option \<Rightarrow> json" where
  "files_info fs home_dir param =
     (let s = (case param of None \<Rightarrow> [] | Some s \<Rightarrow> s) in
      if s = [] then err_body ''path parameter required''
      else (case get_file_info fs home_dir s of
              Inr e \<Rightarrow> ok_body [(''entry'', file_entry_json e)] | Inl e \<Rightarrow> err_body e))"

section \<open>Patterns\<close>

text \<open>The names that a pattern stands for.\<close>

definition piece :: "char \<Rightarrow> string set" where
  "piece q = (if q = CHR ''*'' then UNIV else if q = CHR ''?'' then {u. length u = 1} else {[q]})"

definition joined :: "string set \<Rightarrow> string set \<Rightarrow> string set" where
  "joined A B = {u @ v | u v. u \<in> A \<and> v \<in> B}"

fun names_of :: "string \<Rightarrow> string set" where
  "names_of [] = {[]}"
| "names_of (q # qs) = joined (piece q) (names_of qs)"

lemma joined_assoc: "joined (joined A B) C = joined A (joined B C)"
proof (intro equalityI subsetI)
  fix x assume "x \<in> joined (joined A B) C"
  then obtain a b c where "x = a @ b @ c" "a \<in> A" "b \<in> B" "c \<in> C" by (auto simp: joined_def)
  then show "x \<in> joined A (joined B C)" unfolding joined_def by blast
next
  fix x assume "x \<in> joined A (joined B C)"
  then obtain a b c where "x = (a @ b) @ c" "a \<in> A" "b \<in> B" "c \<in> C" by (auto simp: joined_def)
  then show "x \<in> joined (joined A B) C" unfolding joined_def by blast
qed

lemma joined_Nil [simp]: "joined {[]} B = B" "joined A {[]} = A"
  by (auto simp: joined_def)

lemma names_of_append: "names_of (xs @ ys) = joined (names_of xs) (names_of ys)"
  by (induction xs) (simp_all add: joined_assoc)

lemma names_of_star: "names_of (xs @ ''*'') = {u @ v | u v. u \<in> names_of xs}"
  by (auto simp: names_of_append joined_def piece_def)

lemma names_of_char:
  "q \<noteq> CHR ''*'' \<Longrightarrow> names_of (xs @ [q]) = {u @ [c] | u c. u \<in> names_of xs \<and> (q = CHR ''?'' \<or> q = c)}"
  by (auto simp: names_of_append joined_def piece_def length_Suc_conv)

lemma star_snoc: "u @ [c] \<in> names_of (xs @ ''*'') \<longleftrightarrow> u @ [c] \<in> names_of xs \<or> u \<in> names_of (xs @ ''*'')"
proof
  assume "u @ [c] \<in> names_of (xs @ ''*'')"
  then obtain v w where vw: "u @ [c] = v @ w" "v \<in> names_of xs" by (auto simp: names_of_star)
  then show "u @ [c] \<in> names_of xs \<or> u \<in> names_of (xs @ ''*'')"
    by (cases w rule: rev_cases) (auto simp: names_of_star)
next
  assume "u @ [c] \<in> names_of xs \<or> u \<in> names_of (xs @ ''*'')"
  then show "u @ [c] \<in> names_of (xs @ ''*'')" by (auto simp: names_of_star) (metis append_Nil2)
qed

text \<open>The row of the table for the name \<open>u\<close>, from the column of \<open>pre\<close> on.\<close>

fun table_row :: "string \<Rightarrow> string \<Rightarrow> string \<Rightarrow> bool list" where
  "table_row u pre [] = [u \<in> names_of pre]"
| "table_row u pre (q # qs) = (u \<in> names_of pre) # table_row u (pre @ [q]) qs"

lemma table_row_hd: "table_row u pre qs = (u \<in> names_of pre) # tl (table_row u pre qs)"
  by (cases qs) simp_all

lemma table_row_last: "last (table_row u pre qs) \<longleftrightarrow> u \<in> names_of (pre @ qs)"
proof (induction qs arbitrary: pre)
  case (Cons q qs)
  moreover have "table_row u (pre @ [q]) qs \<noteq> []" by (subst table_row_hd) simp
  ultimately show ?case by simp
qed simp

lemma glob_first_row: "glob_first ([] \<in> names_of pre) qs = table_row [] pre qs"
proof (induction qs arbitrary: pre)
  case (Cons q qs)
  have "[] \<in> names_of (pre @ [q]) \<longleftrightarrow> q = CHR ''*'' \<and> [] \<in> names_of pre"
    by (cases "q = CHR ''*''") (auto simp: names_of_star names_of_char)
  then show ?case using Cons [of "pre @ [q]"] by simp
qed simp

lemma glob_cells_row:
  "glob_cells c (u @ [c] \<in> names_of pre) (table_row u pre qs) qs = tl (table_row (u @ [c]) pre qs)"
proof (induction qs arbitrary: pre)
  case (Cons q qs)
  have cell: "u @ [c] \<in> names_of (pre @ [q]) \<longleftrightarrow>
      (if q = CHR ''*'' then u @ [c] \<in> names_of pre \<or> u \<in> names_of (pre @ [q])
       else (q = CHR ''?'' \<or> q = c) \<and> u \<in> names_of pre)"
    using star_snoc [of u c pre] by (cases "q = CHR ''*''") (auto simp: names_of_char)
  have "glob_cells c (u @ [c] \<in> names_of pre) (table_row u pre (q # qs)) (q # qs) =
      (u @ [c] \<in> names_of (pre @ [q])) #
      glob_cells c (u @ [c] \<in> names_of (pre @ [q])) (table_row u (pre @ [q]) qs) qs"
    unfolding table_row.simps by (subst (1 2) table_row_hd) (simp only: glob_cells.simps Let_def cell)
  then show ?case using Cons [of "pre @ [q]"] table_row_hd [of "u @ [c]" "pre @ [q]" qs] by simp
qed simp

lemma glob_rows: "fold (glob_row pattern) name (table_row u [] pattern) = table_row (u @ name) [] pattern"
proof (induction name arbitrary: u)
  case (Cons c name)
  have "glob_row pattern c (table_row u [] pattern) = table_row (u @ [c]) [] pattern"
    using glob_cells_row [of c u "[]" pattern] table_row_hd [of "u @ [c]" "[]" pattern] by (simp add: glob_row_def)
  then show ?case using Cons [of "u @ [c]"] by simp
qed simp

lemma glob_match_names: "glob_match name pattern \<longleftrightarrow> name \<in> names_of pattern"
proof -
  have "glob_first True pattern = table_row [] [] pattern" using glob_first_row [of "[]" pattern] by simp
  then show ?thesis using glob_rows [of pattern name "[]"] by (simp add: glob_match_def table_row_last)
qed

text \<open>C21. The matching table computes pattern matching. For every name and pattern, \<open>glob_match\<close>
  answers whether the name can be cut into pieces, one for each character of the pattern, in which a
  star stands for any text, a question mark for one character and any other character for itself.\<close>

theorem glob_match_correct: "glob_match name pattern \<longleftrightarrow> name \<in> names_of pattern"
  by (rule glob_match_names)

section \<open>What canonicalization gives\<close>

text \<open>A path whose components are all names of directories.\<close>

definition dirs :: "filesystem \<Rightarrow> path \<Rightarrow> bool" where
  "dirs fs p \<longleftrightarrow> (\<forall>q c. prefix (q @ [c]) p \<longrightarrow>
     c \<notin> {[], ''.'', ''..''} \<and> (\<exists>n. node_at fs (q @ [c]) = Some n \<and> kind_of n = DirNode))"

text \<open>A path that the operating system has nothing left to resolve in.\<close>

definition canonical :: "filesystem \<Rightarrow> path \<Rightarrow> bool" where
  "canonical fs p \<longleftrightarrow> dirs fs p \<or>
     (\<exists>q c n. p = q @ [c] \<and> dirs fs q \<and> c \<notin> {[], ''.'', ''..''} \<and>
        node_at fs p = Some n \<and> kind_of n = FileNode)"

lemma dirs_Nil [simp]: "dirs fs []"
  by (simp add: dirs_def)

lemma dirs_snoc:
  "dirs fs (p @ [c]) \<longleftrightarrow> dirs fs p \<and> c \<notin> {[], ''.'', ''..''} \<and> (\<exists>n. node_at fs (p @ [c]) = Some n \<and> kind_of n = DirNode)"
  unfolding dirs_def prefix_snoc by auto

lemma dirs_prefix: "dirs fs p \<Longrightarrow> prefix q p \<Longrightarrow> dirs fs q"
  unfolding dirs_def using prefix_order.trans by blast

lemma dirs_butlast: "dirs fs p \<Longrightarrow> dirs fs (butlast p)"
  by (erule dirs_prefix) (rule prefixeq_butlast)

lemma resolve_canonical: "resolve fs l cur todo = Inr p \<Longrightarrow> dirs fs cur \<Longrightarrow> canonical fs p"
proof (induction fs l cur todo rule: resolve.induct)
  case (1 fs links cur)
  then show ?case by (simp add: canonical_def)
next
  case (2 fs links cur c cs)
  show ?case
  proof (cases "c \<in> {[], ''.'', ''..''}")
    case True
    then show ?thesis using 2 dirs_butlast by (auto split: if_splits)
  next
    case name: False
    then obtain n where n: "node_at fs (cur @ [c]) = Some n"
      using "2.prems"(1) by (auto split: option.splits)
    show ?thesis
    proof (cases "kind_of n")
      case DirNode
      then show ?thesis using 2 name n by (auto simp: dirs_snoc)
    next
      case FileNode
      then have "p = cur @ [c]" using "2.prems"(1) name n by (auto split: if_splits)
      then show ?thesis using FileNode name n "2.prems"(2) unfolding canonical_def by blast
    next
      case (LinkNode t)
      then show ?thesis using 2 name n by (auto split: nat.splits if_splits)
    qed
  qed
qed

lemma resolve_dirs: "dirs fs (cur @ p) \<Longrightarrow> resolve fs l cur p = Inr (cur @ p)"
proof (induction p arbitrary: cur)
  case (Cons c p)
  have "dirs fs (cur @ [c])" using Cons.prems by (rule dirs_prefix) simp
  then obtain n where "c \<notin> {[], ''.'', ''..''}" "node_at fs (cur @ [c]) = Some n" "kind_of n = DirNode"
    by (auto simp: dirs_snoc)
  then show ?case using Cons.IH [of "cur @ [c]"] Cons.prems by simp
qed simp

lemma resolve_dirs_then: "dirs fs (cur @ q) \<Longrightarrow> resolve fs l cur (q @ todo) = resolve fs l (cur @ q) todo"
proof (induction q arbitrary: cur)
  case (Cons c q)
  have "dirs fs (cur @ [c])" using Cons.prems by (rule dirs_prefix) simp
  then obtain n where "c \<notin> {[], ''.'', ''..''}" "node_at fs (cur @ [c]) = Some n" "kind_of n = DirNode"
    by (auto simp: dirs_snoc)
  then show ?case using Cons.IH [of "cur @ [c]"] Cons.prems by simp
qed simp

lemma canonicalize_canonical: "canonicalize fs p = Inr q \<Longrightarrow> canonical fs q"
  unfolding canonicalize_def by (erule resolve_canonical) simp

lemma canonical_fixed: "canonical fs p \<Longrightarrow> canonicalize fs p = Inr p"
  unfolding canonical_def
proof (elim disjE exE conjE)
  assume "dirs fs p"
  then show ?thesis using resolve_dirs [of fs "[]" p] by (simp add: canonicalize_def)
next
  fix q c n assume p: "p = q @ [c]" "dirs fs q" "c \<notin> {[], ''.'', ''..''}" "node_at fs p = Some n" "kind_of n = FileNode"
  then show ?thesis
    using resolve_dirs_then [of fs "[]" q 40 "[c]"] by (simp add: canonicalize_def)
qed

text \<open>What \<open>expand_path\<close> answers is canonical and not above the home directory; the second check adds
  nothing.\<close>

lemma expand_path_inside:
  assumes "expand_path fs home_dir s = Inr p"
  obtains home h where "home_dir = Some home" "canonicalize fs home = Inr h" "prefix h p" "canonical fs p"
    "\<not> is_absolute s"
proof -
  obtain home where home: "home_dir = Some home" "\<not> is_absolute s"
    using assms by (auto simp: expand_path_def split: option.splits if_splits)
  obtain x where x: "canonicalize fs x = Inr p"
    using assms home by (auto simp: expand_path_def split: sum.splits if_splits)
  obtain h where "canonicalize fs home = Inr h" "prefix h p"
    using assms home by (auto simp: expand_path_def split: sum.splits if_splits)
  then show ?thesis using that home canonicalize_canonical [OF x] by blast
qed

lemma second_check_passes: "expand_path fs home_dir s = Inr p \<Longrightarrow> check_home_directory fs home_dir p = Inr ()"
  by (elim expand_path_inside) (simp add: check_home_directory_def canonical_fixed)

section \<open>Requests stay inside the home directory\<close>

text \<open>The entry describes a node that is really below the home directory: below its canonical path,
  and reached from it through directories only.\<close>

definition inside_home :: "filesystem \<Rightarrow> path option \<Rightarrow> file_entry \<Rightarrow> bool" where
  "inside_home fs home_dir e \<longleftrightarrow>
     (\<exists>home h q n nm. home_dir = Some home \<and> canonicalize fs home = Inr h \<and> prefix h q \<and>
        (\<forall>r. prefix h r \<and> strict_prefix r q \<and> r \<noteq> [] \<longrightarrow> (\<exists>d. node_at fs r = Some d \<and> kind_of d = DirNode)) \<and>
        node_at fs q = Some n \<and> e = make_entry nm q n)"

definition below :: "filesystem \<Rightarrow> path \<Rightarrow> path \<Rightarrow> bool" where
  "below fs p q \<longleftrightarrow> prefix p q \<and>
     (\<forall>r. prefix p r \<and> strict_prefix r q \<longrightarrow> (\<exists>d. node_at fs r = Some d \<and> kind_of d = DirNode \<and> denied d = None))"

lemma below_refl [simp]: "below fs p p"
  by (auto simp: below_def dest: prefix_order.antisym)

lemma canonical_dirs_above:
  "canonical fs p \<Longrightarrow> strict_prefix r p \<Longrightarrow> r \<noteq> [] \<Longrightarrow> \<exists>d. node_at fs r = Some d \<and> kind_of d = DirNode"
proof -
  assume c: "canonical fs p" and r: "strict_prefix r p" "r \<noteq> []"
  have "dirs fs r"
    using c
  proof (unfold canonical_def, elim disjE exE conjE)
    assume "dirs fs p"
    then show ?thesis using r dirs_prefix strict_prefix_def by blast
  next
    fix q c n assume "p = q @ [c]" "dirs fs q"
    then show ?thesis using r dirs_prefix by (metis strict_prefix_def prefix_snoc)
  qed
  then show ?thesis using r(2) by (cases r rule: rev_cases) (auto simp: dirs_snoc)
qed

lemma inside_homeI:
  assumes "expand_path fs home_dir s = Inr p" "below fs p q" "node_at fs q = Some n" "e = make_entry nm q n"
  shows "inside_home fs home_dir e"
proof -
  obtain home h where h: "home_dir = Some home" "canonicalize fs home = Inr h" "prefix h p" "canonical fs p"
    using assms(1) by (rule expand_path_inside)
  have up: "\<exists>d. node_at fs r = Some d \<and> kind_of d = DirNode" if "strict_prefix r q" "r \<noteq> []" for r
  proof (cases "prefix p r")
    case True
    then show ?thesis using that assms(2) by (auto simp: below_def)
  next
    case False
    have "prefix p q" using assms(2) by (simp add: below_def)
    then have "strict_prefix r p" using False that(1) prefix_same_cases strict_prefix_def by blast
    then show ?thesis using canonical_dirs_above [OF h(4)] that(2) by blast
  qed
  moreover have "prefix h q" using h(3) assms(2) prefix_order.trans by (auto simp: below_def)
  ultimately show ?thesis using h assms(3,4) unfolding inside_home_def by blast
qed

lemma read_dir_below:
  assumes "read_dir fs p = Inr qs" "q \<in> set qs" shows "below fs p q \<and> q \<noteq> [] \<and> butlast q = p"
proof -
  obtain n where n: "node_at fs p = Some n" "denied n = None" "kind_of n = DirNode" "qs = children fs p"
    using assms(1) by (auto simp: read_dir_def split: option.splits if_splits)
  then have q: "q \<noteq> []" "butlast q = p" using assms(2) by (auto simp: children_def)
  then have qp: "q = p @ [last q]" by auto
  have "r = p" if "prefix p r" "strict_prefix r q" for r
    using that qp by (metis prefix_order.antisym prefix_snoc strict_prefix_def)
  then show ?thesis using n q qp by (auto simp: below_def prefixeq_butlast)
qed

lemma below_trans: "below fs p q \<Longrightarrow> below fs q r \<Longrightarrow> below fs p r"
  unfolding below_def by (metis prefix_order.trans prefix_order.less_le prefix_same_cases)

lemma walk_dir_below: "q \<in> set (walk_dir d fs p) \<Longrightarrow> below fs p q \<and> length q \<le> length p + d"
proof (induction d arbitrary: p)
  case (Suc d)
  show ?case
  proof (cases "q = p")
    case False
    then obtain qs r where r: "read_dir fs p = Inr qs" "r \<in> set qs" "q \<in> set (walk_dir d fs r)"
      using Suc.prems by (cases "read_dir fs p") auto
    have b: "below fs p r" "r \<noteq> []" "butlast r = p" using read_dir_below [OF r(1,2)] by blast+
    then have "length r = Suc (length p)" by (metis append_butlast_last_id length_append_singleton)
    then show ?thesis using Suc.IH [OF r(3)] below_trans [OF b(1)] by simp
  qed simp
qed simp

lemma walk_dir_complete:
  "below fs p q \<Longrightarrow> node_at fs q \<noteq> None \<Longrightarrow> length q \<le> length p + d \<Longrightarrow> q \<in> set (walk_dir d fs p)"
proof (induction d arbitrary: p)
  case 0
  then have "prefix p q" "length q \<le> length p" by (simp_all add: below_def)
  then have "q = p" by (auto simp: prefix_def)
  then show ?case by simp
next
  case (Suc d)
  show ?case
  proof (cases "q = p")
    case False
    moreover obtain zs where "q = p @ zs" using Suc.prems(1) by (auto simp: below_def prefix_def)
    ultimately obtain c t where q: "q = p @ c # t" by (cases zs) auto
    have "strict_prefix p q" using q by (simp add: strict_prefix_def prefix_def)
    then obtain n where "node_at fs p = Some n" "kind_of n = DirNode" "denied n = None"
      using Suc.prems(1) by (auto simp: below_def)
    then have rd: "read_dir fs p = Inr (children fs p)" by (simp add: read_dir_def)
    have "below fs (p @ [c]) q"
      using Suc.prems(1) q unfolding below_def by (metis append_Cons append_Nil append_assoc prefixI prefix_order.trans)
    moreover have "node_at fs (p @ [c]) \<noteq> None"
    proof (cases "t = []")
      case True
      then show ?thesis using Suc.prems(2) q by simp
    next
      case False
      then have "strict_prefix (p @ [c]) q" using q by (auto simp: strict_prefix_def prefix_def)
      moreover have "prefix p (p @ [c])" by simp
      ultimately show ?thesis using Suc.prems(1) unfolding below_def by fastforce
    qed
    then have "p @ [c] \<in> set (children fs p)"
      by (auto simp: children_def dest: map_of_SomeD intro: rev_image_eqI)
    moreover have "length q \<le> length (p @ [c]) + d" using Suc.prems(3) by simp
    ultimately show ?thesis using Suc.IH [of "p @ [c]"] Suc.prems(2) rd by auto
  qed simp
qed

lemma search_loop_take:
  assumes "length acc < 100"
  shows "search_loop fs pattern acc ps =
    take 100 (acc @ List.map_filter (entry_at fs) (filter (\<lambda>p. glob_match (file_name p) pattern) ps))"
  using assms
proof (induction ps arbitrary: acc)
  case (Cons p ps)
  show ?case
  proof (cases "glob_match (file_name p) pattern \<and> entry_at fs p \<noteq> None")
    case True
    then obtain e where e: "entry_at fs p = Some e" by blast
    show ?thesis
    proof (cases "length acc = 99")
      case True
      then show ?thesis using \<open>glob_match _ _ \<and> _\<close> e by (simp add: Let_def map_filter_simps)
    next
      case False
      then show ?thesis
        using Cons.IH [of "acc @ [e]"] Cons.prems \<open>glob_match _ _ \<and> _\<close> e by (simp add: Let_def map_filter_simps)
    qed
  next
    case False
    then show ?thesis using Cons by (auto simp: Let_def map_filter_simps)
  qed
qed (simp add: map_filter_def)

lemma map_filter_mem: "e \<in> set (List.map_filter f xs) \<longleftrightarrow> (\<exists>x \<in> set xs. f x = Some e)"
  by (induction xs) (auto simp: map_filter_simps split: option.splits)

lemma search_files_eq:
  "search_files fs home_dir s pattern = (case expand_path fs home_dir s of Inl e \<Rightarrow> Inl e
     | Inr p \<Rightarrow> Inr (take 100 (List.map_filter (entry_at fs)
          (filter (\<lambda>q. glob_match (file_name q) pattern) (walk_dir 5 fs p)))))"
  by (cases "expand_path fs home_dir s") (simp_all add: search_files_def second_check_passes search_loop_take)

lemma list_directory_eq:
  "list_directory fs home_dir s = (case expand_path fs home_dir s of Inl e \<Rightarrow> Inl e
     | Inr p \<Rightarrow> (case read_dir fs p of Inl e \<Rightarrow> Inl (''Failed to read directory: '' @ e)
          | Inr qs \<Rightarrow> Inr (sort_key list_order (List.map_filter (entry_at fs) qs))))"
  by (cases "expand_path fs home_dir s") (simp_all add: list_directory_def second_check_passes)

lemma get_file_info_eq:
  "get_file_info fs home_dir s = (case expand_path fs home_dir s of Inl e \<Rightarrow> Inl e
     | Inr p \<Rightarrow> (case node_at fs p of
          None \<Rightarrow> Inl ''Failed to get file metadata: No such file or directory (os error 2)''
        | Some n \<Rightarrow> Inr (make_entry (if p = [] then ''unknown'' else last p) p n)))"
  by (cases "expand_path fs home_dir s") (simp_all add: get_file_info_def second_check_passes)

lemma entry_at_Some: "entry_at fs q = Some e \<longleftrightarrow> (\<exists>n. node_at fs q = Some n \<and> e = make_entry (file_name q) q n)"
  by (auto simp: entry_at_def)

text \<open>C20. File requests see nothing outside the home directory. Whatever the file system, its links
  and the path, every entry that listing, searching or asking for a file answers describes a node
  below the canonical home directory, with no link on the way to it; absolute paths are refused, and
  the second check of \<open>check_home_directory\<close> never changes an answer.\<close>

theorem files_confined:
  "list_all (inside_home fs home_dir) (case list_directory fs home_dir s of Inl _ \<Rightarrow> [] | Inr es \<Rightarrow> es) \<and>
   list_all (inside_home fs home_dir) (case search_files fs home_dir s pattern of Inl _ \<Rightarrow> [] | Inr es \<Rightarrow> es) \<and>
   list_all (inside_home fs home_dir) (case get_file_info fs home_dir s of Inl _ \<Rightarrow> [] | Inr e \<Rightarrow> [e]) \<and>
   \<not> is_ok (expand_path fs (Some home) (''/'' @ s)) \<and>
   (case expand_path fs home_dir s of Inl _ \<Rightarrow> True | Inr p \<Rightarrow> check_home_directory fs home_dir p = Inr ())"
proof (intro conjI)
  show "list_all (inside_home fs home_dir) (case list_directory fs home_dir s of Inl _ \<Rightarrow> [] | Inr es \<Rightarrow> es)"
    by (auto simp: list_directory_eq list_all_iff map_filter_mem entry_at_Some split: sum.splits
        dest!: read_dir_below intro: inside_homeI)
  show "list_all (inside_home fs home_dir) (case search_files fs home_dir s pattern of Inl _ \<Rightarrow> [] | Inr es \<Rightarrow> es)"
    by (auto simp: search_files_eq list_all_iff map_filter_mem entry_at_Some split: sum.splits
        dest!: in_set_takeD walk_dir_below intro: inside_homeI)
  show "list_all (inside_home fs home_dir) (case get_file_info fs home_dir s of Inl _ \<Rightarrow> [] | Inr e \<Rightarrow> [e])"
    by (auto simp: get_file_info_eq split: sum.splits option.splits intro: inside_homeI [OF _ below_refl _ refl])
  show "\<not> is_ok (expand_path fs (Some home) (''/'' @ s))" by (simp add: expand_path_def is_absolute_def)
  show "case expand_path fs home_dir s of Inl _ \<Rightarrow> True | Inr p \<Rightarrow> check_home_directory fs home_dir p = Inr ()"
    by (simp add: second_check_passes split: sum.splits)
qed

text \<open>The nodes that a search below \<open>p\<close> is to find.\<close>

definition search_hits :: "filesystem \<Rightarrow> path \<Rightarrow> string \<Rightarrow> file_entry set" where
  "search_hits fs p pattern = {make_entry (file_name q) q n | q n.
     below fs p q \<and> length q \<le> length p + 5 \<and> node_at fs q = Some n \<and> file_name q \<in> names_of pattern}"

lemma distinct_map_sort_key: "distinct (map f (sort_key k xs)) = distinct (map f xs)"
  by (simp add: distinct_map inj_on_def)

lemma found_hits:
  "set (List.map_filter (entry_at fs) (filter (\<lambda>q. glob_match (file_name q) pattern) (walk_dir 5 fs p)))
     = search_hits fs p pattern"
proof (intro equalityI subsetI)
  fix e assume "e \<in> set (List.map_filter (entry_at fs) (filter (\<lambda>q. glob_match (file_name q) pattern) (walk_dir 5 fs p)))"
  then show "e \<in> search_hits fs p pattern"
    using walk_dir_below by (fastforce simp: map_filter_mem entry_at_Some search_hits_def glob_match_names)
next
  fix e assume "e \<in> search_hits fs p pattern"
  then obtain q n where q: "below fs p q" "length q \<le> length p + 5" "node_at fs q = Some n"
    "file_name q \<in> names_of pattern" "e = make_entry (file_name q) q n"
    by (auto simp: search_hits_def)
  have "q \<in> set (walk_dir 5 fs p)" using walk_dir_complete [OF q(1) _ q(2)] q(3) by simp
  then show "e \<in> set (List.map_filter (entry_at fs) (filter (\<lambda>q. glob_match (file_name q) pattern) (walk_dir 5 fs p)))"
    using q by (auto simp: map_filter_mem entry_at_Some glob_match_names)
qed

lemma children_known: "set (children fs p) = {q. q \<noteq> [] \<and> butlast q = p \<and> node_at fs q \<noteq> None}"
  by (auto simp: children_def map_of_eq_None_iff)

lemma list_entries:
  assumes "distinct (map fst fs)"
  shows "map fe_name (List.map_filter (entry_at fs) (children fs p)) = map last (children fs p)"
    and "distinct (map last (children fs p))"
proof -
  have "map fe_name (List.map_filter (entry_at fs) qs) = map last qs" if "set qs \<subseteq> set (children fs p)" for qs
    using that
  proof (induction qs)
    case (Cons q qs)
    then obtain n where "node_at fs q = Some n" "q \<noteq> []" by (auto simp: children_known)
    then show ?case
      using Cons by (simp add: map_filter_simps entry_at_def file_name_def make_entry_def)
  qed (simp add: map_filter_def)
  then show "map fe_name (List.map_filter (entry_at fs) (children fs p)) = map last (children fs p)" by simp
  have "inj_on last (set (children fs p))"
    by (intro inj_onI) (metis (mono_tags, lifting) append_butlast_last_id children_known mem_Collect_eq)
  moreover have "distinct (children fs p)" using assms by (simp add: children_def)
  ultimately show "distinct (map last (children fs p))" by (simp add: distinct_map)
qed

text \<open>Listing and searching answer what is there. A listing holds exactly the children of the
  directory, each name once, directories first and each group by name. A search answers at most a
  hundred entries, each of a node at most five levels below whose name matches the pattern; when it
  answers fewer than a hundred, every such node that can be reached through readable directories is
  answered.\<close>

theorem listing_and_search_complete:
  assumes "expand_path fs home_dir s = Inr p" "read_dir fs p = Inr qs" "distinct (map fst fs)"
  shows "\<exists>es found. list_directory fs home_dir s = Inr es \<and> sorted (map list_order es) \<and>
      distinct (map fe_name es) \<and>
      set es = {make_entry (last q) q n | q n. q \<noteq> [] \<and> butlast q = p \<and> node_at fs q = Some n} \<and>
      search_files fs home_dir s pattern = Inr found \<and> length found \<le> 100 \<and>
      set found \<subseteq> search_hits fs p pattern \<and> (length found = 100 \<or> set found = search_hits fs p pattern)"
proof -
  have qs: "qs = children fs p"
    using assms(2) by (auto simp: read_dir_def split: option.splits if_splits)
  let ?es = "List.map_filter (entry_at fs) (children fs p)"
  let ?all = "List.map_filter (entry_at fs) (filter (\<lambda>q. glob_match (file_name q) pattern) (walk_dir 5 fs p))"
  have l: "list_directory fs home_dir s = Inr (sort_key list_order ?es)"
    using assms(1,2) qs by (simp add: list_directory_eq)
  have d: "distinct (map fe_name (sort_key list_order ?es))"
    using list_entries [OF assms(3), of p] by (simp add: distinct_map_sort_key)
  have e: "set (sort_key list_order ?es) =
      {make_entry (last q) q n | q n. q \<noteq> [] \<and> butlast q = p \<and> node_at fs q = Some n}"
    unfolding set_sort by (auto simp: map_filter_mem children_known entry_at_Some file_name_def) blast+
  have f: "search_files fs home_dir s pattern = Inr (take 100 ?all)" using assms(1) by (simp add: search_files_eq)
  have "set (take 100 ?all) \<subseteq> search_hits fs p pattern" using found_hits set_take_subset by fast
  moreover have "length (take 100 ?all) = 100 \<or> set (take 100 ?all) = search_hits fs p pattern"
    using found_hits [of fs pattern p] by (cases "100 \<le> length ?all") simp_all
  moreover have "sorted (map list_order (sort_key list_order ?es))" by simp
  moreover have "length (take 100 ?all) \<le> 100" by simp
  ultimately show ?thesis using l d e f by blast
qed

lemma listing_and_search_complete_witness:
  "\<exists>es. list_directory [([], \<lparr>kind_of = DirNode, len_of = 0, mtime = None, denied = None\<rparr>),
       ([''h''], \<lparr>kind_of = DirNode, len_of = 0, mtime = None, denied = None\<rparr>),
       ([''h'', ''b''], \<lparr>kind_of = FileNode, len_of = 3, mtime = Some 7, denied = None\<rparr>)] (Some [''h'']) ''~'' = Inr es \<and>
     distinct (map fe_name es)"
proof -
  let ?fs = "[([], \<lparr>kind_of = DirNode, len_of = 0, mtime = None, denied = None\<rparr>),
       ([''h''], \<lparr>kind_of = DirNode, len_of = 0, mtime = None, denied = None\<rparr>),
       ([''h'', ''b''], \<lparr>kind_of = FileNode, len_of = 3, mtime = Some 7, denied = None\<rparr>)]"
  have "expand_path ?fs (Some [''h'']) ''~'' = Inr [''h'']" by code_simp
  moreover have "read_dir ?fs [''h''] = Inr [[''h'', ''b'']]" by code_simp
  moreover have "distinct (map fst ?fs)" by simp
  ultimately show ?thesis using listing_and_search_complete by blast
qed

end
