(* ===== verification/Http_Server.thy ===== *)
theory Http_Server
  imports Json_Value
begin

text \<open>
  The HTTP server itself: \<open>src-tauri/src/server/mod.rs\<close>: the server token, the table of routes, and
  the layers around it. A request passes the size limit, then the rate limiter, then the layer that
  adds security headers, then the router; requests to protected routes also need the server token.
  The CORS layer around all of them is a library's and not part of the model.

  Arguments are what the libraries give: \<open>check\<close>, the limiter of the crate governor; \<open>pick\<close>, axum's
  router; \<open>handlers\<close>, which runs an endpoint by its name and is what the other theories model.
\<close>

section \<open>Requests and responses\<close>

datatype http_method = Get | Post | Put | Delete | OtherMethod

record http_request =
  req_method :: http_method
  req_path :: string
  req_headers :: "(string \<times> string) list"

record http_response =
  resp_status :: nat
  resp_headers :: "string \<rightharpoonup> string"
  resp_body :: string

type_synonym 's endpoint = "http_request \<Rightarrow> 's \<Rightarrow> 's \<times> http_response"

text \<open>Header names are in lower case. The value of a header, if it is visible ASCII (\<open>to_str\<close>).\<close>

definition header_text :: "string \<Rightarrow> http_request \<Rightarrow> string option" where
  "header_text name r =
     (case map_of (req_headers r) name of
        None \<Rightarrow> None
      | Some v \<Rightarrow>
          if list_all (\<lambda>c. 32 \<le> (of_char c :: nat) \<and> (of_char c :: nat) < 127 \<or> (of_char c :: nat) = 9) v
          then Some v else None)"

definition text_response :: "nat \<Rightarrow> string \<Rightarrow> http_response" where
  "text_response code body = \<lparr>resp_status = code, resp_headers = Map.empty, resp_body = body\<rparr>"

section \<open>The server token\<close>

text \<open>\<open>token\<close> is the cell, \<open>file\<close> what \<open>~/.pi/server-token\<close> holds. Without a home directory, or when
  creating the directory or writing fails, the file stays as it is.\<close>

record token_state =
  token_cell :: "string option"
  token_file :: "string option"

definition server_token :: "string \<Rightarrow> bool \<Rightarrow> faults \<Rightarrow> token_state \<Rightarrow> token_state \<times> string" where
  "server_token uuid has_home f st =
     (case token_cell st of
        Some t \<Rightarrow> (st, t)
      | None \<Rightarrow>
          (let t = filter (\<lambda>c. c \<noteq> CHR ''-'') uuid in
           (st\<lparr>token_cell := Some t,
               token_file := (if has_home \<and> f 1 = None then Some t else token_file st)\<rparr>, t)))"

section \<open>Layers\<close>

definition bearer :: "http_request \<Rightarrow> string option" where
  "bearer r = Option.bind (header_text ''authorization'' r) (strip_prefix ''Bearer '')"

definition auth_middleware :: "string \<Rightarrow> 's endpoint \<Rightarrow> 's endpoint" where
  "auth_middleware expected next r s =
     (if bearer r \<noteq> Some expected then (s, text_response 401 ''Unauthorized'') else next r s)"

text \<open>\<open>check\<close> answers whether the limiter lets a request pass, at the time of the request.\<close>

definition rate_limit_middleware ::
  "('l \<Rightarrow> 'l \<times> bool) \<Rightarrow> 's endpoint \<Rightarrow> ('l \<times> 's) endpoint" where
  "rate_limit_middleware check next r st =
     (case st of (l, s) \<Rightarrow>
        (case check l of
           (l', False) \<Rightarrow>
             ((l', s), text_response 429 ''Rate limit exceeded. Maximum 2 requests per second allowed.'')
         | (l', True) \<Rightarrow> (case next r s of (s', resp) \<Rightarrow> ((l', s'), resp))))"

definition max_body_size :: nat where
  "max_body_size = 10 * 1024 * 1024"

definition request_size_limit_middleware :: "'s endpoint \<Rightarrow> 's endpoint" where
  "request_size_limit_middleware next r s =
     (case Option.bind (header_text ''content-length'' r) (parse_uint 64) of
        Some n \<Rightarrow>
          if n > max_body_size then (s, text_response 413 ''Request body exceeds maximum size (10MB).'')
          else next r s
      | None \<Rightarrow> next r s)"

definition security_headers :: "(string \<rightharpoonup> string) \<Rightarrow> string \<rightharpoonup> string" where
  "security_headers h =
     (h(''x-content-type-options'' \<mapsto> ''nosniff'',
        ''x-xss-protection'' \<mapsto> ''1; mode=block'',
        ''x-frame-options'' \<mapsto> ''SAMEORIGIN'',
        ''strict-transport-security'' \<mapsto> ''max-age=31536000; includeSubDomains'',
        ''x-powered-by'' \<mapsto> []))(''server'' := None)"

definition security_headers_middleware :: "'s endpoint \<Rightarrow> 's endpoint" where
  "security_headers_middleware next r s =
     (case next r s of (s', resp) \<Rightarrow> (s', resp\<lparr>resp_headers := security_headers (resp_headers resp)\<rparr>))"

section \<open>Routes\<close>

datatype route = Route (route_method: http_method) (route_pattern: string) (route_handler: string)

text \<open>The routes that need the token, and the others, with the handlers' names.\<close>

definition protected_routes :: "route list" where
  "protected_routes =
     [Route Get ''/api/keychain/{key}'' ''keychain_endpoints::get'',
      Route Post ''/api/keychain'' ''keychain_endpoints::set'',
      Route Delete ''/api/keychain/{key}'' ''keychain_endpoints::delete'',
      Route Get ''/api/clipboard/paste'' ''clipboard_endpoints::paste'',
      Route Get ''/api/files/list'' ''files_endpoints::list'',
      Route Get ''/api/files/search'' ''files_endpoints::search'',
      Route Get ''/api/files/info'' ''files_endpoints::info'']"

definition open_routes :: "route list" where
  "open_routes =
     [Route Get ''/'' ''ws_handler'',
      Route Get ''/api/health'' ''health_check'',
      Route Get ''/api/ws/connections'' ''ws_connections'',
      Route Get ''/api/skills'' ''skills_endpoints::list'',
      Route Get ''/api/skills/{source}/{slug}'' ''skills_endpoints::get'',
      Route Post ''/api/audit'' ''audit_endpoints::log'',
      Route Get ''/api/sessions'' ''sessions_endpoints::list'',
      Route Post ''/api/sessions'' ''sessions_endpoints::create'',
      Route Post ''/api/sessions/load'' ''sessions_endpoints::load'',
      Route Post ''/api/sessions/archive'' ''sessions_endpoints::archive_by_path'',
      Route Get ''/api/sessions/{id}'' ''sessions_endpoints::get'',
      Route Put ''/api/sessions/{id}'' ''sessions_endpoints::update'',
      Route Post ''/api/sessions/{id}/archive'' ''sessions_endpoints::archive'',
      Route Get ''/api/mcp'' ''mcp_endpoints::get_config'',
      Route Post ''/api/mcp'' ''mcp_endpoints::update_config'',
      Route Get ''/api/mcp/catalog'' ''mcp_endpoints::get_catalog'',
      Route Get ''/api/connectors'' ''connectors_endpoints::list'',
      Route Get ''/api/connectors/remote-mcp/{slug}'' ''connectors_endpoints::get'',
      Route Post ''/api/connectors/remote-mcp'' ''connectors_endpoints::add'',
      Route Put ''/api/connectors/remote-mcp/{slug}'' ''connectors_endpoints::update'',
      Route Delete ''/api/connectors/remote-mcp/{slug}'' ''connectors_endpoints::remove'',
      Route Get ''/api/auth/oauth-providers'' ''oauth_endpoints::list_providers'',
      Route Get ''/api/auth/login'' ''oauth_endpoints::login'',
      Route Post ''/api/auth/login/complete'' ''oauth_endpoints::complete_login'',
      Route Get ''/api/auth/callback'' ''oauth_endpoints::callback'',
      Route Get ''/api/auth/status'' ''oauth_endpoints::status'',
      Route Post ''/api/auth/logout'' ''oauth_endpoints::logout'',
      Route Post ''/api/auth/key'' ''auth_endpoints::set_key'',
      Route Get ''/api/auth'' ''auth_endpoints::get_configured'',
      Route Post ''/api/model'' ''agent_endpoints::set_model'',
      Route Get ''/api/thinking'' ''agent_endpoints::get_thinking'',
      Route Post ''/api/thinking'' ''agent_endpoints::set_thinking'',
      Route Post ''/api/stop'' ''agent_endpoints::stop_agent'',
      Route Get ''/api/project'' ''agent_endpoints::get_project'',
      Route Post ''/api/project'' ''agent_endpoints::set_project'',
      Route Get ''/api/sandbox/status'' ''agent_endpoints::sandbox_status'',
      Route Post ''/api/agent/session'' ''agent_endpoints::create_session'',
      Route Get ''/api/settings'' ''settings_endpoints::get_all'',
      Route Post ''/api/settings'' ''settings_endpoints::save_all'',
      Route Get ''/api/settings/{key}'' ''settings_endpoints::get'',
      Route Post ''/api/settings/{key}'' ''settings_endpoints::set'',
      Route Delete ''/api/settings/{key}'' ''settings_endpoints::delete'',
      Route Get ''/api/models'' ''models_endpoints::list'',
      Route Get ''/api/models/selected'' ''models_endpoints::get_selected'',
      Route Post ''/api/models/select/{id}'' ''models_endpoints::select'',
      Route Post ''/api/models/add'' ''models_endpoints::add'',
      Route Delete ''/api/models/{id}'' ''models_endpoints::remove'',
      Route Post ''/api/clipboard/copy'' ''clipboard_endpoints::copy'',
      Route Post ''/api/notifications/send'' ''notifications_endpoints::send'',
      Route Get ''/api/notifications'' ''notifications_endpoints::list'',
      Route Get ''/api/processes'' ''processes_endpoints::list'',
      Route Post ''/api/processes/{id}/kill'' ''processes_endpoints::kill'',
      Route Get ''/api/logs'' ''logging_endpoints::get_logs'',
      Route Get ''/api/logs/level'' ''logging_endpoints::get_level'',
      Route Post ''/api/logs/level'' ''logging_endpoints::set_level'',
      Route Post ''/api/logs/clear'' ''logging_endpoints::clear'',
      Route Get ''/api/plugins'' ''plugins_endpoints::list'',
      Route Post ''/api/plugins/install'' ''plugins_endpoints::install'',
      Route Get ''/api/plugins/stats'' ''plugins_endpoints::stats'',
      Route Get ''/api/plugins/{id}'' ''plugins_endpoints::get'',
      Route Post ''/api/plugins/{id}/enable'' ''plugins_endpoints::enable'',
      Route Post ''/api/plugins/{id}/disable'' ''plugins_endpoints::disable'',
      Route Delete ''/api/plugins/{id}'' ''plugins_endpoints::uninstall'',
      Route Post ''/api/plugins/{id}/call'' ''plugins_endpoints::call'']"

text \<open>What the router finds: a route, a path without the method, or nothing.\<close>

datatype routed = ToRoute route | WrongMethod | NoRoute

definition dispatch ::
  "string \<Rightarrow> (http_request \<Rightarrow> routed) \<Rightarrow> http_response \<Rightarrow> (string \<Rightarrow> 's endpoint) \<Rightarrow> 's endpoint" where
  "dispatch token pick wrong_method handlers r s =
     (case pick r of
        ToRoute rt \<Rightarrow>
          (if rt \<in> set protected_routes then auth_middleware token (handlers (route_handler rt)) r s
           else handlers (route_handler rt) r s)
      | WrongMethod \<Rightarrow> (s, wrong_method)
      | NoRoute \<Rightarrow> handlers ''static_files_handler'' r s)"

definition create_app ::
  "string \<Rightarrow> ('l \<Rightarrow> 'l \<times> bool) \<Rightarrow> (http_request \<Rightarrow> routed) \<Rightarrow> http_response \<Rightarrow> (string \<Rightarrow> 's endpoint)
     \<Rightarrow> ('l \<times> 's) endpoint" where
  "create_app token check pick wrong_method handlers =
     request_size_limit_middleware
       (rate_limit_middleware check
         (security_headers_middleware (dispatch token pick wrong_method handlers)))"

text \<open>\<open>health_check\<close> and \<open>ws_connections\<close>: \<open>infos\<close> are the entries of the connection registry.\<close>

definition health_check :: "nat \<Rightarrow> json" where
  "health_check n = JObj
     [(''status'', JStr ''ok''), (''server'', JStr ''workwithme-rust-backend''), (''ws_connections'', JInt (int n))]"

definition ws_connections :: "json list \<Rightarrow> json" where
  "ws_connections infos = JObj [(''count'', JInt (int (length infos))), (''connections'', JArr infos)]"

section \<open>What the token protects\<close>

text \<open>What axum documents of its router: it finds a route of the table, with the request's method.\<close>

definition router_ok :: "(http_request \<Rightarrow> routed) \<Rightarrow> bool" where
  "router_ok pick \<longleftrightarrow> (\<forall>r rt. pick r = ToRoute rt \<longrightarrow>
     rt \<in> set (protected_routes @ open_routes) \<and> route_method rt = req_method r)"

definition secret_handlers :: "string list" where
  "secret_handlers = map route_handler protected_routes"

lemma open_not_secret: "rt \<in> set open_routes \<Longrightarrow> route_handler rt \<notin> set secret_handlers"
proof -
  have "list_all (\<lambda>rt. route_handler rt \<notin> set secret_handlers) open_routes" by code_simp
  then show "rt \<in> set open_routes \<Longrightarrow> route_handler rt \<notin> set secret_handlers" by (simp add: list_all_iff)
qed

lemma static_not_secret: "''static_files_handler'' \<notin> set secret_handlers"
  by code_simp

lemma routes_apart: "rt \<in> set open_routes \<Longrightarrow> rt \<notin> set protected_routes"
  using open_not_secret by (auto simp: secret_handlers_def)

text \<open>axum refuses to build a router in which a method and a path have two handlers.\<close>

lemma routes_distinct: "distinct (map (\<lambda>rt. (route_method rt, route_pattern rt)) (protected_routes @ open_routes))"
  by code_simp

lemma layer_simps:
  "auth_middleware e next r s = (if bearer r = Some e then next r s else (s, text_response 401 ''Unauthorized''))"
  by (simp add: auth_middleware_def)

lemma dispatch_same:
  assumes "router_ok pick" "bearer r \<noteq> Some token"
    and "\<And>h. h \<notin> set secret_handlers \<Longrightarrow> handlers h = handlers' h"
  shows "dispatch token pick wm handlers r s = dispatch token pick wm handlers' r s"
proof (cases "pick r")
  case (ToRoute rt)
  show ?thesis
  proof (cases "rt \<in> set protected_routes")
    case True
    then show ?thesis using ToRoute assms(2) by (simp add: dispatch_def layer_simps)
  next
    case False
    then have "rt \<in> set open_routes" using assms(1) ToRoute by (auto simp: router_ok_def)
    then have "handlers (route_handler rt) = handlers' (route_handler rt)" using assms(3) open_not_secret by blast
    then show ?thesis using False ToRoute by (simp add: dispatch_def)
  qed
qed (simp_all add: dispatch_def assms(3) static_not_secret)


definition demo_pick :: "http_request \<Rightarrow> routed" where
  "demo_pick r = (if req_method r = Get then ToRoute (hd protected_routes) else NoRoute)"

lemma demo_router: "router_ok demo_pick"
  by (auto simp: router_ok_def demo_pick_def protected_routes_def split: if_splits)


section \<open>What the layers answer\<close>


text \<open>The token is made once and never changes.\<close>

lemma server_token_stable:
  assumes "server_token u b f st = (st', t)"
  shows "server_token u' b' f' st' = (st', t) \<and> token_cell st' = Some t"
  using assms by (auto simp: server_token_def Let_def split: option.splits)

end
