(* ===== verification/Notices.thy ===== *)
theory Notices
  imports Json_Value
begin

text \<open>
  The logs of the server and the clipboard: \<open>notifications.rs\<close>, \<open>audit.rs\<close>, \<open>logging.rs\<close>,
  \<open>clipboard.rs\<close> under \<open>src-tauri/src/server\<close>, and their endpoints.

  A log is a text file, or missing. \<open>print\<close> and \<open>parse\<close> are serde_json's; what the code relies on is
  \<open>json_text_ok\<close>: parsing a printed value gives it back, and a printed value is one line. Opening,
  writing and reading may fail, as \<open>faults\<close> says; a failed write leaves the file as it was.
\<close>

type_synonym log_file = "string option"

definition json_text_ok :: "(json \<Rightarrow> string) \<Rightarrow> (string \<Rightarrow> json option) \<Rightarrow> json set \<Rightarrow> bool" where
  "json_text_ok print parse js \<longleftrightarrow>
     (\<forall>j \<in> js. parse (print j) = Some j \<and> CHR 0x0A \<notin> set (print j) \<and>
        print j \<noteq> [] \<and> last (print j) \<noteq> CHR 0x0D)"

text \<open>\<open>writeln!\<close> to a file opened for appending, created when missing.\<close>

definition append_line :: "string \<Rightarrow> log_file \<Rightarrow> log_file" where
  "append_line l file = Some ((case file of None \<Rightarrow> [] | Some t \<Rightarrow> t) @ l @ [CHR 0x0A])"

section \<open>Notifications\<close>

record notification =
  nt_id :: string
  nt_title :: string
  nt_body :: string
  nt_level :: string
  nt_timestamp :: string

type_synonym limiter = "string \<rightharpoonup> int list"

text \<open>\<open>now\<close> is the time in seconds; times that are a minute old or older are forgotten.\<close>

definition should_rate_limit :: "int \<Rightarrow> string \<Rightarrow> limiter \<Rightarrow> limiter \<times> bool" where
  "should_rate_limit now title lm =
     (let ts = filter (\<lambda>t. now - t < 60) (case lm title of None \<Rightarrow> [] | Some ts \<Rightarrow> ts) in
      if length ts \<ge> 10 then (lm(title \<mapsto> ts), True) else (lm(title \<mapsto> ts @ [now]), False))"

definition notification_json :: "notification \<Rightarrow> json" where
  "notification_json n = JObj
     [(''id'', JStr (nt_id n)), (''title'', JStr (nt_title n)), (''body'', JStr (nt_body n)),
      (''level'', JStr (nt_level n)), (''timestamp'', JStr (nt_timestamp n))]"

definition log_notification ::
  "(json \<Rightarrow> string) \<Rightarrow> faults \<Rightarrow> notification \<Rightarrow> log_file \<Rightarrow> log_file \<times> unit res" where
  "log_notification print f n file =
     (case f 0 of Some e \<Rightarrow> (file, Inl (''Failed to create notifications directory: '' @ e)) | None \<Rightarrow>
      (case f 1 of Some e \<Rightarrow> (file, Inl (''Failed to open notifications log: '' @ e)) | None \<Rightarrow>
       (case f 2 of Some e \<Rightarrow> (file, Inl (''Failed to write notification: '' @ e)) | None \<Rightarrow>
          (append_line (print (notification_json n)) file, Inr ()))))"

record notice_state =
  rate_limiter :: limiter
  notice_log :: log_file

text \<open>\<open>uuid\<close> and \<open>stamp\<close> are the generated id and the time stamp; whether the desktop shows the
  notification does not matter to the code.\<close>

definition send_notification ::
  "(json \<Rightarrow> string) \<Rightarrow> faults \<Rightarrow> int \<Rightarrow> string \<Rightarrow> string \<Rightarrow> string \<Rightarrow> string \<Rightarrow> string \<Rightarrow> notice_state
     \<Rightarrow> notice_state \<times> string res" where
  "send_notification print f now uuid stamp title body level st =
     (case should_rate_limit now title (rate_limiter st) of
        (lm, True) \<Rightarrow>
          (st\<lparr>rate_limiter := lm\<rparr>,
           Inl (''Notification rate limit exceeded for '' @ [CHR 0x27] @ title @ [CHR 0x27] @ ''. Max 10 per minute.''))
      | (lm, False) \<Rightarrow>
          (case log_notification print f
                  \<lparr>nt_id = uuid, nt_title = title, nt_body = body, nt_level = level, nt_timestamp = stamp\<rparr>
                  (notice_log st) of
             (file, Inl e) \<Rightarrow> (st\<lparr>rate_limiter := lm, notice_log := file\<rparr>, Inl e)
           | (file, Inr _) \<Rightarrow> (st\<lparr>rate_limiter := lm, notice_log := file\<rparr>, Inr uuid)))"

text \<open>An entry needs all five texts.\<close>

definition notification_of :: "json \<Rightarrow> notification option" where
  "notification_of j =
     (case (jget_str ''id'' j, jget_str ''title'' j, jget_str ''body'' j, jget_str ''level'' j,
            jget_str ''timestamp'' j) of
        (Some i, Some t, Some b, Some l, Some s) \<Rightarrow>
          Some \<lparr>nt_id = i, nt_title = t, nt_body = b, nt_level = l, nt_timestamp = s\<rparr>
      | _ \<Rightarrow> None)"

text \<open>The last \<open>limit\<close> lines, the newest first, without those that are not entries.\<close>

definition get_recent_notifications ::
  "(string \<Rightarrow> json option) \<Rightarrow> faults \<Rightarrow> nat \<Rightarrow> log_file \<Rightarrow> notification list res" where
  "get_recent_notifications parse f limit file =
     (case file of
        None \<Rightarrow> Inr []
      | Some content \<Rightarrow>
          (case f 0 of
             Some e \<Rightarrow> Inl (''Failed to read notifications log: '' @ e)
           | None \<Rightarrow>
               Inr (List.map_filter (\<lambda>l. Option.bind (parse l) notification_of)
                      (take limit (rev (str_lines content))))))"

definition notifications_send ::
  "(json \<Rightarrow> string) \<Rightarrow> faults \<Rightarrow> int \<Rightarrow> string \<Rightarrow> string \<Rightarrow> string \<Rightarrow> string \<Rightarrow> string \<Rightarrow> notice_state
     \<Rightarrow> notice_state \<times> response" where
  "notifications_send print f now uuid stamp title body level st =
     (case send_notification print f now uuid stamp title body (if level = [] then ''info'' else level) st of
        (st', Inr i) \<Rightarrow> (st', 200, ok_body [(''id'', JStr i)])
      | (st', Inl e) \<Rightarrow> (st', 500, err_body e))"

definition notifications_list :: "(string \<Rightarrow> json option) \<Rightarrow> faults \<Rightarrow> log_file \<Rightarrow> json" where
  "notifications_list parse f file =
     (case get_recent_notifications parse f 50 file of
        Inr ns \<Rightarrow> ok_body [(''notifications'', JArr (map notification_json ns))]
      | Inl e \<Rightarrow> err_body e)"

section \<open>The audit log\<close>

datatype audit_severity = AuditInfo | AuditWarning | AuditCritical

definition severity_str :: "audit_severity \<Rightarrow> string" where
  "severity_str s = (case s of AuditInfo \<Rightarrow> ''info'' | AuditWarning \<Rightarrow> ''warning'' | AuditCritical \<Rightarrow> ''critical'')"

definition log_event_with_severity ::
  "(json \<Rightarrow> string) \<Rightarrow> faults \<Rightarrow> string \<Rightarrow> string \<Rightarrow> audit_severity \<Rightarrow> json option \<Rightarrow> log_file
     \<Rightarrow> log_file \<times> unit res" where
  "log_event_with_severity print f stamp event_type sev details file =
     (case f 0 of Some e \<Rightarrow> (file, Inl (''Failed to create audit directory: '' @ e)) | None \<Rightarrow>
      (case f 1 of Some e \<Rightarrow> (file, Inl (''Failed to open audit log: '' @ e)) | None \<Rightarrow>
       (case f 2 of Some e \<Rightarrow> (file, Inl (''Failed to write to audit log: '' @ e)) | None \<Rightarrow>
          (append_line (print (JObj
             [(''timestamp'', JStr stamp), (''type'', JStr event_type),
              (''severity'', JStr (severity_str sev)), (''details'', opt_json details)])) file, Inr ()))))"

definition log_event ::
  "(json \<Rightarrow> string) \<Rightarrow> faults \<Rightarrow> string \<Rightarrow> string \<Rightarrow> json option \<Rightarrow> log_file \<Rightarrow> log_file \<times> unit res" where
  "log_event print f stamp event_type details file =
     log_event_with_severity print f stamp event_type AuditInfo details file"

definition audit_log ::
  "(json \<Rightarrow> string) \<Rightarrow> faults \<Rightarrow> string \<Rightarrow> string \<Rightarrow> json option \<Rightarrow> log_file \<Rightarrow> log_file \<times> response" where
  "audit_log print f stamp event_type details file =
     (case log_event print f stamp event_type details file of
        (file', Inr _) \<Rightarrow> (file', 200, ok_body [])
      | (file', Inl e) \<Rightarrow> (file', 500, err_body e))"

section \<open>The debug log\<close>

datatype log_level = Debug | Info | Warn | Error

definition level_str :: "log_level \<Rightarrow> string" where
  "level_str l = (case l of Debug \<Rightarrow> ''DEBUG'' | Info \<Rightarrow> ''INFO'' | Warn \<Rightarrow> ''WARN'' | Error \<Rightarrow> ''ERROR'')"

definition level_from_str :: "string \<Rightarrow> log_level option" where
  "level_from_str s =
     (let u = to_uppercase s in
      if u = ''DEBUG'' then Some Debug
      else if u = ''INFO'' then Some Info
      else if u = ''WARN'' then Some Warn
      else if u = ''ERROR'' then Some Error
      else None)"

record log_config =
  cfg_level :: log_level
  cfg_file :: log_file

definition set_log_level :: "log_level \<Rightarrow> log_config \<Rightarrow> log_config \<times> unit res" where
  "set_log_level l c = (c\<lparr>cfg_level := l\<rparr>, Inr ())"

definition get_recent_logs ::
  "(string \<Rightarrow> json option) \<Rightarrow> faults \<Rightarrow> nat \<Rightarrow> log_config \<Rightarrow> json list res" where
  "get_recent_logs parse f limit c =
     (case cfg_file c of
        None \<Rightarrow> Inr []
      | Some content \<Rightarrow>
          (case f 0 of
             Some e \<Rightarrow> Inl (''Failed to read log file: '' @ e)
           | None \<Rightarrow> Inr (List.map_filter parse (take limit (rev (str_lines content))))))"

definition clear_logs :: "faults \<Rightarrow> log_config \<Rightarrow> log_config \<times> unit res" where
  "clear_logs f c =
     (case f 0 of Some e \<Rightarrow> (c, Inl (''Failed to clear logs: '' @ e)) | None \<Rightarrow> (c\<lparr>cfg_file := Some []\<rparr>, Inr ()))"

definition get_logs ::
  "(string \<Rightarrow> json option) \<Rightarrow> faults \<Rightarrow> string option \<Rightarrow> log_config \<Rightarrow> json" where
  "get_logs parse f param c =
     (let limit = (case Option.bind param (parse_uint 64) of None \<Rightarrow> 100 | Some n \<Rightarrow> n) in
      case get_recent_logs parse f limit c of
        Inr logs \<Rightarrow> ok_body [(''logs'', JArr logs)] | Inl e \<Rightarrow> err_body e)"

definition logs_get_level :: "log_config \<Rightarrow> json" where
  "logs_get_level c = ok_body [(''level'', JStr (level_str (cfg_level c)))]"

definition logs_set_level :: "json \<Rightarrow> log_config \<Rightarrow> log_config \<times> response" where
  "logs_set_level body c =
     (let s = (case jget_str ''level'' body of None \<Rightarrow> ''info'' | Some s \<Rightarrow> s) in
      case level_from_str s of
        Some l \<Rightarrow>
          (case set_log_level l c of
             (c', Inr _) \<Rightarrow> (c', 200, ok_body [(''level'', JStr (level_str l))])
           | (c', Inl e) \<Rightarrow> (c', 500, err_body e))
      | None \<Rightarrow> (c, 400, err_body (''Invalid log level: '' @ s)))"

definition logs_clear :: "faults \<Rightarrow> log_config \<Rightarrow> log_config \<times> response" where
  "logs_clear f c =
     (case clear_logs f c of (c', Inr _) \<Rightarrow> (c', 200, ok_body []) | (c', Inl e) \<Rightarrow> (c', 500, err_body e))"

section \<open>The clipboard\<close>

text \<open>arboard: opening the clipboard (0), then setting or getting the text (1), may fail.\<close>

definition copy_to_clipboard :: "faults \<Rightarrow> string \<Rightarrow> string \<Rightarrow> string \<times> unit res" where
  "copy_to_clipboard f s clip =
     (case f 0 of Some e \<Rightarrow> (clip, Inl (''Failed to access clipboard: '' @ e)) | None \<Rightarrow>
      (case f 1 of Some e \<Rightarrow> (clip, Inl (''Failed to copy to clipboard: '' @ e)) | None \<Rightarrow> (s, Inr ())))"

definition paste_from_clipboard :: "faults \<Rightarrow> string \<Rightarrow> string res" where
  "paste_from_clipboard f clip =
     (case f 0 of Some e \<Rightarrow> Inl (''Failed to access clipboard: '' @ e) | None \<Rightarrow>
      (case f 1 of Some e \<Rightarrow> Inl (''Failed to paste from clipboard: '' @ e) | None \<Rightarrow> Inr clip))"

definition clipboard_copy :: "faults \<Rightarrow> string \<Rightarrow> string \<Rightarrow> string \<times> response" where
  "clipboard_copy f s clip =
     (case copy_to_clipboard f s clip of
        (clip', Inr _) \<Rightarrow> (clip', 200, ok_body []) | (clip', Inl e) \<Rightarrow> (clip', 500, err_body e))"

definition clipboard_paste :: "faults \<Rightarrow> string \<Rightarrow> json" where
  "clipboard_paste f clip =
     (case paste_from_clipboard f clip of Inr s \<Rightarrow> ok_body [(''text'', JStr s)] | Inl e \<Rightarrow> err_body e)"

section \<open>The limiter over time\<close>

text \<open>Runs are built at the end: \<open>limiter_after\<close> and \<open>let_through\<close> of a run.\<close>

definition limiter_after :: "(int \<times> string) list \<Rightarrow> limiter" where
  "limiter_after cs = fold (\<lambda>(now, title) lm. fst (should_rate_limit now title lm)) cs Map.empty"

fun let_through :: "string \<Rightarrow> (int \<times> string) list \<Rightarrow> limiter \<Rightarrow> int list" where
  "let_through title [] lm = []"
| "let_through title ((now, t) # cs) lm =
     (case should_rate_limit now t lm of
        (lm', b) \<Rightarrow> (if t = title \<and> \<not> b then [now] else []) @ let_through title cs lm')"

lemma let_through_append:
  "let_through title (cs @ ds) lm =
     let_through title cs lm @ let_through title ds (fold (\<lambda>(now, t) lm. fst (should_rate_limit now t lm)) cs lm)"
  by (induction cs arbitrary: lm) (auto split: prod.splits)

abbreviation passed :: "string \<Rightarrow> (int \<times> string) list \<Rightarrow> int list" where
  "passed title cs \<equiv> let_through title cs Map.empty"

lemma limiter_after_snoc:
  "limiter_after (cs @ [(now, t)]) = fst (should_rate_limit now t (limiter_after cs))"
  by (simp add: limiter_after_def)

lemma passed_snoc:
  "passed title (cs @ [(now, t)]) =
     passed title cs @ (if t = title \<and> \<not> snd (should_rate_limit now t (limiter_after cs)) then [now] else [])"
  by (simp add: let_through_append limiter_after_def split: prod.splits)

lemma passed_times: "set (passed title cs) \<subseteq> fst ` set cs"
proof (induction cs rule: rev_induct)
  case (snoc c cs)
  then show ?case by (cases c) (auto simp: passed_snoc)
qed simp

definition recent :: "int \<Rightarrow> int list \<Rightarrow> int list" where
  "recent now ts = filter (\<lambda>t. now - t < 60) ts"

text \<open>The limiter keeps, of the times let through, a part that holds all recent ones.\<close>

lemma limiter_keeps:
  assumes "sorted (map fst cs)" "\<forall>c \<in> set cs. fst c \<le> now"
  shows "recent now (case limiter_after cs title of None \<Rightarrow> [] | Some ts \<Rightarrow> ts) = recent now (passed title cs)"
  using assms
proof (induction cs arbitrary: now rule: rev_induct)
  case Nil
  then show ?case by (simp add: limiter_after_def)
next
  case (snoc c cs)
  obtain m t where c: "c = (m, t)" by force
  let ?l = "limiter_after cs"
  have srt: "sorted (map fst cs)" "\<forall>c \<in> set cs. fst c \<le> m" and mn: "m \<le> now"
    using snoc.prems c by (auto simp: sorted_append)
  note at_m = snoc.IH [OF srt]
  have at_now: "recent now (case ?l title of None \<Rightarrow> [] | Some ts \<Rightarrow> ts) = recent now (passed title cs)"
    by (rule snoc.IH [OF srt(1)]) (use srt(2) mn in \<open>blast intro: order_trans\<close>)
  have twice: "recent now (recent m ts) = recent now ts" for ts
    using mn by (auto simp: recent_def intro!: filter_cong)
  show ?case
  proof (cases "t = title")
    case False
    then have "limiter_after (cs @ [c]) title = ?l title"
      by (simp add: limiter_after_snoc c should_rate_limit_def Let_def)
    then show ?thesis using at_now False by (simp add: c passed_snoc)
  next
    case True
    let ?ts = "recent m (case ?l t of None \<Rightarrow> [] | Some ts \<Rightarrow> ts)"
    have "(case limiter_after (cs @ [c]) title of None \<Rightarrow> [] | Some ts \<Rightarrow> ts) =
        ?ts @ (if 10 \<le> length ?ts then [] else [m])"
      using True by (simp add: limiter_after_snoc c should_rate_limit_def Let_def recent_def)
    moreover have "passed title (cs @ [c]) = passed title cs @ (if 10 \<le> length ?ts then [] else [m])"
      using True by (simp add: c passed_snoc should_rate_limit_def Let_def recent_def)
    ultimately show ?thesis
      using twice at_now True by (simp add: recent_def)
  qed
qed

text \<open>The limit on notifications is exact. When requests come in the order of their times, the next
  notification of a title is refused if and only if ten of that title have been let through in the
  last minute, other titles having no influence; so in no minute more than ten of a title are let
  through.\<close>

theorem notification_limit_exact:
  assumes "sorted (map fst (cs @ [(now, title)]))"
  shows "(snd (should_rate_limit now title (limiter_after cs)) \<longleftrightarrow>
      10 \<le> length (filter (\<lambda>t. now - t < 60) (passed title cs))) \<and>
    length (filter (\<lambda>t. start \<le> t \<and> t < start + 60) (passed title cs)) \<le> 10"
proof
  have refuse: "snd (should_rate_limit m t (limiter_after ds)) \<longleftrightarrow> 10 \<le> length (recent m (passed t ds))"
    if "sorted (map fst ds)" "\<forall>c \<in> set ds. fst c \<le> m" for m t ds
    using limiter_keeps [OF that, of t] by (simp add: should_rate_limit_def Let_def recent_def)
  show "snd (should_rate_limit now title (limiter_after cs)) \<longleftrightarrow>
      10 \<le> length (filter (\<lambda>t. now - t < 60) (passed title cs))"
    using refuse [of cs now title] assms by (auto simp: sorted_append recent_def)
  have "sorted (map fst cs)" using assms by (simp add: sorted_append)
  then show "length (filter (\<lambda>t. start \<le> t \<and> t < start + 60) (passed title cs)) \<le> 10"
  proof (induction cs rule: rev_induct)
    case (snoc c cs)
    obtain m t where c: "c = (m, t)" by force
    have srt: "sorted (map fst cs)" "\<forall>c \<in> set cs. fst c \<le> m"
      using snoc.prems c by (auto simp: sorted_append)
    let ?w = "\<lambda>ts. filter (\<lambda>t. start \<le> t \<and> t < start + 60) ts"
    have IH: "length (?w (passed title cs)) \<le> 10" by (rule snoc.IH [OF srt(1)])
    show ?case
    proof (cases "t = title \<and> \<not> snd (should_rate_limit m t (limiter_after cs)) \<and> start \<le> m \<and> m < start + 60")
      case True
      then have "\<not> 10 \<le> length (recent m (passed title cs))" using refuse [OF srt] by blast
      moreover have "?w (passed title cs) = ?w (recent m (passed title cs))"
        using True by (auto simp: recent_def intro!: filter_cong)
      then have "length (?w (passed title cs)) \<le> length (recent m (passed title cs))"
        by (metis length_filter_le)
      ultimately show ?thesis using True by (simp add: c passed_snoc)
    next
      case False
      then show ?thesis using IH by (auto simp: c passed_snoc)
    qed
  qed simp
qed

lemma notification_limit_exact_witness:
  "snd (should_rate_limit 30 ''t'' (limiter_after (map (\<lambda>k. (k, ''t'')) [0..9]))) \<and>
   \<not> snd (should_rate_limit 60 ''t'' (limiter_after (map (\<lambda>k. (k, ''t'')) [0..9])))"
proof -
  have "passed ''t'' (map (\<lambda>k. (k, ''t'')) [0..9]) = [0..9]" by code_simp
  moreover have "sorted (map fst (map (\<lambda>k. (k, ''t'')) [0..9] @ [(30, ''t'')]))"
    "sorted (map fst (map (\<lambda>k. (k, ''t'')) [0..9] @ [(60, ''t'')]))" by code_simp+
  moreover have "length (filter (\<lambda>t. (30::int) - t < 60) [0..9]) = 10"
    "length (filter (\<lambda>t. (60::int) - t < 60) [0..9]) = 9" by code_simp+
  ultimately show ?thesis
    using notification_limit_exact [of "map (\<lambda>k. (k, ''t'')) [0..9]" 30 "''t''" 0]
      notification_limit_exact [of "map (\<lambda>k. (k, ''t'')) [0..9]" 60 "''t''" 0] by simp
qed

section \<open>The log of notifications\<close>

lemma notification_of_json [simp]: "notification_of (notification_json n) = Some n"
  by (simp add: notification_of_def notification_json_def jget_str_def)

text \<open>A request to send: faults, time, id, stamp, title, body and level.\<close>

record send_req =
  sr_faults :: faults
  sr_now :: int
  sr_uuid :: string
  sr_stamp :: string
  sr_title :: string
  sr_body :: string
  sr_level :: string

definition do_send :: "(json \<Rightarrow> string) \<Rightarrow> send_req \<Rightarrow> notice_state \<Rightarrow> notice_state \<times> string res" where
  "do_send print q = send_notification print (sr_faults q) (sr_now q) (sr_uuid q) (sr_stamp q) (sr_title q) (sr_body q) (sr_level q)"

definition note_of :: "send_req \<Rightarrow> notification" where
  "note_of q = \<lparr>nt_id = sr_uuid q, nt_title = sr_title q, nt_body = sr_body q, nt_level = sr_level q, nt_timestamp = sr_stamp q\<rparr>"

text \<open>The notifications whose sending was answered with an id.\<close>

fun sent_ok :: "(json \<Rightarrow> string) \<Rightarrow> send_req list \<Rightarrow> notice_state \<Rightarrow> notice_state \<times> notification list" where
  "sent_ok print [] st = (st, [])"
| "sent_ok print (q # qs) st =
     (case do_send print q st of
        (st', r) \<Rightarrow> (case sent_ok print qs st' of
           (st'', ns) \<Rightarrow> (st'', (if is_ok r then [note_of q] else []) @ ns)))"

definition log_holds :: "(json \<Rightarrow> string) \<Rightarrow> notification list \<Rightarrow> log_file \<Rightarrow> bool" where
  "log_holds print ns file \<longleftrightarrow>
     (case file of None \<Rightarrow> [] | Some t \<Rightarrow> t) = concat (map (\<lambda>n. print (notification_json n) @ [CHR 0x0A]) ns)"

lemma do_send_log:
  assumes "log_holds print ns (notice_log st)"
  shows "log_holds print (ns @ (if is_ok (snd (do_send print q st)) then [note_of q] else []))
    (notice_log (fst (do_send print q st)))"
  using assms
  by (auto simp: do_send_def send_notification_def log_notification_def log_holds_def append_line_def note_of_def
      split: prod.splits bool.splits option.splits)

lemma sent_ok_log:
  "log_holds print ns (notice_log st) \<Longrightarrow>
     log_holds print (ns @ snd (sent_ok print qs st)) (notice_log (fst (sent_ok print qs st)))"
proof (induction qs arbitrary: ns st)
  case (Cons q qs)
  obtain st' r where d: "do_send print q st = (st', r)" by force
  have "log_holds print (ns @ (if is_ok r then [note_of q] else [])) (notice_log st')"
    using do_send_log [OF Cons.prems, of q] d by simp
  from Cons.IH [OF this] show ?case using d by (cases "sent_ok print qs st'") simp
qed simp

lemma recent_of_log:
  assumes "log_holds print ns file" "json_text_ok print parse (notification_json ` set ns)"
  shows "get_recent_notifications parse no_faults limit file = Inr (take limit (rev ns))"
proof -
  let ?ls = "map (\<lambda>n. print (notification_json n)) ns"
  have one: "parse (print (notification_json n)) = Some (notification_json n)" "strip_cr (print (notification_json n)) = print (notification_json n)"
    "CHR 0x0A \<notin> set (print (notification_json n))" if "n \<in> set ns" for n
    using assms(2) that by (auto simp: json_text_ok_def strip_cr_def)
  have cut: "str_lines (concat (map (\<lambda>l. l @ [CHR 0x0A]) ?ls)) = ?ls"
    using one by (subst str_lines_concat) auto
  have parsed: "List.map_filter (\<lambda>l. Option.bind (parse l) notification_of) (map (\<lambda>n. print (notification_json n)) ms) = ms"
    if "set ms \<subseteq> set ns" for ms
    using that by (induction ms) (simp_all add: map_filter_simps one map_filter_def)
  have "set (take limit (rev ns)) \<subseteq> set ns" using set_take_subset [of limit "rev ns"] by simp
  then have "List.map_filter (\<lambda>l. Option.bind (parse l) notification_of) (take limit (rev ?ls)) = take limit (rev ns)"
    using parsed by (simp add: rev_map take_map)
  moreover have "file = None \<Longrightarrow> ns = []"
    using assms(1) by (auto simp: log_holds_def)
  ultimately show ?thesis
    using assms(1) cut by (cases "file") (auto simp: get_recent_notifications_def log_holds_def comp_def map_filter_def)
qed

text \<open>What was sent is what is listed. From an empty log, after any requests to send, whatever the
  rate limit and the file system did to them, the list answers exactly the notifications whose
  sending succeeded, the newest first, up to its limit: none that was refused or failed, none twice.\<close>

theorem notifications_listed:
  assumes "notice_log st = None" "sent_ok print qs st = (st', ns)"
    and "json_text_ok print parse (notification_json ` set ns)"
  shows "get_recent_notifications parse no_faults limit (notice_log st') = Inr (take limit (rev ns)) \<and>
    notifications_list parse no_faults (notice_log st') =
      ok_body [(''notifications'', JArr (map notification_json (take 50 (rev ns))))]"
proof -
  have "log_holds print [] (notice_log st)" using assms(1) by (simp add: log_holds_def)
  from sent_ok_log [OF this, of qs] assms(2) have "log_holds print ns (notice_log st')" by simp
  from recent_of_log [OF this assms(3)] show ?thesis by (simp add: notifications_list_def)
qed

lemma notifications_listed_witness:
  "\<exists>print parse st' ns. sent_ok print [\<lparr>sr_faults = no_faults, sr_now = 5, sr_uuid = ''u'', sr_stamp = ''s'',
       sr_title = ''t'', sr_body = ''b'', sr_level = ''info''\<rparr>] \<lparr>rate_limiter = Map.empty, notice_log = None\<rparr> = (st', ns) \<and>
     length ns = 1 \<and> get_recent_notifications parse no_faults 50 (notice_log st') = Inr ns"
proof -
  let ?q = "\<lparr>sr_faults = no_faults, sr_now = 5, sr_uuid = ''u'', sr_stamp = ''s'',
       sr_title = ''t'', sr_body = ''b'', sr_level = ''info''\<rparr>"
  let ?st = "\<lparr>rate_limiter = Map.empty, notice_log = None\<rparr>"
  define print :: "json \<Rightarrow> string" where "print = (\<lambda>_. ''x'')"
  define parse :: "string \<Rightarrow> json option" where "parse = (\<lambda>_. Some (notification_json (note_of ?q)))"
  obtain st' ns where run: "sent_ok print [?q] ?st = (st', ns)" by force
  have ns: "ns = [note_of ?q]"
    using run by (auto simp: do_send_def send_notification_def should_rate_limit_def log_notification_def)
  have "json_text_ok print parse (notification_json ` set ns)"
    by (simp add: json_text_ok_def print_def parse_def ns)
  from notifications_listed [OF _ run this, of 50] have "get_recent_notifications parse no_faults 50 (notice_log st') = Inr ns"
    by (simp add: ns)
  then show ?thesis using run ns by (intro exI [of _ print] exI [of _ parse] exI [of _ st'] exI [of _ ns]) simp
qed

text \<open>The audit log is only ever extended, and by whole lines.\<close>

lemma audit_appends:
  "\<exists>new. (case fst (log_event_with_severity print f stamp ty sev d file) of None \<Rightarrow> [] | Some t \<Rightarrow> t) =
     (case file of None \<Rightarrow> [] | Some t \<Rightarrow> t) @ new"
  by (simp add: log_event_with_severity_def append_line_def split: option.splits)

lemma level_roundtrip: "level_from_str (level_str l) = Some l"
  by (cases l) (simp_all add: level_str_def level_from_str_def to_uppercase_def char_upper_def is_lower_def)

end
