(* ===== verification/Shortcuts.thy ===== *)
theory Shortcuts
  imports Settings
begin

text \<open>
  The global keyboard shortcuts: \<open>src-tauri/src/voice_shortcuts.rs\<close>, and from \<open>lib.rs\<close> the
  registration at startup and the choice of the action in the handler.

  The plugin that registers shortcuts with the system is an argument, \<open>plugin\<close>: how it reads a
  shortcut, and its errors. It keeps a set of registered keys; registering one that is registered is
  an error, as is one that the system refuses. The file is what \<open>Settings\<close> calls a settings file.
\<close>

section \<open>Reading a shortcut\<close>

datatype modifier = SUPER | SHIFT | CONTROL | ALT

text \<open>\<open>Code\<close>: digits, letters and function keys with their number.\<close>

datatype code = Space | Enter | Escape | Tab | Digit nat | Key char | Fn nat

definition parse_modifier :: "string \<Rightarrow> modifier option" where
  "parse_modifier s = map_of
     [(''Super'', SUPER), (''Cmd'', SUPER), (''Command'', SUPER), (''Shift'', SHIFT),
      (''Ctrl'', CONTROL), (''Control'', CONTROL), (''Alt'', ALT), (''Option'', ALT)] s"

definition code_table :: "(string \<times> code) list" where
  "code_table =
     [(''Space'', Space), (''Enter'', Enter), (''Return'', Enter), (''Escape'', Escape), (''Esc'', Escape),
      (''Tab'', Tab)] @
     concat (map (\<lambda>d. [([digit_char d], Digit d), (''Digit'' @ [digit_char d], Digit d)]) [0..<10]) @
     concat (map (\<lambda>c. [([c], Key c), ([char_lower c], Key c), (''Key'' @ [c], Key c)]) ''ABCDEFGHIJKLMNOPQRSTUVWXYZ'') @
     map (\<lambda>n. (''F'' @ show_nat n, Fn n)) [1..<13]"

definition parse_code :: "string \<Rightarrow> code option" where
  "parse_code key = map_of code_table key"

fun parse_modifiers :: "string list \<Rightarrow> modifier set \<Rightarrow> modifier set option" where
  "parse_modifiers [] mods = Some mods"
| "parse_modifiers (p # ps) mods =
     (case parse_modifier p of None \<Rightarrow> None | Some m \<Rightarrow> parse_modifiers ps (insert m mods))"

definition parse :: "string \<Rightarrow> (modifier set \<times> code) option" where
  "parse shortcut =
     (let parts = split_on (CHR ''+'') shortcut in
      case parse_modifiers (butlast parts) {} of
        None \<Rightarrow> None
      | Some mods \<Rightarrow> (case parse_code (last parts) of None \<Rightarrow> None | Some c \<Rightarrow> Some (mods, c)))"

section \<open>The configuration and its file\<close>

record shortcuts_config =
  dictate :: string
  capture_region :: string
  capture_window :: string
  screen_recording :: string
  new_meeting :: string

definition default_shortcuts :: shortcuts_config where
  "default_shortcuts =
     \<lparr>dictate = ''Super+Shift+Space'', capture_region = ''Super+Ctrl+4'', capture_window = ''Super+Ctrl+5'',
      screen_recording = ''Super+Ctrl+6'', new_meeting = ''Super+Ctrl+7''\<rparr>"

definition shortcuts_json :: "shortcuts_config \<Rightarrow> json" where
  "shortcuts_json c = JObj
     [(''dictate'', JStr (dictate c)), (''capture_region'', JStr (capture_region c)),
      (''capture_window'', JStr (capture_window c)), (''screen_recording'', JStr (screen_recording c)),
      (''new_meeting'', JStr (new_meeting c))]"

definition shortcuts_of_json :: "json \<Rightarrow> shortcuts_config option" where
  "shortcuts_of_json j =
     (case (jget_str ''dictate'' j, jget_str ''capture_region'' j, jget_str ''capture_window'' j,
            jget_str ''screen_recording'' j, jget_str ''new_meeting'' j) of
        (Some a, Some b, Some c, Some d, Some e) \<Rightarrow>
          Some \<lparr>dictate = a, capture_region = b, capture_window = c, screen_recording = d, new_meeting = e\<rparr>
      | _ \<Rightarrow> None)"

definition load_shortcuts :: "settings_file \<Rightarrow> shortcuts_config" where
  "load_shortcuts f =
     (case f of
        Stored j \<Rightarrow> (case shortcuts_of_json j of None \<Rightarrow> default_shortcuts | Some c \<Rightarrow> c)
      | _ \<Rightarrow> default_shortcuts)"

definition save_shortcuts :: "disk \<Rightarrow> shortcuts_config \<Rightarrow> settings_file \<Rightarrow> settings_file \<times> unit res" where
  "save_shortcuts d c f =
     (case mkdir_error d of Some e \<Rightarrow> (f, Inl (''create dir: '' @ e)) | None \<Rightarrow>
      (case write_error d of Some e \<Rightarrow> (f, Inl (''write shortcuts: '' @ e)) | None \<Rightarrow>
         (Stored (shortcuts_json c), Inr ())))"

section \<open>Registering\<close>

record 'h plugin =
  hotkey :: "string \<Rightarrow> 'h option"
  unreadable_error :: string
  duplicate_error :: string

definition register :: "'h plugin \<Rightarrow> string option \<Rightarrow> string \<Rightarrow> 'h set \<Rightarrow> 'h set \<times> unit res" where
  "register pl os s reg =
     (case hotkey pl s of
        None \<Rightarrow> (reg, Inl (unreadable_error pl))
      | Some h \<Rightarrow>
          if h \<in> reg then (reg, Inl (duplicate_error pl))
          else (case os of Some e \<Rightarrow> (reg, Inl e) | None \<Rightarrow> (insert h reg, Inr ())))"

definition unregister :: "'h plugin \<Rightarrow> string \<Rightarrow> 'h set \<Rightarrow> 'h set" where
  "unregister pl s reg = (case hotkey pl s of None \<Rightarrow> reg | Some h \<Rightarrow> reg - {h})"

text \<open>Registration at startup: the five shortcuts in order, the first error ends it.\<close>

fun register_all :: "'h plugin \<Rightarrow> string option list \<Rightarrow> string list \<Rightarrow> 'h set \<Rightarrow> 'h set \<times> unit res" where
  "register_all pl os [] reg = (reg, Inr ())"
| "register_all pl os (s # ss) reg =
     (case register pl (case os of [] \<Rightarrow> None | e # _ \<Rightarrow> e) s reg of
        (reg', Inl e) \<Rightarrow> (reg', Inl e)
      | (reg', Inr _) \<Rightarrow> register_all pl (tl os) ss reg')"

definition all_shortcuts :: "shortcuts_config \<Rightarrow> string list" where
  "all_shortcuts c = [dictate c, capture_region c, capture_window c, screen_recording c, new_meeting c]"

definition startup_shortcuts ::
  "'h plugin \<Rightarrow> string option list \<Rightarrow> settings_file \<Rightarrow> shortcuts_config \<times> 'h set \<times> unit res" where
  "startup_shortcuts pl os f =
     (let c = load_shortcuts f in (c, register_all pl os (all_shortcuts c) {}))"

section \<open>Changing a shortcut\<close>

record 'h shortcuts_state =
  config :: shortcuts_config
  registered :: "'h set"
  shortcuts_file :: settings_file

definition shortcut_of :: "string \<Rightarrow> shortcuts_config \<Rightarrow> string option" where
  "shortcut_of action c =
     (if action = ''dictate'' then Some (dictate c)
      else if action = ''capture_region'' then Some (capture_region c)
      else if action = ''capture_window'' then Some (capture_window c)
      else if action = ''screen_recording'' then Some (screen_recording c)
      else if action = ''new_meeting'' then Some (new_meeting c)
      else None)"

definition put_shortcut :: "string \<Rightarrow> string \<Rightarrow> shortcuts_config \<Rightarrow> shortcuts_config" where
  "put_shortcut action s c =
     (if action = ''dictate'' then c\<lparr>dictate := s\<rparr>
      else if action = ''capture_region'' then c\<lparr>capture_region := s\<rparr>
      else if action = ''capture_window'' then c\<lparr>capture_window := s\<rparr>
      else if action = ''screen_recording'' then c\<lparr>screen_recording := s\<rparr>
      else if action = ''new_meeting'' then c\<lparr>new_meeting := s\<rparr>
      else c)"

definition voice_set_shortcut ::
  "'h plugin \<Rightarrow> string option \<Rightarrow> disk \<Rightarrow> string \<Rightarrow> string \<Rightarrow> 'h shortcuts_state
     \<Rightarrow> 'h shortcuts_state \<times> unit res" where
  "voice_set_shortcut pl os d action shortcut st =
     (if parse shortcut = None
        then (st, Inl (''cannot parse shortcut '' @ [CHR 0x27] @ shortcut @ [CHR 0x27]))
      else
        (case shortcut_of action (config st) of
           None \<Rightarrow> (st, Inl (''unknown shortcut action '' @ [CHR 0x27] @ action @ [CHR 0x27]))
         | Some old \<Rightarrow>
             if old = shortcut then (st, Inr ())
             else
               (case register pl os shortcut (unregister pl old (registered st)) of
                  (reg, Inl e) \<Rightarrow> (st\<lparr>registered := reg\<rparr>, Inl (''register shortcut: '' @ e))
                | (reg, Inr _) \<Rightarrow>
                    (let c = put_shortcut action shortcut (config st) in
                     case save_shortcuts d c (shortcuts_file st) of
                       (f, r) \<Rightarrow> (st\<lparr>config := c, registered := reg, shortcuts_file := f\<rparr>, r)))))"

definition voice_get_shortcuts :: "'h shortcuts_state \<Rightarrow> shortcuts_config" where
  "voice_get_shortcuts st = config st"

section \<open>The handler\<close>

datatype shortcut_action = Dictate | CaptureRegion | CaptureWindow | ScreenRecording | NewMeeting

text \<open>The action of a key event, before its state is looked at.\<close>

definition action_for :: "shortcuts_config \<Rightarrow> modifier set \<times> code \<Rightarrow> shortcut_action option" where
  "action_for c event =
     (if parse (dictate c) = Some event then Some Dictate
      else if parse (capture_region c) = Some event then Some CaptureRegion
      else if parse (capture_window c) = Some event then Some CaptureWindow
      else if parse (screen_recording c) = Some event then Some ScreenRecording
      else if parse (new_meeting c) = Some event then Some NewMeeting
      else None)"

section \<open>Reading what was written\<close>

definition modifier_name :: "modifier \<Rightarrow> string" where
  "modifier_name m = (case m of SUPER \<Rightarrow> ''Super'' | SHIFT \<Rightarrow> ''Shift'' | CONTROL \<Rightarrow> ''Ctrl'' | ALT \<Rightarrow> ''Alt'')"

definition code_name :: "code \<Rightarrow> string" where
  "code_name c =
     (case c of
        Space \<Rightarrow> ''Space'' | Enter \<Rightarrow> ''Enter'' | Escape \<Rightarrow> ''Escape'' | Tab \<Rightarrow> ''Tab''
      | Digit d \<Rightarrow> ''Digit'' @ [digit_char d] | Key k \<Rightarrow> ''Key'' @ [k] | Fn n \<Rightarrow> ''F'' @ show_nat n)"

definition shortcut_text :: "modifier list \<Rightarrow> code \<Rightarrow> string" where
  "shortcut_text ms c = join ''+'' (map modifier_name ms @ [code_name c])"

definition known_codes :: "code list" where
  "known_codes = remdups (map snd code_table)"

lemma codes_read: "list_all (\<lambda>c. parse_code (code_name c) = Some c \<and> CHR ''+'' \<notin> set (code_name c)) known_codes"
  by code_simp

lemma modifiers_read:
  "parse_modifiers (map modifier_name ms) mods = Some (mods \<union> set ms)"
proof (induction ms arbitrary: mods)
  case (Cons m ms)
  have "parse_modifier (modifier_name m) = Some m"
    by (cases m) (simp_all add: parse_modifier_def modifier_name_def)
  then show ?case using Cons by simp
qed simp

text \<open>Every shortcut can be written. For every list of modifiers and every key the program knows,
  the text that joins their names with plus signs is read back as that set of modifiers and that
  key; and the five default shortcuts are read, as five different ones.\<close>

theorem shortcut_roundtrip:
  assumes "c \<in> set known_codes"
  shows "parse (shortcut_text ms c) = Some (set ms, c) \<and>
    distinct (map parse (all_shortcuts default_shortcuts)) \<and> None \<notin> set (map parse (all_shortcuts default_shortcuts))"
proof (intro conjI)
  have code: "parse_code (code_name c) = Some c" "CHR ''+'' \<notin> set (code_name c)"
    using codes_read assms by (auto simp: list_all_iff)
  have "CHR ''+'' \<notin> set (modifier_name m)" for m by (cases m) (simp_all add: modifier_name_def)
  then have "split_on (CHR ''+'') (shortcut_text ms c) = map modifier_name ms @ [code_name c]"
    unfolding shortcut_text_def using code(2) by (intro split_on_join) auto
  then show "parse (shortcut_text ms c) = Some (set ms, c)"
    by (simp add: parse_def modifiers_read code(1))
  show "distinct (map parse (all_shortcuts default_shortcuts))" by code_simp
  show "None \<notin> set (map parse (all_shortcuts default_shortcuts))" by code_simp
qed

lemma shortcut_roundtrip_witness: "parse ''Alt+Shift+F12'' = Some ({ALT, SHIFT}, Fn 12)"
proof -
  have "Fn 12 \<in> set known_codes" by code_simp
  moreover have "shortcut_text [ALT, SHIFT] (Fn 12) = ''Alt+Shift+F12''" by code_simp
  ultimately show ?thesis using shortcut_roundtrip [of "Fn 12" "[ALT, SHIFT]"] by simp
qed

section \<open>Starting with what was stored\<close>

text \<open>The five shortcuts are known to the plugin and different.\<close>

definition keys_apart :: "'h plugin \<Rightarrow> shortcuts_config \<Rightarrow> bool" where
  "keys_apart pl c \<longleftrightarrow>
     distinct (map (hotkey pl) (all_shortcuts c)) \<and> None \<notin> set (map (hotkey pl) (all_shortcuts c))"

definition shortcuts_ok :: "'h plugin \<Rightarrow> 'h shortcuts_state \<Rightarrow> bool" where
  "shortcuts_ok pl st \<longleftrightarrow> keys_apart pl (config st) \<and> keys_apart pl (load_shortcuts (shortcuts_file st)) \<and>
     Some ` registered st = set (map (hotkey pl) (all_shortcuts (config st)))"

lemma load_stored [simp]: "load_shortcuts (Stored (shortcuts_json c)) = c"
  by (simp add: load_shortcuts_def shortcuts_of_json_def shortcuts_json_def jget_str_def)

interpretation shortcut_file: config_file load_shortcuts save_shortcuts
proof
  fix d and c :: shortcuts_config and f
  show "disk_works d \<Longrightarrow> load_shortcuts (fst (save_shortcuts d c f)) = c" by (simp add: disk_works_def save_shortcuts_def)
  show "is_ok (snd (save_shortcuts d c f)) \<longleftrightarrow> disk_works d"
    by (simp add: disk_works_def save_shortcuts_def split: option.split)
  show "\<not> disk_works d \<Longrightarrow> fst (save_shortcuts d c f) = f"
    by (auto simp: disk_works_def save_shortcuts_def split: option.split)
qed

lemma action_index:
  assumes "shortcut_of action c = Some old"
  shows "\<exists>i < 5. all_shortcuts c ! i = old \<and> all_shortcuts (put_shortcut action s c) = (all_shortcuts c)[i := s]"
proof -
  have "action \<in> {''dictate'', ''capture_region'', ''capture_window'', ''screen_recording'', ''new_meeting''}"
    using assms by (auto simp: shortcut_of_def split: if_splits)
  then show ?thesis
    using assms
    by (elim insertE emptyE)
      (rule exI [of _ 0] exI [of _ 1] exI [of _ 2] exI [of _ 3] exI [of _ 4],
        force simp: shortcut_of_def put_shortcut_def all_shortcuts_def)+
qed

lemma register_all_ok:
  "distinct (map (hotkey pl) ss) \<Longrightarrow> None \<notin> set (map (hotkey pl) ss) \<Longrightarrow>
   Some ` reg \<inter> set (map (hotkey pl) ss) = {} \<Longrightarrow>
   \<exists>reg'. register_all pl [] ss reg = (reg', Inr ()) \<and> Some ` reg' = Some ` reg \<union> set (map (hotkey pl) ss)"
proof (induction ss arbitrary: reg)
  case (Cons s ss)
  then obtain h where h: "hotkey pl s = Some h" by (cases "hotkey pl s") auto
  then have reg: "register pl None s reg = (insert h reg, Inr ())"
    using Cons.prems(3) by (auto simp: register_def)
  have "\<exists>reg'. register_all pl [] ss (insert h reg) = (reg', Inr ()) \<and>
      Some ` reg' = Some ` insert h reg \<union> set (map (hotkey pl) ss)"
    using Cons.prems h by (intro Cons.IH) auto
  then show ?case using reg h by auto
qed simp

lemma startup_ok:
  "keys_apart pl (load_shortcuts f) \<Longrightarrow>
     \<exists>reg. startup_shortcuts pl [] f = (load_shortcuts f, reg, Inr ()) \<and>
       Some ` reg = set (map (hotkey pl) (all_shortcuts (load_shortcuts f)))"
  using register_all_ok [of pl "all_shortcuts (load_shortcuts f)" "{}"]
  by (auto simp: startup_shortcuts_def keys_apart_def Let_def)

definition refused :: "unit res \<Rightarrow> bool" where
  "refused r = (case r of Inl e \<Rightarrow> starts_with e ''register shortcut: '' | Inr _ \<Rightarrow> False)"

lemma set_shortcut_ok:
  assumes "shortcuts_ok pl st" "voice_set_shortcut pl os d action s st = (st', r)" "\<not> refused r"
  shows "shortcuts_ok pl st'"
proof (cases "parse s = None \<or> shortcut_of action (config st) = None \<or> shortcut_of action (config st) = Some s")
  case True
  then show ?thesis using assms(1,2) by (auto simp: voice_set_shortcut_def split: if_splits)
next
  case False
  then obtain old where old: "shortcut_of action (config st) = Some old" "old \<noteq> s" "parse s \<noteq> None" by auto
  obtain reg q where reg: "register pl os s (unregister pl old (registered st)) = (reg, q)" by force
  have "q = Inr ()"
    using assms(2,3) old reg by (cases q) (auto simp: voice_set_shortcut_def refused_def)
  then obtain h where h: "hotkey pl s = Some h" "h \<notin> unregister pl old (registered st)"
    "reg = insert h (unregister pl old (registered st))"
    using reg by (auto simp: register_def split: option.splits if_splits)
  let ?c = "put_shortcut action s (config st)"
  let ?hs = "map (hotkey pl) (all_shortcuts (config st))"
  obtain i where i: "i < 5" "all_shortcuts (config st) ! i = old" "all_shortcuts ?c = (all_shortcuts (config st))[i := s]"
    using action_index [OF old(1), of s] by blast
  have len: "length (all_shortcuts (config st)) = 5" by (simp add: all_shortcuts_def)
  have ok: "distinct ?hs" "None \<notin> set ?hs" "Some ` registered st = set ?hs"
    using assms(1) by (auto simp: shortcuts_ok_def keys_apart_def)
  have new: "map (hotkey pl) (all_shortcuts ?c) = ?hs[i := Some h]" by (simp add: i(3) map_update h(1))
  have at_i: "?hs ! i = hotkey pl old" using i len by simp
  obtain g where g: "hotkey pl old = Some g"
    using ok(2) i len nth_mem [of i ?hs] by (cases "hotkey pl old") (auto simp: at_i)
  have "Some ` unregister pl old (registered st) = set ?hs - {?hs ! i}"
    using g ok(3) at_i by (auto simp: unregister_def)
  then have rest: "Some h \<notin> set ?hs - {?hs ! i}" and regs: "Some ` reg = insert (Some h) (set ?hs - {?hs ! i})"
    using h(2,3) by auto
  have il: "i < length ?hs" using i(1) len by simp
  note upd = distinct_list_update [OF ok(1) rest] set_update_distinct [OF ok(1) il, of "Some h"]
  then have apart: "keys_apart pl ?c" "Some ` reg = set (map (hotkey pl) (all_shortcuts ?c))"
    using ok(2) regs unfolding keys_apart_def new by auto
  obtain f w where f: "save_shortcuts d ?c (shortcuts_file st) = (f, w)" by force
  then have "load_shortcuts f = ?c \<or> f = shortcuts_file st"
    using shortcut_file.saved [of d ?c "shortcuts_file st"] shortcut_file.save_failed [of d ?c "shortcuts_file st"]
    by (cases "disk_works d") simp_all
  moreover have "st' = st\<lparr>config := ?c, registered := reg, shortcuts_file := f\<rparr>"
    using assms(2) old reg \<open>q = Inr ()\<close> f by (simp add: voice_set_shortcut_def)
  ultimately show ?thesis using apart assms(1) by (auto simp: shortcuts_ok_def)
qed

type_synonym set_op = "string option \<times> disk \<times> string \<times> string"

fun set_run :: "'h plugin \<Rightarrow> set_op list \<Rightarrow> 'h shortcuts_state \<Rightarrow> 'h shortcuts_state \<times> unit res list" where
  "set_run pl [] st = (st, [])"
| "set_run pl ((os, d, action, s) # ops) st =
     (case voice_set_shortcut pl os d action s st of
        (st', r) \<Rightarrow> (case set_run pl ops st' of (st'', rs) \<Rightarrow> (st'', r # rs)))"

lemma set_run_ok:
  "shortcuts_ok pl st \<Longrightarrow> set_run pl ops st = (st', rs) \<Longrightarrow> list_all (\<lambda>r. \<not> refused r) rs \<Longrightarrow> shortcuts_ok pl st'"
proof (induction ops arbitrary: st rs)
  case (Cons op ops)
  obtain os d action s where op: "op = (os, d, action, s)" by (cases op)
  obtain s1 r where s1: "voice_set_shortcut pl os d action s st = (s1, r)" by force
  obtain rs' where rs': "set_run pl ops s1 = (st', rs')" "rs = r # rs'"
    using Cons.prems(2) by (auto simp: op s1 split: prod.splits)
  have "\<not> refused r" using Cons.prems(3) rs'(2) by simp
  then have "shortcuts_ok pl s1" by (rule set_shortcut_ok [OF Cons.prems(1) s1])
  then show ?case using Cons.IH rs' Cons.prems(3) by simp
qed simp

definition started :: "'h plugin \<Rightarrow> settings_file \<Rightarrow> 'h shortcuts_state" where
  "started pl f = \<lparr>config = load_shortcuts f, registered = fst (snd (startup_shortcuts pl [] f)), shortcuts_file = f\<rparr>"

lemma started_ok: "keys_apart pl (load_shortcuts f) \<Longrightarrow> shortcuts_ok pl (started pl f)"
  using startup_ok [of pl f] by (auto simp: started_def shortcuts_ok_def)

lemma swap_run:
  assumes "keys_apart pl default_shortcuts"
  shows "\<exists>st'. set_run pl [(None, disk_ok, ''dictate'', ''Super+Ctrl+4''),
        (None, disk_ok, ''capture_region'', ''Super+Shift+Space'')] (started pl Absent) =
      (st', [Inl (''register shortcut: '' @ duplicate_error pl), Inr ()]) \<and>
    snd (snd (startup_shortcuts pl [] (shortcuts_file st'))) = Inl (duplicate_error pl)"
proof -
  have some: "\<exists>h. hotkey pl s = Some h" if "s \<in> set (all_shortcuts default_shortcuts)" for s
    using assms imageI [OF that, of "hotkey pl"] by (cases "hotkey pl s") (auto simp: keys_apart_def)
  obtain a b c d e where h: "hotkey pl ''Super+Shift+Space'' = Some a" "hotkey pl ''Super+Ctrl+4'' = Some b"
    "hotkey pl ''Super+Ctrl+5'' = Some c" "hotkey pl ''Super+Ctrl+6'' = Some d" "hotkey pl ''Super+Ctrl+7'' = Some e"
    using some [of "''Super+Shift+Space''"] some [of "''Super+Ctrl+4''"] some [of "''Super+Ctrl+5''"]
      some [of "''Super+Ctrl+6''"] some [of "''Super+Ctrl+7''"]
    by (auto simp: all_shortcuts_def default_shortcuts_def)
  have "distinct [a, b, c, d, e]"
    using assms h by (auto simp: keys_apart_def all_shortcuts_def default_shortcuts_def)
  moreover from this have "distinct [e, d, c, b, a]" by auto
  ultimately have ne: "distinct [a, b, c, d, e]" "distinct [e, d, c, b, a]" by blast+
  note k = h ne
  let ?st = "\<lparr>config = default_shortcuts, registered = {e, d, c, b, a}, shortcuts_file = Absent\<rparr>"
  have start: "started pl Absent = ?st"
    using k by (simp add: started_def startup_shortcuts_def load_shortcuts_def all_shortcuts_def
        default_shortcuts_def register_def Let_def)
  have p: "parse ''Super+Ctrl+4'' \<noteq> None" "parse ''Super+Shift+Space'' \<noteq> None" by code_simp+
  let ?st1 = "?st\<lparr>registered := {e, d, c, b, a} - {a}\<rparr>"
  have one: "voice_set_shortcut pl None disk_ok ''dictate'' ''Super+Ctrl+4'' ?st =
      (?st1, Inl (''register shortcut: '' @ duplicate_error pl))"
    using k p by (auto simp: voice_set_shortcut_def shortcut_of_def default_shortcuts_def register_def unregister_def)
  let ?c = "default_shortcuts\<lparr>capture_region := ''Super+Shift+Space''\<rparr>"
  have two: "\<exists>reg. voice_set_shortcut pl None disk_ok ''capture_region'' ''Super+Shift+Space'' ?st1 =
      (\<lparr>config = ?c, registered = reg, shortcuts_file = Stored (shortcuts_json ?c)\<rparr>, Inr ())"
    using k p
    by (simp add: voice_set_shortcut_def shortcut_of_def default_shortcuts_def register_def unregister_def
        put_shortcut_def save_shortcuts_def disk_ok_def Let_def)
  have "snd (snd (startup_shortcuts pl [] (Stored (shortcuts_json ?c)))) = Inl (duplicate_error pl)"
    using k by (simp add: startup_shortcuts_def Let_def all_shortcuts_def default_shortcuts_def register_def)
  then show ?thesis using two unfolding start by (elim exE) (simp add: one)
qed

text \<open>The program starts with the shortcuts it stored, as long as none was refused. From a start
  with five readable and different shortcuts, after any changes, failed writes included, of which no
  registration was refused, exactly the five configured shortcuts are registered and the next start
  registers all five of the file. Without that condition it fails: giving dictation the key of
  capturing, which is refused, and then capturing the old key of dictation, which succeeds, stores a
  file with which the program no longer starts.\<close>

theorem shortcuts_start_again:
  assumes "keys_apart pl (load_shortcuts f)" "keys_apart pl default_shortcuts"
    and "set_run pl ops (started pl f) = (st, rs)" "list_all (\<lambda>r. \<not> refused r) rs"
  shows "Some ` registered st = set (map (hotkey pl) (all_shortcuts (config st))) \<and>
    snd (snd (startup_shortcuts pl [] (shortcuts_file st))) = Inr () \<and>
    (\<exists>st'. set_run pl [(None, disk_ok, ''dictate'', ''Super+Ctrl+4''),
        (None, disk_ok, ''capture_region'', ''Super+Shift+Space'')] (started pl Absent) =
      (st', [Inl (''register shortcut: '' @ duplicate_error pl), Inr ()]) \<and>
    snd (snd (startup_shortcuts pl [] (shortcuts_file st'))) = Inl (duplicate_error pl))"
proof -
  have ok: "shortcuts_ok pl st" by (rule set_run_ok [OF started_ok [OF assms(1)] assms(3,4)])
  then have "snd (snd (startup_shortcuts pl [] (shortcuts_file st))) = Inr ()"
    using startup_ok [of pl "shortcuts_file st"] by (auto simp: shortcuts_ok_def)
  then show ?thesis using ok swap_run [OF assms(2)] by (simp add: shortcuts_ok_def)
qed

definition demo_plugin :: "string plugin" where
  "demo_plugin = \<lparr>hotkey = Some, unreadable_error = ''unreadable'', duplicate_error = ''duplicate''\<rparr>"

lemma shortcuts_start_again_witness:
  "\<exists>st. set_run demo_plugin [(None, disk_ok, ''dictate'', ''Alt+F1'')] (started demo_plugin Absent) = (st, [Inr ()]) \<and>
     dictate (config st) = ''Alt+F1'' \<and> snd (snd (startup_shortcuts demo_plugin [] (shortcuts_file st))) = Inr ()"
proof -
  have d: "keys_apart demo_plugin default_shortcuts"
    by (simp add: keys_apart_def demo_plugin_def all_shortcuts_def default_shortcuts_def)
  then have a: "keys_apart demo_plugin (load_shortcuts Absent)" by (simp add: load_shortcuts_def)
  have p: "parse ''Alt+F1'' \<noteq> None" by code_simp
  obtain st where st: "set_run demo_plugin [(None, disk_ok, ''dictate'', ''Alt+F1'')] (started demo_plugin Absent) = (st, [Inr ()])"
    "dictate (config st) = ''Alt+F1''"
    using p by (auto simp: started_def startup_shortcuts_def load_shortcuts_def all_shortcuts_def
        default_shortcuts_def register_def Let_def demo_plugin_def voice_set_shortcut_def shortcut_of_def
        unregister_def put_shortcut_def save_shortcuts_def disk_ok_def)
  from shortcuts_start_again [OF a d st(1)] show ?thesis using st by (simp add: refused_def)
qed

end
