(* ===== verification/Plugins.thy ===== *)
theory Plugins
  imports Json_Value
begin

text \<open>
  Plugins: \<open>src-tauri/src/server/plugins.rs\<close> and \<open>plugins_endpoints.rs\<close>. The registry is a map from
  ids; the directory of plugins a map from the names of its directories to what their \<open>plugin.toml\<close>
  holds. Arguments are the crate toml (\<open>of_toml\<close>, \<open>to_toml\<close>), the download, and the order in which
  the directory is read. A failed file operation leaves the directory as it was, up to the point
  where it failed.
\<close>

record manifest =
  mf_id :: string
  mf_name :: string
  mf_version :: string
  mf_description :: string
  mf_author :: string
  mf_license :: string
  mf_capabilities :: "string list"
  mf_entry_point :: string
  mf_permissions :: "string list"

record plugin_entry =
  pl_manifest :: manifest
  pl_path :: string
  pl_enabled :: bool
  pl_loaded :: bool

text \<open>A directory without a readable manifest holds an error, or nothing.\<close>

datatype manifest_file = NoManifest | BadManifest string | ManifestText string

record plugin_state =
  plugin_registry :: "string \<rightharpoonup> plugin_entry"
  plugin_dirs :: "string \<rightharpoonup> manifest_file"

section \<open>Scanning\<close>

definition load_manifest :: "(string \<Rightarrow> manifest res) \<Rightarrow> manifest_file \<Rightarrow> manifest res" where
  "load_manifest of_toml m =
     (case m of
        ManifestText t \<Rightarrow> map_err (\<lambda>e. ''Failed to parse manifest TOML: '' @ e) (of_toml t)
      | BadManifest e \<Rightarrow> Inl (''Failed to read manifest: '' @ e)
      | NoManifest \<Rightarrow> Inl ''Failed to read manifest: No such file or directory (os error 2)'')"

definition scan_entry ::
  "(string \<Rightarrow> manifest res) \<Rightarrow> (string \<rightharpoonup> manifest_file) \<Rightarrow> string \<Rightarrow> (string \<rightharpoonup> plugin_entry) \<Rightarrow> string \<rightharpoonup> plugin_entry" where
  "scan_entry of_toml dirs name reg =
     (case dirs name of
        None \<Rightarrow> reg
      | Some NoManifest \<Rightarrow> reg
      | Some m \<Rightarrow>
          (case load_manifest of_toml m of
             Inl e \<Rightarrow> reg
           | Inr mf \<Rightarrow> reg(mf_id mf \<mapsto>
               \<lparr>pl_manifest = mf, pl_path = name, pl_enabled = True, pl_loaded = False\<rparr>)))"

definition scan_plugins ::
  "(string \<Rightarrow> manifest res) \<Rightarrow> string option \<Rightarrow> string list \<Rightarrow> plugin_state \<Rightarrow> plugin_state \<times> unit res" where
  "scan_plugins of_toml read_error names st =
     (case read_error of
        Some e \<Rightarrow> (st, Inl (''Failed to read plugins directory: '' @ e))
      | None \<Rightarrow>
          (st\<lparr>plugin_registry := fold (scan_entry of_toml (plugin_dirs st)) names (plugin_registry st)\<rparr>, Inr ()))"

text \<open>\<open>f\<close>: creating the plugins directory (0), which is not there yet when \<open>exists\<close> is false.\<close>

definition init_plugins ::
  "(string \<Rightarrow> manifest res) \<Rightarrow> faults \<Rightarrow> bool \<Rightarrow> string option \<Rightarrow> string list \<Rightarrow> plugin_state \<Rightarrow> plugin_state \<times> unit res" where
  "init_plugins of_toml f exists read_error names st =
     (if \<not> exists \<and> f 0 \<noteq> None
        then (st, Inl (''Failed to create plugins directory: '' @ the (f 0)))
      else scan_plugins of_toml read_error names st)"

section \<open>Operations\<close>

definition get_plugin :: "string \<Rightarrow> plugin_state \<Rightarrow> plugin_entry option" where
  "get_plugin i st = plugin_registry st i"

text \<open>The manifest is not read from the downloaded file.\<close>

definition extract_manifest_from_wasm :: "string \<Rightarrow> manifest res" where
  "extract_manifest_from_wasm wasm = Inr
     \<lparr>mf_id = ''placeholder'', mf_name = ''Placeholder Plugin'', mf_version = ''0.1.0'',
      mf_description = ''Placeholder plugin'', mf_author = ''Unknown'', mf_license = ''MIT'',
      mf_capabilities = [], mf_entry_point = ''init'', mf_permissions = []\<rparr>"

definition verify_plugin_signature :: "string \<Rightarrow> string \<Rightarrow> unit res" where
  "verify_plugin_signature url wasm = Inr ()"

text \<open>The download: \<open>Inl\<close> with the failing step (sending, or reading the body) and its error.\<close>

datatype download = SendFails string | BodyFails string | Bytes string

definition download_plugin_wasm :: "download \<Rightarrow> string res" where
  "download_plugin_wasm d =
     (case d of
        SendFails e \<Rightarrow> Inl (''Failed to download plugin: '' @ e)
      | BodyFails e \<Rightarrow> Inl (''Failed to read plugin data: '' @ e)
      | Bytes b \<Rightarrow> Inr b)"

definition install_plugin ::
  "(manifest \<Rightarrow> string res) \<Rightarrow> faults \<Rightarrow> download \<Rightarrow> string \<Rightarrow> bool \<Rightarrow> plugin_state
     \<Rightarrow> plugin_state \<times> plugin_entry res" where
  "install_plugin to_toml f d url verify st =
     (case download_plugin_wasm d of Inl e \<Rightarrow> (st, Inl e) | Inr wasm \<Rightarrow>
      (case extract_manifest_from_wasm wasm of Inl e \<Rightarrow> (st, Inl e) | Inr mf \<Rightarrow>
       (case (if verify then verify_plugin_signature url wasm else Inr ()) of Inl e \<Rightarrow> (st, Inl e) | Inr _ \<Rightarrow>
        (case f 0 of Some e \<Rightarrow> (st, Inl (''Failed to create plugin directory: '' @ e)) | None \<Rightarrow>
         (let st1 = st\<lparr>plugin_dirs := (case plugin_dirs st (mf_id mf) of
                          None \<Rightarrow> (plugin_dirs st)(mf_id mf \<mapsto> NoManifest) | Some _ \<Rightarrow> plugin_dirs st)\<rparr> in
          case f 1 of Some e \<Rightarrow> (st1, Inl (''Failed to save plugin WASM: '' @ e)) | None \<Rightarrow>
          (case to_toml mf of Inl e \<Rightarrow> (st1, Inl (''Failed to serialize manifest: '' @ e)) | Inr t \<Rightarrow>
           (case f 2 of Some e \<Rightarrow> (st1, Inl (''Failed to save manifest: '' @ e)) | None \<Rightarrow>
            (let p = \<lparr>pl_manifest = mf, pl_path = mf_id mf, pl_enabled = True, pl_loaded = False\<rparr> in
             (\<lparr>plugin_registry = (plugin_registry st1)(mf_id mf \<mapsto> p),
               plugin_dirs = (plugin_dirs st1)(mf_id mf \<mapsto> ManifestText t)\<rparr>, Inr p)))))))))"

definition enable_plugin :: "string \<Rightarrow> plugin_state \<Rightarrow> plugin_state \<times> unit res" where
  "enable_plugin i st =
     (case plugin_registry st i of
        Some p \<Rightarrow> (st\<lparr>plugin_registry := (plugin_registry st)(i \<mapsto> p\<lparr>pl_enabled := True\<rparr>)\<rparr>, Inr ())
      | None \<Rightarrow> (st, Inl (''Plugin not found: '' @ i)))"

definition disable_plugin :: "string \<Rightarrow> plugin_state \<Rightarrow> plugin_state \<times> unit res" where
  "disable_plugin i st =
     (case plugin_registry st i of
        Some p \<Rightarrow>
          (st\<lparr>plugin_registry := (plugin_registry st)(i \<mapsto> p\<lparr>pl_enabled := False, pl_loaded := False\<rparr>)\<rparr>, Inr ())
      | None \<Rightarrow> (st, Inl (''Plugin not found: '' @ i)))"

definition uninstall_plugin :: "string option \<Rightarrow> string \<Rightarrow> plugin_state \<Rightarrow> plugin_state \<times> unit res" where
  "uninstall_plugin rm_error i st =
     (case plugin_registry st i of
        Some p \<Rightarrow>
          (let st1 = st\<lparr>plugin_registry := (plugin_registry st)(i := None)\<rparr> in
           case rm_error of
             Some e \<Rightarrow> (st1, Inl (''Failed to delete plugin directory: '' @ e))
           | None \<Rightarrow>
               (case plugin_dirs st (pl_path p) of
                  None \<Rightarrow> (st1, Inl ''Failed to delete plugin directory: No such file or directory (os error 2)'')
                | Some _ \<Rightarrow> (st1\<lparr>plugin_dirs := (plugin_dirs st)(pl_path p := None)\<rparr>, Inr ())))
      | None \<Rightarrow> (st, Inl (''Plugin not found: '' @ i)))"

definition call_plugin_function :: "string \<Rightarrow> string \<Rightarrow> json \<Rightarrow> plugin_state \<Rightarrow> json res" where
  "call_plugin_function i fn input st =
     (case get_plugin i st of
        None \<Rightarrow> Inl (''Plugin not found: '' @ i)
      | Some p \<Rightarrow>
          if \<not> pl_enabled p then Inl (''Plugin is disabled: '' @ i)
          else Inr (JObj [(''success'', JBool True), (''plugin'', JStr i), (''function'', JStr fn), (''input'', input)]))"

text \<open>The registry's entries, \<open>ids\<close> in the order in which the map is iterated.\<close>

definition list_plugins :: "string list \<Rightarrow> plugin_state \<Rightarrow> plugin_entry list" where
  "list_plugins ids st = List.map_filter (plugin_registry st) ids"

definition get_plugin_stats :: "string list \<Rightarrow> plugin_state \<Rightarrow> json" where
  "get_plugin_stats ids st =
     (let ps = List.map_filter (\<lambda>i. map_option (Pair i) (plugin_registry st i)) ids in
      JObj
        [(''total'', JInt (int (length ps))),
         (''enabled'', JInt (int (length (filter (\<lambda>(_, p). pl_enabled p) ps)))),
         (''loaded'', JInt (int (length (filter (\<lambda>(_, p). pl_loaded p) ps)))),
         (''plugins'', JArr (map (\<lambda>(i, p). JObj
            [(''id'', JStr i), (''name'', JStr (mf_name (pl_manifest p))), (''version'', JStr (mf_version (pl_manifest p))),
             (''enabled'', JBool (pl_enabled p)), (''loaded'', JBool (pl_loaded p))]) ps))])"

section \<open>Endpoints\<close>

definition manifest_json :: "manifest \<Rightarrow> json" where
  "manifest_json m = JObj
     [(''id'', JStr (mf_id m)), (''name'', JStr (mf_name m)), (''version'', JStr (mf_version m)),
      (''description'', JStr (mf_description m)), (''author'', JStr (mf_author m)), (''license'', JStr (mf_license m)),
      (''capabilities'', JArr (map JStr (mf_capabilities m))), (''entry_point'', JStr (mf_entry_point m)),
      (''permissions'', JArr (map JStr (mf_permissions m)))]"

text \<open>\<open>dir\<close> is the plugins directory.\<close>

definition plugin_json :: "string \<Rightarrow> plugin_entry \<Rightarrow> json" where
  "plugin_json dir p = JObj
     [(''manifest'', manifest_json (pl_manifest p)), (''path'', JStr (dir @ ''/'' @ pl_path p)),
      (''enabled'', JBool (pl_enabled p)), (''loaded'', JBool (pl_loaded p))]"

definition plugins_list :: "string \<Rightarrow> string list \<Rightarrow> plugin_state \<Rightarrow> json" where
  "plugins_list dir ids st = ok_body [(''plugins'', JArr (map (plugin_json dir) (list_plugins ids st)))]"

definition plugins_get :: "string \<Rightarrow> string \<Rightarrow> plugin_state \<Rightarrow> json" where
  "plugins_get dir i st =
     (case get_plugin i st of
        Some p \<Rightarrow> ok_body [(''plugin'', plugin_json dir p)] | None \<Rightarrow> err_body ''Plugin not found'')"

definition plugins_install ::
  "string \<Rightarrow> (manifest \<Rightarrow> string res) \<Rightarrow> faults \<Rightarrow> download \<Rightarrow> string \<Rightarrow> bool \<Rightarrow> plugin_state
     \<Rightarrow> plugin_state \<times> response" where
  "plugins_install dir to_toml f d url verify st =
     (case install_plugin to_toml f d url verify st of
        (st', Inr p) \<Rightarrow> (st', 201, ok_body [(''plugin'', plugin_json dir p)])
      | (st', Inl e) \<Rightarrow> (st', 400, err_body e))"

definition plugins_enable :: "string \<Rightarrow> plugin_state \<Rightarrow> plugin_state \<times> json" where
  "plugins_enable i st =
     (case enable_plugin i st of
        (st', Inr _) \<Rightarrow> (st', ok_body [(''message'', JStr (''Plugin '' @ i @ '' enabled''))])
      | (st', Inl e) \<Rightarrow> (st', err_body e))"

definition plugins_disable :: "string \<Rightarrow> plugin_state \<Rightarrow> plugin_state \<times> json" where
  "plugins_disable i st =
     (case disable_plugin i st of
        (st', Inr _) \<Rightarrow> (st', ok_body [(''message'', JStr (''Plugin '' @ i @ '' disabled''))])
      | (st', Inl e) \<Rightarrow> (st', err_body e))"

definition plugins_uninstall :: "string option \<Rightarrow> string \<Rightarrow> plugin_state \<Rightarrow> plugin_state \<times> json" where
  "plugins_uninstall rm_error i st =
     (case uninstall_plugin rm_error i st of
        (st', Inr _) \<Rightarrow> (st', ok_body [(''message'', JStr (''Plugin '' @ i @ '' uninstalled''))])
      | (st', Inl e) \<Rightarrow> (st', err_body e))"

definition plugins_call :: "string \<Rightarrow> string \<Rightarrow> json \<Rightarrow> plugin_state \<Rightarrow> response" where
  "plugins_call i fn input st =
     (case call_plugin_function i fn input st of
        Inr r \<Rightarrow> (200, ok_body [(''result'', r)]) | Inl e \<Rightarrow> (400, err_body e))"

definition plugins_stats :: "string list \<Rightarrow> plugin_state \<Rightarrow> json" where
  "plugins_stats ids st = ok_body [(''stats'', get_plugin_stats ids st)]"

section \<open>The registry and the directory\<close>

datatype plugin_op =
    Install faults download string bool
  | Enable string
  | Disable string
  | Uninstall "string option" string

fun exec_plugin :: "(manifest \<Rightarrow> string res) \<Rightarrow> plugin_op \<Rightarrow> plugin_state \<Rightarrow> plugin_state" where
  "exec_plugin to_toml (Install f d url v) st = fst (install_plugin to_toml f d url v st)"
| "exec_plugin to_toml (Enable i) st = fst (enable_plugin i st)"
| "exec_plugin to_toml (Disable i) st = fst (disable_plugin i st)"
| "exec_plugin to_toml (Uninstall e i) st = fst (uninstall_plugin e i st)"

fun removal_fails :: "plugin_op \<Rightarrow> bool" where
  "removal_fails (Uninstall e i) = (e \<noteq> None)"
| "removal_fails _ = False"

text \<open>Each directory with a readable manifest holds the plugin of its own name, as registered.\<close>

definition in_step :: "(string \<Rightarrow> manifest res) \<Rightarrow> plugin_state \<Rightarrow> bool" where
  "in_step of_toml st \<longleftrightarrow>
     (\<forall>i p. plugin_registry st i = Some p \<longrightarrow>
        pl_path p = i \<and> mf_id (pl_manifest p) = i \<and> \<not> pl_loaded p \<and>
        (\<exists>t. plugin_dirs st i = Some (ManifestText t) \<and> of_toml t = Inr (pl_manifest p))) \<and>
     (\<forall>i t mf. plugin_dirs st i = Some (ManifestText t) \<and> of_toml t = Inr mf \<longrightarrow> plugin_registry st i \<noteq> None)"

definition toml_ok :: "(manifest \<Rightarrow> string res) \<Rightarrow> (string \<Rightarrow> manifest res) \<Rightarrow> bool" where
  "toml_ok to_toml of_toml \<longleftrightarrow> (\<forall>m t. to_toml m = Inr t \<longrightarrow> of_toml t = Inr m)"

lemma in_step_registered:
  assumes "in_step of_toml st" "plugin_registry st i = Some p"
  shows "\<exists>t. plugin_dirs st i = Some (ManifestText t) \<and> of_toml t = Inr (pl_manifest p)"
    and "pl_path p = i" "mf_id (pl_manifest p) = i" "\<not> pl_loaded p"
  using assms unfolding in_step_def by blast+

lemma in_step_stored:
  assumes "in_step of_toml st" "plugin_dirs st i = Some (ManifestText t)" "of_toml t = Inr mf"
  shows "\<exists>p. plugin_registry st i = Some p \<and> pl_manifest p = mf \<and> mf_id mf = i"
proof -
  obtain p where p: "plugin_registry st i = Some p"
    using assms unfolding in_step_def by (metis not_Some_eq)
  show ?thesis using in_step_registered [OF assms(1) p] assms(2,3) p by auto
qed

lemma in_step_install:
  assumes "toml_ok to_toml of_toml" "in_step of_toml st"
  shows "in_step of_toml (fst (install_plugin to_toml f d url v st))"
proof -
  let ?i = "''placeholder''"
  obtain m where m: "\<And>w. extract_manifest_from_wasm w = Inr m" and i: "mf_id m = ?i"
    by (simp add: extract_manifest_from_wasm_def)
  let ?st1 = "st\<lparr>plugin_dirs := (case plugin_dirs st ?i of
                None \<Rightarrow> (plugin_dirs st)(?i \<mapsto> NoManifest) | Some _ \<Rightarrow> plugin_dirs st)\<rparr>"
  let ?p = "\<lparr>pl_manifest = m, pl_path = ?i, pl_enabled = True, pl_loaded = False\<rparr>"
  have one: "in_step of_toml ?st1"
  proof (cases "plugin_dirs st ?i")
    case None
    then have "plugin_registry st ?i = None"
      using in_step_registered(1) [OF assms(2), of ?i] by (cases "plugin_registry st ?i") auto
    then show ?thesis using None assms(2) by (auto simp: in_step_def)
  qed (use assms(2) in simp)
  have two: "in_step of_toml
      \<lparr>plugin_registry = (plugin_registry ?st1)(?i \<mapsto> ?p), plugin_dirs = (plugin_dirs ?st1)(?i \<mapsto> ManifestText t)\<rparr>"
    if "to_toml m = Inr t" for t
  proof -
    have "of_toml t = Inr m" using assms(1) that unfolding toml_ok_def by blast
    then show ?thesis using one i by (auto simp: in_step_def)
  qed
  have r: "fst (install_plugin to_toml f d url v st) \<in> {st, ?st1} \<or>
      (\<exists>t. to_toml m = Inr t \<and> fst (install_plugin to_toml f d url v st) =
        \<lparr>plugin_registry = (plugin_registry ?st1)(?i \<mapsto> ?p), plugin_dirs = (plugin_dirs ?st1)(?i \<mapsto> ManifestText t)\<rparr>)"
  proof (cases d)
    case (Bytes w)
    show ?thesis
      unfolding install_plugin_def download_plugin_wasm_def verify_plugin_signature_def Bytes
      by (cases "f 0"; cases "f 1"; cases "f 2"; cases "to_toml m") (simp_all add: m i Let_def cong: option.case_cong)
  qed (simp_all add: install_plugin_def download_plugin_wasm_def)
  show ?thesis using r assms(2) one two by auto
qed

lemma in_step_exec:
  assumes "toml_ok to_toml of_toml" "in_step of_toml st" "\<not> removal_fails op"
  shows "in_step of_toml (exec_plugin to_toml op st)"
proof (cases op)
  case (Install f d url v)
  then show ?thesis using in_step_install [OF assms(1,2)] by simp
next
  case (Enable i)
  then show ?thesis using assms(2) by (auto simp: in_step_def enable_plugin_def split: option.splits)
next
  case (Disable i)
  then show ?thesis using assms(2) by (auto simp: in_step_def disable_plugin_def split: option.splits)
next
  case (Uninstall e i)
  then have "e = None" using assms(3) by simp
  then show ?thesis
    using assms(2) Uninstall
    by (cases "plugin_registry st i") (auto simp: in_step_def uninstall_plugin_def Let_def split: option.splits)
qed

lemma in_step_execs:
  "toml_ok to_toml of_toml \<Longrightarrow> in_step of_toml st \<Longrightarrow> list_all (\<lambda>op. \<not> removal_fails op) ops \<Longrightarrow>
     in_step of_toml (fold (exec_plugin to_toml) ops st)"
  by (induction ops arbitrary: st) (simp_all add: in_step_exec)

text \<open>What a scan makes of a directory.\<close>

definition scanned :: "(string \<Rightarrow> manifest res) \<Rightarrow> (string \<rightharpoonup> manifest_file) \<Rightarrow> string \<Rightarrow> plugin_entry option" where
  "scanned of_toml dirs i =
     (case dirs i of
        Some (ManifestText t) \<Rightarrow>
          (case of_toml t of
             Inr mf \<Rightarrow> Some \<lparr>pl_manifest = mf, pl_path = i, pl_enabled = True, pl_loaded = False\<rparr>
           | Inl _ \<Rightarrow> None)
      | _ \<Rightarrow> None)"

lemma scan_entry_scanned:
  assumes "\<And>i t mf. dirs i = Some (ManifestText t) \<Longrightarrow> of_toml t = Inr mf \<Longrightarrow> mf_id mf = i"
  shows "scan_entry of_toml dirs n reg = (case scanned of_toml dirs n of None \<Rightarrow> reg | Some p \<Rightarrow> reg(n \<mapsto> p))"
  using assms [of n]
  by (auto simp: scan_entry_def scanned_def load_manifest_def map_err_def split: option.split manifest_file.split sum.split)

lemma scan_fold:
  assumes "\<And>i t mf. dirs i = Some (ManifestText t) \<Longrightarrow> of_toml t = Inr mf \<Longrightarrow> mf_id mf = i"
  shows "fold (scan_entry of_toml dirs) names reg i =
    (if i \<in> set names \<and> scanned of_toml dirs i \<noteq> None then scanned of_toml dirs i else reg i)"
proof (induction names arbitrary: reg)
  case (Cons n ns)
  have e: "scan_entry of_toml dirs n reg = (case scanned of_toml dirs n of None \<Rightarrow> reg | Some p \<Rightarrow> reg(n \<mapsto> p))"
    by (rule scan_entry_scanned) (rule assms)
  have "fold (scan_entry of_toml dirs) (n # ns) reg i = fold (scan_entry of_toml dirs) ns (scan_entry of_toml dirs n reg) i"
    by simp
  then show ?case unfolding Cons.IH e by (auto split: option.split)
qed simp

text \<open>Plugins survive a restart, but their being disabled does not. From an empty system, after any
  installations, enablings, disablings and removals, with any failures except of deleting a directory,
  the next start reads the plugins directory, in any order, into the same registry with every plugin
  enabled; so a plugin that was disabled, whose calls were refused, is called again.\<close>

theorem plugins_after_restart:
  assumes "toml_ok to_toml of_toml" "list_all (\<lambda>op. \<not> removal_fails op) ops"
    and "st = fold (exec_plugin to_toml) ops \<lparr>plugin_registry = Map.empty, plugin_dirs = Map.empty\<rparr>"
    and "set names = dom (plugin_dirs st)"
  shows "\<exists>st'. init_plugins of_toml f True None names \<lparr>plugin_registry = Map.empty, plugin_dirs = plugin_dirs st\<rparr> = (st', Inr ()) \<and>
    plugin_dirs st' = plugin_dirs st \<and>
    (\<forall>i. plugin_registry st' i = map_option (\<lambda>p. p\<lparr>pl_enabled := True\<rparr>) (plugin_registry st i)) \<and>
    (\<forall>i. is_ok (call_plugin_function i fn input st') = (plugin_registry st i \<noteq> None)) \<and>
    (\<forall>i p. plugin_registry st i = Some p \<longrightarrow> is_ok (call_plugin_function i fn input st) = pl_enabled p)"
proof -
  have "in_step of_toml \<lparr>plugin_registry = Map.empty, plugin_dirs = Map.empty\<rparr>" by (simp add: in_step_def)
  then have s: "in_step of_toml st" unfolding assms(3) using in_step_execs assms(1,2) by blast
  have known: "mf_id mf = i" if "plugin_dirs st i = Some (ManifestText t)" "of_toml t = Inr mf" for i t mf
    using in_step_stored [OF s that] by blast
  let ?reg = "fold (scan_entry of_toml (plugin_dirs st)) names Map.empty"
  let ?st' = "\<lparr>plugin_registry = ?reg, plugin_dirs = plugin_dirs st\<rparr>"
  have reg: "?reg i = map_option (\<lambda>p. p\<lparr>pl_enabled := True\<rparr>) (plugin_registry st i)" for i
  proof (cases "plugin_registry st i")
    case None
    have "scanned of_toml (plugin_dirs st) i = None"
      using in_step_stored [OF s, of i] None
      by (auto simp: scanned_def split: option.split manifest_file.split sum.split)
    then show ?thesis using None by (simp add: scan_fold [OF known])
  next
    case (Some p)
    note r = in_step_registered [OF s Some]
    obtain t where t: "plugin_dirs st i = Some (ManifestText t)" "of_toml t = Inr (pl_manifest p)"
      using r(1) by blast
    then have "scanned of_toml (plugin_dirs st) i = Some (p\<lparr>pl_enabled := True\<rparr>)"
      using r(2,4) by (cases p) (simp add: scanned_def)
    moreover have "i \<in> set names" using t(1) assms(4) by auto
    ultimately show ?thesis using Some by (simp add: scan_fold [OF known])
  qed
  have "init_plugins of_toml f True None names \<lparr>plugin_registry = Map.empty, plugin_dirs = plugin_dirs st\<rparr> = (?st', Inr ())"
    by (simp add: init_plugins_def scan_plugins_def)
  moreover have "is_ok (call_plugin_function i fn input ?st') = (plugin_registry st i \<noteq> None)" for i
    using reg [of i] by (cases "plugin_registry st i") (simp_all add: call_plugin_function_def get_plugin_def)
  moreover have "is_ok (call_plugin_function i fn input st) = pl_enabled p" if "plugin_registry st i = Some p" for i p
    using that by (simp add: call_plugin_function_def get_plugin_def)
  ultimately show ?thesis using reg by (intro exI [of _ ?st']) auto
qed

lemma plugins_after_restart_witness:
  "\<exists>to_toml of_toml st'. init_plugins of_toml no_faults True None [''placeholder'']
       \<lparr>plugin_registry = Map.empty, plugin_dirs = plugin_dirs (fold (exec_plugin to_toml)
          [Install no_faults (Bytes ''w'') ''u'' True, Disable ''placeholder''] \<lparr>plugin_registry = Map.empty, plugin_dirs = Map.empty\<rparr>)\<rparr> = (st', Inr ()) \<and>
     is_ok (call_plugin_function ''placeholder'' ''f'' JNull st')"
proof -
  define to_toml :: "manifest \<Rightarrow> string res" where
    "to_toml = (\<lambda>m. if m = projr (extract_manifest_from_wasm []) then Inr ''m'' else Inl ''e'')"
  define of_toml :: "string \<Rightarrow> manifest res" where "of_toml = (\<lambda>t. extract_manifest_from_wasm [])"
  have ok: "toml_ok to_toml of_toml"
    by (auto simp: toml_ok_def to_toml_def of_toml_def extract_manifest_from_wasm_def split: if_splits)
  let ?ops = "[Install no_faults (Bytes ''w'') ''u'' True, Disable ''placeholder'']"
  let ?st = "fold (exec_plugin to_toml) ?ops \<lparr>plugin_registry = Map.empty, plugin_dirs = Map.empty\<rparr>"
  have run: "dom (plugin_dirs ?st) = {''placeholder''}" "plugin_registry ?st ''placeholder'' \<noteq> None"
    by (simp_all add: install_plugin_def download_plugin_wasm_def extract_manifest_from_wasm_def
        verify_plugin_signature_def to_toml_def disable_plugin_def Let_def)
  have l: "list_all (\<lambda>op. \<not> removal_fails op) ?ops" by simp
  have d: "set [''placeholder''] = dom (plugin_dirs ?st)" using run(1) by simp
  from plugins_after_restart [OF ok l refl d, of no_faults "''f''" JNull] show ?thesis
  proof (elim exE conjE)
    fix st' assume i: "init_plugins of_toml no_faults True None [''placeholder'']
        \<lparr>plugin_registry = Map.empty, plugin_dirs = plugin_dirs ?st\<rparr> = (st', Inr ())"
      and c: "\<forall>i. is_ok (call_plugin_function i ''f'' JNull st') = (plugin_registry ?st i \<noteq> None)"
    have "is_ok (call_plugin_function ''placeholder'' ''f'' JNull st')" using c run(2) by blast
    then show ?thesis using i by blast
  qed
qed

end
