(* ===== verification/Skills.thy ===== *)
theory Skills
  imports Json_Value
begin

text \<open>
  Skills and the frontend's files: \<open>skills.rs\<close>, \<open>skills_endpoints.rs\<close> and \<open>static_files.rs\<close> under
  \<open>src-tauri/src/server\<close>. The user's skills directory is a list of file names with their contents, in
  the order in which it is read; \<open>None\<close> is a file that cannot be read as text. The frontend's files,
  embedded by the crate rust-embed, are an argument.
\<close>

section \<open>Front matter\<close>

text \<open>The lines between the first line and the next that starts with three dashes.\<close>

fun until_dashes :: "string list \<Rightarrow> string list option" where
  "until_dashes [] = None"
| "until_dashes (l # ls) = (if starts_with l ''---'' then Some [] else map_option (Cons l) (until_dashes ls))"

text \<open>A line with a colon gives a key and a value without quotes around it; the last one of a key
  counts.\<close>

definition frontmatter_line :: "string \<Rightarrow> (string \<rightharpoonup> string) \<Rightarrow> string \<rightharpoonup> string" where
  "frontmatter_line l fm =
     (case find_char (CHR '':'') l of
        None \<Rightarrow> fm
      | Some i \<Rightarrow>
          (let key = trim (take i l);
               value = trim_matches (\<lambda>c. c = CHR 0x22 \<or> c = CHR 0x27) (trim (drop (i + 1) l)) in
           if key = [] then fm else fm(key \<mapsto> value)))"

definition parse_frontmatter :: "string \<Rightarrow> (string \<rightharpoonup> string) option" where
  "parse_frontmatter content =
     (case str_lines content of
        [] \<Rightarrow> None
      | l # ls \<Rightarrow>
          if \<not> starts_with l ''---'' then None
          else map_option (\<lambda>body. fold frontmatter_line body Map.empty) (until_dashes ls))"

section \<open>Skills\<close>

record skill_entry =
  sk_id :: string
  sk_name :: string
  sk_description :: string
  sk_category :: string
  sk_source :: string
  sk_path :: string

definition builtin_examples :: "skill_entry list" where
  "builtin_examples =
     [\<lparr>sk_id = ''example/code-review'', sk_name = ''code-review'',
       sk_description = ''Review code for bugs, style issues, and improvements. Use when the user asks to review, check, or critique code.'',
       sk_category = ''Engineering'', sk_source = ''example'', sk_path = []\<rparr>,
      \<lparr>sk_id = ''example/debug-error'', sk_name = ''debug-error'',
       sk_description = ''Systematically diagnose and fix errors or unexpected behavior. Use when the user reports a bug, error message, or unexpected output.'',
       sk_category = ''Engineering'', sk_source = ''example'', sk_path = []\<rparr>]"

definition derive_category :: "string \<Rightarrow> string option \<Rightarrow> string" where
  "derive_category sl fm_category =
     (case fm_category of
        Some c \<Rightarrow> c
      | None \<Rightarrow>
          if sl \<in> {''code-review'', ''debug'', ''architecture'', ''documentation''} then ''Engineering''
          else if list_ex (starts_with sl) [''gws-'', ''recipe-'', ''persona-''] then ''Google Workspace''
          else if list_ex (starts_with sl) [''azure-'', ''appinsights-'', ''entra-'', ''microsoft-''] then ''Azure''
          else ''Other'')"

definition user_skills_dir :: "string option \<Rightarrow> string" where
  "user_skills_dir home = (case home of None \<Rightarrow> ''~'' | Some h \<Rightarrow> h) @ ''/.config/workwithme/skills''"

text \<open>\<open>Path::extension\<close> is \<open>md\<close>: a file called just \<open>.md\<close> has none; then the stem.\<close>

definition md_stem :: "string \<Rightarrow> string option" where
  "md_stem n = (case strip_suffix ''.md'' n of None \<Rightarrow> None | Some s \<Rightarrow> if s = [] then None else Some s)"

type_synonym skill_files = "(string \<times> string option) list"

definition skill_of_file :: "string \<Rightarrow> string \<Rightarrow> string \<times> string option \<Rightarrow> skill_entry option" where
  "skill_of_file dir source file =
     (case file of (n, content) \<Rightarrow>
        (case md_stem n of None \<Rightarrow> None | Some sl \<Rightarrow>
         (case content of None \<Rightarrow> None | Some c \<Rightarrow>
          (case parse_frontmatter c of None \<Rightarrow> None | Some fm \<Rightarrow>
           (case fm ''name'' of None \<Rightarrow> None | Some nm \<Rightarrow>
              Some \<lparr>sk_id = source @ ''/'' @ sl, sk_name = nm,
                    sk_description = (case fm ''description'' of None \<Rightarrow> [] | Some d \<Rightarrow> d),
                    sk_category = derive_category sl (fm ''category''), sk_source = source,
                    sk_path = dir @ ''/'' @ n\<rparr>)))))"

text \<open>\<open>None\<close>: the directory is missing or cannot be read.\<close>

definition scan_skills_dir :: "string \<Rightarrow> string \<Rightarrow> skill_files option \<Rightarrow> skill_entry list" where
  "scan_skills_dir dir source files =
     (case files of None \<Rightarrow> [] | Some fs \<Rightarrow> List.map_filter (skill_of_file dir source) fs)"

definition list_skills :: "string option \<Rightarrow> skill_files option \<Rightarrow> skill_entry list" where
  "list_skills home files = builtin_examples @ scan_skills_dir (user_skills_dir home) ''user'' files"

text \<open>\<open>read_path\<close> reads a file of the whole file system by its path.\<close>

definition get_skill_content ::
  "(string \<Rightarrow> string option) \<Rightarrow> string option \<Rightarrow> string \<Rightarrow> string \<Rightarrow> string option" where
  "get_skill_content read_path home source sl =
     (if source = ''example'' then
        map_option (\<lambda>e. ''---'' @ [CHR 0x0A] @ ''name: '' @ sk_name e @ [CHR 0x0A] @ ''description: '' @ sk_description e @
                        [CHR 0x0A] @ ''---'' @ [CHR 0x0A, CHR 0x0A] @ sk_description e)
          (List.find (\<lambda>e. sk_id e = ''example/'' @ sl) builtin_examples)
      else if source = ''user'' then
        read_path (if starts_with sl ''/'' then sl @ ''.md'' else user_skills_dir home @ ''/'' @ sl @ ''.md'')
      else None)"

definition skill_json :: "skill_entry \<Rightarrow> json" where
  "skill_json s = JObj
     [(''id'', JStr (sk_id s)), (''name'', JStr (sk_name s)), (''description'', JStr (sk_description s)),
      (''category'', JStr (sk_category s)), (''source'', JStr (sk_source s)), (''path'', JStr (sk_path s))]"

definition skills_list :: "string option \<Rightarrow> skill_files option \<Rightarrow> json" where
  "skills_list home files = JObj [(''skills'', JArr (map skill_json (list_skills home files)))]"

definition skills_get :: "(string \<Rightarrow> string option) \<Rightarrow> string option \<Rightarrow> string \<Rightarrow> string \<Rightarrow> json" where
  "skills_get read_path home source sl =
     (case get_skill_content read_path home source sl of
        Some c \<Rightarrow> ok_body [(''content'', JStr c)] | None \<Rightarrow> err_body ''Skill not found'')"

section \<open>The frontend's files\<close>

definition mime_table :: "(string \<times> string) list" where
  "mime_table =
     [(''.html'', ''text/html; charset=utf-8''), (''.js'', ''application/javascript; charset=utf-8''),
      (''.mjs'', ''application/javascript; charset=utf-8''), (''.css'', ''text/css; charset=utf-8''),
      (''.json'', ''application/json''), (''.png'', ''image/png''), (''.jpg'', ''image/jpeg''),
      (''.jpeg'', ''image/jpeg''), (''.gif'', ''image/gif''), (''.webp'', ''image/webp''),
      (''.svg'', ''image/svg+xml; charset=utf-8''), (''.woff'', ''font/woff''), (''.woff2'', ''font/woff2''),
      (''.ttf'', ''font/ttf''), (''.otf'', ''font/otf''), (''.map'', ''application/json'')]"

definition get_mime_type :: "string \<Rightarrow> string" where
  "get_mime_type path =
     (case List.find (\<lambda>(ext, m). ends_with path ext) mime_table of
        Some (ext, m) \<Rightarrow> m | None \<Rightarrow> ''application/octet-stream'')"

text \<open>Status, content type and data.\<close>

definition serve_static :: "(string \<Rightarrow> string option) \<Rightarrow> string \<Rightarrow> nat \<times> string \<times> string" where
  "serve_static assets path =
     (let p = dropWhile (\<lambda>c. c = CHR ''/'') path;
          a = (if p = [] \<or> CHR ''.'' \<notin> set p then ''index.html'' else p) in
      case assets a of
        Some content \<Rightarrow> (200, get_mime_type a, content)
      | None \<Rightarrow>
          (case assets ''index.html'' of
             Some content \<Rightarrow> (200, ''text/html; charset=utf-8'', content)
           | None \<Rightarrow> (404, ''text/plain; charset=utf-8'', ''404 Not Found'')))"

section \<open>Listed skills can be opened\<close>

text \<open>The id of the skill is its source and a name under which its content is answered; the front
  matter of that content says the name and the description that are listed.\<close>

definition shows_skill :: "string \<Rightarrow> skill_entry \<Rightarrow> bool" where
  "shows_skill c e =
     (case parse_frontmatter c of
        None \<Rightarrow> False
      | Some fm \<Rightarrow> fm ''name'' = Some (sk_name e) \<and>
          sk_description e = (case fm ''description'' of None \<Rightarrow> [] | Some d \<Rightarrow> d))"

definition opens :: "(string \<Rightarrow> string option) \<Rightarrow> string option \<Rightarrow> skill_entry \<Rightarrow> bool" where
  "opens read_path home e \<longleftrightarrow> (\<exists>sl c. sk_id e = sk_source e @ ''/'' @ sl \<and> CHR ''/'' \<notin> set sl \<and>
     get_skill_content read_path home (sk_source e) sl = Some c \<and> shows_skill c e)"

definition example_content :: "skill_entry \<Rightarrow> string" where
  "example_content e = ''---'' @ [CHR 0x0A] @ ''name: '' @ sk_name e @ [CHR 0x0A] @ ''description: '' @ sk_description e @
     [CHR 0x0A] @ ''---'' @ [CHR 0x0A, CHR 0x0A] @ sk_description e"

lemma examples_shown: "list_all (\<lambda>e. shows_skill (example_content e) e) builtin_examples"
  by code_simp

lemma examples_found:
  "get_skill_content rp home ''example'' ''code-review'' = Some (example_content (builtin_examples ! 0))"
  "get_skill_content rp home ''example'' ''debug-error'' = Some (example_content (builtin_examples ! 1))"
  by (simp_all add: get_skill_content_def builtin_examples_def example_content_def)

lemma builtin_opens: "e \<in> set builtin_examples \<Longrightarrow> opens rp home e"
proof -
  assume e: "e \<in> set builtin_examples"
  have s: "shows_skill (example_content e) e" using examples_shown e by (simp add: list_all_iff)
  have "\<exists>sl. sk_id e = sk_source e @ ''/'' @ sl \<and> CHR ''/'' \<notin> set sl \<and>
      get_skill_content rp home (sk_source e) sl = Some (example_content e)"
  proof (cases "e = builtin_examples ! 0")
    case True
    then show ?thesis using examples_found(1) [of rp home]
      by (intro exI [of _ "''code-review''"]) (simp add: builtin_examples_def)
  next
    case False
    then have "e = builtin_examples ! 1" using e by (auto simp: builtin_examples_def)
    then show ?thesis using examples_found(2) [of rp home]
      by (intro exI [of _ "''debug-error''"]) (simp add: builtin_examples_def)
  qed
  then show ?thesis using s unfolding opens_def by blast
qed

lemma skill_of_file_opens:
  assumes "skill_of_file (user_skills_dir home) ''user'' (n, content) = Some e" "CHR ''/'' \<notin> set n"
    and "read_path (user_skills_dir home @ ''/'' @ n) = content"
  shows "opens read_path home e"
proof -
  obtain sl c fm where f: "md_stem n = Some sl" "content = Some c" "parse_frontmatter c = Some fm"
    "fm ''name'' = Some (sk_name e)" "sk_id e = ''user/'' @ sl" "sk_source e = ''user''"
    "sk_description e = (case fm ''description'' of None \<Rightarrow> [] | Some d \<Rightarrow> d)"
    using assms(1) by (auto simp: skill_of_file_def split: option.splits)
  have n: "n = sl @ ''.md''" using f(1) by (auto simp: md_stem_def strip_suffix_eq_Some split: option.splits if_splits)
  then have sl: "CHR ''/'' \<notin> set sl" using assms(2) by simp
  then have "\<not> starts_with sl ''/''" by (cases sl) auto
  then have "get_skill_content read_path home ''user'' sl = Some c"
    using assms(3) f(2) n by (simp add: get_skill_content_def)
  moreover have "shows_skill c e" using f by (simp add: shows_skill_def)
  ultimately show ?thesis using f(5,6) sl unfolding opens_def by auto
qed

text \<open>Every listed skill can be opened. Whatever files the user's directory holds, each skill of
  the list, built in or the user's, has an id made of its source and a name without a slash; asking
  for them answers a text whose front matter has the name and the description that were listed. A
  name with slashes, which the list never has, is not refused: it reads any \<open>.md\<close> file.\<close>

theorem listed_skills_open:
  assumes "e \<in> set (list_skills home (Some files))"
    and "list_all (\<lambda>(n, content). CHR ''/'' \<notin> set n \<and> read_path (user_skills_dir home @ ''/'' @ n) = content) files"
  shows "opens read_path home e \<and>
    get_skill_content read_path home ''user'' (''../'' @ sl) = read_path (user_skills_dir home @ ''/../'' @ sl @ ''.md'')"
proof
  show "opens read_path home e"
  proof (cases "e \<in> set builtin_examples")
    case True
    then show ?thesis by (rule builtin_opens)
  next
    case False
    then obtain n content where "(n, content) \<in> set files"
      "skill_of_file (user_skills_dir home) ''user'' (n, content) = Some e"
      using assms(1) by (auto simp: list_skills_def scan_skills_dir_def map_filter_def)
    then show ?thesis using assms(2) by (intro skill_of_file_opens) (auto simp: list_all_iff)
  qed
  show "get_skill_content read_path home ''user'' (''../'' @ sl) = read_path (user_skills_dir home @ ''/../'' @ sl @ ''.md'')"
    by (simp add: get_skill_content_def)
qed

lemma listed_skills_open_witness:
  "let c = ''---'' @ [CHR 0x0A] @ ''name: n'' @ [CHR 0x0A] @ ''---'' in
   \<exists>e. e \<in> set (list_skills None (Some [(''s.md'', Some c)])) \<and> sk_source e = ''user'' \<and> opens (\<lambda>_. Some c) None e"
proof -
  define c where "c = ''---'' @ [CHR 0x0A] @ ''name: n'' @ [CHR 0x0A] @ ''---''"
  define e where "e = the (skill_of_file (user_skills_dir None) ''user'' (''s.md'', Some c))"
  have "case skill_of_file (user_skills_dir None) ''user'' (''s.md'', Some c) of None \<Rightarrow> False | Some e \<Rightarrow> sk_source e = ''user''"
    unfolding c_def by code_simp
  then have s: "skill_of_file (user_skills_dir None) ''user'' (''s.md'', Some c) = Some e" "sk_source e = ''user''"
    by (auto simp: e_def split: option.splits)
  then have m: "e \<in> set (list_skills None (Some [(''s.md'', Some c)]))"
    by (simp add: list_skills_def scan_skills_dir_def map_filter_simps)
  have "opens (\<lambda>_. Some c) None e"
    using listed_skills_open [OF m, of "\<lambda>_. Some c" "[]"] by simp
  then show ?thesis using m s(2) unfolding Let_def c_def by blast
qed

text \<open>Whatever is asked for, the frontend's index page is the answer where no file is found.\<close>

lemma static_fallback:
  "assets ''index.html'' = Some page \<Longrightarrow> fst (serve_static assets path) = 200 \<and>
     (CHR ''.'' \<notin> set path \<longrightarrow> serve_static assets path = (200, ''text/html; charset=utf-8'', page))"
proof (intro conjI impI)
  assume page: "assets ''index.html'' = Some page"
  then show "fst (serve_static assets path) = 200" by (auto simp: serve_static_def Let_def split: option.splits)
  assume "CHR ''.'' \<notin> set path"
  then have "CHR ''.'' \<notin> set (dropWhile (\<lambda>c. c = CHR ''/'') path)" by (auto dest: set_dropWhileD)
  moreover have "get_mime_type ''index.html'' = ''text/html; charset=utf-8''" by code_simp
  ultimately show "serve_static assets path = (200, ''text/html; charset=utf-8'', page)"
    using page by (simp add: serve_static_def Let_def)
qed

end
