(* ===== verification/Llm.thy ===== *)
theory Llm
  imports Settings
begin

text \<open>
  The language model of the meetings: \<open>src-tauri/src/llm_config.rs\<close>. The file of the configuration is
  what \<open>Settings\<close> calls a settings file. Arguments are \<open>parse_url\<close> (the crate url: scheme and host),
  the keychain, and \<open>http\<close>, which answers a request: an error, or a status, the body as text and as
  JSON. A call gives the requests it made, in order, and its result.
\<close>

datatype llm_provider = Anthropic | OpenAiCompatible

record llm_config =
  provider :: llm_provider
  base_url :: string
  model :: string
  api_key_name :: string

definition default_llm :: llm_config where
  "default_llm =
     \<lparr>provider = Anthropic, base_url = ''https://api.anthropic.com/v1'', model = ''claude-sonnet-4-6'',
      api_key_name = ''anthropic-api-key''\<rparr>"

section \<open>The configuration\<close>

definition provider_json :: "llm_provider \<Rightarrow> json" where
  "provider_json p = JStr (case p of Anthropic \<Rightarrow> ''anthropic'' | OpenAiCompatible \<Rightarrow> ''open_ai_compatible'')"

definition llm_json :: "llm_config \<Rightarrow> json" where
  "llm_json c = JObj
     [(''provider'', provider_json (provider c)), (''base_url'', JStr (base_url c)), (''model'', JStr (model c)),
      (''api_key_name'', JStr (api_key_name c))]"

definition llm_of_json :: "json \<Rightarrow> llm_config option" where
  "llm_of_json j =
     (case (jget_str ''provider'' j, jget_str ''base_url'' j, jget_str ''model'' j, jget_str ''api_key_name'' j) of
        (Some p, Some b, Some m, Some k) \<Rightarrow>
          if p = ''anthropic'' then Some \<lparr>provider = Anthropic, base_url = b, model = m, api_key_name = k\<rparr>
          else if p = ''open_ai_compatible''
            then Some \<lparr>provider = OpenAiCompatible, base_url = b, model = m, api_key_name = k\<rparr>
          else None
      | _ \<Rightarrow> None)"

definition load_config :: "settings_file \<Rightarrow> llm_config" where
  "load_config f =
     (case f of Stored j \<Rightarrow> (case llm_of_json j of None \<Rightarrow> default_llm | Some c \<Rightarrow> c) | _ \<Rightarrow> default_llm)"

definition save_config :: "disk \<Rightarrow> llm_config \<Rightarrow> settings_file \<Rightarrow> settings_file \<times> unit res" where
  "save_config d c f =
     (case mkdir_error d of Some e \<Rightarrow> (f, Inl (''failed to create config dir: '' @ e)) | None \<Rightarrow>
      (case write_error d of Some e \<Rightarrow> (f, Inl (''failed to write LLM config: '' @ e)) | None \<Rightarrow>
         (Stored (llm_json c), Inr ())))"

section \<open>URLs and keys\<close>

definition validate_base_url :: "(string \<Rightarrow> string + (string \<times> string option)) \<Rightarrow> string \<Rightarrow> unit res" where
  "validate_base_url parse_url u =
     (case parse_url u of
        Inl e \<Rightarrow> Inl (''invalid base_url '' @ [CHR 0x27] @ u @ [CHR 0x27] @ '': '' @ e)
      | Inr (scheme, host) \<Rightarrow>
          if scheme = ''https'' then Inr ()
          else if scheme = ''http'' \<and> host \<in> Some ` {''localhost'', ''127.0.0.1'', ''[::1]'', ''::1''} then Inr ()
          else Inl (''base_url must use https:// or http://localhost (got: '' @ u @ '')''))"

text \<open>What opening the entry and reading the password give.\<close>

datatype key_answer = KeyAccessFails string | KeyMissing string | KeyIs string

definition get_api_key :: "(string \<Rightarrow> key_answer) \<Rightarrow> llm_config \<Rightarrow> string res" where
  "get_api_key keys c =
     (case keys (api_key_name c) of
        KeyAccessFails e \<Rightarrow> Inl (''keychain access error: '' @ e)
      | KeyMissing e \<Rightarrow> Inl (''API key '' @ [CHR 0x27] @ api_key_name c @ [CHR 0x27] @ '' not found in keychain: '' @ e)
      | KeyIs k \<Rightarrow> Inr k)"

section \<open>Requests\<close>

record llm_request =
  rq_post :: bool
  rq_url :: string
  rq_headers :: "(string \<times> string) list"
  rq_body :: "json option"

record llm_reply =
  rp_status :: nat
  rp_text :: "string option"
  rp_json :: "string + json"

definition apply_auth :: "llm_config \<Rightarrow> string \<Rightarrow> llm_request \<Rightarrow> llm_request" where
  "apply_auth c key r =
     (case provider c of
        Anthropic \<Rightarrow>
          r\<lparr>rq_headers := rq_headers r @ [(''x-api-key'', key), (''anthropic-version'', ''2023-06-01'')]\<rparr>
      | OpenAiCompatible \<Rightarrow>
          if key = [] then r else r\<lparr>rq_headers := rq_headers r @ [(''Authorization'', ''Bearer '' @ key)]\<rparr>)"

definition is_success :: "nat \<Rightarrow> bool" where
  "is_success code = (200 \<le> code \<and> code < 300)"

definition message_json :: "string \<Rightarrow> string \<Rightarrow> json" where
  "message_json role content = JObj [(''role'', JStr role), (''content'', JStr content)]"

definition anthropic_request :: "llm_config \<Rightarrow> string \<Rightarrow> string option \<Rightarrow> string \<Rightarrow> nat \<Rightarrow> llm_request" where
  "anthropic_request c key sys user max_tokens =
     (let r = apply_auth c key \<lparr>rq_post = True, rq_url = base_url c @ ''/messages'', rq_headers = [], rq_body = None\<rparr> in
      r\<lparr>rq_headers := rq_headers r @ [(''content-type'', ''application/json'')],
        rq_body := Some (JObj
          ([(''model'', JStr (model c)), (''max_tokens'', JInt (int max_tokens)),
            (''messages'', JArr [message_json ''user'' user])] @
           (case sys of None \<Rightarrow> [] | Some s \<Rightarrow> [(''system'', JStr s)])))\<rparr>)"

definition openai_request :: "llm_config \<Rightarrow> string \<Rightarrow> string option \<Rightarrow> string \<Rightarrow> nat \<Rightarrow> llm_request" where
  "openai_request c key sys user max_tokens =
     apply_auth c key
       \<lparr>rq_post = True, rq_url = base_url c @ ''/chat/completions'',
        rq_headers = [(''content-type'', ''application/json'')],
        rq_body = Some (JObj
          [(''model'', JStr (model c)), (''max_tokens'', JInt (int max_tokens)),
           (''messages'', JArr ((case sys of None \<Rightarrow> [] | Some s \<Rightarrow> [message_json ''system'' s]) @
                                 [message_json ''user'' user]))])\<rparr>"

text \<open>serde reads the two replies: every item of the list must have the text; the first is taken.\<close>

definition all_some :: "'a option list \<Rightarrow> 'a list option" where
  "all_some xs = (if None \<in> set xs then None else Some (map the xs))"

definition anthropic_texts :: "json \<Rightarrow> string list option" where
  "anthropic_texts j = Option.bind (Option.bind (jget ''content'' j) as_array) (\<lambda>xs. all_some (map (jget_str ''text'') xs))"

definition openai_texts :: "json \<Rightarrow> string list option" where
  "openai_texts j = Option.bind (Option.bind (jget ''choices'' j) as_array)
     (\<lambda>xs. all_some (map (\<lambda>x. Option.bind (jget ''message'' x) (jget_str ''content'')) xs))"

text \<open>\<open>invalid\<close> is serde's message for a reply of another shape, \<open>show_status\<close> a status as text.\<close>

definition read_reply ::
  "string \<Rightarrow> string \<Rightarrow> string \<Rightarrow> string \<Rightarrow> string \<Rightarrow> (nat \<Rightarrow> string) \<Rightarrow> (json \<Rightarrow> string list option) \<Rightarrow> string + llm_reply
     \<Rightarrow> string res" where
  "read_reply failed error parse_failed none_left invalid show_status texts reply =
     (case reply of
        Inl e \<Rightarrow> Inl (failed @ e)
      | Inr rp \<Rightarrow>
          if \<not> is_success (rp_status rp)
            then Inl (error @ show_status (rp_status rp) @ '': '' @ (case rp_text rp of None \<Rightarrow> [] | Some t \<Rightarrow> t))
          else
            (case rp_json rp of
               Inl e \<Rightarrow> Inl (parse_failed @ e)
             | Inr j \<Rightarrow>
                 (case texts j of
                    None \<Rightarrow> Inl (parse_failed @ invalid)
                  | Some [] \<Rightarrow> Inl none_left
                  | Some (t # _) \<Rightarrow> Inr t)))"

definition call_llm ::
  "(string \<Rightarrow> string + (string \<times> string option)) \<Rightarrow> (llm_request \<Rightarrow> string + llm_reply) \<Rightarrow> string \<Rightarrow> (nat \<Rightarrow> string)
     \<Rightarrow> llm_config \<Rightarrow> string \<Rightarrow> string option \<Rightarrow> string \<Rightarrow> nat \<Rightarrow> llm_request list \<times> string res" where
  "call_llm parse_url http invalid show_status c key sys user max_tokens =
     (case validate_base_url parse_url (base_url c) of
        Inl e \<Rightarrow> ([], Inl e)
      | Inr _ \<Rightarrow>
          (case provider c of
             Anthropic \<Rightarrow>
               (let r = anthropic_request c key sys user max_tokens in
                ([r], read_reply ''Anthropic API request failed: '' ''Anthropic API error ''
                   ''failed to parse Anthropic response: '' ''Anthropic returned empty content'' invalid show_status
                   anthropic_texts (http r)))
           | OpenAiCompatible \<Rightarrow>
               (let r = openai_request c key sys user max_tokens in
                ([r], read_reply ''OpenAI-compatible API request failed: '' ''OpenAI-compatible API error ''
                   ''failed to parse OpenAI-compatible response: '' ''OpenAI-compatible API returned no choices''
                   invalid show_status openai_texts (http r)))))"

section \<open>Commands\<close>

definition llm_get_config :: "settings_file \<Rightarrow> llm_config res" where
  "llm_get_config f = Inr (load_config f)"

definition llm_save_config :: "disk \<Rightarrow> llm_config \<Rightarrow> settings_file \<Rightarrow> settings_file \<times> unit res" where
  "llm_save_config d c f = save_config d c f"

definition llm_set_api_key ::
  "string option \<Rightarrow> string option \<Rightarrow> string \<Rightarrow> string \<Rightarrow> (string \<Rightarrow> key_answer) \<Rightarrow> (string \<Rightarrow> key_answer) \<times> unit res" where
  "llm_set_api_key access_error store_error name key keys =
     (case access_error of
        Some e \<Rightarrow> (keys, Inl (''keychain access error: '' @ e))
      | None \<Rightarrow>
          (case store_error of
             Some e \<Rightarrow> (keys, Inl (''failed to store API key '' @ [CHR 0x27] @ name @ [CHR 0x27] @ '' in keychain: '' @ e))
           | None \<Rightarrow> (keys(name := KeyIs key), Inr ())))"

definition llm_test_connection ::
  "(string \<Rightarrow> string + (string \<times> string option)) \<Rightarrow> (llm_request \<Rightarrow> string + llm_reply) \<Rightarrow> (nat \<Rightarrow> string)
     \<Rightarrow> (string \<Rightarrow> key_answer) \<Rightarrow> settings_file \<Rightarrow> llm_request list \<times> string res" where
  "llm_test_connection parse_url http show_status keys f =
     (let c = load_config f in
      case get_api_key keys c of
        Inl e \<Rightarrow> ([], Inl e)
      | Inr key \<Rightarrow>
          (case validate_base_url parse_url (base_url c) of
             Inl e \<Rightarrow> ([], Inl e)
           | Inr _ \<Rightarrow>
               (let r = apply_auth c key \<lparr>rq_post = False, rq_url = base_url c @ ''/models'', rq_headers = [], rq_body = None\<rparr> in
                ([r],
                 (case http r of
                    Inl e \<Rightarrow> Inl (''connection test failed: '' @ e)
                  | Inr rp \<Rightarrow>
                      if \<not> is_success (rp_status rp)
                        then Inl (''API error '' @ show_status (rp_status rp) @ '': '' @
                                  (case rp_text rp of None \<Rightarrow> [] | Some t \<Rightarrow> t))
                      else Inr ''ok'')))))"

section \<open>Where the key goes\<close>

text \<open>The host may get a key: TLS, or the machine itself.\<close>

definition trusted :: "(string \<Rightarrow> string + (string \<times> string option)) \<Rightarrow> string \<Rightarrow> bool" where
  "trusted parse_url u \<longleftrightarrow> (\<exists>host. parse_url u = Inr (''https'', host)) \<or>
     (\<exists>h \<in> {''localhost'', ''127.0.0.1'', ''[::1]'', ''::1''}. parse_url u = Inr (''http'', Some h))"

lemma validate_trusted: "validate_base_url parse_url u = Inr v \<Longrightarrow> trusted parse_url u"
  by (auto simp: validate_base_url_def trusted_def split: sum.splits prod.splits if_splits)

lemma load_saved [simp]: "load_config (Stored (llm_json c)) = c"
  by (cases "provider c") (simp_all add: load_config_def llm_of_json_def llm_json_def provider_json_def jget_str_def)

interpretation llm_file: config_file load_config save_config
proof
  fix d and c :: llm_config and f
  show "disk_works d \<Longrightarrow> load_config (fst (save_config d c f)) = c" by (simp add: disk_works_def save_config_def)
  show "is_ok (snd (save_config d c f)) \<longleftrightarrow> disk_works d"
    by (simp add: disk_works_def save_config_def split: option.split)
  show "\<not> disk_works d \<Longrightarrow> fst (save_config d c f) = f"
    by (auto simp: disk_works_def save_config_def split: option.split)
qed

text \<open>A request that is made for the configuration: to its base URL, with its key and no other.\<close>

definition proper_request :: "llm_config \<Rightarrow> string \<Rightarrow> llm_request \<Rightarrow> bool" where
  "proper_request c key r \<longleftrightarrow> prefix (base_url c) (rq_url r) \<and>
     set (rq_headers r) \<subseteq> {(''content-type'', ''application/json''), (''anthropic-version'', ''2023-06-01'')} \<union>
       (case provider c of Anthropic \<Rightarrow> {(''x-api-key'', key)}
          | OpenAiCompatible \<Rightarrow> if key = [] then {} else {(''Authorization'', ''Bearer '' @ key)})"


end
