(* ===== verification/Capture.thy ===== *)
theory Capture
  imports Rust_Prelude
begin

text \<open>
  Screenshots: \<open>src-tauri/src/capture.rs\<close> and \<open>window_capture.rs\<close>. The commands run on the main
  thread, one after the other. Arguments are the screen (\<open>screens\<close>, \<open>grab\<close>), the encoders of the
  crates image and base64, the program \<open>screencapture\<close>, and \<open>draft\<close>, what storing the image in the
  library answers (\<open>save_draft_internal\<close> of \<open>Library\<close>). Images are strings: their base64 text.
\<close>

section \<open>A region of the screen\<close>

record screen =
  origin_x :: "string + 32 word"
  origin_y :: "string + 32 word"

text \<open>Pixels: width, height and bytes; \<open>from_raw\<close> refuses a buffer that is too short.\<close>

type_synonym pixels = "nat \<times> nat \<times> 8 word list"

definition from_raw :: "pixels \<Rightarrow> pixels option" where
  "from_raw p = (case p of (w, h, raw) \<Rightarrow> if length raw < w * h * 4 then None else Some p)"

text \<open>\<open>(x - mx).max(0) as u32\<close>: the difference of two \<open>i32\<close> wraps; a negative one becomes 0.\<close>

definition relative :: "32 word \<Rightarrow> 32 word \<Rightarrow> 32 word" where
  "relative x mx = (if sint (x - mx) < 0 then 0 else x - mx)"

text \<open>\<open>encode\<close> is the PNG encoder with the base64 text of its bytes.\<close>

definition encode_png :: "(pixels \<Rightarrow> string res) \<Rightarrow> pixels \<Rightarrow> string res" where
  "encode_png encode p =
     (case from_raw p of
        None \<Rightarrow> Inl ''failed to wrap capture buffer''
      | Some q \<Rightarrow> map_err (\<lambda>e. ''encode failed: '' @ e) (encode q))"

definition capture_region ::
  "(32 word \<Rightarrow> 32 word \<Rightarrow> string + screen) \<Rightarrow> (screen \<Rightarrow> 32 word \<Rightarrow> 32 word \<Rightarrow> 32 word \<Rightarrow> 32 word \<Rightarrow> string + pixels)
     \<Rightarrow> (pixels \<Rightarrow> string res) \<Rightarrow> 32 word \<Rightarrow> 32 word \<Rightarrow> 32 word \<Rightarrow> 32 word \<Rightarrow> string res" where
  "capture_region from_point grab encode x y width height =
     (if width = 0 \<or> height = 0 then Inl ''selection too small to capture''
      else
        (case from_point x y of Inl e \<Rightarrow> Inl (''screen lookup failed: '' @ e) | Inr m \<Rightarrow>
         (case origin_x m of Inl e \<Rightarrow> Inl (''monitor origin x: '' @ e) | Inr mx \<Rightarrow>
          (case origin_y m of Inl e \<Rightarrow> Inl (''monitor origin y: '' @ e) | Inr my \<Rightarrow>
           (case grab m (relative x mx) (relative y my) width height of
              Inl e \<Rightarrow> Inl (''capture failed: '' @ e)
            | Inr p \<Rightarrow> encode_png encode p)))))"

section \<open>The clipboard and files\<close>

text \<open>\<open>decode\<close> is reading an image from bytes, \<open>set_image\<close> the clipboard, with an error of opening or
  of setting.\<close>

definition copy_image_to_clipboard ::
  "(string \<Rightarrow> 'b res) \<Rightarrow> ('b \<Rightarrow> pixels res) \<Rightarrow> faults \<Rightarrow> string \<Rightarrow> pixels option \<Rightarrow> pixels option \<times> unit res" where
  "copy_image_to_clipboard base64 decode f img clip =
     (case base64 img of Inl e \<Rightarrow> (clip, Inl (''base64 decode: '' @ e)) | Inr raw \<Rightarrow>
      (case decode raw of Inl e \<Rightarrow> (clip, Inl (''image decode: '' @ e)) | Inr p \<Rightarrow>
       (case f 0 of Some e \<Rightarrow> (clip, Inl (''clipboard: '' @ e)) | None \<Rightarrow>
        (case f 1 of Some e \<Rightarrow> (clip, Inl (''set_image: '' @ e)) | None \<Rightarrow> (Some p, Inr ())))))"

definition copy_image_to_clipboard_from_path ::
  "(string \<Rightarrow> 'b res) \<Rightarrow> ('b \<Rightarrow> pixels res) \<Rightarrow> faults \<Rightarrow> string \<Rightarrow> pixels option \<Rightarrow> pixels option \<times> unit res" where
  "copy_image_to_clipboard_from_path read decode f path clip =
     (case read path of Inl e \<Rightarrow> (clip, Inl (''read: '' @ e)) | Inr raw \<Rightarrow>
      (case decode raw of Inl e \<Rightarrow> (clip, Inl (''decode: '' @ e)) | Inr p \<Rightarrow>
       (case f 0 of Some e \<Rightarrow> (clip, Inl (''clipboard: '' @ e)) | None \<Rightarrow>
        (case f 1 of Some e \<Rightarrow> (clip, Inl (''set: '' @ e)) | None \<Rightarrow> (Some p, Inr ())))))"

text \<open>\<open>chosen\<close> is the path of the dialog, \<open>None\<close> when it is cancelled; the answer tells what is
  written where.\<close>

definition save_image_to_file ::
  "(string \<Rightarrow> 'b res) \<Rightarrow> ('b \<Rightarrow> pixels res) \<Rightarrow> string option \<Rightarrow> string option \<Rightarrow> string \<Rightarrow> (string \<times> pixels) option \<times> string res" where
  "save_image_to_file base64 decode chosen save_error img =
     (case base64 img of Inl e \<Rightarrow> (None, Inl (''base64 decode: '' @ e)) | Inr raw \<Rightarrow>
      (case decode raw of Inl e \<Rightarrow> (None, Inl (''image decode: '' @ e)) | Inr p \<Rightarrow>
       (case chosen of None \<Rightarrow> (None, Inl ''Save cancelled'') | Some path \<Rightarrow>
        (case save_error of Some e \<Rightarrow> (None, Inl (''save failed: '' @ e)) | None \<Rightarrow> (Some (path, p), Inr path)))))"

section \<open>The editor's image\<close>

record capture_state =
  pending_image :: "string option"
  pending_library_id :: "string option"
  editor_open :: bool

definition capture_state_new :: capture_state where
  "capture_state_new = \<lparr>pending_image = None, pending_library_id = None, editor_open = False\<rparr>"

text \<open>\<open>draft\<close> is asked only when there is no library id; \<open>build_error\<close> only when no editor is open.\<close>

definition open_editor_window ::
  "string res \<Rightarrow> string option \<Rightarrow> string \<Rightarrow> string option \<Rightarrow> capture_state \<Rightarrow> capture_state \<times> unit res" where
  "open_editor_window draft build_error img library_id st =
     (let i = (case library_id of Some i \<Rightarrow> Some i | None \<Rightarrow> res_ok draft);
          st1 = st\<lparr>pending_image := Some img, pending_library_id := i\<rparr> in
      if editor_open st then (st1, Inr ())
      else
        (case build_error of
           Some e \<Rightarrow> (st1, Inl (''failed to create editor: '' @ e))
         | None \<Rightarrow> (st1\<lparr>editor_open := True\<rparr>, Inr ())))"

definition get_captured_image :: "capture_state \<Rightarrow> capture_state \<times> (string \<times> string option) option" where
  "get_captured_image st =
     (case pending_image st of
        None \<Rightarrow> (st, None)
      | Some img \<Rightarrow>
          (st\<lparr>pending_image := None, pending_library_id := None\<rparr>, Some (img, pending_library_id st)))"

text \<open>The screen at the origin, else the first.\<close>

definition primary_screen :: "screen list \<Rightarrow> screen option" where
  "primary_screen ms =
     (case List.find (\<lambda>m. origin_x m = Inr 0 \<and> origin_y m = Inr 0) ms of
        Some m \<Rightarrow> Some m
      | None \<Rightarrow> (case ms of [] \<Rightarrow> None | m # _ \<Rightarrow> Some m))"

text \<open>\<open>draft\<close> stores the image, with the names of the program and the window where there is one; when that
  fails, opening the editor tries again, without names: \<open>retry\<close>.\<close>

definition capture_fullscreen ::
  "string + screen list \<Rightarrow> (screen \<Rightarrow> string + pixels) \<Rightarrow> (pixels \<Rightarrow> string res) \<Rightarrow> (string \<Rightarrow> string res)
     \<Rightarrow> (string \<Rightarrow> string res) \<Rightarrow> string option \<Rightarrow> capture_state \<Rightarrow> capture_state \<times> unit res" where
  "capture_fullscreen screens grab encode draft retry build_error st =
     (case screens of Inl e \<Rightarrow> (st, Inl (''screen lookup: '' @ e)) | Inr ms \<Rightarrow>
      (case primary_screen ms of None \<Rightarrow> (st, Inl ''no screen found'') | Some m \<Rightarrow>
       (case grab m of Inl e \<Rightarrow> (st, Inl (''capture failed: '' @ e)) | Inr p \<Rightarrow>
        (case encode_png encode p of Inl e \<Rightarrow> (st, Inl e) | Inr img \<Rightarrow>
           open_editor_window (retry img) build_error img (res_ok (draft img)) st))))"

section \<open>Windows of other programs\<close>

text \<open>What the system tells of a window; \<open>None\<close> where it does not.\<close>

record window_dict =
  wd_layer :: "int option"
  wd_pid :: "int option"
  wd_number :: "int option"
  wd_owner :: "string option"
  wd_name :: "string option"
  wd_bounds :: "(real option \<times> real option \<times> real option \<times> real option) option"

record window_info =
  wi_id :: nat
  wi_app_name :: string
  wi_title :: string
  wi_x :: real
  wi_y :: real
  wi_width :: real
  wi_height :: real

definition opt_or :: "'a \<Rightarrow> 'a option \<Rightarrow> 'a" where
  "opt_or d v = (case v of None \<Rightarrow> d | Some x \<Rightarrow> x)"

definition window_of :: "int \<Rightarrow> window_dict \<Rightarrow> window_info option" where
  "window_of our_pid d =
     (if opt_or 1 (wd_layer d) \<noteq> 0 then None
      else if opt_or 0 (wd_pid d) = our_pid then None
      else
        (case wd_number d of
           None \<Rightarrow> None
         | Some n \<Rightarrow>
             if n \<le> 0 then None
             else
               (case wd_bounds d of
                  Some (Some x, Some y, Some w, Some h) \<Rightarrow>
                    if w < 1 \<or> h < 1 then None
                    else if x < -10000 \<or> y < -10000 then None
                    else Some \<lparr>wi_id = nat n, wi_app_name = opt_or [] (wd_owner d), wi_title = opt_or [] (wd_name d),
                               wi_x = x, wi_y = y, wi_width = w, wi_height = h\<rparr>
                | _ \<Rightarrow> None)))"

text \<open>\<open>None\<close>: the system gives no list; an entry of the list may be missing too.\<close>

definition collect_windows :: "int \<Rightarrow> window_dict option list option \<Rightarrow> window_info list" where
  "collect_windows our_pid arr =
     (case arr of None \<Rightarrow> [] | Some ds \<Rightarrow> List.map_filter (\<lambda>d. Option.bind d (window_of our_pid)) ds)"

text \<open>\<open>shot\<close> is what \<open>screencapture\<close> does: it does not start, it fails, or it writes a file, which is
  then read (or not).\<close>

datatype shot = NotStarted string | ExitedWith string | Wrote "string res"

definition capture_window ::
  "shot \<Rightarrow> int \<Rightarrow> window_dict option list option \<Rightarrow> (string \<Rightarrow> string \<Rightarrow> string \<Rightarrow> string res)
     \<Rightarrow> (string \<Rightarrow> string res) \<Rightarrow> string option \<Rightarrow> nat \<Rightarrow> capture_state \<Rightarrow> capture_state \<times> unit res" where
  "capture_window sh our_pid arr draft retry build_error window_id st =
     (case sh of
        NotStarted e \<Rightarrow> (st, Inl (''screencapture failed to start: '' @ e))
      | ExitedWith e \<Rightarrow> (st, Inl (''screencapture exited non-zero: '' @ e))
      | Wrote (Inl e) \<Rightarrow> (st, Inl (''read tmp: '' @ e))
      | Wrote (Inr img) \<Rightarrow>
          (let info = List.find (\<lambda>w. wi_id w = window_id) (collect_windows our_pid arr);
               app = (case info of None \<Rightarrow> [] | Some w \<Rightarrow> wi_app_name w);
               title = (case info of None \<Rightarrow> [] | Some w \<Rightarrow> wi_title w) in
           open_editor_window (retry img) build_error img (res_ok (draft img app title)) st))"

section \<open>A capture is shown once\<close>

text \<open>Captures with the id the library gave, and questions of the editor.\<close>

datatype capture_op = Shot "string res" "string option" string "string option" | Ask

fun exec_capture :: "capture_op \<Rightarrow> capture_state \<Rightarrow> capture_state \<times> (string \<times> string option) list" where
  "exec_capture (Shot draft err img i) st = (fst (open_editor_window draft err img i st), [])"
| "exec_capture Ask st =
     (case get_captured_image st of (st', None) \<Rightarrow> (st', []) | (st', Some r) \<Rightarrow> (st', [r]))"

fun shown :: "capture_op list \<Rightarrow> capture_state \<Rightarrow> (string \<times> string option) list" where
  "shown [] st = []"
| "shown (op # ops) st = (case exec_capture op st of (st', rs) \<Rightarrow> rs @ shown ops st')"

text \<open>The captures that an editor should see: each that is followed by a question before the next.\<close>

fun expected :: "(string \<times> string option) option \<Rightarrow> capture_op list \<Rightarrow> (string \<times> string option) list" where
  "expected latest [] = []"
| "expected latest (Shot draft err img i # ops) =
     expected (Some (img, case i of Some j \<Rightarrow> Some j | None \<Rightarrow> res_ok draft)) ops"
| "expected latest (Ask # ops) =
     (case latest of None \<Rightarrow> expected None ops | Some r \<Rightarrow> r # expected None ops)"

lemma shown_expected:
  "shown ops st = expected (map_option (\<lambda>img. (img, pending_library_id st)) (pending_image st)) ops"
proof (induction ops arbitrary: st)
  case (Cons op ops)
  show ?case
  proof (cases op)
    case (Shot draft err img i)
    let ?st = "fst (open_editor_window draft err img i st)"
    have "pending_image ?st = Some img"
      "pending_library_id ?st = (case i of Some j \<Rightarrow> Some j | None \<Rightarrow> res_ok draft)"
      by (auto simp: open_editor_window_def Let_def split: option.split)
    then show ?thesis using Shot Cons.IH [of ?st] by simp
  next
    case Ask
    then show ?thesis using Cons.IH by (cases "pending_image st") (simp_all add: get_captured_image_def)
  qed
qed simp

lemma relative_exact:
  assumes "sint mx \<le> sint x" "sint x - sint mx < 2 ^ 31"
  shows "int (unat (relative x mx)) = sint x - sint mx"
proof -
  have "sint (x - mx) = sint x - sint mx"
    using assms by (subst sint_word_ariths) (simp add: signed_take_bit_int_eq_self)
  moreover from this have "int (unat (x - mx)) = sint (x - mx)"
    using assms uint_sint [of "x - mx"] by (simp add: take_bit_int_eq_self)
  ultimately show ?thesis using assms(1) by (simp add: relative_def)
qed

text \<open>Every screenshot is shown once, with its own library entry. Whatever captures are made and
  whenever the editor asks, the answers are the captures that were the latest when it asked, each
  once, with the id that its own storing gave, at the first or the second attempt; and a selection
  that lies on a screen is grabbed at its distance from the screen's origin.\<close>

theorem captures_shown_once:
  assumes "sint mx \<le> sint x" "sint x - sint mx < 2 ^ 31"
  shows "shown ops capture_state_new = expected None ops \<and> int (unat (relative x mx)) = sint x - sint mx"
  using shown_expected [of ops capture_state_new] relative_exact [OF assms] by (simp add: capture_state_new_def)

lemma captures_shown_once_witness:
  "shown [Shot (Inl ''e'') None ''a'' (Some ''1''), Shot (Inr ''3'') None ''b'' None, Ask, Ask] capture_state_new = [(''b'', Some ''3'')] \<and>
   unat (relative (- 5) (- 1920 :: 32 word)) = 1915"
proof
  have n: "sint (- 1920 :: 32 word) = - 1920" "sint (- 5 :: 32 word) = - 5" by simp_all
  have "sint (- 1920 :: 32 word) \<le> sint (- 5 :: 32 word)" "sint (- 5 :: 32 word) - sint (- 1920 :: 32 word) < 2 ^ 31"
    unfolding n by simp_all
  note facts = captures_shown_once [OF this]
  show "shown [Shot (Inl ''e'') None ''a'' (Some ''1''), Shot (Inr ''3'') None ''b'' None, Ask, Ask] capture_state_new = [(''b'', Some ''3'')]"
    unfolding facts [THEN conjunct1] by simp
  have "int (unat (relative (- 5) (- 1920 :: 32 word))) = 1915" unfolding facts [THEN conjunct2] n by simp
  then show "unat (relative (- 5) (- 1920 :: 32 word)) = 1915" by linarith
qed

end
