(* ===== verification/Windows.thy ===== *)
theory Windows
  imports Shortcuts Recorder Capture
begin

text \<open>
  The windows beside the main one: the openers of \<open>src-tauri/src/lib.rs\<close>, \<open>capture.rs\<close> and
  \<open>recorder.rs\<close>, the tray menu and the global shortcuts that call them.

  Tauri keeps a window under its label until it has been destroyed, which is after \<open>close\<close> has
  returned, and refuses a second one with the same label (so the comment in \<open>open_editor_window\<close>).
  A window that was told to close is \<open>closing\<close>. \<open>builder\<close> says how a build fails: the message for
  a label in use, and any other failure. Opening the screenshot editor is part of \<open>Capture\<close>.
\<close>

section \<open>Windows\<close>

record webview =
  wv_url :: string
  wv_width :: real
  wv_height :: real
  wv_min_size :: "(real \<times> real) option"
  wv_position :: "(real \<times> real) option"
  wv_centred :: bool
  wv_title :: "string option"
  always_on_top :: bool
  decorations :: bool
  transparent :: bool
  skip_taskbar :: bool
  resizable :: bool
  wv_shown :: bool
  closing :: bool

record desktop =
  windows :: "string \<rightharpoonup> webview"
  focus :: "string option"
  overlay_states :: "string list"

record builder =
  label_in_use :: "string \<Rightarrow> string"
  fault :: "string option"

text \<open>\<open>overlay_states\<close> are the events \<open>overlay-state\<close> sent so far. A new window has the focus unless the builder says otherwise.\<close>

definition build :: "builder \<Rightarrow> string \<Rightarrow> bool \<Rightarrow> webview \<Rightarrow> desktop \<Rightarrow> desktop \<times> unit res" where
  "build b label focused w d =
     (if windows d label \<noteq> None then (d, Inl (label_in_use b label))
      else
        (case fault b of
           Some e \<Rightarrow> (d, Inl e)
         | None \<Rightarrow> (d\<lparr>windows := (windows d)(label \<mapsto> w), focus := (if focused then Some label else focus d)\<rparr>, Inr ())))"

definition set_focus :: "string \<Rightarrow> desktop \<Rightarrow> desktop" where
  "set_focus label d = d\<lparr>focus := Some label\<rparr>"

definition show_window :: "string \<Rightarrow> desktop \<Rightarrow> desktop" where
  "show_window label d = d\<lparr>windows := (windows d)(label := map_option (wv_shown_update (\<lambda>_. True)) (windows d label))\<rparr>"

definition hide_window :: "string \<Rightarrow> desktop \<Rightarrow> desktop" where
  "hide_window label d = d\<lparr>windows := (windows d)(label := map_option (wv_shown_update (\<lambda>_. False)) (windows d label))\<rparr>"

definition close_window :: "string \<Rightarrow> desktop \<Rightarrow> desktop" where
  "close_window label d = d\<lparr>windows := (windows d)(label := map_option (closing_update (\<lambda>_. True)) (windows d label))\<rparr>"

definition destroy_window :: "string \<Rightarrow> desktop \<Rightarrow> desktop" where
  "destroy_window label d =
     (case windows d label of
        Some w \<Rightarrow> if closing w then d\<lparr>windows := (windows d)(label := None)\<rparr> else d
      | None \<Rightarrow> d)"

section \<open>Opening them\<close>

text \<open>Overlays cover all screens and are told where they start.\<close>

definition overlay_url :: "string \<Rightarrow> int \<Rightarrow> int \<Rightarrow> string" where
  "overlay_url page x y = page @ ''?ox='' @ show_int x @ ''&oy='' @ show_int y"

definition overlay_window :: "string \<Rightarrow> monitor list \<Rightarrow> webview" where
  "overlay_window page ms =
     (case screen_bounds ms of (min_x, min_y, max_x, max_y) \<Rightarrow>
        \<lparr>wv_url = overlay_url page min_x min_y, wv_width = real_of_int (max_x - min_x),
         wv_height = real_of_int (max_y - min_y), wv_min_size = None,
         wv_position = Some (real_of_int min_x, real_of_int min_y), wv_centred = False, wv_title = None,
         always_on_top = True, decorations = False, transparent = True, skip_taskbar = True, resizable = False,
         wv_shown = True, closing = False\<rparr>)"

definition open_overlay ::
  "string \<Rightarrow> string \<Rightarrow> monitor list \<Rightarrow> builder \<Rightarrow> desktop \<Rightarrow> desktop \<times> unit res" where
  "open_overlay label page ms b d =
     (if windows d label \<noteq> None then (set_focus label d, Inr ())
      else build b label True (overlay_window page ms) d)"

definition open_capture_overlay :: "monitor list \<Rightarrow> builder \<Rightarrow> desktop \<Rightarrow> desktop \<times> unit res" where
  "open_capture_overlay ms b d =
     (case open_overlay ''capture-overlay'' ''capture-overlay.html'' ms b d of
        (d', r) \<Rightarrow> (d', map_err (\<lambda>e. ''failed to create overlay: '' @ e) r))"

definition open_region_select_recording :: "monitor list \<Rightarrow> builder \<Rightarrow> desktop \<Rightarrow> desktop \<times> unit res" where
  "open_region_select_recording ms b d =
     (case open_overlay ''region-select-recording'' ''region-select-recording.html'' ms b d of
        (d', r) \<Rightarrow> (d', map_err (\<lambda>e. ''open region-select-recording: '' @ e) r))"

definition open_window_capture_overlay :: "monitor list \<Rightarrow> builder \<Rightarrow> desktop \<Rightarrow> desktop" where
  "open_window_capture_overlay ms b d = fst (open_overlay ''window-capture-overlay'' ''window-capture.html'' ms b d)"

text \<open>Plain windows are shown and focused when they are there; a failure is only printed.\<close>

definition plain_window :: "string \<Rightarrow> string \<Rightarrow> real \<Rightarrow> real \<Rightarrow> (real \<times> real) option \<Rightarrow> webview" where
  "plain_window page title w h minimum =
     \<lparr>wv_url = page, wv_width = w, wv_height = h, wv_min_size = minimum, wv_position = None, wv_centred = False,
      wv_title = Some title, always_on_top = False, decorations = True, transparent = False, skip_taskbar = False,
      resizable = True, wv_shown = True, closing = False\<rparr>"

definition library_window :: webview where
  "library_window = plain_window ''library.html'' ''Capture Library'' 900 640 (Some (600, 400))"

definition options_window :: webview where
  "options_window = (plain_window ''recording-options.html'' ''Record Screen'' 360 220 None)
     \<lparr>wv_centred := True, always_on_top := True, resizable := False\<rparr>"

definition meeting_window :: webview where
  "meeting_window = plain_window ''meeting.html'' ''Meeting Capture'' 900 640 (Some (700, 480))"

definition memory_window :: webview where
  "memory_window = plain_window ''voice-memory.html'' ''Voice Memory'' 1000 680 (Some (700, 500))"

definition trim_window :: webview where
  "trim_window = plain_window ''trim-editor.html'' ''Trim Recording'' 900 600 None"

definition open_plain :: "string \<Rightarrow> webview \<Rightarrow> builder \<Rightarrow> desktop \<Rightarrow> desktop" where
  "open_plain label w b d =
     (if windows d label \<noteq> None then set_focus label (show_window label d) else fst (build b label True w d))"

definition open_library_window :: "builder \<Rightarrow> desktop \<Rightarrow> desktop" where
  "open_library_window b d = open_plain ''library'' library_window b d"

definition open_recording_options_window :: "builder \<Rightarrow> desktop \<Rightarrow> desktop" where
  "open_recording_options_window b d =
     open_plain ''recording-options'' options_window b d"

definition open_meeting_window :: "builder \<Rightarrow> desktop \<Rightarrow> desktop" where
  "open_meeting_window b d = open_plain ''meeting'' meeting_window b d"

definition open_voice_memory_window :: "builder \<Rightarrow> desktop \<Rightarrow> desktop" where
  "open_voice_memory_window b d =
     open_plain ''voice-memory'' memory_window b d"

text \<open>Pills: small, and at the bottom of the primary monitor, given as width, height and scale.\<close>

definition pill_window :: "string \<Rightarrow> real \<Rightarrow> real \<Rightarrow> bool \<Rightarrow> webview" where
  "pill_window page w h visible =
     \<lparr>wv_url = page, wv_width = w, wv_height = h, wv_min_size = None, wv_position = None, wv_centred = False,
      wv_title = None, always_on_top = True, decorations = False, transparent = True, skip_taskbar = True,
      resizable = False, wv_shown = visible, closing = False\<rparr>"

definition bottom_centre :: "string \<Rightarrow> real \<Rightarrow> (nat \<times> nat \<times> real) option \<Rightarrow> desktop \<Rightarrow> desktop" where
  "bottom_centre label left monitor d =
     (case monitor of
        None \<Rightarrow> d
      | Some (w, h, sf) \<Rightarrow>
          d\<lparr>windows := (windows d)(label := map_option
              (wv_position_update (\<lambda>_. Some (real w / sf / 2 - left, real h / sf - 90))) (windows d label))\<rparr>)"

definition open_recording_pill ::
  "(nat \<times> nat \<times> real) option \<Rightarrow> builder \<Rightarrow> desktop \<Rightarrow> desktop \<times> unit res" where
  "open_recording_pill monitor b d =
     (case build b ''recording-pill'' True (pill_window ''recording-pill.html'' 180 44 True)
             (close_window ''recording-pill'' d) of
        (d1, Inl e) \<Rightarrow> (d1, Inl (''open recording-pill: '' @ e))
      | (d1, Inr _) \<Rightarrow> (bottom_centre ''recording-pill'' 90 monitor d1, Inr ()))"

text \<open>The overlay of the dictation, built at startup and hidden; without it the program does not start.\<close>

definition setup_overlay :: "(nat \<times> nat \<times> real) option \<Rightarrow> builder \<Rightarrow> desktop \<Rightarrow> desktop \<times> unit res" where
  "setup_overlay monitor b d =
     (case build b ''transcribing'' False (pill_window ''transcribing.html'' 200 48 False) d of
        (d1, Inl e) \<Rightarrow> (d1, Inl e)
      | (d1, Inr _) \<Rightarrow> (bottom_centre ''transcribing'' 100 monitor d1, Inr ()))"

text \<open>The state of the shell: the windows, the path for the trim editor with the recordings, the
  screenshot for its editor, and whether the program was told to quit.\<close>

record shell =
  desk :: desktop
  recordings :: recorder_app
  captures :: capture_state
  quitting :: bool

definition open_trim_window :: "string \<Rightarrow> builder \<Rightarrow> shell \<Rightarrow> shell \<times> unit res" where
  "open_trim_window raw_path b s =
     (let s1 = s\<lparr>recordings := open_trim_editor raw_path (recordings s)\<rparr>; d = desk s1 in
      if windows d ''trim-editor'' \<noteq> None then (s1\<lparr>desk := set_focus ''trim-editor'' d\<rparr>, Inr ())
      else
        (case build b ''trim-editor'' True trim_window d of
           (d', r) \<Rightarrow> (s1\<lparr>desk := d'\<rparr>, map_err (\<lambda>e. ''open trim-editor: '' @ e) r)))"

section \<open>The tray menu and the shortcuts\<close>

text \<open>\<open>fullscreen\<close> is \<open>capture_fullscreen\<close> with what it asks of the system.\<close>

definition on_menu_event ::
  "(capture_state \<Rightarrow> capture_state \<times> unit res) \<Rightarrow> monitor list \<Rightarrow> builder \<Rightarrow> string \<Rightarrow> shell \<Rightarrow> shell" where
  "on_menu_event fullscreen ms b i s =
     (if i = ''capture-region'' then s\<lparr>desk := fst (open_capture_overlay ms b (desk s))\<rparr>
      else if i = ''capture-window'' then s\<lparr>desk := open_window_capture_overlay ms b (desk s)\<rparr>
      else if i = ''capture-fullscreen'' then s\<lparr>captures := fst (fullscreen (captures s))\<rparr>
      else if i = ''open-library'' then s\<lparr>desk := open_library_window b (desk s)\<rparr>
      else if i = ''record-screen'' then s\<lparr>desk := open_recording_options_window b (desk s)\<rparr>
      else if i = ''new-meeting'' then s\<lparr>desk := open_meeting_window b (desk s)\<rparr>
      else if i = ''voice-memory'' then s\<lparr>desk := open_voice_memory_window b (desk s)\<rparr>
      else if i = ''quit'' then s\<lparr>quitting := True\<rparr>
      else s)"

text \<open>A key of the dictation is the business of \<open>Dictation\<close>.\<close>

definition on_shortcut ::
  "shortcuts_config \<Rightarrow> monitor list \<Rightarrow> builder \<Rightarrow> modifier set \<times> code \<Rightarrow> bool \<Rightarrow> shell \<Rightarrow> shell" where
  "on_shortcut c ms b event pressed s =
     (case action_for c event of
        Some CaptureRegion \<Rightarrow> if pressed then s\<lparr>desk := fst (open_capture_overlay ms b (desk s))\<rparr> else s
      | Some CaptureWindow \<Rightarrow> if pressed then s\<lparr>desk := open_window_capture_overlay ms b (desk s)\<rparr> else s
      | Some ScreenRecording \<Rightarrow> if pressed then s\<lparr>desk := open_recording_options_window b (desk s)\<rparr> else s
      | Some NewMeeting \<Rightarrow> if pressed then s\<lparr>desk := open_meeting_window b (desk s)\<rparr> else s
      | _ \<Rightarrow> s)"

text \<open>What the dictation does to its overlay.\<close>

definition show_overlay :: "string \<Rightarrow> desktop \<Rightarrow> desktop" where
  "show_overlay state d = (show_window ''transcribing'' d)\<lparr>overlay_states := overlay_states d @ [state]\<rparr>"

definition show_overlay_listening :: "desktop \<Rightarrow> desktop" where
  "show_overlay_listening d = show_overlay ''listening'' d"

definition show_overlay_transcribing :: "desktop \<Rightarrow> desktop" where
  "show_overlay_transcribing d = show_overlay ''transcribing'' d"

definition hide_overlay :: "desktop \<Rightarrow> desktop" where
  "hide_overlay d = hide_window ''transcribing'' d"

section \<open>The icon of the tray\<close>

text \<open>The main thread sets the flag and then the icon; the animation thread, every 400 ms, reads the
  flag and then paints the next red frame.\<close>

datatype tray_icon = TrayMic | TrayMicRed nat

datatype icon_pc = IconIdle | IconStarting | IconStopping

record tray =
  icon :: tray_icon
  tray_flag :: bool
  main_at :: icon_pc
  will_paint :: bool
  frame :: nat
  tray_shutdown :: bool

definition tray_init :: tray where
  "tray_init =
     \<lparr>icon = TrayMic, tray_flag = False, main_at = IconIdle, will_paint = False, frame = 0, tray_shutdown = False\<rparr>"

definition set_tray_recording :: "bool \<Rightarrow> tray \<Rightarrow> tray" where
  "set_tray_recording recording t = t\<lparr>icon := (if recording then TrayMicRed 0 else TrayMic)\<rparr>"

definition paint_frame :: "tray \<Rightarrow> tray" where
  "paint_frame t = t\<lparr>icon := TrayMicRed (frame t mod 3), frame := frame t + 1, will_paint := False\<rparr>"

inductive tray_step :: "tray \<Rightarrow> tray \<Rightarrow> bool" where
  flag_up: "main_at t = IconIdle \<Longrightarrow> \<not> tray_flag t \<Longrightarrow> tray_step t (t\<lparr>tray_flag := True, main_at := IconStarting\<rparr>)"
| icon_up: "main_at t = IconStarting \<Longrightarrow> tray_step t ((set_tray_recording True t)\<lparr>main_at := IconIdle\<rparr>)"
| flag_down: "main_at t = IconIdle \<Longrightarrow> tray_flag t \<Longrightarrow> tray_step t (t\<lparr>tray_flag := False, main_at := IconStopping\<rparr>)"
| icon_down: "main_at t = IconStopping \<Longrightarrow> tray_step t ((set_tray_recording False t)\<lparr>main_at := IconIdle\<rparr>)"
| read_flag: "\<not> will_paint t \<Longrightarrow> \<not> tray_shutdown t \<Longrightarrow> tray_flag t \<Longrightarrow> tray_step t (t\<lparr>will_paint := True\<rparr>)"
| paint: "will_paint t \<Longrightarrow> tray_step t (paint_frame t)"
| quit: "tray_step t (t\<lparr>tray_shutdown := True\<rparr>)"

text \<open>While the program records, and no request is under way, the icon is one of the three red frames.\<close>

definition tray_ok :: "tray \<Rightarrow> bool" where
  "tray_ok t \<longleftrightarrow> (\<forall>n. icon t = TrayMicRed n \<longrightarrow> n < 3) \<and> (main_at t = IconStarting \<longrightarrow> tray_flag t) \<and>
    (main_at t = IconStopping \<longrightarrow> \<not> tray_flag t) \<and> (main_at t = IconIdle \<and> tray_flag t \<longrightarrow> icon t \<noteq> TrayMic)"

interpretation trays: step_invariant tray_step tray_ok
proof
  fix s s'
  assume "tray_step s s'" "tray_ok s"
  then show "tray_ok s'"
    by (induction rule: tray_step.induct) (auto simp: tray_ok_def set_tray_recording_def paint_frame_def)
qed

lemma red_while_recording: "tray_step\<^sup>*\<^sup>* tray_init t \<Longrightarrow> tray_ok t"
  by (erule trays.runs) (simp add: tray_ok_def tray_init_def)

text \<open>The other way round it fails: when the animation reads the flag just before a stop and paints just
  after it, the icon stays red, and only the next recording changes it.\<close>

lemma red_after_stop:
  "\<exists>t. tray_step\<^sup>*\<^sup>* tray_init t \<and> \<not> tray_flag t \<and> icon t \<noteq> TrayMic \<and>
     (\<forall>u. tray_step t u \<and> \<not> tray_flag u \<longrightarrow> icon u = icon t)"
proof -
  let ?t1 = "tray_init\<lparr>tray_flag := True, main_at := IconStarting\<rparr>"
  let ?t2 = "(set_tray_recording True ?t1)\<lparr>main_at := IconIdle\<rparr>"
  let ?t3 = "?t2\<lparr>will_paint := True\<rparr>"
  let ?t4 = "?t3\<lparr>tray_flag := False, main_at := IconStopping\<rparr>"
  let ?t5 = "(set_tray_recording False ?t4)\<lparr>main_at := IconIdle\<rparr>"
  let ?t6 = "paint_frame ?t5"
  note defs = tray_init_def set_tray_recording_def paint_frame_def
  have "tray_step tray_init ?t1" by (rule flag_up) (simp_all add: defs)
  moreover have "tray_step ?t1 ?t2" by (rule icon_up) (simp add: defs)
  moreover have "tray_step ?t2 ?t3" by (rule read_flag) (simp_all add: defs)
  moreover have "tray_step ?t3 ?t4" by (rule flag_down) (simp_all add: defs)
  moreover have "tray_step ?t4 ?t5" by (rule icon_down) (simp add: defs)
  moreover have "tray_step ?t5 ?t6" by (rule paint) (simp add: defs)
  ultimately have "tray_step\<^sup>*\<^sup>* tray_init ?t6" by (meson converse_rtranclp_into_rtranclp rtranclp.rtrancl_refl)
  moreover have "icon u = icon ?t6" if "tray_step ?t6 u" "\<not> tray_flag u" for u
    using that by (cases rule: tray_step.cases) (simp_all add: defs)
  moreover have "\<not> tray_flag ?t6 \<and> icon ?t6 \<noteq> TrayMic" by (simp add: defs)
  ultimately show ?thesis by blast
qed

section \<open>Runs of the shell\<close>

text \<open>What a request finds: the shortcuts, the screens, how builds go, how a screenshot goes.\<close>

record surroundings =
  now_shortcuts :: shortcuts_config
  now_monitors :: "monitor list"
  now_primary :: "(nat \<times> nat \<times> real) option"
  now_builder :: builder
  now_fullscreen :: "capture_state \<Rightarrow> capture_state \<times> unit res"

datatype shell_request =
    Menu string
  | Shortcut "modifier set \<times> code" bool
  | SelectRegion
  | ShowPill
  | EditTrim string
  | UserCloses string
  | Destroyed string
  | DictationListens
  | DictationTranscribes
  | DictationHides

fun exec_shell :: "surroundings \<Rightarrow> shell_request \<Rightarrow> shell \<Rightarrow> shell" where
  "exec_shell v (Menu i) s = on_menu_event (now_fullscreen v) (now_monitors v) (now_builder v) i s"
| "exec_shell v (Shortcut ev pressed) s = on_shortcut (now_shortcuts v) (now_monitors v) (now_builder v) ev pressed s"
| "exec_shell v SelectRegion s = s\<lparr>desk := fst (open_region_select_recording (now_monitors v) (now_builder v) (desk s))\<rparr>"
| "exec_shell v ShowPill s = s\<lparr>desk := fst (open_recording_pill (now_primary v) (now_builder v) (desk s))\<rparr>"
| "exec_shell v (EditTrim path) s = fst (open_trim_window path (now_builder v) s)"
| "exec_shell v (UserCloses l) s = s\<lparr>desk := close_window l (desk s)\<rparr>"
| "exec_shell v (Destroyed l) s = s\<lparr>desk := destroy_window l (desk s)\<rparr>"
| "exec_shell v DictationListens s = s\<lparr>desk := show_overlay_listening (desk s)\<rparr>"
| "exec_shell v DictationTranscribes s = s\<lparr>desk := show_overlay_transcribing (desk s)\<rparr>"
| "exec_shell v DictationHides s = s\<lparr>desk := hide_overlay (desk s)\<rparr>"

fun run_shell :: "(surroundings \<times> shell_request) list \<Rightarrow> shell \<Rightarrow> shell" where
  "run_shell [] s = s"
| "run_shell ((v, r) # rs) s = run_shell rs (exec_shell v r s)"

definition shell_start :: "(nat \<times> nat \<times> real) option \<Rightarrow> builder \<Rightarrow> shell" where
  "shell_start monitor b =
     \<lparr>desk = fst (setup_overlay monitor b \<lparr>windows = Map.empty, focus = None, overlay_states = []\<rparr>), recordings = recorder_init,
      captures = capture_state_new, quitting = False\<rparr>"

section \<open>What requests show\<close>

text \<open>The window a request is for, with the one it builds when there is none.\<close>

definition overlay_entries :: "(string \<times> string) list" where
  "overlay_entries =
     [(''capture-overlay'', ''capture-overlay.html''), (''window-capture-overlay'', ''window-capture.html''),
      (''region-select-recording'', ''region-select-recording.html'')]"

definition plain_entries :: "(string \<times> webview) list" where
  "plain_entries =
     [(''library'', library_window),
      (''recording-options'', options_window),
      (''meeting'', meeting_window),
      (''voice-memory'', memory_window),
      (''trim-editor'', trim_window)]"

definition new_window :: "monitor list \<Rightarrow> string \<Rightarrow> webview option" where
  "new_window ms l =
     (case map_of overlay_entries l of Some page \<Rightarrow> Some (overlay_window page ms) | None \<Rightarrow> map_of plain_entries l)"

definition menu_label :: "string \<Rightarrow> string option" where
  "menu_label i = map_of
     [(''capture-region'', ''capture-overlay''), (''capture-window'', ''window-capture-overlay''),
      (''open-library'', ''library''), (''record-screen'', ''recording-options''), (''new-meeting'', ''meeting''),
      (''voice-memory'', ''voice-memory'')] i"

definition action_label :: "shortcut_action \<Rightarrow> string option" where
  "action_label a =
     (case a of Dictate \<Rightarrow> None | CaptureRegion \<Rightarrow> Some ''capture-overlay'' | CaptureWindow \<Rightarrow> Some ''window-capture-overlay''
      | ScreenRecording \<Rightarrow> Some ''recording-options'' | NewMeeting \<Rightarrow> Some ''meeting'')"

fun asks_for :: "surroundings \<Rightarrow> shell_request \<Rightarrow> string option" where
  "asks_for v (Menu i) = menu_label i"
| "asks_for v (Shortcut ev pressed) = (if pressed then Option.bind (action_for (now_shortcuts v) ev) action_label else None)"
| "asks_for v SelectRegion = Some ''region-select-recording''"
| "asks_for v (EditTrim path) = Some ''trim-editor''"
| "asks_for v _ = None"

definition opened :: "string \<Rightarrow> webview \<Rightarrow> builder \<Rightarrow> desktop \<Rightarrow> desktop \<Rightarrow> bool" where
  "opened l new b d d' \<longleftrightarrow>
     (case windows d l of
        None \<Rightarrow> d' = (if fault b = None then d\<lparr>windows := (windows d)(l \<mapsto> new), focus := Some l\<rparr> else d)
      | Some w \<Rightarrow> focus d' = Some l \<and>
          (windows d' = windows d \<or> windows d' = (windows d)(l \<mapsto> w\<lparr>wv_shown := True\<rparr>)))"

lemmas plain_defs = library_window_def options_window_def meeting_window_def memory_window_def trim_window_def
  plain_window_def

lemma opened_overlay: "opened l (overlay_window page ms) b d (fst (open_overlay l page ms b d))"
  by (cases "windows d l") (auto simp: opened_def open_overlay_def build_def set_focus_def split: option.splits)

lemma opened_plain: "opened l w b d (open_plain l w b d)"
  by (cases "windows d l")
     (auto simp: opened_def open_plain_def build_def set_focus_def show_window_def split: option.splits)

lemma opened_trim:
  "opened ''trim-editor'' trim_window b (desk s) (desk (fst (open_trim_window path b s)))"
  by (cases "windows (desk s) ''trim-editor''")
     (auto simp: opened_def open_trim_window_def build_def set_focus_def Let_def split: option.splits)

lemmas openers = open_capture_overlay_def open_window_capture_overlay_def open_region_select_recording_def
  open_library_window_def open_recording_options_window_def open_meeting_window_def open_voice_memory_window_def

lemma fst_map_err [simp]: "fst (case p of (d, r) \<Rightarrow> (d, map_err f r)) = fst p"
  by (cases p) simp

lemma new_window_simps [simp]:
  "new_window ms ''capture-overlay'' = Some (overlay_window ''capture-overlay.html'' ms)"
  "new_window ms ''window-capture-overlay'' = Some (overlay_window ''window-capture.html'' ms)"
  "new_window ms ''region-select-recording'' = Some (overlay_window ''region-select-recording.html'' ms)"
  "new_window ms ''library'' = Some library_window"
  "new_window ms ''recording-options'' = Some options_window"
  "new_window ms ''meeting'' = Some meeting_window"
  "new_window ms ''voice-memory'' = Some memory_window"
  "new_window ms ''trim-editor'' = Some trim_window"
  by (simp_all add: new_window_def overlay_entries_def plain_entries_def)

lemma menu_opened:
  "menu_label i = Some l \<Longrightarrow>
     \<exists>new. new_window ms l = Some new \<and> opened l new b (desk s) (desk (on_menu_event fullscreen ms b i s))"
  by (auto simp: menu_label_def on_menu_event_def openers opened_overlay opened_plain split: if_splits)

lemma shortcut_opened:
  "Option.bind (action_for c ev) action_label = Some l \<Longrightarrow>
     \<exists>new. new_window ms l = Some new \<and> opened l new b (desk s) (desk (on_shortcut c ms b ev True s))"
proof -
  assume "Option.bind (action_for c ev) action_label = Some l"
  then obtain a where "action_for c ev = Some a" "action_label a = Some l" by (auto simp: bind_eq_Some_conv)
  then show ?thesis
    by (cases a) (auto simp: action_label_def on_shortcut_def openers opened_overlay opened_plain)
qed

lemma exec_opened:
  assumes "asks_for v r = Some l"
  shows "\<exists>new. new_window (now_monitors v) l = Some new \<and> opened l new (now_builder v) (desk s) (desk (exec_shell v r s))"
proof (cases r)
  case (Menu i) with assms menu_opened show ?thesis by simp
next
  case (Shortcut ev pressed) with assms shortcut_opened show ?thesis by (auto split: if_splits)
next
  case SelectRegion
  with assms show ?thesis by (auto simp: openers opened_overlay)
next
  case (EditTrim path) with assms opened_trim show ?thesis by auto
qed (use assms in auto)

lemma menu_else: "menu_label i = None \<Longrightarrow> desk (on_menu_event fullscreen ms b i s) = desk s"
  by (simp add: menu_label_def on_menu_event_def split: if_splits)

lemma shortcut_else:
  "(pressed \<Longrightarrow> Option.bind (action_for c ev) action_label = None) \<Longrightarrow> desk (on_shortcut c ms b ev pressed s) = desk s"
  by (auto simp: action_label_def on_shortcut_def split: option.splits shortcut_action.splits)

section \<open>Every window shows its page\<close>

definition window_ok :: "string \<Rightarrow> webview \<Rightarrow> bool" where
  "window_ok l w \<longleftrightarrow>
     (l \<noteq> ''transcribing'' \<longrightarrow> wv_shown w) \<and>
     (case map_of overlay_entries l of
        Some page \<Rightarrow>
          (\<exists>x y. wv_url w = overlay_url page x y \<and> wv_position w = Some (real_of_int x, real_of_int y))
      | None \<Rightarrow>
          (case map_of plain_entries l of
             Some new \<Rightarrow> wv_url w = wv_url new
           | None \<Rightarrow> (l, wv_url w) \<in> {(''transcribing'', ''transcribing.html''), (''recording-pill'', ''recording-pill.html'')}))"

definition desktop_ok :: "desktop \<Rightarrow> bool" where
  "desktop_ok d \<longleftrightarrow> (\<forall>l w. windows d l = Some w \<longrightarrow> window_ok l w)"

lemma window_ok_shown [simp]: "window_ok l w \<Longrightarrow> window_ok l (w\<lparr>wv_shown := True\<rparr>)"
  by (simp add: window_ok_def split: option.splits)

lemma window_ok_closing [simp]: "window_ok l w \<Longrightarrow> window_ok l (w\<lparr>closing := c\<rparr>)"
  by (simp add: window_ok_def split: option.splits)

lemma window_ok_hidden: "window_ok ''transcribing'' w \<Longrightarrow> window_ok ''transcribing'' (w\<lparr>wv_shown := h\<rparr>)"
  by (simp add: window_ok_def split: option.splits)

lemma window_ok_moved: "map_of overlay_entries l = None \<Longrightarrow> window_ok l w \<Longrightarrow> window_ok l (w\<lparr>wv_position := q\<rparr>)"
  by (simp add: window_ok_def split: option.splits)

lemma window_ok_overlay: "map_of overlay_entries l = Some page \<Longrightarrow> window_ok l (overlay_window page ms)"
  by (cases "screen_bounds ms") (auto simp: window_ok_def overlay_window_def)

lemma window_ok_new: "new_window ms l = Some new \<Longrightarrow> window_ok l new"
proof (cases "map_of overlay_entries l")
  case None
  assume "new_window ms l = Some new"
  with None have "map_of plain_entries l = Some new" by (simp add: new_window_def)
  moreover from this have "wv_shown new" by (auto simp: plain_entries_def plain_defs split: if_splits)
  ultimately show ?thesis using None by (simp add: window_ok_def)
qed (auto simp: new_window_def window_ok_overlay)

lemma opened_ok: "opened l new b d d' \<Longrightarrow> window_ok l new \<Longrightarrow> desktop_ok d \<Longrightarrow> desktop_ok d'"
  by (auto simp: opened_def desktop_ok_def split: option.splits if_splits)

lemma close_ok: "desktop_ok d \<Longrightarrow> desktop_ok (close_window l d)"
  by (auto simp: desktop_ok_def close_window_def)

lemma show_overlay_ok: "desktop_ok d \<Longrightarrow> desktop_ok (show_overlay state d)"
  by (auto simp: desktop_ok_def show_overlay_def show_window_def)

lemma build_ok: "desktop_ok d \<Longrightarrow> window_ok l w \<Longrightarrow> desktop_ok (fst (build b l fc w d))"
  by (auto simp: desktop_ok_def build_def split: option.splits)

lemma bottom_ok:
  "desktop_ok d \<Longrightarrow> map_of overlay_entries l = None \<Longrightarrow> desktop_ok (bottom_centre l left m d)"
  by (auto simp: desktop_ok_def bottom_centre_def window_ok_moved split: option.splits)

lemma pill_ok: "desktop_ok d \<Longrightarrow> desktop_ok (fst (open_recording_pill m b d))"
proof -
  assume "desktop_ok d"
  moreover have "window_ok ''recording-pill'' (pill_window ''recording-pill.html'' 180 44 True)"
    by (simp add: window_ok_def pill_window_def overlay_entries_def plain_entries_def)
  ultimately have "desktop_ok (fst (build b ''recording-pill'' True (pill_window ''recording-pill.html'' 180 44 True)
      (close_window ''recording-pill'' d)))"
    by (intro build_ok close_ok)
  then show ?thesis
    using bottom_ok [of _ "''recording-pill''"] by (auto simp: open_recording_pill_def overlay_entries_def split: prod.split sum.split)
qed

lemma setup_ok: "desktop_ok (fst (setup_overlay m b \<lparr>windows = Map.empty, focus = None, overlay_states = []\<rparr>))"
proof -
  have "window_ok ''transcribing'' (pill_window ''transcribing.html'' 200 48 False)"
    by (simp add: window_ok_def pill_window_def overlay_entries_def plain_entries_def)
  then have "desktop_ok (fst (build b ''transcribing'' False (pill_window ''transcribing.html'' 200 48 False)
      \<lparr>windows = Map.empty, focus = None, overlay_states = []\<rparr>))"
    by (intro build_ok) (simp add: desktop_ok_def)
  then show ?thesis
    using bottom_ok [of _ "''transcribing''"] by (auto simp: setup_overlay_def overlay_entries_def split: prod.split sum.split)
qed

lemma exec_shell_ok: "desktop_ok (desk s) \<Longrightarrow> desktop_ok (desk (exec_shell v r s))"
proof (cases "asks_for v r")
  case (Some l)
  assume "desktop_ok (desk s)"
  with exec_opened [OF Some, of s] show ?thesis by (auto intro: opened_ok window_ok_new)
next
  case None
  assume ok: "desktop_ok (desk s)"
  show ?thesis
  proof (cases r)
    case (Menu i) with None ok menu_else show ?thesis by simp
  next
    case (Shortcut ev pressed)
    with None ok shortcut_else [of pressed "now_shortcuts v" ev] show ?thesis by (simp split: if_splits)
  next
    case ShowPill with ok show ?thesis by (simp add: pill_ok)
  next
    case (UserCloses l) with ok show ?thesis by (simp add: close_ok)
  next
    case (Destroyed l) with ok show ?thesis by (auto simp: desktop_ok_def destroy_window_def split: option.splits)
  next
    case DictationListens
    with ok show ?thesis by (simp add: show_overlay_listening_def show_overlay_ok)
  next
    case DictationTranscribes
    with ok show ?thesis by (simp add: show_overlay_transcribing_def show_overlay_ok)
  next
    case DictationHides
    with ok show ?thesis by (auto simp: desktop_ok_def hide_overlay_def hide_window_def window_ok_hidden)
  qed (use None in simp_all)
qed

lemma run_shell_ok: "desktop_ok (desk s) \<Longrightarrow> desktop_ok (desk (run_shell es s))"
  by (induction es s rule: run_shell.induct) (simp_all add: exec_shell_ok)

section \<open>Overlays cover the screens\<close>

text \<open>A monitor whose place and size can be read lies inside the window.\<close>

definition covers :: "webview \<Rightarrow> monitor \<Rightarrow> bool" where
  "covers w m \<longleftrightarrow>
     (\<exists>px py. wv_position w = Some (px, py) \<and>
        (case (mon_x m, mon_y m, right_of m, bottom_of m) of
           (Some x, Some y, Some r, Some t) \<Rightarrow>
             px \<le> real_of_int x \<and> py \<le> real_of_int y \<and>
             real_of_int r \<le> px + wv_width w \<and> real_of_int t \<le> py + wv_height w
         | _ \<Rightarrow> True))"

lemma set_map_filter: "set (List.map_filter f xs) = {y. \<exists>x\<in>set xs. f x = Some y}"
  by (induction xs) (auto simp: List.map_filter_simps split: option.splits)

lemma min_or_le: "m \<in> set ms \<Longrightarrow> f m = Some x \<Longrightarrow> min_or z (List.map_filter f ms) \<le> x"
proof -
  assume "m \<in> set ms" "f m = Some x"
  then have "x \<in> set (List.map_filter f ms)" by (auto simp: set_map_filter)
  then show ?thesis by (auto simp: min_or_def)
qed

lemma max_or_ge: "m \<in> set ms \<Longrightarrow> f m = Some x \<Longrightarrow> x \<le> max_or z (List.map_filter f ms)"
proof -
  assume "m \<in> set ms" "f m = Some x"
  then have "x \<in> set (List.map_filter f ms)" by (auto simp: set_map_filter)
  then show ?thesis by (auto simp: max_or_def)
qed

lemma overlay_covers: "m \<in> set ms \<Longrightarrow> covers (overlay_window page ms) m"
  using min_or_le [of m ms mon_x] min_or_le [of m ms mon_y] max_or_ge [of m ms right_of] max_or_ge [of m ms bottom_of]
  by (auto simp: covers_def overlay_window_def screen_bounds_def split: option.split)

section \<open>What is asked for is seen\<close>

text \<open>The pill is told to close and built in the same breath, so its label is still in use.\<close>

lemma pill_reopened:
  assumes "windows d ''recording-pill'' = Some w"
  shows "open_recording_pill m b d =
    (close_window ''recording-pill'' d, Inl (''open recording-pill: '' @ label_in_use b ''recording-pill''))"
  using assms by (simp add: open_recording_pill_def build_def close_window_def)

text \<open>Whatever was opened, closed and shown before, a menu entry, a pressed shortcut or a command
  that asks for a window ends with that window visible, in front, and at its page, if it was there or
  could be built; nothing else on the desktop changes, and a failure changes nothing. An overlay that is
  built carries its own origin in its address and covers every monitor that can be read.\<close>

theorem windows_as_requested:
  assumes "asks_for v r = Some l" "run_shell es (shell_start monitor b) = s"
  shows "(\<forall>k. k \<noteq> l \<longrightarrow> windows (desk (exec_shell v r s)) k = windows (desk s) k) \<and>
    (windows (desk s) l \<noteq> None \<or> fault (now_builder v) = None \<longrightarrow>
       focus (desk (exec_shell v r s)) = Some l \<and>
       (\<exists>w. windows (desk (exec_shell v r s)) l = Some w \<and> wv_shown w \<and> window_ok l w)) \<and>
    (windows (desk s) l = None \<and> fault (now_builder v) = None \<and> map_of overlay_entries l \<noteq> None \<longrightarrow>
       (\<exists>w. windows (desk (exec_shell v r s)) l = Some w \<and> (\<forall>m \<in> set (now_monitors v). covers w m))) \<and>
    (windows (desk s) l = None \<and> fault (now_builder v) \<noteq> None \<longrightarrow> desk (exec_shell v r s) = desk s)"
proof -
  obtain new where new: "new_window (now_monitors v) l = Some new"
      and op: "opened l new (now_builder v) (desk s) (desk (exec_shell v r s))"
    using exec_opened [OF assms(1)] by blast
  have "desktop_ok (desk s)"
    using run_shell_ok [of "shell_start monitor b" es] setup_ok assms(2) by (simp add: shell_start_def)
  then have ok: "window_ok l w" if "windows (desk (exec_shell v r s)) l = Some w" for w
    using that exec_shell_ok [of s v r] by (simp add: desktop_ok_def)
  have "l \<noteq> ''transcribing''" using new by (auto simp: new_window_def overlay_entries_def plain_entries_def)
  then have shown: "wv_shown w" if "windows (desk (exec_shell v r s)) l = Some w" for w
    using ok [OF that] by (simp add: window_ok_def)
  show ?thesis
  proof (cases "windows (desk s) l")
    case None
    have "\<forall>m \<in> set (now_monitors v). covers new m" if "map_of overlay_entries l \<noteq> None"
      using new that overlay_covers by (auto simp: new_window_def)
    with None op ok shown show ?thesis by (auto simp: opened_def)
  next
    case (Some w)
    with op have d: "focus (desk (exec_shell v r s)) = Some l"
        "windows (desk (exec_shell v r s)) = windows (desk s) \<or>
         windows (desk (exec_shell v r s)) = (windows (desk s))(l \<mapsto> w\<lparr>wv_shown := True\<rparr>)"
      by (simp_all add: opened_def)
    then obtain w' where "windows (desk (exec_shell v r s)) l = Some w'" using Some by auto
    with d Some ok shown show ?thesis by auto
  qed
qed

definition left_screen :: monitor where
  "left_screen = \<lparr>mon_x = Some (-1280), mon_y = Some 0, mon_width = Some 1280, mon_height = Some 1024, mon_scale = Some 1\<rparr>"

definition demo_surroundings :: surroundings where
  "demo_surroundings =
     \<lparr>now_shortcuts = default_shortcuts, now_monitors = [left_screen], now_primary = None,
      now_builder = \<lparr>label_in_use = (\<lambda>l. l), fault = None\<rparr>, now_fullscreen = (\<lambda>c. (c, Inr ()))\<rparr>"

lemma windows_as_requested_witness:
  "\<exists>w. windows (desk (exec_shell demo_surroundings (Shortcut ({SUPER, CONTROL}, Digit 4) True)
       (shell_start None \<lparr>label_in_use = (\<lambda>l. l), fault = None\<rparr>))) ''capture-overlay'' = Some w \<and>
     wv_shown w \<and> covers w left_screen"
proof -
  have pd: "parse ''Super+Shift+Space'' = Some ({SHIFT, SUPER}, Space)" "parse ''Super+Ctrl+4'' = Some ({SUPER, CONTROL}, Digit 4)"
    by code_simp+
  have a: "asks_for demo_surroundings (Shortcut ({SUPER, CONTROL}, Digit 4) True) = Some ''capture-overlay''"
    by (simp add: demo_surroundings_def action_for_def default_shortcuts_def pd action_label_def)
  let ?s = "shell_start None \<lparr>label_in_use = (\<lambda>l. l), fault = None\<rparr>"
  have n: "windows (desk ?s) ''capture-overlay'' = None"
    by (simp add: shell_start_def setup_overlay_def build_def bottom_centre_def)
  have "run_shell [] ?s = ?s" by simp
  from windows_as_requested [OF a this] n show ?thesis
    by (auto simp: demo_surroundings_def overlay_entries_def)
qed

end
