(* ===== verification/Processes.thy ===== *)
theory Processes
  imports Json_Value
begin

text \<open>
  Running tools: \<open>src-tauri/src/server/processes.rs\<close> and \<open>processes_endpoints.rs\<close>: a registry of
  process descriptions and one of child handles, each behind its own mutex. Requests run
  concurrently, so they are also given as a step relation between the moments at which they take
  locks. \<open>exits\<close> is what \<open>try_wait\<close> answers for a child: \<open>None\<close> while it runs or on an error, else
  whether it succeeded. Nothing in the program adds a process.
\<close>

record process_info =
  ps_id :: string
  ps_tool_name :: string
  ps_pid :: nat
  ps_started_at :: string
  ps_status :: string

type_synonym processes = "string \<rightharpoonup> process_info"

section \<open>Bodies\<close>

text \<open>Children are named by their ids; \<open>killed\<close> are those to which SIGKILL was sent.\<close>

definition reap_exited_processes ::
  "(string \<Rightarrow> bool option) \<Rightarrow> processes \<times> string set \<Rightarrow> processes \<times> string set" where
  "reap_exited_processes exits st =
     (case st of (reg, children) \<Rightarrow>
        (\<lambda>i. if i \<in> children then
               (case exits i of
                  None \<Rightarrow> reg i
                | Some ok \<Rightarrow> map_option (ps_status_update (\<lambda>_. if ok then ''completed'' else ''failed'')) (reg i))
             else reg i,
         {i \<in> children. exits i = None}))"

definition running_processes :: "string list \<Rightarrow> processes \<Rightarrow> process_info list" where
  "running_processes ids reg = filter (\<lambda>p. ps_status p = ''running'') (List.map_filter reg ids)"

text \<open>\<open>ids\<close> is the order in which the map is iterated.\<close>

definition list_processes ::
  "(string \<Rightarrow> bool option) \<Rightarrow> string list \<Rightarrow> processes \<times> string set \<Rightarrow> (processes \<times> string set) \<times> process_info list res" where
  "list_processes exits ids st =
     (let st' = reap_exited_processes exits st in (st', Inr (running_processes ids (fst st'))))"

definition mark_killed :: "string \<Rightarrow> processes \<Rightarrow> processes" where
  "mark_killed i reg = reg(i := map_option (ps_status_update (\<lambda>_. ''killed'')) (reg i))"

definition kill_process :: "string \<Rightarrow> processes \<times> string set \<Rightarrow> (processes \<times> string set) \<times> bool res" where
  "kill_process i st =
     (case st of (reg, children) \<Rightarrow>
        if reg i = None then (st, Inr False)
        else ((mark_killed i reg, children - {i}), Inr True))"

definition process_json :: "process_info \<Rightarrow> json" where
  "process_json p = JObj
     [(''id'', JStr (ps_id p)), (''tool_name'', JStr (ps_tool_name p)), (''pid'', JInt (int (ps_pid p))),
      (''started_at'', JStr (ps_started_at p)), (''status'', JStr (ps_status p))]"

definition processes_list ::
  "(string \<Rightarrow> bool option) \<Rightarrow> string list \<Rightarrow> processes \<times> string set \<Rightarrow> (processes \<times> string set) \<times> json" where
  "processes_list exits ids st =
     (case list_processes exits ids st of
        (st', Inr ps) \<Rightarrow> (st', ok_body [(''processes'', JArr (map process_json ps))])
      | (st', Inl e) \<Rightarrow> (st', err_body e))"

definition processes_kill :: "string \<Rightarrow> processes \<times> string set \<Rightarrow> (processes \<times> string set) \<times> response" where
  "processes_kill i st =
     (case kill_process i st of
        (st', Inr True) \<Rightarrow> (st', 200, ok_body [(''killed'', JBool True)])
      | (st', Inr False) \<Rightarrow> (st', 404, err_body ''Process not found'')
      | (st', Inl e) \<Rightarrow> (st', 500, err_body e))"

section \<open>Requests that run together\<close>

text \<open>Where a request is: listing wants the lock of the children, then, holding it, that of the
  registry; then it wants the registry again, to read it. Killing wants the registry, then, holding
  it, the children.\<close>

datatype request_pc =
    WantsChildren
  | HoldsChildren
  | WantsList
  | Listed "process_info list"
  | WantsKill string
  | HoldsRegistry string
  | Killed bool

record process_system =
  registry :: processes
  handles :: "string set"
  requests :: "nat \<rightharpoonup> request_pc"

definition children_free :: "process_system \<Rightarrow> bool" where
  "children_free s = (\<forall>t. requests s t \<noteq> Some HoldsChildren)"

definition registry_free :: "process_system \<Rightarrow> bool" where
  "registry_free s = (\<forall>t i. requests s t \<noteq> Some (HoldsRegistry i))"

inductive process_step :: "process_system \<Rightarrow> process_system \<Rightarrow> bool" where
  reap_children: "requests s t = Some WantsChildren \<Longrightarrow> children_free s \<Longrightarrow>
    process_step s (s\<lparr>requests := (requests s)(t \<mapsto> HoldsChildren)\<rparr>)"
| reap_registry: "requests s t = Some HoldsChildren \<Longrightarrow> registry_free s \<Longrightarrow>
    reap_exited_processes exits (registry s, handles s) = (reg, ch) \<Longrightarrow>
    process_step s \<lparr>registry = reg, handles = ch, requests = (requests s)(t \<mapsto> WantsList)\<rparr>"
| read_registry: "requests s t = Some WantsList \<Longrightarrow> registry_free s \<Longrightarrow>
    process_step s (s\<lparr>requests := (requests s)(t \<mapsto> Listed (running_processes ids (registry s)))\<rparr>)"
| kill_unknown: "requests s t = Some (WantsKill i) \<Longrightarrow> registry_free s \<Longrightarrow> registry s i = None \<Longrightarrow>
    process_step s (s\<lparr>requests := (requests s)(t \<mapsto> Killed False)\<rparr>)"
| kill_known: "requests s t = Some (WantsKill i) \<Longrightarrow> registry_free s \<Longrightarrow> registry s i \<noteq> None \<Longrightarrow>
    process_step s (s\<lparr>registry := mark_killed i (registry s), requests := (requests s)(t \<mapsto> HoldsRegistry i)\<rparr>)"
| kill_child: "requests s t = Some (HoldsRegistry i) \<Longrightarrow> children_free s \<Longrightarrow>
    process_step s (s\<lparr>handles := handles s - {i}, requests := (requests s)(t \<mapsto> Killed True)\<rparr>)"

inductive_cases process_stepE: "process_step s s'"

definition unfinished :: "process_system \<Rightarrow> nat set" where
  "unfinished s = {t. \<exists>pc. requests s t = Some pc \<and> (\<forall>ps. pc \<noteq> Listed ps) \<and> (\<forall>b. pc \<noteq> Killed b)}"

definition stuck :: "process_system \<Rightarrow> bool" where
  "stuck s \<longleftrightarrow> unfinished s \<noteq> {} \<and> (\<forall>s'. \<not> process_step s s')"

text \<open>Each lock has at most one holder.\<close>

definition one_holder :: "process_system \<Rightarrow> bool" where
  "one_holder s \<longleftrightarrow>
     (\<forall>t u. requests s t = Some HoldsChildren \<and> requests s u = Some HoldsChildren \<longrightarrow> t = u) \<and>
     (\<forall>t u i j. requests s t = Some (HoldsRegistry i) \<and> requests s u = Some (HoldsRegistry j) \<longrightarrow> t = u)"

lemma one_holder_step: "process_step s s' \<Longrightarrow> one_holder s \<Longrightarrow> one_holder s'"
  by (induction rule: process_step.induct)
     (auto simp: one_holder_def children_free_def registry_free_def)

interpretation holders: step_invariant process_step one_holder
  by unfold_locales (rule one_holder_step)

text \<open>Requests are stuck exactly when one listing and one killing hold a lock each.\<close>

lemma stuck_iff:
  "stuck s \<longleftrightarrow> (\<exists>t u i. requests s t = Some HoldsChildren \<and> requests s u = Some (HoldsRegistry i))"
proof
  assume st: "stuck s"
  then have no: "\<not> process_step s s'" for s' by (simp add: stuck_def)
  obtain t pc where t: "requests s t = Some pc" "\<forall>ps. pc \<noteq> Listed ps" "\<forall>b. pc \<noteq> Killed b"
    using st by (auto simp: stuck_def unfinished_def)
  have c: "\<not> children_free s \<or> \<not> registry_free s"
    using t no process_step.intros [of s t] by (cases pc) (metis prod.exhaust)+
  have "\<not> children_free s"
  proof
    assume free: "children_free s"
    with c obtain u i where "requests s u = Some (HoldsRegistry i)" by (auto simp: registry_free_def)
    then show False using no kill_child free by blast
  qed
  then obtain u where u: "requests s u = Some HoldsChildren" by (auto simp: children_free_def)
  have "\<not> registry_free s" using u no reap_registry by (metis prod.exhaust)
  then show "\<exists>t u i. requests s t = Some HoldsChildren \<and> requests s u = Some (HoldsRegistry i)"
    using u by (auto simp: registry_free_def)
next
  assume "\<exists>t u i. requests s t = Some HoldsChildren \<and> requests s u = Some (HoldsRegistry i)"
  then have "\<not> children_free s" "\<not> registry_free s" "unfinished s \<noteq> {}"
    by (auto simp: children_free_def registry_free_def unfinished_def)
  moreover from this have "\<not> process_step s s'" for s' by (auto elim: process_stepE)
  ultimately show "stuck s" by (simp add: stuck_def)
qed

section \<open>Requests come to an end\<close>

fun rank :: "request_pc \<Rightarrow> nat" where
  "rank WantsChildren = 3"
| "rank HoldsChildren = 2"
| "rank WantsList = 1"
| "rank (WantsKill i) = 2"
| "rank (HoldsRegistry i) = 1"
| "rank _ = 0"

definition work :: "process_system \<Rightarrow> nat" where
  "work s = (\<Sum>t \<in> dom (requests s). rank (the (requests s t)))"

lemma work_move:
  assumes "finite (dom (requests s))" "requests s t = Some pc" "rank pc' < rank pc" "requests s' = (requests s)(t \<mapsto> pc')"
  shows "work s' < work s \<and> dom (requests s') = dom (requests s)"
proof -
  have t: "t \<in> dom (requests s)" using assms(2) by auto
  have "work s = rank pc + (\<Sum>u \<in> dom (requests s) - {t}. rank (the (requests s u)))"
    unfolding work_def using sum.remove [OF assms(1) t, of "\<lambda>u. rank (the (requests s u))"] assms(2) by simp
  moreover have "work s' = rank pc' + (\<Sum>u \<in> dom (requests s) - {t}. rank (the (requests s u)))"
  proof -
    have d: "dom (requests s') = dom (requests s)" using assms(4) t by auto
    have "(\<Sum>u \<in> dom (requests s) - {t}. rank (the (requests s' u))) =
        (\<Sum>u \<in> dom (requests s) - {t}. rank (the (requests s u)))"
      by (rule sum.cong) (simp_all add: assms(4))
    then show ?thesis
      unfolding work_def d using sum.remove [OF assms(1) t, of "\<lambda>u. rank (the (requests s' u))"] assms(4) by simp
  qed
  moreover have "dom (requests s') = dom (requests s)" using assms(4) t by auto
  ultimately show ?thesis using assms(3) by simp
qed

lemma work_step:
  assumes "process_step s s'" "finite (dom (requests s))"
  shows "work s' < work s \<and> dom (requests s') = dom (requests s)"
  using assms(1)
proof (cases rule: process_step.cases)
  case (reap_children t) then show ?thesis by (intro work_move [OF assms(2), of t _ HoldsChildren]) auto
next
  case (reap_registry t) then show ?thesis by (intro work_move [OF assms(2), of t _ WantsList]) auto
next
  case (read_registry t ids)
  then show ?thesis by (intro work_move [OF assms(2), of t _ "Listed (running_processes ids (registry s))"]) auto
next
  case (kill_unknown t) then show ?thesis by (intro work_move [OF assms(2), of t _ "Killed False"]) auto
next
  case (kill_known t i) then show ?thesis by (intro work_move [OF assms(2), of t _ "HoldsRegistry i"]) auto
next
  case (kill_child t) then show ?thesis by (intro work_move [OF assms(2), of t _ "Killed True"]) auto
qed

lemma run_bound:
  "(process_step ^^ n) s s' \<Longrightarrow> finite (dom (requests s)) \<Longrightarrow> n + work s' \<le> work s \<and> dom (requests s') = dom (requests s)"
proof (induction n arbitrary: s')
  case (Suc n)
  then obtain u where u: "(process_step ^^ n) s u" "process_step u s'" by auto
  have "n + work u \<le> work s" "dom (requests u) = dom (requests s)" using Suc.IH [OF u(1) Suc.prems(2)] by auto
  moreover from this have "work s' < work u \<and> dom (requests s') = dom (requests u)"
    using work_step [OF u(2)] Suc.prems(2) by simp
  ultimately show ?case by simp
qed simp

text \<open>Without a registered process no request ever holds the registry.\<close>

definition none_registered :: "process_system \<Rightarrow> bool" where
  "none_registered s \<longleftrightarrow> registry s = Map.empty \<and> (\<forall>t i. requests s t \<noteq> Some (HoldsRegistry i))"

lemma reap_empty: "fst (reap_exited_processes exits (Map.empty, ch)) = Map.empty"
  by (rule ext) (simp add: reap_exited_processes_def split: option.split)

lemma none_registered_step: "process_step s s' \<Longrightarrow> none_registered s \<Longrightarrow> none_registered s'"
proof (induction rule: process_step.induct)
  case (reap_registry s t exits reg ch)
  then have "reg = Map.empty" using reap_empty [of exits "handles s"] by (simp add: none_registered_def)
  with reap_registry show ?case by (auto simp: none_registered_def)
qed (auto simp: none_registered_def mark_killed_def)

interpretation unregistered: step_invariant process_step none_registered
  by unfold_locales (rule none_registered_step)

text \<open>A listing and a killing of a registered process, each at its second lock.\<close>

definition demo_process :: process_info where
  "demo_process = \<lparr>ps_id = ''p'', ps_tool_name = ''bash'', ps_pid = 1, ps_started_at = ''t'', ps_status = ''running''\<rparr>"

definition two_requests :: process_system where
  "two_requests = \<lparr>registry = [''p'' \<mapsto> demo_process], handles = {''p''},
     requests = [0 \<mapsto> WantsChildren, 1 \<mapsto> WantsKill ''p'']\<rparr>"

lemma deadlock: "\<exists>s'. process_step\<^sup>*\<^sup>* two_requests s' \<and> stuck s'"
proof -
  let ?s1 = "two_requests\<lparr>requests := (requests two_requests)(0 \<mapsto> HoldsChildren)\<rparr>"
  let ?s2 = "?s1\<lparr>registry := mark_killed ''p'' (registry ?s1), requests := (requests ?s1)(1 \<mapsto> HoldsRegistry ''p'')\<rparr>"
  have "process_step two_requests ?s1"
    by (rule reap_children) (auto simp: two_requests_def children_free_def)
  moreover have "process_step ?s1 ?s2"
    by (rule kill_known) (auto simp: two_requests_def registry_free_def)
  moreover have "stuck ?s2" unfolding stuck_iff
    by (rule exI [of _ 0], rule exI [of _ 1], rule exI [of _ "''p''"]) simp
  ultimately show ?thesis by (meson r_into_rtranclp rtranclp_trans)
qed

text \<open>C22. Requests about processes come to an end, because no process is ever registered. From any
  number of list and kill requests that start with an empty registry, however they interleave, there
  are at most three steps for each, and as long as one is unfinished one of them can go on. With a
  single registered process this fails: listing takes the children's lock and then the registry's,
  killing takes them in the other order, and a list and a kill request can block each other for good.\<close>

theorem process_requests_finish:
  assumes "finite (dom (requests s))" "none_registered s" "(process_step ^^ n) s s'"
  shows "n \<le> 3 * card (dom (requests s)) \<and> (unfinished s' = {} \<or> (\<exists>s''. process_step s' s'')) \<and>
    (\<exists>t. process_step\<^sup>*\<^sup>* two_requests t \<and> stuck t)"
proof (intro conjI)
  have "rank pc \<le> 3" for pc by (cases pc) simp_all
  then have "work s \<le> 3 * card (dom (requests s))"
    unfolding work_def using sum_bounded_above [of "dom (requests s)" "\<lambda>t. rank (the (requests s t))" 3] by (simp add: mult.commute)
  then show "n \<le> 3 * card (dom (requests s))" using run_bound [OF assms(3,1)] by linarith
  have "none_registered s'" by (rule unregistered.runs_of [OF assms(3,2)])
  then have "\<not> stuck s'" by (auto simp: stuck_iff none_registered_def)
  then show "unfinished s' = {} \<or> (\<exists>s''. process_step s' s'')" by (auto simp: stuck_def)
  show "\<exists>t. process_step\<^sup>*\<^sup>* two_requests t \<and> stuck t" by (rule deadlock)
qed

lemma process_requests_finish_witness:
  "\<exists>s''. process_step \<lparr>registry = Map.empty, handles = {}, requests = [0 \<mapsto> WantsChildren, 1 \<mapsto> WantsKill ''p'']\<rparr> s''"
proof -
  let ?s = "\<lparr>registry = Map.empty, handles = {}, requests = [0 \<mapsto> WantsChildren, 1 \<mapsto> WantsKill ''p'']\<rparr>"
  have "(process_step ^^ 0) ?s ?s" by simp
  moreover have "none_registered ?s" by (simp add: none_registered_def)
  moreover have "finite (dom (requests ?s))" by simp
  ultimately have "unfinished ?s = {} \<or> (\<exists>s''. process_step ?s s'')" using process_requests_finish by blast
  moreover have "0 \<in> unfinished ?s" by (simp add: unfinished_def)
  ultimately show ?thesis by blast
qed

text \<open>The steps of one request, alone, are its body.\<close>

lemma kill_alone:
  "requests s = [t \<mapsto> WantsKill i] \<Longrightarrow> kill_process i (registry s, handles s) = ((reg, ch), Inr b) \<Longrightarrow>
     process_step\<^sup>*\<^sup>* s \<lparr>registry = reg, handles = ch, requests = [t \<mapsto> Killed b]\<rparr>"
proof -
  assume r: "requests s = [t \<mapsto> WantsKill i]" and k: "kill_process i (registry s, handles s) = ((reg, ch), Inr b)"
  show ?thesis
  proof (cases "registry s i")
    case None
    have "process_step s (s\<lparr>requests := (requests s)(t \<mapsto> Killed False)\<rparr>)"
      using r None by (intro kill_unknown) (auto simp: registry_free_def)
    moreover have "s\<lparr>requests := (requests s)(t \<mapsto> Killed False)\<rparr> = \<lparr>registry = reg, handles = ch, requests = [t \<mapsto> Killed b]\<rparr>"
      using r k None by (cases s) (simp add: kill_process_def)
    ultimately show ?thesis by (metis r_into_rtranclp)
  next
    case (Some p)
    let ?s1 = "s\<lparr>registry := mark_killed i (registry s), requests := (requests s)(t \<mapsto> HoldsRegistry i)\<rparr>"
    have "process_step s ?s1"
      using r Some by (intro kill_known) (auto simp: registry_free_def)
    moreover have "process_step ?s1 (?s1\<lparr>handles := handles ?s1 - {i}, requests := (requests ?s1)(t \<mapsto> Killed True)\<rparr>)"
      using r by (intro kill_child) (auto simp: children_free_def)
    moreover have "?s1\<lparr>handles := handles ?s1 - {i}, requests := (requests ?s1)(t \<mapsto> Killed True)\<rparr> =
        \<lparr>registry = reg, handles = ch, requests = [t \<mapsto> Killed b]\<rparr>"
      using r k Some by (cases s) (simp add: kill_process_def)
    ultimately show ?thesis by (metis (no_types, lifting) converse_rtranclp_into_rtranclp r_into_rtranclp)
  qed
qed

end
