(* ===== verification/Provider_Table.thy ===== *)
theory Provider_Table
  imports Rust_Prelude
begin

text \<open>
  The providers of models that the agent knows: \<open>patches/pi_agent_rust/src/provider_metadata.rs\<close>. Every
  entry requires all kinds of tests. The table is cut into parts of its order, for length only.
\<close>

datatype onboarding_mode = BuiltInNative | OpenAICompatiblePreset | NativeAdapterRequired

datatype input_type = TextInput | ImageInput

definition input_text :: "input_type list" where
  "input_text = [TextInput]"

definition input_text_image :: "input_type list" where
  "input_text_image = [TextInput, ImageInput]"

record routing_defaults =
  rd_api :: string
  rd_base_url :: string
  rd_auth_header :: bool
  rd_reasoning :: bool
  rd_input :: "input_type list"
  rd_context_window :: nat
  rd_max_tokens :: nat

record test_obligations =
  unit_tests :: bool
  contract_tests :: bool
  conformance_tests :: bool
  e2e_tests :: bool

definition test_required :: test_obligations where
  "test_required = \<lparr>unit_tests = True, contract_tests = True, conformance_tests = True, e2e_tests = True\<rparr>"

record provider_meta =
  canonical_id :: string
  display_name :: "string option"
  aliases :: "string list"
  auth_env_keys :: "string list"
  onboarding :: onboarding_mode
  routing :: "routing_defaults option"
  obligations :: test_obligations

definition routing_to ::
  "string \<Rightarrow> string \<Rightarrow> bool \<Rightarrow> bool \<Rightarrow> input_type list \<Rightarrow> nat \<Rightarrow> nat \<Rightarrow> routing_defaults" where
  "routing_to api u auth reason inp ctx toks =
     \<lparr>rd_api = api, rd_base_url = u, rd_auth_header = auth, rd_reasoning = reason, rd_input = inp,
      rd_context_window = ctx, rd_max_tokens = toks\<rparr>"

definition known_provider ::
  "string \<Rightarrow> string \<Rightarrow> string list \<Rightarrow> string list \<Rightarrow> onboarding_mode \<Rightarrow> routing_defaults option \<Rightarrow> provider_meta" where
  "known_provider i n al keys mode r =
     \<lparr>canonical_id = i, display_name = Some n, aliases = al, auth_env_keys = keys, onboarding = mode, routing = r,
      obligations = test_required\<rparr>"

definition providers_1 :: "provider_meta list" where
  "providers_1 =
    [known_provider ''anthropic'' ''Anthropic'' []
       [''ANTHROPIC_API_KEY''] BuiltInNative
       (Some (routing_to ''anthropic-messages'' ''https://api.anthropic.com/v1/messages'' False True input_text_image 200000 8192)),
     known_provider ''openai'' ''OpenAI'' []
       [''OPENAI_API_KEY''] BuiltInNative
       (Some (routing_to ''openai-responses'' ''https://api.openai.com/v1'' True True input_text_image 128000 16384)),
     known_provider ''openai-codex'' ''OpenAI Codex (ChatGPT)'' [''codex'', ''chatgpt-codex'']
       [] NativeAdapterRequired
       None,
     known_provider ''google'' ''Google Gemini'' [''gemini'']
       [''GOOGLE_API_KEY'', ''GEMINI_API_KEY''] BuiltInNative
       (Some (routing_to ''google-generative-ai'' ''https://generativelanguage.googleapis.com/v1beta'' False True input_text_image 128000 8192)),
     known_provider ''google-gemini-cli'' ''Google Cloud Code Assist'' [''gemini-cli'']
       [] NativeAdapterRequired
       None,
     known_provider ''google-antigravity'' ''Google Antigravity'' [''antigravity'']
       [] NativeAdapterRequired
       None,
     known_provider ''cohere'' ''Cohere'' []
       [''COHERE_API_KEY''] BuiltInNative
       (Some (routing_to ''cohere-chat'' ''https://api.cohere.com/v2'' False True input_text 128000 8192)),
     known_provider ''groq'' ''Groq'' []
       [''GROQ_API_KEY''] OpenAICompatiblePreset
       (Some (routing_to ''openai-completions'' ''https://api.groq.com/openai/v1'' True True input_text 128000 16384)),
     known_provider ''deepinfra'' ''Deep Infra'' [''deep-infra'']
       [''DEEPINFRA_API_KEY''] OpenAICompatiblePreset
       (Some (routing_to ''openai-completions'' ''https://api.deepinfra.com/v1/openai'' True True input_text 128000 16384)),
     known_provider ''cerebras'' ''Cerebras'' []
       [''CEREBRAS_API_KEY''] OpenAICompatiblePreset
       (Some (routing_to ''openai-completions'' ''https://api.cerebras.ai/v1'' True True input_text 128000 16384))]"

definition providers_2 :: "provider_meta list" where
  "providers_2 =
    [known_provider ''openrouter'' ''OpenRouter'' [''open-router'']
       [''OPENROUTER_API_KEY''] OpenAICompatiblePreset
       (Some (routing_to ''openai-completions'' ''https://openrouter.ai/api/v1'' True True input_text 128000 16384)),
     known_provider ''mistral'' ''Mistral AI'' [''mistralai'']
       [''MISTRAL_API_KEY''] OpenAICompatiblePreset
       (Some (routing_to ''openai-completions'' ''https://api.mistral.ai/v1'' True True input_text 128000 16384)),
     known_provider ''moonshotai'' ''Moonshot AI'' [''moonshot'', ''kimi'']
       [''MOONSHOT_API_KEY'', ''KIMI_API_KEY''] OpenAICompatiblePreset
       (Some (routing_to ''openai-completions'' ''https://api.moonshot.ai/v1'' True True input_text 128000 16384)),
     known_provider ''alibaba'' ''Alibaba (Qwen)'' [''dashscope'', ''qwen'']
       [''DASHSCOPE_API_KEY'', ''QWEN_API_KEY''] OpenAICompatiblePreset
       (Some (routing_to ''openai-completions'' ''https://dashscope-intl.aliyuncs.com/compatible-mode/v1'' True True input_text 128000 16384)),
     known_provider ''deepseek'' ''DeepSeek'' [''deep-seek'']
       [''DEEPSEEK_API_KEY''] OpenAICompatiblePreset
       (Some (routing_to ''openai-completions'' ''https://api.deepseek.com'' True True input_text 128000 16384)),
     known_provider ''fireworks'' ''Fireworks AI'' [''fireworks-ai'']
       [''FIREWORKS_API_KEY''] OpenAICompatiblePreset
       (Some (routing_to ''openai-completions'' ''https://api.fireworks.ai/inference/v1'' True True input_text 128000 16384)),
     known_provider ''togetherai'' ''Together AI'' [''together'', ''together-ai'']
       [''TOGETHER_API_KEY'', ''TOGETHER_AI_API_KEY''] OpenAICompatiblePreset
       (Some (routing_to ''openai-completions'' ''https://api.together.xyz/v1'' True True input_text 128000 16384)),
     known_provider ''perplexity'' ''Perplexity'' [''pplx'']
       [''PERPLEXITY_API_KEY''] OpenAICompatiblePreset
       (Some (routing_to ''openai-completions'' ''https://api.perplexity.ai'' True True input_text 128000 16384))]"

definition providers_3 :: "provider_meta list" where
  "providers_3 =
    [known_provider ''xai'' ''xAI (Grok)'' [''grok'', ''x-ai'']
       [''XAI_API_KEY''] OpenAICompatiblePreset
       (Some (routing_to ''openai-completions'' ''https://api.x.ai/v1'' True True input_text 128000 16384)),
     known_provider ''302ai'' ''302.AI'' []
       [''302AI_API_KEY''] OpenAICompatiblePreset
       (Some (routing_to ''openai-completions'' ''https://api.302.ai/v1'' True True input_text 128000 16384)),
     known_provider ''abacus'' ''Abacus AI'' []
       [''ABACUS_API_KEY''] OpenAICompatiblePreset
       (Some (routing_to ''openai-completions'' ''https://routellm.abacus.ai/v1'' True True input_text 128000 16384)),
     known_provider ''aihubmix'' ''AIHubMix'' []
       [''AIHUBMIX_API_KEY''] OpenAICompatiblePreset
       (Some (routing_to ''openai-completions'' ''https://aihubmix.com/v1'' True True input_text 128000 16384)),
     known_provider ''bailing'' ''Bailing'' []
       [''BAILING_API_TOKEN''] OpenAICompatiblePreset
       (Some (routing_to ''openai-completions'' ''https://api.tbox.cn/api/llm/v1'' True False input_text 128000 16384)),
     known_provider ''berget'' ''Berget'' []
       [''BERGET_API_KEY''] OpenAICompatiblePreset
       (Some (routing_to ''openai-completions'' ''https://api.berget.ai/v1'' True True input_text 128000 16384)),
     known_provider ''chutes'' ''Chutes'' []
       [''CHUTES_API_KEY''] OpenAICompatiblePreset
       (Some (routing_to ''openai-completions'' ''https://llm.chutes.ai/v1'' True True input_text 128000 16384)),
     known_provider ''cortecs'' ''Cortecs'' []
       [''CORTECS_API_KEY''] OpenAICompatiblePreset
       (Some (routing_to ''openai-completions'' ''https://api.cortecs.ai/v1'' True True input_text 128000 16384))]"

definition providers_4 :: "provider_meta list" where
  "providers_4 =
    [known_provider ''fastrouter'' ''FastRouter'' []
       [''FASTROUTER_API_KEY''] OpenAICompatiblePreset
       (Some (routing_to ''openai-completions'' ''https://go.fastrouter.ai/api/v1'' True True input_text 128000 16384)),
     known_provider ''firmware'' ''Firmware'' []
       [''FIRMWARE_API_KEY''] OpenAICompatiblePreset
       (Some (routing_to ''openai-completions'' ''https://app.firmware.ai/api/v1'' True True input_text 128000 16384)),
     known_provider ''friendli'' ''Friendli'' []
       [''FRIENDLI_TOKEN''] OpenAICompatiblePreset
       (Some (routing_to ''openai-completions'' ''https://api.friendli.ai/serverless/v1'' True True input_text 128000 16384)),
     known_provider ''github-models'' ''GitHub Models'' []
       [''GITHUB_TOKEN''] OpenAICompatiblePreset
       (Some (routing_to ''openai-completions'' ''https://models.github.ai/inference'' True True input_text 128000 16384)),
     known_provider ''helicone'' ''Helicone'' []
       [''HELICONE_API_KEY''] OpenAICompatiblePreset
       (Some (routing_to ''openai-completions'' ''https://ai-gateway.helicone.ai/v1'' True True input_text 128000 16384)),
     known_provider ''huggingface'' ''Hugging Face'' [''hf'', ''hugging-face'']
       [''HF_TOKEN''] OpenAICompatiblePreset
       (Some (routing_to ''openai-completions'' ''https://router.huggingface.co/v1'' True True input_text 128000 16384)),
     known_provider ''iflowcn'' ''iFlow'' []
       [''IFLOW_API_KEY''] OpenAICompatiblePreset
       (Some (routing_to ''openai-completions'' ''https://apis.iflow.cn/v1'' True True input_text 128000 16384)),
     known_provider ''inception'' ''Inception'' []
       [''INCEPTION_API_KEY''] OpenAICompatiblePreset
       (Some (routing_to ''openai-completions'' ''https://api.inceptionlabs.ai/v1'' True False input_text 128000 16384))]"

definition providers_5 :: "provider_meta list" where
  "providers_5 =
    [known_provider ''inference'' ''Inference'' []
       [''INFERENCE_API_KEY''] OpenAICompatiblePreset
       (Some (routing_to ''openai-completions'' ''https://inference.net/v1'' True True input_text 128000 16384)),
     known_provider ''io-net'' ''io.net'' []
       [''IOINTELLIGENCE_API_KEY''] OpenAICompatiblePreset
       (Some (routing_to ''openai-completions'' ''https://api.intelligence.io.solutions/api/v1'' True True input_text 128000 16384)),
     known_provider ''jiekou'' ''Jiekou'' []
       [''JIEKOU_API_KEY''] OpenAICompatiblePreset
       (Some (routing_to ''openai-completions'' ''https://api.jiekou.ai/openai'' True True input_text 128000 16384)),
     known_provider ''lucidquery'' ''LucidQuery'' []
       [''LUCIDQUERY_API_KEY''] OpenAICompatiblePreset
       (Some (routing_to ''openai-completions'' ''https://lucidquery.com/api/v1'' True True input_text 128000 16384)),
     known_provider ''moark'' ''Moark'' []
       [''MOARK_API_KEY''] OpenAICompatiblePreset
       (Some (routing_to ''openai-completions'' ''https://moark.com/v1'' True True input_text 128000 16384)),
     known_provider ''morph'' ''Morph'' []
       [''MORPH_API_KEY''] OpenAICompatiblePreset
       (Some (routing_to ''openai-completions'' ''https://api.morphllm.com/v1'' True True input_text 128000 16384)),
     known_provider ''nano-gpt'' ''NanoGPT'' [''nanogpt'']
       [''NANO_GPT_API_KEY''] OpenAICompatiblePreset
       (Some (routing_to ''openai-completions'' ''https://nano-gpt.com/api/v1'' True True input_text 128000 16384)),
     known_provider ''nova'' ''Nova'' []
       [''NOVA_API_KEY''] OpenAICompatiblePreset
       (Some (routing_to ''openai-completions'' ''https://api.nova.amazon.com/v1'' True True input_text 128000 16384))]"

definition providers_6 :: "provider_meta list" where
  "providers_6 =
    [known_provider ''novita-ai'' ''Novita AI'' [''novita'']
       [''NOVITA_API_KEY''] OpenAICompatiblePreset
       (Some (routing_to ''openai-completions'' ''https://api.novita.ai/openai'' True True input_text 128000 16384)),
     known_provider ''nvidia'' ''NVIDIA NIM'' [''nim'', ''nvidia-nim'']
       [''NVIDIA_API_KEY''] OpenAICompatiblePreset
       (Some (routing_to ''openai-completions'' ''https://integrate.api.nvidia.com/v1'' True True input_text 128000 16384)),
     known_provider ''poe'' ''Poe'' []
       [''POE_API_KEY''] OpenAICompatiblePreset
       (Some (routing_to ''openai-completions'' ''https://api.poe.com/v1'' True True input_text 128000 16384)),
     known_provider ''privatemode-ai'' ''PrivateMode AI'' []
       [''PRIVATEMODE_API_KEY''] OpenAICompatiblePreset
       (Some (routing_to ''openai-completions'' ''http://localhost:8080/v1'' True True input_text 128000 16384)),
     known_provider ''requesty'' ''Requesty'' []
       [''REQUESTY_API_KEY''] OpenAICompatiblePreset
       (Some (routing_to ''openai-completions'' ''https://router.requesty.ai/v1'' True True input_text 128000 16384)),
     known_provider ''submodel'' ''Submodel'' []
       [''SUBMODEL_INSTAGEN_ACCESS_KEY''] OpenAICompatiblePreset
       (Some (routing_to ''openai-completions'' ''https://llm.submodel.ai/v1'' True True input_text 128000 16384)),
     known_provider ''synthetic'' ''Synthetic'' []
       [''SYNTHETIC_API_KEY''] OpenAICompatiblePreset
       (Some (routing_to ''openai-completions'' ''https://api.synthetic.new/v1'' True True input_text 128000 16384)),
     known_provider ''vivgrid'' ''Vivgrid'' []
       [''VIVGRID_API_KEY''] OpenAICompatiblePreset
       (Some (routing_to ''openai-completions'' ''https://api.vivgrid.com/v1'' True True input_text 128000 16384))]"

definition providers_7 :: "provider_meta list" where
  "providers_7 =
    [known_provider ''vultr'' ''Vultr'' []
       [''VULTR_API_KEY''] OpenAICompatiblePreset
       (Some (routing_to ''openai-completions'' ''https://api.vultrinference.com/v1'' True True input_text 128000 16384)),
     known_provider ''wandb'' ''Weights & Biases'' []
       [''WANDB_API_KEY''] OpenAICompatiblePreset
       (Some (routing_to ''openai-completions'' ''https://api.inference.wandb.ai/v1'' True True input_text 128000 16384)),
     known_provider ''xiaomi'' ''Xiaomi'' []
       [''XIAOMI_API_KEY''] OpenAICompatiblePreset
       (Some (routing_to ''openai-completions'' ''https://api.xiaomimimo.com/v1'' True True input_text 128000 16384)),
     known_provider ''alibaba-cn'' ''Alibaba China'' []
       [''DASHSCOPE_API_KEY''] OpenAICompatiblePreset
       (Some (routing_to ''openai-completions'' ''https://dashscope.aliyuncs.com/compatible-mode/v1'' True True input_text 128000 16384)),
     known_provider ''kimi-for-coding'' ''Kimi for Coding'' [''kimi-coding'', ''kimi-code'']
       [''KIMI_API_KEY''] OpenAICompatiblePreset
       (Some (routing_to ''anthropic-messages'' ''https://api.kimi.com/coding/v1/messages'' False True input_text_image 262144 32768)),
     known_provider ''minimax'' ''MiniMax'' []
       [''MINIMAX_API_KEY''] OpenAICompatiblePreset
       (Some (routing_to ''anthropic-messages'' ''https://api.minimax.io/anthropic/v1/messages'' False True input_text 204800 131072)),
     known_provider ''minimax-cn'' ''MiniMax China'' []
       [''MINIMAX_CN_API_KEY''] OpenAICompatiblePreset
       (Some (routing_to ''anthropic-messages'' ''https://api.minimaxi.com/anthropic/v1/messages'' False True input_text 204800 131072)),
     known_provider ''minimax-coding-plan'' ''MiniMax Coding Plan'' []
       [''MINIMAX_API_KEY''] OpenAICompatiblePreset
       (Some (routing_to ''anthropic-messages'' ''https://api.minimax.io/anthropic/v1/messages'' False True input_text 204800 131072))]"

definition providers_8 :: "provider_meta list" where
  "providers_8 =
    [known_provider ''minimax-cn-coding-plan'' ''MiniMax China Coding Plan'' []
       [''MINIMAX_CN_API_KEY''] OpenAICompatiblePreset
       (Some (routing_to ''anthropic-messages'' ''https://api.minimaxi.com/anthropic/v1/messages'' False True input_text 204800 131072)),
     known_provider ''modelscope'' ''ModelScope'' []
       [''MODELSCOPE_API_KEY''] OpenAICompatiblePreset
       (Some (routing_to ''openai-completions'' ''https://api-inference.modelscope.cn/v1'' True True input_text 131072 98304)),
     known_provider ''moonshotai-cn'' ''Moonshot AI China'' []
       [''MOONSHOT_API_KEY''] OpenAICompatiblePreset
       (Some (routing_to ''openai-completions'' ''https://api.moonshot.cn/v1'' True True input_text 262144 262144)),
     known_provider ''nebius'' ''Nebius'' []
       [''NEBIUS_API_KEY''] OpenAICompatiblePreset
       (Some (routing_to ''openai-completions'' ''https://api.tokenfactory.nebius.com/v1'' True True input_text 128000 8192)),
     known_provider ''ovhcloud'' ''OVHcloud'' []
       [''OVHCLOUD_API_KEY''] OpenAICompatiblePreset
       (Some (routing_to ''openai-completions'' ''https://oai.endpoints.kepler.ai.cloud.ovh.net/v1'' True True input_text 32768 32768)),
     known_provider ''scaleway'' ''Scaleway'' []
       [''SCALEWAY_API_KEY''] OpenAICompatiblePreset
       (Some (routing_to ''openai-completions'' ''https://api.scaleway.ai/v1'' True True input_text 260000 8192)),
     known_provider ''stackit'' ''STACKIT'' []
       [''STACKIT_API_KEY''] OpenAICompatiblePreset
       (Some (routing_to ''openai-completions'' ''https://api.openai-compat.model-serving.eu01.onstackit.cloud/v1'' True True input_text 128000 8192)),
     known_provider ''siliconflow'' ''SiliconFlow'' [''silicon-flow'']
       [''SILICONFLOW_API_KEY''] OpenAICompatiblePreset
       (Some (routing_to ''openai-completions'' ''https://api.siliconflow.com/v1'' True True input_text 128000 16384))]"

definition providers_9 :: "provider_meta list" where
  "providers_9 =
    [known_provider ''siliconflow-cn'' ''SiliconFlow China'' []
       [''SILICONFLOW_CN_API_KEY''] OpenAICompatiblePreset
       (Some (routing_to ''openai-completions'' ''https://api.siliconflow.cn/v1'' True True input_text 128000 16384)),
     known_provider ''upstage'' ''Upstage'' []
       [''UPSTAGE_API_KEY''] OpenAICompatiblePreset
       (Some (routing_to ''openai-completions'' ''https://api.upstage.ai/v1/solar'' True True input_text 128000 16384)),
     known_provider ''venice'' ''Venice AI'' []
       [''VENICE_API_KEY''] OpenAICompatiblePreset
       (Some (routing_to ''openai-completions'' ''https://api.venice.ai/api/v1'' True True input_text 128000 16384)),
     known_provider ''zai'' ''Zai'' []
       [''ZHIPU_API_KEY''] OpenAICompatiblePreset
       (Some (routing_to ''openai-completions'' ''https://api.z.ai/api/paas/v4'' True True input_text 128000 16384)),
     known_provider ''zai-coding-plan'' ''Zai Coding Plan'' []
       [''ZHIPU_API_KEY''] OpenAICompatiblePreset
       (Some (routing_to ''openai-completions'' ''https://api.z.ai/api/coding/paas/v4'' True True input_text 128000 16384)),
     known_provider ''zhipuai'' ''Zhipu AI'' [''zhipu'', ''glm'']
       [''ZHIPU_API_KEY''] OpenAICompatiblePreset
       (Some (routing_to ''openai-completions'' ''https://open.bigmodel.cn/api/paas/v4'' True True input_text 128000 16384)),
     known_provider ''zhipuai-coding-plan'' ''Zhipu AI Coding Plan'' []
       [''ZHIPU_API_KEY''] OpenAICompatiblePreset
       (Some (routing_to ''openai-completions'' ''https://open.bigmodel.cn/api/coding/paas/v4'' True True input_text 128000 16384)),
     known_provider ''baseten'' ''Baseten'' []
       [''BASETEN_API_KEY''] OpenAICompatiblePreset
       (Some (routing_to ''openai-completions'' ''https://inference.baseten.co/v1'' True True input_text 262144 65536))]"

definition providers_10 :: "provider_meta list" where
  "providers_10 =
    [known_provider ''llama'' ''Meta Llama'' []
       [''LLAMA_API_KEY''] OpenAICompatiblePreset
       (Some (routing_to ''openai-completions'' ''https://api.llama.com/compat/v1'' True True input_text_image 128000 4096)),
     known_provider ''lmstudio'' ''LM Studio'' [''lm-studio'']
       [''LMSTUDIO_API_KEY''] OpenAICompatiblePreset
       (Some (routing_to ''openai-completions'' ''http://127.0.0.1:1234/v1'' True True input_text 131072 32768)),
     known_provider ''ollama'' ''Ollama'' []
       [] OpenAICompatiblePreset
       (Some (routing_to ''openai-completions'' ''http://127.0.0.1:11434/v1'' False True input_text 131072 32768)),
     known_provider ''ollama-cloud'' ''Ollama Cloud'' []
       [''OLLAMA_API_KEY''] OpenAICompatiblePreset
       (Some (routing_to ''openai-completions'' ''https://ollama.com/v1'' True True input_text_image 262144 131072)),
     known_provider ''opencode'' ''OpenCode'' []
       [''OPENCODE_API_KEY''] OpenAICompatiblePreset
       (Some (routing_to ''openai-completions'' ''https://opencode.ai/zen/v1'' True True input_text 128000 16384)),
     known_provider ''vercel'' ''Vercel AI'' [''vercel-ai-gateway'']
       [''AI_GATEWAY_API_KEY''] OpenAICompatiblePreset
       (Some (routing_to ''openai-completions'' ''https://ai-gateway.vercel.sh/v1'' True True input_text 128000 16384)),
     known_provider ''zenmux'' ''ZenMux'' []
       [''ZENMUX_API_KEY''] OpenAICompatiblePreset
       (Some (routing_to ''anthropic-messages'' ''https://zenmux.ai/api/anthropic/v1/messages'' False True input_text 200000 8192)),
     known_provider ''cloudflare-ai-gateway'' ''Cloudflare AI Gateway'' []
       [''CLOUDFLARE_API_TOKEN''] OpenAICompatiblePreset
       (Some (routing_to ''openai-completions'' ''https://gateway.ai.cloudflare.com/v1/{account_id}/{gateway_id}/openai'' True True input_text 128000 16384))]"

definition providers_11 :: "provider_meta list" where
  "providers_11 =
    [known_provider ''cloudflare-workers-ai'' ''Cloudflare Workers AI'' []
       [''CLOUDFLARE_API_TOKEN''] OpenAICompatiblePreset
       (Some (routing_to ''openai-completions'' ''https://api.cloudflare.com/client/v4/accounts/{account_id}/ai/v1'' True True input_text 128000 16384)),
     known_provider ''google-vertex'' ''Google Vertex AI'' [''vertexai'', ''google-vertex-anthropic'']
       [''GOOGLE_CLOUD_API_KEY'', ''VERTEX_API_KEY''] BuiltInNative
       (Some (routing_to ''google-vertex'' '''' True True input_text_image 1000000 8192)),
     known_provider ''amazon-bedrock'' ''Amazon Bedrock'' [''bedrock'']
       [''AWS_ACCESS_KEY_ID'', ''AWS_SECRET_ACCESS_KEY'', ''AWS_SESSION_TOKEN'', ''AWS_BEARER_TOKEN_BEDROCK'', ''AWS_PROFILE'', ''AWS_REGION''] NativeAdapterRequired
       (Some (routing_to ''bedrock-converse-stream'' '''' False True input_text 200000 8192)),
     known_provider ''sap-ai-core'' ''SAP AI Core'' [''sap'']
       [''AICORE_SERVICE_KEY'', ''SAP_AI_CORE_CLIENT_ID'', ''SAP_AI_CORE_CLIENT_SECRET'', ''SAP_AI_CORE_TOKEN_URL'', ''SAP_AI_CORE_SERVICE_URL''] NativeAdapterRequired
       None,
     known_provider ''v0'' ''v0 by Vercel'' []
       [''V0_API_KEY''] NativeAdapterRequired
       None,
     known_provider ''azure-openai'' ''Azure OpenAI'' [''azure'', ''azure-cognitive-services'', ''azure-openai-responses'']
       [''AZURE_OPENAI_API_KEY''] NativeAdapterRequired
       None,
     known_provider ''github-copilot'' ''GitHub Copilot'' [''copilot'', ''github-copilot-enterprise'']
       [''GITHUB_COPILOT_API_KEY'', ''GITHUB_TOKEN''] NativeAdapterRequired
       None,
     known_provider ''gitlab'' ''GitLab Duo'' [''gitlab-duo'']
       [''GITLAB_TOKEN'', ''GITLAB_API_KEY''] NativeAdapterRequired
       None]"

definition provider_table :: "provider_meta list" where
  "provider_table = providers_1 @ providers_2 @ providers_3 @ providers_4 @ providers_5 @ providers_6 @ providers_7 @ providers_8 @ providers_9 @ providers_10 @ providers_11"

section \<open>Looking a provider up\<close>

definition eq_ignore_case :: "string \<Rightarrow> string \<Rightarrow> bool" where
  "eq_ignore_case a b \<longleftrightarrow> to_lowercase a = to_lowercase b"

definition names :: "provider_meta \<Rightarrow> string list" where
  "names m = canonical_id m # aliases m"

definition provider_metadata :: "string \<Rightarrow> provider_meta option" where
  "provider_metadata i =
     (if i = [] then None else List.find (\<lambda>m. list_ex (\<lambda>n. eq_ignore_case n i) (names m)) provider_table)"

definition canonical_provider_id :: "string \<Rightarrow> string option" where
  "canonical_provider_id i = map_option canonical_id (provider_metadata i)"

definition provider_auth_env_keys :: "string \<Rightarrow> string list" where
  "provider_auth_env_keys i = (case provider_metadata i of None \<Rightarrow> [] | Some m \<Rightarrow> auth_env_keys m)"

definition provider_routing_defaults :: "string \<Rightarrow> routing_defaults option" where
  "provider_routing_defaults i = Option.bind (provider_metadata i) routing"

section \<open>Every name leads to one provider\<close>

text \<open>The names of the table, as a list that simplification can compare: all in lower case, no name twice.\<close>

definition table_names :: "string list" where
  "table_names = concat (map names provider_table)"

lemma names_known_provider: "names (known_provider i n al keys mode r) = i # al"
  by (simp add: known_provider_def names_def)

lemmas provider_parts =
  provider_table_def providers_1_def providers_2_def providers_3_def providers_4_def providers_5_def
  providers_6_def providers_7_def providers_8_def providers_9_def providers_10_def providers_11_def

lemmas table_names_list = table_names_def [unfolded provider_parts append.simps list.map names_known_provider concat.simps]

lemma names_lower_case: "list_all (list_all (\<lambda>c. \<not> is_upper c)) table_names"
  by (simp add: table_names_list is_upper_def)

lemma names_distinct: "distinct table_names"
  by (simp add: table_names_list)

lemma names_nonempty: "[] \<notin> set table_names"
  by (simp add: table_names_list)

lemma lower_when_no_upper: "list_all (\<lambda>c. \<not> is_upper c) s \<Longrightarrow> to_lowercase s = s"
  by (induction s) (auto simp: to_lowercase_def char_lower_def)

lemma table_name_lower: "m \<in> set provider_table \<Longrightarrow> n \<in> set (names m) \<Longrightarrow> to_lowercase n = n"
  using names_lower_case by (intro lower_when_no_upper) (auto simp: table_names_def list_all_iff)

lemma distinct_concat_unique:
  "distinct (concat (map f xs)) \<Longrightarrow> a \<in> set xs \<Longrightarrow> b \<in> set xs \<Longrightarrow> n \<in> set (f a) \<Longrightarrow> n \<in> set (f b) \<Longrightarrow> a = b"
  by (induction xs) auto

lemma find_unique:
  "a \<in> set xs \<Longrightarrow> P a \<Longrightarrow> (\<And>b. b \<in> set xs \<Longrightarrow> P b \<Longrightarrow> b = a) \<Longrightarrow> List.find P xs = Some a"
proof -
  assume a: "a \<in> set xs" "P a" and u: "\<And>b. b \<in> set xs \<Longrightarrow> P b \<Longrightarrow> b = a"
  from a have "List.find P xs \<noteq> None" unfolding find_None_iff by blast
  then obtain b where b: "List.find P xs = Some b" by blast
  then have "b \<in> set xs" "P b" unfolding find_Some_iff by auto
  from u [OF this] b show ?thesis by simp
qed

lemma name_matches:
  "m \<in> set provider_table \<Longrightarrow> list_ex (\<lambda>n. eq_ignore_case n i) (names m) = (to_lowercase i \<in> set (names m))"
  by (metis table_name_lower eq_ignore_case_def list_ex_iff)

lemma provider_metadata_iff:
  "provider_metadata i = Some m \<longleftrightarrow> m \<in> set provider_table \<and> to_lowercase i \<in> set (names m)"
proof
  assume l: "provider_metadata i = Some m"
  then have "List.find (\<lambda>m. list_ex (\<lambda>n. eq_ignore_case n i) (names m)) provider_table = Some m"
    by (simp add: provider_metadata_def split: if_splits)
  then have "m \<in> set provider_table \<and> list_ex (\<lambda>n. eq_ignore_case n i) (names m)"
    by (auto simp: find_Some_iff)
  then show "m \<in> set provider_table \<and> to_lowercase i \<in> set (names m)" by (auto simp: name_matches)
next
  assume r: "m \<in> set provider_table \<and> to_lowercase i \<in> set (names m)"
  then have "to_lowercase i \<in> set table_names" by (auto simp: table_names_def)
  then have "i \<noteq> []" using names_nonempty by (auto simp: to_lowercase_def)
  moreover have "List.find (\<lambda>m. list_ex (\<lambda>n. eq_ignore_case n i) (names m)) provider_table = Some m"
    using r names_distinct
    by (intro find_unique) (auto simp: name_matches table_names_def intro: distinct_concat_unique)
  ultimately show "provider_metadata i = Some m" by (simp add: provider_metadata_def)
qed

lemma provider_metadata_same_case: "eq_ignore_case a b \<Longrightarrow> provider_metadata a = provider_metadata b"
proof -
  assume "eq_ignore_case a b"
  then have "provider_metadata a = Some m \<longleftrightarrow> provider_metadata b = Some m" for m
    by (simp add: eq_ignore_case_def provider_metadata_iff)
  then show ?thesis by (metis option.exhaust)
qed

lemma canonical_name_found: "m \<in> set provider_table \<Longrightarrow> n \<in> set (names m) \<Longrightarrow> provider_metadata n = Some m"
  by (simp add: provider_metadata_iff table_name_lower)

text \<open>A name leads to the entry of the table that has it, as its canonical name or as an alias, in
  whatever case it is written, and to no other: no two of the 90 entries share a name.
\<close>

theorem provider_names_exact:
  "provider_metadata i = Some m \<longleftrightarrow> m \<in> set provider_table \<and> to_lowercase i \<in> set (names m)"
  by (rule provider_metadata_iff)

end
