(* ===== verification/Utf8.thy ===== *)
theory Utf8
  imports Rust_Prelude
begin

text \<open>
  \<open>std::str::from_utf8\<close> as its documentation describes it: how much is valid, and then the length
  of an invalid sequence, or none when the input ends within a character. A string is a list of bytes.
\<close>

text \<open>For a first byte: how many bytes follow, and the bounds of the second.\<close>

definition utf8_lead :: "nat \<Rightarrow> (nat \<times> nat \<times> nat) option" where
  "utf8_lead b =
     (if b < 0x80 then Some (0, 0, 0)
      else if 0xC2 \<le> b \<and> b \<le> 0xDF then Some (1, 0x80, 0xBF)
      else if b = 0xE0 then Some (2, 0xA0, 0xBF)
      else if b = 0xED then Some (2, 0x80, 0x9F)
      else if 0xE1 \<le> b \<and> b \<le> 0xEF then Some (2, 0x80, 0xBF)
      else if b = 0xF0 then Some (3, 0x90, 0xBF)
      else if 0xF1 \<le> b \<and> b \<le> 0xF3 then Some (3, 0x80, 0xBF)
      else if b = 0xF4 then Some (3, 0x80, 0x8F)
      else None)"

datatype utf8_char = Whole nat | Bad nat | Cut

fun utf8_rest :: "nat \<Rightarrow> nat \<Rightarrow> nat \<Rightarrow> string \<Rightarrow> nat \<Rightarrow> utf8_char" where
  "utf8_rest 0 lo hi bs k = Whole k"
| "utf8_rest (Suc n) lo hi [] k = Cut"
| "utf8_rest (Suc n) lo hi (b # bs) k =
     (if lo \<le> (of_char b :: nat) \<and> (of_char b :: nat) \<le> hi then utf8_rest n 0x80 0xBF bs (Suc k) else Bad k)"

fun utf8_first :: "string \<Rightarrow> utf8_char" where
  "utf8_first [] = Cut"
| "utf8_first (b # bs) =
     (case utf8_lead (of_char b) of None \<Rightarrow> Bad 1 | Some (n, lo, hi) \<Rightarrow> utf8_rest n lo hi bs 1)"

lemma utf8_rest_pos: "utf8_rest n lo hi bs k = Whole m \<or> utf8_rest n lo hi bs k = Bad m \<Longrightarrow> k \<le> m \<and> m \<le> k + length bs"
  by (induction n lo hi bs k rule: utf8_rest.induct) (auto split: if_splits)

lemma utf8_first_pos: "utf8_first bs = Whole m \<or> utf8_first bs = Bad m \<Longrightarrow> 0 < m \<and> m \<le> length bs"
proof (cases bs)
  case (Cons b cs)
  assume "utf8_first bs = Whole m \<or> utf8_first bs = Bad m"
  with Cons show ?thesis
    by (auto split: option.splits prod.splits dest: utf8_rest_pos [OF disjI1] utf8_rest_pos [OF disjI2])
qed simp

text \<open>More bytes do not change a character that is decided.\<close>

lemma utf8_rest_append: "utf8_rest n lo hi bs k \<noteq> Cut \<Longrightarrow> utf8_rest n lo hi (bs @ cs) k = utf8_rest n lo hi bs k"
  by (induction n lo hi bs k rule: utf8_rest.induct) (auto split: if_splits)

lemma utf8_first_append: "utf8_first bs \<noteq> Cut \<Longrightarrow> utf8_first (bs @ cs) = utf8_first bs"
proof (cases bs)
  case (Cons b ds)
  assume "utf8_first bs \<noteq> Cut"
  with Cons utf8_rest_append [of _ _ _ ds 1 cs] show ?thesis by (auto split: option.splits)
qed simp

datatype utf8_error = Invalid nat | Truncated

text \<open>\<open>None\<close>: all of it is text; else \<open>valid_up_to\<close> and \<open>error_len\<close>.\<close>

function from_utf8 :: "string \<Rightarrow> nat \<times> utf8_error option" where
  "from_utf8 bs =
     (if bs = [] then (0, None)
      else
        (case utf8_first bs of
           Whole k \<Rightarrow> (case from_utf8 (drop k bs) of (n, e) \<Rightarrow> (k + n, e))
         | Bad k \<Rightarrow> (0, Some (Invalid k))
         | Cut \<Rightarrow> (0, Some Truncated)))"
  by pat_completeness auto
termination
  by (relation "measure length") (use utf8_first_pos in fastforce)+

declare from_utf8.simps [simp del]

lemma from_utf8_bounds:
  "from_utf8 bs = (n, e) \<Longrightarrow> n \<le> length bs \<and> (e = None \<longrightarrow> n = length bs) \<and>
     (\<forall>k. e = Some (Invalid k) \<longrightarrow> 0 < k \<and> n + k \<le> length bs) \<and> (e = Some Truncated \<longrightarrow> n < length bs)"
proof (induction bs arbitrary: n e rule: from_utf8.induct)
  case (1 bs)
  show ?case
  proof (cases "bs = []")
    case True with 1(2) show ?thesis by (simp add: from_utf8.simps)
  next
    case False
    show ?thesis
    proof (cases "utf8_first bs")
      case (Whole k)
      obtain m e' where m: "from_utf8 (drop k bs) = (m, e')" by force
      with 1(1) [OF False Whole m] utf8_first_pos [of bs k] 1(2) False Whole show ?thesis
        by (auto simp: from_utf8.simps [of bs])
    qed (use 1(2) False utf8_first_pos [of bs] in \<open>auto simp: from_utf8.simps [of bs]\<close>)
  qed
qed

text \<open>Text, as a Rust string is by its type.\<close>

definition valid_utf8 :: "string \<Rightarrow> bool" where
  "valid_utf8 bs = (snd (from_utf8 bs) = None)"

lemma valid_utf8_Nil [simp]: "valid_utf8 []"
  by (simp add: valid_utf8_def from_utf8.simps)

lemma utf8_first_ascii: "(of_char b :: nat) < 128 \<Longrightarrow> utf8_first (b # bs) = Whole 1"
  by (simp add: utf8_lead_def)

lemma valid_utf8_ascii: "(of_char b :: nat) < 128 \<Longrightarrow> valid_utf8 (b # bs) = valid_utf8 bs"
  by (simp add: valid_utf8_def from_utf8.simps [of "b # bs"] utf8_first_ascii del: utf8_first.simps split: prod.split)

end
