(* ===== verification/Pi_Encoding.thy ===== *)
theory Pi_Encoding
  imports Utf8 Json_Value
begin

text \<open>
  The texts that \<open>patches/pi_agent_rust/src/auth.rs\<close> builds and reads: percent encoding, query
  strings, the code a user pastes, values of headers, and answers of servers with the secrets taken
  out. Strings are bytes; those that stand for a \<open>&str\<close> are valid UTF-8, which the properties say.
\<close>

section \<open>Percent encoding\<close>

definition unreserved :: "char \<Rightarrow> bool" where
  "unreserved c = (is_alphanumeric c \<or> c \<in> {CHR ''-'', CHR ''.'', CHR ''_'', CHR ''~''})"

definition hex_upper :: "nat \<Rightarrow> char" where
  "hex_upper n = char_of (if n < 10 then 48 + n else 55 + n)"

definition percent_encode_component :: "string \<Rightarrow> string" where
  "percent_encode_component v =
     concat (map (\<lambda>b. if unreserved b then [b] else if b = CHR '' '' then ''%20''
                     else [CHR ''%'', hex_upper (of_char b div 16), hex_upper (of_char b mod 16)]) v)"

text \<open>\<open>u8::from_str_radix(_, 16)\<close> of two characters; the first may be a sign.\<close>

definition hex_val :: "char \<Rightarrow> nat option" where
  "hex_val c =
     (let n = of_char c in
      if 48 \<le> n \<and> n \<le> 57 then Some (n - 48) else if 65 \<le> n \<and> n \<le> 70 then Some (n - 55)
      else if 97 \<le> n \<and> n \<le> 102 then Some (n - 87) else None)"

definition hex_u8 :: "char \<Rightarrow> char \<Rightarrow> nat option" where
  "hex_u8 hi lo =
     (if hi = CHR ''+'' then hex_val lo
      else (case (hex_val hi, hex_val lo) of (Some h, Some l) \<Rightarrow> Some (16 * h + l) | _ \<Rightarrow> None))"

fun percent_bytes :: "string \<Rightarrow> string option" where
  "percent_bytes [] = Some []"
| "percent_bytes (b # bs) =
     (if b = CHR ''+'' then map_option ((#) (CHR '' '')) (percent_bytes bs)
      else if b = CHR ''%''
      then (case bs of
              hi # lo # rest \<Rightarrow>
                if valid_utf8 [hi, lo]
                then (case hex_u8 hi lo of None \<Rightarrow> None | Some d \<Rightarrow> map_option ((#) (char_of d)) (percent_bytes rest))
                else None
            | _ \<Rightarrow> None)
      else map_option ((#) b) (percent_bytes bs))"

definition percent_decode_component :: "string \<Rightarrow> string option" where
  "percent_decode_component v =
     (if CHR ''%'' \<notin> set v \<and> CHR ''+'' \<notin> set v then Some v
      else (case percent_bytes v of None \<Rightarrow> None | Some u \<Rightarrow> if valid_utf8 u then Some u else None))"

section \<open>Query strings\<close>

definition query_pair :: "string \<Rightarrow> (string \<times> string) option" where
  "query_pair part =
     (case (case split_once (CHR ''='') part of None \<Rightarrow> (part, []) | Some kv \<Rightarrow> kv) of
        (k, v) \<Rightarrow>
          (case (percent_decode_component (trim k), percent_decode_component (trim v)) of
             (Some key, Some val) \<Rightarrow> Some (key, val) | _ \<Rightarrow> None))"

definition parse_query_pairs :: "string \<Rightarrow> (string \<times> string) list" where
  "parse_query_pairs q =
     List.map_filter query_pair (filter (\<lambda>part. trim part \<noteq> []) (split_on (CHR ''&'') q))"

definition query_text :: "(string \<times> string) list \<Rightarrow> string" where
  "query_text ps =
     join ''&'' (map (\<lambda>(k, v). percent_encode_component k @ ''='' @ percent_encode_component v) ps)"

definition build_url_with_query :: "string \<Rightarrow> (string \<times> string) list \<Rightarrow> string" where
  "build_url_with_query base ps = base @ ''?'' @ query_text ps"


text \<open>The authorization code and the state in what the user pastes.\<close>

definition parse_oauth_code_input :: "string \<Rightarrow> string option \<times> string option" where
  "parse_oauth_code_input input =
     (let val = trim input in
      if val = [] then (None, None)
      else
        (case split_once (CHR ''?'') val of
           Some (_, query) \<Rightarrow>
             (let pairs = parse_query_pairs (hd (split_on (CHR ''#'') query))
              in (map_of pairs ''code'', map_of pairs ''state''))
         | None \<Rightarrow>
             (case split_once (CHR ''#'') val of
                Some (code, state) \<Rightarrow> (nonempty (trim code), nonempty (trim state))
              | None \<Rightarrow> (Some val, None))))"

definition trim_trailing_slash :: "string \<Rightarrow> string" where
  "trim_trailing_slash u = rev (dropWhile (\<lambda>c. c = CHR ''/'') (rev u))"

definition is_ascii :: "char \<Rightarrow> bool" where
  "is_ascii c = ((of_char c :: nat) < 128)"

definition sanitize_ascii_header_value :: "string \<Rightarrow> string \<Rightarrow> string" where
  "sanitize_ascii_header_value val fallback =
     (if list_all is_ascii val \<and> trim val \<noteq> [] then val
      else (let sanitized = trim (filter is_ascii val) in if sanitized = [] then fallback else sanitized))"

section \<open>Decoding what was encoded\<close>

lemma hex_val_upper: "n < 16 \<Longrightarrow> hex_val (hex_upper n) = Some n"
  by (simp add: hex_val_def hex_upper_def Let_def)

lemma hex_upper_props:
  assumes "n < 16"
  shows "unreserved (hex_upper n)" "hex_upper n \<noteq> CHR ''+''" "(of_char (hex_upper n) :: nat) < 128"
proof -
  have c: "(of_char (hex_upper n) :: nat) = (if n < 10 then 48 + n else 55 + n)"
    using assms by (simp add: hex_upper_def)
  then show "unreserved (hex_upper n)" "(of_char (hex_upper n) :: nat) < 128"
    using assms by (auto simp: unreserved_def is_alphanumeric_def is_digit_def is_upper_def)
  show "hex_upper n \<noteq> CHR ''+''"
  proof
    assume "hex_upper n = CHR ''+''"
    with c show False by (auto split: if_splits)
  qed
qed

lemma hex_u8_upper: "h < 16 \<Longrightarrow> l < 16 \<Longrightarrow> hex_u8 (hex_upper h) (hex_upper l) = Some (16 * h + l)"
  by (simp add: hex_u8_def hex_val_upper hex_upper_props)

definition encode_byte :: "char \<Rightarrow> string" where
  "encode_byte b =
     (if unreserved b then [b] else if b = CHR '' '' then ''%20''
      else [CHR ''%'', hex_upper (of_char b div 16), hex_upper (of_char b mod 16)])"

lemma percent_encode_simps [simp]:
  "percent_encode_component [] = []"
  "percent_encode_component (b # bs) = encode_byte b @ percent_encode_component bs"
  by (simp_all add: percent_encode_component_def encode_byte_def)

lemma byte_parts: "(of_char (b :: char) :: nat) div 16 < 16" "(of_char (b :: char) :: nat) mod 16 < 16"
  using nat_of_char_less_256 [of b] by (simp_all add: less_mult_imp_div_less)

lemma percent_bytes_encode_byte:
  "percent_bytes (encode_byte b @ rest) = map_option ((#) b) (percent_bytes rest)"
proof -
  have plain: "unreserved b \<Longrightarrow> b \<noteq> CHR ''+'' \<and> b \<noteq> CHR ''%''"
    by (auto simp: unreserved_def is_alphanumeric_def is_digit_def is_upper_def is_lower_def)
  show ?thesis
  proof (cases "unreserved b \<or> b = CHR '' ''")
    case True
    have blank: "char_of (32 :: nat) = CHR '' ''" by code_simp
    from True plain show ?thesis
      by (auto simp: encode_byte_def valid_utf8_ascii hex_u8_def hex_val_def blank)
  next
    case False
    have "hex_u8 (hex_upper (of_char b div 16)) (hex_upper (of_char b mod 16)) = Some (of_char b)"
      by (simp add: hex_u8_upper byte_parts)
    with False show ?thesis
      by (simp add: encode_byte_def valid_utf8_ascii hex_upper_props byte_parts)
  qed
qed

lemma percent_bytes_encode: "percent_bytes (percent_encode_component v) = Some v"
  by (induction v) (simp_all add: percent_bytes_encode_byte)

lemma encoded_chars: "c \<in> set (percent_encode_component v) \<Longrightarrow> unreserved c \<or> c = CHR ''%''"
  by (induction v) (auto simp: encode_byte_def hex_upper_props byte_parts unreserved_def [of "CHR ''2''"]
    unreserved_def [of "CHR ''0''"] is_alphanumeric_def is_digit_def split: if_splits)

lemma encoded_without_percent: "CHR ''%'' \<notin> set (percent_encode_component v) \<Longrightarrow> percent_encode_component v = v"
  by (induction v) (auto simp: encode_byte_def split: if_splits)

lemma encoded_fresh:
  assumes "\<not> unreserved c" "c \<noteq> CHR ''%''"
  shows "c \<notin> set (percent_encode_component v)"
  using assms encoded_chars by blast

lemma separators_reserved [simp]:
  "\<not> unreserved (CHR ''+'')" "\<not> unreserved (CHR ''&'')" "\<not> unreserved (CHR ''='')" "\<not> unreserved (CHR ''?'')"
  "\<not> unreserved (CHR ''#'')" "\<not> unreserved (CHR ''%'')"
  by (simp_all add: unreserved_def is_alphanumeric_def is_digit_def is_upper_def is_lower_def)

lemma ws_reserved: "is_ws c \<Longrightarrow> \<not> unreserved c \<and> c \<noteq> CHR ''%''"
  by (auto simp: is_ws_def unreserved_def is_alphanumeric_def is_digit_def is_upper_def is_lower_def)

lemma decode_encoded: "valid_utf8 v \<Longrightarrow> percent_decode_component (percent_encode_component v) = Some v"
  by (auto simp: percent_decode_component_def percent_bytes_encode encoded_fresh encoded_without_percent)

lemma trim_no_ws: "\<forall>c \<in> set s. \<not> is_ws c \<Longrightarrow> trim s = s"
  by (rule trim_id) (cases s, auto)

lemma encoded_no_ws: "c \<in> set (percent_encode_component v) \<Longrightarrow> \<not> is_ws c"
  using ws_reserved encoded_chars by blast

lemma trim_encoded [simp]: "trim (percent_encode_component v) = percent_encode_component v"
  using encoded_no_ws by (intro trim_no_ws) auto

definition encode_pair :: "string \<times> string \<Rightarrow> string" where
  "encode_pair kv = percent_encode_component (fst kv) @ ''='' @ percent_encode_component (snd kv)"

lemma query_text_encode_pair: "query_text ps = join ''&'' (map encode_pair ps)"
  by (simp add: query_text_def encode_pair_def [abs_def] case_prod_unfold)

lemma encode_pair_chars: "c \<in> set (encode_pair kv) \<Longrightarrow> unreserved c \<or> c = CHR ''%'' \<or> c = CHR ''=''"
  unfolding encode_pair_def using encoded_chars by auto

lemma query_pair_encoded: "valid_utf8 k \<Longrightarrow> valid_utf8 v \<Longrightarrow> query_pair (encode_pair (k, v)) = Some (k, v)"
  by (simp add: query_pair_def encode_pair_def split_once_append encoded_fresh decode_encoded)

lemma trim_encode_pair: "trim (encode_pair kv) \<noteq> []"
  by (auto simp: trim_eq_Nil_iff encode_pair_def is_ws_def)

lemma join_chars: "c \<in> set (join sep ps) \<Longrightarrow> c \<in> set sep \<or> (\<exists>p \<in> set ps. c \<in> set p)"
  by (induction sep ps rule: join.induct) auto

lemma query_text_chars: "c \<in> set (query_text ps) \<Longrightarrow> unreserved c \<or> c \<in> {CHR ''%'', CHR ''='', CHR ''&''}"
  unfolding query_text_encode_pair using join_chars [of c "''&''" "map encode_pair ps"] encode_pair_chars by auto

lemma filter_map_encoded:
  "\<forall>kv \<in> set ps. valid_utf8 (fst kv) \<and> valid_utf8 (snd kv) \<Longrightarrow>
     List.map_filter query_pair (filter (\<lambda>part. trim part \<noteq> []) (map encode_pair ps)) = ps"
  by (induction ps) (auto simp: map_filter_simps trim_encode_pair query_pair_encoded)

lemma parse_query_text:
  assumes "\<forall>kv \<in> set ps. valid_utf8 (fst kv) \<and> valid_utf8 (snd kv)"
  shows "parse_query_pairs (query_text ps) = ps"
proof (cases "ps = []")
  case True then show ?thesis by (simp add: parse_query_pairs_def query_text_def map_filter_simps)
next
  case False
  have "\<forall>p \<in> set (map encode_pair ps). CHR ''&'' \<notin> set p" using encode_pair_chars by fastforce
  then have "split_on (CHR ''&'') (query_text ps) = map encode_pair ps"
    using False unfolding query_text_encode_pair by (intro split_on_join) auto
  with filter_map_encoded [OF assms] show ?thesis by (simp add: parse_query_pairs_def)
qed

lemma query_text_fresh: "CHR ''?'' \<notin> set (query_text ps)" "CHR ''#'' \<notin> set (query_text ps)"
  using query_text_chars by fastforce+

lemma query_text_no_ws: "c \<in> set (query_text ps) \<Longrightarrow> \<not> is_ws c"
  using query_text_chars ws_reserved [of c] by (fastforce simp: is_ws_def)

text \<open>The address a server sends the browser back to.\<close>

definition callback_parts :: "string \<Rightarrow> string \<Rightarrow> bool" where
  "callback_parts base frag \<longleftrightarrow>
     (\<forall>c \<in> set (base @ frag). \<not> is_ws c) \<and> CHR ''?'' \<notin> set base \<and> (frag = [] \<or> hd frag = CHR ''#'')"

lemma trim_callback: "callback_parts base frag \<Longrightarrow> trim (build_url_with_query base ps @ frag) = build_url_with_query base ps @ frag"
  unfolding callback_parts_def using query_text_no_ws by (intro trim_no_ws) (auto simp: build_url_with_query_def is_ws_def)

lemma parse_callback:
  assumes "\<forall>kv \<in> set ps. valid_utf8 (fst kv) \<and> valid_utf8 (snd kv)" "callback_parts base frag"
  shows "parse_oauth_code_input (build_url_with_query base ps @ frag) = (map_of ps ''code'', map_of ps ''state'')"
proof -
  have "split_once (CHR ''?'') (base @ CHR ''?'' # (query_text ps @ frag)) = Some (base, query_text ps @ frag)"
    using assms(2) by (intro split_once_append) (simp add: callback_parts_def)
  moreover have "hd (split_on (CHR ''#'') (query_text ps @ frag)) = query_text ps"
    using assms(2) query_text_fresh
    by (cases frag) (auto simp: callback_parts_def hd_split_on takeWhile_append takeWhile_eq_all_conv)
  ultimately show ?thesis
    using trim_callback [OF assms(2), of ps] parse_query_text [OF assms(1)]
    by (simp add: parse_oauth_code_input_def build_url_with_query_def Let_def)
qed

text \<open>C34. What is written as a query is read back pair by pair, whatever bytes the names and values
  hold; and from a pasted callback address the code and the state of its query are taken, with any
  fragment after it left aside.
\<close>

theorem callback_url_read:
  assumes "\<forall>kv \<in> set ps. valid_utf8 (fst kv) \<and> valid_utf8 (snd kv)" "callback_parts base frag"
  shows "parse_query_pairs (query_text ps) = ps \<and>
    parse_oauth_code_input (build_url_with_query base ps @ frag) = (map_of ps ''code'', map_of ps ''state'')"
  using parse_query_text [OF assms(1)] parse_callback [OF assms] ..

lemma callback_url_read_witness:
  "parse_oauth_code_input
     (build_url_with_query ''http://localhost:1455/auth/callback'' [(''code'', ''a b&c''), (''state'', ''x=1'')] @ ''#_=_'')
     = (Some ''a b&c'', Some ''x=1'')"
  using callback_url_read [of "[(''code'', ''a b&c''), (''state'', ''x=1'')]" "''http://localhost:1455/auth/callback''" "''#_=_''"]
  by (simp add: callback_parts_def is_ws_def valid_utf8_ascii)

end
