(* ===== verification/Pi_Credentials.thy ===== *)
theory Pi_Credentials
  imports Provider_Table Pi_Encoding
begin

text \<open>
  The credentials of \<open>patches/pi_agent_rust/src/auth.rs\<close>: what is stored per provider, how an entry is
  found under the provider's other names, which key a request gets, what logging out and pruning
  remove. The entries are a list in the order in which the hash map yields them, which is any order.
  Times are milliseconds in an \<open>i64\<close>. The environment, the files, the clock and JSON are arguments.
\<close>

section \<open>Stored credentials\<close>

datatype auth_credential =
    ApiKey string
  | OAuth string string int "string option" "string option"
  | AwsCredentials string string "string option" "string option"
  | BearerToken string
  | ServiceKey "string option" "string option" "string option" "string option"

text \<open>\<open>OAuth access refresh expires token_url client_id\<close>, \<open>AwsCredentials id secret session region\<close>,
  \<open>ServiceKey client_id client_secret token_url service_url\<close>.\<close>

datatype credential_status =
    MissingStatus
  | ApiKeyStatus
  | OAuthValid int
  | OAuthExpired int
  | BearerTokenStatus
  | AwsCredentialsStatus
  | ServiceKeyStatus

type_synonym entries = "(string \<times> auth_credential) list"

record auth_storage =
  storage_path :: string
  stored :: entries

record pi_env =
  env_var :: "string \<rightharpoonup> string"
  read_text :: "string \<rightharpoonup> string"
  json_of :: "string \<Rightarrow> json res"
  text_of :: "json \<Rightarrow> string"
  now_ms :: int
  auth_path :: string

definition sat_i64 :: "int \<Rightarrow> int" where
  "sat_i64 n = max (- (2 ^ 63)) (min (2 ^ 63 - 1) n)"

definition wrap_i64 :: "int \<Rightarrow> int" where
  "wrap_i64 n = (n + 2 ^ 63) mod 2 ^ 64 - 2 ^ 63"

definition allow_external_provider_lookup :: "pi_env \<Rightarrow> auth_storage \<Rightarrow> bool" where
  "allow_external_provider_lookup e st = (storage_path st = auth_path e)"

definition entry_case_insensitive :: "entries \<Rightarrow> string \<Rightarrow> auth_credential option" where
  "entry_case_insensitive es key = find_map (\<lambda>(k, c). if eq_ignore_case k key then Some c else None) es"

text \<open>\<open>entries.get(name).or_else(entry_case_insensitive(name))\<close>.\<close>

definition entry_named :: "entries \<Rightarrow> string \<Rightarrow> auth_credential option" where
  "entry_named es n = (case map_of es n of Some c \<Rightarrow> Some c | None \<Rightarrow> entry_case_insensitive es n)"

definition credential_for_provider :: "entries \<Rightarrow> string \<Rightarrow> auth_credential option" where
  "credential_for_provider es p =
     (case entry_named es p of
        Some c \<Rightarrow> Some c
      | None \<Rightarrow>
          (case provider_metadata p of
             None \<Rightarrow> None
           | Some m \<Rightarrow>
               (case entry_named es (canonical_id m) of
                  Some c \<Rightarrow> Some c
                | None \<Rightarrow> find_map (entry_named es) (aliases m))))"

definition get_entry :: "auth_storage \<Rightarrow> string \<Rightarrow> auth_credential option" where
  "get_entry st p = map_of (stored st) p"

definition set_entry :: "string \<Rightarrow> auth_credential \<Rightarrow> auth_storage \<Rightarrow> auth_storage" where
  "set_entry p c st = st\<lparr>stored := AList.update p c (stored st)\<rparr>"

definition remove_entry :: "string \<Rightarrow> auth_storage \<Rightarrow> auth_storage \<times> bool" where
  "remove_entry p st = (st\<lparr>stored := AList.delete p (stored st)\<rparr>, map_of (stored st) p \<noteq> None)"

definition provider_names :: "auth_storage \<Rightarrow> string list" where
  "provider_names st = sort (map fst (stored st))"

definition has_stored_credential :: "auth_storage \<Rightarrow> string \<Rightarrow> bool" where
  "has_stored_credential st p = (credential_for_provider (stored st) p \<noteq> None)"

section \<open>The key in a credential\<close>

definition api_key_from_credential :: "int \<Rightarrow> auth_credential \<Rightarrow> string option" where
  "api_key_from_credential now c =
     (case c of
        ApiKey k \<Rightarrow> Some k
      | OAuth a _ x _ _ \<Rightarrow> if x > now then Some a else None
      | BearerToken t \<Rightarrow> Some t
      | AwsCredentials i _ _ _ \<Rightarrow> Some i
      | ServiceKey _ _ _ _ \<Rightarrow> None)"

definition api_key :: "pi_env \<Rightarrow> auth_storage \<Rightarrow> string \<Rightarrow> string option" where
  "api_key e st p = Option.bind (credential_for_provider (stored st) p) (api_key_from_credential (now_ms e))"

definition anthropic_marker :: string where
  "anthropic_marker = ''__pi_anthropic_oauth_bearer__:''"

definition mark_anthropic_oauth_bearer_token :: "string \<Rightarrow> string" where
  "mark_anthropic_oauth_bearer_token t = anthropic_marker @ t"

definition unmark_anthropic_oauth_bearer_token :: "string \<Rightarrow> string option" where
  "unmark_anthropic_oauth_bearer_token t = strip_prefix anthropic_marker t"

text \<open>A Google access token is stored with the project it is for.\<close>

definition encode_project_scoped_access_token :: "(json \<Rightarrow> string) \<Rightarrow> string \<Rightarrow> string \<Rightarrow> string" where
  "encode_project_scoped_access_token to_text token project_id =
     to_text (JObj [(''token'', JStr token), (''projectId'', JStr project_id)])"

definition text_field :: "json option \<Rightarrow> string option" where
  "text_field j = Option.bind (Option.bind j as_str) (\<lambda>s. nonempty (trim s))"

definition or_get :: "string \<Rightarrow> string \<Rightarrow> json \<Rightarrow> json option" where
  "or_get k k' j = (case jget k j of Some v \<Rightarrow> Some v | None \<Rightarrow> jget k' j)"

definition decode_project_scoped_access_token :: "(string \<Rightarrow> json res) \<Rightarrow> string \<Rightarrow> (string \<times> string) option" where
  "decode_project_scoped_access_token of_text payload =
     (case of_text payload of
        Inl _ \<Rightarrow> None
      | Inr v \<Rightarrow>
          (case (text_field (jget ''token'' v), text_field (or_get ''projectId'' ''project_id'' v)) of
             (Some t, Some p) \<Rightarrow> Some (t, p) | _ \<Rightarrow> None))"

section \<open>Credentials of other programs\<close>

definition join_path :: "string \<Rightarrow> string \<Rightarrow> string" where
  "join_path p q = (if p = [] then q else if last p = CHR ''/'' then p @ q else p @ ''/'' @ q)"

definition env_text :: "(string \<rightharpoonup> string) \<Rightarrow> string \<Rightarrow> string option" where
  "env_text env k = Option.bind (env k) (\<lambda>v. nonempty (trim v))"

definition home_dir_with_env_lookup :: "(string \<rightharpoonup> string) \<Rightarrow> string option" where
  "home_dir_with_env_lookup env =
     (case env_text env ''HOME'' of
        Some h \<Rightarrow> Some h
      | None \<Rightarrow>
          (case env_text env ''USERPROFILE'' of
             Some h \<Rightarrow> Some h
           | None \<Rightarrow>
               (case (env_text env ''HOMEDRIVE'', env_text env ''HOMEPATH'') of
                  (Some d, Some p) \<Rightarrow>
                    Some (if hd p = CHR 0x5C \<or> hd p = CHR ''/'' then d @ p else join_path d p)
                | _ \<Rightarrow> None)))"

definition home_dir :: "pi_env \<Rightarrow> string option" where
  "home_dir e = home_dir_with_env_lookup (env_var e)"

definition kimi_share_dir_with_env_lookup :: "(string \<rightharpoonup> string) \<Rightarrow> string option" where
  "kimi_share_dir_with_env_lookup env =
     (case env_text env ''KIMI_SHARE_DIR'' of
        Some d \<Rightarrow> Some d
      | None \<Rightarrow> map_option (\<lambda>h. join_path h ''.kimi'') (home_dir_with_env_lookup env))"

definition read_external_json :: "pi_env \<Rightarrow> string \<Rightarrow> json option" where
  "read_external_json e path = Option.bind (read_text e path) (\<lambda>t. res_ok (json_of e t))"

definition read_external_claude_access_token :: "pi_env \<Rightarrow> string option" where
  "read_external_claude_access_token e =
     (case home_dir e of
        None \<Rightarrow> None
      | Some h \<Rightarrow>
          (case read_external_json e (join_path (join_path h ''.claude'') ''.credentials.json'') of
             None \<Rightarrow> None
           | Some v \<Rightarrow> text_field (Option.bind (jget ''claudeAiOauth'' v) (jget ''accessToken''))))"

definition read_external_codex_auth :: "pi_env \<Rightarrow> json option" where
  "read_external_codex_auth e =
     (case home_dir e of
        None \<Rightarrow> None
      | Some h \<Rightarrow>
          find_map (read_external_json e)
            [join_path (join_path h ''.codex'') ''auth.json'',
             join_path (join_path (join_path h ''.config'') ''codex'') ''auth.json''])"

definition codex_access_token_from_value :: "json \<Rightarrow> string option" where
  "codex_access_token_from_value v =
     (let tokens = jget ''tokens'' v;
          candidates = [Option.bind tokens (jget ''access_token''), Option.bind tokens (jget ''accessToken''),
            jget ''access_token'' v, jget ''accessToken'' v, jget ''token'' v]
      in find_map (\<lambda>j. case Option.bind j as_str of
                          None \<Rightarrow> None
                        | Some s \<Rightarrow> if trim s \<noteq> [] \<and> \<not> starts_with (trim s) ''sk-'' then Some (trim s) else None)
           candidates)"

definition codex_openai_api_key_from_value :: "json \<Rightarrow> string option" where
  "codex_openai_api_key_from_value v =
     (let env = jget ''env'' v;
          candidates = [jget ''OPENAI_API_KEY'' v, jget ''openai_api_key'' v, jget ''openaiApiKey'' v,
            Option.bind env (jget ''OPENAI_API_KEY''), Option.bind env (jget ''openai_api_key''),
            Option.bind env (jget ''openaiApiKey'')]
      in find_map text_field candidates)"

definition read_external_codex_access_token :: "pi_env \<Rightarrow> string option" where
  "read_external_codex_access_token e = Option.bind (read_external_codex_auth e) codex_access_token_from_value"

definition read_external_codex_openai_api_key :: "pi_env \<Rightarrow> string option" where
  "read_external_codex_openai_api_key e = Option.bind (read_external_codex_auth e) codex_openai_api_key_from_value"

definition google_project_id_from_env :: "pi_env \<Rightarrow> string option" where
  "google_project_id_from_env e =
     Option.bind (case env_var e ''GOOGLE_CLOUD_PROJECT'' of
                    Some v \<Rightarrow> Some v | None \<Rightarrow> env_var e ''GOOGLE_CLOUD_PROJECT_ID'')
       (\<lambda>v. nonempty (trim v))"

definition gcloud_config_dir_with_env_lookup :: "(string \<rightharpoonup> string) \<Rightarrow> string option" where
  "gcloud_config_dir_with_env_lookup env =
     (case env_text env ''CLOUDSDK_CONFIG'' of
        Some d \<Rightarrow> Some d
      | None \<Rightarrow>
          (case env_text env ''APPDATA'' of
             Some d \<Rightarrow> Some (join_path d ''gcloud'')
           | None \<Rightarrow>
               (case env_text env ''XDG_CONFIG_HOME'' of
                  Some d \<Rightarrow> Some (join_path d ''gcloud'')
                | None \<Rightarrow>
                    map_option (\<lambda>h. join_path (join_path h ''.config'') ''gcloud'')
                      (home_dir_with_env_lookup env))))"

definition gcloud_active_config_name_with_env_lookup :: "(string \<rightharpoonup> string) \<Rightarrow> string" where
  "gcloud_active_config_name_with_env_lookup env =
     (case env_text env ''CLOUDSDK_ACTIVE_CONFIG_NAME'' of Some n \<Rightarrow> n | None \<Rightarrow> ''default'')"

text \<open>The project of the section \<open>core\<close>.\<close>

fun gcloud_project :: "string option \<Rightarrow> string list \<Rightarrow> string option" where
  "gcloud_project sec [] = None"
| "gcloud_project sec (raw # ls) =
     (let line = trim raw in
      if line = [] \<or> starts_with line ''#'' \<or> starts_with line '';'' then gcloud_project sec ls
      else
        (case Option.bind (strip_prefix ''['' line) (strip_suffix '']'') of
           Some rest \<Rightarrow> gcloud_project (Some (trim rest)) ls
         | None \<Rightarrow>
             (if sec \<noteq> Some ''core'' then gcloud_project sec ls
              else
                (case split_once (CHR ''='') line of
                   None \<Rightarrow> gcloud_project sec ls
                 | Some (key, val) \<Rightarrow>
                     if trim key \<noteq> ''project'' \<or> trim val = [] then gcloud_project sec ls
                     else Some (trim val)))))"

definition google_project_id_from_gcloud_config :: "pi_env \<Rightarrow> string option" where
  "google_project_id_from_gcloud_config e =
     (case gcloud_config_dir_with_env_lookup (env_var e) of
        None \<Rightarrow> None
      | Some dir \<Rightarrow>
          (case read_text e (join_path (join_path dir ''configurations'')
                  (''config_'' @ gcloud_active_config_name_with_env_lookup (env_var e))) of
             None \<Rightarrow> None
           | Some content \<Rightarrow> gcloud_project None (str_lines content)))"

text \<open>The first file with a token decides, unless no project can be found for it.\<close>

fun gemini_payload :: "pi_env \<Rightarrow> string option \<Rightarrow> string list \<Rightarrow> string option" where
  "gemini_payload e project_id [] = None"
| "gemini_payload e project_id (path # paths) =
     (case read_external_json e path of
        None \<Rightarrow> gemini_payload e project_id paths
      | Some v \<Rightarrow>
          (case text_field (jget ''access_token'' v) of
             None \<Rightarrow> gemini_payload e project_id paths
           | Some token \<Rightarrow>
               (case (case project_id of
                        Some p \<Rightarrow> Some p
                      | None \<Rightarrow>
                          (case text_field (or_get ''projectId'' ''project_id'' v) of
                             Some p \<Rightarrow> Some p
                           | None \<Rightarrow> google_project_id_from_gcloud_config e)) of
                  None \<Rightarrow> None
                | Some project \<Rightarrow>
                    if trim project = [] then gemini_payload e project_id paths
                    else Some (encode_project_scoped_access_token (text_of e) token (trim project)))))"

definition read_external_gemini_access_payload :: "pi_env \<Rightarrow> string option \<Rightarrow> string option" where
  "read_external_gemini_access_payload e project_id =
     (case home_dir e of
        None \<Rightarrow> None
      | Some h \<Rightarrow>
          gemini_payload e project_id
            [join_path (join_path h ''.gemini'') ''oauth_creds.json'',
             join_path (join_path (join_path h ''.config'') ''gemini'') ''credentials.json''])"

text \<open>The expiry is a number of seconds, which the code reads as an \<open>f64\<close>; here it is exact.\<close>

definition number_of :: "json \<Rightarrow> rat option" where
  "number_of j = (case j of JInt i \<Rightarrow> Some (of_int i) | JFloat r \<Rightarrow> Some r | _ \<Rightarrow> None)"

definition kimi_access_token_from_share_dir :: "pi_env \<Rightarrow> string \<Rightarrow> string option" where
  "kimi_access_token_from_share_dir e share_dir =
     (case read_external_json e (join_path (join_path share_dir ''credentials'') ''kimi-code.json'') of
        None \<Rightarrow> None
      | Some v \<Rightarrow>
          (case text_field (jget ''access_token'' v) of
             None \<Rightarrow> None
           | Some token \<Rightarrow>
               (case Option.bind (jget ''expires_at'' v) number_of of
                  Some x \<Rightarrow> if x \<le> of_int (now_ms e div 1000) then None else Some token
                | None \<Rightarrow> Some token)))"

definition read_external_kimi_code_access_token :: "pi_env \<Rightarrow> string option" where
  "read_external_kimi_code_access_token e =
     Option.bind (kimi_share_dir_with_env_lookup (env_var e)) (kimi_access_token_from_share_dir e)"

definition antigravity_default_project :: string where
  "antigravity_default_project = ''rising-fact-p41fc''"

definition gemini_cli_project :: "pi_env \<Rightarrow> string option" where
  "gemini_cli_project e =
     (case google_project_id_from_env e of Some p \<Rightarrow> Some p | None \<Rightarrow> google_project_id_from_gcloud_config e)"

definition antigravity_project :: "pi_env \<Rightarrow> string" where
  "antigravity_project e =
     (case google_project_id_from_env e of Some p \<Rightarrow> p | None \<Rightarrow> antigravity_default_project)"

definition canonical_or_self :: "string \<Rightarrow> string" where
  "canonical_or_self p = (case canonical_provider_id p of Some c \<Rightarrow> c | None \<Rightarrow> p)"

definition resolve_external_provider_api_key :: "pi_env \<Rightarrow> string \<Rightarrow> string option" where
  "resolve_external_provider_api_key e p =
     (let c = canonical_or_self p in
      if c = ''anthropic'' then map_option mark_anthropic_oauth_bearer_token (read_external_claude_access_token e)
      else if c = ''openai'' then read_external_codex_openai_api_key e
      else if c = ''openai-codex'' then read_external_codex_access_token e
      else if c = ''google-gemini-cli'' then read_external_gemini_access_payload e (gemini_cli_project e)
      else if c = ''google-antigravity'' then read_external_gemini_access_payload e (Some (antigravity_project e))
      else if c = ''kimi-for-coding'' then read_external_kimi_code_access_token e
      else None)"

definition external_setup_source :: "pi_env \<Rightarrow> string \<Rightarrow> string option" where
  "external_setup_source e p =
     (let c = canonical_or_self p in
      if c = ''anthropic'' \<and> read_external_claude_access_token e \<noteq> None
      then Some ''Claude Code (~/.claude/.credentials.json)''
      else if c = ''openai'' \<and> read_external_codex_openai_api_key e \<noteq> None
      then Some ''Codex (~/.codex/auth.json)''
      else if c = ''openai-codex'' \<and> read_external_codex_access_token e \<noteq> None
      then Some ''Codex (~/.codex/auth.json)''
      else if c = ''google-gemini-cli''
      then (if read_external_gemini_access_payload e (gemini_cli_project e) \<noteq> None
            then Some ''Gemini CLI (~/.gemini/oauth_creds.json)'' else None)
      else if c = ''google-antigravity''
      then (if read_external_gemini_access_payload e (Some (antigravity_project e)) \<noteq> None
            then Some ''Gemini CLI (~/.gemini/oauth_creds.json)'' else None)
      else if c = ''kimi-for-coding'' \<and> read_external_kimi_code_access_token e \<noteq> None
      then Some ''Kimi CLI (~/.kimi/credentials/kimi-code.json or $KIMI_SHARE_DIR/credentials/kimi-code.json)''
      else None)"

definition storage_external_setup_source :: "pi_env \<Rightarrow> auth_storage \<Rightarrow> string \<Rightarrow> string option" where
  "storage_external_setup_source e st p =
     (if allow_external_provider_lookup e st then external_setup_source e p else None)"

section \<open>The key for a request\<close>

text \<open>A stored login goes before the environment, the environment before a stored key.\<close>

definition stored_login :: "pi_env \<Rightarrow> auth_storage \<Rightarrow> string \<Rightarrow> string option" where
  "stored_login e st p =
     (case credential_for_provider (stored st) p of
        None \<Rightarrow> None
      | Some c \<Rightarrow>
          (case c of
             OAuth _ _ _ _ _ \<Rightarrow>
               if canonical_or_self p = ''anthropic''
               then map_option mark_anthropic_oauth_bearer_token (api_key_from_credential (now_ms e) c)
               else api_key_from_credential (now_ms e) c
           | BearerToken _ \<Rightarrow> api_key_from_credential (now_ms e) c
           | _ \<Rightarrow> None))"

definition allowed_external :: "pi_env \<Rightarrow> auth_storage \<Rightarrow> string \<Rightarrow> string option" where
  "allowed_external e st p =
     (if allow_external_provider_lookup e st then resolve_external_provider_api_key e p else None)"

definition resolve_api_key :: "pi_env \<Rightarrow> auth_storage \<Rightarrow> string \<Rightarrow> string option \<Rightarrow> string option" where
  "resolve_api_key e st p override_key =
     (case override_key of Some k \<Rightarrow> Some k | None \<Rightarrow>
      (case stored_login e st p of Some k \<Rightarrow> Some k | None \<Rightarrow>
       (case find_map (env_text (env_var e)) (provider_auth_env_keys p) of Some k \<Rightarrow> Some k | None \<Rightarrow>
        (case api_key e st p of Some k \<Rightarrow> Some k | None \<Rightarrow>
         (case allowed_external e st p of Some k \<Rightarrow> Some k | None \<Rightarrow>
          (case canonical_provider_id p of
             None \<Rightarrow> None
           | Some c \<Rightarrow>
               if c = p then None
               else (case api_key e st c of Some k \<Rightarrow> Some k | None \<Rightarrow> allowed_external e st c)))))))"

definition credential_status_of :: "pi_env \<Rightarrow> auth_storage \<Rightarrow> string \<Rightarrow> credential_status" where
  "credential_status_of e st p =
     (case credential_for_provider (stored st) p of
        None \<Rightarrow> (if allowed_external e st p \<noteq> None then ApiKeyStatus else MissingStatus)
      | Some c \<Rightarrow>
          (case c of
             ApiKey _ \<Rightarrow> ApiKeyStatus
           | OAuth _ _ x _ _ \<Rightarrow>
               if x > now_ms e then OAuthValid (sat_i64 (x - now_ms e)) else OAuthExpired (sat_i64 (now_ms e - x))
           | BearerToken _ \<Rightarrow> BearerTokenStatus
           | AwsCredentials _ _ _ _ \<Rightarrow> AwsCredentialsStatus
           | ServiceKey _ _ _ _ \<Rightarrow> ServiceKeyStatus))"

section \<open>Logging out and pruning\<close>

definition alias_targets :: "string \<Rightarrow> string list" where
  "alias_targets trimmed =
     to_lowercase trimmed #
       (case provider_metadata trimmed of
          None \<Rightarrow> [] | Some m \<Rightarrow> to_lowercase (canonical_id m) # map to_lowercase (aliases m))"

definition remove_provider_aliases :: "string \<Rightarrow> auth_storage \<Rightarrow> auth_storage \<times> bool" where
  "remove_provider_aliases p st =
     (if trim p = [] then (st, False)
      else
        (let targets = remdups (sort (alias_targets (trim p)));
             hit = (\<lambda>(k, c). list_ex (eq_ignore_case k) targets)
         in (st\<lparr>stored := filter (\<lambda>kc. \<not> hit kc) (stored st)\<rparr>, list_ex hit (stored st))))"

definition stale :: "int \<Rightarrow> auth_credential \<Rightarrow> bool" where
  "stale cutoff c = (case c of OAuth _ _ x u i \<Rightarrow> x < cutoff \<and> u = None \<and> i = None | _ \<Rightarrow> False)"

definition prune_stale_credentials :: "pi_env \<Rightarrow> int \<Rightarrow> auth_storage \<Rightarrow> auth_storage \<times> string list" where
  "prune_stale_credentials e max_age_ms st =
     (let cutoff = wrap_i64 (now_ms e - max_age_ms) in
      (st\<lparr>stored := filter (\<lambda>(k, c). \<not> stale cutoff c) (stored st)\<rparr>,
       map fst (filter (\<lambda>(k, c). stale cutoff c) (stored st))))"

section \<open>Names of one provider\<close>

text \<open>Two names are the same provider when they differ in case only or lead to the same entry of the table.\<close>

definition same_provider :: "string \<Rightarrow> string \<Rightarrow> bool" where
  "same_provider k p \<longleftrightarrow> eq_ignore_case k p \<or> (provider_metadata k \<noteq> None \<and> provider_metadata k = provider_metadata p)"

lemma same_provider_refl [simp]: "same_provider p p"
  by (simp add: same_provider_def eq_ignore_case_def)

lemma same_provider_sym: "same_provider k p \<Longrightarrow> same_provider p k"
  unfolding same_provider_def eq_ignore_case_def by metis

lemma same_provider_trans: "same_provider k p \<Longrightarrow> same_provider p q \<Longrightarrow> same_provider k q"
  using provider_metadata_same_case unfolding same_provider_def eq_ignore_case_def by metis

lemma named_by: "provider_metadata p = Some m \<Longrightarrow> (\<exists>n \<in> set (names m). eq_ignore_case k n) \<longleftrightarrow> provider_metadata k = Some m"
  using table_name_lower unfolding provider_metadata_iff eq_ignore_case_def by metis

lemma name_is_same: "provider_metadata p = Some m \<Longrightarrow> n \<in> set (names m) \<Longrightarrow> eq_ignore_case k n \<Longrightarrow> same_provider k p"
  using named_by [of p m k] unfolding same_provider_def by auto

lemma entry_named_None: "entry_named es n = None \<longleftrightarrow> (\<forall>kc \<in> set es. \<not> eq_ignore_case (fst kc) n)"
proof -
  have "entry_case_insensitive es n = None \<longleftrightarrow> (\<forall>kc \<in> set es. \<not> eq_ignore_case (fst kc) n)"
    by (simp add: entry_case_insensitive_def case_prod_unfold)
  moreover have "map_of es n = None" if "\<forall>kc \<in> set es. \<not> eq_ignore_case (fst kc) n"
    using that by (auto simp: map_of_eq_None_iff eq_ignore_case_def)
  ultimately show ?thesis by (auto simp: entry_named_def split: option.split)
qed

lemma entry_named_Some: "entry_named es n = Some c \<Longrightarrow> \<exists>k. (k, c) \<in> set es \<and> eq_ignore_case k n"
  unfolding entry_named_def entry_case_insensitive_def
  by (auto simp: eq_ignore_case_def dest!: map_of_SomeD find_map_Some split: option.splits if_splits)

lemma credential_None: "credential_for_provider es p = None \<longleftrightarrow> (\<forall>kc \<in> set es. \<not> same_provider (fst kc) p)"
proof (cases "provider_metadata p")
  case None
  then have "same_provider k p \<longleftrightarrow> eq_ignore_case k p" for k by (auto simp: same_provider_def)
  with None entry_named_None [of es p] show ?thesis by (auto simp: credential_for_provider_def split: option.split)
next
  case (Some m)
  have "credential_for_provider es p = None \<longleftrightarrow>
      entry_named es p = None \<and> (\<forall>n \<in> set (names m). entry_named es n = None)"
    by (auto simp: credential_for_provider_def Some names_def split: option.splits)
  also have "(\<forall>n \<in> set (names m). entry_named es n = None) \<longleftrightarrow> (\<forall>kc \<in> set es. provider_metadata (fst kc) \<noteq> Some m)"
    unfolding entry_named_None using named_by [OF Some] by blast
  also have "entry_named es p = None \<and> \<dots> \<longleftrightarrow> (\<forall>kc \<in> set es. \<not> same_provider (fst kc) p)"
    unfolding entry_named_None same_provider_def Some by auto
  finally show ?thesis .
qed

lemma credential_Some: "credential_for_provider es p = Some c \<Longrightarrow> \<exists>k. (k, c) \<in> set es \<and> same_provider k p"
proof -
  assume c: "credential_for_provider es p = Some c"
  show ?thesis
  proof (cases "entry_named es p")
    case (Some d)
    with c entry_named_Some [of es p c] show ?thesis by (auto simp: credential_for_provider_def same_provider_def)
  next
    case None
    with c obtain m where m: "provider_metadata p = Some m"
      by (auto simp: credential_for_provider_def split: option.splits)
    with c None obtain n where "n \<in> set (names m)" "entry_named es n = Some c"
      by (auto simp: credential_for_provider_def names_def dest!: find_map_Some split: option.splits)
    with entry_named_Some name_is_same [OF m] show ?thesis by blast
  qed
qed

lemma map_of_filter_key: "Q n \<Longrightarrow> map_of (filter (\<lambda>kc. Q (fst kc)) es) n = map_of es n"
  by (induction es) auto

lemma find_map_filter: "(\<And>x. x \<in> set xs \<Longrightarrow> \<not> Q x \<Longrightarrow> f x = None) \<Longrightarrow> find_map f (filter Q xs) = find_map f xs"
  by (induction xs) (auto split: option.splits)

lemma entry_named_filter:
  "(\<And>k. eq_ignore_case k n \<Longrightarrow> Q k) \<Longrightarrow> entry_named (filter (\<lambda>kc. Q (fst kc)) es) n = entry_named es n"
  unfolding entry_named_def entry_case_insensitive_def
  by (subst find_map_filter) (auto simp: map_of_filter_key eq_ignore_case_def split: option.split)

lemma credential_filter:
  assumes "\<And>k. same_provider k p \<Longrightarrow> Q k"
  shows "credential_for_provider (filter (\<lambda>kc. Q (fst kc)) es) p = credential_for_provider es p"
proof -
  have own: "entry_named (filter (\<lambda>kc. Q (fst kc)) es) p = entry_named es p"
    by (rule entry_named_filter) (simp add: assms same_provider_def)
  have named: "entry_named (filter (\<lambda>kc. Q (fst kc)) es) n = entry_named es n"
    if "provider_metadata p = Some m" "n \<in> set (names m)" for m n
    by (rule entry_named_filter) (rule assms [OF name_is_same [OF that]])
  then have "find_map (entry_named (filter (\<lambda>kc. Q (fst kc)) es)) (aliases m) = find_map (entry_named es) (aliases m)"
    if "provider_metadata p = Some m" for m
    using that by (intro find_map_cong) (simp add: names_def)
  with named show ?thesis
    by (auto simp: credential_for_provider_def own names_def split: option.split)
qed

lemma credential_only_same:
  "filter (\<lambda>kc. same_provider (fst kc) p) es = filter (\<lambda>kc. same_provider (fst kc) p) es' \<Longrightarrow>
     credential_for_provider es p = credential_for_provider es' p"
  using credential_filter [of p "\<lambda>k. same_provider k p" es] credential_filter [of p "\<lambda>k. same_provider k p" es']
  by simp

lemma list_ex_sorted: "list_ex P (remdups (sort xs)) = list_ex P xs"
  by (simp add: list_ex_iff)

lemma target_hit: "list_ex (eq_ignore_case k) (remdups (sort (alias_targets t))) \<longleftrightarrow> same_provider k t"
proof -
  have "list_ex (eq_ignore_case k) (remdups (sort (alias_targets t))) \<longleftrightarrow>
      eq_ignore_case k t \<or> (\<exists>m. provider_metadata t = Some m \<and> (\<exists>n \<in> set (names m). eq_ignore_case k n))"
    unfolding list_ex_sorted
    by (cases "provider_metadata t")
      (simp_all add: list_ex_iff alias_targets_def eq_ignore_case_def to_lowercase_idem names_def)
  also have "\<dots> \<longleftrightarrow> same_provider k t"
    using named_by [of t _ k] by (cases "provider_metadata t") (auto simp: same_provider_def)
  finally show ?thesis .
qed

lemma remove_provider_aliases_filter:
  "trim p \<noteq> [] \<Longrightarrow> remove_provider_aliases p st =
     (st\<lparr>stored := filter (\<lambda>kc. \<not> same_provider (fst kc) (trim p)) (stored st)\<rparr>,
      credential_for_provider (stored st) (trim p) \<noteq> None)"
proof -
  have "credential_for_provider (stored st) (trim p) \<noteq> None \<longleftrightarrow> list_ex (\<lambda>kc. same_provider (fst kc) (trim p)) (stored st)"
    unfolding credential_None list_ex_iff by blast
  then show "trim p \<noteq> [] \<Longrightarrow> ?thesis" by (simp only: remove_provider_aliases_def target_hit case_prod_unfold Let_def if_False)
qed

text \<open>C18. Logging a provider out removes every credential a request for it could use, under any of its
  names and in any case, and reports whether there was one; the credentials of other providers are
  found as before.
\<close>

theorem logout_removes_all_names:
  assumes "trim p \<noteq> []" "remove_provider_aliases p st = (st', removed)"
  shows "credential_for_provider (stored st') q =
      (if same_provider q (trim p) then None else credential_for_provider (stored st) q) \<and>
    removed = has_stored_credential st (trim p)"
proof -
  have st': "stored st' = filter (\<lambda>kc. \<not> same_provider (fst kc) (trim p)) (stored st)"
    and r: "removed = has_stored_credential st (trim p)"
    using assms by (auto simp: remove_provider_aliases_filter has_stored_credential_def)
  show ?thesis
  proof (cases "same_provider q (trim p)")
    case True
    then have "credential_for_provider (stored st') q = None"
      unfolding credential_None st' using same_provider_trans by auto
    with True r show ?thesis by simp
  next
    case False
    then have "credential_for_provider (stored st') q = credential_for_provider (stored st) q"
      unfolding st' using same_provider_trans same_provider_sym by (intro credential_filter) blast
    with False r show ?thesis by simp
  qed
qed

lemma logout_removes_all_names_witness:
  "credential_for_provider (stored (fst (remove_provider_aliases '' OpenAI-Codex ''
     \<lparr>storage_path = [], stored = [(''Codex'', ApiKey ''k''), (''openai'', ApiKey ''l'')]\<rparr>))) ''chatgpt-codex'' = None"
proof -
  let ?st = "\<lparr>storage_path = [], stored = [(''Codex'', ApiKey ''k''), (''openai'', ApiKey ''l'')]\<rparr>"
  have t: "trim '' OpenAI-Codex '' = ''OpenAI-Codex''"
    by (simp add: trim_def trim_start_def trim_end_def is_ws_def)
  let ?m = "known_provider ''openai-codex'' ''OpenAI Codex (ChatGPT)'' [''codex'', ''chatgpt-codex''] [] NativeAdapterRequired None"
  have m: "?m \<in> set provider_table" by (simp add: provider_parts)
  have "provider_metadata ''chatgpt-codex'' = Some ?m" by (rule canonical_name_found [OF m]) (simp add: names_known_provider)
  moreover have "to_lowercase ''OpenAI-Codex'' = ''openai-codex''" by code_simp
  then have "provider_metadata ''OpenAI-Codex'' = Some ?m" using m by (simp add: provider_metadata_iff names_known_provider)
  ultimately have "same_provider ''chatgpt-codex'' ''OpenAI-Codex''" by (simp add: same_provider_def)
  with logout_removes_all_names [of "'' OpenAI-Codex ''" ?st "fst (remove_provider_aliases '' OpenAI-Codex '' ?st)"
      "snd (remove_provider_aliases '' OpenAI-Codex '' ?st)" "''chatgpt-codex''"] t
  show ?thesis by simp
qed

section \<open>Where a key comes from\<close>

lemma canonical_same: "canonical_provider_id p = Some c \<Longrightarrow> provider_metadata c = provider_metadata p \<and> provider_metadata p \<noteq> None"
proof -
  assume "canonical_provider_id p = Some c"
  then obtain m where m: "provider_metadata p = Some m" "c = canonical_id m" by (auto simp: canonical_provider_id_def)
  then have "m \<in> set provider_table" by (simp add: provider_metadata_iff)
  with m canonical_name_found [of m c] show ?thesis by (simp add: names_def)
qed

lemma canonical_or_self_canonical: "canonical_provider_id p = Some c \<Longrightarrow> canonical_or_self c = canonical_or_self p"
  using canonical_same [of p c] by (auto simp: canonical_or_self_def canonical_provider_id_def)

lemma external_canonical: "canonical_provider_id p = Some c \<Longrightarrow> allowed_external e st c = allowed_external e st p"
  by (simp add: allowed_external_def resolve_external_provider_api_key_def canonical_or_self_canonical)

definition usable_entry :: "pi_env \<Rightarrow> auth_storage \<Rightarrow> string \<Rightarrow> string \<Rightarrow> bool" where
  "usable_entry e st p k \<longleftrightarrow>
     (\<exists>n c. (n, c) \<in> set (stored st) \<and> same_provider n p \<and> api_key_from_credential (now_ms e) c = Some k)"

lemma api_key_usable: "api_key e st p = Some k \<Longrightarrow> usable_entry e st p k"
  using credential_Some by (fastforce simp: api_key_def usable_entry_def bind_eq_Some_conv)

lemma usable_canonical: "canonical_provider_id p = Some c \<Longrightarrow> usable_entry e st c k \<Longrightarrow> usable_entry e st p k"
  using canonical_same [of p c] same_provider_trans [of _ c p] unfolding usable_entry_def same_provider_def by metis

lemma stored_login_usable:
  "stored_login e st p = Some k \<Longrightarrow>
     usable_entry e st p k \<or> (\<exists>t. usable_entry e st p t \<and> k = mark_anthropic_oauth_bearer_token t)"
proof -
  assume k: "stored_login e st p = Some k"
  then obtain c where c: "credential_for_provider (stored st) p = Some c" by (auto simp: stored_login_def split: option.splits)
  with credential_Some obtain n where "(n, c) \<in> set (stored st)" "same_provider n p" by blast
  then have "api_key_from_credential (now_ms e) c = Some t \<Longrightarrow> usable_entry e st p t" for t
    unfolding usable_entry_def by blast
  with k c show ?thesis by (auto simp: stored_login_def split: auth_credential.splits if_splits)
qed


lemma login_in_force_wins:
  assumes "credential_for_provider (stored st) p = Some (OAuth a r x u i)" "x > now_ms e"
  shows "resolve_api_key e st p None =
    Some (if canonical_or_self p = ''anthropic'' then mark_anthropic_oauth_bearer_token a else a)"
  using assms by (simp add: resolve_api_key_def stored_login_def api_key_from_credential_def)

text \<open>
  An entry in another case that has expired hides a login in force under the canonical name from the
  first lookup; the last one finds it and gives its token without the marker.
\<close>

lemma mixed_case_token_unmarked:
  assumes "env_var e ''ANTHROPIC_API_KEY'' = None" "now_ms e = 10" "auth_path e = ''b''"
  shows "resolve_api_key e \<lparr>storage_path = ''a'', stored = [(''Anthropic'', OAuth ''old'' ''r'' 5 None None),
      (''anthropic'', OAuth ''new'' ''r'' 50 None None)]\<rparr> ''Anthropic'' None = Some ''new''"
proof -
  let ?m = "known_provider ''anthropic'' ''Anthropic'' [] [''ANTHROPIC_API_KEY''] BuiltInNative
    (Some (routing_to ''anthropic-messages'' ''https://api.anthropic.com/v1/messages'' False True input_text_image 200000 8192))"
  have m: "?m \<in> set provider_table" by (simp add: provider_parts)
  have l: "to_lowercase ''Anthropic'' = ''anthropic''" "to_lowercase ''anthropic'' = ''anthropic''" by code_simp+
  then have pm: "provider_metadata ''Anthropic'' = Some ?m" "provider_metadata ''anthropic'' = Some ?m"
    using m by (simp_all add: provider_metadata_iff names_known_provider)
  then show ?thesis
    using assms
    by (simp add: resolve_api_key_def stored_login_def credential_for_provider_def entry_named_def api_key_from_credential_def
      provider_auth_env_keys_def canonical_provider_id_def known_provider_def env_text_def api_key_def allowed_external_def
      allow_external_provider_lookup_def)
qed

section \<open>What pruning leaves\<close>

lemma map_of_filter_value: "map_of es n = Some c \<Longrightarrow> Q c \<Longrightarrow> map_of (filter (\<lambda>(k, c). Q c) es) n = Some c"
  by (induction es) (auto split: if_splits)

lemma map_of_filter_None: "map_of es n = None \<Longrightarrow> map_of (filter P es) n = None"
  by (induction es) (auto split: if_splits)

lemma entry_named_keep: "entry_named es n = Some c \<Longrightarrow> Q c \<Longrightarrow> entry_named (filter (\<lambda>(k, c). Q c) es) n = Some c"
proof (cases "map_of es n")
  case None
  have "entry_case_insensitive es n = Some c \<Longrightarrow> Q c \<Longrightarrow> entry_case_insensitive (filter (\<lambda>(k, c). Q c) es) n = Some c"
    by (induction es) (auto simp: entry_case_insensitive_def split: if_splits)
  then show "entry_named es n = Some c \<Longrightarrow> Q c \<Longrightarrow> ?thesis"
    by (simp add: entry_named_def None map_of_filter_None)
qed (auto simp: entry_named_def map_of_filter_value)

lemma entry_named_filter_None: "entry_named es n = None \<Longrightarrow> entry_named (filter P es) n = None"
  by (auto simp: entry_named_None)

lemma credential_keep:
  assumes "credential_for_provider es p = Some c" "Q c"
  shows "credential_for_provider (filter (\<lambda>(k, c). Q c) es) p = Some c"
proof -
  let ?es = "filter (\<lambda>(k, c). Q c) es"
  have keep: "find_map (entry_named es) ns = Some c \<Longrightarrow> find_map (entry_named ?es) ns = Some c" for ns
    by (induction ns) (auto simp: entry_named_keep [where Q = Q] entry_named_filter_None assms(2) split: option.splits)
  show ?thesis
  proof (cases "entry_named es p")
    case (Some d)
    with assms have "entry_named ?es p = Some c" by (simp add: credential_for_provider_def entry_named_keep)
    then show ?thesis by (simp add: credential_for_provider_def)
  next
    case None
    with assms(1) obtain m where m: "provider_metadata p = Some m" by (auto simp: credential_for_provider_def split: option.splits)
    with assms(1) None have "find_map (entry_named es) (names m) = Some c"
      by (simp add: credential_for_provider_def names_def)
    from keep [OF this] None m show ?thesis
      by (simp add: credential_for_provider_def names_def entry_named_filter_None)
  qed
qed

lemma wrap_i64_id: "- (2 ^ 63) \<le> n \<Longrightarrow> n < 2 ^ 63 \<Longrightarrow> wrap_i64 n = n"
  by (simp add: wrap_i64_def)

lemma stale_gives_no_key: "stale cutoff c \<Longrightarrow> cutoff \<le> now \<Longrightarrow> api_key_from_credential now c = None"
  by (auto simp: stale_def api_key_from_credential_def split: auth_credential.splits)

text \<open>Pruning takes away only expired logins that cannot be renewed, and names them all: a
  credential that gave a provider its key before gives it the same key after.
\<close>

theorem pruning_keeps_usable:
  assumes "0 \<le> max_age" "- (2 ^ 63) \<le> now_ms e - max_age" "now_ms e < 2 ^ 63"
    and "prune_stale_credentials e max_age st = (st', pruned)"
  shows "(api_key e st p = Some k \<longrightarrow> api_key e st' p = Some k) \<and>
    (stored_login e st p = Some k \<longrightarrow> stored_login e st' p = Some k) \<and>
    (n \<in> set pruned \<longleftrightarrow> (\<exists>a r x. (n, OAuth a r x None None) \<in> set (stored st) \<and> x < now_ms e - max_age)) \<and>
    (kc \<in> set (stored st') \<longrightarrow> kc \<in> set (stored st))"
proof -
  define cutoff where "cutoff = now_ms e - max_age"
  have w: "wrap_i64 (now_ms e - max_age) = cutoff" "cutoff \<le> now_ms e"
    using assms(1-3) by (simp_all add: wrap_i64_id cutoff_def)
  have st': "stored st' = filter (\<lambda>(k, c). \<not> stale cutoff c) (stored st)"
    and pr: "pruned = map fst (filter (\<lambda>(k, c). stale cutoff c) (stored st))"
    using assms(4) w(1) by (auto simp: prune_stale_credentials_def Let_def)
  have kept: "credential_for_provider (stored st') p = Some c"
    if "credential_for_provider (stored st) p = Some c" "api_key_from_credential (now_ms e) c = Some t" for c t
    using that stale_gives_no_key [OF _ w(2)] unfolding st' by (intro credential_keep) auto
  have "api_key e st p = Some k \<Longrightarrow> api_key e st' p = Some k"
    using kept by (auto simp: api_key_def bind_eq_Some_conv)
  moreover have "stored_login e st p = Some k \<Longrightarrow> stored_login e st' p = Some k"
  proof -
    assume l: "stored_login e st p = Some k"
    then obtain c t where "credential_for_provider (stored st) p = Some c" "api_key_from_credential (now_ms e) c = Some t"
      by (auto simp: stored_login_def split: option.splits auth_credential.splits if_splits)
    with l kept show ?thesis by (simp add: stored_login_def)
  qed
  moreover have "n \<in> set pruned \<longleftrightarrow> (\<exists>a r x. (n, OAuth a r x None None) \<in> set (stored st) \<and> x < cutoff)"
    unfolding pr by (force simp: stale_def split: auth_credential.splits)
  ultimately show ?thesis unfolding cutoff_def using st' by auto
qed

lemma pruning_keeps_usable_witness:
  "snd (prune_stale_credentials \<lparr>env_var = \<lambda>_. None, read_text = \<lambda>_. None, json_of = \<lambda>_. Inl [], text_of = \<lambda>_. [], now_ms = 100, auth_path = []\<rparr>
      10 \<lparr>storage_path = [], stored = [(''a'', OAuth ''t'' ''r'' 50 None None), (''b'', OAuth ''u'' ''r'' 95 None None)]\<rparr>) = [''a''] \<and>
   api_key \<lparr>env_var = \<lambda>_. None, read_text = \<lambda>_. None, json_of = \<lambda>_. Inl [], text_of = \<lambda>_. [], now_ms = 100, auth_path = []\<rparr>
     (fst (prune_stale_credentials \<lparr>env_var = \<lambda>_. None, read_text = \<lambda>_. None, json_of = \<lambda>_. Inl [], text_of = \<lambda>_. [], now_ms = 100, auth_path = []\<rparr>
      10 \<lparr>storage_path = [], stored = [(''a'', ApiKey ''t'')]\<rparr>)) ''a'' = Some ''t''"
  (is "snd (prune_stale_credentials ?e 10 ?st) = _ \<and> api_key _ (fst (prune_stale_credentials _ _ ?st2)) _ = _")
proof -
  have k: "api_key ?e ?st2 ''a'' = Some ''t''"
    by (simp add: api_key_def credential_for_provider_def entry_named_def api_key_from_credential_def)
  with pruning_keeps_usable [of 10 ?e ?st2 "fst (prune_stale_credentials ?e 10 ?st2)" "snd (prune_stale_credentials ?e 10 ?st2)" "''a''" "''t''"]
  show ?thesis by (simp add: prune_stale_credentials_def wrap_i64_def stale_def Let_def)
qed


end
