(* ===== verification/Oauth.thy ===== *)
theory Oauth
  imports Keychain Pi_Credentials
begin

text \<open>
  OAuth of \<open>src-tauri/src/server/oauth.rs\<close> and \<open>oauth_endpoints.rs\<close>: provider data, stored
  credentials and the one-time state of the callback. The login that is completed by pasting a code,
  and the credential a session gets, are in \<open>Login_Flow\<close>.

  Network answers and environment variables are arguments. \<open>to_text\<close> and
  \<open>of_text\<close> are serde_json's printer and parser; the round trip is asked only of the value at hand.
\<close>

section \<open>Providers\<close>

record oauth_provider =
  op_id :: string
  op_name :: string
  client_id :: string
  client_secret :: string
  auth_url :: string
  token_url :: string
  redirect_uri :: string

record provider_summary =
  ps_id :: string
  ps_name :: string
  ps_category :: string
  ps_available :: bool

definition pi_oauth_provider_summaries :: "provider_summary list" where
  "pi_oauth_provider_summaries =
     [\<lparr>ps_id = ''anthropic'', ps_name = ''Claude'', ps_category = ''AI'', ps_available = True\<rparr>,
      \<lparr>ps_id = ''openai-codex'', ps_name = ''Codex'', ps_category = ''AI'', ps_available = True\<rparr>,
      \<lparr>ps_id = ''google-gemini-cli'', ps_name = ''Gemini CLI'', ps_category = ''AI'', ps_available = True\<rparr>,
      \<lparr>ps_id = ''google-antigravity'', ps_name = ''Google Antigravity'', ps_category = ''AI'', ps_available = True\<rparr>,
      \<lparr>ps_id = ''kimi-for-coding'', ps_name = ''Kimi Code'', ps_category = ''AI'', ps_available = True\<rparr>,
      \<lparr>ps_id = ''github-copilot'', ps_name = ''GitHub Copilot'', ps_category = ''Developer Tools'', ps_available = True\<rparr>,
      \<lparr>ps_id = ''gitlab'', ps_name = ''GitLab'', ps_category = ''Developer Tools'', ps_available = True\<rparr>]"

definition env_or_empty :: "(string \<rightharpoonup> string) \<Rightarrow> string \<Rightarrow> string" where
  "env_or_empty env k = (case env k of None \<Rightarrow> [] | Some v \<Rightarrow> v)"

definition provider_row ::
  "(string \<rightharpoonup> string) \<Rightarrow> string \<Rightarrow> string \<Rightarrow> string \<Rightarrow> string \<Rightarrow> string \<Rightarrow> oauth_provider" where
  "provider_row env i n var au tu =
     \<lparr>op_id = i, op_name = n, client_id = env_or_empty env (var @ ''_CLIENT_ID''),
      client_secret = env_or_empty env (var @ ''_CLIENT_SECRET''), auth_url = au, token_url = tu,
      redirect_uri = ''http://localhost:4242/api/auth/callback''\<rparr>"

definition provider_configs :: "(string \<rightharpoonup> string) \<Rightarrow> oauth_provider list" where
  "provider_configs env =
     [provider_row env ''google'' ''Google'' ''GOOGLE''
        ''https://accounts.google.com/o/oauth2/v2/auth'' ''https://oauth2.googleapis.com/token'',
      provider_row env ''github'' ''GitHub'' ''GITHUB''
        ''https://github.com/login/oauth/authorize'' ''https://github.com/login/oauth/access_token'',
      provider_row env ''microsoft'' ''Microsoft'' ''MICROSOFT''
        ''https://login.microsoftonline.com/common/oauth2/v2.0/authorize''
        ''https://login.microsoftonline.com/common/oauth2/v2.0/token'',
      provider_row env ''slack'' ''Slack'' ''SLACK''
        ''https://slack.com/oauth/v2/authorize'' ''https://slack.com/api/oauth.v2.access'',
      provider_row env ''stripe'' ''Stripe'' ''STRIPE''
        ''https://connect.stripe.com/oauth/authorize'' ''https://connect.stripe.com/oauth/token'',
      provider_row env ''openai'' ''OpenAI'' ''OPENAI''
        ''https://platform.openai.com/oauth/authorize'' ''https://api.openai.com/oauth/token'']"

definition get_provider_config :: "(string \<rightharpoonup> string) \<Rightarrow> string \<Rightarrow> oauth_provider option" where
  "get_provider_config env i = List.find (\<lambda>c. op_id c = i) (provider_configs env)"

section \<open>Credentials\<close>

record oauth_credentials =
  oc_provider :: string
  access_token :: string
  refresh_token :: "string option"
  expires_at :: "int option"
  user_id :: "string option"

text \<open>Absent options are not written and read back as absent; a null also reads as absent.\<close>

definition opt_field :: "string \<Rightarrow> json option \<Rightarrow> (string \<times> json) list" where
  "opt_field k v = (case v of None \<Rightarrow> [] | Some j \<Rightarrow> [(k, j)])"

definition credentials_json :: "oauth_credentials \<Rightarrow> json" where
  "credentials_json c = JObj
     ([(''provider'', JStr (oc_provider c)), (''access_token'', JStr (access_token c))] @
      opt_field ''refresh_token'' (map_option JStr (refresh_token c)) @
      opt_field ''expires_at'' (map_option JInt (expires_at c)) @
      opt_field ''user_id'' (map_option JStr (user_id c)))"

text \<open>An optional field: \<open>None\<close> is a value of the wrong type.\<close>

definition read_opt :: "(json \<Rightarrow> 'a option) \<Rightarrow> json option \<Rightarrow> 'a option option" where
  "read_opt g v =
     (case v of None \<Rightarrow> Some None | Some JNull \<Rightarrow> Some None | Some j \<Rightarrow> map_option Some (g j))"

definition credentials_of_json :: "json \<Rightarrow> oauth_credentials option" where
  "credentials_of_json j =
     (case (jget_str ''provider'' j, jget_str ''access_token'' j,
            read_opt as_str (jget ''refresh_token'' j), read_opt as_i64 (jget ''expires_at'' j),
            read_opt as_str (jget ''user_id'' j)) of
        (Some p, Some a, Some r, Some x, Some u) \<Rightarrow>
          Some \<lparr>oc_provider = p, access_token = a, refresh_token = r, expires_at = x, user_id = u\<rparr>
      | _ \<Rightarrow> None)"

definition valid_providers :: "string list" where
  "valid_providers = [''google'', ''github'', ''microsoft'', ''slack'', ''stripe'', ''openai'']"

definition token_key :: "string \<Rightarrow> string \<Rightarrow> string" where
  "token_key p uid = ''oauth_token_'' @ p @ ''_'' @ uid"

definition store_credentials ::
  "(json \<Rightarrow> string) \<Rightarrow> kc_answer \<Rightarrow> oauth_credentials \<Rightarrow> keychain \<Rightarrow> keychain \<times> unit res" where
  "store_credentials to_text a c kc =
     (if access_token c = [] then (kc, Inl ''access_token cannot be empty'')
      else if oc_provider c \<notin> set valid_providers
      then (kc, Inl (''Invalid provider '' @ [CHR 0x27] @ oc_provider c @ [CHR 0x27] @
              ''. Supported: '' @ join '', '' valid_providers))
      else
        (let uid = (case user_id c of Some u \<Rightarrow> if u \<noteq> [] then u else ''default'' | None \<Rightarrow> ''default'')
         in keychain_set a (token_key (oc_provider c) uid) (to_text (credentials_json c)) kc))"

definition get_credentials ::
  "(string \<Rightarrow> json res) \<Rightarrow> kc_answer \<Rightarrow> string \<Rightarrow> string \<Rightarrow> keychain \<Rightarrow> oauth_credentials option res" where
  "get_credentials of_text a p u kc =
     (let uid = (if u = [] then ''default'' else u) in
      case keychain_get a (token_key p uid) kc of
        Inl e \<Rightarrow> Inl e
      | Inr None \<Rightarrow> Inr None
      | Inr (Some t) \<Rightarrow>
          (case of_text t of
             Inl e \<Rightarrow> Inl (''Failed to parse stored credentials: '' @ e)
           | Inr j \<Rightarrow>
               (case credentials_of_json j of
                  None \<Rightarrow> Inl (''Failed to parse stored credentials: '' @ ''invalid fields'')
                | Some c \<Rightarrow> Inr (Some c))))"

definition delete_credentials :: "kc_answer \<Rightarrow> string \<Rightarrow> string \<Rightarrow> keychain \<Rightarrow> keychain \<times> unit res" where
  "delete_credentials a p u kc =
     (case keychain_delete a (token_key p u) kc of
        (kc', Inl e) \<Rightarrow> (kc', Inl e) | (kc', Inr _) \<Rightarrow> (kc', Inr ()))"

section \<open>The one-time state\<close>

record auth_state =
  as_provider :: string
  as_state :: string
  as_created_at :: int
  as_expires_at :: int

definition auth_state_of_json :: "json \<Rightarrow> auth_state option" where
  "auth_state_of_json j =
     (case (jget_str ''provider'' j, jget_str ''state'' j,
            Option.bind (jget ''created_at'' j) as_i64, Option.bind (jget ''expires_at'' j) as_i64) of
        (Some p, Some s, Some c, Some x) \<Rightarrow>
          Some \<lparr>as_provider = p, as_state = s, as_created_at = c, as_expires_at = x\<rparr>
      | _ \<Rightarrow> None)"

definition is_expired :: "int \<Rightarrow> auth_state \<Rightarrow> bool" where
  "is_expired now s = (now > as_expires_at s)"

definition state_key :: "string \<Rightarrow> string" where
  "state_key st = ''oauth_state_'' @ st"

text \<open>\<open>ag\<close> and \<open>ad\<close> are the keychain's answers to the read and to the removal.\<close>

definition validate_and_remove_auth_state ::
  "(string \<Rightarrow> json res) \<Rightarrow> kc_answer \<Rightarrow> kc_answer \<Rightarrow> int \<Rightarrow> string \<Rightarrow> keychain \<Rightarrow> keychain \<times> string res" where
  "validate_and_remove_auth_state of_text ag ad now st kc =
     (case keychain_get ag (state_key st) kc of
        Inl e \<Rightarrow> (kc, Inl e)
      | Inr None \<Rightarrow> (kc, Inl ''State not found or invalid'')
      | Inr (Some t) \<Rightarrow>
          (case Option.bind (res_ok (of_text t)) auth_state_of_json of
             None \<Rightarrow> (kc, Inl (''Failed to parse auth state: '' @
               (case of_text t of Inl e \<Rightarrow> e | Inr _ \<Rightarrow> ''invalid fields'')))
           | Some s \<Rightarrow>
               if is_expired now s
               then (fst (keychain_delete ad (state_key st) kc),
                     Inl ''State has expired. Please restart the login process.'')
               else
                 (case keychain_delete ad (state_key st) kc of
                    (kc', Inl e) \<Rightarrow> (kc', Inl e)
                  | (kc', Inr _) \<Rightarrow> (kc', Inr (as_provider s)))))"

section \<open>Token exchange and callback\<close>

datatype token_answer =
    SendFailed string
  | BadBody string
  | Token string "string option" "int option"

definition exchange_code_for_token ::
  "(string \<rightharpoonup> string) \<Rightarrow> (json \<Rightarrow> string) \<Rightarrow> kc_answer \<Rightarrow> token_answer \<Rightarrow> int \<Rightarrow> string \<Rightarrow> keychain
     \<Rightarrow> keychain \<times> oauth_credentials res" where
  "exchange_code_for_token env to_text a answer now p kc =
     (case get_provider_config env p of
        None \<Rightarrow> (kc, Inl (''OAuth provider '' @ [CHR 0x27] @ p @ [CHR 0x27] @
                  '' configuration not found during token exchange''))
      | Some _ \<Rightarrow>
          (case answer of
             SendFailed e \<Rightarrow> (kc, Inl (''Failed to exchange authorization code with '' @ p @ '' ('' @ e @
                 ''). Check your internet connection and credentials.''))
           | BadBody e \<Rightarrow> (kc, Inl (''Failed to parse token response from '' @ p @
                 ''. The OAuth provider returned an unexpected response format: '' @ e))
           | Token t r x \<Rightarrow>
               (let c = \<lparr>oc_provider = p, access_token = t, refresh_token = r,
                         expires_at = map_option (\<lambda>s. now + s) x, user_id = None\<rparr> in
                case store_credentials to_text a c kc of
                  (kc', Inl e) \<Rightarrow> (kc', Inl e) | (kc', Inr _) \<Rightarrow> (kc', Inr c))))"

text \<open>The state of the server that OAuth uses: keychain, the waiting streams of the callback flow,
  the pending logins and the credentials in the file of \<open>pi::auth\<close>.\<close>

datatype pending_kind = OAuthFlow | DeviceFlow

record oauth_pending =
  pend_provider :: string
  pend_kind :: pending_kind
  verifier :: string
  device_code :: "string option"

record oauth_server =
  kchain :: keychain
  completions :: "string set"
  signalled :: "(string \<times> unit res) list"
  pendings :: "string \<rightharpoonup> oauth_pending"
  pi_file :: entries

definition signal :: "string \<Rightarrow> unit res \<Rightarrow> oauth_server \<Rightarrow> oauth_server" where
  "signal st r s =
     (if st \<in> completions s
      then s\<lparr>completions := completions s - {st}, signalled := signalled s @ [(st, r)]\<rparr> else s)"

definition callback ::
  "(string \<rightharpoonup> string) \<Rightarrow> (json \<Rightarrow> string) \<Rightarrow> (string \<Rightarrow> json res) \<Rightarrow> kc_answer \<Rightarrow> kc_answer \<Rightarrow> kc_answer
     \<Rightarrow> token_answer \<Rightarrow> int \<Rightarrow> string option \<Rightarrow> string option \<Rightarrow> string option \<Rightarrow> oauth_server
     \<Rightarrow> oauth_server \<times> response" where
  "callback env to_text of_text ag ad aset answer now code state error s =
     (case error of Some e \<Rightarrow> (s, 400, err_body (''OAuth error: '' @ e)) | None \<Rightarrow>
      (case code of None \<Rightarrow> (s, 400, err_body ''Missing authorization code'') | Some c \<Rightarrow>
       (case state of None \<Rightarrow> (s, 400, err_body ''Missing state parameter'') | Some st \<Rightarrow>
        (case validate_and_remove_auth_state of_text ag ad now st (kchain s) of
           (kc, Inl e) \<Rightarrow> (s\<lparr>kchain := kc\<rparr>, 400, err_body (''State validation failed: '' @ e))
         | (kc, Inr p) \<Rightarrow>
             (case exchange_code_for_token env to_text aset answer now p kc of
                (kc', Inr cr) \<Rightarrow>
                  (signal st (Inr ()) (s\<lparr>kchain := kc'\<rparr>), 200,
                   ok_body [(''credentials'', JObj
                     [(''provider'', JStr (oc_provider cr)), (''access_token'', JStr (access_token cr)),
                      (''refresh_token'', opt_str (refresh_token cr)),
                      (''expires_at'', opt_json (map_option JInt (expires_at cr)))])])
              | (kc', Inl e) \<Rightarrow>
                  (signal st (Inl (''Token exchange failed: '' @ e)) (s\<lparr>kchain := kc'\<rparr>), 500,
                   err_body (''Token exchange failed: '' @ e)))))))"

definition logout :: "kc_answer \<Rightarrow> string \<Rightarrow> string \<Rightarrow> oauth_server \<Rightarrow> oauth_server \<times> response" where
  "logout a p u s =
     (case delete_credentials a p u (kchain s) of
        (kc, Inr _) \<Rightarrow> (s\<lparr>kchain := kc\<rparr>, 200, ok_body [(''message'', JStr (''Logged out from '' @ p))])
      | (kc, Inl e) \<Rightarrow> (s\<lparr>kchain := kc\<rparr>, 200, err_body e))"

section \<open>Properties\<close>

text \<open>C16. The state of the OAuth callback is used at most once and only in time: with a working
  keychain, a state that was accepted, or refused as expired, is unknown from then on; it is
  accepted only up to its expiry; and no other entry of the keychain changes.\<close>

theorem oauth_state_single_use:
  assumes "validate_and_remove_auth_state of_text KcWorks KcWorks now st kc = (kc1, r)"
    and "is_ok r \<or> r = Inl ''State has expired. Please restart the login process.''"
  shows "(\<exists>t j s. keychain_view kc (state_key st) = Some t \<and> of_text t = Inr j \<and>
      auth_state_of_json j = Some s \<and>
      r = (if now \<le> as_expires_at s then Inr (as_provider s)
           else Inl ''State has expired. Please restart the login process.'')) \<and>
    validate_and_remove_auth_state of_text KcWorks KcWorks now2 st kc1 =
      (kc1, Inl ''State not found or invalid'') \<and>
    keychain_view kc1 = (keychain_view kc)(state_key st := None)"
proof -
  note kcd = keychain_get_def keychain_delete_def keychain_view_def
  from assms obtain t where t: "keychain_view kc (state_key st) = Some t"
    by (auto simp: validate_and_remove_auth_state_def kcd split: option.splits)
  from assms t obtain s where s: "Option.bind (res_ok (of_text t)) auth_state_of_json = Some s"
    by (auto simp: validate_and_remove_auth_state_def kcd split: option.splits)
  then obtain j where j: "of_text t = Inr j" "auth_state_of_json j = Some s"
    by (cases "of_text t") auto
  have kc1: "kc1 = fst (keychain_delete KcWorks (state_key st) kc)"
    and r: "r = (if now \<le> as_expires_at s then Inr (as_provider s)
      else Inl ''State has expired. Please restart the login process.'')"
    using assms(1) t s
    by (auto simp: validate_and_remove_auth_state_def kcd is_expired_def split: if_splits)
  have v: "keychain_view kc1 = (keychain_view kc)(state_key st := None)"
    unfolding kc1 using kc.del_view by blast
  then have "keychain_get KcWorks (state_key st) kc1 = Inr None"
    by (simp add: keychain_get_def keychain_view_def fun_eq_iff)
  then have "validate_and_remove_auth_state of_text KcWorks KcWorks now2 st kc1 =
      (kc1, Inl ''State not found or invalid'')"
    by (simp add: validate_and_remove_auth_state_def)
  with t j r v show ?thesis by blast
qed

definition demo_state :: json where
  "demo_state = JObj [(''provider'', JStr ''github''), (''state'', JStr ''s''),
     (''created_at'', JInt 0), (''expires_at'', JInt 600)]"

theorem oauth_state_single_use_witness:
  "snd (validate_and_remove_auth_state (\<lambda>_. Inr demo_state) KcWorks KcWorks 2 ''s''
     (fst (validate_and_remove_auth_state (\<lambda>_. Inr demo_state) KcWorks KcWorks 1 ''s''
        (fst (keychain_set KcWorks (state_key ''s'') ''x'' Map.empty))))) =
   Inl ''State not found or invalid''"
proof -
  let ?kc = "fst (keychain_set KcWorks (state_key ''s'') ''x'' Map.empty)"
  obtain kc1 r where v: "validate_and_remove_auth_state (\<lambda>_. Inr demo_state) KcWorks KcWorks 1 ''s'' ?kc = (kc1, r)"
    by fastforce
  then have "is_ok r"
    by (auto simp: validate_and_remove_auth_state_def keychain_set_def keychain_get_def
        keychain_delete_def demo_state_def auth_state_of_json_def jget_str_def as_i64_def is_expired_def)
  then show ?thesis using oauth_state_single_use [OF v, of 2] v by simp
qed

text \<open>The slot of a user: the empty id stands for the default one.\<close>

definition slot :: "string option \<Rightarrow> string" where
  "slot u = (case u of None \<Rightarrow> ''default'' | Some x \<Rightarrow> if x = [] then ''default'' else x)"

lemma provider_no_underscore: "p \<in> set valid_providers \<Longrightarrow> CHR ''_'' \<notin> set p"
  by (auto simp: valid_providers_def)

lemma takeWhile_sep: "c \<notin> set p \<Longrightarrow> takeWhile (\<lambda>x. x \<noteq> c) (p @ c # u) = p"
  by (induction p) auto

lemma token_key_inj:
  assumes "p \<in> set valid_providers" "q \<in> set valid_providers"
  shows "token_key p u = token_key q v \<longleftrightarrow> p = q \<and> u = v"
proof
  assume "token_key p u = token_key q v"
  then have e: "p @ CHR ''_'' # u = q @ CHR ''_'' # v" by (simp add: token_key_def)
  have "p = takeWhile (\<lambda>c. c \<noteq> CHR ''_'') (p @ CHR ''_'' # u)"
    by (rule takeWhile_sep [symmetric, OF provider_no_underscore [OF assms(1)]])
  also have "\<dots> = q"
    unfolding e by (rule takeWhile_sep [OF provider_no_underscore [OF assms(2)]])
  finally show "p = q \<and> u = v" using e by simp
qed simp

lemma credentials_round_trip:
  "(\<And>x. expires_at c = Some x \<Longrightarrow> - (2 ^ 63) \<le> x \<and> x < 2 ^ 63) \<Longrightarrow>
     credentials_of_json (credentials_json c) = Some c"
  by (cases "refresh_token c"; cases "expires_at c"; cases "user_id c"; cases c)
     (simp_all add: credentials_of_json_def credentials_json_def opt_field_def jget_str_def
       read_opt_def as_i64_def)

text \<open>C32. Stored credentials come back and do not mix: after storing the credentials of a supported
  provider, asking for the same provider and user (the empty user meaning the default slot) gives
  exactly them, every other slot of a supported provider is as before; but deleting with the
  empty user id, as a logout without one does, leaves the default slot in place.\<close>

theorem credentials_isolated:
  assumes "oc_provider c \<in> set valid_providers" "access_token c \<noteq> []"
    and "of_text (to_text (credentials_json c)) = Inr (credentials_json c)"
    and "case expires_at c of None \<Rightarrow> True | Some x \<Rightarrow> - (2 ^ 63) \<le> x \<and> x < 2 ^ 63"
    and "q \<in> set valid_providers"
    and "kc1 = fst (store_credentials to_text KcWorks c kc)"
  shows "snd (store_credentials to_text KcWorks c kc) = Inr () \<and>
    get_credentials of_text KcWorks q v kc1 =
      (if q = oc_provider c \<and> slot (Some v) = slot (user_id c) then Inr (Some c)
       else get_credentials of_text KcWorks q v kc) \<and>
    (slot (user_id c) = ''default'' \<longrightarrow>
       get_credentials of_text KcWorks (oc_provider c) []
         (fst (delete_credentials KcWorks (oc_provider c) [] kc1)) = Inr (Some c))"
proof -
  let ?k = "token_key (oc_provider c) (slot (user_id c))"
  have st: "store_credentials to_text KcWorks c kc =
      keychain_set KcWorks ?k (to_text (credentials_json c)) kc"
    using assms(1,2) by (auto simp: store_credentials_def Let_def slot_def split: option.splits)
  have rt: "credentials_of_json (credentials_json c) = Some c"
    using assms(4) by (intro credentials_round_trip) simp
  have get: "get_credentials of_text KcWorks p u k' =
      (case keychain_view k' (token_key p (slot (Some u))) of
         None \<Rightarrow> Inr None
       | Some t \<Rightarrow> (case of_text t of
           Inl e \<Rightarrow> Inl (''Failed to parse stored credentials: '' @ e)
         | Inr j \<Rightarrow> (case credentials_of_json j of
             None \<Rightarrow> Inl (''Failed to parse stored credentials: '' @ ''invalid fields'')
           | Some c \<Rightarrow> Inr (Some c))))" for p u k'
    by (simp add: get_credentials_def keychain_get_def keychain_view_def slot_def Let_def
        split: option.splits)
  have view: "keychain_view kc1 = (keychain_view kc)(?k \<mapsto> to_text (credentials_json c))"
    unfolding assms(6) st using kc.put_view by blast
  have dview: "keychain_view (fst (delete_credentials KcWorks (oc_provider c) [] kc1)) =
      (keychain_view kc1)(token_key (oc_provider c) [] := None)"
    using kc.del_view [of "token_key (oc_provider c) []" kc1]
    by (simp add: delete_credentials_def split: prod.splits sum.splits) (simp add: keychain_delete_def)
  have "slot (Some []) = ''default''" by (simp add: slot_def)
  then show ?thesis
    using assms(1,3,5) rt kc.put_value [of ?k "to_text (credentials_json c)" kc]
    by (auto simp: st get view dview token_key_inj)
qed

definition demo_credentials :: oauth_credentials where
  "demo_credentials = \<lparr>oc_provider = ''github'', access_token = ''t'', refresh_token = None,
     expires_at = Some 5, user_id = None\<rparr>"

theorem credentials_isolated_witness:
  "get_credentials (\<lambda>_. Inr (credentials_json demo_credentials)) KcWorks ''github'' []
     (fst (delete_credentials KcWorks ''github'' []
       (fst (store_credentials (\<lambda>_. ''x'') KcWorks demo_credentials Map.empty)))) =
   Inr (Some demo_credentials)"
  using credentials_isolated [of demo_credentials "\<lambda>_. Inr (credentials_json demo_credentials)"
      "\<lambda>_. ''x''" "''google''" _ Map.empty]
  by (simp add: demo_credentials_def valid_providers_def slot_def)

end
