(* ===== verification/Pi_Redact.thy ===== *)
theory Pi_Redact
  imports Json_Value
begin

text \<open>
  What \<open>patches/pi_agent_rust/src/auth.rs\<close> takes out of a server's answer before it shows it:
  known secrets, wherever they stand, and the fields of a JSON answer whose names are sensitive.
\<close>

section \<open>Replacing a text\<close>

text \<open>\<open>str::replace\<close>: every occurrence, from the left, not overlapping.\<close>

function replace_str :: "string \<Rightarrow> string \<Rightarrow> string \<Rightarrow> string" where
  "replace_str pat rep s =
     (if s = [] then []
      else if pat \<noteq> [] \<and> prefix pat s then rep @ replace_str pat rep (drop (length pat) s)
      else hd s # replace_str pat rep (tl s))"
  by pat_completeness auto
termination
  by (relation "measure (\<lambda>(pat, rep, s). length s)") auto

declare replace_str.simps [simp del]

definition marker :: string where
  "marker = ''[REDACTED]''"

definition redact_secret :: "string \<Rightarrow> string \<Rightarrow> string" where
  "redact_secret secret text =
     (let trimmed = trim secret in if trimmed = [] then text else replace_str trimmed marker text)"

section \<open>Sensitive fields\<close>

definition is_sensitive_json_key :: "string \<Rightarrow> bool" where
  "is_sensitive_json_key key =
     (let normalized = to_lowercase (filter is_alphanumeric key) in
      normalized \<in> {''token'', ''accesstoken'', ''refreshtoken'', ''idtoken'', ''apikey'', ''authorization'',
        ''credential'', ''secret'', ''clientsecret'', ''password''} \<or>
      ends_with normalized ''token'' \<or> ends_with normalized ''secret'' \<or> ends_with normalized ''apikey'' \<or>
      str_contains normalized ''authorization'')"

fun redact_sensitive_json_value :: "json \<Rightarrow> json" where
  "redact_sensitive_json_value (JObj kvs) =
     JObj (map (\<lambda>(k, v). (k, if is_sensitive_json_key k then JStr marker else redact_sensitive_json_value v)) kvs)"
| "redact_sensitive_json_value (JArr xs) = JArr (map redact_sensitive_json_value xs)"
| "redact_sensitive_json_value j = j"

text \<open>\<open>of_text\<close> and \<open>to_text\<close>: \<open>serde_json::from_str\<close> and \<open>serde_json::to_string\<close>.\<close>

definition redact_sensitive_json_fields :: "(string \<Rightarrow> json res) \<Rightarrow> (json \<Rightarrow> string) \<Rightarrow> string \<Rightarrow> string" where
  "redact_sensitive_json_fields of_text to_text s =
     (case of_text s of Inl _ \<Rightarrow> s | Inr j \<Rightarrow> to_text (redact_sensitive_json_value j))"

definition redact_known_secrets :: "(string \<Rightarrow> json res) \<Rightarrow> (json \<Rightarrow> string) \<Rightarrow> string \<Rightarrow> string list \<Rightarrow> string" where
  "redact_known_secrets of_text to_text s secrets =
     redact_sensitive_json_fields of_text to_text (fold redact_secret secrets s)"

section \<open>No secret is left\<close>

text \<open>The text around the occurrences: none of the parts holds the pattern.\<close>

lemma replace_parts:
  "pat \<noteq> [] \<Longrightarrow> \<exists>gs. gs \<noteq> [] \<and> s = join pat gs \<and> replace_str pat rep s = join rep gs \<and>
     (\<forall>g \<in> set gs. \<not> str_contains g pat)"
proof (induction pat rep s rule: replace_str.induct)
  case (1 pat rep s)
  consider "s = []" | (hit) "s \<noteq> []" "prefix pat s" | (miss) "s \<noteq> []" "\<not> prefix pat s" by blast
  then show ?case
  proof cases
    case 1
    with \<open>pat \<noteq> []\<close> show ?thesis by (intro exI [of _ "[[]]"]) (auto simp: replace_str.simps str_contains_iff)
  next
    case hit
    then obtain gs where gs: "gs \<noteq> []" "drop (length pat) s = join pat gs"
      "replace_str pat rep (drop (length pat) s) = join rep gs" "\<forall>g \<in> set gs. \<not> str_contains g pat"
      using 1 by blast
    with hit 1(3) show ?thesis
      by (intro exI [of _ "[] # gs"]) (cases gs, auto simp: replace_str.simps [of pat rep s] str_contains_iff prefix_def)
  next
    case miss
    then obtain g gs where gs: "tl s = join pat (g # gs)" "replace_str pat rep (tl s) = join rep (g # gs)"
      "\<forall>g \<in> set (g # gs). \<not> str_contains g pat"
      using 1(2) 1(3) by (metis neq_Nil_conv)
    have s: "s = join pat ((hd s # g) # gs)" using miss(1) gs(1) by (cases gs) (auto simp: neq_Nil_conv)
    then have "\<exists>v. s = (hd s # g) @ v" by (cases gs) auto
    then have "\<not> prefix pat (hd s # g)" using miss(2) prefix_prefix by metis
    then have "\<not> str_contains (hd s # g) pat" using gs(3) by simp
    with s gs miss show ?thesis
      by (intro exI [of _ "(hd s # g) # gs"]) (cases gs, auto simp: replace_str.simps [of pat rep s])
  qed
qed

lemma contains_around: "c \<notin> set u \<Longrightarrow> str_contains (a @ c # b) u \<Longrightarrow> str_contains a u \<or> str_contains b u"
proof -
  assume c: "c \<notin> set u" and "str_contains (a @ c # b) u"
  then obtain v w where "a @ c # b = v @ u @ w" by (auto simp: str_contains_iff)
  then obtain us where "a = v @ us \<and> us @ c # b = u @ w \<or> a @ us = v \<and> c # b = us @ u @ w"
    by (auto simp: append_eq_append_conv2)
  then show ?thesis
  proof (elim disjE conjE)
    assume a: "a = v @ us" and "us @ c # b = u @ w"
    then obtain t where "us = u @ t \<and> t @ c # b = w \<or> us @ t = u \<and> c # b = t @ w"
      by (auto simp: append_eq_append_conv2)
    with c have "\<exists>t. us = u @ t" by (cases t) auto
    with a show ?thesis by (auto simp: str_contains_iff)
  next
    assume "c # b = us @ u @ w"
    with c show ?thesis by (cases us; cases u) (auto simp: str_contains_iff)
  qed
qed

text \<open>A secret that the marker itself cannot form.\<close>

definition not_in_marker :: "string \<Rightarrow> bool" where
  "not_in_marker u \<longleftrightarrow> CHR ''['' \<notin> set u \<and> CHR '']'' \<notin> set u \<and> \<not> str_contains ''REDACTED'' u"

lemma contains_marked:
  assumes "not_in_marker u" "str_contains (a @ marker @ b) u"
  shows "str_contains a u \<or> str_contains b u"
proof -
  have "str_contains (a @ CHR ''['' # (''REDACTED'' @ CHR '']'' # b)) u" using assms(2) by (simp add: marker_def)
  then have "str_contains a u \<or> str_contains (''REDACTED'' @ CHR '']'' # b) u"
    using assms(1) by (intro contains_around) (simp_all add: not_in_marker_def)
  then show ?thesis using assms(1) contains_around [of "CHR '']''" u "''REDACTED''" b] by (auto simp: not_in_marker_def)
qed

lemma contains_joined:
  "not_in_marker u \<Longrightarrow> str_contains (join marker gs) u \<Longrightarrow> \<exists>g \<in> set gs. str_contains g u"
proof (induction marker gs rule: join.induct)
  case 1 then show ?case by (auto simp: not_in_marker_def str_contains_iff)
next
  case (3 x y ys)
  then show ?case using contains_marked [of u x "join marker (y # ys)"] by auto
qed auto

lemma part_contained: "g \<in> set gs \<Longrightarrow> \<exists>v w. join sep gs = v @ g @ w"
proof (induction sep gs rule: join.induct)
  case (2 sep x)
  then show ?case by (intro exI [of _ "[]"]) simp
next
  case (3 sep x y ys)
  show ?case
  proof (cases "g = x")
    case True
    then show ?thesis by (intro exI [of _ "[]"] exI [of _ "sep @ join sep (y # ys)"]) simp
  next
    case False
    with 3 obtain v w where "join sep (y # ys) = v @ g @ w" by auto
    then show ?thesis by (intro exI [of _ "x @ sep @ v"] exI [of _ w]) simp
  qed
qed auto

lemma redact_secret_keeps:
  assumes "not_in_marker u" "\<not> str_contains s u"
  shows "\<not> str_contains (redact_secret p s) u"
proof (cases "trim p = []")
  case False
  then obtain gs where gs: "s = join (trim p) gs" "replace_str (trim p) marker s = join marker gs"
    using replace_parts by blast
  show ?thesis
  proof
    assume "str_contains (redact_secret p s) u"
    then obtain g where "g \<in> set gs" "str_contains g u"
      using False gs(2) contains_joined [OF assms(1)] by (auto simp: redact_secret_def)
    with part_contained [of g gs "trim p"] gs(1) assms(2) str_contains_mono show False
      by (metis append.assoc str_contains_iff)
  qed
qed (simp add: redact_secret_def assms)

lemma redact_secret_removes:
  assumes "not_in_marker (trim p)" "trim p \<noteq> []"
  shows "\<not> str_contains (redact_secret p s) (trim p)"
proof -
  obtain gs where gs: "replace_str (trim p) marker s = join marker gs" "\<forall>g \<in> set gs. \<not> str_contains g (trim p)"
    using replace_parts [OF assms(2)] by blast
  with contains_joined [OF assms(1)] assms(2) show ?thesis by (auto simp: redact_secret_def)
qed

lemma fold_redact:
  "p \<in> set ps \<Longrightarrow> not_in_marker (trim p) \<Longrightarrow> trim p \<noteq> [] \<Longrightarrow> \<not> str_contains (fold redact_secret ps s) (trim p)"
proof -
  assume p: "p \<in> set ps" "not_in_marker (trim p)" "trim p \<noteq> []"
  have keeps: "\<not> str_contains t (trim p) \<Longrightarrow> \<not> str_contains (fold redact_secret qs t) (trim p)" for qs t
    by (induction qs arbitrary: t) (auto simp: redact_secret_keeps p)
  from p(1) show ?thesis
    by (induction ps arbitrary: s) (auto simp: keeps redact_secret_removes p)
qed

text \<open>No sensitive field, at any depth, with another value than the marker.\<close>

fun nothing_sensitive :: "json \<Rightarrow> bool" where
  "nothing_sensitive (JObj kvs) =
     list_all (\<lambda>(k, v). if is_sensitive_json_key k then v = JStr marker else nothing_sensitive v) kvs"
| "nothing_sensitive (JArr xs) = list_all nothing_sensitive xs"
| "nothing_sensitive j = True"

lemma redacted_nothing_sensitive: "nothing_sensitive (redact_sensitive_json_value j)"
  by (induction j rule: redact_sensitive_json_value.induct) (auto simp: list_all_iff)

lemma redact_harmless: "nothing_sensitive j \<Longrightarrow> redact_sensitive_json_value j = j"
proof (induction j rule: redact_sensitive_json_value.induct)
  case (1 kvs)
  then have "(if is_sensitive_json_key k then JStr marker else redact_sensitive_json_value v) = v" if "(k, v) \<in> set kvs" for k v
    using that by (fastforce simp: list_all_iff)
  then have "map (\<lambda>(k, v). (k, if is_sensitive_json_key k then JStr marker else redact_sensitive_json_value v)) kvs = kvs"
    by (intro map_idI) auto
  then show ?case by simp
qed (auto simp: list_all_iff map_idI)

text \<open>
  A server may write the slash of a secret as an escape: the text does not hold the secret, so
  nothing is replaced, and the JSON that is written anew holds it in plain.
\<close>

lemma escaped_secret_shown:
  assumes "of_text (''{\"m\":\"a'' @ CHR 0x5C # ''/b\"}'') = Inr (JObj [(''m'', JStr ''a/b'')])"
    and "to_text (JObj [(''m'', JStr ''a/b'')]) = ''{\"m\":\"a/b\"}''"
  shows "str_contains (redact_known_secrets of_text to_text (''{\"m\":\"a'' @ CHR 0x5C # ''/b\"}'') [''a/b'']) ''a/b''"
proof -
  have t: "trim ''a/b'' = ''a/b''" by (rule trim_id) (simp add: is_ws_def)
  have "fold redact_secret [''a/b''] (''{\"m\":\"a'' @ CHR 0x5C # ''/b\"}'') = (''{\"m\":\"a'' @ CHR 0x5C # ''/b\"}'')"
    by (simp add: redact_secret_def t replace_str.simps)
  moreover have "\<not> is_sensitive_json_key ''m''"
    by (simp add: is_sensitive_json_key_def Let_def is_alphanumeric_def is_digit_def is_upper_def is_lower_def
      to_lowercase_def char_lower_def suffix_def)
  ultimately show ?thesis using assms by (simp add: redact_known_secrets_def redact_sensitive_json_fields_def)
qed



end
