(* ===== verification/Pi_Login.thy ===== *)
theory Pi_Login
  imports Pi_Credentials Pi_Redact
begin

text \<open>
  The logins of \<open>patches/pi_agent_rust/src/auth.rs\<close>: the address a user opens, the exchange of the
  pasted code for tokens, the device flow of Kimi and of GitHub, and the renewal of tokens that are
  about to expire. What the network answers to a request is an argument, with the instant at which
  the answer is read; so are the random verifier and its challenge (SHA-256, base64), the message
  \<open>serde\<close> gives for JSON of another shape, and the constants of the platform.
\<close>

section \<open>Requests and answers\<close>

datatype request_body = JsonBody json | FormBody string

record http_request =
  rq_url :: string
  rq_headers :: "(string \<times> string) list"
  rq_body :: request_body

text \<open>A reply has a status and a text; a text that cannot be read is absent.\<close>

datatype http_reply = SendError string | Reply nat "string option"

record pi_net =
  http :: "http_request \<Rightarrow> http_reply"
  answered_ms :: int
  shape_error :: "json \<Rightarrow> string"

definition auth_message :: "string \<Rightarrow> string" where
  "auth_message m = ''Authentication error: '' @ m"

definition auth_error :: "string \<Rightarrow> 'a res" where
  "auth_error m = Inl (auth_message m)"

definition is_success :: "nat \<Rightarrow> bool" where
  "is_success status \<longleftrightarrow> 200 \<le> status \<and> status < 300"

definition reply_text :: "string option \<Rightarrow> string" where
  "reply_text t = (case t of Some s \<Rightarrow> s | None \<Rightarrow> ''<failed to read body>'')"

definition form_headers :: "(string \<times> string) list" where
  "form_headers = [(''Content-Type'', ''application/x-www-form-urlencoded''), (''Accept'', ''application/json'')]"

definition json_headers :: "(string \<times> string) list" where
  "json_headers = [(''Accept'', ''application/json'')]"

definition post :: "string \<Rightarrow> (string \<times> string) list \<Rightarrow> request_body \<Rightarrow> http_request" where
  "post u hs b = \<lparr>rq_url = u, rq_headers = hs, rq_body = b\<rparr>"

text \<open>\<open>name=value&...\<close> as the formats of the form bodies have it; a value that stands in the format
  itself has no character that the encoding changes.\<close>

definition form_body :: "(string \<times> string) list \<Rightarrow> request_body" where
  "form_body kvs = FormBody (join ''&'' (map (\<lambda>(k, v). k @ ''='' @ percent_encode_component v) kvs))"

text \<open>Expiry with a margin of five minutes, every step saturating.\<close>

definition oauth_expires_at_ms :: "int \<Rightarrow> int \<Rightarrow> int" where
  "oauth_expires_at_ms now secs = sat_i64 (sat_i64 (now + sat_i64 (secs * 1000)) - 5 * 60 * 1000)"

text \<open>\<open>OAuthTokenResponse\<close>, and \<open>OAuthRefreshTokenResponse\<close> whose refresh token may be absent or null.\<close>

definition token_response :: "json \<Rightarrow> (string \<times> string \<times> int) option" where
  "token_response j =
     (case (jget_str ''access_token'' j, jget_str ''refresh_token'' j, Option.bind (jget ''expires_in'' j) as_i64) of
        (Some a, Some r, Some x) \<Rightarrow> Some (a, r, x) | _ \<Rightarrow> None)"

definition refresh_response :: "json \<Rightarrow> (string \<times> string option \<times> int) option" where
  "refresh_response j =
     (case (jget_str ''access_token'' j, Option.bind (jget ''expires_in'' j) as_i64) of
        (Some a, Some x) \<Rightarrow>
          (case jget ''refresh_token'' j of
             None \<Rightarrow> Some (a, None, x)
           | Some JNull \<Rightarrow> Some (a, None, x)
           | Some (JStr r) \<Rightarrow> Some (a, Some r, x)
           | Some _ \<Rightarrow> None)
      | _ \<Rightarrow> None)"

text \<open>\<open>serde_json::from_str\<close> into a type: the value or the message.\<close>

definition from_text :: "pi_env \<Rightarrow> pi_net \<Rightarrow> (json \<Rightarrow> 'a option) \<Rightarrow> string \<Rightarrow> 'a res" where
  "from_text e n rd t =
     (case json_of e t of
        Inl m \<Rightarrow> Inl m | Inr j \<Rightarrow> (case rd j of None \<Rightarrow> Inl (shape_error n j) | Some v \<Rightarrow> Inr v))"

text \<open>Sending, the check of the status and reading the tokens, which every exchange repeats:
  \<open>sent\<close> and \<open>bad\<close> are the texts before the error of the transport and of the answer, \<open>shape\<close> the one
  before the message of \<open>serde\<close>; the answer is shown with the secrets taken out.\<close>

definition token_exchange ::
  "pi_env \<Rightarrow> pi_net \<Rightarrow> http_request \<Rightarrow> string list \<Rightarrow> string \<Rightarrow> (nat \<Rightarrow> string \<Rightarrow> string)
     \<Rightarrow> (string \<Rightarrow> string \<Rightarrow> string) \<Rightarrow> (json \<Rightarrow> 'a option) \<Rightarrow> 'a res" where
  "token_exchange e n rq secrets sent bad shape rd =
     (case http n rq of
        SendError m \<Rightarrow> auth_error (sent @ m)
      | Reply status body \<Rightarrow>
          (let t = reply_text body; redacted = redact_known_secrets (json_of e) (text_of e) t secrets in
           if \<not> is_success status then auth_error (bad status redacted)
           else map_err (\<lambda>m. auth_message (shape m redacted)) (from_text e n rd t)))"

section \<open>The pasted code\<close>

text \<open>The checks with which every completion begins.\<close>

definition authorization_code :: "string \<Rightarrow> string \<Rightarrow> string \<Rightarrow> string res" where
  "authorization_code missing code_input ver =
     (case parse_oauth_code_input code_input of
        (None, _) \<Rightarrow> auth_error missing
      | (Some code, state) \<Rightarrow>
          (if (case state of Some s \<Rightarrow> s | None \<Rightarrow> ver) \<noteq> ver then auth_error ''State mismatch'' else Inr code))"

record oauth_start_info =
  si_provider :: string
  si_url :: string
  si_verifier :: string
  si_instructions :: "string option"

definition paste_instructions :: string where
  "paste_instructions = ''Open the URL, complete login, then paste the callback URL or authorization code.''"

section \<open>Anthropic\<close>

definition anthropic_client_id :: string where
  "anthropic_client_id = ''9d1c250a-e61b-44d9-88ed-5944d1962f5e''"

definition anthropic_token_url :: string where
  "anthropic_token_url = ''https://console.anthropic.com/v1/oauth/token''"

definition anthropic_redirect_uri :: string where
  "anthropic_redirect_uri = ''https://console.anthropic.com/oauth/code/callback''"

text \<open>\<open>pkce\<close> is the pair of verifier and challenge.\<close>

definition start_anthropic_oauth :: "string \<times> string \<Rightarrow> oauth_start_info res" where
  "start_anthropic_oauth pkce = Inr
     \<lparr>si_provider = ''anthropic'',
      si_url = build_url_with_query ''https://claude.ai/oauth/authorize''
        [(''code'', ''true''), (''client_id'', anthropic_client_id), (''response_type'', ''code''),
         (''redirect_uri'', anthropic_redirect_uri),
         (''scope'', ''org:create_api_key user:profile user:inference''), (''code_challenge'', snd pkce),
         (''code_challenge_method'', ''S256''), (''state'', fst pkce)],
      si_verifier = fst pkce, si_instructions = Some paste_instructions\<rparr>"

definition complete_anthropic_oauth :: "pi_env \<Rightarrow> pi_net \<Rightarrow> string \<Rightarrow> string \<Rightarrow> auth_credential res" where
  "complete_anthropic_oauth e n code_input ver =
     (case authorization_code ''Missing authorization code'' code_input ver of
        Inl err \<Rightarrow> Inl err
      | Inr code \<Rightarrow>
          (case token_exchange e n
                  (post anthropic_token_url [] (JsonBody (JObj
                     [(''grant_type'', JStr ''authorization_code''), (''client_id'', JStr anthropic_client_id),
                      (''code'', JStr code), (''state'', JStr ver), (''redirect_uri'', JStr anthropic_redirect_uri),
                      (''code_verifier'', JStr ver)])))
                  [code, ver, ver] ''Token exchange failed: '' (\<lambda>_ t. ''Token exchange failed: '' @ t)
                  (\<lambda>m _. ''Invalid token response: '' @ m) token_response of
             Inl err \<Rightarrow> Inl err
           | Inr (a, r, x) \<Rightarrow>
               Inr (OAuth a r (oauth_expires_at_ms (answered_ms n) x) (Some anthropic_token_url) (Some anthropic_client_id))))"

definition refresh_anthropic_oauth_token :: "pi_env \<Rightarrow> pi_net \<Rightarrow> string \<Rightarrow> auth_credential res" where
  "refresh_anthropic_oauth_token e n refresh =
     (case token_exchange e n
             (post anthropic_token_url [] (JsonBody (JObj
                [(''grant_type'', JStr ''refresh_token''), (''client_id'', JStr anthropic_client_id),
                 (''refresh_token'', JStr refresh)])))
             [refresh] ''Anthropic token refresh failed: '' (\<lambda>_ t. ''Anthropic token refresh failed: '' @ t)
             (\<lambda>m _. ''Invalid refresh response: '' @ m) token_response of
        Inl err \<Rightarrow> Inl err
      | Inr (a, r, x) \<Rightarrow>
          Inr (OAuth a r (oauth_expires_at_ms (answered_ms n) x) (Some anthropic_token_url) (Some anthropic_client_id)))"

section \<open>OpenAI Codex\<close>

definition codex_client_id :: string where
  "codex_client_id = ''app_EMoamEEZ73f0CkXaXp7hrann''"

definition codex_token_url :: string where
  "codex_token_url = ''https://auth.openai.com/oauth/token''"

definition codex_redirect_uri :: string where
  "codex_redirect_uri = ''http://localhost:1455/auth/callback''"

definition start_openai_codex_oauth :: "string \<times> string \<Rightarrow> oauth_start_info res" where
  "start_openai_codex_oauth pkce = Inr
     \<lparr>si_provider = ''openai-codex'',
      si_url = build_url_with_query ''https://auth.openai.com/oauth/authorize''
        [(''response_type'', ''code''), (''client_id'', codex_client_id), (''redirect_uri'', codex_redirect_uri),
         (''scope'', ''openid profile email offline_access''), (''code_challenge'', snd pkce),
         (''code_challenge_method'', ''S256''), (''state'', fst pkce), (''id_token_add_organizations'', ''true''),
         (''codex_cli_simplified_flow'', ''true''), (''originator'', ''pi'')],
      si_verifier = fst pkce, si_instructions = Some paste_instructions\<rparr>"

definition complete_openai_codex_oauth :: "pi_env \<Rightarrow> pi_net \<Rightarrow> string \<Rightarrow> string \<Rightarrow> auth_credential res" where
  "complete_openai_codex_oauth e n code_input ver =
     (case authorization_code ''Missing authorization code'' code_input ver of
        Inl err \<Rightarrow> Inl err
      | Inr code \<Rightarrow>
          (case token_exchange e n
                  (post codex_token_url form_headers (form_body
                     [(''grant_type'', ''authorization_code''), (''client_id'', codex_client_id), (''code'', code),
                      (''code_verifier'', ver), (''redirect_uri'', codex_redirect_uri)]))
                  [code, ver] ''OpenAI Codex token exchange failed: ''
                  (\<lambda>_ t. ''OpenAI Codex token exchange failed: '' @ t)
                  (\<lambda>m _. ''Invalid OpenAI Codex token response: '' @ m) token_response of
             Inl err \<Rightarrow> Inl err
           | Inr (a, r, x) \<Rightarrow>
               Inr (OAuth a r (oauth_expires_at_ms (answered_ms n) x) (Some codex_token_url) (Some codex_client_id))))"

section \<open>Google\<close>

definition required_oauth_env :: "pi_env \<Rightarrow> string \<Rightarrow> string res" where
  "required_oauth_env e k =
     (case env_var e k of
        None \<Rightarrow> auth_error (''Missing required OAuth credential env var: '' @ k) | Some v \<Rightarrow> Inr v)"

definition google_token_url :: string where
  "google_token_url = ''https://oauth2.googleapis.com/token''"

text \<open>Gemini CLI and Antigravity differ in these constants and in how the project is found.\<close>

record google_flow =
  gf_name :: string
  gf_id_env :: string
  gf_secret_env :: string
  gf_redirect :: string
  gf_scopes :: string

definition gemini_cli_flow :: google_flow where
  "gemini_cli_flow =
     \<lparr>gf_name = ''google-gemini-cli'', gf_id_env = ''GOOGLE_GEMINI_CLI_OAUTH_CLIENT_ID'',
      gf_secret_env = ''GOOGLE_GEMINI_CLI_OAUTH_CLIENT_SECRET'', gf_redirect = ''http://localhost:8085/oauth2callback'',
      gf_scopes = ''https://www.googleapis.com/auth/cloud-platform https://www.googleapis.com/auth/userinfo.email https://www.googleapis.com/auth/userinfo.profile''\<rparr>"

definition antigravity_flow :: google_flow where
  "antigravity_flow =
     \<lparr>gf_name = ''google-antigravity'', gf_id_env = ''GOOGLE_ANTIGRAVITY_OAUTH_CLIENT_ID'',
      gf_secret_env = ''GOOGLE_ANTIGRAVITY_OAUTH_CLIENT_SECRET'', gf_redirect = ''http://localhost:51121/oauth-callback'',
      gf_scopes = ''https://www.googleapis.com/auth/cloud-platform https://www.googleapis.com/auth/userinfo.email https://www.googleapis.com/auth/userinfo.profile https://www.googleapis.com/auth/cclog https://www.googleapis.com/auth/experimentsandconfigs''\<rparr>"

definition start_google_oauth :: "google_flow \<Rightarrow> pi_env \<Rightarrow> string \<times> string \<Rightarrow> oauth_start_info res" where
  "start_google_oauth g e pkce =
     (case required_oauth_env e (gf_id_env g) of
        Inl err \<Rightarrow> Inl err
      | Inr cid \<Rightarrow> Inr
          \<lparr>si_provider = gf_name g,
           si_url = build_url_with_query ''https://accounts.google.com/o/oauth2/v2/auth''
             [(''client_id'', cid), (''response_type'', ''code''), (''redirect_uri'', gf_redirect g),
              (''scope'', gf_scopes g), (''code_challenge'', snd pkce), (''code_challenge_method'', ''S256''),
              (''state'', fst pkce), (''access_type'', ''offline''), (''prompt'', ''consent'')],
           si_verifier = fst pkce, si_instructions = Some paste_instructions\<rparr>)"

definition start_google_gemini_cli_oauth :: "pi_env \<Rightarrow> string \<times> string \<Rightarrow> oauth_start_info res" where
  "start_google_gemini_cli_oauth = start_google_oauth gemini_cli_flow"

definition start_google_antigravity_oauth :: "pi_env \<Rightarrow> string \<times> string \<Rightarrow> oauth_start_info res" where
  "start_google_antigravity_oauth = start_google_oauth antigravity_flow"

definition parse_code_assist_project_id :: "json \<Rightarrow> string option" where
  "parse_code_assist_project_id j =
     (case jget ''cloudaicompanionProject'' j of
        None \<Rightarrow> None
      | Some project \<Rightarrow>
          Option.bind (case as_str project of Some s \<Rightarrow> Some s | None \<Rightarrow> jget_str ''id'' project)
            (\<lambda>s. nonempty (trim s)))"

definition code_assist_request :: "string \<Rightarrow> string \<Rightarrow> (string \<times> json) list \<Rightarrow> (string \<times> json) list \<Rightarrow> http_request" where
  "code_assist_request endpoint access more_fields more_metadata =
     post (endpoint @ ''/v1internal:loadCodeAssist'')
       [(''Authorization'', ''Bearer '' @ access), (''Content-Type'', ''application/json'')]
       (JsonBody (JObj
          ((''metadata'', JObj ([(''ideType'', JStr ''IDE_UNSPECIFIED''), (''platform'', JStr ''PLATFORM_UNSPECIFIED''),
             (''pluginType'', JStr ''GEMINI'')] @ more_metadata)) # more_fields)))"

definition project_in_reply :: "pi_env \<Rightarrow> string \<Rightarrow> string option" where
  "project_in_reply e t = Option.bind (res_ok (json_of e t)) parse_code_assist_project_id"

definition discover_google_gemini_cli_project_id :: "pi_env \<Rightarrow> pi_net \<Rightarrow> string \<Rightarrow> string res" where
  "discover_google_gemini_cli_project_id e n access =
     (let env_project = google_project_id_from_env e;
          rq = (case env_project of
                  None \<Rightarrow> code_assist_request ''https://cloudcode-pa.googleapis.com'' access [] []
                | Some p \<Rightarrow> code_assist_request ''https://cloudcode-pa.googleapis.com'' access
                    [(''cloudaicompanionProject'', JStr p)] [(''duetProject'', JStr p)])
      in case http n rq of
           SendError m \<Rightarrow> auth_error (''Google Cloud project discovery failed: '' @ m)
         | Reply status body \<Rightarrow>
             (case (if is_success status then project_in_reply e (reply_text body) else None) of
                Some p \<Rightarrow> Inr p
              | None \<Rightarrow>
                  (case env_project of
                     Some p \<Rightarrow> Inr p
                   | None \<Rightarrow> auth_error ''Google Cloud project discovery failed. Set GOOGLE_CLOUD_PROJECT or GOOGLE_CLOUD_PROJECT_ID and retry /login google-gemini-cli.'')))"

definition antigravity_endpoints :: "string list" where
  "antigravity_endpoints = [''https://cloudcode-pa.googleapis.com'', ''https://daily-cloudcode-pa.sandbox.googleapis.com'']"

definition discover_google_antigravity_project_id :: "pi_env \<Rightarrow> pi_net \<Rightarrow> string \<Rightarrow> string res" where
  "discover_google_antigravity_project_id e n access =
     (case find_map (\<lambda>endpoint.
             case http n (code_assist_request endpoint access [] []) of
               SendError _ \<Rightarrow> None
             | Reply status body \<Rightarrow>
                 if is_success status then project_in_reply e (case body of Some t \<Rightarrow> t | None \<Rightarrow> []) else None)
           antigravity_endpoints of
        Some p \<Rightarrow> Inr p | None \<Rightarrow> Inr antigravity_default_project)"

definition exchange_google_authorization_code ::
  "pi_env \<Rightarrow> pi_net \<Rightarrow> string \<Rightarrow> string \<Rightarrow> string \<Rightarrow> string \<Rightarrow> string \<Rightarrow> string \<Rightarrow> (string \<times> string \<times> int) res" where
  "exchange_google_authorization_code e n token_url cid csecret code redirect ver =
     token_exchange e n
       (post token_url form_headers (form_body
          [(''client_id'', cid), (''client_secret'', csecret), (''code'', code), (''grant_type'', ''authorization_code''),
           (''redirect_uri'', redirect), (''code_verifier'', ver)]))
       [code, ver, csecret] ''OAuth token exchange failed: '' (\<lambda>_ t. ''OAuth token exchange failed: '' @ t)
       (\<lambda>m _. ''Invalid OAuth token response: '' @ m) token_response"

definition complete_google_oauth ::
  "google_flow \<Rightarrow> (pi_env \<Rightarrow> pi_net \<Rightarrow> string \<Rightarrow> string res) \<Rightarrow> pi_env \<Rightarrow> pi_net \<Rightarrow> string \<Rightarrow> string
     \<Rightarrow> auth_credential res" where
  "complete_google_oauth g discover e n code_input ver =
     (case authorization_code ''Missing authorization code'' code_input ver of Inl err \<Rightarrow> Inl err | Inr code \<Rightarrow>
      (case required_oauth_env e (gf_id_env g) of Inl err \<Rightarrow> Inl err | Inr cid \<Rightarrow>
       (case required_oauth_env e (gf_secret_env g) of Inl err \<Rightarrow> Inl err | Inr csecret \<Rightarrow>
        (case exchange_google_authorization_code e n google_token_url cid csecret code (gf_redirect g) ver of
           Inl err \<Rightarrow> Inl err
         | Inr (a, r, x) \<Rightarrow>
             (case discover e n a of
                Inl err \<Rightarrow> Inl err
              | Inr project \<Rightarrow>
                  Inr (OAuth (encode_project_scoped_access_token (text_of e) a project) r
                         (oauth_expires_at_ms (answered_ms n) x) None None))))))"

definition complete_google_gemini_cli_oauth :: "pi_env \<Rightarrow> pi_net \<Rightarrow> string \<Rightarrow> string \<Rightarrow> auth_credential res" where
  "complete_google_gemini_cli_oauth = complete_google_oauth gemini_cli_flow discover_google_gemini_cli_project_id"

definition complete_google_antigravity_oauth :: "pi_env \<Rightarrow> pi_net \<Rightarrow> string \<Rightarrow> string \<Rightarrow> auth_credential res" where
  "complete_google_antigravity_oauth = complete_google_oauth antigravity_flow discover_google_antigravity_project_id"

definition refresh_google_oauth_token_with_project ::
  "pi_env \<Rightarrow> pi_net \<Rightarrow> string \<Rightarrow> string \<Rightarrow> string \<Rightarrow> string \<Rightarrow> string \<Rightarrow> string \<Rightarrow> auth_credential res" where
  "refresh_google_oauth_token_with_project e n token_url cid csecret refresh project provider_name =
     (case token_exchange e n
             (post token_url form_headers (form_body
                [(''client_id'', cid), (''client_secret'', csecret), (''refresh_token'', refresh),
                 (''grant_type'', ''refresh_token'')]))
             [csecret, refresh] (provider_name @ '' token refresh failed: '')
             (\<lambda>_ t. provider_name @ '' token refresh failed: '' @ t)
             (\<lambda>m _. ''Invalid '' @ provider_name @ '' refresh response: '' @ m) refresh_response of
        Inl err \<Rightarrow> Inl err
      | Inr (a, r, x) \<Rightarrow>
          Inr (OAuth (encode_project_scoped_access_token (text_of e) a project)
                 (case r of Some r' \<Rightarrow> r' | None \<Rightarrow> refresh) (oauth_expires_at_ms (answered_ms n) x) None None))"

definition refresh_google_oauth_token ::
  "google_flow \<Rightarrow> pi_env \<Rightarrow> pi_net \<Rightarrow> string \<Rightarrow> string \<Rightarrow> auth_credential res" where
  "refresh_google_oauth_token g e n refresh project =
     (case required_oauth_env e (gf_id_env g) of Inl err \<Rightarrow> Inl err | Inr cid \<Rightarrow>
      (case required_oauth_env e (gf_secret_env g) of Inl err \<Rightarrow> Inl err | Inr csecret \<Rightarrow>
         refresh_google_oauth_token_with_project e n google_token_url cid csecret refresh project (gf_name g)))"

section \<open>Kimi: the device flow\<close>

record platform =
  os_name :: string
  arch_name :: string
  package_version :: string
  fresh_id :: string

definition kimi_code_oauth_host :: "pi_env \<Rightarrow> string" where
  "kimi_code_oauth_host e =
     (case find_map (env_text (env_var e)) [''KIMI_CODE_OAUTH_HOST'', ''KIMI_OAUTH_HOST''] of
        Some h \<Rightarrow> h | None \<Rightarrow> ''https://auth.kimi.com'')"

definition kimi_code_endpoint_for_host :: "string \<Rightarrow> string \<Rightarrow> string" where
  "kimi_code_endpoint_for_host host path = trim_trailing_slash host @ path"

definition kimi_code_token_endpoint :: "pi_env \<Rightarrow> string" where
  "kimi_code_token_endpoint e = kimi_code_endpoint_for_host (kimi_code_oauth_host e) ''/api/oauth/token''"

definition kimi_client_id :: string where
  "kimi_client_id = ''17e5f671-d194-4dfb-9706-5516cb48c098''"

definition kimi_device_id_paths :: "pi_env \<Rightarrow> (string \<times> string) option" where
  "kimi_device_id_paths e =
     (case kimi_share_dir_with_env_lookup (env_var e) of
        None \<Rightarrow> None
      | Some d \<Rightarrow>
          (let primary = join_path d ''device_id'' in
           Some (primary,
             (case home_dir e of
                None \<Rightarrow> primary
              | Some h \<Rightarrow> join_path (join_path (join_path h ''.pi'') ''agent'') ''kimi-device-id''))))"

text \<open>The identifier, and the file that is written when a fresh one is taken.\<close>

definition kimi_device_id :: "pi_env \<Rightarrow> platform \<Rightarrow> string \<times> (string \<times> string) option" where
  "kimi_device_id e pf =
     (case kimi_device_id_paths e of
        None \<Rightarrow> (fresh_id pf, None)
      | Some (primary, legacy) \<Rightarrow>
          (case find_map (\<lambda>path. Option.bind (read_text e path) (\<lambda>t. nonempty (trim t))) [primary, legacy] of
             Some i \<Rightarrow> (i, None) | None \<Rightarrow> (fresh_id pf, Some (primary, fresh_id pf))))"

definition kimi_common_headers :: "pi_env \<Rightarrow> platform \<Rightarrow> (string \<times> string) list" where
  "kimi_common_headers e pf =
     (let device_name = (case env_var e ''HOSTNAME'' of
            Some v \<Rightarrow> v
          | None \<Rightarrow> (case env_var e ''COMPUTERNAME'' of Some v \<Rightarrow> v | None \<Rightarrow> ''unknown''));
          clean = (\<lambda>v. sanitize_ascii_header_value v ''unknown'')
      in [(''X-Msh-Platform'', clean ''kimi_cli''), (''X-Msh-Version'', clean (package_version pf)),
          (''X-Msh-Device-Name'', clean device_name),
          (''X-Msh-Device-Model'', clean (os_name pf @ '' '' @ arch_name pf)),
          (''X-Msh-Os-Version'', clean (os_name pf)), (''X-Msh-Device-Id'', clean (fst (kimi_device_id e pf)))])"

record device_code_response =
  dc_device_code :: string
  dc_user_code :: string
  dc_verification_uri :: string
  dc_verification_uri_complete :: "string option"
  dc_expires_in :: nat
  dc_interval :: nat

definition device_code_of_json :: "json \<Rightarrow> device_code_response option" where
  "device_code_of_json j =
     (case (jget_str ''device_code'' j, jget_str ''user_code'' j, jget_str ''verification_uri'' j,
            Option.bind (jget ''expires_in'' j) as_u64,
            (case jget ''interval'' j of None \<Rightarrow> Some 5 | Some v \<Rightarrow> as_u64 v),
            (case jget ''verification_uri_complete'' j of
               None \<Rightarrow> Some None | Some JNull \<Rightarrow> Some None | Some (JStr u) \<Rightarrow> Some (Some u) | Some _ \<Rightarrow> None)) of
        (Some d, Some u, Some v, Some x, Some i, Some c) \<Rightarrow>
          Some \<lparr>dc_device_code = d, dc_user_code = u, dc_verification_uri = v, dc_verification_uri_complete = c,
                dc_expires_in = x, dc_interval = i\<rparr>
      | _ \<Rightarrow> None)"

definition start_kimi_code_device_flow :: "pi_env \<Rightarrow> platform \<Rightarrow> pi_net \<Rightarrow> device_code_response res" where
  "start_kimi_code_device_flow e pf n =
     token_exchange e n
       (post (kimi_code_endpoint_for_host (kimi_code_oauth_host e) ''/api/oauth/device_authorization'')
         (form_headers @ kimi_common_headers e pf) (form_body [(''client_id'', kimi_client_id)]))
       [kimi_client_id] ''Kimi device authorization request failed: ''
       (\<lambda>status t. ''Kimi device authorization failed (HTTP '' @ show_nat status @ ''): '' @ t)
       (\<lambda>m _. ''Invalid Kimi device authorization response: '' @ m) device_code_of_json"

datatype device_poll =
  PollPending | PollSlowDown | PollSuccess auth_credential | PollExpired | PollDenied | PollError string

text \<open>The errors of RFC 8628.\<close>

definition device_error :: "(string \<Rightarrow> string) \<Rightarrow> string \<Rightarrow> device_poll" where
  "device_error other err =
     (if err = ''authorization_pending'' then PollPending
      else if err = ''slow_down'' then PollSlowDown
      else if err = ''expired_token'' then PollExpired
      else if err = ''access_denied'' then PollDenied
      else PollError (other err))"

definition poll_kimi_code_device_flow :: "pi_env \<Rightarrow> platform \<Rightarrow> pi_net \<Rightarrow> string \<Rightarrow> device_poll" where
  "poll_kimi_code_device_flow e pf n device_code =
     (let token_url = kimi_code_token_endpoint e in
      case http n (post token_url (form_headers @ kimi_common_headers e pf)
             (form_body [(''client_id'', kimi_client_id), (''device_code'', device_code),
                (''grant_type'', ''urn:ietf:params:oauth:grant-type:device_code'')])) of
        SendError m \<Rightarrow> PollError (''Poll request failed: '' @ m)
      | Reply status body \<Rightarrow>
          (let t = reply_text body in
           case json_of e t of
             Inl m \<Rightarrow> PollError (''Invalid poll response JSON: '' @ m)
           | Inr j \<Rightarrow>
               (case jget_str ''error'' j of
                  Some err \<Rightarrow>
                    device_error (\<lambda>other. ''Kimi device flow error: '' @ other @ '': '' @
                      (case jget_str ''error_description'' j of Some d \<Rightarrow> d | None \<Rightarrow> ''unknown error'')) err
                | None \<Rightarrow>
                    if \<not> is_success status
                    then PollError (''Kimi device flow polling failed (HTTP '' @ show_nat status @ ''): '' @
                           redact_known_secrets (json_of e) (text_of e) t [device_code])
                    else
                      (case token_response j of
                         None \<Rightarrow> PollError (''Invalid Kimi token response payload: '' @ shape_error n j)
                       | Some (a, r, x) \<Rightarrow>
                           PollSuccess (OAuth a r (oauth_expires_at_ms (answered_ms n) x) (Some token_url) (Some kimi_client_id))))))"

definition refresh_kimi_code_oauth_token ::
  "pi_env \<Rightarrow> platform \<Rightarrow> pi_net \<Rightarrow> string \<Rightarrow> string \<Rightarrow> auth_credential res" where
  "refresh_kimi_code_oauth_token e pf n token_url refresh =
     (case token_exchange e n
             (post token_url (form_headers @ kimi_common_headers e pf) (form_body
                [(''client_id'', kimi_client_id), (''grant_type'', ''refresh_token''), (''refresh_token'', refresh)]))
             [refresh] ''Kimi token refresh failed: ''
             (\<lambda>status t. ''Kimi token refresh failed (HTTP '' @ show_nat status @ ''): '' @ t)
             (\<lambda>m _. ''Invalid Kimi refresh response: '' @ m) refresh_response of
        Inl err \<Rightarrow> Inl err
      | Inr (a, r, x) \<Rightarrow>
          Inr (OAuth a (case r of Some r' \<Rightarrow> r' | None \<Rightarrow> refresh) (oauth_expires_at_ms (answered_ms n) x)
                 (Some token_url) (Some kimi_client_id)))"

section \<open>GitHub Copilot\<close>

record copilot_config =
  cc_client_id :: string
  cc_base_url :: string
  cc_scopes :: string

definition default_copilot_config :: copilot_config where
  "default_copilot_config = \<lparr>cc_client_id = [], cc_base_url = ''https://github.com'', cc_scopes = ''read:user''\<rparr>"

definition github_url :: "copilot_config \<Rightarrow> string \<Rightarrow> string" where
  "github_url c path =
     (if cc_base_url c = ''https://github.com'' then ''https://github.com'' @ path
      else trim_trailing_slash (cc_base_url c) @ path)"

definition start_copilot_browser_oauth :: "copilot_config \<Rightarrow> string \<times> string \<Rightarrow> oauth_start_info res" where
  "start_copilot_browser_oauth c pkce =
     (if cc_client_id c = [] then
        auth_error ''GitHub Copilot OAuth requires a client_id. Set GITHUB_COPILOT_CLIENT_ID or configure the GitHub App in your settings.''
      else Inr
        \<lparr>si_provider = ''github-copilot'',
         si_url = build_url_with_query (github_url c ''/login/oauth/authorize'')
           [(''client_id'', cc_client_id c), (''response_type'', ''code''), (''scope'', cc_scopes c),
            (''code_challenge'', snd pkce), (''code_challenge_method'', ''S256''), (''state'', fst pkce)],
         si_verifier = fst pkce,
         si_instructions = Some ''Open the URL in your browser to authorize GitHub Copilot access, then paste the callback URL or authorization code.''\<rparr>)"

definition newline :: string where
  "newline = [CHR 0x0A]"

definition copilot_diagnostic :: "string \<Rightarrow> string \<Rightarrow> string" where
  "copilot_diagnostic summary detail =
     summary @ '': '' @ detail @ newline @ ''Troubleshooting:'' @ newline @
     ''- Verify the GitHub App client_id is correct'' @ newline @
     ''- Ensure your GitHub account has an active Copilot subscription'' @ newline @
     ''- For GitHub Enterprise, set the correct base URL'' @ newline @
     ''- Check https://github.com/settings/applications for app authorization status''"

text \<open>The expiry that is absent stands for a year.\<close>

definition github_token_of_json :: "int \<Rightarrow> json \<Rightarrow> auth_credential res" where
  "github_token_of_json now j =
     (case jget_str ''access_token'' j of
        None \<Rightarrow> auth_error ''Missing access_token in GitHub response''
      | Some a \<Rightarrow>
          Inr (OAuth a (case jget_str ''refresh_token'' j of Some r \<Rightarrow> r | None \<Rightarrow> [])
            (oauth_expires_at_ms now
               (case Option.bind (jget ''expires_in'' j) as_i64 of Some x \<Rightarrow> x | None \<Rightarrow> 365 * 24 * 3600)) None None))"

definition parse_github_token_response :: "pi_env \<Rightarrow> pi_net \<Rightarrow> string \<Rightarrow> auth_credential res" where
  "parse_github_token_response e n t =
     (case json_of e t of
        Inl m \<Rightarrow> auth_error (''Invalid token JSON: '' @ m) | Inr j \<Rightarrow> github_token_of_json (answered_ms n) j)"

definition with_refresh_data :: "string \<Rightarrow> string \<Rightarrow> auth_credential \<Rightarrow> auth_credential" where
  "with_refresh_data u i c = (case c of OAuth a r x _ _ \<Rightarrow> OAuth a r x (Some u) (Some i) | _ \<Rightarrow> c)"

definition complete_copilot_browser_oauth ::
  "pi_env \<Rightarrow> copilot_config \<Rightarrow> pi_net \<Rightarrow> string \<Rightarrow> string \<Rightarrow> auth_credential res" where
  "complete_copilot_browser_oauth e c n code_input ver =
     (case authorization_code ''Missing authorization code. Paste the full callback URL or just the code parameter.''
             code_input ver of
        Inl err \<Rightarrow> Inl err
      | Inr code \<Rightarrow>
          (let token_url = github_url c ''/login/oauth/access_token'' in
           case http n (post token_url json_headers (JsonBody (JObj
                  [(''grant_type'', JStr ''authorization_code''), (''client_id'', JStr (cc_client_id c)),
                   (''code'', JStr code), (''state'', JStr ver), (''code_verifier'', JStr ver)]))) of
             SendError m \<Rightarrow> auth_error (''GitHub token exchange failed: '' @ m)
           | Reply status body \<Rightarrow>
               (let t = reply_text body in
                if \<not> is_success status
                then auth_error (copilot_diagnostic (''Token exchange failed (HTTP '' @ show_nat status @ '')'')
                       (redact_known_secrets (json_of e) (text_of e) t [code, ver, ver]))
                else
                  (case parse_github_token_response e n t of
                     Inl err \<Rightarrow> Inl err | Inr cr \<Rightarrow> Inr (with_refresh_data token_url (cc_client_id c) cr)))))"

definition start_copilot_device_flow :: "pi_env \<Rightarrow> copilot_config \<Rightarrow> pi_net \<Rightarrow> device_code_response res" where
  "start_copilot_device_flow e c n =
     (if cc_client_id c = [] then
        auth_error ''GitHub Copilot device flow requires a client_id. Set GITHUB_COPILOT_CLIENT_ID or configure the GitHub App in your settings.''
      else
        token_exchange e n
          (post (github_url c ''/login/device/code'') json_headers
            (JsonBody (JObj [(''client_id'', JStr (cc_client_id c)), (''scope'', JStr (cc_scopes c))])))
          [] ''GitHub device code request failed: ''
          (\<lambda>status t. copilot_diagnostic (''Device code request failed (HTTP '' @ show_nat status @ '')'') t)
          (\<lambda>m _. ''Invalid device code response: '' @ m @ ''. Ensure the GitHub App has the Device Flow enabled.'')
          device_code_of_json)"

definition poll_copilot_device_flow :: "pi_env \<Rightarrow> copilot_config \<Rightarrow> pi_net \<Rightarrow> string \<Rightarrow> device_poll" where
  "poll_copilot_device_flow e c n device_code =
     (case http n (post (github_url c ''/login/oauth/access_token'') json_headers (JsonBody (JObj
             [(''client_id'', JStr (cc_client_id c)), (''device_code'', JStr device_code),
              (''grant_type'', JStr ''urn:ietf:params:oauth:grant-type:device_code'')]))) of
        SendError m \<Rightarrow> PollError (''Poll request failed: '' @ m)
      | Reply status body \<Rightarrow>
          (let t = reply_text body in
           case json_of e t of
             Inl m \<Rightarrow> PollError (''Invalid poll response: '' @ m)
           | Inr j \<Rightarrow>
               (case jget_str ''error'' j of
                  Some err \<Rightarrow>
                    device_error (\<lambda>other. ''GitHub device flow error: '' @ other @ ''. '' @
                      (case jget_str ''error_description'' j of
                         Some d \<Rightarrow> d | None \<Rightarrow> ''Check your GitHub App configuration.'')) err
                | None \<Rightarrow>
                    (case parse_github_token_response e n t of Inr cr \<Rightarrow> PollSuccess cr | Inl m \<Rightarrow> PollError m))))"

section \<open>GitLab\<close>

record gitlab_config =
  gl_client_id :: string
  gl_base_url :: string
  gl_scopes :: string
  gl_redirect_uri :: "string option"

definition default_gitlab_config :: gitlab_config where
  "default_gitlab_config =
     \<lparr>gl_client_id = [], gl_base_url = ''https://gitlab.com'', gl_scopes = ''api read_api read_user'', gl_redirect_uri = None\<rparr>"

definition redirect_pair :: "('a \<Rightarrow> 'b) \<Rightarrow> 'a option \<Rightarrow> (string \<times> 'b) list" where
  "redirect_pair f u = (case u of None \<Rightarrow> [] | Some v \<Rightarrow> [(''redirect_uri'', f v)])"

definition start_gitlab_oauth :: "gitlab_config \<Rightarrow> string \<times> string \<Rightarrow> oauth_start_info res" where
  "start_gitlab_oauth c pkce =
     (if gl_client_id c = [] then
        auth_error ''GitLab OAuth requires a client_id. Create an application at Settings > Applications in your GitLab instance.''
      else
        (let base = trim_trailing_slash (gl_base_url c) in Inr
           \<lparr>si_provider = ''gitlab'',
            si_url = build_url_with_query (base @ ''/oauth/authorize'')
              ([(''client_id'', gl_client_id c), (''response_type'', ''code''), (''scope'', gl_scopes c),
                (''code_challenge'', snd pkce), (''code_challenge_method'', ''S256''), (''state'', fst pkce)] @
               redirect_pair id (gl_redirect_uri c)),
            si_verifier = fst pkce,
            si_instructions = Some (''Open the URL to authorize GitLab access on '' @ base @
              '', then paste the callback URL or authorization code.'')\<rparr>))"

definition gitlab_diagnostic :: "string \<Rightarrow> string \<Rightarrow> string \<Rightarrow> string" where
  "gitlab_diagnostic base_url summary detail =
     summary @ '': '' @ detail @ newline @ ''Troubleshooting:'' @ newline @
     ''- Verify the application client_id matches your GitLab application'' @ newline @
     ''- Check Settings > Applications on '' @ base_url @ newline @
     ''- Ensure the redirect URI matches your application configuration'' @ newline @
     ''- For self-hosted GitLab, verify the base URL is correct ('' @ base_url @ '')''"

definition complete_gitlab_oauth ::
  "pi_env \<Rightarrow> gitlab_config \<Rightarrow> pi_net \<Rightarrow> string \<Rightarrow> string \<Rightarrow> auth_credential res" where
  "complete_gitlab_oauth e c n code_input ver =
     (case authorization_code ''Missing authorization code. Paste the full callback URL or just the code parameter.''
             code_input ver of
        Inl err \<Rightarrow> Inl err
      | Inr code \<Rightarrow>
          (let token_url = trim_trailing_slash (gl_base_url c) @ ''/oauth/token'' in
           case token_exchange e n
                  (post token_url json_headers (JsonBody (JObj
                     ([(''grant_type'', JStr ''authorization_code''), (''client_id'', JStr (gl_client_id c)),
                       (''code'', JStr code), (''state'', JStr ver), (''code_verifier'', JStr ver)] @
                      redirect_pair JStr (gl_redirect_uri c)))))
                  [code, ver, ver] ''GitLab token exchange failed: ''
                  (\<lambda>status t. gitlab_diagnostic (gl_base_url c) (''Token exchange failed (HTTP '' @ show_nat status @ '')'') t)
                  (\<lambda>m t. gitlab_diagnostic (gl_base_url c) (''Invalid token response: '' @ m) t) token_response of
             Inl err \<Rightarrow> Inl err
           | Inr (a, r, x) \<Rightarrow>
               Inr (OAuth a r (oauth_expires_at_ms (answered_ms n) x) (Some token_url) (Some (gl_client_id c)))))"

section \<open>What an exchange carries\<close>

text \<open>A request with the code of the login and the verifier whose challenge went into the address.\<close>

definition carries :: "http_request \<Rightarrow> string \<Rightarrow> string \<Rightarrow> bool" where
  "carries rq code ver \<longleftrightarrow>
     (case rq_body rq of
        JsonBody j \<Rightarrow> jget_str ''code'' j = Some code \<and> jget_str ''code_verifier'' j = Some ver
      | FormBody f \<Rightarrow>
          map_of (parse_query_pairs f) ''code'' = Some code \<and> map_of (parse_query_pairs f) ''code_verifier'' = Some ver)"

lemma token_exchange_answered:
  "token_exchange e n rq secrets sent bad shape rd = Inr v \<Longrightarrow> \<exists>st b. http n rq = Reply st b \<and> is_success st"
  by (auto simp: token_exchange_def auth_error_def Let_def split: http_reply.splits if_splits)

lemma plain_key: "list_all unreserved k \<Longrightarrow> percent_encode_component k = k"
  by (induction k) (auto simp: encode_byte_def)

lemma form_body_query:
  "list_all (\<lambda>kv. list_all unreserved (fst kv)) kvs \<Longrightarrow> form_body kvs = FormBody (query_text kvs)"
  by (auto simp: form_body_def query_text_def list_all_iff plain_key intro!: arg_cong [where f = "join ''&''"])

lemma carries_form:
  assumes "list_all (\<lambda>kv. list_all unreserved (fst kv) \<and> valid_utf8 (fst kv) \<and> valid_utf8 (snd kv)) kvs"
    and "map_of kvs ''code'' = Some code" "map_of kvs ''code_verifier'' = Some ver"
  shows "carries (post u hs (form_body kvs)) code ver"
proof -
  have "form_body kvs = FormBody (query_text kvs)" using assms(1) by (intro form_body_query) (simp add: list_all_iff)
  moreover have "parse_query_pairs (query_text kvs) = kvs" using assms(1) by (intro parse_query_text) (simp add: list_all_iff)
  ultimately show ?thesis using assms(2,3) by (simp add: carries_def post_def)
qed

lemma authorization_code_Inr:
  "authorization_code missing code_input ver = Inr code \<Longrightarrow>
     fst (parse_oauth_code_input code_input) = Some code \<and> snd (parse_oauth_code_input code_input) \<in> {None, Some ver}"
  by (auto simp: authorization_code_def auth_error_def split: prod.splits option.splits if_splits)

lemma authorization_code_mismatch:
  "parse_oauth_code_input code_input = (Some code, Some st) \<Longrightarrow> st \<noteq> ver \<Longrightarrow>
     authorization_code missing code_input ver = Inl (auth_message ''State mismatch'')"
  by (simp add: authorization_code_def auth_error_def)

end
