(* ===== verification/Pi_Refresh.thy ===== *)
theory Pi_Refresh
  imports Pi_Login
begin

text \<open>
  The renewal of stored logins in \<open>patches/pi_agent_rust/src/auth.rs\<close>: which entries are due, which
  refresh each of them gets, and what the storage and its file hold afterwards. \<open>net\<close> gives what the
  network answers during the refresh of a provider; a key of the hash map is renewed once.
\<close>

section \<open>Refreshes that need no table\<close>

definition json_refresh ::
  "pi_env \<Rightarrow> pi_net \<Rightarrow> string \<Rightarrow> string \<Rightarrow> string \<Rightarrow> string \<Rightarrow> (nat \<Rightarrow> string \<Rightarrow> string) \<Rightarrow> string
     \<Rightarrow> auth_credential res" where
  "json_refresh e n u cid refresh sent bad shape =
     (case token_exchange e n
             (post u [] (JsonBody (JObj [(''grant_type'', JStr ''refresh_token''), (''client_id'', JStr cid),
                (''refresh_token'', JStr refresh)])))
             [refresh] sent bad (\<lambda>m _. shape @ m) token_response of
        Inl err \<Rightarrow> Inl err
      | Inr (a, r, x) \<Rightarrow> Inr (OAuth a r (oauth_expires_at_ms (answered_ms n) x) (Some u) (Some cid)))"

definition refresh_self_contained_oauth_token ::
  "pi_env \<Rightarrow> pi_net \<Rightarrow> string \<Rightarrow> string \<Rightarrow> string \<Rightarrow> string \<Rightarrow> auth_credential res" where
  "refresh_self_contained_oauth_token e n u cid refresh pname =
     json_refresh e n u cid refresh (pname @ '' token refresh failed: '')
       (\<lambda>status t. pname @ '' token refresh failed (HTTP '' @ show_nat status @ ''): '' @ t)
       (''Invalid refresh response from '' @ pname @ '': '')"

record oauth_config =
  xc_auth_url :: string
  xc_token_url :: string
  xc_client_id :: string
  xc_scopes :: "string list"
  xc_redirect_uri :: "string option"

definition start_extension_oauth :: "string \<Rightarrow> oauth_config \<Rightarrow> string \<times> string \<Rightarrow> oauth_start_info res" where
  "start_extension_oauth pname c pkce = Inr
     \<lparr>si_provider = pname,
      si_url = build_url_with_query (xc_auth_url c)
        ([(''client_id'', xc_client_id c), (''response_type'', ''code''), (''scope'', join '' '' (xc_scopes c)),
          (''code_challenge'', snd pkce), (''code_challenge_method'', ''S256''), (''state'', fst pkce)] @
         redirect_pair id (xc_redirect_uri c)),
      si_verifier = fst pkce, si_instructions = Some paste_instructions\<rparr>"

definition complete_extension_oauth ::
  "pi_env \<Rightarrow> oauth_config \<Rightarrow> pi_net \<Rightarrow> string \<Rightarrow> string \<Rightarrow> auth_credential res" where
  "complete_extension_oauth e c n code_input ver =
     (case authorization_code ''Missing authorization code'' code_input ver of
        Inl err \<Rightarrow> Inl err
      | Inr code \<Rightarrow>
          (case token_exchange e n
                  (post (xc_token_url c) [] (JsonBody (JObj
                     ([(''grant_type'', JStr ''authorization_code''), (''client_id'', JStr (xc_client_id c)),
                       (''code'', JStr code), (''state'', JStr ver), (''code_verifier'', JStr ver)] @
                      redirect_pair JStr (xc_redirect_uri c)))))
                  [code, ver, ver] ''Token exchange failed: '' (\<lambda>_ t. ''Token exchange failed: '' @ t)
                  (\<lambda>m _. ''Invalid token response: '' @ m) token_response of
             Inl err \<Rightarrow> Inl err
           | Inr (a, r, x) \<Rightarrow>
               Inr (OAuth a r (oauth_expires_at_ms (answered_ms n) x) (Some (xc_token_url c)) (Some (xc_client_id c)))))"

definition refresh_extension_oauth_token :: "pi_env \<Rightarrow> oauth_config \<Rightarrow> pi_net \<Rightarrow> string \<Rightarrow> auth_credential res" where
  "refresh_extension_oauth_token e c n refresh =
     json_refresh e n (xc_token_url c) (xc_client_id c) refresh ''Extension OAuth token refresh failed: ''
       (\<lambda>_ t. ''Extension OAuth token refresh failed: '' @ t) ''Invalid refresh response: ''"

section \<open>The entries that are due\<close>

definition refresh_window_ms :: int where
  "refresh_window_ms = 10 * 60 * 1000"

definition proactive_deadline :: "pi_env \<Rightarrow> int" where
  "proactive_deadline e = wrap_i64 (now_ms e + refresh_window_ms)"

definition refreshes_due :: "pi_env \<Rightarrow> entries \<Rightarrow> (string \<times> auth_credential) list" where
  "refreshes_due e es =
     filter (\<lambda>(p, c). case c of OAuth _ _ x _ _ \<Rightarrow> x \<le> proactive_deadline e | _ \<Rightarrow> False) es"

text \<open>What happens to one of them: the whole call ends with an error, it is passed over, or the
  server's answer counts.\<close>

datatype refresh_outcome = Aborts string | PassedOver | Answered "auth_credential res"

definition google_refresh :: "google_flow \<Rightarrow> pi_env \<Rightarrow> pi_net \<Rightarrow> string \<Rightarrow> string \<Rightarrow> refresh_outcome" where
  "google_refresh g e n access refresh =
     (case decode_project_scoped_access_token (json_of e) access of
        None \<Rightarrow> Aborts (auth_message (gf_name g @ '' OAuth credential missing projectId payload''))
      | Some (_, project) \<Rightarrow> Answered (refresh_google_oauth_token g e n refresh project))"

definition refresh_one :: "pi_env \<Rightarrow> platform \<Rightarrow> pi_net \<Rightarrow> string \<Rightarrow> auth_credential \<Rightarrow> refresh_outcome" where
  "refresh_one e pf n p c =
     (case c of
        OAuth access refresh _ u i \<Rightarrow>
          (if p = ''anthropic'' then Answered (refresh_anthropic_oauth_token e n refresh)
           else if p = ''google-gemini-cli'' then google_refresh gemini_cli_flow e n access refresh
           else if p = ''google-antigravity'' then google_refresh antigravity_flow e n access refresh
           else if p = ''kimi-for-coding''
           then Answered (refresh_kimi_code_oauth_token e pf n
                  (case u of Some v \<Rightarrow> v | None \<Rightarrow> kimi_code_token_endpoint e) refresh)
           else
             (case (u, i) of
                (Some v, Some cid) \<Rightarrow> Answered (refresh_self_contained_oauth_token e n v cid refresh p)
              | _ \<Rightarrow> PassedOver))
      | _ \<Rightarrow> PassedOver)"

text \<open>The storage, and the entries of its file: a save that fails is only logged.\<close>

fun refresh_loop ::
  "pi_env \<Rightarrow> platform \<Rightarrow> (string \<Rightarrow> pi_net) \<Rightarrow> (string \<Rightarrow> bool) \<Rightarrow> (string \<times> auth_credential) list \<Rightarrow> string list
     \<Rightarrow> auth_storage \<times> entries \<Rightarrow> (auth_storage \<times> entries) \<times> unit res" where
  "refresh_loop e pf net saves [] failed s =
     (s, if failed = [] then Inr () else auth_error (''OAuth token refresh failed for: '' @ join '', '' failed))"
| "refresh_loop e pf net saves ((p, c) # rs) failed s =
     (case refresh_one e pf (net p) p c of
        Aborts m \<Rightarrow> (s, Inl m)
      | PassedOver \<Rightarrow> refresh_loop e pf net saves rs failed s
      | Answered (Inr refreshed) \<Rightarrow>
          (let st = set_entry p refreshed (fst s) in
           refresh_loop e pf net saves rs failed (st, if saves p then stored st else snd s))
      | Answered (Inl _) \<Rightarrow> refresh_loop e pf net saves rs (failed @ [p]) s)"

definition refresh_expired_oauth_tokens ::
  "pi_env \<Rightarrow> platform \<Rightarrow> (string \<Rightarrow> pi_net) \<Rightarrow> (string \<Rightarrow> bool) \<Rightarrow> auth_storage \<times> entries
     \<Rightarrow> (auth_storage \<times> entries) \<times> unit res" where
  "refresh_expired_oauth_tokens e pf net saves s =
     refresh_loop e pf net saves (refreshes_due e (stored (fst s))) [] s"

section \<open>Extensions\<close>

definition builtin_oauth :: "string list" where
  "builtin_oauth = [''anthropic'', ''openai-codex'', ''google-gemini-cli'', ''google-antigravity'', ''kimi-for-coding'']"

definition extension_refreshes_due ::
  "pi_env \<Rightarrow> (string \<rightharpoonup> oauth_config) \<Rightarrow> entries \<Rightarrow> (string \<times> string \<times> oauth_config) list" where
  "extension_refreshes_due e configs es =
     List.map_filter (\<lambda>(p, c).
       case c of
         OAuth _ refresh x u i \<Rightarrow>
           if p \<in> set builtin_oauth \<or> (u \<noteq> None \<and> i \<noteq> None) then None
           else if x \<le> proactive_deadline e then map_option (\<lambda>k. (p, refresh, k)) (configs p) else None
       | _ \<Rightarrow> None) es"

text \<open>Here a save that fails ends the call.\<close>

fun extension_loop ::
  "pi_env \<Rightarrow> (string \<Rightarrow> pi_net) \<Rightarrow> (string \<Rightarrow> unit res) \<Rightarrow> (string \<times> string \<times> oauth_config) list \<Rightarrow> string list
     \<Rightarrow> auth_storage \<times> entries \<Rightarrow> (auth_storage \<times> entries) \<times> unit res" where
  "extension_loop e net save [] failed s =
     (s, if failed = [] then Inr ()
         else Inl (''API error: Extension OAuth token refresh failed for: '' @ join '', '' failed))"
| "extension_loop e net save ((p, refresh, c) # rs) failed s =
     (case refresh_extension_oauth_token e c (net p) refresh of
        Inl _ \<Rightarrow> extension_loop e net save rs (failed @ [p]) s
      | Inr refreshed \<Rightarrow>
          (let st = set_entry p refreshed (fst s) in
           case save p of
             Inl m \<Rightarrow> ((st, snd s), Inl m)
           | Inr _ \<Rightarrow> extension_loop e net save rs failed (st, stored st)))"

definition refresh_expired_extension_oauth_tokens ::
  "pi_env \<Rightarrow> (string \<rightharpoonup> oauth_config) \<Rightarrow> (string \<Rightarrow> pi_net) \<Rightarrow> (string \<Rightarrow> unit res) \<Rightarrow> auth_storage \<times> entries
     \<Rightarrow> (auth_storage \<times> entries) \<times> unit res" where
  "refresh_expired_extension_oauth_tokens e configs net save s =
     extension_loop e net save (extension_refreshes_due e configs (stored (fst s))) [] s"

section \<open>Every login that can be renewed is\<close>

definition answers :: "pi_env \<Rightarrow> platform \<Rightarrow> (string \<Rightarrow> pi_net) \<Rightarrow> string \<times> auth_credential \<Rightarrow> auth_credential res option" where
  "answers e pf net pc = (case refresh_one e pf (net (fst pc)) (fst pc) (snd pc) of Answered r \<Rightarrow> Some r | _ \<Rightarrow> None)"

definition aborts :: "pi_env \<Rightarrow> platform \<Rightarrow> (string \<Rightarrow> pi_net) \<Rightarrow> string \<times> auth_credential \<Rightarrow> bool" where
  "aborts e pf net pc = (case refresh_one e pf (net (fst pc)) (fst pc) (snd pc) of Aborts _ \<Rightarrow> True | _ \<Rightarrow> False)"

definition failures :: "pi_env \<Rightarrow> platform \<Rightarrow> (string \<Rightarrow> pi_net) \<Rightarrow> (string \<times> auth_credential) list \<Rightarrow> string list" where
  "failures e pf net rs = map fst (filter (\<lambda>pc. \<exists>m. answers e pf net pc = Some (Inl m)) rs)"

lemma refresh_loop_result:
  "\<forall>pc \<in> set rs. \<not> aborts e pf net pc \<Longrightarrow>
     snd (refresh_loop e pf net saves rs failed s) =
       (if failed @ failures e pf net rs = [] then Inr ()
        else auth_error (''OAuth token refresh failed for: '' @ join '', '' (failed @ failures e pf net rs)))"
  by (induction rs arbitrary: failed s)
    (auto simp: aborts_def answers_def failures_def Let_def split: refresh_outcome.splits sum.splits)

definition renewed :: "pi_env \<Rightarrow> platform \<Rightarrow> (string \<Rightarrow> pi_net) \<Rightarrow> string \<Rightarrow> auth_credential \<Rightarrow> auth_credential" where
  "renewed e pf net p c = (case answers e pf net (p, c) of Some (Inr c') \<Rightarrow> c' | _ \<Rightarrow> c)"

lemma refresh_loop_stored:
  "\<forall>pc \<in> set rs. \<not> aborts e pf net pc \<Longrightarrow> distinct (map fst rs) \<Longrightarrow>
     \<forall>pc \<in> set rs. map_of (stored (fst s)) (fst pc) = Some (snd pc) \<Longrightarrow>
     map_of (stored (fst (fst (refresh_loop e pf net saves rs failed s)))) p =
       (case map_of rs p of
          Some c \<Rightarrow> Some (renewed e pf net p c) | None \<Rightarrow> map_of (stored (fst s)) p)"
proof (induction rs arbitrary: failed s)
  case (Cons pc rs)
  obtain q c where pc: "pc = (q, c)" by force
  have fresh: "q \<notin> fst ` set rs" using Cons.prems(2) pc by simp
  then have kept: "\<forall>pc \<in> set rs. map_of (stored (set_entry q c' (fst s))) (fst pc) = Some (snd pc)" for c'
    using Cons.prems(3) by (auto simp: set_entry_def image_iff)
  have q: "map_of rs q = None" using fresh by (simp add: map_of_eq_None_iff)
  have c: "map_of (stored (fst s)) q = Some c" using Cons.prems(3) pc by simp
  have prems: "\<forall>pc \<in> set rs. \<not> aborts e pf net pc" "distinct (map fst rs)"
    "\<forall>pc \<in> set rs. map_of (stored (fst s)) (fst pc) = Some (snd pc)" using Cons.prems by simp_all
  show ?case
  proof (cases "refresh_one e pf (net q) q c")
    case (Aborts m)
    with Cons.prems(1) pc show ?thesis by (simp add: aborts_def)
  next
    case PassedOver
    with Cons.IH [OF prems] pc q c show ?thesis by (auto simp: renewed_def answers_def split: option.split)
  next
    case (Answered r)
    show ?thesis
    proof (cases r)
      case (Inl m)
      with Answered Cons.IH [OF prems] pc q c show ?thesis by (auto simp: renewed_def answers_def split: option.split)
    next
      case (Inr c')
      let ?st = "set_entry q c' (fst s)"
      have "map_of (stored (fst (fst (refresh_loop e pf net saves rs failed (?st, if saves q then stored ?st else snd s))))) p =
          (case map_of rs p of Some c \<Rightarrow> Some (renewed e pf net p c) | None \<Rightarrow> map_of (stored ?st) p)"
        using Cons.IH [OF prems(1,2), of "(?st, if saves q then stored ?st else snd s)" failed] kept
        by (simp cong: option.case_cong)
      with Inr Answered pc q show ?thesis
        by (auto simp: renewed_def answers_def set_entry_def Let_def split: option.split)
    qed
  qed
qed simp

lemma refresh_loop_saved:
  "\<forall>p. saves p \<Longrightarrow> snd s = stored (fst s) \<Longrightarrow>
     snd (fst (refresh_loop e pf net saves rs failed s)) = stored (fst (fst (refresh_loop e pf net saves rs failed s)))"
  by (induction rs arbitrary: failed s) (auto simp: Let_def split: refresh_outcome.splits sum.splits)

lemma due_entry: "distinct (map fst es) \<Longrightarrow> pc \<in> set (refreshes_due e es) \<Longrightarrow> map_of es (fst pc) = Some (snd pc)"
  by (auto simp: refreshes_due_def)

lemma due_distinct: "distinct (map fst es) \<Longrightarrow> distinct (map fst (refreshes_due e es))"
  unfolding refreshes_due_def by (induction es) (auto simp: image_iff)

lemma due_map_of:
  "distinct (map fst es) \<Longrightarrow> map_of (refreshes_due e es) p =
     (case map_of es p of
        Some (OAuth a r x u i) \<Rightarrow> if x \<le> proactive_deadline e then Some (OAuth a r x u i) else None | _ \<Rightarrow> None)"
  unfolding refreshes_due_def
  by (induction es) (auto simp: map_of_eq_None_iff image_iff split: option.splits auth_credential.splits)

text \<open>A Google login without its project ends the call: those after it in the map are not renewed.\<close>

lemma broken_google_login_blocks:
  "decode_project_scoped_access_token (json_of e) access = None \<Longrightarrow>
     refresh_loop e pf net saves ((''google-gemini-cli'', OAuth access refresh x u i) # rs) failed s =
       (s, Inl (auth_message ''google-gemini-cli OAuth credential missing projectId payload''))"
  by (simp add: refresh_one_def google_refresh_def gemini_cli_flow_def)



end
