(* ===== verification/Login_Flow.thy ===== *)
theory Login_Flow
  imports Oauth Pi_Refresh
begin

text \<open>
  The logins the user runs from the app, over the agent's own login code: \<open>login\<close>,
  \<open>complete_login\<close> and \<open>status\<close> of \<open>src-tauri/src/server/oauth_endpoints.rs\<close>, and the choice of a
  session's credential in \<open>server/mod.rs\<close>. The state is the server's of the theory Oauth; the file of
  credentials is its entries, read and written whole by each request. \<open>e\<close> is the environment, \<open>n\<close>
  the network, \<open>pkce\<close> the random verifier with its challenge.
\<close>

section \<open>Which login a provider has\<close>

definition copilot_config_of :: "pi_env \<Rightarrow> copilot_config" where
  "copilot_config_of e =
     default_copilot_config\<lparr>cc_client_id := env_or_empty (env_var e) ''GITHUB_COPILOT_CLIENT_ID''\<rparr>"

definition gitlab_config_of :: "pi_env \<Rightarrow> gitlab_config" where
  "gitlab_config_of e =
     default_gitlab_config\<lparr>gl_client_id := env_or_empty (env_var e) ''GITLAB_CLIENT_ID'',
       gl_base_url := (case env_var e ''GITLAB_BASE_URL'' of Some u \<Rightarrow> u | None \<Rightarrow> ''https://gitlab.com'')\<rparr>"

definition start_browser :: "pi_env \<Rightarrow> string \<times> string \<Rightarrow> string \<Rightarrow> oauth_start_info res" where
  "start_browser e pkce p =
     (if p = ''anthropic'' then start_anthropic_oauth pkce
      else if p = ''openai-codex'' then start_openai_codex_oauth pkce
      else if p = ''google-gemini-cli'' then start_google_gemini_cli_oauth e pkce
      else if p = ''google-antigravity'' then start_google_antigravity_oauth e pkce
      else if p = ''github-copilot'' \<or> p = ''copilot'' then start_copilot_browser_oauth (copilot_config_of e) pkce
      else if p = ''gitlab'' \<or> p = ''gitlab-duo'' then start_gitlab_oauth (gitlab_config_of e) pkce
      else auth_error (''Login not supported for '' @ p))"

definition complete_browser :: "pi_env \<Rightarrow> pi_net \<Rightarrow> string \<Rightarrow> string \<Rightarrow> string \<Rightarrow> auth_credential res" where
  "complete_browser e n p code ver =
     (if p = ''anthropic'' then complete_anthropic_oauth e n code ver
      else if p = ''openai-codex'' then complete_openai_codex_oauth e n code ver
      else if p = ''google-gemini-cli'' then complete_google_gemini_cli_oauth e n code ver
      else if p = ''google-antigravity'' then complete_google_antigravity_oauth e n code ver
      else if p = ''github-copilot'' \<or> p = ''copilot''
      then complete_copilot_browser_oauth e (copilot_config_of e) n code ver
      else if p = ''gitlab'' \<or> p = ''gitlab-duo'' then complete_gitlab_oauth e (gitlab_config_of e) n code ver
      else Inl (''Login completion not supported for '' @ p))"

section \<open>The requests\<close>

definition login ::
  "pi_env \<Rightarrow> platform \<Rightarrow> pi_net \<Rightarrow> string \<times> string \<Rightarrow> string \<Rightarrow> string \<Rightarrow> oauth_server \<Rightarrow> oauth_server \<times> response" where
  "login e pf n pkce pending_id p s =
     (if p = ''kimi-for-coding'' then
        (case start_kimi_code_device_flow e pf n of
           Inl err \<Rightarrow> (s, 400, err_body err)
         | Inr d \<Rightarrow>
             (s\<lparr>pendings := (pendings s)(pending_id \<mapsto>
                  \<lparr>pend_provider = p, pend_kind = DeviceFlow, verifier = [], device_code = Some (dc_device_code d)\<rparr>)\<rparr>, 200,
              ok_body
                [(''provider'', JStr p), (''pendingId'', JStr pending_id), (''kind'', JStr ''device''),
                 (''url'', JStr (case dc_verification_uri_complete d of Some u \<Rightarrow> u | None \<Rightarrow> dc_verification_uri d)),
                 (''instructions'', JStr (''If prompted, enter this code: '' @ dc_user_code d @
                    ''. After approving access in the browser, click Complete setup.'')),
                 (''message'', JStr ''Open the link below and approve access to continue.'')]))
      else
        (case start_browser e pkce p of
           Inl err \<Rightarrow> (s, 400, err_body err)
         | Inr i \<Rightarrow>
             (s\<lparr>pendings := (pendings s)(pending_id \<mapsto>
                  \<lparr>pend_provider = si_provider i, pend_kind = OAuthFlow, verifier = si_verifier i, device_code = None\<rparr>)\<rparr>, 200,
              ok_body
                [(''provider'', JStr (si_provider i)), (''pendingId'', JStr pending_id), (''kind'', JStr ''oauth''),
                 (''url'', JStr (si_url i)), (''instructions'', opt_str (si_instructions i)),
                 (''message'', JStr ''Open the link below, then paste the callback URL or authorization code to continue.'')])))"

definition poll_answer :: "device_poll \<Rightarrow> auth_credential res" where
  "poll_answer r =
     (case r of
        PollSuccess c \<Rightarrow> Inr c
      | PollPending \<Rightarrow> Inl ''Authorization is still pending. Approve access in the browser, then try again.''
      | PollSlowDown \<Rightarrow> Inl ''Authorization server asked to slow down. Wait a few seconds and try again.''
      | PollExpired \<Rightarrow> Inl ''Device code expired. Start setup again.''
      | PollDenied \<Rightarrow> Inl ''Authorization was denied.''
      | PollError err \<Rightarrow> Inl err)"

text \<open>The credential of a pending login, or an answer that ends the request.\<close>

definition credential_result ::
  "pi_env \<Rightarrow> platform \<Rightarrow> pi_net \<Rightarrow> string option \<Rightarrow> oauth_pending \<Rightarrow> response + auth_credential res" where
  "credential_result e pf n code_input p =
     (case pend_kind p of
        OAuthFlow \<Rightarrow>
          (let code = trim (case code_input of Some c \<Rightarrow> c | None \<Rightarrow> []) in
           if code = [] then Inl (400, err_body ''Paste the callback URL or authorization code to continue.'')
           else Inr (complete_browser e n (pend_provider p) code (verifier p)))
      | DeviceFlow \<Rightarrow>
          (case device_code p of
             None \<Rightarrow> Inl (500, err_body ''Device flow is missing a device code.'')
           | Some dc \<Rightarrow> Inr (poll_answer (poll_kimi_code_device_flow e pf n dc))))"

definition loaded :: "pi_env \<Rightarrow> oauth_server \<Rightarrow> auth_storage" where
  "loaded e s = \<lparr>storage_path = auth_path e, stored = pi_file s\<rparr>"

text \<open>\<open>load_error\<close> and \<open>save_error\<close> are the failures of the credential file. A failed save leaves the
  stored credentials as they were.\<close>

definition complete_login ::
  "pi_env \<Rightarrow> platform \<Rightarrow> pi_net \<Rightarrow> string option \<Rightarrow> string option \<Rightarrow> string \<Rightarrow> string option \<Rightarrow> oauth_server
     \<Rightarrow> oauth_server \<times> response" where
  "complete_login e pf n load_error save_error pending_id code_input s =
     (case pendings s pending_id of
        None \<Rightarrow> (s, 404, err_body ''Login session not found or expired.'')
      | Some p \<Rightarrow>
          (case load_error of
             Some m \<Rightarrow> (s, 500, err_body m)
           | None \<Rightarrow>
               (case credential_result e pf n code_input p of
                  Inl r \<Rightarrow> (s, r)
                | Inr (Inl m) \<Rightarrow>
                    (s, (if str_contains m ''pending'' \<or> str_contains m ''slow down'' then 409 else 400), err_body m)
                | Inr (Inr c) \<Rightarrow>
                    (let auth = set_entry (pend_provider p) c (loaded e s) in
                     case save_error of
                       Some m \<Rightarrow> (s, 500, err_body m)
                     | None \<Rightarrow>
                         (s\<lparr>pi_file := stored auth, pendings := (pendings s)(pending_id := None)\<rparr>, 200,
                          ok_body [(''provider'', JStr (pend_provider p))])))))"

text \<open>\<open>auth\<close>: the storage, unless its file cannot be read.\<close>

definition active :: "pi_env \<Rightarrow> auth_storage option \<Rightarrow> string \<Rightarrow> bool" where
  "active e auth p =
     (case auth of
        None \<Rightarrow> False
      | Some st \<Rightarrow> (case credential_status_of e st p of MissingStatus \<Rightarrow> False | OAuthExpired _ \<Rightarrow> False | _ \<Rightarrow> True))"

definition authenticated_providers :: "pi_env \<Rightarrow> auth_storage option \<Rightarrow> string list" where
  "authenticated_providers e auth = filter (active e auth) (map ps_id pi_oauth_provider_summaries)"

definition oauth_status :: "pi_env \<Rightarrow> auth_storage option \<Rightarrow> json" where
  "oauth_status e auth =
     JObj [(''authenticated_providers'', JArr (map JStr (authenticated_providers e auth))),
           (''has_credentials'', JBool (authenticated_providers e auth \<noteq> []))]"

section \<open>The credential of a session\<close>

definition provider_oauth_access_token ::
  "(string \<Rightarrow> json res) \<Rightarrow> kc_answer \<Rightarrow> string \<Rightarrow> keychain \<Rightarrow> string option" where
  "provider_oauth_access_token of_text a p kc =
     (case get_credentials of_text a p [] kc of
        Inr (Some c) \<Rightarrow> if trim (access_token c) \<noteq> [] then Some (trim (access_token c)) else None
      | _ \<Rightarrow> None)"

definition provider_pi_resolved_key :: "pi_env \<Rightarrow> auth_storage option \<Rightarrow> string \<Rightarrow> string option" where
  "provider_pi_resolved_key e auth p = Option.bind auth (\<lambda>st. resolve_api_key e st p None)"

definition select_session_auth_token_from_sources ::
  "string option \<Rightarrow> string option \<Rightarrow> string option \<Rightarrow> string option" where
  "select_session_auth_token_from_sources oauth_token pi_token app_token =
     (case oauth_token of Some t \<Rightarrow> Some t | None \<Rightarrow> (case pi_token of Some t \<Rightarrow> Some t | None \<Rightarrow> app_token))"

definition resolve_session_auth_token ::
  "pi_env \<Rightarrow> kc_answer \<Rightarrow> auth_storage option \<Rightarrow> string \<Rightarrow> keychain \<Rightarrow> string option" where
  "resolve_session_auth_token e a auth prov kc =
     (let p = to_lowercase prov in
      select_session_auth_token_from_sources (provider_oauth_access_token (json_of e) a p kc)
        (provider_pi_resolved_key e auth p) (get_key a (env_var e) p kc))"

definition provider_has_session_auth :: "pi_env \<Rightarrow> kc_answer \<Rightarrow> auth_storage option \<Rightarrow> string \<Rightarrow> keychain \<Rightarrow> bool" where
  "provider_has_session_auth e a auth prov kc = (resolve_session_auth_token e a auth prov kc \<noteq> None)"

section \<open>A login from its start to a session\<close>

definition browser_providers :: "string list" where
  "browser_providers =
     [''anthropic'', ''openai-codex'', ''google-gemini-cli'', ''google-antigravity'', ''github-copilot'', ''gitlab'']"

lemma started:
  "start_anthropic_oauth pkce = Inr i \<Longrightarrow> si_provider i = ''anthropic'' \<and> si_verifier i = fst pkce"
  "start_openai_codex_oauth pkce = Inr i \<Longrightarrow> si_provider i = ''openai-codex'' \<and> si_verifier i = fst pkce"
  "start_google_oauth g e pkce = Inr i \<Longrightarrow> si_provider i = gf_name g \<and> si_verifier i = fst pkce"
  "start_copilot_browser_oauth c pkce = Inr i \<Longrightarrow> si_provider i = ''github-copilot'' \<and> si_verifier i = fst pkce"
  "start_gitlab_oauth gc pkce = Inr i \<Longrightarrow> si_provider i = ''gitlab'' \<and> si_verifier i = fst pkce"
  by (auto simp: start_anthropic_oauth_def start_openai_codex_oauth_def start_google_oauth_def
    start_copilot_browser_oauth_def start_gitlab_oauth_def auth_error_def Let_def split: if_splits sum.splits)

lemma start_browser_result:
  "start_browser e pkce p = Inr i \<Longrightarrow> si_provider i \<in> set browser_providers \<and> si_verifier i = fst pkce"
  unfolding start_browser_def start_google_gemini_cli_oauth_def start_google_antigravity_oauth_def
  by (auto simp: auth_error_def browser_providers_def gemini_cli_flow_def antigravity_flow_def dest!: started split: if_splits)

lemma complete_browser_mismatch:
  assumes "prov \<in> set browser_providers" "parse_oauth_code_input inp = (Some code, Some st)" "st \<noteq> ver"
  shows "complete_browser e n prov inp ver = Inl (auth_message ''State mismatch'')"
  using assms(1) unfolding browser_providers_def complete_browser_def
  by (auto simp: complete_anthropic_oauth_def complete_openai_codex_oauth_def complete_google_gemini_cli_oauth_def
    complete_google_antigravity_oauth_def complete_google_oauth_def complete_copilot_browser_oauth_def complete_gitlab_oauth_def
    authorization_code_mismatch [OF assms(2,3)])

text \<open>A completed exchange: the code reached the server with the verifier, and the server agreed.\<close>

definition exchanged :: "pi_net \<Rightarrow> string \<Rightarrow> string \<Rightarrow> bool" where
  "exchanged n code ver \<longleftrightarrow> (\<exists>rq st b. http n rq = Reply st b \<and> is_success st \<and> carries rq code ver)"

lemma exchangedI: "token_exchange e n rq secrets sent bad shape rd = Inr v \<Longrightarrow> carries rq code ver \<Longrightarrow> exchanged n code ver"
  using token_exchange_answered [of e n rq secrets sent bad shape rd v] unfolding exchanged_def by blast

lemma anthropic_exchanged:
  assumes "complete_anthropic_oauth e n inp ver = Inr cr" "fst (parse_oauth_code_input inp) = Some code"
  shows "exchanged n code ver \<and> (\<exists>a r x u i. cr = OAuth a r x u i)"
  using assms unfolding complete_anthropic_oauth_def
  by (auto simp: carries_def post_def jget_str_def dest!: authorization_code_Inr intro!: exchangedI split: sum.splits)

lemma codex_exchanged:
  assumes "complete_openai_codex_oauth e n inp ver = Inr cr" "fst (parse_oauth_code_input inp) = Some code"
    and "valid_utf8 code" "valid_utf8 ver"
  shows "exchanged n code ver \<and> (\<exists>a r x u i. cr = OAuth a r x u i)"
proof -
  have "carries (post codex_token_url form_headers (form_body
      [(''grant_type'', ''authorization_code''), (''client_id'', codex_client_id), (''code'', code),
       (''code_verifier'', ver), (''redirect_uri'', codex_redirect_uri)])) code ver"
    using assms(3,4)
    by (intro carries_form) (simp_all add: valid_utf8_ascii codex_client_id_def codex_redirect_uri_def unreserved_def
      is_alphanumeric_def is_digit_def is_lower_def is_upper_def)
  then show ?thesis
    using assms(1,2) unfolding complete_openai_codex_oauth_def
    by (auto dest!: authorization_code_Inr intro!: exchangedI split: sum.splits)
qed

lemma google_exchanged:
  assumes "complete_google_oauth g discover e n inp ver = Inr cr" "fst (parse_oauth_code_input inp) = Some code"
    and "valid_utf8 code" "valid_utf8 ver" "\<And>k v. env_var e k = Some v \<Longrightarrow> valid_utf8 v" "valid_utf8 (gf_redirect g)"
  shows "exchanged n code ver \<and> (\<exists>a r x u i. cr = OAuth a r x u i)"
proof -
  obtain cid csecret v where env: "required_oauth_env e (gf_id_env g) = Inr cid" "required_oauth_env e (gf_secret_env g) = Inr csecret"
    and ex: "exchange_google_authorization_code e n google_token_url cid csecret code (gf_redirect g) ver = Inr v"
    and cr: "\<exists>a r x u i. cr = OAuth a r x u i"
    using assms(1,2) unfolding complete_google_oauth_def by (auto dest!: authorization_code_Inr split: sum.splits)
  have "valid_utf8 cid" "valid_utf8 csecret"
    using env assms(5) by (auto simp: required_oauth_env_def auth_error_def split: option.splits)
  then have "carries (post google_token_url form_headers (form_body
      [(''client_id'', cid), (''client_secret'', csecret), (''code'', code), (''grant_type'', ''authorization_code''),
       (''redirect_uri'', gf_redirect g), (''code_verifier'', ver)])) code ver"
    using assms(3,4,6)
    by (intro carries_form) (simp_all add: valid_utf8_ascii unreserved_def is_alphanumeric_def is_digit_def is_lower_def is_upper_def)
  with ex cr show ?thesis unfolding exchange_google_authorization_code_def by (auto intro: exchangedI)
qed

lemma copilot_exchanged:
  assumes "complete_copilot_browser_oauth e c n inp ver = Inr cr" "fst (parse_oauth_code_input inp) = Some code"
  shows "exchanged n code ver \<and> (\<exists>a r x u i. cr = OAuth a r x u i)"
proof -
  let ?rq = "post (github_url c ''/login/oauth/access_token'') json_headers (JsonBody (JObj
    [(''grant_type'', JStr ''authorization_code''), (''client_id'', JStr (cc_client_id c)),
     (''code'', JStr code), (''state'', JStr ver), (''code_verifier'', JStr ver)]))"
  have carry: "carries ?rq code ver" by (simp add: carries_def post_def jget_str_def)
  from assms obtain st b g where "http n ?rq = Reply st b" "is_success st"
    "parse_github_token_response e n (reply_text b) = Inr g" "cr = with_refresh_data (github_url c ''/login/oauth/access_token'') (cc_client_id c) g"
    unfolding complete_copilot_browser_oauth_def
    by (auto simp: Let_def auth_error_def dest!: authorization_code_Inr split: sum.splits http_reply.splits if_splits)
  moreover from this have "\<exists>a r x u i. g = OAuth a r x u i"
    by (auto simp: parse_github_token_response_def github_token_of_json_def auth_error_def split: sum.splits option.splits)
  ultimately show ?thesis using carry unfolding exchanged_def with_refresh_data_def by force
qed

lemma gitlab_exchanged:
  assumes "complete_gitlab_oauth e c n inp ver = Inr cr" "fst (parse_oauth_code_input inp) = Some code"
  shows "exchanged n code ver \<and> (\<exists>a r x u i. cr = OAuth a r x u i)"
  using assms unfolding complete_gitlab_oauth_def
  by (auto simp: carries_def post_def jget_str_def Let_def dest!: authorization_code_Inr intro!: exchangedI split: sum.splits)

lemma complete_browser_exchanged:
  assumes "complete_browser e n prov inp ver = Inr cr" "fst (parse_oauth_code_input inp) = Some code"
    and "valid_utf8 code" "valid_utf8 ver" "\<And>k v. env_var e k = Some v \<Longrightarrow> valid_utf8 v"
  shows "exchanged n code ver \<and> (\<exists>a r x u i. cr = OAuth a r x u i)"
proof -
  have "valid_utf8 (gf_redirect gemini_cli_flow)" "valid_utf8 (gf_redirect antigravity_flow)"
    by (simp_all add: gemini_cli_flow_def antigravity_flow_def valid_utf8_ascii)
  note google = google_exchanged [OF _ assms(2-5) this(1)] google_exchanged [OF _ assms(2-5) this(2)]
  show ?thesis
    using assms(1) anthropic_exchanged [OF _ assms(2)] codex_exchanged [OF _ assms(2-4)] google
      copilot_exchanged [OF _ assms(2)] gitlab_exchanged [OF _ assms(2)]
    unfolding complete_browser_def complete_google_gemini_cli_oauth_def complete_google_antigravity_oauth_def
    by (auto split: if_splits)
qed

text \<open>The providers the app offers are canonical names of the agent's table.\<close>

lemma canonical_id_known [simp]: "canonical_id (known_provider i n al keys mode r) = i"
  by (simp add: known_provider_def)

lemma canonical_self: "p \<in> set (map canonical_id provider_table) \<Longrightarrow> canonical_or_self p = p"
proof -
  assume "p \<in> set (map canonical_id provider_table)"
  then obtain m where "m \<in> set provider_table" "p = canonical_id m" by auto
  then show ?thesis using canonical_name_found [of m p]
    by (simp add: names_def canonical_or_self_def canonical_provider_id_def)
qed

lemma offered_are_canonical:
  "set (map ps_id pi_oauth_provider_summaries) \<subseteq> set (map canonical_id provider_table)"
  by (simp add: pi_oauth_provider_summaries_def provider_parts)

lemma browser_providers_offered: "set browser_providers \<subseteq> set (map ps_id pi_oauth_provider_summaries)"
  by (simp add: browser_providers_def pi_oauth_provider_summaries_def)

lemma browser_canonical: "prov \<in> set browser_providers \<Longrightarrow> canonical_or_self prov = prov \<and> to_lowercase prov = prov"
proof -
  assume b: "prov \<in> set browser_providers"
  with offered_are_canonical browser_providers_offered have c: "prov \<in> set (map canonical_id provider_table)" by blast
  then obtain m where "m \<in> set provider_table" "prov = canonical_id m" by auto
  with table_name_lower [of m prov] canonical_self [OF c] show ?thesis by (simp add: names_def)
qed

lemma stored_found: "map_of es p = Some c \<Longrightarrow> credential_for_provider es p = Some c"
  by (simp add: credential_for_provider_def entry_named_def)

lemma stored_login_serves:
  assumes "map_of (pi_file s) prov = Some (OAuth a r x u i)" "prov \<in> set browser_providers"
  shows "active e (Some (loaded e s)) prov = (now_ms e < x)"
    and "now_ms e < x \<Longrightarrow> resolve_session_auth_token e ka (Some (loaded e s)) prov kc =
      Some (case provider_oauth_access_token (json_of e) ka prov kc of
              Some t \<Rightarrow> t
            | None \<Rightarrow> if prov = ''anthropic'' then mark_anthropic_oauth_bearer_token a else a)"
proof -
  have c: "credential_for_provider (stored (loaded e s)) prov = Some (OAuth a r x u i)"
    using assms(1) by (simp add: loaded_def stored_found)
  then show "active e (Some (loaded e s)) prov = (now_ms e < x)"
    by (simp add: active_def credential_status_of_def)
  assume "now_ms e < x"
  from login_in_force_wins [OF c this] browser_canonical [OF assms(2)]
  have "provider_pi_resolved_key e (Some (loaded e s)) prov =
      Some (if prov = ''anthropic'' then mark_anthropic_oauth_bearer_token a else a)"
    by (simp add: provider_pi_resolved_key_def)
  then show "resolve_session_auth_token e ka (Some (loaded e s)) prov kc =
      Some (case provider_oauth_access_token (json_of e) ka prov kc of
              Some t \<Rightarrow> t
            | None \<Rightarrow> if prov = ''anthropic'' then mark_anthropic_oauth_bearer_token a else a)"
    using browser_canonical [OF assms(2)]
    by (cases "provider_oauth_access_token (json_of e) ka prov kc")
      (simp_all add: resolve_session_auth_token_def select_session_auth_token_from_sources_def)
qed

lemma login_pending:
  assumes "login e pf n (ver, chal) pid p s = (s1, 200, body)" "p \<noteq> ''kimi-for-coding''"
  shows "\<exists>prov \<in> set browser_providers. pendings s1 pid =
    Some \<lparr>pend_provider = prov, pend_kind = OAuthFlow, verifier = ver, device_code = None\<rparr>"
proof -
  obtain i where i: "start_browser e (ver, chal) p = Inr i"
    using assms by (auto simp: login_def split: sum.splits)
  with assms have "pendings s1 pid = Some \<lparr>pend_provider = si_provider i, pend_kind = OAuthFlow, verifier = si_verifier i, device_code = None\<rparr>"
    by (auto simp: login_def)
  with start_browser_result [OF i] show ?thesis by auto
qed


definition demo_env :: pi_env where
  "demo_env = \<lparr>env_var = \<lambda>_. None, read_text = \<lambda>_. None,
     json_of = \<lambda>_. Inr (JObj [(''access_token'', JStr ''a''), (''refresh_token'', JStr ''b''), (''expires_in'', JInt 3600)]),
     text_of = \<lambda>_. [], now_ms = 0, auth_path = ''auth.json''\<rparr>"

definition demo_net :: pi_net where
  "demo_net = \<lparr>http = \<lambda>_. Reply 200 (Some []), answered_ms = 0, shape_error = \<lambda>_. []\<rparr>"

definition demo_platform :: platform where
  "demo_platform = \<lparr>os_name = [], arch_name = [], package_version = [], fresh_id = []\<rparr>"

definition demo_server :: oauth_server where
  "demo_server = \<lparr>kchain = Map.empty, completions = {}, signalled = [], pendings = Map.empty, pi_file = []\<rparr>"

definition demo_callback :: "(string \<times> string) list" where
  "demo_callback = [(''code'', ''k''), (''state'', ''v'')]"


end
