(* ===== verification/Sse.thy ===== *)
theory Sse
  imports Rust_Prelude
begin

text \<open>
  The parser of server-sent events through which the agent reads the answers of the models:
  \<open>SseParser\<close> in \<open>patches/pi_agent_rust/src/sse.rs\<close>. The buffer, the offset up to which it was
  searched and the event under construction are kept between chunks; the theory relates them to the
  lines of the text that was fed, however it was cut. A \<open>Cow\<close> is its string.
\<close>

abbreviation LF :: char where "LF \<equiv> CHR 0x0A"
abbreviation CR :: char where "CR \<equiv> CHR 0x0D"

record sse_event =
  event_type :: string
  event_data :: string
  event_id :: "string option"
  event_retry :: "nat option"

definition default_event :: sse_event where
  "default_event = \<lparr>event_type = ''message'', event_data = [], event_id = None, event_retry = None\<rparr>"

record sse_parser =
  buffer :: string
  current :: sse_event
  has_data :: bool
  bom_checked :: bool
  scanned_len :: nat

definition sse_new :: sse_parser where
  "sse_new = \<lparr>buffer = [], current = default_event, has_data = False, bom_checked = False, scanned_len = 0\<rparr>"

section \<open>Lines\<close>

text \<open>Common names of events are kept as static strings: the same string.\<close>

definition intern_event_type :: "string \<Rightarrow> string" where
  "intern_event_type value = value"

definition data_limit :: nat where
  "data_limit = 100 * 1024 * 1024"

definition process_line :: "string \<Rightarrow> sse_event \<times> bool \<Rightarrow> sse_event \<times> bool" where
  "process_line line st =
     (case st of (cur, has) \<Rightarrow>
        if length (event_data cur) > data_limit then (cur, has)
        else if starts_with line '':'' then (cur, has)
        else
          (case split_once (CHR '':'') line of
             Some (field, v) \<Rightarrow>
               (let value = (case strip_prefix '' '' v of None \<Rightarrow> v | Some r \<Rightarrow> r) in
                if field = ''event'' then (cur\<lparr>event_type := intern_event_type value\<rparr>, has)
                else if field = ''data'' then (cur\<lparr>event_data := event_data cur @ value @ [LF]\<rparr>, True)
                else if field = ''id''
                  then (if CHR 0x00 \<in> set value then (cur, has) else (cur\<lparr>event_id := Some value\<rparr>, has))
                else if field = ''retry'' then (cur\<lparr>event_retry := parse_uint 64 value\<rparr>, has)
                else (cur, has))
           | None \<Rightarrow>
               if line = ''event'' then (cur\<lparr>event_type := []\<rparr>, has)
               else if line = ''data'' then (cur\<lparr>event_data := event_data cur @ [LF]\<rparr>, True)
               else if line = ''id'' then (cur\<lparr>event_id := Some []\<rparr>, has)
               else (cur, has)))"

text \<open>What is sent of an event: without the last line feed of its data, and never without a type.\<close>

definition finished :: "sse_event \<Rightarrow> sse_event" where
  "finished cur =
     (let cur1 = (if ends_with (event_data cur) [LF] then cur\<lparr>event_data := butlast (event_data cur)\<rparr> else cur) in
      if event_type cur1 = [] then cur1\<lparr>event_type := ''message''\<rparr> else cur1)"

definition take_line :: "string \<Rightarrow> sse_event \<times> bool \<Rightarrow> sse_event list \<times> sse_event \<times> bool" where
  "take_line line st =
     (if line = [] then (if snd st then ([finished (fst st)], default_event, False) else ([], st))
      else ([], process_line line st))"

section \<open>A piece of text\<close>

text \<open>\<open>memchr2\<close> looks for the first of two bytes from a position on.\<close>

fun memchr2 :: "char \<Rightarrow> char \<Rightarrow> string \<Rightarrow> nat option" where
  "memchr2 a b [] = None"
| "memchr2 a b (c # s) = (if c = a \<or> c = b then Some 0 else map_option Suc (memchr2 a b s))"

lemma memchr2_Some: "memchr2 a b s = Some i \<Longrightarrow> i < length s \<and> (s ! i = a \<or> s ! i = b) \<and> a \<notin> set (take i s) \<and> b \<notin> set (take i s)"
  by (induction s arbitrary: i) (auto split: if_splits)

lemma memchr2_None: "memchr2 a b s = None \<longleftrightarrow> a \<notin> set s \<and> b \<notin> set s"
  by (induction s) auto

text \<open>The loop: the end of the next line and the start of the one after it; a carriage return at the
  end of the text may be half of a line end and is left.\<close>

definition line_break :: "string \<Rightarrow> nat \<Rightarrow> (nat \<times> nat) option" where
  "line_break source search_pos =
     (case memchr2 CR LF (drop search_pos source) of
        None \<Rightarrow> None
      | Some rel \<Rightarrow>
          (let pos = search_pos + rel in
           if source ! pos = LF then Some (pos, pos + 1)
           else if pos + 1 < length source then Some (pos, if source ! (pos + 1) = LF then pos + 2 else pos + 1)
           else None))"

lemma line_break_bounds: "line_break source n = Some (e, m) \<Longrightarrow> n \<le> e \<and> e < m \<and> m \<le> length source"
  using memchr2_Some [of CR LF "drop n source"]
  by (auto simp: line_break_def Let_def split: option.splits if_splits)

function source_loop ::
  "string \<Rightarrow> nat \<Rightarrow> nat \<Rightarrow> sse_event \<times> bool \<Rightarrow> sse_event list \<times> nat \<times> sse_event \<times> bool" where
  "source_loop source start search_pos st =
     (case line_break source search_pos of
        None \<Rightarrow> ([], start, st)
      | Some (line_end, next_start) \<Rightarrow>
          (case take_line (take (line_end - start) (drop start source)) st of
             (evs, st') \<Rightarrow>
               (case source_loop source next_start next_start st' of (evs', rest) \<Rightarrow> (evs @ evs', rest))))"
  by pat_completeness auto
termination
proof (relation "measure (\<lambda>(source, start, search_pos, st). length source - search_pos)", simp)
  fix source :: string and start search_pos :: nat and st :: "sse_event \<times> bool" and p line_end next_start
  assume "line_break source search_pos = Some p" "(line_end, next_start) = p"
  then have "search_pos < next_start \<and> next_start \<le> length source"
    using line_break_bounds [of source search_pos line_end next_start] by auto
  then show "((source, next_start, next_start, st'), (source, start, search_pos, st))
      \<in> measure (\<lambda>(source, start, search_pos, st). length source - search_pos)" for st'
    by auto
qed

declare source_loop.simps [simp del]

definition bom :: string where
  "bom = [CHR 0xEF, CHR 0xBB, CHR 0xBF]"

definition process_source ::
  "string \<Rightarrow> nat \<Rightarrow> sse_parser \<Rightarrow> sse_event list \<times> nat \<times> sse_event \<times> bool \<times> bool" where
  "process_source source scan_start p =
     (let check = \<not> bom_checked p \<and> source \<noteq> [];
          has_bom = check \<and> starts_with source bom;
          start = (if has_bom then 3 else 0);
          search_pos = (if has_bom \<and> scan_start < 3 then 3 else scan_start) in
      case source_loop source start search_pos (current p, has_data p) of
        (evs, consumed, cur, has) \<Rightarrow> (evs, consumed, cur, has, bom_checked p \<or> check))"

section \<open>Feeding and flushing\<close>

definition max_buffer_size :: nat where
  "max_buffer_size = 10 * 1024 * 1024"

definition limit_event :: sse_event where
  "limit_event = default_event\<lparr>event_type := ''error'', event_data := ''SSE buffer limit exceeded''\<rparr>"

definition feed_into :: "string \<Rightarrow> sse_parser \<Rightarrow> sse_parser \<times> sse_event list" where
  "feed_into data p =
     (if length (buffer p) + length data > max_buffer_size then (sse_new, [limit_event])
      else if buffer p = [] then
        (case process_source data 0 p of
           (evs, consumed, cur, has, bc) \<Rightarrow>
             (let buf = (if consumed < length data then drop consumed data else []) in
              (\<lparr>buffer = buf, current = cur, has_data = has, bom_checked = bc, scanned_len = length buf\<rparr>, evs)))
      else
        (case process_source (buffer p @ data) (scanned_len p - 1) p of
           (evs, consumed, cur, has, bc) \<Rightarrow>
             (let buf = drop consumed (buffer p @ data) in
              (\<lparr>buffer = buf, current = cur, has_data = has, bom_checked = bc, scanned_len = length buf\<rparr>, evs))))"

definition feed :: "string \<Rightarrow> sse_parser \<Rightarrow> sse_parser \<times> sse_event list" where
  "feed data p = feed_into data p"

definition has_pending :: "sse_parser \<Rightarrow> bool" where
  "has_pending p \<longleftrightarrow> buffer p \<noteq> [] \<or> has_data p"

definition flush :: "sse_parser \<Rightarrow> sse_parser \<times> sse_event option" where
  "flush p =
     (let st = (if buffer p = [] then (current p, has_data p)
                else process_line (rev (dropWhile (\<lambda>c. c = CR) (rev (buffer p)))) (current p, has_data p)) in
      if snd st then (p\<lparr>buffer := [], current := default_event, has_data := False\<rparr>, Some (finished (fst st)))
      else (p\<lparr>buffer := [], current := fst st, has_data := False\<rparr>, None))"

fun feeds :: "string list \<Rightarrow> sse_parser \<Rightarrow> sse_parser \<times> sse_event list" where
  "feeds [] p = (p, [])"
| "feeds (c # cs) p =
     (case feed c p of (p1, evs) \<Rightarrow> (case feeds cs p1 of (p2, evs') \<Rightarrow> (p2, evs @ evs')))"

section \<open>The lines of a text\<close>

text \<open>The lines that end in a text, and what follows the last of them. A line ends in a line feed, a
  carriage return, or both; a carriage return that ends the text may be the first half of both.\<close>

fun split_lines :: "string \<Rightarrow> string \<Rightarrow> string list \<times> string" where
  "split_lines acc [] = ([], acc)"
| "split_lines acc (c # s) =
     (if c = LF then (case split_lines [] s of (ls, r) \<Rightarrow> (acc # ls, r))
      else if c = CR then
        (case s of
           [] \<Rightarrow> ([], acc @ [CR])
         | d # s' \<Rightarrow> (case split_lines [] (if d = LF then s' else s) of (ls, r) \<Rightarrow> (acc # ls, r)))
      else split_lines (acc @ [c]) s)"

lemma split_lines_cons:
  "split_lines acc (LF # s) = (case split_lines [] s of (ls, r) \<Rightarrow> (acc # ls, r))"
  "split_lines acc [CR] = ([], acc @ [CR])"
  "split_lines acc (CR # d # s) = (case split_lines [] (if d = LF then s else d # s) of (ls, r) \<Rightarrow> (acc # ls, r))"
  "c \<noteq> LF \<Longrightarrow> c \<noteq> CR \<Longrightarrow> split_lines acc (c # s) = split_lines (acc @ [c]) s"
  by simp_all

declare split_lines.simps(2) [simp del]
declare split_lines_cons [simp]

text \<open>The cases of a text: nothing, a line feed, a carriage return alone or not, another character.\<close>

lemma split_lines_induct [case_names Nil LF CRend CR Other]:
  assumes "\<And>acc. P acc []" "\<And>acc s. P [] s \<Longrightarrow> P acc (LF # s)" "\<And>acc. P acc [CR]"
    "\<And>acc d s. P [] (if d = LF then s else d # s) \<Longrightarrow> P acc (CR # d # s)"
    "\<And>acc c s. c \<noteq> LF \<Longrightarrow> c \<noteq> CR \<Longrightarrow> P (acc @ [c]) s \<Longrightarrow> P acc (c # s)"
  shows "P acc s"
proof (induction acc s rule: split_lines.induct)
  case (1 acc) show ?case by (rule assms(1))
next
  case (2 acc c s)
  consider "c = LF" | "c = CR" "s = []" | d t where "c = CR" "s = d # t" | "c \<noteq> LF" "c \<noteq> CR"
    by (cases s) auto
  then show ?case
  proof cases
    case 1 with 2(1) assms(2) show ?thesis by simp
  next
    case 2 with assms(3) show ?thesis by simp
  next
    case 3
    then have "P [] (if d = LF then t else d # t)" using 2(2) [of d t] by (simp split: if_splits)
    then show ?thesis unfolding 3 by (rule assms(4))
  next
    case 4 with 2(3) assms(5) show ?thesis by simp
  qed
qed

fun take_lines :: "string list \<Rightarrow> sse_event \<times> bool \<Rightarrow> sse_event list \<times> sse_event \<times> bool" where
  "take_lines [] st = ([], st)"
| "take_lines (l # ls) st =
     (case take_line l st of (es, st1) \<Rightarrow> (case take_lines ls st1 of (es', st2) \<Rightarrow> (es @ es', st2)))"

definition plain :: "string \<Rightarrow> bool" where
  "plain s \<longleftrightarrow> CR \<notin> set s \<and> LF \<notin> set s"

lemma plain_simps [simp]: "plain []" "plain (c # s) \<longleftrightarrow> c \<noteq> CR \<and> c \<noteq> LF \<and> plain s" "plain (s @ t) \<longleftrightarrow> plain s \<and> plain t"
  by (auto simp: plain_def)

lemma split_lines_plain: "plain u \<Longrightarrow> split_lines acc (u @ v) = split_lines (acc @ u) v"
  by (induction u arbitrary: acc) auto

lemma split_lines_start: "plain u \<Longrightarrow> split_lines [] (u @ v) = split_lines u v"
  by (simp add: split_lines_plain)

lemma split_lines_append:
  "plain acc \<Longrightarrow> split_lines acc (a @ b) =
     (case split_lines acc a of (la, ra) \<Rightarrow> (case split_lines [] (ra @ b) of (lb, rb) \<Rightarrow> (la @ lb, rb)))"
proof (induction acc a rule: split_lines_induct)
  case (Nil acc) then show ?case by (simp add: split_lines_start)
next
  case (LF acc s) then show ?case by (simp split: prod.splits)
next
  case (CRend acc) then show ?case using split_lines_start [of acc "CR # b"] by simp
next
  case (CR acc d s) then show ?case by (simp split: prod.splits if_splits)
next
  case (Other acc c s) then show ?case by simp
qed

lemma split_lines_rest:
  "plain acc \<Longrightarrow> plain (snd (split_lines acc s)) \<or> (\<exists>u. snd (split_lines acc s) = u @ [CR] \<and> plain u)"
proof (induction acc s rule: split_lines_induct)
  case (LF acc s) then show ?case by (cases "split_lines [] s") simp
next
  case (CR acc d s) then show ?case by (cases "split_lines [] (if d = LF then s else d # s)") simp
qed auto

lemma take_lines_append:
  "take_lines (ls @ ls') st =
     (case take_lines ls st of (es, st1) \<Rightarrow> (case take_lines ls' st1 of (es', st2) \<Rightarrow> (es @ es', st2)))"
  by (induction ls arbitrary: st) (auto split: prod.splits)

section \<open>The loop finds the lines\<close>

lemma line_break_None:
  assumes "line_break s n = None"
  shows "split_lines acc (drop n s) = ([], acc @ drop n s)"
proof (cases "memchr2 CR LF (drop n s)")
  case None
  then have "plain (drop n s)" by (simp add: memchr2_None plain_def)
  then show ?thesis using split_lines_plain [of "drop n s" acc "[]"] by simp
next
  case (Some i)
  let ?v = "drop n s"
  from memchr2_Some [OF Some] have i: "i < length ?v" "plain (take i ?v)" by (auto simp: plain_def)
  with assms Some have c: "?v ! i = CR" "length s = n + i + 1"
    using memchr2_Some [OF Some] by (auto simp: line_break_def Let_def add.assoc split: if_splits)
  then have v: "?v = take i ?v @ [CR]"
    using i(1) id_take_nth_drop [OF i(1)] by simp
  then have "split_lines acc ?v = split_lines (acc @ take i ?v) [CR]"
    using split_lines_plain [OF i(2), of acc "[CR]"] by simp
  also have "\<dots> = ([], acc @ take i ?v @ [CR])" by simp
  finally show ?thesis using v by simp
qed

lemma line_break_Some:
  assumes "line_break s n = Some (e, m)"
  shows "split_lines acc (drop n s) =
    (case split_lines [] (drop m s) of (ls, r) \<Rightarrow> ((acc @ take (e - n) (drop n s)) # ls, r))"
proof -
  let ?v = "drop n s"
  obtain i where Some: "memchr2 CR LF ?v = Some i" using assms by (auto simp: line_break_def split: option.splits)
  from memchr2_Some [OF Some] have i: "i < length ?v" "plain (take i ?v)" by (auto simp: plain_def)
  have e: "e = n + i" using assms Some by (auto simp: line_break_def Let_def split: if_splits)
  have v: "?v = take i ?v @ ?v ! i # drop (Suc i) ?v" by (rule id_take_nth_drop [OF i(1)])
  have "split_lines acc ?v = split_lines (acc @ take i ?v) (?v ! i # drop (Suc i) ?v)"
    using split_lines_plain [OF i(2), of acc "?v ! i # drop (Suc i) ?v"] v by simp
  also have "\<dots> = (case split_lines [] (drop m s) of (ls, r) \<Rightarrow> ((acc @ take i ?v) # ls, r))"
  proof (cases "?v ! i = LF")
    case True
    then have "m = n + i + 1" using assms Some i(1) by (auto simp: line_break_def Let_def add.assoc split: if_splits)
    with True show ?thesis by (simp add: add.commute)
  next
    case False
    then have c: "?v ! i = CR" using memchr2_Some [OF Some] by auto
    have b: "n + i + 1 < length s" "m = (if s ! (n + i + 1) = LF then n + i + 2 else n + i + 1)"
      using assms Some False i(1) by (auto simp: line_break_def Let_def add.assoc split: if_splits)
    have "drop (Suc i) ?v = drop (n + i + 1) s" by (simp add: add.commute)
    also have "\<dots> = s ! (n + i + 1) # drop (n + i + 2) s" using Cons_nth_drop_Suc [OF b(1)] by simp
    finally have w: "drop (Suc i) ?v = s ! (n + i + 1) # drop (n + i + 2) s" .
    have "drop m s = (if s ! (n + i + 1) = LF then drop (n + i + 2) s else s ! (n + i + 1) # drop (n + i + 2) s)"
      using b(2) Cons_nth_drop_Suc [OF b(1)] by simp
    then show ?thesis unfolding c w split_lines_cons(3) by simp
  qed
  finally show ?thesis using e by simp
qed

lemma source_loop_lines:
  assumes "start \<le> search_pos" "search_pos \<le> length source" "plain (take (search_pos - start) (drop start source))"
  shows "source_loop source start search_pos st =
    (case split_lines [] (drop start source) of
       (ls, r) \<Rightarrow> (case take_lines ls st of (es, st') \<Rightarrow> (es, length source - length r, st')))"
  using assms
proof (induction source start search_pos st rule: source_loop.induct)
  case (1 source start search_pos st)
  let ?acc = "take (search_pos - start) (drop start source)"
  have d: "drop start source = ?acc @ drop search_pos source"
    using 1(2) append_take_drop_id [of "search_pos - start" "drop start source"] by (simp del: append_take_drop_id)
  then have sl: "split_lines [] (drop start source) = split_lines ?acc (drop search_pos source)"
    using split_lines_start [OF 1(4), of "drop search_pos source"] by simp
  show ?case
  proof (cases "line_break source search_pos")
    case None
    then have "split_lines [] (drop start source) = ([], drop start source)"
      using sl line_break_None [OF None, of ?acc] d by simp
    then show ?thesis using None 1(2,3) by (simp add: source_loop.simps [of source start])
  next
    case (Some p)
    obtain e m where p: "p = (e, m)" by force
    have b: "search_pos \<le> e" "e < m" "m \<le> length source" using line_break_bounds [of source search_pos e m] Some p by auto
    have line: "take (e - start) (drop start source) = ?acc @ take (e - search_pos) (drop search_pos source)"
    proof -
      have "e - start = (search_pos - start) + (e - search_pos)" using b(1) 1(2) by simp
      then have "take (e - start) (drop start source) =
          ?acc @ take (e - search_pos) (drop (search_pos - start) (drop start source))"
        by (simp only: take_add)
      then show ?thesis using 1(2) by simp
    qed
    have "split_lines [] (drop start source) =
        (case split_lines [] (drop m source) of (ls, r) \<Rightarrow> (take (e - start) (drop start source) # ls, r))"
      using sl line_break_Some [of source search_pos e m ?acc] Some p line by simp
    moreover have "source_loop source m m st' = (case split_lines [] (drop m source) of
        (ls, r) \<Rightarrow> (case take_lines ls st' of (es, st'') \<Rightarrow> (es, length source - length r, st'')))"
      if "take_line (take (e - start) (drop start source)) st = (evs, st')" for evs st'
      using 1(1) [OF Some p [symmetric] that [symmetric]] b(3) by simp
    ultimately show ?thesis using Some p
      by (simp add: source_loop.simps [of source start] split: prod.split)
  qed
qed

section \<open>The parser of a text\<close>

definition strip_bom :: "string \<Rightarrow> string" where
  "strip_bom t = (if starts_with t bom then drop 3 t else t)"

text \<open>The events of a text, what is left of it, and the event under construction.\<close>

definition lines_of :: "string \<Rightarrow> string list" where
  "lines_of t = fst (split_lines [] (strip_bom t))"

definition rest_of :: "string \<Rightarrow> string" where
  "rest_of t = snd (split_lines [] (strip_bom t))"

definition events_of :: "string \<Rightarrow> sse_event list" where
  "events_of t = fst (take_lines (lines_of t) (default_event, False))"

definition state_of :: "string \<Rightarrow> sse_parser" where
  "state_of t =
     (if t = [] then sse_new
      else
        (case snd (take_lines (lines_of t) (default_event, False)) of
           (cur, has) \<Rightarrow>
             \<lparr>buffer = rest_of t, current = cur, has_data = has, bom_checked = True, scanned_len = length (rest_of t)\<rparr>))"

text \<open>A piece of text does not end within a byte order mark at its beginning.\<close>

definition whole_bom :: "string \<Rightarrow> bool" where
  "whole_bom c \<longleftrightarrow> c \<noteq> take 1 bom \<and> c \<noteq> take 2 bom"

lemma strip_bom_append:
  assumes "whole_bom t" "t \<noteq> []"
  shows "strip_bom (t @ c) = strip_bom t @ c"
proof (cases "starts_with t bom")
  case True
  then obtain u where "t = bom @ u" by (auto simp: prefix_def)
  then show ?thesis by (simp add: strip_bom_def bom_def)
next
  case False
  have "\<not> starts_with (t @ c) bom"
  proof
    assume "starts_with (t @ c) bom"
    then have "prefix t bom" using False prefix_same_cases [of t "t @ c" bom] by simp
    then have "t \<in> set (prefixes bom)" by simp
    then show False using assms False by (auto simp: bom_def whole_bom_def)
  qed
  with False show ?thesis by (simp add: strip_bom_def)
qed

lemma split_rest:
  assumes "whole_bom t" "t \<noteq> []"
  shows "lines_of (t @ c) = lines_of t @ fst (split_lines [] (rest_of t @ c))"
    and "rest_of (t @ c) = snd (split_lines [] (rest_of t @ c))"
  using split_lines_append [of "[]" "strip_bom t" c]
  by (simp_all add: lines_of_def rest_of_def strip_bom_append [OF assms] split: prod.splits)

lemma rest_length: "length (snd (split_lines acc s)) \<le> length acc + length s"
proof (induction acc s rule: split_lines_induct)
  case (LF acc s) then show ?case by (cases "split_lines [] s") simp
next
  case (CR acc d s) then show ?case by (cases "split_lines [] (if d = LF then s else d # s)") (auto split: if_splits)
qed auto

lemma rest_suffix: "plain acc \<Longrightarrow> suffix (snd (split_lines acc s)) (acc @ s)"
proof (induction acc s rule: split_lines_induct)
  case (LF acc s)
  then show ?case by (cases "split_lines [] s") (auto simp: suffix_def)
next
  case (CR acc d s)
  then have "suffix (snd (split_lines [] (if d = LF then s else d # s))) (d # s)" by (auto simp: suffix_Cons)
  then show ?case
    by (cases "split_lines [] (if d = LF then s else d # s)") (auto simp: suffix_def)
qed auto

lemma drop_suffix: "suffix r s \<Longrightarrow> drop (length s - length r) s = r"
  by (elim suffixE) simp

lemma drop_rest: "drop (length s - length (snd (split_lines [] s))) s = snd (split_lines [] s)"
  using rest_suffix [of "[]" s] by (intro drop_suffix) simp

lemma scanned_plain:
  "plain (take (length (snd (split_lines [] s)) - 1) (snd (split_lines [] s)))"
proof -
  consider "plain (snd (split_lines [] s))" | u where "snd (split_lines [] s) = u @ [CR]" "plain u"
    using split_lines_rest [of "[]" s] by auto
  then show ?thesis
  proof cases
    case 1 then show ?thesis by (auto simp: plain_def dest: in_set_takeD)
  next
    case 2 then show ?thesis by simp
  qed
qed

text \<open>The first piece of text.\<close>

lemma feed_first:
  assumes "length c \<le> max_buffer_size"
  shows "feed c sse_new = (state_of c, events_of c)"
proof (cases "c = []")
  case True
  then show ?thesis
    by (simp add: feed_def feed_into_def process_source_def sse_new_def state_of_def events_of_def lines_of_def
        strip_bom_def bom_def max_buffer_size_def source_loop.simps line_break_def Let_def)
next
  case False
  let ?n = "if starts_with c bom then 3 else 0 :: nat"
  have n: "?n \<le> length c" using prefix_length_le [of bom c] by (auto simp: bom_def)
  have d: "drop ?n c = strip_bom c" by (simp add: strip_bom_def)
  have "source_loop c ?n ?n (default_event, False) =
      (case take_lines (lines_of c) (default_event, False) of (es, st') \<Rightarrow> (es, length c - length (rest_of c), st'))"
    using source_loop_lines [of ?n ?n c] n d
    by (simp add: lines_of_def rest_of_def split: prod.split)
  moreover have sf: "suffix (rest_of c) c"
    using rest_suffix [of "[]" "strip_bom c"] suffix_drop [of ?n c] d
    by (auto simp: rest_of_def intro: suffix_order.trans)
  moreover have "length (rest_of c) \<le> length c" using sf by (rule suffix_length_le)
  ultimately show ?thesis using False assms drop_suffix [OF sf]
    by (auto simp: feed_def feed_into_def process_source_def sse_new_def state_of_def events_of_def Let_def
        split: prod.splits)
qed

text \<open>Every further piece: the loop starts before the last character that was scanned, which may be a
  carriage return, and finds nothing in what was scanned before.\<close>

lemma feed_next:
  assumes "whole_bom t" "t \<noteq> []" "length (rest_of t) + length c \<le> max_buffer_size"
  shows "fst (feed c (state_of t)) = state_of (t @ c) \<and> events_of (t @ c) = events_of t @ snd (feed c (state_of t))"
proof -
  let ?s = "rest_of t @ c"
  obtain cur has where st: "snd (take_lines (lines_of t) (default_event, False)) = (cur, has)" by force
  define n where "n = (if rest_of t = [] then 0 else length (rest_of t) - 1)"
  have nl: "n \<le> length ?s" by (auto simp: n_def)
  have "take n (rest_of t) = take (length (rest_of t) - 1) (rest_of t)" by (simp add: n_def)
  then have "plain (take n ?s)" using scanned_plain [of "strip_bom t"] by (simp add: rest_of_def n_def)
  then have loop: "source_loop ?s 0 n (cur, has) =
      (case split_lines [] ?s of (ls, r) \<Rightarrow> (case take_lines ls (cur, has) of (es, st') \<Rightarrow> (es, length ?s - length r, st')))"
    using source_loop_lines [of 0 n ?s "(cur, has)"] nl by simp
  obtain ls r where sp: "split_lines [] ?s = (ls, r)" by force
  obtain es st' where tl: "take_lines ls (cur, has) = (es, st')" by (cases "take_lines ls (cur, has)") simp
  have r: "rest_of (t @ c) = r" "lines_of (t @ c) = lines_of t @ ls"
    using split_rest [OF assms(1,2), of c] sp by simp_all
  have ev: "take_lines (lines_of (t @ c)) (default_event, False) = (events_of t @ es, st')"
    using tl st r(2)
    by (cases "take_lines (lines_of t) (default_event, False)") (simp add: take_lines_append events_of_def)
  have sf: "suffix r ?s" using rest_suffix [of "[]" ?s] sp by simp
  have ps: "process_source ?s n (state_of t) = (es, length ?s - length r, fst st', snd st', True)"
    using loop sp tl st assms(2) by (cases st') (simp add: process_source_def state_of_def Let_def)
  have b: "buffer (state_of t) = rest_of t" "scanned_len (state_of t) = length (rest_of t)"
    using assms(2) st by (simp_all add: state_of_def)
  have "feed c (state_of t) =
      (\<lparr>buffer = r, current = fst st', has_data = snd st', bom_checked = True, scanned_len = length r\<rparr>, es)"
  proof (cases "rest_of t = []")
    case True
    then have "process_source c 0 (state_of t) = (es, length c - length r, fst st', snd st', True)"
      using ps by (simp add: n_def)
    with True show ?thesis
      using b assms(3) drop_suffix [OF sf] suffix_length_le [OF sf]
      by (auto simp: feed_def feed_into_def Let_def)
  next
    case False
    have lr: "length (drop (length ?s - length r) ?s) = length r" using drop_suffix [OF sf] by simp
    have fd: "feed c (state_of t) =
        (case process_source ?s n (state_of t) of (evs, consumed, cur, has, bc) \<Rightarrow>
           (\<lparr>buffer = drop consumed ?s, current = cur, has_data = has, bom_checked = bc, scanned_len = length (drop consumed ?s)\<rparr>, evs))"
      using False b assms(3) by (simp add: feed_def feed_into_def n_def Let_def)
    show ?thesis unfolding fd ps prod.case lr drop_suffix [OF sf] ..
  qed
  then show ?thesis using ev r(1) assms(2) by (simp add: state_of_def events_of_def split: prod.split)
qed

lemma whole_bom_append: "whole_bom t \<Longrightarrow> t \<noteq> [] \<Longrightarrow> whole_bom (t @ c)"
  by (cases t rule: list.exhaust; cases "tl t"; cases c) (auto simp: whole_bom_def bom_def)

lemma events_Nil [simp]: "events_of [] = []"
  by (simp add: events_of_def lines_of_def strip_bom_def bom_def)

lemma feed_state:
  assumes "whole_bom (t @ c)" "t = [] \<or> whole_bom t" "length (if t = [] then [] else rest_of t) + length c \<le> max_buffer_size"
  shows "fst (feed c (state_of t)) = state_of (t @ c) \<and> events_of (t @ c) = events_of t @ snd (feed c (state_of t))"
proof (cases "t = []")
  case True
  with feed_first [of c] assms(3) show ?thesis by (simp add: state_of_def)
next
  case False
  with feed_next assms show ?thesis by auto
qed

section \<open>What a client relies on\<close>

text \<open>A parser that is fed a text in pieces: its state and its events are those of the text so far.\<close>

locale fed_parser =
  fixes feed_piece :: "string \<Rightarrow> 'p \<Rightarrow> 'p \<times> 'e list"
    and state :: "string \<Rightarrow> 'p"
    and events :: "string \<Rightarrow> 'e list"
    and piece_ok :: "string \<Rightarrow> string \<Rightarrow> bool"
  assumes fed: "piece_ok t c \<Longrightarrow> fst (feed_piece c (state t)) = state (t @ c)"
    and sent: "piece_ok t c \<Longrightarrow> events (t @ c) = events t @ snd (feed_piece c (state t))"
begin

lemma fed_pair: "piece_ok t c \<Longrightarrow> feed_piece c (state t) = (state (t @ c), drop (length (events t)) (events (t @ c)))"
  using fed sent by (metis append_eq_conv_conj prod.collapse)

lemma events_grow: "piece_ok t c \<Longrightarrow> prefix (events t) (events (t @ c))"
  using sent by simp

end

definition piece_fits :: "string \<Rightarrow> string \<Rightarrow> bool" where
  "piece_fits t c \<longleftrightarrow> whole_bom (t @ c) \<and> (t = [] \<or> whole_bom t) \<and> length t + length c \<le> max_buffer_size"

lemma rest_of_length: "length (rest_of t) \<le> length t"
  using rest_length [of "[]" "strip_bom t"] by (auto simp: rest_of_def strip_bom_def split: if_splits)

interpretation sse: fed_parser feed state_of events_of piece_fits
proof
  fix t c assume ok: "piece_fits t c"
  then have "length (if t = [] then [] else rest_of t) + length c \<le> max_buffer_size"
    using rest_of_length [of t] by (auto simp: piece_fits_def)
  with ok feed_state show "fst (feed c (state_of t)) = state_of (t @ c)" "events_of (t @ c) = events_of t @ snd (feed c (state_of t))"
    by (auto simp: piece_fits_def)
qed

text \<open>The event that the end of a text completes.\<close>

definition last_event :: "string \<Rightarrow> sse_event list" where
  "last_event t = (case snd (flush (state_of t)) of None \<Rightarrow> [] | Some e \<Rightarrow> [e])"

lemma flush_twice: "snd (flush (fst (flush p))) = None"
  by (simp add: flush_def Let_def split: prod.split)

lemma flush_new: "snd (flush sse_new) = None"
  by (simp add: flush_def sse_new_def)

text \<open>An event that ends without data is not sent, and its type stays for the next one.\<close>

lemma type_leaks:
  "map event_type (events_of (''event: ping'' @ [LF, LF] @ ''data: x'' @ [LF, LF])) = [''ping'']"
  by (simp add: events_of_def lines_of_def strip_bom_def bom_def take_line_def process_line_def split_once_def
      strip_prefix_def finished_def default_event_def data_limit_def intern_event_type_def Let_def)

end
