(* ===== verification/Sse_Stream.thy ===== *)
theory Sse_Stream
  imports Sse Utf8
begin

text \<open>
  \<open>SseStream\<close> of \<open>patches/pi_agent_rust/src/sse.rs\<close>: bytes from the network become text and the text
  events. What the inner stream answers to the polls is a list; polling it after its end gives its
  end again.
\<close>

section \<open>The stream\<close>

record sse_stream =
  parser :: sse_parser
  pending_events :: "sse_event list"
  pending_error :: "string option"
  utf8_buffer :: string

definition stream_new :: sse_stream where
  "stream_new = \<lparr>parser = sse_new, pending_events = [], pending_error = None, utf8_buffer = []\<rparr>"

definition invalid_utf8_error :: string where
  "invalid_utf8_error = ''Invalid UTF-8 in SSE stream''"

definition feed_to_pending :: "string \<Rightarrow> sse_stream \<Rightarrow> sse_stream" where
  "feed_to_pending s st =
     (case feed_into s (parser st) of (p, evs) \<Rightarrow> st\<lparr>parser := p, pending_events := pending_events st @ evs\<rparr>)"

lemma utf8_loop_decreases:
  "(n, Some (Invalid k)) = from_utf8 bytes \<Longrightarrow> length bytes - (n + k) < length bytes"
  using from_utf8_bounds [of bytes n "Some (Invalid k)"] by auto

text \<open>The loop over the bytes: text is fed, invalid sequences are passed over, a cut character is left;
  \<open>bad\<close> tells whether an invalid sequence was met.\<close>

function utf8_loop :: "string \<Rightarrow> bool \<Rightarrow> sse_stream \<Rightarrow> sse_stream \<times> string \<times> bool" where
  "utf8_loop bytes bad st =
     (case from_utf8 bytes of
        (n, None) \<Rightarrow> (if bytes = [] then st else feed_to_pending bytes st, [], bad)
      | (n, Some e) \<Rightarrow>
          (let st1 = (if 0 < n then feed_to_pending (take n bytes) st else st) in
           case e of
             Invalid k \<Rightarrow> utf8_loop (drop (n + k) bytes) True st1
           | Truncated \<Rightarrow> (st1, drop n bytes, bad)))"
  by pat_completeness auto
termination
  by (relation "measure (\<lambda>(bytes, bad, st). length bytes)") (auto simp: utf8_loop_decreases)

declare utf8_loop.simps [simp del]

definition process_chunk_without_utf8_tail :: "string \<Rightarrow> sse_stream \<Rightarrow> sse_stream \<times> unit res" where
  "process_chunk_without_utf8_tail bytes st =
     (case utf8_loop bytes False st of
        (st1, tail, bad) \<Rightarrow>
          (st1\<lparr>utf8_buffer := utf8_buffer st @ tail\<rparr>, if bad then Inl invalid_utf8_error else Inr ()))"

definition process_chunk_with_utf8_tail :: "string \<Rightarrow> sse_stream \<Rightarrow> sse_stream \<times> unit res" where
  "process_chunk_with_utf8_tail bytes st =
     (case utf8_loop (utf8_buffer st @ bytes) False st of
        (st1, tail, bad) \<Rightarrow> (st1\<lparr>utf8_buffer := tail\<rparr>, if bad then Inl invalid_utf8_error else Inr ()))"

definition process_chunk :: "string \<Rightarrow> sse_stream \<Rightarrow> sse_stream \<times> unit res" where
  "process_chunk bytes st =
     (if utf8_buffer st = [] then process_chunk_without_utf8_tail bytes st
      else process_chunk_with_utf8_tail bytes st)"

datatype polled = Sent sse_event | Failed string | NotReady | Finished

definition poll_stream_end :: "sse_stream \<Rightarrow> polled \<times> sse_stream" where
  "poll_stream_end st =
     (if utf8_buffer st \<noteq> []
      then (Failed ''Stream ended with incomplete UTF-8 sequence'', stream_new)
      else
        (case flush (parser st) of
           (p, Some e) \<Rightarrow> (Sent e, st\<lparr>parser := p\<rparr>)
         | (p, None) \<Rightarrow> (Finished, st\<lparr>parser := p\<rparr>)))"

text \<open>What the inner stream answers: bytes, an error, or that nothing is there yet.\<close>

datatype inner = Chunk string | Broken string | Wait

definition pop_event :: "sse_stream \<Rightarrow> (sse_event \<times> sse_stream) option" where
  "pop_event st =
     (case pending_events st of [] \<Rightarrow> None | e # es \<Rightarrow> Some (e, st\<lparr>pending_events := es\<rparr>))"

fun poll_inner :: "inner list \<Rightarrow> sse_stream \<Rightarrow> polled \<times> inner list \<times> sse_stream" where
  "poll_inner [] st = (case poll_stream_end st of (r, st') \<Rightarrow> (r, [], st'))"
| "poll_inner (Broken e # xs) st = (Failed e, xs, st)"
| "poll_inner (Wait # xs) st = (NotReady, xs, st)"
| "poll_inner (Chunk bytes # xs) st =
     (case process_chunk bytes st of
        (st1, Inl err) \<Rightarrow>
          (case pop_event st1 of
             Some (e, st2) \<Rightarrow> (Sent e, xs, st2\<lparr>pending_error := Some err\<rparr>)
           | None \<Rightarrow> (Failed err, xs, st1))
      | (st1, Inr _) \<Rightarrow>
          (case pop_event st1 of Some (e, st2) \<Rightarrow> (Sent e, xs, st2) | None \<Rightarrow> poll_inner xs st1))"

definition poll_next_event :: "inner list \<Rightarrow> sse_stream \<Rightarrow> polled \<times> inner list \<times> sse_stream" where
  "poll_next_event xs st =
     (case pop_event st of
        Some (e, st1) \<Rightarrow> (Sent e, xs, st1)
      | None \<Rightarrow>
          (case pending_error st of
             Some err \<Rightarrow> (Failed err, xs, st\<lparr>pending_error := None\<rparr>)
           | None \<Rightarrow> poll_inner xs st))"

section \<open>Polling to the end\<close>

text \<open>How much a poll can still answer.\<close>

definition poll_measure :: "(inner list \<times> sse_stream) \<Rightarrow> nat \<times> nat \<times> nat \<times> nat" where
  "poll_measure =
     (\<lambda>(xs, st). (length xs, length (pending_events st), if pending_error st = None then 0 else 1,
        if utf8_buffer st = [] then (if snd (flush (parser st)) = None then 0 else 1) else 1))"

definition poll_order :: "((inner list \<times> sse_stream) \<times> (inner list \<times> sse_stream)) set" where
  "poll_order = inv_image (less_than <*lex*> less_than <*lex*> less_than <*lex*> less_than) poll_measure"

lemma poll_inner_decreases:
  "poll_inner xs st = (r, xs', st') \<Longrightarrow> r \<noteq> Finished \<Longrightarrow>
     length xs' < length xs \<or> (xs' = xs \<and> xs = [] \<and> pending_events st' = (if utf8_buffer st = [] then pending_events st else []) \<and>
       pending_error st' = (if utf8_buffer st = [] then pending_error st else None) \<and>
       (utf8_buffer st \<noteq> [] \<or> snd (flush (parser st)) \<noteq> None) \<and> utf8_buffer st' = [] \<and> snd (flush (parser st')) = None)"
proof (induction xs st rule: poll_inner.induct)
  case (1 st)
  then show ?case
    using flush_twice [of "parser st"]
    by (cases "flush (parser st)")
       (auto simp: poll_stream_end_def stream_new_def flush_new split: if_splits option.splits)
next
  case (4 bytes xs st)
  obtain st1 err where pc: "process_chunk bytes st = (st1, err)" by force
  show ?case
  proof (cases err)
    case (Inl e)
    with 4(2) pc show ?thesis by (cases "pop_event st1") auto
  next
    case (Inr u)
    show ?thesis
    proof (cases "pop_event st1")
      case None
      with 4(1) [OF pc [symmetric] Inr None] 4(2,3) pc Inr show ?thesis by auto
    next
      case (Some p)
      with 4(2) pc Inr show ?thesis by (cases p) auto
    qed
  qed
qed auto

lemma poll_decreases:
  assumes "poll_next_event xs st = (r, xs', st')" "r \<noteq> Finished"
  shows "((xs', st'), (xs, st)) \<in> poll_order"
proof (cases "pending_events st")
  case (Cons e es)
  with assms show ?thesis by (auto simp: poll_next_event_def pop_event_def poll_order_def poll_measure_def)
next
  case Nil
  show ?thesis
  proof (cases "pending_error st")
    case (Some err)
    with Nil assms show ?thesis by (auto simp: poll_next_event_def pop_event_def poll_order_def poll_measure_def)
  next
    case None
    with Nil assms(1) have "poll_inner xs st = (r, xs', st')" by (simp add: poll_next_event_def pop_event_def)
    from poll_inner_decreases [OF this assms(2)] Nil None show ?thesis
      by (auto simp: poll_order_def poll_measure_def split: if_splits)
  qed
qed

lemma polls_decrease: "(r, y) = poll_next_event xs st \<Longrightarrow> (xs', st') = y \<Longrightarrow> r \<noteq> Finished \<Longrightarrow> ((xs', st'), (xs, st)) \<in> poll_order"
  by (rule poll_decreases) simp_all

lemma wf_poll_order: "wf poll_order"
  unfolding poll_order_def by (intro wf_inv_image wf_lex_prod wf_less_than)

text \<open>The answers of all polls up to the end, without those that say that nothing is there yet.\<close>

function drain :: "inner list \<Rightarrow> sse_stream \<Rightarrow> (string + sse_event) list" where
  "drain xs st =
     (case poll_next_event xs st of
        (Finished, _, _) \<Rightarrow> []
      | (NotReady, xs', st') \<Rightarrow> drain xs' st'
      | (Sent e, xs', st') \<Rightarrow> Inr e # drain xs' st'
      | (Failed err, xs', st') \<Rightarrow> Inl err # drain xs' st')"
  by pat_completeness auto
termination
  by (relation poll_order) (rule wf_poll_order, (erule (1) polls_decrease, simp)+)

declare drain.simps [simp del]

section \<open>The text in the bytes\<close>

text \<open>The valid characters of some bytes, the cut one at their end, and whether there are bad ones.\<close>

function decode :: "string \<Rightarrow> string \<times> string \<times> bool" where
  "decode bs =
     (if bs = [] then ([], [], False)
      else
        (case utf8_first bs of
           Whole k \<Rightarrow> (case decode (drop k bs) of (t, part, bad) \<Rightarrow> (take k bs @ t, part, bad))
         | Bad k \<Rightarrow> (case decode (drop k bs) of (t, part, bad) \<Rightarrow> (t, part, True))
         | Cut \<Rightarrow> ([], bs, False)))"
  by pat_completeness auto
termination
  by (relation "measure length") (use utf8_first_pos in fastforce)+

declare decode.simps [simp del]

lemma decode_Nil [simp]: "decode [] = ([], [], False)"
  by (simp add: decode.simps)

lemma decode_Whole: "utf8_first bs = Whole k \<Longrightarrow> decode bs = (case decode (drop k bs) of (t, part, bad) \<Rightarrow> (take k bs @ t, part, bad))"
  by (cases "bs = []") (auto simp: decode.simps [of bs])

lemma decode_Bad: "utf8_first bs = Bad k \<Longrightarrow> decode bs = (case decode (drop k bs) of (t, part, bad) \<Rightarrow> (t, part, True))"
  by (cases "bs = []") (auto simp: decode.simps [of bs])

lemma decode_Cut: "utf8_first bs = Cut \<Longrightarrow> decode bs = ([], bs, False)"
  by (cases "bs = []") (auto simp: decode.simps [of bs])

lemma utf8_first_Nil: "utf8_first bs \<noteq> Cut \<Longrightarrow> bs \<noteq> []"
  by auto

lemma decode_append:
  "decode (a @ b) =
     (case decode a of (ta, la, ba) \<Rightarrow> (case decode (la @ b) of (tb, lb, bb) \<Rightarrow> (ta @ tb, lb, ba \<or> bb)))"
proof (induction a rule: decode.induct)
  case (1 a)
  show ?case
  proof (cases "utf8_first a")
    case (Whole k)
    then have "utf8_first (a @ b) = Whole k" "k \<le> length a" "a \<noteq> []"
      using utf8_first_append [of a b] utf8_first_pos [of a k] by auto
    with 1(1) Whole show ?thesis by (simp add: decode_Whole split: prod.split)
  next
    case (Bad k)
    then have "utf8_first (a @ b) = Bad k" "k \<le> length a" "a \<noteq> []"
      using utf8_first_append [of a b] utf8_first_pos [of a k] by auto
    with 1(2) Bad show ?thesis by (simp add: decode_Bad split: prod.split)
  next
    case Cut
    then show ?thesis by (simp add: decode_Cut split: prod.split)
  qed
qed

lemma decode_length: "decode bs = (t, part, bad) \<Longrightarrow> length t + length part \<le> length bs"
proof (induction bs arbitrary: t part bad rule: decode.induct)
  case (1 bs)
  show ?case
  proof (cases "utf8_first bs")
    case (Whole k)
    then have k: "k \<le> length bs" "bs \<noteq> []" using utf8_first_pos [of bs k] by auto
    obtain t' part' bad' where d: "decode (drop k bs) = (t', part', bad')" by (cases "decode (drop k bs)")
    from 1(1) [OF k(2) Whole d] 1(3) k(1) d show ?thesis by (auto simp: decode_Whole [OF Whole])
  next
    case (Bad k)
    then have k: "k \<le> length bs" "bs \<noteq> []" using utf8_first_pos [of bs k] by auto
    obtain t' part' bad' where d: "decode (drop k bs) = (t', part', bad')" by (cases "decode (drop k bs)")
    from 1(2) [OF k(2) Bad d] 1(3) k(1) d show ?thesis by (auto simp: decode_Bad [OF Bad])
  next
    case Cut with 1(3) show ?thesis by (simp add: decode_Cut)
  qed
qed

lemma decode_part: "decode bs = (t, part, bad) \<Longrightarrow> decode part = ([], part, False)"
proof (induction bs arbitrary: t part bad rule: decode.induct)
  case (1 bs)
  show ?case
  proof (cases "utf8_first bs")
    case (Whole k)
    then have k: "bs \<noteq> []" by auto
    obtain t' part' bad' where d: "decode (drop k bs) = (t', part', bad')" by (cases "decode (drop k bs)")
    from 1(1) [OF k Whole d] 1(3) d show ?thesis by (auto simp: decode_Whole [OF Whole])
  next
    case (Bad k)
    then have k: "bs \<noteq> []" by auto
    obtain t' part' bad' where d: "decode (drop k bs) = (t', part', bad')" by (cases "decode (drop k bs)")
    from 1(2) [OF k Bad d] 1(3) d show ?thesis by (auto simp: decode_Bad [OF Bad])
  next
    case Cut with 1(3) show ?thesis by (auto simp: decode_Cut)
  qed
qed

lemma decode_from_utf8:
  "from_utf8 bs = (n, e) \<Longrightarrow>
     (e = None \<longrightarrow> decode bs = (bs, [], False)) \<and>
     (\<forall>k. e = Some (Invalid k) \<longrightarrow>
        decode bs = (case decode (drop (n + k) bs) of (t, part, bad) \<Rightarrow> (take n bs @ t, part, True))) \<and>
     (e = Some Truncated \<longrightarrow> decode bs = (take n bs, drop n bs, False))"
proof (induction bs arbitrary: n e rule: from_utf8.induct)
  case (1 bs)
  show ?case
  proof (cases "bs = []")
    case True with 1(2) show ?thesis by (simp add: from_utf8.simps)
  next
    case False
    show ?thesis
    proof (cases "utf8_first bs")
      case (Whole k)
      obtain m e' where m: "from_utf8 (drop k bs) = (m, e')" by force
      have n: "n = k + m" "e = e'" using 1(2) False Whole m by (auto simp: from_utf8.simps [of bs])
      have t: "take (k + m) bs = take k bs @ take m (drop k bs)" by (rule take_add)
      show ?thesis
        using 1(1) [OF False Whole m] n t
        by (auto simp: decode_Whole [OF Whole] add.commute add.left_commute split: prod.splits)
    next
      case (Bad k) with 1(2) False show ?thesis by (auto simp: from_utf8.simps [of bs] decode_Bad split: prod.split)
    next
      case Cut with 1(2) False show ?thesis by (auto simp: from_utf8.simps [of bs] decode_Cut)
    qed
  qed
qed

text \<open>Valid text does not end within a byte order mark.\<close>

lemma first_of_bom: "utf8_first (CHR 0xEF # r) = Whole k \<Longrightarrow> k = 3"
proof -
  assume "utf8_first (CHR 0xEF # r) = Whole k"
  then have "utf8_rest 2 0x80 0xBF r 1 = Whole k" by (simp add: utf8_lead_def)
  then show "k = 3" by (cases r; cases "tl r") (auto simp: numeral_2_eq_2 split: if_splits)
qed

lemma valid_whole_bom: "from_utf8 bs = (n, e) \<Longrightarrow> 0 < n \<Longrightarrow> whole_bom (take n bs)"
proof -
  assume fu: "from_utf8 bs = (n, e)" and n: "0 < n"
  then obtain k m where k: "utf8_first bs = Whole k" "n = k + m" "bs \<noteq> []"
    by (auto simp: from_utf8.simps [of bs] split: if_splits utf8_char.splits prod.splits)
  then have "n \<le> length bs" using from_utf8_bounds [OF fu] by simp
  show ?thesis
  proof (cases "hd bs = CHR 0xEF")
    case True
    then have "k = 3" using first_of_bom [of "tl bs" k] k by (cases bs) auto
    then have "length (take n bs) \<ge> 3" using k(2) \<open>n \<le> length bs\<close> by simp
    moreover have "length (take 1 bom) < 3" "length (take 2 bom) < 3" by (simp_all add: bom_def)
    ultimately show ?thesis unfolding whole_bom_def by (metis not_le)
  next
    case False
    with k(3) n show ?thesis by (cases bs; cases n) (auto simp: whole_bom_def bom_def)
  qed
qed

section \<open>What the polls give\<close>

text \<open>The stream has fed the text \<open>t\<close> to its parser.\<close>

definition tracks :: "sse_stream \<Rightarrow> string \<Rightarrow> bool" where
  "tracks st t \<longleftrightarrow> parser st = state_of t \<and> (t = [] \<or> whole_bom t)"

lemma tracks_feed:
  assumes "tracks st t" "whole_bom p" "p \<noteq> []" "length t + length p \<le> max_buffer_size"
  shows "\<exists>new. events_of (t @ p) = events_of t @ new \<and>
    feed_to_pending p st = st\<lparr>parser := state_of (t @ p), pending_events := pending_events st @ new\<rparr> \<and>
    tracks (feed_to_pending p st) (t @ p)"
proof -
  have w: "whole_bom (t @ p)" using assms(1,2) whole_bom_append by (cases "t = []") (auto simp: tracks_def)
  with assms have "piece_fits t p" by (auto simp: piece_fits_def tracks_def)
  from sse.fed [OF this] sse.sent [OF this] w assms(1) show ?thesis
    by (cases "feed p (state_of t)") (auto simp: feed_to_pending_def tracks_def feed_def)
qed

lemma utf8_loop_tracks:
  assumes "tracks st t" "length t + length bytes \<le> max_buffer_size" "decode bytes = (tx, part, bad')"
  shows "\<exists>new st1. utf8_loop bytes bad st = (st1, part, bad \<or> bad') \<and> tracks st1 (t @ tx) \<and>
    events_of (t @ tx) = events_of t @ new \<and>
    st1 = st\<lparr>parser := state_of (t @ tx), pending_events := pending_events st @ new\<rparr>"
  using assms
proof (induction bytes bad st arbitrary: t tx part bad' rule: utf8_loop.induct)
  case (1 bytes bad st)
  obtain n e where fu: "from_utf8 bytes = (n, e)" by force
  note bounds = from_utf8_bounds [OF fu] and dec = decode_from_utf8 [OF fu]
  define p where "p = take n bytes"
  define st1 where "st1 = (if 0 < n then feed_to_pending p st else st)"
  have "length t + length p \<le> max_buffer_size" using 1(3) by (simp add: p_def)
  then obtain new where new: "events_of (t @ p) = events_of t @ new" "tracks st1 (t @ p)"
      "st1 = st\<lparr>parser := state_of (t @ p), pending_events := pending_events st @ new\<rparr>"
  proof (cases "n = 0")
    case True
    have st: "parser st = state_of t" using 1(2) by (simp add: tracks_def)
    have "st = st\<lparr>parser := state_of t, pending_events := pending_events st @ []\<rparr>" by (simp add: st [symmetric])
    with True 1(2) that [of "[]"] show ?thesis by (simp add: p_def st1_def)
  next
    case False
    then have "whole_bom p" "p \<noteq> []" using valid_whole_bom [OF fu] bounds by (auto simp: p_def)
    from tracks_feed [OF 1(2) this \<open>length t + length p \<le> max_buffer_size\<close>] False that show ?thesis
      by (auto simp: st1_def)
  qed
  show ?case
  proof (cases e)
    case None
    then have d: "tx = bytes" "part = []" "bad' = False" "p = bytes"
      using dec bounds 1(4) by (auto simp: p_def)
    have "utf8_loop bytes bad st = (st1, [], bad)"
      using fu None d(4) bounds by (auto simp: utf8_loop.simps [of bytes] st1_def)
    with d new show ?thesis by auto
  next
    case (Some e')
    show ?thesis
    proof (cases e')
      case Truncated
      then have d: "tx = p" "part = drop n bytes" "bad' = False" using dec Some 1(4) by (auto simp: p_def)
      have "utf8_loop bytes bad st = (st1, drop n bytes, bad)"
        using fu Some Truncated by (simp add: utf8_loop.simps [of bytes] st1_def p_def)
      with d new show ?thesis by auto
    next
      case (Invalid k)
      obtain tx' b' where d: "decode (drop (n + k) bytes) = (tx', part, b')" "tx = p @ tx'" "bad' = True"
        using dec Some Invalid 1(4) by (auto simp: p_def split: prod.splits)
      have st1': "st1 = (if 0 < n then feed_to_pending (take n bytes) st else st)" by (simp add: st1_def p_def)
      have len: "length (t @ p) + length (drop (n + k) bytes) \<le> max_buffer_size"
        using 1(3) bounds Some Invalid by (simp add: p_def)
      have "utf8_loop bytes bad st = utf8_loop (drop (n + k) bytes) True st1"
        using fu Some Invalid by (simp add: utf8_loop.simps [of bytes] st1_def p_def)
      moreover obtain new' st2 where "utf8_loop (drop (n + k) bytes) True st1 = (st2, part, True)"
          "tracks st2 ((t @ p) @ tx')" "events_of ((t @ p) @ tx') = events_of (t @ p) @ new'"
          "st2 = st1\<lparr>parser := state_of ((t @ p) @ tx'), pending_events := pending_events st1 @ new'\<rparr>"
        using 1(1) [OF fu [symmetric] Some st1' Invalid new(2) len d(1)] by auto
      ultimately show ?thesis using d new by auto
    qed
  qed
qed

lemma process_chunk_tracks:
  assumes "tracks st t" "length t + length (utf8_buffer st @ bytes) \<le> max_buffer_size"
    "decode (utf8_buffer st @ bytes) = (tx, part, bad)"
  shows "\<exists>new st1. process_chunk bytes st = (st1, if bad then Inl invalid_utf8_error else Inr ()) \<and> tracks st1 (t @ tx) \<and>
    events_of (t @ tx) = events_of t @ new \<and>
    st1 = st\<lparr>parser := state_of (t @ tx), pending_events := pending_events st @ new, utf8_buffer := part\<rparr>"
proof -
  obtain new st1 where "utf8_loop (utf8_buffer st @ bytes) False st = (st1, part, bad)" "tracks st1 (t @ tx)"
      "events_of (t @ tx) = events_of t @ new"
      "st1 = st\<lparr>parser := state_of (t @ tx), pending_events := pending_events st @ new\<rparr>"
    using utf8_loop_tracks [OF assms, of False] by auto
  then show ?thesis
    by (cases "utf8_buffer st = []")
       (auto simp: process_chunk_def process_chunk_without_utf8_tail_def process_chunk_with_utf8_tail_def tracks_def)
qed

fun sent_in :: "(string + sse_event) list \<Rightarrow> sse_event list" where
  "sent_in [] = []"
| "sent_in (Inr e # xs) = e # sent_in xs"
| "sent_in (Inl err # xs) = sent_in xs"

definition failed_in :: "(string + sse_event) list \<Rightarrow> bool" where
  "failed_in xs \<longleftrightarrow> (\<exists>err. Inl err \<in> set xs)"

lemma failed_in_simps [simp]: "\<not> failed_in []" "failed_in (Inr e # xs) = failed_in xs" "failed_in (Inl err # xs)"
  by (auto simp: failed_in_def)

definition bytes_of :: "inner list \<Rightarrow> string" where
  "bytes_of xs = concat (map (\<lambda>x. case x of Chunk b \<Rightarrow> b | _ \<Rightarrow> []) xs)"

lemma bytes_of_simps [simp]:
  "bytes_of [] = []" "bytes_of (Chunk b # xs) = b @ bytes_of xs" "bytes_of (Broken e # xs) = bytes_of xs"
  "bytes_of (Wait # xs) = bytes_of xs"
  by (simp_all add: bytes_of_def)

definition broken_in :: "inner list \<Rightarrow> bool" where
  "broken_in xs \<longleftrightarrow> (\<exists>e. Broken e \<in> set xs)"

lemma broken_in_simps [simp]:
  "\<not> broken_in []" "broken_in (Chunk b # xs) = broken_in xs" "broken_in (Wait # xs) = broken_in xs" "broken_in (Broken e # xs)"
  by (auto simp: broken_in_def)

text \<open>What waits is given first: the events, then the error.\<close>

lemma drain_event: "pending_events st = e # es \<Longrightarrow> drain xs st = Inr e # drain xs (st\<lparr>pending_events := es\<rparr>)"
  by (simp add: drain.simps [of xs st] poll_next_event_def pop_event_def)

lemma drain_error:
  "pending_events st = [] \<Longrightarrow> pending_error st = Some err \<Longrightarrow> drain xs st = Inl err # drain xs (st\<lparr>pending_error := None\<rparr>)"
  by (simp add: drain.simps [of xs st] poll_next_event_def pop_event_def)

definition settled :: "sse_stream \<Rightarrow> sse_stream" where
  "settled st = st\<lparr>pending_events := [], pending_error := None\<rparr>"

lemma drain_settled:
  "sent_in (drain xs st) = pending_events st @ sent_in (drain xs (settled st)) \<and>
     failed_in (drain xs st) = (pending_error st \<noteq> None \<or> failed_in (drain xs (settled st)))"
proof (induction "pending_events st" arbitrary: st)
  case Nil
  show ?case
  proof (cases "pending_error st")
    case None
    then have "settled st = st" using Nil by (simp add: settled_def)
    with None Nil show ?thesis by simp
  next
    case (Some err)
    then have "settled st = st\<lparr>pending_error := None\<rparr>" using Nil by (simp add: settled_def)
    with Some Nil drain_error [of st err xs] show ?thesis by simp
  qed
next
  case (Cons e es)
  have "settled (st\<lparr>pending_events := es\<rparr>) = settled st" by (simp add: settled_def)
  with Cons(1) [of "st\<lparr>pending_events := es\<rparr>"] Cons(2) drain_event [of st e es xs] show ?case
    by (simp flip: Cons(2))
qed

text \<open>A chunk is processed, and then its events and its error wait.\<close>

definition after_chunk :: "string \<Rightarrow> sse_stream \<Rightarrow> sse_stream" where
  "after_chunk bytes st =
     (case process_chunk bytes st of (st1, r) \<Rightarrow> st1\<lparr>pending_error := (case r of Inl e \<Rightarrow> Some e | Inr _ \<Rightarrow> None)\<rparr>)"

lemma drain_chunk:
  assumes "pending_events st = []" "pending_error st = None" "pending_error (fst (process_chunk bytes st)) = None"
  shows "drain (Chunk bytes # xs) st = drain xs (after_chunk bytes st)"
proof -
  obtain st1 r where pc: "process_chunk bytes st = (st1, r)" by force
  have e1: "pending_error st1 = None" using assms(3) pc by simp
  have poll: "poll_next_event (Chunk bytes # xs) st = poll_inner (Chunk bytes # xs) st"
    using assms by (simp add: poll_next_event_def pop_event_def)
  show ?thesis
  proof (cases r)
    case (Inl err)
    then have ac: "after_chunk bytes st = st1\<lparr>pending_error := Some err\<rparr>" using pc by (simp add: after_chunk_def)
    show ?thesis
    proof (cases "pending_events st1")
      case Nil
      then have "drain xs (after_chunk bytes st) = Inl err # drain xs (st1\<lparr>pending_error := None\<rparr>)"
        using ac drain_error [of "st1\<lparr>pending_error := Some err\<rparr>" err xs] by simp
      moreover have "st1\<lparr>pending_error := None\<rparr> = st1" using e1 by simp
      ultimately show ?thesis using poll pc Inl Nil by (simp add: drain.simps [of "Chunk bytes # xs"] pop_event_def)
    next
      case (Cons e es)
      have sw: "st1\<lparr>pending_events := es, pending_error := Some err\<rparr> = st1\<lparr>pending_error := Some err, pending_events := es\<rparr>"
        by (cases st1) simp
      from Cons poll pc Inl ac drain_event [of "st1\<lparr>pending_error := Some err\<rparr>" e es xs] show ?thesis
        by (simp add: sw drain.simps [of "Chunk bytes # xs"] pop_event_def)
    qed
  next
    case (Inr u)
    then have ac: "after_chunk bytes st = st1" using pc e1 by (simp add: after_chunk_def)
    show ?thesis
    proof (cases "pending_events st1")
      case Nil
      then have "poll_next_event (Chunk bytes # xs) st = poll_next_event xs st1"
        using poll pc Inr e1 by (simp add: poll_next_event_def pop_event_def)
      then show ?thesis using ac by (simp add: drain.simps [of "Chunk bytes # xs"] drain.simps [of xs st1])
    next
      case (Cons e es)
      with poll pc Inr ac drain_event [of st1 e es xs] show ?thesis
        by (simp add: drain.simps [of "Chunk bytes # xs"] pop_event_def)
    qed
  qed
qed

lemma drain_others:
  assumes "pending_events st = []" "pending_error st = None"
  shows "drain (Broken e # xs) st = Inl e # drain xs st" "drain (Wait # xs) st = drain xs st"
  using assms by (simp_all add: drain.simps [of "Broken e # xs"] drain.simps [of "Wait # xs"] poll_next_event_def pop_event_def)

lemma drain_new: "drain [] stream_new = []"
  using flush_new by (cases "flush sse_new")
    (simp add: drain.simps [of "[]"] poll_next_event_def pop_event_def poll_stream_end_def stream_new_def)

lemma drain_end:
  assumes "pending_events st = []" "pending_error st = None" "parser st = state_of t"
  shows "sent_in (drain [] st) = (if utf8_buffer st = [] then last_event t else []) \<and> failed_in (drain [] st) = (utf8_buffer st \<noteq> [])"
proof (cases "utf8_buffer st = []")
  case False
  with assms drain_new show ?thesis
    by (simp add: drain.simps [of "[]" st] poll_next_event_def pop_event_def poll_stream_end_def)
next
  case True
  obtain p r where f: "flush (state_of t) = (p, r)" by force
  obtain p' where f': "flush p = (p', None)" using flush_twice [of "state_of t"] f by (cases "flush p") simp
  have "drain [] (st\<lparr>parser := p\<rparr>) = []"
    using assms True f' by (simp add: drain.simps [of "[]" "st\<lparr>parser := p\<rparr>"] poll_next_event_def pop_event_def poll_stream_end_def)
  with assms True f show ?thesis
    by (cases r) (simp_all add: drain.simps [of "[]" st] poll_next_event_def pop_event_def poll_stream_end_def last_event_def)
qed

lemma drain_tracks:
  assumes "tracks st t" "pending_events st = []" "pending_error st = None"
    "length t + length (utf8_buffer st @ bytes_of xs) \<le> max_buffer_size"
    "decode (utf8_buffer st @ bytes_of xs) = (tx, part, bad)" "decode (utf8_buffer st) = ([], utf8_buffer st, False)"
  shows "\<exists>new. events_of (t @ tx) = events_of t @ new \<and>
    sent_in (drain xs st) = new @ (if part = [] then last_event (t @ tx) else []) \<and>
    failed_in (drain xs st) = (bad \<or> part \<noteq> [] \<or> broken_in xs)"
  using assms
proof (induction xs arbitrary: st t tx part bad)
  case Nil
  then have d: "tx = []" "part = utf8_buffer st" "bad = False" by auto
  with Nil drain_end [of st t] show ?case by (auto simp: tracks_def)
next
  case (Cons x xs)
  show ?case
  proof (cases x)
    case (Chunk bytes)
    let ?u = "utf8_buffer st @ bytes"
    obtain tx1 part1 bad1 where d1: "decode ?u = (tx1, part1, bad1)" by (cases "decode ?u")
    obtain tx2 part2 bad2 where d2: "decode (part1 @ bytes_of xs) = (tx2, part2, bad2)" by (cases "decode (part1 @ bytes_of xs)")
    have d: "tx = tx1 @ tx2" "part = part2" "bad = (bad1 \<or> bad2)"
      using Cons.prems(5) decode_append [of ?u "bytes_of xs"] d1 d2 Chunk by auto
    have l1: "length tx1 + length part1 \<le> length ?u" by (rule decode_length [OF d1])
    have len: "length t + length ?u \<le> max_buffer_size" using Cons.prems(4) Chunk by simp
    obtain new1 st1 where pc: "process_chunk bytes st = (st1, if bad1 then Inl invalid_utf8_error else Inr ())"
        and tr: "tracks st1 (t @ tx1)" and ev: "events_of (t @ tx1) = events_of t @ new1"
        and st1: "st1 = st\<lparr>parser := state_of (t @ tx1), pending_events := pending_events st @ new1, utf8_buffer := part1\<rparr>"
      using process_chunk_tracks [OF Cons.prems(1) len d1] by blast
    let ?a = "after_chunk bytes st"
    have a: "pending_events ?a = new1" "(pending_error ?a \<noteq> None) = bad1" "tracks (settled ?a) (t @ tx1)"
        "utf8_buffer (settled ?a) = part1" "pending_events (settled ?a) = []" "pending_error (settled ?a) = None"
      using pc st1 tr Cons.prems(2) by (simp_all add: after_chunk_def settled_def tracks_def)
    have len2: "length (t @ tx1) + length (utf8_buffer (settled ?a) @ bytes_of xs) \<le> max_buffer_size"
      using Cons.prems(4) Chunk l1 a(4) by simp
    have part1: "decode part1 = ([], part1, False)" by (rule decode_part [OF d1])
    obtain new2 where n2: "events_of ((t @ tx1) @ tx2) = events_of (t @ tx1) @ new2"
        "sent_in (drain xs (settled ?a)) = new2 @ (if part2 = [] then last_event ((t @ tx1) @ tx2) else [])"
        "failed_in (drain xs (settled ?a)) = (bad2 \<or> part2 \<noteq> [] \<or> broken_in xs)"
      using Cons.IH [OF a(3,5,6) len2] d2 a(4) part1 by auto
    have "drain (Chunk bytes # xs) st = drain xs ?a"
      by (rule drain_chunk) (use Cons.prems(2,3) pc st1 in auto)
    with Chunk drain_settled [of xs ?a] n2 a d ev show ?thesis by auto
  next
    case (Broken e)
    have "length t + length (utf8_buffer st @ bytes_of xs) \<le> max_buffer_size"
        "decode (utf8_buffer st @ bytes_of xs) = (tx, part, bad)"
      using Cons.prems(4,5) Broken by simp_all
    from Cons.IH [OF Cons.prems(1-3) this Cons.prems(6)] obtain new where
        "events_of (t @ tx) = events_of t @ new"
        "sent_in (drain xs st) = new @ (if part = [] then last_event (t @ tx) else [])" by blast
    with Broken drain_others(1) [OF Cons.prems(2,3), of e xs] show ?thesis by (intro exI [of _ new]) simp
  next
    case Wait
    have "length t + length (utf8_buffer st @ bytes_of xs) \<le> max_buffer_size"
        "decode (utf8_buffer st @ bytes_of xs) = (tx, part, bad)"
      using Cons.prems(4,5) Wait by simp_all
    from Cons.IH [OF Cons.prems(1-3) this Cons.prems(6)] show ?thesis
      using Wait drain_others(2) [OF Cons.prems(2,3), of xs] by simp
  qed
qed

text \<open>C24. What the network does to a stream does not show. Whatever pieces the bytes of an answer come
  in, and whenever polls find nothing, the events sent are those of the lines of their text, in order and
  once each, ended by the one that the end of the stream completes; bytes that are not UTF-8 are passed
  over. An error is reported exactly when there are such bytes, when the stream ends within a character,
  or when the connection reports one. The bytes fit the 10 MiB that the parser buffers.\<close>

theorem sse_stream_exact:
  assumes "decode (bytes_of xs) = (tx, part, bad)" "length (bytes_of xs) \<le> max_buffer_size"
  shows "sent_in (drain xs stream_new) = events_of tx @ (if part = [] then last_event tx else []) \<and>
    failed_in (drain xs stream_new) = (bad \<or> part \<noteq> [] \<or> broken_in xs)"
proof -
  have "tracks stream_new []" by (simp add: tracks_def stream_new_def state_of_def)
  from drain_tracks [OF this _ _ _ _, of xs tx part bad] assms show ?thesis
    by (auto simp: stream_new_def)
qed

lemma sse_stream_exact_witness:
  "sent_in (drain [Chunk ''data: x'', Wait, Chunk [CR], Chunk [LF, LF]] stream_new) = [default_event\<lparr>event_data := ''x''\<rparr>]"
proof -
  let ?xs = "[Chunk ''data: x'', Wait, Chunk [CR], Chunk [LF, LF]]" and ?t = "''data: x'' @ [CR, LF, LF]"
  have b: "bytes_of ?xs = ?t" by simp
  have d: "decode (bytes_of ?xs) = (?t, [], False)" unfolding b by (simp add: decode.simps utf8_lead_def)
  have "length (bytes_of ?xs) \<le> max_buffer_size" unfolding b by (simp add: max_buffer_size_def)
  from sse_stream_exact [OF d this] have "sent_in (drain ?xs stream_new) = events_of ?t @ last_event ?t" by simp
  moreover have "events_of ?t = [default_event\<lparr>event_data := ''x''\<rparr>]"
    by (simp add: events_of_def lines_of_def strip_bom_def bom_def take_line_def process_line_def split_once_def
        strip_prefix_def finished_def default_event_def data_limit_def suffix_Cons Let_def)
  moreover have "last_event ?t = []"
    by (simp add: last_event_def flush_def state_of_def lines_of_def rest_of_def strip_bom_def bom_def take_line_def
        process_line_def split_once_def strip_prefix_def finished_def default_event_def data_limit_def Let_def)
  ultimately show ?thesis by simp
qed

end
