(* ===== verification/Agent_Model.thy ===== *)
theory Agent_Model
  imports Json_Value
begin

text \<open>
  Messages, events and queues of the agent: \<open>patches/pi_agent_rust/src/model.rs\<close> and the first part of
  \<open>agent.rs\<close>. An \<open>Arc\<close> is its content. Costs are rational numbers. Of the events those of a run are
  here; compaction, retries and extension errors are reported by code around it.
\<close>

section \<open>Messages\<close>

record tool_call =
  call_id :: string
  call_name :: string
  call_args :: json
  call_signature :: "string option"

text \<open>Text and thinking with their signatures, an image as data and type.\<close>

datatype block =
    TextB string "string option"
  | ThinkingB string "string option"
  | ImageB string string
  | CallB tool_call

datatype stop_reason = StopNormal | StopLength | StopToolUse | StopError | StopAborted

record cost =
  cost_input :: rat
  cost_output :: rat
  cost_cache_read :: rat
  cost_cache_write :: rat
  cost_total :: rat

record usage =
  tokens_input :: nat
  tokens_output :: nat
  tokens_cache_read :: nat
  tokens_cache_write :: nat
  tokens_total :: nat
  tokens_cost :: cost

definition no_usage :: usage where
  "no_usage =
     \<lparr>tokens_input = 0, tokens_output = 0, tokens_cache_read = 0, tokens_cache_write = 0, tokens_total = 0,
      tokens_cost = \<lparr>cost_input = 0, cost_output = 0, cost_cache_read = 0, cost_cache_write = 0, cost_total = 0\<rparr>\<rparr>"

record assistant_message =
  am_content :: "block list"
  am_api :: string
  am_provider :: string
  am_model :: string
  am_usage :: usage
  am_stop :: stop_reason
  am_error :: "string option"
  am_timestamp :: int

record tool_result_message =
  tr_call_id :: string
  tr_tool_name :: string
  tr_content :: "block list"
  tr_details :: "json option"
  tr_is_error :: bool
  tr_timestamp :: int

record custom_message =
  cm_content :: string
  cm_type :: string
  cm_display :: bool
  cm_details :: "json option"
  cm_timestamp :: int

datatype user_content = PlainText string | UserBlocks "block list"

datatype message =
    User user_content int
  | Assistant assistant_message
  | ToolResult tool_result_message
  | Custom custom_message

record tool_output =
  out_content :: "block list"
  out_details :: "json option"
  out_error :: bool

fun extract_tool_calls :: "block list \<Rightarrow> tool_call list" where
  "extract_tool_calls [] = []"
| "extract_tool_calls (CallB c # bs) = c # extract_tool_calls bs"
| "extract_tool_calls (b # bs) = extract_tool_calls bs"

section \<open>Events\<close>

text \<open>What a provider's stream yields, and the updates of the assistant's message that are passed on;
  a number is the index of a block of the content.\<close>

datatype stream_event =
    SStart assistant_message
  | STextStart nat
  | STextDelta nat string
  | STextEnd nat string
  | SThinkingStart nat
  | SThinkingDelta nat string
  | SThinkingEnd nat string
  | SCallStart nat
  | SCallDelta nat string
  | SCallEnd nat tool_call
  | SDone stop_reason assistant_message
  | SError stop_reason assistant_message

datatype assistant_update =
    UStart assistant_message
  | UTextStart nat assistant_message
  | UTextDelta nat string assistant_message
  | UTextEnd nat string assistant_message
  | UThinkingStart nat assistant_message
  | UThinkingDelta nat string assistant_message
  | UThinkingEnd nat string assistant_message
  | UCallStart nat assistant_message
  | UCallDelta nat string assistant_message
  | UCallEnd nat tool_call assistant_message
  | UDone stop_reason assistant_message
  | UError stop_reason assistant_message

text \<open>The session and the new messages, the session and the index of a turn, a call's id, name and
  arguments.\<close>

datatype agent_ev =
    EvAgentStart string
  | EvAgentEnd string "message list" "string option"
  | EvTurnStart string nat int
  | EvTurnEnd string nat message "message list"
  | EvMessageStart message
  | EvMessageUpdate message assistant_update
  | EvMessageEnd message
  | EvToolStart string string json
  | EvToolUpdate string string json tool_output
  | EvToolEnd string string tool_output bool

section \<open>Queued messages\<close>

datatype queue_mode = AllAtOnce | OneAtATime

datatype queue_kind = Steering | FollowUp

record queued_message =
  q_seq :: nat
  q_enqueued_at :: int
  q_message :: message

record message_queue =
  q_steering :: "queued_message list"
  q_follow_up :: "queued_message list"
  q_steering_mode :: queue_mode
  q_follow_up_mode :: queue_mode
  q_next_seq :: nat

definition new_queue :: "queue_mode \<Rightarrow> queue_mode \<Rightarrow> message_queue" where
  "new_queue sm fm =
     \<lparr>q_steering = [], q_follow_up = [], q_steering_mode = sm, q_follow_up_mode = fm, q_next_seq = 0\<rparr>"

definition set_modes :: "queue_mode \<Rightarrow> queue_mode \<Rightarrow> message_queue \<Rightarrow> message_queue" where
  "set_modes sm fm q = q\<lparr>q_steering_mode := sm, q_follow_up_mode := fm\<rparr>"

definition pending_count :: "message_queue \<Rightarrow> nat" where
  "pending_count q = length (q_steering q) + length (q_follow_up q)"

definition push_queue :: "int \<Rightarrow> queue_kind \<Rightarrow> message \<Rightarrow> message_queue \<Rightarrow> message_queue \<times> nat" where
  "push_queue now kind m q =
     (let entry = \<lparr>q_seq = q_next_seq q, q_enqueued_at = now, q_message = m\<rparr>;
          q' = q\<lparr>q_next_seq := min (q_next_seq q + 1) (2 ^ 64 - 1)\<rparr>
      in (case kind of
            Steering \<Rightarrow> q'\<lparr>q_steering := q_steering q' @ [entry]\<rparr>
          | FollowUp \<Rightarrow> q'\<lparr>q_follow_up := q_follow_up q' @ [entry]\<rparr>, q_next_seq q))"

definition take_queue :: "queue_mode \<Rightarrow> queued_message list \<Rightarrow> message list \<times> queued_message list" where
  "take_queue mode xs =
     (case mode of AllAtOnce \<Rightarrow> (map q_message xs, []) | OneAtATime \<Rightarrow> (map q_message (take 1 xs), drop 1 xs))"

definition pop_queue :: "queue_kind \<Rightarrow> message_queue \<Rightarrow> message_queue \<times> message list" where
  "pop_queue kind q =
     (case kind of
        Steering \<Rightarrow>
          (case take_queue (q_steering_mode q) (q_steering q) of (ms, rest) \<Rightarrow> (q\<lparr>q_steering := rest\<rparr>, ms))
      | FollowUp \<Rightarrow>
          (case take_queue (q_follow_up_mode q) (q_follow_up q) of (ms, rest) \<Rightarrow> (q\<lparr>q_follow_up := rest\<rparr>, ms)))"

text \<open>The messages waiting, in the order of their arrival.\<close>

definition waiting :: "queue_kind \<Rightarrow> message_queue \<Rightarrow> message list" where
  "waiting kind q = map q_message (case kind of Steering \<Rightarrow> q_steering q | FollowUp \<Rightarrow> q_follow_up q)"

lemma take_queue_split: "take_queue mode xs = (ms, rest) \<Longrightarrow> map q_message xs = ms @ map q_message rest \<and> (xs \<noteq> [] \<longrightarrow> ms \<noteq> [])"
  by (cases xs) (auto simp: take_queue_def split: queue_mode.splits)

lemma waiting_push: "waiting k (fst (push_queue now kind m q)) = waiting k q @ (if k = kind then [m] else [])"
  by (cases k; cases kind) (simp_all add: waiting_def push_queue_def Let_def)

lemma waiting_pop:
  "pop_queue kind q = (q', ms) \<Longrightarrow>
     waiting kind q = ms @ waiting kind q' \<and> (k \<noteq> kind \<longrightarrow> waiting k q' = waiting k q) \<and> (ms = [] \<longrightarrow> waiting kind q = [])"
  by (cases kind; cases k) (auto simp: waiting_def pop_queue_def dest!: take_queue_split split: prod.splits)

end
