(* ===== verification/Agent_Stream.thy ===== *)
theory Agent_Stream
  imports Agent_Model
begin

text \<open>
  The agent of \<open>patches/pi_agent_rust/src/agent.rs\<close> and how it takes in one answer of the model: the
  events of the provider's stream build the assistant's message at the end of the history and are passed
  on, until the stream is done, fails, ends early or the run is aborted.

  \<open>world\<close> is what the run meets outside: each answer depends on the instant, a counter that every
  meeting advances, so that the abort flag, once set, stays set and messages can arrive at any point.
  The hooks of extensions only listen to the start and the end of turns, and are left out there.
\<close>

record llm_context =
  cx_system :: "string option"
  cx_messages :: "message list"
  cx_tools :: "(string \<times> string \<times> json) list"

record world =
  aborts_at :: "nat option"
  fetched :: "queue_kind \<Rightarrow> nat \<Rightarrow> message list"
  opened :: "nat \<Rightarrow> llm_context \<Rightarrow> string + (string + stream_event) list"
  tool_defs :: "(string \<times> string \<times> json) list"
  read_only :: "string \<rightharpoonup> bool"
  extended :: bool
  call_hook :: "nat \<Rightarrow> tool_call \<Rightarrow> string + (bool \<times> string option) option"
  result_hook :: "nat \<Rightarrow> tool_call \<Rightarrow> tool_output \<Rightarrow> bool \<Rightarrow> string + (block list option \<times> json option) option"
  ran :: "nat \<Rightarrow> tool_call \<Rightarrow> tool_output list \<times> (string + tool_output)"
  woven :: "nat \<Rightarrow> nat"
  at_once :: "nat \<Rightarrow> bool"
  clock :: "nat \<Rightarrow> int"

record agent =
  pr_api :: string
  pr_name :: string
  pr_model :: string
  system_prompt :: "string option"
  max_tool_iterations :: nat
  session_id :: "string option"
  block_images :: bool
  history :: "message list"
  queue :: message_queue
  emitted :: "agent_ev list"
  tick :: nat

text \<open>The instant passes.\<close>

definition pass :: "agent \<Rightarrow> agent" where
  "pass a = a\<lparr>tick := Suc (tick a)\<rparr>"

definition emit :: "agent_ev \<Rightarrow> agent \<Rightarrow> agent" where
  "emit e a = a\<lparr>emitted := emitted a @ [e]\<rparr>"

definition push_message :: "message \<Rightarrow> agent \<Rightarrow> agent" where
  "push_message m a = a\<lparr>history := history a @ [m]\<rparr>"

definition is_aborted :: "world \<Rightarrow> agent \<Rightarrow> bool" where
  "is_aborted w a = (case aborts_at w of None \<Rightarrow> False | Some t \<Rightarrow> t \<le> tick a)"

definition now :: "world \<Rightarrow> agent \<Rightarrow> int" where
  "now w a = clock w (tick a)"

section \<open>The context of a request\<close>

definition images_placeholder :: string where
  "images_placeholder = ''Image reading is disabled.''"

definition is_placeholder :: "block \<Rightarrow> bool" where
  "is_placeholder b = (case b of TextB t _ \<Rightarrow> t = images_placeholder | _ \<Rightarrow> False)"

definition filter_step :: "block \<Rightarrow> block list \<Rightarrow> block list" where
  "filter_step b filtered =
     (case b of
        ImageB _ _ \<Rightarrow>
          if filtered \<noteq> [] \<and> is_placeholder (last filtered) then filtered
          else filtered @ [TextB images_placeholder None]
      | _ \<Rightarrow> filtered @ [b])"

definition filter_image_blocks :: "block list \<Rightarrow> block list" where
  "filter_image_blocks bs = fold filter_step bs []"

fun filter_images_from_message :: "message \<Rightarrow> message" where
  "filter_images_from_message (User (PlainText t) ts) = User (PlainText t) ts"
| "filter_images_from_message (User (UserBlocks bs) ts) = User (UserBlocks (filter_image_blocks bs)) ts"
| "filter_images_from_message (Assistant m) = Assistant (m\<lparr>am_content := filter_image_blocks (am_content m)\<rparr>)"
| "filter_images_from_message (ToolResult r) = ToolResult (r\<lparr>tr_content := filter_image_blocks (tr_content r)\<rparr>)"
| "filter_images_from_message (Custom c) = Custom c"

definition shown :: "message \<Rightarrow> bool" where
  "shown m = (case m of Custom c \<Rightarrow> cm_display c | _ \<Rightarrow> True)"

definition build_context :: "world \<Rightarrow> agent \<Rightarrow> llm_context" where
  "build_context w a =
     \<lparr>cx_system = system_prompt a,
      cx_messages = (let ms = filter shown (history a) in if block_images a then map filter_images_from_message ms else ms),
      cx_tools = tool_defs w\<rparr>"

section \<open>The message under construction\<close>

definition build_abort_message :: "world \<Rightarrow> agent \<Rightarrow> assistant_message option \<Rightarrow> assistant_message" where
  "build_abort_message w a partial =
     (case partial of
        Some m \<Rightarrow> m
      | None \<Rightarrow>
          \<lparr>am_content = [], am_api = pr_api a, am_provider = pr_name a, am_model = pr_model a, am_usage = no_usage,
           am_stop = StopAborted, am_error = Some ''Aborted'', am_timestamp = now w a\<rparr>)
     \<lparr>am_stop := StopAborted, am_error := Some ''Aborted'', am_timestamp := now w a\<rparr>"

text \<open>\<open>messages.last()\<close>, when it is the assistant's.\<close>

definition last_assistant :: "agent \<Rightarrow> assistant_message option" where
  "last_assistant a =
     (if history a = [] then None else (case last (history a) of Assistant m \<Rightarrow> Some m | _ \<Rightarrow> None))"

definition replace_last :: "message \<Rightarrow> agent \<Rightarrow> agent" where
  "replace_last m a = a\<lparr>history := butlast (history a) @ [m]\<rparr>"

definition update_partial_message :: "assistant_message \<Rightarrow> bool \<Rightarrow> agent \<Rightarrow> agent" where
  "update_partial_message partial added a =
     (if added \<and> last_assistant a \<noteq> None then replace_last (Assistant partial) a
      else push_message (Assistant partial) a)"

definition finalize_assistant_message :: "assistant_message \<Rightarrow> bool \<Rightarrow> agent \<Rightarrow> agent" where
  "finalize_assistant_message m added a =
     emit (EvMessageEnd (Assistant m))
       (if added \<and> last_assistant a \<noteq> None then replace_last (Assistant m) a
        else emit (EvMessageStart (Assistant m)) (push_message (Assistant m) a))"

text \<open>What an event does to the content, and the update that is passed on.\<close>

definition open_block :: "nat \<Rightarrow> block \<Rightarrow> block list \<Rightarrow> block list" where
  "open_block i b bs = (if i = length bs then bs @ [b] else bs)"

definition change_block :: "nat \<Rightarrow> (block \<Rightarrow> block) \<Rightarrow> block list \<Rightarrow> block list" where
  "change_block i f bs = (if i < length bs then bs[i := f (bs ! i)] else bs)"

fun content_after :: "stream_event \<Rightarrow> block list \<Rightarrow> block list" where
  "content_after (STextStart i) bs = open_block i (TextB [] None) bs"
| "content_after (STextDelta i d) bs = change_block i (\<lambda>b. case b of TextB t s \<Rightarrow> TextB (t @ d) s | _ \<Rightarrow> b) bs"
| "content_after (STextEnd i c) bs = change_block i (\<lambda>b. case b of TextB t s \<Rightarrow> TextB c s | _ \<Rightarrow> b) bs"
| "content_after (SThinkingStart i) bs = open_block i (ThinkingB [] None) bs"
| "content_after (SThinkingDelta i d) bs =
     change_block i (\<lambda>b. case b of ThinkingB t s \<Rightarrow> ThinkingB (t @ d) s | _ \<Rightarrow> b) bs"
| "content_after (SThinkingEnd i c) bs = change_block i (\<lambda>b. case b of ThinkingB t s \<Rightarrow> ThinkingB c s | _ \<Rightarrow> b) bs"
| "content_after (SCallStart i) bs =
     open_block i (CallB \<lparr>call_id = [], call_name = [], call_args = JNull, call_signature = None\<rparr>) bs"
| "content_after (SCallEnd i c) bs = change_block i (\<lambda>b. case b of CallB _ \<Rightarrow> CallB c | _ \<Rightarrow> b) bs"
| "content_after _ bs = bs"

fun update_of :: "stream_event \<Rightarrow> assistant_message \<Rightarrow> assistant_update" where
  "update_of (STextStart i) m = UTextStart i m"
| "update_of (STextDelta i d) m = UTextDelta i d m"
| "update_of (STextEnd i c) m = UTextEnd i c m"
| "update_of (SThinkingStart i) m = UThinkingStart i m"
| "update_of (SThinkingDelta i d) m = UThinkingDelta i d m"
| "update_of (SThinkingEnd i c) m = UThinkingEnd i c m"
| "update_of (SCallStart i) m = UCallStart i m"
| "update_of (SCallDelta i d) m = UCallDelta i d m"
| "update_of (SCallEnd i c) m = UCallEnd i c m"
| "update_of (SStart p) m = UStart m"
| "update_of (SDone r f) m = UDone r m"
| "update_of (SError r f) m = UError r m"

text \<open>The arms of the events within a message, which all have this form.\<close>

definition stream_step :: "stream_event \<Rightarrow> bool \<Rightarrow> agent \<Rightarrow> agent \<times> bool" where
  "stream_step ev sent a =
     (case last_assistant a of
        None \<Rightarrow> (a, sent)
      | Some m \<Rightarrow>
          (let m' = m\<lparr>am_content := content_after ev (am_content m)\<rparr>;
               a1 = replace_last (Assistant m') a;
               a2 = (if sent then a1 else emit (EvMessageStart (Assistant m')) a1)
           in (emit (EvMessageUpdate (Assistant m') (update_of ev m')) a2, True)))"

section \<open>One answer\<close>

definition abort_stream :: "world \<Rightarrow> bool \<Rightarrow> bool \<Rightarrow> agent \<Rightarrow> agent \<times> assistant_message" where
  "abort_stream w added sent a =
     (let m = build_abort_message w a (if added then last_assistant a else None);
          a1 = (if sent then a else push_message (Assistant m) (emit (EvMessageStart (Assistant m)) a));
          a2 = emit (EvMessageUpdate (Assistant m) (UError StopAborted m)) a1
      in (finalize_assistant_message m (added \<or> \<not> sent) a2, m))"

fun stream_loop ::
  "world \<Rightarrow> (string + stream_event) list \<Rightarrow> bool \<Rightarrow> bool \<Rightarrow> agent \<Rightarrow> agent \<times> (string + assistant_message)" where
  "stream_loop w items added sent a =
     (if is_aborted w a then (case abort_stream w added sent a of (a', m) \<Rightarrow> (a', Inr m))
      else
        (case items of
           [] \<Rightarrow>
             (case (if added then last_assistant a else None) of
                Some m \<Rightarrow>
                  (let m' = m\<lparr>am_stop := StopError, am_error := Some ''Stream ended without Done event''\<rparr>
                   in (finalize_assistant_message m' True a, Inr m'))
              | None \<Rightarrow> (a, Inl ''API error: Stream ended without Done event''))
         | Inl err # _ \<Rightarrow> (a, Inl err)
         | Inr ev # rest \<Rightarrow>
             (case ev of
                SStart partial \<Rightarrow>
                  stream_loop w rest True True
                    (pass (emit (EvMessageUpdate (Assistant partial) (UStart partial))
                       (emit (EvMessageStart (Assistant partial)) (update_partial_message partial added a))))
              | SDone _ m \<Rightarrow> (finalize_assistant_message m added a, Inr m)
              | SError _ m \<Rightarrow> (finalize_assistant_message m added a, Inr m)
              | _ \<Rightarrow> (case stream_step ev sent a of (a', sent') \<Rightarrow> stream_loop w rest added sent' (pass a')))))"

declare stream_loop.simps [simp del]

definition stream_assistant_response :: "world \<Rightarrow> agent \<Rightarrow> agent \<times> (string + assistant_message)" where
  "stream_assistant_response w a =
     (case opened w (tick a) (build_context w a) of
        Inl err \<Rightarrow> (pass a, Inl err) | Inr items \<Rightarrow> stream_loop w items False False (pass a))"

section \<open>What an answer does to the history and the events\<close>

text \<open>The messages whose end was reported, and events that belong to a message.\<close>

fun ended :: "agent_ev list \<Rightarrow> message list" where
  "ended [] = []"
| "ended (EvMessageEnd m # es) = m # ended es"
| "ended (e # es) = ended es"

definition of_message :: "agent_ev \<Rightarrow> bool" where
  "of_message e = (case e of EvMessageStart _ \<Rightarrow> True | EvMessageUpdate _ _ \<Rightarrow> True | EvMessageEnd _ \<Rightarrow> True | _ \<Rightarrow> False)"

lemma ended_append [simp]: "ended (es @ es') = ended es @ ended es'"
  by (induction es rule: ended.induct) simp_all

text \<open>From one state to another, messages are appended and events sent; time, queue and nothing else
  may change.\<close>

definition setup_of :: "agent \<Rightarrow> string \<times> string \<times> string \<times> string option \<times> nat \<times> string option \<times> bool" where
  "setup_of a =
     (pr_api a, pr_name a, pr_model a, system_prompt a, max_tool_iterations a, session_id a, block_images a)"

definition moved :: "agent \<Rightarrow> agent \<Rightarrow> message list \<Rightarrow> agent_ev list \<Rightarrow> bool" where
  "moved a a' ms evs \<longleftrightarrow>
     history a' = history a @ ms \<and> emitted a' = emitted a @ evs \<and> tick a \<le> tick a' \<and> setup_of a' = setup_of a"

lemma moved_refl: "moved a a [] []"
  by (simp add: moved_def)

lemma moved_trans: "moved a b ms es \<Longrightarrow> moved b c ms' es' \<Longrightarrow> moved a c (ms @ ms') (es @ es')"
  by (simp add: moved_def)

lemma moved_emit: "moved a b ms es \<Longrightarrow> moved a (emit e b) ms (es @ [e])"
  by (simp add: moved_def emit_def setup_of_def)

lemma moved_push: "moved a b ms es \<Longrightarrow> moved a (push_message m b) (ms @ [m]) es"
  by (simp add: moved_def push_message_def setup_of_def)

lemma moved_pass: "moved a b ms es \<Longrightarrow> moved a (pass b) ms es"
  by (simp add: moved_def pass_def setup_of_def)

lemma moved_replace: "moved a b (ms @ [m]) es \<Longrightarrow> moved a (replace_last m' b) (ms @ [m']) es"
  by (simp add: moved_def replace_last_def setup_of_def butlast_append)

lemma moved_fields:
  "moved a a' ms evs \<Longrightarrow> history a' = history a @ ms \<and> emitted a' = emitted a @ evs \<and> tick a \<le> tick a' \<and>
     max_tool_iterations a' = max_tool_iterations a \<and> session_id a' = session_id a"
  by (simp add: moved_def setup_of_def)

lemma queue_simps [simp]:
  "queue (emit e a) = queue a" "queue (push_message m a) = queue a" "queue (pass a) = queue a"
  "queue (replace_last m a) = queue a"
  by (simp_all add: emit_def push_message_def pass_def replace_last_def)

text \<open>The state of a loop that began after \<open>a\<close>: a partial message at the end, once one was added.\<close>

definition streaming :: "agent \<Rightarrow> assistant_message option \<Rightarrow> agent \<Rightarrow> bool" where
  "streaming a po b \<longleftrightarrow>
     queue b = queue a \<and>
     (\<exists>evs. moved a b (case po of None \<Rightarrow> [] | Some p \<Rightarrow> [Assistant p]) evs \<and> list_all of_message evs \<and> ended evs = [])"

definition answered_with :: "agent \<Rightarrow> agent \<Rightarrow> string + assistant_message \<Rightarrow> bool" where
  "answered_with a b r \<longleftrightarrow>
     queue b = queue a \<and>
     (\<exists>ms evs. moved a b ms evs \<and> list_all of_message evs \<and>
        (case r of
           Inr m \<Rightarrow> ms = [Assistant m] \<and> ended evs = ms
         | Inl _ \<Rightarrow> (ms = [] \<or> (\<exists>p. ms = [Assistant p])) \<and> ended evs = []))"

lemma last_assistant_streaming:
  "last_assistant a = None \<Longrightarrow> streaming a po b \<Longrightarrow> last_assistant b = po"
  unfolding streaming_def last_assistant_def
  by (auto dest!: moved_fields split: option.splits if_splits)

lemma streaming_emit:
  "streaming a po b \<Longrightarrow> of_message e \<Longrightarrow> ended [e] = [] \<Longrightarrow> streaming a po (emit e b)"
  unfolding streaming_def by (force intro: moved_emit)

lemma streaming_pass: "streaming a po b \<Longrightarrow> streaming a po (pass b)"
  unfolding streaming_def by (auto intro: moved_pass)

lemma streaming_push: "streaming a None b \<Longrightarrow> streaming a (Some m) (push_message (Assistant m) b)"
  unfolding streaming_def using moved_push [of a b "[]" _ "Assistant m"] by auto

lemma streaming_replace: "streaming a (Some p) b \<Longrightarrow> streaming a (Some m) (replace_last (Assistant m) b)"
  unfolding streaming_def using moved_replace [of a b "[]" "Assistant p" _ "Assistant m"] by auto

lemmas streaming_rules = streaming_emit streaming_pass streaming_push streaming_replace

lemma finalize_answers:
  assumes "last_assistant a = None" "streaming a po b" "b' = finalize_assistant_message m (po \<noteq> None) b"
  shows "answered_with a b' (Inr m)"
proof -
  have "\<exists>c. b' = emit (EvMessageEnd (Assistant m)) c \<and> streaming a (Some m) c"
    using last_assistant_streaming [OF assms(1,2)] assms(2,3)
    by (cases po) (auto simp: finalize_assistant_message_def of_message_def intro!: streaming_rules)
  then obtain c where c: "b' = emit (EvMessageEnd (Assistant m)) c" "streaming a (Some m) c"
    by blast
  from c(2) obtain evs where "queue c = queue a" "moved a c [Assistant m] evs" "list_all of_message evs" "ended evs = []"
    unfolding streaming_def by auto
  then show ?thesis
    unfolding answered_with_def c(1)
    by (intro conjI exI [of _ "[Assistant m]"] exI [of _ "evs @ [EvMessageEnd (Assistant m)]"])
       (auto simp: of_message_def intro: moved_emit)
qed

lemma streaming_fails: "streaming a po b \<Longrightarrow> answered_with a b (Inl e)"
  unfolding streaming_def answered_with_def
  by (intro conjI exI [of _ "case po of None \<Rightarrow> [] | Some p \<Rightarrow> [Assistant p]"]) (auto split: option.splits)

lemma stream_step_streaming:
  assumes "last_assistant a = None" "streaming a po b" "stream_step ev (po \<noteq> None) b = (b', sent)"
  shows "sent = (po \<noteq> None) \<and> (\<exists>po'. streaming a po' b' \<and> (po' = None \<longleftrightarrow> po = None))"
proof (cases po)
  case None
  then show ?thesis
    using assms last_assistant_streaming [OF assms(1,2)] by (auto simp: stream_step_def)
next
  case (Some p)
  define m where "m = p\<lparr>am_content := content_after ev (am_content p)\<rparr>"
  have "streaming a (Some m) (emit (EvMessageUpdate (Assistant m) (update_of ev m)) (replace_last (Assistant m) b))"
    using assms(2) unfolding Some by (auto simp: of_message_def intro!: streaming_rules)
  then show ?thesis
    using assms(3) last_assistant_streaming [OF assms(1,2)] by (auto simp: stream_step_def Some m_def Let_def)
qed

lemma stream_start_streaming:
  "streaming a po b \<Longrightarrow>
     streaming a (Some p) (pass (emit (EvMessageUpdate (Assistant p) (UStart p))
       (emit (EvMessageStart (Assistant p)) (update_partial_message p (po \<noteq> None) b))))"
  if "last_assistant a = None"
  using last_assistant_streaming [OF that, of po b]
  by (cases po) (auto simp: update_partial_message_def of_message_def intro!: streaming_rules)

lemma abort_stream_answers:
  assumes "last_assistant a = None" "streaming a po b" "abort_stream w (po \<noteq> None) (po \<noteq> None) b = (b', m)"
  shows "answered_with a b' (Inr m)"
proof -
  define m' where "m' = build_abort_message w b po"
  have la: "last_assistant b = po"
    by (rule last_assistant_streaming [OF assms(1,2)])
  define c where "c = emit (EvMessageUpdate (Assistant m') (UError StopAborted m'))
    (if po \<noteq> None then b else push_message (Assistant m') (emit (EvMessageStart (Assistant m')) b))"
  have "streaming a (case po of None \<Rightarrow> Some m' | Some p \<Rightarrow> Some p) c"
    using assms(2) unfolding c_def by (cases po) (auto simp: of_message_def intro!: streaming_rules)
  then have "\<exists>p. streaming a (Some p) c"
    by (cases po) auto
  moreover have "b' = finalize_assistant_message m' True c" "m = m'"
    using assms(3) la by (auto simp: abort_stream_def Let_def c_def m'_def split: if_splits)
  ultimately show ?thesis
    using finalize_answers [OF assms(1), of "Some _" c b' m'] by auto
qed

lemma stream_loop_answers:
  "last_assistant a = None \<Longrightarrow> streaming a po b \<Longrightarrow> stream_loop w items (po \<noteq> None) (po \<noteq> None) b = (b', r) \<Longrightarrow>
     answered_with a b' r"
proof (induction items arbitrary: po b)
  case Nil
  then show ?case
  proof (cases "is_aborted w b")
    case True
    then show ?thesis
      using Nil abort_stream_answers by (auto simp: stream_loop.simps [of w "[]"] split: prod.splits)
  next
    case False
    show ?thesis
    proof (cases po)
      case None
      then have "b' = b" "\<exists>e. r = Inl e"
        using Nil False by (auto simp: stream_loop.simps [of w "[]"])
      then show ?thesis
        using streaming_fails [OF Nil(2)] by auto
    next
      case (Some p)
      have "last_assistant b = Some p"
        using last_assistant_streaming [OF Nil(1,2)] Some by simp
      then show ?thesis
        using Nil False Some finalize_answers [OF Nil(1,2)]
        by (auto simp: stream_loop.simps [of w "[]"] Let_def)
    qed
  qed
next
  case (Cons item rest)
  show ?case
  proof (cases "is_aborted w b")
    case True
    then show ?thesis
      using Cons abort_stream_answers by (auto simp: stream_loop.simps [of w "i # rest" for i] split: prod.splits)
  next
    case False
    show ?thesis
    proof (cases item)
      case (Inl e)
      then have "b' = b" "r = Inl e"
        using Cons False by (auto simp: stream_loop.simps [of w "i # rest" for i])
      then show ?thesis
        using streaming_fails [OF Cons(3)] by auto
    next
      case (Inr ev)
      have within: "answered_with a b' r"
        if "(case stream_step ev (po \<noteq> None) b of (c, sent) \<Rightarrow> stream_loop w rest (po \<noteq> None) sent (pass c)) = (b', r)"
      proof -
        obtain c sent where c: "stream_step ev (po \<noteq> None) b = (c, sent)"
          by fastforce
        then obtain po' where "streaming a po' (pass c)" "sent = (po' \<noteq> None)" "(po \<noteq> None) = (po' \<noteq> None)"
          using stream_step_streaming [OF Cons(2,3) c] streaming_pass by blast
        then show ?thesis
          using Cons(1) [of po' "pass c"] Cons(2) that c by simp
      qed
      show ?thesis
        using Cons(4) False Inr within stream_start_streaming [OF Cons(2,3)] Cons(1) [OF Cons(2), of "Some _"]
          finalize_answers [OF Cons(2,3)]
        by (cases ev) (auto simp: stream_loop.simps [of w "i # rest" for i])
    qed
  qed
qed

lemma stream_answers:
  assumes "last_assistant a = None" "stream_assistant_response w a = (b, r)"
  shows "answered_with a b r"
proof (cases "opened w (tick a) (build_context w a)")
  case (Inl err)
  then show ?thesis
    using assms by (auto simp: stream_assistant_response_def answered_with_def intro!: exI [of _ "[]"] moved_pass moved_refl)
next
  case (Inr items)
  have "streaming a None (pass a)"
    by (auto simp: streaming_def intro!: moved_pass moved_refl exI [of _ "[]"])
  then show ?thesis
    using stream_loop_answers [OF assms(1), of None "pass a"] assms(2) Inr by (simp add: stream_assistant_response_def)
qed

end
