(* ===== verification/Agent_Tools.thy ===== *)
theory Agent_Tools
  imports Agent_Stream
begin

text \<open>
  How the agent of \<open>patches/pi_agent_rust/src/agent.rs\<close> runs the tools an answer calls: hooks of
  extensions around a tool, calls of read-only tools together and the others one by one, messages queued
  meanwhile, and a result for every call, run or not.

  Calls that run together are cut into steps: one is started while fewer than eight run, else
  \<open>woven\<close> chooses the one that moves on, by an update or by its result. \<open>select\<close> polls the batch before
  the signal, so a step may go on in the poll of the one before (\<open>at_once\<close>). Tools return.
\<close>

section \<open>Queued messages\<close>

definition drain_queue :: "world \<Rightarrow> queue_kind \<Rightarrow> agent \<Rightarrow> agent \<times> message list" where
  "drain_queue w kind a =
     (let q = fold (\<lambda>m q. fst (push_queue (now w a) kind m q)) (fetched w kind (tick a)) (queue a)
      in case pop_queue kind q of (q', ms) \<Rightarrow> (pass (a\<lparr>queue := q'\<rparr>), ms))"

abbreviation drain_steering_messages :: "world \<Rightarrow> agent \<Rightarrow> agent \<times> message list" where
  "drain_steering_messages w \<equiv> drain_queue w Steering"

abbreviation drain_follow_up_messages :: "world \<Rightarrow> agent \<Rightarrow> agent \<times> message list" where
  "drain_follow_up_messages w \<equiv> drain_queue w FollowUp"

section \<open>One tool\<close>

definition error_output :: "string \<Rightarrow> tool_output" where
  "error_output t = \<lparr>out_content = [TextB t None], out_details = None, out_error = True\<rparr>"

definition tool_not_found_output :: "string \<Rightarrow> tool_output" where
  "tool_not_found_output name = error_output (''Error: Tool '' @ [CHR 0x27] @ name @ [CHR 0x27] @ '' not found'')"

definition tool_call_blocked_output :: "string option \<Rightarrow> tool_output" where
  "tool_call_blocked_output reason =
     error_output
       (case Option.bind (map_option trim reason) nonempty of
          None \<Rightarrow> ''Tool execution was blocked by an extension''
        | Some r \<Rightarrow> ''Tool execution blocked: '' @ r)"

definition dispatch_tool_call_hook :: "world \<Rightarrow> nat \<Rightarrow> tool_call \<Rightarrow> tool_output option" where
  "dispatch_tool_call_hook w t c =
     (case call_hook w t c of
        Inr (Some (blocked, reason)) \<Rightarrow> if blocked then Some (tool_call_blocked_output reason) else None
      | _ \<Rightarrow> None)"

text \<open>The updates a tool sends, and its result.\<close>

definition execute_tool_without_hooks :: "world \<Rightarrow> nat \<Rightarrow> tool_call \<Rightarrow> tool_output list \<times> tool_output \<times> bool" where
  "execute_tool_without_hooks w t c =
     (case read_only w (call_name c) of
        None \<Rightarrow> ([], tool_not_found_output (call_name c), True)
      | Some _ \<Rightarrow>
          (case ran w t c of (us, r) \<Rightarrow>
             (map (\<lambda>u. u\<lparr>out_error := False\<rparr>) us,
              (case r of Inr out \<Rightarrow> (out, out_error out) | Inl e \<Rightarrow> (error_output (''Error: '' @ e), True)))))"

definition start_tool :: "world \<Rightarrow> nat \<Rightarrow> tool_call \<Rightarrow> tool_output list \<times> tool_output \<times> bool" where
  "start_tool w t c =
     (case (if extended w then dispatch_tool_call_hook w t c else None) of
        Some out \<Rightarrow> ([], out, True)
      | None \<Rightarrow> execute_tool_without_hooks w t c)"

definition apply_tool_result_hook :: "world \<Rightarrow> nat \<Rightarrow> tool_call \<Rightarrow> tool_output \<times> bool \<Rightarrow> tool_output \<times> bool" where
  "apply_tool_result_hook w t c r =
     (case r of (out, err) \<Rightarrow>
        (case (if extended w then result_hook w t c out err else Inr None) of
           Inr (Some (content, details)) \<Rightarrow>
             (out\<lparr>out_content := case_option (out_content out) id content,
                  out_details := case_option (out_details out) Some details\<rparr>, err)
         | _ \<Rightarrow> (out, err)))"

definition tool_update :: "tool_call \<Rightarrow> tool_output \<Rightarrow> agent_ev" where
  "tool_update c out = EvToolUpdate (call_id c) (call_name c) (call_args c) out"

definition execute_tool :: "world \<Rightarrow> tool_call \<Rightarrow> agent \<Rightarrow> agent \<times> tool_output \<times> bool" where
  "execute_tool w c a =
     (case start_tool w (tick a) c of (us, raw) \<Rightarrow>
        (let a1 = pass (fold (\<lambda>u. emit (tool_update c u)) us a)
         in (pass a1, apply_tool_result_hook w (tick a1) c raw)))"

section \<open>Tools together\<close>

definition MAX_CONCURRENT_TOOLS :: nat where
  "MAX_CONCURRENT_TOOLS = 8"

record running =
  run_index :: nat
  run_call :: tool_call
  run_updates :: "tool_output list"
  run_raw :: "tool_output \<times> bool"

definition start_running :: "world \<Rightarrow> nat \<Rightarrow> nat \<times> tool_call \<Rightarrow> running" where
  "start_running w t ic =
     (case start_tool w t (snd ic) of (us, raw) \<Rightarrow>
        \<lparr>run_index = fst ic, run_call = snd ic, run_updates = us, run_raw = raw\<rparr>)"

definition without :: "nat \<Rightarrow> 'a list \<Rightarrow> 'a list" where
  "without i xs = take i xs @ drop (Suc i) xs"

lemma sum_list_without: "i < length xs \<Longrightarrow> sum_list (map f (without i xs)) + f (xs ! i) = (sum_list (map f xs) :: nat)"
  using arg_cong [OF id_take_nth_drop [of i xs], of "\<lambda>l. sum_list (map f l)"] by (simp add: without_def)

lemma sum_list_change:
  "i < length xs \<Longrightarrow> sum_list (map f (xs[i := y])) + f (xs ! i) = (sum_list (map f xs) + f y :: nat)"
  using arg_cong [OF id_take_nth_drop [of i xs], of "\<lambda>l. sum_list (map f l)"] by (simp add: upd_conv_take_nth_drop)

function batch_loop ::
  "world \<Rightarrow> (nat \<times> tool_call) list \<Rightarrow> running list \<Rightarrow> (nat \<times> tool_output \<times> bool) list \<Rightarrow> agent \<Rightarrow>
     agent \<times> (nat \<times> tool_output \<times> bool) list" where
  "batch_loop w wait pool done_ones a =
     (if wait = [] \<and> pool = [] then (a, done_ones)
      else if is_aborted w a \<and> \<not> at_once w (tick a) then (a, [])
      else if wait \<noteq> [] \<and> length pool < MAX_CONCURRENT_TOOLS then
        batch_loop w (tl wait) (pool @ [start_running w (tick a) (hd wait)]) done_ones (pass a)
      else
        (let i = woven w (tick a) mod length pool; r = pool ! i
         in case run_updates r of
              u # us \<Rightarrow> batch_loop w wait (pool[i := r\<lparr>run_updates := us\<rparr>]) done_ones (pass (emit (tool_update (run_call r) u) a))
            | [] \<Rightarrow>
                batch_loop w wait (without i pool)
                  (done_ones @ [(run_index r, apply_tool_result_hook w (tick a) (run_call r) (run_raw r))]) (pass a)))"
  by pat_completeness auto

definition left_to_do :: "running list \<Rightarrow> nat" where
  "left_to_do pool = sum_list (map (\<lambda>r. Suc (length (run_updates r))) pool)"

lemma left_to_do_update:
  "i < length pool \<Longrightarrow> run_updates (pool ! i) = u # us \<Longrightarrow>
     left_to_do (pool[i := (pool ! i)\<lparr>run_updates := us\<rparr>]) < left_to_do pool"
  using sum_list_change [of i pool "\<lambda>r. Suc (length (run_updates r))" "(pool ! i)\<lparr>run_updates := us\<rparr>"]
  by (simp add: left_to_do_def)

lemma left_to_do_without: "i < length pool \<Longrightarrow> left_to_do (without i pool) < left_to_do pool"
  using sum_list_without [of i pool "\<lambda>r. Suc (length (run_updates r))"] by (simp add: left_to_do_def)

termination batch_loop
  by (relation "measures [\<lambda>(w, wait, pool, rs, a). length wait, \<lambda>(w, wait, pool, rs, a). left_to_do pool]")
     (auto simp: MAX_CONCURRENT_TOOLS_def intro!: left_to_do_update left_to_do_without mod_less_divisor)

declare batch_loop.simps [simp del]

definition execute_parallel_batch :: "world \<Rightarrow> (nat \<times> tool_call) list \<Rightarrow> agent \<Rightarrow> agent \<times> (nat \<times> tool_output \<times> bool) list" where
  "execute_parallel_batch w batch a = batch_loop w batch [] [] a"

section \<open>All calls of an answer\<close>

type_synonym outputs = "(tool_output \<times> bool) option list"

definition store_results :: "(nat \<times> tool_output \<times> bool) list \<Rightarrow> outputs \<Rightarrow> outputs" where
  "store_results rs outs = fold (\<lambda>(i, r) os. os[i := Some r]) rs outs"

definition flush_parallel :: "world \<Rightarrow> (nat \<times> tool_call) list \<Rightarrow> outputs \<Rightarrow> agent \<Rightarrow> agent \<times> outputs" where
  "flush_parallel w batch outs a =
     (if batch = [] then (a, outs)
      else (case execute_parallel_batch w batch a of (a', rs) \<Rightarrow> (a', store_results rs outs)))"

text \<open>The second phase up to its last flush: the calls still buffered, the outputs and what was queued.\<close>

fun run_calls ::
  "world \<Rightarrow> tool_call list \<Rightarrow> nat \<Rightarrow> (nat \<times> tool_call) list \<Rightarrow> outputs \<Rightarrow> agent \<Rightarrow>
     agent \<times> (nat \<times> tool_call) list \<times> outputs \<times> message list option" where
  "run_calls w [] i pending outs a = (a, pending, outs, None)"
| "run_calls w (c # cs) i pending outs a =
     (if is_aborted w a then (a, pending, outs, None)
      else if read_only w (call_name c) = Some True then run_calls w cs (Suc i) (pending @ [(i, c)]) outs a
      else
        (case drain_steering_messages w a of (a1, s1) \<Rightarrow>
           if s1 \<noteq> [] then (a1, pending, outs, Some s1)
           else
             (case flush_parallel w pending outs a1 of (a2, outs2) \<Rightarrow>
                if is_aborted w a2 then (a2, [], outs2, None)
                else
                  (case drain_steering_messages w a2 of (a3, s3) \<Rightarrow>
                     if s3 \<noteq> [] then (a3, [], outs2, Some s3)
                     else
                       (case execute_tool w c a3 of (a4, r) \<Rightarrow>
                          run_calls w cs (Suc i) [] (outs2[i := Some r]) a4)))))"

definition flush_rest ::
  "world \<Rightarrow> agent \<times> (nat \<times> tool_call) list \<times> outputs \<times> message list option \<Rightarrow> agent \<times> outputs \<times> message list option" where
  "flush_rest w st =
     (case st of (a, pending, outs, steering) \<Rightarrow>
        if pending \<noteq> [] \<and> \<not> is_aborted w a \<and> steering = None then
          (case drain_steering_messages w a of (a1, s) \<Rightarrow>
             if s = [] then (case flush_parallel w pending outs a1 of (a2, outs2) \<Rightarrow> (a2, outs2, None))
             else (a1, outs, Some s))
        else (a, outs, steering))"

text \<open>A result is reported and joins the history and the new messages.\<close>

definition give_result ::
  "world \<Rightarrow> tool_call \<Rightarrow> tool_output \<Rightarrow> bool \<Rightarrow> agent \<times> message list \<Rightarrow> (agent \<times> message list) \<times> tool_result_message" where
  "give_result w c out err st =
     (case st of (a, new) \<Rightarrow>
        (let r = \<lparr>tr_call_id = call_id c, tr_tool_name = call_name c, tr_content = out_content out,
                  tr_details = out_details out, tr_is_error = err, tr_timestamp = now w a\<rparr>;
             a1 = emit (EvToolEnd (call_id c) (call_name c) (out\<lparr>out_error := err\<rparr>) err) a;
             a2 = emit (EvMessageStart (ToolResult r)) (push_message (ToolResult r) a1)
         in ((emit (EvMessageEnd (ToolResult r)) a2, new @ [ToolResult r]), r)))"

text \<open>A call that did not run: the end is preceded by an update.\<close>

definition refuse_call ::
  "world \<Rightarrow> string \<Rightarrow> tool_call \<Rightarrow> agent \<times> message list \<Rightarrow> (agent \<times> message list) \<times> tool_result_message" where
  "refuse_call w why c st =
     (case st of (a, new) \<Rightarrow>
        give_result w c (error_output why) True (emit (tool_update c (error_output why)) a, new))"

definition skip_tool_call ::
  "world \<Rightarrow> tool_call \<Rightarrow> agent \<times> message list \<Rightarrow> (agent \<times> message list) \<times> tool_result_message" where
  "skip_tool_call w c st = refuse_call w ''Skipped due to queued user message.'' c st"

definition settle_call ::
  "world \<Rightarrow> tool_call \<Rightarrow> (tool_output \<times> bool) option \<Rightarrow> message list option \<Rightarrow> agent \<times> message list \<Rightarrow>
     (agent \<times> message list) \<times> tool_result_message" where
  "settle_call w c slot steering st =
     (case slot of
        Some (out, err) \<Rightarrow> give_result w c out err st
      | None \<Rightarrow>
          (case steering of
             Some _ \<Rightarrow> skip_tool_call w c st
           | None \<Rightarrow> refuse_call w ''Tool execution aborted'' c st))"

definition late_steering :: "world \<Rightarrow> message list option \<Rightarrow> agent \<Rightarrow> agent \<times> message list option" where
  "late_steering w steering a =
     (if steering = None \<and> \<not> is_aborted w a then
        (case drain_steering_messages w a of (a1, s) \<Rightarrow> (a1, if s = [] then None else Some s))
      else (a, steering))"

fun settle_calls ::
  "world \<Rightarrow> (tool_call \<times> (tool_output \<times> bool) option) list \<Rightarrow> message list option \<Rightarrow> agent \<times> message list \<Rightarrow>
     (agent \<times> message list) \<times> tool_result_message list \<times> message list option" where
  "settle_calls w [] steering st = (st, [], steering)"
| "settle_calls w ((c, slot) # cs) steering st =
     (case late_steering w steering (fst st) of (a1, steering1) \<Rightarrow>
        (case settle_call w c slot steering1 (a1, snd st) of (st2, r) \<Rightarrow>
           (case settle_calls w cs steering1 st2 of (st3, rs, steering3) \<Rightarrow> (st3, r # rs, steering3))))"

definition execute_tool_calls ::
  "world \<Rightarrow> tool_call list \<Rightarrow> agent \<times> message list \<Rightarrow>
     (agent \<times> message list) \<times> tool_result_message list \<times> message list option" where
  "execute_tool_calls w calls st =
     (case st of (a, new) \<Rightarrow>
        (let a0 = fold (\<lambda>c. emit (EvToolStart (call_id c) (call_name c) (call_args c))) calls a
         in case flush_rest w (run_calls w calls 0 [] (replicate (length calls) None) a0) of
              (a1, outs, steering) \<Rightarrow> settle_calls w (zip calls outs) steering (a1, new)))"

end
