(* ===== verification/Agent_Answers.thy ===== *)
theory Agent_Answers
  imports Agent_Tools
begin

text \<open>
  What the tools of \<open>Agent_Tools\<close> do to the agent: which messages leave the queue and when, that a result
  stored for a call is that of a run of this call, and that every call is started, ended and answered
  once, in order.
\<close>

section \<open>What the calls of an answer do\<close>

text \<open>From one state to another: the messages of a kind that left the queue, first those that waited and
  then those fetched at successive instants.\<close>

definition drained :: "world \<Rightarrow> queue_kind \<Rightarrow> agent \<Rightarrow> agent \<Rightarrow> message list \<Rightarrow> bool" where
  "drained w kind a a' ms \<longleftrightarrow>
     (\<exists>ts. sorted_wrt (<) ts \<and> (\<forall>t \<in> set ts. tick a \<le> t \<and> t < tick a') \<and>
        waiting kind (queue a) @ concat (map (fetched w kind) ts) = ms @ waiting kind (queue a'))"

definition stepped ::
  "world \<Rightarrow> agent \<Rightarrow> agent \<Rightarrow> message list \<Rightarrow> agent_ev list \<Rightarrow> message list \<Rightarrow> message list \<Rightarrow> bool" where
  "stepped w a a' ms evs ss fs \<longleftrightarrow> moved a a' ms evs \<and> drained w Steering a a' ss \<and> drained w FollowUp a a' fs"

lemma drained_same: "queue a' = queue a \<Longrightarrow> drained w kind a a' []"
  unfolding drained_def by (auto intro: exI [of _ "[]"])

lemma drained_trans:
  assumes "drained w kind a b ms" "drained w kind b c ms'" "tick a \<le> tick b" "tick b \<le> tick c"
  shows "drained w kind a c (ms @ ms')"
proof -
  obtain ts ts' where "sorted_wrt (<) ts" "\<forall>t \<in> set ts. tick a \<le> t \<and> t < tick b"
    "waiting kind (queue a) @ concat (map (fetched w kind) ts) = ms @ waiting kind (queue b)"
    "sorted_wrt (<) ts'" "\<forall>t \<in> set ts'. tick b \<le> t \<and> t < tick c"
    "waiting kind (queue b) @ concat (map (fetched w kind) ts') = ms' @ waiting kind (queue c)"
    using assms(1,2) unfolding drained_def by blast
  note t = this
  have "waiting kind (queue a) @ concat (map (fetched w kind) (ts @ ts')) = (ms @ ms') @ waiting kind (queue c)"
    using t(6) by (simp add: t(3) [symmetric, THEN sym] flip: append_assoc) (simp add: t(3))
  moreover have "sorted_wrt (<) (ts @ ts')" "\<forall>t \<in> set (ts @ ts'). tick a \<le> t \<and> t < tick c"
    using t assms(3,4) by (fastforce simp: sorted_wrt_append)+
  ultimately show ?thesis
    unfolding drained_def by blast
qed

lemma stepped_same: "moved a a' ms evs \<Longrightarrow> queue a' = queue a \<Longrightarrow> stepped w a a' ms evs [] []"
  by (simp add: stepped_def drained_same)

lemma stepped_trans:
  "stepped w a b ms es ss fs \<Longrightarrow> stepped w b c ms' es' ss' fs' \<Longrightarrow> stepped w a c (ms @ ms') (es @ es') (ss @ ss') (fs @ fs')"
  unfolding stepped_def using moved_fields [of a b ms es] moved_fields [of b c ms' es']
  by (auto intro: moved_trans drained_trans)

lemma waiting_push_all:
  "waiting k (fold (\<lambda>m q. fst (push_queue n kind m q)) ms q) = waiting k q @ (if k = kind then ms else [])"
  by (induction ms arbitrary: q) (simp_all add: waiting_push)

lemma drain_steps:
  assumes "drain_queue w kind a = (a', ms)"
  shows "stepped w a a' [] [] (if kind = Steering then ms else []) (if kind = FollowUp then ms else []) \<and>
    (ms = [] \<longrightarrow> waiting kind (queue a') = []) \<and> tick a < tick a' \<and> (\<forall>k. k \<noteq> kind \<longrightarrow> waiting k (queue a') = waiting k (queue a))"
proof -
  define q where "q = fold (\<lambda>m q. fst (push_queue (now w a) kind m q)) (fetched w kind (tick a)) (queue a)"
  obtain q' where q': "pop_queue kind q = (q', ms)" "a' = pass (a\<lparr>queue := q'\<rparr>)"
    using assms by (auto simp: drain_queue_def q_def split: prod.splits)
  have w: "waiting k q = waiting k (queue a) @ (if k = kind then fetched w kind (tick a) else [])" for k
    unfolding q_def by (rule waiting_push_all)
  have "drained w kind a a' ms"
    unfolding drained_def using waiting_pop [OF q'(1)] w [of kind] q'(2)
    by (intro exI [of _ "[tick a]"]) (simp add: pass_def)
  moreover have "waiting k (queue a') = waiting k (queue a)" if "k \<noteq> kind" for k
    using waiting_pop [OF q'(1), of k] w [of k] q'(2) that by simp
  moreover from this have "drained w k a a' []" if "k \<noteq> kind" for k
    using that unfolding drained_def by (intro exI [of _ "[]"]) simp
  moreover have "moved a a' [] []" "tick a < tick a'" "ms = [] \<longrightarrow> waiting kind (queue a') = []"
    using q'(2) waiting_pop [OF q'(1), of kind] by (auto simp: moved_def pass_def setup_of_def)
  ultimately show ?thesis
    by (cases kind) (auto simp: stepped_def)
qed

text \<open>Events of tools; a run of updates.\<close>

fun tool_starts :: "agent_ev list \<Rightarrow> string list" where
  "tool_starts [] = []"
| "tool_starts (EvToolStart i _ _ # es) = i # tool_starts es"
| "tool_starts (_ # es) = tool_starts es"

fun tool_ends :: "agent_ev list \<Rightarrow> string list" where
  "tool_ends [] = []"
| "tool_ends (EvToolEnd i _ _ _ # es) = i # tool_ends es"
| "tool_ends (_ # es) = tool_ends es"

definition inner :: "agent_ev \<Rightarrow> bool" where
  "inner e =
     (case e of
        EvAgentStart _ \<Rightarrow> False | EvAgentEnd _ _ _ \<Rightarrow> False | EvTurnStart _ _ _ \<Rightarrow> False | EvTurnEnd _ _ _ _ \<Rightarrow> False
      | _ \<Rightarrow> True)"

definition updates :: "agent_ev list \<Rightarrow> bool" where
  "updates es = list_all (\<lambda>e. case e of EvToolUpdate _ _ _ _ \<Rightarrow> True | _ \<Rightarrow> False) es"

lemma tool_starts_append [simp]: "tool_starts (es @ es') = tool_starts es @ tool_starts es'"
  by (induction es rule: tool_starts.induct) simp_all

lemma tool_ends_append [simp]: "tool_ends (es @ es') = tool_ends es @ tool_ends es'"
  by (induction es rule: tool_ends.induct) simp_all

lemma updates_simps [simp]: "updates []" "updates (es @ es') \<longleftrightarrow> updates es \<and> updates es'" "updates [tool_update c u]"
  by (simp_all add: updates_def tool_update_def)

lemma updates_quiet: "updates es \<Longrightarrow> ended es = [] \<and> tool_starts es = [] \<and> tool_ends es = [] \<and> list_all inner es"
  by (induction es) (auto simp: updates_def inner_def split: agent_ev.splits)

lemma of_message_inner: "list_all of_message es \<Longrightarrow> list_all inner es \<and> tool_starts es = [] \<and> tool_ends es = []"
  by (induction es) (auto simp: of_message_def inner_def split: agent_ev.splits)

text \<open>The output a run of a call gave.\<close>

definition produced :: "world \<Rightarrow> tool_call \<Rightarrow> tool_output \<times> bool \<Rightarrow> bool" where
  "produced w c r \<longleftrightarrow> (\<exists>t t'. t \<le> t' \<and> r = apply_tool_result_hook w t' c (snd (start_tool w t c)))"

definition updated :: "world \<Rightarrow> agent \<Rightarrow> agent \<Rightarrow> bool" where
  "updated w a a' \<longleftrightarrow> queue a' = queue a \<and> (\<exists>es. moved a a' [] es \<and> updates es)"

lemma updated_refl: "updated w a a"
  by (auto simp: updated_def intro: moved_refl exI [of _ "[]"])

lemma updated_trans: "updated w a b \<Longrightarrow> updated w b c \<Longrightarrow> updated w a c"
  unfolding updated_def using moved_trans [of a b "[]" _ c "[]"] by fastforce

lemma updated_pass: "updated w a b \<Longrightarrow> updated w a (pass b)"
  by (auto simp: updated_def intro: moved_pass)

lemma updated_emit: "updated w a b \<Longrightarrow> updated w a (emit (tool_update c u) b)"
  unfolding updated_def by (force intro: moved_emit)

lemma updated_emits: "updated w a b \<Longrightarrow> updated w a (fold (\<lambda>u. emit (tool_update c u)) us b)"
  by (induction us arbitrary: b) (auto intro: updated_emit)

lemma execute_tool_runs:
  assumes "execute_tool w c a = (a', r)"
  shows "updated w a a' \<and> produced w c r"
proof -
  obtain us raw where raw: "start_tool w (tick a) c = (us, raw)"
    by (rule prod.exhaust)
  define a1 where "a1 = pass (fold (\<lambda>u. emit (tool_update c u)) us a)"
  have "updated w a a1"
    unfolding a1_def by (intro updated_pass updated_emits updated_refl)
  moreover have "a' = pass a1" "r = apply_tool_result_hook w (tick a1) c raw"
    using assms raw by (simp_all add: execute_tool_def a1_def Let_def)
  ultimately show ?thesis
    using raw unfolding produced_def by (metis moved_fields snd_conv updated_def updated_pass)
qed

text \<open>The calls that run together: each result is that of a run of its call, and unless the batch was
  aborted every call has one.\<close>

definition run_ok :: "world \<Rightarrow> (nat \<rightharpoonup> tool_call) \<Rightarrow> nat \<Rightarrow> running \<Rightarrow> bool" where
  "run_ok w calls now_tick r \<longleftrightarrow>
     calls (run_index r) = Some (run_call r) \<and> (\<exists>t \<le> now_tick. run_raw r = snd (start_tool w t (run_call r)))"

definition batch_ok :: "world \<Rightarrow> (nat \<rightharpoonup> tool_call) \<Rightarrow> running list \<Rightarrow> (nat \<times> tool_output \<times> bool) list \<Rightarrow> nat \<Rightarrow> bool" where
  "batch_ok w calls pool rs now_tick \<longleftrightarrow>
     (\<forall>r \<in> set pool. run_ok w calls now_tick r) \<and> (\<forall>(i, r) \<in> set rs. \<exists>c. calls i = Some c \<and> produced w c r)"

lemma run_ok_update [simp]: "run_ok w calls t (r\<lparr>run_updates := us\<rparr>) = run_ok w calls t r"
  by (simp add: run_ok_def)

definition batch_indices :: "(nat \<times> tool_call) list \<Rightarrow> running list \<Rightarrow> (nat \<times> tool_output \<times> bool) list \<Rightarrow> nat set" where
  "batch_indices wait pool rs = fst ` set wait \<union> run_index ` set pool \<union> fst ` set rs"

lemma batch_ok_later: "batch_ok w calls pool rs t \<Longrightarrow> t \<le> t' \<Longrightarrow> batch_ok w calls pool rs t'"
  unfolding batch_ok_def run_ok_def by (meson order_trans)

lemma set_without: "i < length xs \<Longrightarrow> set xs = insert (xs ! i) (set (without i xs))"
  using arg_cong [OF id_take_nth_drop [of i xs], of set] by (auto simp: without_def)

lemma map_change: "i < length xs \<Longrightarrow> f y = f (xs ! i) \<Longrightarrow> map f (xs[i := y]) = map f xs"
  by (auto intro: nth_equalityI simp: nth_list_update)

lemma batch_runs:
  "batch_loop w wait pool rs a = (a', rs') \<Longrightarrow> batch_ok w calls pool rs (tick a) \<Longrightarrow>
     (\<forall>(i, c) \<in> set wait. calls i = Some c) \<Longrightarrow>
     updated w a a' \<and> batch_ok w calls [] rs' (tick a') \<and>
     (aborts_at w = None \<longrightarrow> fst ` set rs' = batch_indices wait pool rs)"
proof (induction w wait pool rs a rule: batch_loop.induct)
  case (1 w wait pool rs a)
  consider (finished) "wait = []" "pool = []"
    | (aborted) "\<not> (wait = [] \<and> pool = [])" "is_aborted w a \<and> \<not> at_once w (tick a)"
    | (start) "\<not> (wait = [] \<and> pool = [])" "\<not> (is_aborted w a \<and> \<not> at_once w (tick a))"
        "wait \<noteq> [] \<and> length pool < MAX_CONCURRENT_TOOLS"
    | (go) "\<not> (wait = [] \<and> pool = [])" "\<not> (is_aborted w a \<and> \<not> at_once w (tick a))"
        "\<not> (wait \<noteq> [] \<and> length pool < MAX_CONCURRENT_TOOLS)"
    by blast
  then show ?case
  proof cases
    case finished
    then show ?thesis
      using 1(4,5) by (auto simp: batch_loop.simps [of w "[]" "[]"] updated_refl batch_indices_def)
  next
    case aborted
    then have "a' = a" "rs' = []" "aborts_at w \<noteq> None"
      using 1(4) by (auto simp: batch_loop.simps [of w wait pool rs a] is_aborted_def split: option.splits)
    then show ?thesis
      by (auto simp: updated_refl batch_ok_def)
  next
    case start
    define r where "r = start_running w (tick a) (hd wait)"
    obtain i c rest where wait: "wait = (i, c) # rest"
      using start(3) by (cases wait) auto
    have r: "run_index r = i" "run_call r = c" "run_raw r = snd (start_tool w (tick a) c)"
      by (simp_all add: r_def start_running_def wait split: prod.splits)
    have "batch_loop w rest (pool @ [r]) rs (pass a) = (a', rs')"
      using 1(4) start by (simp add: batch_loop.simps [of w "(i, c) # rest"] r_def wait)
    moreover have "batch_ok w calls (pool @ [r]) rs (tick a)"
      using 1(5,6) r unfolding batch_ok_def run_ok_def wait by auto
    then have "batch_ok w calls (pool @ [r]) rs (tick (pass a))"
      by (rule batch_ok_later) (simp add: pass_def)
    ultimately have "updated w (pass a) a' \<and> batch_ok w calls [] rs' (tick a') \<and>
      (aborts_at w = None \<longrightarrow> fst ` set rs' = batch_indices rest (pool @ [r]) rs)"
      using 1(1) [OF start] 1(6) by (simp add: wait r_def)
    moreover have "batch_indices rest (pool @ [r]) rs = batch_indices wait pool rs"
      using r by (auto simp: batch_indices_def wait)
    ultimately show ?thesis
      using updated_trans [OF updated_pass [OF updated_refl]] by auto
  next
    case go
    define i where "i = woven w (tick a) mod length pool"
    have i: "i < length pool"
      using go(1,3) by (auto simp: i_def MAX_CONCURRENT_TOOLS_def intro!: mod_less_divisor)
    have mem: "pool ! i \<in> set pool"
      using i by simp
    show ?thesis
    proof (cases "run_updates (pool ! i)")
      case Nil
      define r where "r = apply_tool_result_hook w (tick a) (run_call (pool ! i)) (run_raw (pool ! i))"
      have "batch_loop w wait (without i pool) (rs @ [(run_index (pool ! i), r)]) (pass a) = (a', rs')"
        using 1(4) go Nil by (simp add: batch_loop.simps [of w wait pool rs a] i_def [symmetric] r_def Let_def)
      moreover have "produced w (run_call (pool ! i)) r" "calls (run_index (pool ! i)) = Some (run_call (pool ! i))"
        using 1(5) mem unfolding batch_ok_def run_ok_def produced_def r_def by fastforce+
      then have "batch_ok w calls (without i pool) (rs @ [(run_index (pool ! i), r)]) (tick a)"
        using 1(5) set_without [OF i] unfolding batch_ok_def by auto
      then have "batch_ok w calls (without i pool) (rs @ [(run_index (pool ! i), r)]) (tick (pass a))"
        by (rule batch_ok_later) (simp add: pass_def)
      ultimately have "updated w (pass a) a' \<and> batch_ok w calls [] rs' (tick a') \<and>
        (aborts_at w = None \<longrightarrow> fst ` set rs' = batch_indices wait (without i pool) (rs @ [(run_index (pool ! i), r)]))"
        using 1(2) [OF go i_def refl Nil] 1(6) by (simp add: r_def)
      moreover have "batch_indices wait (without i pool) (rs @ [(run_index (pool ! i), r)]) = batch_indices wait pool rs"
        using set_without [OF i] by (auto simp: batch_indices_def)
      ultimately show ?thesis
        using updated_trans [OF updated_pass [OF updated_refl]] by auto
    next
      case (Cons u us)
      define b where "b = pass (emit (tool_update (run_call (pool ! i)) u) a)"
      define pool' where "pool' = pool[i := (pool ! i)\<lparr>run_updates := us\<rparr>]"
      have "batch_loop w wait pool' rs b = (a', rs')"
        using 1(4) go Cons by (simp add: batch_loop.simps [of w wait pool rs a] i_def [symmetric] b_def pool'_def Let_def)
      moreover have "set pool' \<subseteq> insert ((pool ! i)\<lparr>run_updates := us\<rparr>) (set pool)"
        unfolding pool'_def by (rule set_update_subset_insert)
      then have "batch_ok w calls pool' rs (tick a)"
        using 1(5) mem unfolding batch_ok_def by auto
      then have "batch_ok w calls pool' rs (tick b)"
        by (rule batch_ok_later) (simp add: b_def pass_def emit_def)
      ultimately have "updated w b a' \<and> batch_ok w calls [] rs' (tick a') \<and>
        (aborts_at w = None \<longrightarrow> fst ` set rs' = batch_indices wait pool' rs)"
        using 1(3) [OF go i_def refl Cons] 1(6) by (simp add: b_def pool'_def)
      moreover have "map run_index pool' = map run_index pool"
        unfolding pool'_def by (rule map_change [OF i]) simp
      then have "batch_indices wait pool' rs = batch_indices wait pool rs"
        unfolding batch_indices_def by (metis list.set_map)
      moreover have "updated w a b"
        unfolding b_def by (intro updated_pass updated_emit updated_refl)
      ultimately show ?thesis
        using updated_trans [of w a b a'] by auto
    qed
  qed
qed

text \<open>Steps that only send updates and may take steering messages.\<close>

definition worked :: "world \<Rightarrow> agent \<Rightarrow> agent \<Rightarrow> message list \<Rightarrow> bool" where
  "worked w a a' ss \<longleftrightarrow> (\<exists>es. stepped w a a' [] es ss [] \<and> updates es)"

lemma worked_updated: "updated w a a' \<Longrightarrow> worked w a a' []"
  by (auto simp: updated_def worked_def intro: stepped_same)

lemma worked_refl: "worked w a a []"
  by (intro worked_updated updated_refl)

lemma worked_drain: "drain_steering_messages w a = (a', ms) \<Longrightarrow> worked w a a' ms"
  using drain_steps [of w Steering a a' ms] by (auto simp: worked_def intro!: exI [of _ "[]"])

lemma worked_trans: "worked w a b ss \<Longrightarrow> worked w b c ss' \<Longrightarrow> worked w a c (ss @ ss')"
  unfolding worked_def using stepped_trans [of w a b "[]" _ ss "[]" c "[]" _ ss' "[]"] by fastforce

lemma worked_quiet: "worked w a b [] \<Longrightarrow> worked w b c ss \<Longrightarrow> worked w a c ss"
  using worked_trans [of w a b "[]"] by simp

definition outs_ok :: "world \<Rightarrow> tool_call list \<Rightarrow> outputs \<Rightarrow> bool" where
  "outs_ok w calls outs \<longleftrightarrow>
     length outs = length calls \<and> (\<forall>i < length calls. \<forall>r. outs ! i = Some r \<longrightarrow> produced w (calls ! i) r)"

definition pending_ok :: "tool_call list \<Rightarrow> (nat \<times> tool_call) list \<Rightarrow> bool" where
  "pending_ok calls pending \<longleftrightarrow> (\<forall>(j, c) \<in> set pending. j < length calls \<and> c = calls ! j)"

definition covered :: "nat \<Rightarrow> (nat \<times> tool_call) list \<Rightarrow> outputs \<Rightarrow> bool" where
  "covered n pending outs \<longleftrightarrow> (\<forall>j < n. outs ! j \<noteq> None \<or> j \<in> fst ` set pending)"

lemma store_results_Cons: "store_results ((i, r) # rs) outs = store_results rs (outs[i := Some r])"
  by (simp add: store_results_def)

lemma store_results_nth:
  "length (store_results rs outs) = length outs \<and>
   (j < length outs \<longrightarrow> store_results rs outs ! j = Some r \<longrightarrow> outs ! j = Some r \<or> (j, r) \<in> set rs) \<and>
   (j < length outs \<longrightarrow> outs ! j \<noteq> None \<or> j \<in> fst ` set rs \<longrightarrow> store_results rs outs ! j \<noteq> None)"
proof (induction rs arbitrary: outs)
  case Nil
  then show ?case
    by (simp add: store_results_def)
next
  case (Cons x rs)
  obtain i v where x: "x = (i, v)"
    by (rule prod.exhaust)
  show ?case
    using Cons [of "outs[i := Some v]"] unfolding x store_results_Cons
    by (cases "j = i") (auto simp: nth_list_update)
qed

lemma outs_ok_update: "outs_ok w calls outs \<Longrightarrow> produced w (calls ! i) r \<Longrightarrow> outs_ok w calls (outs[i := Some r])"
  by (cases "i < length outs") (simp_all add: outs_ok_def nth_list_update del: split_paired_All)

lemma flush_parallel_runs:
  assumes "flush_parallel w pending outs a = (a', outs')" "outs_ok w calls outs" "pending_ok calls pending"
  shows "updated w a a' \<and> outs_ok w calls outs' \<and>
    (aborts_at w = None \<longrightarrow> n \<le> length calls \<longrightarrow> covered n pending outs \<longrightarrow> covered n [] outs')"
proof (cases "pending = []")
  case True
  then show ?thesis
    using assms by (auto simp: flush_parallel_def updated_refl)
next
  case False
  define f where "f = (\<lambda>j. if j < length calls then Some (calls ! j) else None)"
  obtain rs where rs: "batch_loop w pending [] [] a = (a', rs)" "outs' = store_results rs outs"
    using assms(1) False by (auto simp: flush_parallel_def execute_parallel_batch_def split: prod.splits)
  have "updated w a a' \<and> batch_ok w f [] rs (tick a') \<and> (aborts_at w = None \<longrightarrow> fst ` set rs = fst ` set pending)"
  proof -
    have "\<forall>(i, c) \<in> set pending. f i = Some c"
      using assms(3) by (auto simp: pending_ok_def f_def)
    then show ?thesis
      using batch_runs [OF rs(1), of f] by (simp add: batch_ok_def batch_indices_def)
  qed
  note b = this
  have "outs_ok w calls outs'"
    unfolding outs_ok_def
  proof (intro conjI allI impI)
    show "length outs' = length calls"
      using store_results_nth [of rs outs] assms(2) rs(2) by (simp add: outs_ok_def)
    fix j r
    assume j: "j < length calls" "outs' ! j = Some r"
    then have "outs ! j = Some r \<or> (j, r) \<in> set rs"
      using store_results_nth [of rs outs j r] assms(2) rs(2) by (simp add: outs_ok_def)
    then show "produced w (calls ! j) r"
    proof
      assume "outs ! j = Some r"
      then show ?thesis
        using assms(2) j(1) unfolding outs_ok_def by blast
    next
      assume "(j, r) \<in> set rs"
      then have "\<exists>c. f j = Some c \<and> produced w c r"
        using b unfolding batch_ok_def by blast
      then show ?thesis
        using j(1) by (simp add: f_def)
    qed
  qed
  moreover have "covered n [] outs'" if c: "aborts_at w = None" "n \<le> length calls" "covered n pending outs"
    unfolding covered_def
  proof (intro allI impI)
    fix j
    assume "j < n"
    then have "outs ! j \<noteq> None \<or> j \<in> fst ` set rs" "j < length outs"
      using c b assms(2) by (auto simp: covered_def outs_ok_def simp del: split_paired_All split_paired_Ex)
    then show "outs' ! j \<noteq> None \<or> j \<in> fst ` set []"
      using store_results_nth [of rs outs j] rs(2) by blast
  qed
  ultimately show ?thesis
    using b by blast
qed

lemma run_calls_runs:
  "run_calls w cs i pending outs a = (a', pending', outs', st) \<Longrightarrow> drop i calls = cs \<Longrightarrow> i \<le> length calls \<Longrightarrow>
     outs_ok w calls outs \<Longrightarrow> pending_ok calls pending \<Longrightarrow>
     worked w a a' (case_option [] id st) \<and> st \<noteq> Some [] \<and> outs_ok w calls outs' \<and> pending_ok calls pending' \<and>
     (aborts_at w = None \<longrightarrow> st = None \<longrightarrow> covered i pending outs \<longrightarrow> covered (length calls) pending' outs')"
proof (induction cs arbitrary: i pending outs a)
  case Nil
  then show ?case
    by (auto simp: worked_refl)
next
  case (Cons c cs)
  have i: "i < length calls" "calls ! i = c" "drop (Suc i) calls = cs"
    using Cons(3,4) by (auto simp: drop_Suc nth_via_drop simp flip: tl_drop intro: ccontr)
  consider (aborted) "is_aborted w a" | (read) "\<not> is_aborted w a" "read_only w (call_name c) = Some True"
    | (other) "\<not> is_aborted w a" "read_only w (call_name c) \<noteq> Some True"
    by blast
  then show ?case
  proof cases
    case aborted
    then show ?thesis
      using Cons(2-6) by (auto simp: worked_refl is_aborted_def split: option.splits)
  next
    case read
    have "run_calls w cs (Suc i) (pending @ [(i, c)]) outs a = (a', pending', outs', st)"
      using Cons(2) read by simp
    moreover have "pending_ok calls (pending @ [(i, c)])"
      using Cons(6) i by (auto simp: pending_ok_def)
    moreover have "covered (Suc i) (pending @ [(i, c)]) outs" if "covered i pending outs"
      using that by (auto simp: covered_def less_Suc_eq)
    ultimately show ?thesis
      using Cons(1) [of "Suc i" "pending @ [(i, c)]" outs a] Cons(5) i by auto
  next
    case other
    obtain a1 s1 where d1: "drain_steering_messages w a = (a1, s1)"
      by (rule prod.exhaust)
    note w1 = worked_drain [OF d1]
    show ?thesis
    proof (cases "s1 = []")
      case False
      then show ?thesis
        using Cons(2,5,6) other d1 w1 by auto
    next
      case True
      obtain a2 outs2 where f: "flush_parallel w pending outs a1 = (a2, outs2)"
        by (rule prod.exhaust)
      note f_runs = flush_parallel_runs [OF f Cons(5,6), of i]
      have w2: "worked w a a2 []"
        using worked_quiet [OF w1 [unfolded True] worked_updated] f_runs by blast
      show ?thesis
      proof (cases "is_aborted w a2")
        case aborted: True
        then show ?thesis
          using Cons(2) other d1 True f f_runs w2 by (auto simp: pending_ok_def is_aborted_def split: option.splits)
      next
        case running: False
        obtain a3 s3 where d3: "drain_steering_messages w a2 = (a3, s3)"
          by (rule prod.exhaust)
        have w3: "worked w a a3 s3"
          using worked_quiet [OF w2 worked_drain [OF d3]] .
        show ?thesis
        proof (cases "s3 = []")
          case False
          then show ?thesis
            using Cons(2) other d1 True f f_runs running d3 w3 by (auto simp: pending_ok_def)
        next
          case quiet: True
          obtain a4 r where e: "execute_tool w c a3 = (a4, r)"
            by (rule prod.exhaust)
          note e_runs = execute_tool_runs [OF e]
          have w4: "worked w a a4 []"
            using worked_quiet [OF w3 [unfolded quiet] worked_updated] e_runs by blast
          have "run_calls w cs (Suc i) [] (outs2[i := Some r]) a4 = (a', pending', outs', st)"
            using Cons(2) other d1 True f running d3 quiet e by simp
          moreover have "outs_ok w calls (outs2[i := Some r])"
            using f_runs e_runs i by (simp add: outs_ok_update)
          moreover have "covered (Suc i) [] (outs2[i := Some r])" if "covered i [] outs2"
            using that f_runs i by (auto simp: covered_def outs_ok_def nth_list_update less_Suc_eq)
          ultimately show ?thesis
            using Cons(1) [of "Suc i" "[]" "outs2[i := Some r]" a4] i f_runs worked_quiet [OF w4]
            by (auto simp: pending_ok_def)
        qed
      qed
    qed
  qed
qed

lemma second_phase:
  assumes "flush_rest w (run_calls w calls 0 [] (replicate (length calls) None) a) = (a', outs, st)"
  shows "worked w a a' (case_option [] id st) \<and> st \<noteq> Some [] \<and> outs_ok w calls outs \<and>
    (aborts_at w = None \<longrightarrow> st = None \<longrightarrow> covered (length calls) [] outs)"
proof -
  obtain b pending outs1 st1 where r: "run_calls w calls 0 [] (replicate (length calls) None) a = (b, pending, outs1, st1)"
    by (metis prod.exhaust)
  have ok: "worked w a b (case_option [] id st1) \<and> st1 \<noteq> Some [] \<and> outs_ok w calls outs1 \<and> pending_ok calls pending \<and>
     (aborts_at w = None \<longrightarrow> st1 = None \<longrightarrow> covered (length calls) pending outs1)"
    using run_calls_runs [OF r, of calls] by (simp add: outs_ok_def pending_ok_def covered_def)
  show ?thesis
  proof (cases "pending \<noteq> [] \<and> \<not> is_aborted w b \<and> st1 = None")
    case False
    then show ?thesis
      using assms ok r by (auto simp: flush_rest_def is_aborted_def split: option.splits)
  next
    case True
    obtain c s where d: "drain_steering_messages w b = (c, s)"
      by (rule prod.exhaust)
    have w: "worked w a c s"
      using worked_quiet [of w a b] worked_drain [OF d] ok True by simp
    show ?thesis
    proof (cases "s = []")
      case False
      then show ?thesis
        using assms ok r True d w by (auto simp: flush_rest_def)
    next
      case quiet: True
      obtain e outs2 where f: "flush_parallel w pending outs1 c = (e, outs2)"
        by (rule prod.exhaust)
      have "updated w c e \<and> outs_ok w calls outs2 \<and>
        (aborts_at w = None \<longrightarrow> covered (length calls) pending outs1 \<longrightarrow> covered (length calls) [] outs2)"
        using flush_parallel_runs [OF f, of calls "length calls"] ok by blast
      then show ?thesis
        using assms ok r True d w quiet f worked_quiet [OF _ worked_updated, of w a c e] by (auto simp: flush_rest_def)
    qed
  qed
qed

section \<open>A result for every call\<close>

definition replies :: "tool_call \<Rightarrow> tool_result_message \<Rightarrow> bool" where
  "replies c r \<longleftrightarrow> tr_call_id r = call_id c \<and> tr_tool_name r = call_name c"

definition refusal :: "tool_result_message \<Rightarrow> bool" where
  "refusal r \<longleftrightarrow>
     tr_is_error r \<and>
     tr_content r \<in> {[TextB ''Skipped due to queued user message.'' None], [TextB ''Tool execution aborted'' None]}"

definition gives :: "tool_output \<times> bool \<Rightarrow> tool_result_message \<Rightarrow> bool" where
  "gives o1 r \<longleftrightarrow> tr_content r = out_content (fst o1) \<and> tr_details r = out_details (fst o1) \<and> tr_is_error r = snd o1"

text \<open>The results were reported and joined the history and the new messages, in this order.\<close>

definition reported ::
  "world \<Rightarrow> agent \<times> message list \<Rightarrow> agent \<times> message list \<Rightarrow> tool_result_message list \<Rightarrow> string list \<Rightarrow> message list \<Rightarrow> bool" where
  "reported w st st' rs ids ss \<longleftrightarrow>
     snd st' = snd st @ map ToolResult rs \<and>
     (\<exists>es. stepped w (fst st) (fst st') (map ToolResult rs) es ss [] \<and> list_all inner es \<and>
        ended es = map ToolResult rs \<and> tool_starts es = [] \<and> tool_ends es = ids)"

lemma reported_trans:
  "reported w st st1 rs ids ss \<Longrightarrow> reported w st1 st2 rs' ids' ss' \<Longrightarrow>
     reported w st st2 (rs @ rs') (ids @ ids') (ss @ ss')"
  unfolding reported_def
  using stepped_trans [of w "fst st" "fst st1" _ _ ss "[]" "fst st2" _ _ ss' "[]"] by fastforce

lemma reported_worked: "worked w a a' ss \<Longrightarrow> reported w (a, new) (a', new) [] [] ss"
  unfolding reported_def worked_def using updates_quiet by fastforce

lemma give_result_reports:
  assumes "give_result w c out err st = (st', r)"
  shows "reported w st st' [r] [call_id c] [] \<and> replies c r \<and> gives (out, err) r"
proof -
  obtain a new where st: "st = (a, new)"
    by (rule prod.exhaust)
  have r: "r = \<lparr>tr_call_id = call_id c, tr_tool_name = call_name c, tr_content = out_content out,
    tr_details = out_details out, tr_is_error = err, tr_timestamp = now w a\<rparr>"
    using assms by (simp add: give_result_def st Let_def)
  define es where "es = [EvToolEnd (call_id c) (call_name c) (out\<lparr>out_error := err\<rparr>) err,
    EvMessageStart (ToolResult r), EvMessageEnd (ToolResult r)]"
  have st': "st' = (emit (EvMessageEnd (ToolResult r)) (emit (EvMessageStart (ToolResult r)) (push_message (ToolResult r)
    (emit (EvToolEnd (call_id c) (call_name c) (out\<lparr>out_error := err\<rparr>) err) a))), new @ [ToolResult r])"
    using assms unfolding r by (simp add: give_result_def st Let_def)
  have "moved a (fst st') [ToolResult r] es"
    unfolding st' by (simp add: moved_def emit_def push_message_def setup_of_def es_def)
  then have "stepped w a (fst st') [ToolResult r] es [] []"
    by (rule stepped_same) (simp add: st')
  then show ?thesis
    unfolding reported_def st
    by (auto simp: st' es_def inner_def r replies_def gives_def intro!: exI [of _ es])
qed

lemma refuse_call_reports:
  assumes "refuse_call w why c st = (st', r)"
  shows "reported w st st' [r] [call_id c] [] \<and> replies c r \<and> tr_is_error r \<and> tr_content r = [TextB why None]"
proof -
  obtain a new where st: "st = (a, new)"
    by (rule prod.exhaust)
  have "give_result w c (error_output why) True (emit (tool_update c (error_output why)) a, new) = (st', r)"
    using assms by (simp add: refuse_call_def st)
  note g = give_result_reports [OF this]
  have "worked w a (emit (tool_update c (error_output why)) a) []"
    by (intro worked_updated updated_emit updated_refl)
  note reported_trans [OF reported_worked [OF this, of new]]
  then show ?thesis
    using g unfolding st by (fastforce simp: gives_def error_output_def)
qed

lemma settle_call_reports:
  assumes "settle_call w c slot steering st = (st', r)"
  shows "reported w st st' [r] [call_id c] [] \<and> replies c r \<and>
    (case slot of Some v \<Rightarrow> gives v r | None \<Rightarrow> refusal r)"
proof (cases slot)
  case None
  obtain why where "refuse_call w why c st = (st', r)" "why \<in> {''Skipped due to queued user message.'', ''Tool execution aborted''}"
    using assms None by (auto simp: settle_call_def skip_tool_call_def split: option.splits)
  then show ?thesis
    using refuse_call_reports [of w why c st st' r] None by (auto simp: refusal_def)
next
  case (Some v)
  then show ?thesis
    using assms give_result_reports [of w c "fst v" "snd v" st st' r] by (cases v) (simp add: settle_call_def)
qed

lemma late_steering_works:
  assumes "late_steering w st a = (a', st')"
  shows "\<exists>ss. worked w a a' ss \<and> case_option [] id st' = case_option [] id st @ ss \<and> (st \<noteq> Some [] \<longrightarrow> st' \<noteq> Some [])"
proof (cases "st = None \<and> \<not> is_aborted w a")
  case True
  obtain b s where d: "drain_steering_messages w a = (b, s)"
    by (rule prod.exhaust)
  show ?thesis
    using assms True d worked_drain [OF d] by (auto simp: late_steering_def split: if_splits)
next
  case False
  then have "late_steering w st a = (a, st)"
    unfolding late_steering_def by (rule if_not_P)
  then show ?thesis
    using assms worked_refl [of w a] by (auto intro!: exI [of _ "[]"])
qed

lemma settle_calls_report:
  "settle_calls w cs steering st = (st', rs, steering') \<Longrightarrow>
     (\<exists>ss. reported w st st' rs (map (\<lambda>x. call_id (fst x)) cs) ss \<and> case_option [] id steering' = case_option [] id steering @ ss) \<and>
     list_all2 (\<lambda>(c, slot) r. replies c r \<and> (case slot of Some v \<Rightarrow> gives v r | None \<Rightarrow> refusal r)) cs rs \<and>
     (steering \<noteq> Some [] \<longrightarrow> steering' \<noteq> Some [])"
proof (induction cs arbitrary: steering st rs)
  case Nil
  then show ?case
    using reported_worked [OF worked_refl] by (cases st) auto
next
  case (Cons x cs)
  obtain c slot where x: "x = (c, slot)"
    by (rule prod.exhaust)
  obtain a new where st: "st = (a, new)"
    by (rule prod.exhaust)
  obtain a1 steering1 where l: "late_steering w steering a = (a1, steering1)"
    by (rule prod.exhaust)
  obtain st2 r where s: "settle_call w c slot steering1 (a1, new) = (st2, r)"
    by (rule prod.exhaust)
  obtain rs' where rest: "settle_calls w cs steering1 st2 = (st', rs', steering')" "rs = r # rs'"
    using Cons(2) by (auto simp: x st l s split: prod.splits)
  obtain ss where ss: "worked w a a1 ss" "case_option [] id steering1 = case_option [] id steering @ ss"
    "steering \<noteq> Some [] \<longrightarrow> steering1 \<noteq> Some []"
    using late_steering_works [OF l] by blast
  obtain ss' where ss': "reported w st2 st' rs' (map (\<lambda>x. call_id (fst x)) cs) ss'"
    "case_option [] id steering' = case_option [] id steering1 @ ss'"
    using Cons(1) [OF rest(1)] by blast
  have "reported w st st' ([] @ [r] @ rs') ([] @ [call_id c] @ map (\<lambda>x. call_id (fst x)) cs) (ss @ [] @ ss')"
    unfolding st by (intro reported_trans [OF reported_worked [OF ss(1)]] reported_trans [OF _ ss'(1)])
      (use settle_call_reports [OF s] in blast)
  then show ?case
    using ss ss' settle_call_reports [OF s] Cons(1) [OF rest(1)] by (auto simp: x rest(2))
qed

lemma starts_moved:
  "moved a (fold (\<lambda>c. emit (EvToolStart (call_id c) (call_name c) (call_args c))) cs a) []
     (map (\<lambda>c. EvToolStart (call_id c) (call_name c) (call_args c)) cs) \<and>
   queue (fold (\<lambda>c. emit (EvToolStart (call_id c) (call_name c) (call_args c))) cs a) = queue a"
  by (induction cs arbitrary: a rule: rev_induct) (auto intro: moved_refl moved_emit)

text \<open>Every call is started and ended once, in order, and its result follows; the messages taken from
  the queue meanwhile are handed on.\<close>

definition all_answered ::
  "world \<Rightarrow> tool_call list \<Rightarrow> agent \<times> message list \<Rightarrow> agent \<times> message list \<Rightarrow> tool_result_message list \<Rightarrow> message list \<Rightarrow> bool" where
  "all_answered w calls st st' rs ss \<longleftrightarrow>
     snd st' = snd st @ map ToolResult rs \<and> list_all2 replies calls rs \<and>
     (\<exists>es. stepped w (fst st) (fst st') (map ToolResult rs) es ss [] \<and> list_all inner es \<and>
        ended es = map ToolResult rs \<and> tool_starts es = map call_id calls \<and> tool_ends es = map call_id calls)"

lemma quiet_starts:
  "list_all inner (map (\<lambda>c. EvToolStart (call_id c) (call_name c) (call_args c)) cs) \<and>
   ended (map (\<lambda>c. EvToolStart (call_id c) (call_name c) (call_args c)) cs) = [] \<and>
   tool_starts (map (\<lambda>c. EvToolStart (call_id c) (call_name c) (call_args c)) cs) = map call_id cs \<and>
   tool_ends (map (\<lambda>c. EvToolStart (call_id c) (call_name c) (call_args c)) cs) = []"
  by (induction cs) (simp_all add: inner_def)

lemma execute_tool_calls_all:
  assumes "execute_tool_calls w calls st = (st', rs, steering)"
  shows "all_answered w calls st st' rs (case_option [] id steering) \<and> steering \<noteq> Some [] \<and>
    list_all2 (\<lambda>c r. refusal r \<or> (\<exists>v. produced w c v \<and> gives v r)) calls rs \<and>
    (aborts_at w = None \<longrightarrow> steering = None \<longrightarrow> list_all2 (\<lambda>c r. \<exists>v. produced w c v \<and> gives v r) calls rs)"
proof -
  obtain a new where st: "st = (a, new)"
    by (rule prod.exhaust)
  define a0 where "a0 = fold (\<lambda>c. emit (EvToolStart (call_id c) (call_name c) (call_args c))) calls a"
  define sts where "sts = map (\<lambda>c. EvToolStart (call_id c) (call_name c) (call_args c)) calls"
  obtain a1 outs s1 where f: "flush_rest w (run_calls w calls 0 [] (replicate (length calls) None) a0) = (a1, outs, s1)"
    by (metis prod.exhaust)
  note p = second_phase [OF f]
  have se: "settle_calls w (zip calls outs) s1 (a1, new) = (st', rs, steering)"
    using assms f by (simp add: execute_tool_calls_def st a0_def Let_def)
  obtain ss where ss: "reported w (a1, new) st' rs (map (\<lambda>x. call_id (fst x)) (zip calls outs)) ss"
    "case_option [] id steering = case_option [] id s1 @ ss"
    "list_all2 (\<lambda>(c, slot) r. replies c r \<and> (case slot of Some v \<Rightarrow> gives v r | None \<Rightarrow> refusal r)) (zip calls outs) rs"
    "steering \<noteq> Some []"
    using settle_calls_report [OF se] p by blast
  have len: "length outs = length calls" and ok: "\<And>i v. i < length calls \<Longrightarrow> outs ! i = Some v \<Longrightarrow> produced w (calls ! i) v"
    using p by (auto simp: outs_ok_def)
  have lens: "length rs = length calls"
    using list_all2_lengthD [OF ss(3)] len by simp
  have at: "replies (calls ! i) (rs ! i) \<and> (case outs ! i of Some v \<Rightarrow> gives v (rs ! i) | None \<Rightarrow> refusal (rs ! i))"
    if "i < length calls" for i
    using list_all2_nthD [OF ss(3), of i] that len by simp
  have run_at: "refusal (rs ! i) \<and> outs ! i = None \<or> (\<exists>v. produced w (calls ! i) v \<and> gives v (rs ! i))"
    if "i < length calls" for i
    using at [OF that] ok [OF that] by (cases "outs ! i") auto
  have "map call_id (map fst (zip calls outs)) = map call_id calls"
    using len by simp
  then have "map (\<lambda>x. call_id (fst x)) (zip calls outs) = map call_id calls"
    by (simp only: map_map comp_def)
  then obtain es where es: "stepped w a0 (fst st') (map ToolResult rs) es (case_option [] id steering) []" "list_all inner es"
    "ended es = map ToolResult rs" "tool_starts es = []" "tool_ends es = map call_id calls" "snd st' = new @ map ToolResult rs"
    using reported_trans [OF reported_worked [of w a0 a1 "case_option [] id s1" new] ss(1)] p ss(2)
    by (auto simp: reported_def)
  have "stepped w a a0 [] sts [] []"
    using starts_moved [of a calls] by (intro stepped_same) (simp_all add: a0_def sts_def)
  then have "stepped w a (fst st') (map ToolResult rs) (sts @ es) (case_option [] id steering) []"
    using stepped_trans [OF _ es(1)] by fastforce
  moreover have "list_all2 replies calls rs"
    using lens at by (auto intro: list_all2_all_nthI)
  ultimately have "all_answered w calls st st' rs (case_option [] id steering)"
    unfolding all_answered_def st using es quiet_starts [of calls, folded sts_def] by (auto intro!: exI [of _ "sts @ es"])
  moreover have "list_all2 (\<lambda>c r. refusal r \<or> (\<exists>v. produced w c v \<and> gives v r)) calls rs"
    using run_at by (intro list_all2_all_nthI lens [symmetric]) blast
  moreover have "list_all2 (\<lambda>c r. \<exists>v. produced w c v \<and> gives v r) calls rs" if "aborts_at w = None" "steering = None"
  proof (rule list_all2_all_nthI)
    fix i
    assume i: "i < length calls"
    have "covered (length calls) [] outs"
      using p ss(2) that by (cases s1) auto
    then have "outs ! i \<noteq> None"
      using i by (simp add: covered_def del: not_None_eq)
    then show "\<exists>v. produced w (calls ! i) v \<and> gives v (rs ! i)"
      using run_at [OF i] by (elim disjE) simp_all
  qed (simp add: lens)
  ultimately show ?thesis
    using ss(4) by blast
qed

end
