(* ===== verification/Agent_Loop.thy ===== *)
theory Agent_Loop
  imports Agent_Answers
begin

text \<open>
  The loop of \<open>patches/pi_agent_rust/src/agent.rs\<close> that a prompt starts: turns of an answer and its tools
  until neither calls nor queued messages are left. \<open>turn\<close> is the body of the inner loop; \<open>run_turns\<close> is
  both loops, a partial function, \<open>None\<close> being a run that does not end.
\<close>

section \<open>A turn\<close>

record run_state =
  r_new :: "message list"
  r_iterations :: nat
  r_turn :: nat
  r_last :: "assistant_message option"
  r_pending :: "message list"
  r_more :: bool

definition sid_of :: "agent \<Rightarrow> string" where
  "sid_of a = case_option [] id (session_id a)"

definition add_message :: "message \<Rightarrow> agent \<times> message list \<Rightarrow> agent \<times> message list" where
  "add_message m st =
     (case st of (a, new) \<Rightarrow> (emit (EvMessageEnd m) (emit (EvMessageStart m) (push_message m a)), new @ [m]))"

definition end_turn :: "nat \<Rightarrow> assistant_message \<Rightarrow> tool_result_message list \<Rightarrow> agent \<Rightarrow> agent" where
  "end_turn n m rs a = emit (EvTurnEnd (sid_of a) n (Assistant m) (map ToolResult rs)) a"

definition end_run :: "message list \<Rightarrow> string option \<Rightarrow> agent \<Rightarrow> agent" where
  "end_run new err a = emit (EvAgentEnd (sid_of a) new err) a"

definition max_iterations_error :: "agent \<Rightarrow> string" where
  "max_iterations_error a = ''Maximum tool iterations ('' @ show_nat (max_tool_iterations a) @ '') exceeded''"

text \<open>\<open>*last = stop_message\<close>, when the last message is the assistant's.\<close>

definition replace_last_assistant :: "assistant_message \<Rightarrow> message list \<Rightarrow> message list" where
  "replace_last_assistant m ms =
     (if ms = [] then ms else (case last ms of Assistant _ \<Rightarrow> butlast ms @ [Assistant m] | _ \<Rightarrow> ms))"

definition stop_at_limit :: "nat \<Rightarrow> assistant_message \<Rightarrow> agent \<Rightarrow> message list \<Rightarrow> agent \<times> (string + assistant_message)" where
  "stop_at_limit n m a new =
     (let err = max_iterations_error a;
          stop = m\<lparr>am_stop := StopError, am_error := Some err\<rparr>;
          a1 = a\<lparr>history := replace_last_assistant stop (history a)\<rparr>
      in (end_run (replace_last_assistant stop new) (Some err) (end_turn n stop [] a1), Inr stop))"

text \<open>The end of a turn that goes on: its results and what steering they brought.\<close>

definition next_turn ::
  "world \<Rightarrow> run_state \<Rightarrow> assistant_message \<Rightarrow> (agent \<times> message list) \<times> tool_result_message list \<times> message list option \<Rightarrow>
     agent \<times> run_state" where
  "next_turn w s m outcome =
     (case outcome of ((a, new), rs, steering) \<Rightarrow>
        (let a1 = end_turn (r_turn s) m rs a
         in case (case steering of Some ms \<Rightarrow> (a1, ms) | None \<Rightarrow> drain_steering_messages w a1) of
              (a2, pending) \<Rightarrow>
                (a2, s\<lparr>r_new := new, r_turn := Suc (r_turn s), r_last := Some m, r_pending := pending,
                       r_more := extract_tool_calls (am_content m) \<noteq> []\<rparr>)))"

definition turn :: "world \<Rightarrow> run_state \<Rightarrow> agent \<Rightarrow> (agent \<times> (string + assistant_message)) + (agent \<times> run_state)" where
  "turn w s a =
     (case fold add_message (r_pending s) (pass (emit (EvTurnStart (sid_of a) (r_turn s) (now w a)) a), r_new s) of
        (a1, new1) \<Rightarrow>
          if is_aborted w a1 then
            (let m = build_abort_message w a1 None
             in case add_message (Assistant m) (a1, new1) of
                  (a2, new2) \<Rightarrow>
                    Inl (end_run new2 (Some (case_option ''Aborted'' id (am_error m))) (end_turn (r_turn s) m [] a2), Inr m))
          else
            (case stream_assistant_response w a1 of
               (a2, Inl err) \<Rightarrow> Inl (end_run new1 (Some err) a2, Inl err)
             | (a2, Inr m) \<Rightarrow>
                 (let new2 = new1 @ [Assistant m]; calls = extract_tool_calls (am_content m)
                  in if am_stop m = StopError \<or> am_stop m = StopAborted then
                       Inl (end_run new2 (am_error m) (end_turn (r_turn s) m [] a2), Inr m)
                     else if calls \<noteq> [] then
                       (let s' = s\<lparr>r_iterations := Suc (r_iterations s)\<rparr>
                        in if r_iterations s' > max_tool_iterations a2 then Inl (stop_at_limit (r_turn s) m a2 new2)
                           else Inr (next_turn w s' m (execute_tool_calls w calls (a2, new2))))
                     else Inr (next_turn w s m ((a2, new2), [], None)))))"

section \<open>The run\<close>

definition end_normally :: "run_state \<Rightarrow> agent \<Rightarrow> agent \<times> (string + assistant_message)" where
  "end_normally s a =
     (case r_last s of
        None \<Rightarrow> (a, Inl ''API error: Agent completed without assistant message'')
      | Some m \<Rightarrow> (end_run (r_new s) None a, Inr m))"

partial_function (option) run_turns ::
  "world \<Rightarrow> run_state \<Rightarrow> agent \<Rightarrow> (agent \<times> (string + assistant_message)) option" where
  "run_turns w s a =
     (case turn w s a of
        Inl outcome \<Rightarrow> Some outcome
      | Inr (a1, s1) \<Rightarrow>
          if r_more s1 \<or> r_pending s1 \<noteq> [] then run_turns w s1 a1
          else
            (case drain_follow_up_messages w a1 of
               (a2, ms) \<Rightarrow>
                 if ms = [] then Some (end_normally s1 a2)
                 else run_turns w (s1\<lparr>r_pending := ms, r_more := True\<rparr>) a2))"

definition run_loop :: "world \<Rightarrow> message list \<Rightarrow> agent \<Rightarrow> (agent \<times> (string + assistant_message)) option" where
  "run_loop w prompts a =
     (case fold add_message prompts (pass (emit (EvAgentStart (sid_of a)) a), []) of
        (a1, new) \<Rightarrow>
          (case drain_steering_messages w a1 of
             (a2, pending) \<Rightarrow>
               run_turns w
                 \<lparr>r_new = new, r_iterations = 0, r_turn = 0, r_last = None, r_pending = pending, r_more = True\<rparr> a2))"

definition run_with_abort :: "world \<Rightarrow> string \<Rightarrow> agent \<Rightarrow> (agent \<times> (string + assistant_message)) option" where
  "run_with_abort w input a = run_loop w [User (PlainText input) (now w a)] a"

definition run_with_content_with_abort ::
  "world \<Rightarrow> block list \<Rightarrow> agent \<Rightarrow> (agent \<times> (string + assistant_message)) option" where
  "run_with_content_with_abort w bs a = run_loop w [User (UserBlocks bs) (now w a)] a"

definition run_continue_with_abort :: "world \<Rightarrow> agent \<Rightarrow> (agent \<times> (string + assistant_message)) option" where
  "run_continue_with_abort w a = run_loop w [] a"

section \<open>What a turn does\<close>

text \<open>Messages of people and programs, not of the agent.\<close>

definition spoken :: "message \<Rightarrow> bool" where
  "spoken m = (case m of User _ _ \<Rightarrow> True | Custom _ \<Rightarrow> True | _ \<Rightarrow> False)"

text \<open>A transcript in which every call is answered by its result before anything else is said; \<open>owed\<close> are
  the calls not yet answered.\<close>

fun paired :: "tool_call list \<Rightarrow> message list \<Rightarrow> bool" where
  "paired owed [] \<longleftrightarrow> owed = []"
| "paired (c # owed) (m # ms) \<longleftrightarrow> (case m of ToolResult r \<Rightarrow> replies c r | _ \<Rightarrow> False) \<and> paired owed ms"
| "paired [] (m # ms) \<longleftrightarrow>
     (case m of Assistant a \<Rightarrow> paired (extract_tool_calls (am_content a)) ms | ToolResult _ \<Rightarrow> False | _ \<Rightarrow> paired [] ms)"

lemma paired_append: "paired owed ms \<Longrightarrow> paired [] ms' \<Longrightarrow> paired owed (ms @ ms')"
  by (induction owed ms rule: paired.induct) (auto split: message.splits)

lemma paired_spoken: "list_all spoken ms \<Longrightarrow> paired [] ms"
  by (induction ms) (auto simp: spoken_def split: message.splits)

lemma paired_results: "list_all2 replies cs rs \<Longrightarrow> paired cs (map ToolResult rs)"
  by (induction rule: list_all2_induct) auto

lemma paired_answer: "list_all2 replies (extract_tool_calls (am_content m)) rs \<Longrightarrow> paired [] (Assistant m # map ToolResult rs)"
  by (simp add: paired_results)

text \<open>The starts and the ends of turns.\<close>

fun turn_marks :: "agent_ev list \<Rightarrow> (nat + nat) list" where
  "turn_marks [] = []"
| "turn_marks (EvTurnStart _ n _ # es) = Inl n # turn_marks es"
| "turn_marks (EvTurnEnd _ n _ _ # es) = Inr n # turn_marks es"
| "turn_marks (e # es) = turn_marks es"

definition within_run :: "agent_ev \<Rightarrow> bool" where
  "within_run e = (case e of EvAgentStart _ \<Rightarrow> False | EvAgentEnd _ _ _ \<Rightarrow> False | _ \<Rightarrow> True)"

lemma turn_marks_append [simp]: "turn_marks (es @ es') = turn_marks es @ turn_marks es'"
  by (induction es rule: turn_marks.induct) simp_all

lemma inner_within: "list_all inner es \<Longrightarrow> list_all within_run es \<and> turn_marks es = []"
  by (induction es) (auto simp: inner_def within_run_def split: agent_ev.splits)

text \<open>\<open>went\<close>: a part of a run, by its messages, events, marks, messages that ended and calls started and ended.\<close>

definition went ::
  "world \<Rightarrow> agent \<Rightarrow> agent \<Rightarrow> message list \<Rightarrow> message list \<Rightarrow> message list \<Rightarrow> message list \<Rightarrow> (nat + nat) list \<Rightarrow> bool" where
  "went w a a' ms ss fs ends marks \<longleftrightarrow>
     (\<exists>es. stepped w a a' ms es ss fs \<and> list_all within_run es \<and> ended es = ends \<and> turn_marks es = marks \<and>
        tool_starts es = tool_ends es)"

lemma went_trans:
  "went w a b ms ss fs ds mk \<Longrightarrow> went w b c ms' ss' fs' ds' mk' \<Longrightarrow>
     went w a c (ms @ ms') (ss @ ss') (fs @ fs') (ds @ ds') (mk @ mk')"
  unfolding went_def by (elim exE conjE, rule exI, rule conjI, rule stepped_trans, assumption+) simp

lemma went_same:
  "moved a a' ms es \<Longrightarrow> queue a' = queue a \<Longrightarrow> list_all within_run es \<Longrightarrow> tool_starts es = tool_ends es \<Longrightarrow>
     went w a a' ms [] [] (ended es) (turn_marks es)"
  unfolding went_def using stepped_same by blast

lemma went_refl: "went w a a [] [] [] [] []"
  using went_same [OF moved_refl] by simp

lemma went_pass: "went w a b ms ss fs ds mk \<Longrightarrow> went w a (pass b) ms ss fs ds mk"
  using went_trans [OF _ went_same [OF moved_pass [OF moved_refl]]] by fastforce

lemma went_drain:
  "drain_queue w kind a = (a', ms) \<Longrightarrow>
     went w a a' [] (if kind = Steering then ms else []) (if kind = FollowUp then ms else []) [] []"
  unfolding went_def using drain_steps [of w kind a a' ms] by (auto intro!: exI [of _ "[]"])

lemma went_end_turn: "went w a b ms ss fs ds mk \<Longrightarrow> went w a (end_turn n m rs b) ms ss fs ds (mk @ [Inr n])"
proof -
  have "went w b (end_turn n m rs b) [] [] [] (ended [EvTurnEnd (sid_of b) n (Assistant m) (map ToolResult rs)])
    (turn_marks [EvTurnEnd (sid_of b) n (Assistant m) (map ToolResult rs)])"
    using moved_emit [OF moved_refl]
    by (intro went_same) (auto simp: end_turn_def within_run_def)
  then show "went w a b ms ss fs ds mk \<Longrightarrow> went w a (end_turn n m rs b) ms ss fs ds (mk @ [Inr n])"
    using went_trans by fastforce
qed

lemma went_start_turn:
  "went w a (pass (emit (EvTurnStart sid n t) a)) [] [] [] [] [Inl n]"
  using went_same [of a "pass (emit (EvTurnStart sid n t) a)" "[]" "[EvTurnStart sid n t]"]
    moved_pass [OF moved_emit [OF moved_refl]] by (fastforce simp: within_run_def)

lemma went_add_message:
  assumes "add_message m (a, new) = (a', new')"
  shows "went w a a' [m] [] [] [m] [] \<and> new' = new @ [m]"
proof -
  have a': "a' = emit (EvMessageEnd m) (emit (EvMessageStart m) (push_message m a))"
    using assms by (simp add: add_message_def)
  have "moved a a' [m] [EvMessageStart m, EvMessageEnd m]"
    unfolding a' by (simp add: moved_def emit_def push_message_def setup_of_def)
  from went_same [OF this] show ?thesis
    using assms by (simp add: add_message_def a' within_run_def)
qed

lemma went_add_messages:
  "fold add_message ms (a, new) = (a', new') \<Longrightarrow> went w a a' ms [] [] ms [] \<and> new' = new @ ms"
proof (induction ms arbitrary: a new)
  case Nil
  then show ?case
    by (simp add: went_refl)
next
  case (Cons m ms)
  obtain b new1 where b: "add_message m (a, new) = (b, new1)"
    by (rule prod.exhaust)
  have "fold add_message ms (b, new1) = (a', new')"
    using Cons(2) by (simp add: b)
  from Cons(1) [OF this] show ?case
    using went_add_message [OF b, of w] went_trans [of w a b "[m]" "[]" "[]" "[m]" "[]" a' ms "[]" "[]" ms "[]"] by simp
qed

lemma went_history: "went w a a' ms ss fs ds mk \<Longrightarrow> history a' = history a @ ms"
  by (auto simp: went_def stepped_def dest: moved_fields)

lemma went_setup:
  "went w a a' ms ss fs ds mk \<Longrightarrow>
     max_tool_iterations a' = max_tool_iterations a \<and> session_id a' = session_id a \<and> tick a \<le> tick a'"
  by (auto simp: went_def stepped_def dest: moved_fields)

lemma went_answer:
  assumes "last_assistant a = None" "stream_assistant_response w a = (a', r)"
  shows "\<exists>ms. went w a a' ms [] [] (case r of Inr m \<Rightarrow> ms | Inl _ \<Rightarrow> []) [] \<and>
    (case r of Inr m \<Rightarrow> ms = [Assistant m] | Inl _ \<Rightarrow> ms = [] \<or> (\<exists>p. ms = [Assistant p]))"
proof -
  obtain ms es where "queue a' = queue a" "moved a a' ms es" "list_all of_message es"
    "case r of Inr m \<Rightarrow> ms = [Assistant m] \<and> ended es = ms | Inl _ \<Rightarrow> (ms = [] \<or> (\<exists>p. ms = [Assistant p])) \<and> ended es = []"
    using stream_answers [OF assms] unfolding answered_with_def by blast
  moreover from this have "went w a a' ms [] [] (ended es) (turn_marks es)" "turn_marks es = []"
    using of_message_inner [of es] inner_within [of es] went_same [of a a' ms es w] by auto
  ultimately show ?thesis
    by (cases r) fastforce+
qed

lemma went_calls:
  assumes "execute_tool_calls w calls (a, new) = ((a', new'), rs, steering)"
  shows "went w a a' (map ToolResult rs) (case_option [] id steering) [] (map ToolResult rs) [] \<and>
    new' = new @ map ToolResult rs \<and> list_all2 replies calls rs \<and> steering \<noteq> Some []"
proof -
  note e = execute_tool_calls_all [OF assms]
  then obtain es where "stepped w a a' (map ToolResult rs) es (case_option [] id steering) []" "list_all inner es"
    "ended es = map ToolResult rs" "tool_starts es = map call_id calls" "tool_ends es = map call_id calls"
    unfolding all_answered_def by auto
  then have "went w a a' (map ToolResult rs) (case_option [] id steering) [] (map ToolResult rs) []"
    unfolding went_def using inner_within by fastforce
  then show ?thesis
    using e by (auto simp: all_answered_def)
qed

lemma last_said:
  "history a' = history a @ ms \<Longrightarrow> list_all spoken ms \<Longrightarrow> ms \<noteq> [] \<or> last_assistant a = None \<Longrightarrow> last_assistant a' = None"
  by (cases ms rule: rev_cases) (auto simp: last_assistant_def spoken_def split: message.splits if_splits)

lemma turn_starts:
  assumes "fold add_message (r_pending s) (pass (emit (EvTurnStart (sid_of a) n t) a), r_new s) = (a1, new1)"
    "list_all spoken (r_pending s)" "r_pending s \<noteq> [] \<or> last_assistant a = None"
  shows "went w a a1 (r_pending s) [] [] (r_pending s) [Inl n] \<and> new1 = r_new s @ r_pending s \<and> last_assistant a1 = None"
proof -
  have "went w a a1 (r_pending s) [] [] (r_pending s) [Inl n] \<and> new1 = r_new s @ r_pending s"
    using went_add_messages [OF assms(1), of w] went_trans [OF went_start_turn] by fastforce
  then show ?thesis
    using last_said [OF went_history assms(2,3)] by blast
qed

text \<open>The messages of a turn that goes on.\<close>

definition turn_messages :: "run_state \<Rightarrow> assistant_message \<Rightarrow> tool_result_message list \<Rightarrow> message list" where
  "turn_messages s m rs = r_pending s @ Assistant m # map ToolResult rs"

definition failed :: "assistant_message \<Rightarrow> bool" where
  "failed m \<longleftrightarrow> am_stop m = StopError \<or> am_stop m = StopAborted"

lemma next_turn_goes:
  assumes "next_turn w s m ((a, new), rs, steering) = (a', s')" "steering \<noteq> Some []"
  shows "went w a a' [] (if steering = None then r_pending s' else []) [] [] [Inr (r_turn s)] \<and>
    (steering \<noteq> None \<longrightarrow> steering = Some (r_pending s')) \<and> (r_pending s' = [] \<longrightarrow> waiting Steering (queue a') = []) \<and>
    r_new s' = new \<and> r_turn s' = Suc (r_turn s) \<and> r_last s' = Some m \<and> r_iterations s' = r_iterations s \<and>
    (r_more s' \<longleftrightarrow> extract_tool_calls (am_content m) \<noteq> [])"
proof -
  have e: "went w a (end_turn (r_turn s) m rs a) [] [] [] [] [Inr (r_turn s)]"
    using went_end_turn [OF went_refl] by fastforce
  show ?thesis
  proof (cases steering)
    case (Some ms)
    then show ?thesis
      using assms e by (auto simp: next_turn_def Let_def)
  next
    case None
    obtain b ms where d: "drain_steering_messages w (end_turn (r_turn s) m rs a) = (b, ms)"
      by (rule prod.exhaust)
    then show ?thesis
      using assms None went_trans [OF e went_drain [OF d]] drain_steps [OF d] by (auto simp: next_turn_def Let_def)
  qed
qed

lemma turn_continues:
  assumes t: "turn w s a = Inr (a', s')" and p: "list_all spoken (r_pending s)" "r_pending s \<noteq> [] \<or> last_assistant a = None"
  obtains m rs where
    "went w a a' (turn_messages s m rs) (r_pending s') [] (turn_messages s m rs) [Inl (r_turn s), Inr (r_turn s)]"
    "list_all2 replies (extract_tool_calls (am_content m)) rs" "\<not> failed m" "r_new s' = r_new s @ turn_messages s m rs"
    "r_last s' = Some m" "r_turn s' = Suc (r_turn s)" "r_more s' \<longleftrightarrow> extract_tool_calls (am_content m) \<noteq> []"
    "r_iterations s' = r_iterations s + (if r_more s' then 1 else 0)"
    "r_more s' \<longrightarrow> r_iterations s' \<le> max_tool_iterations a"
    "r_pending s' = [] \<longrightarrow> waiting Steering (queue a') = []"
proof -
  obtain a1 new1 where f: "fold add_message (r_pending s) (pass (emit (EvTurnStart (sid_of a) (r_turn s) (now w a)) a), r_new s) = (a1, new1)"
    by (rule prod.exhaust)
  note st = turn_starts [OF f p, of w]
  have na: "\<not> is_aborted w a1"
    using t f by (auto simp: turn_def Let_def split: prod.splits)
  obtain a2 r where r: "stream_assistant_response w a1 = (a2, r)"
    by (rule prod.exhaust)
  obtain m where m: "r = Inr m" "\<not> failed m"
    using t f na r by (cases r) (auto simp: turn_def Let_def failed_def split: if_splits)
  define calls where "calls = extract_tool_calls (am_content m)"
  have "went w a1 a2 [Assistant m] [] [] [Assistant m] []"
    using went_answer [OF _ r] st m(1) by fastforce
  then have w2: "went w a a2 (r_pending s @ [Assistant m]) [] [] (r_pending s @ [Assistant m]) [Inl (r_turn s)]"
    using went_trans [of w a a1] st by fastforce
  show thesis
  proof (cases "calls = []")
    case True
    have n: "next_turn w s m ((a2, new1 @ [Assistant m]), [], None) = (a', s')"
      using t f na r m True by (simp add: turn_def Let_def failed_def calls_def)
    note g = next_turn_goes [OF n]
    have "went w a a' (turn_messages s m []) (r_pending s') [] (turn_messages s m []) [Inl (r_turn s), Inr (r_turn s)]"
      using went_trans [OF w2] g by (fastforce simp: turn_messages_def)
    moreover have "r_new s' = r_new s @ turn_messages s m []" "r_last s' = Some m" "r_turn s' = Suc (r_turn s)"
      "\<not> r_more s'" "r_iterations s' = r_iterations s" "r_pending s' = [] \<longrightarrow> waiting Steering (queue a') = []"
      using g st True by (auto simp: turn_messages_def calls_def)
    ultimately show thesis
      using that [of m "[]"] m(2) True by (simp add: calls_def)
  next
    case False
    define s1 where "s1 = s\<lparr>r_iterations := Suc (r_iterations s)\<rparr>"
    obtain a3 new3 rs steering where e: "execute_tool_calls w calls (a2, new1 @ [Assistant m]) = ((a3, new3), rs, steering)"
      by (metis prod.exhaust)
    note c = went_calls [OF e]
    have n: "next_turn w s1 m ((a3, new3), rs, steering) = (a', s')" "r_iterations s1 \<le> max_tool_iterations a2"
      using t f na r m False e by (auto simp: turn_def Let_def failed_def calls_def s1_def split: if_splits)
    note g = next_turn_goes [OF n(1) conjunct2 [OF conjunct2 [OF conjunct2 [OF c]]]]
    have "went w a a3 (turn_messages s m rs) (case_option [] id steering) [] (turn_messages s m rs) [Inl (r_turn s)]"
      using went_trans [OF w2] c by (fastforce simp: turn_messages_def)
    then have "went w a a' (turn_messages s m rs) (r_pending s') [] (turn_messages s m rs) [Inl (r_turn s), Inr (r_turn s)]"
      using went_trans [of w a a3] g by (cases steering) (fastforce simp: s1_def)+
    moreover have "r_new s' = r_new s @ turn_messages s m rs" "r_last s' = Some m" "r_turn s' = Suc (r_turn s)"
      "r_more s'" "r_iterations s' = Suc (r_iterations s)" "r_pending s' = [] \<longrightarrow> waiting Steering (queue a') = []"
      using g st c False by (auto simp: turn_messages_def calls_def s1_def)
    moreover have "max_tool_iterations a2 = max_tool_iterations a"
      using went_setup [OF w2] by simp
    ultimately show thesis
      using that [of m rs] m(2) c False n(2) by (simp add: calls_def s1_def)
  qed
qed

lemma replace_last_assistant_append [simp]:
  "replace_last_assistant m' (ms @ [Assistant m]) = ms @ [Assistant m']"
  by (simp add: replace_last_assistant_def)

lemma went_replace:
  assumes "went w a b (ms @ [Assistant m]) ss fs ds mk"
  shows "went w a (b\<lparr>history := replace_last_assistant m' (history b)\<rparr>) (ms @ [Assistant m']) ss fs ds mk"
proof -
  have "history b = (history a @ ms) @ [Assistant m]"
    using went_history [OF assms] by simp
  then have "history (b\<lparr>history := replace_last_assistant m' (history b)\<rparr>) = (history a @ ms) @ [Assistant m']"
    by (simp del: append_assoc)
  then show ?thesis
    using assms unfolding went_def stepped_def drained_def moved_def by (simp add: setup_of_def)
qed

text \<open>The state a turn that ends the run leaves, before the last event; what that event carries.\<close>

definition run_ended ::
  "world \<Rightarrow> run_state \<Rightarrow> agent \<Rightarrow> agent \<Rightarrow> message list \<Rightarrow> string option \<Rightarrow> string + assistant_message \<Rightarrow> bool" where
  "run_ended w s a b new err r \<longleftrightarrow>
     (case r of
        Inr m \<Rightarrow>
          failed m \<and> new = r_new s @ r_pending s @ [Assistant m] \<and> err = am_error m \<and>
          (\<exists>m0. am_content m0 = am_content m \<and>
             went w a b (r_pending s @ [Assistant m]) [] [] (r_pending s @ [Assistant m0]) [Inl (r_turn s), Inr (r_turn s)])
      | Inl e \<Rightarrow>
          new = r_new s @ r_pending s \<and> err = Some e \<and>
          (\<exists>part. (part = [] \<or> (\<exists>p. part = [Assistant p])) \<and>
             went w a b (r_pending s @ part) [] [] (r_pending s) [Inl (r_turn s)]))"

lemma run_ended_failed:
  assumes "went w a b (r_pending s @ [Assistant m]) [] [] (r_pending s @ [Assistant m0]) [Inl (r_turn s)]"
    "failed m" "am_content m0 = am_content m" "new = r_new s @ r_pending s @ [Assistant m]" "err = am_error m"
  shows "run_ended w s a (end_turn (r_turn s) m [] b) new err (Inr m)"
  using assms went_end_turn [OF assms(1), of "r_turn s" m "[]"] by (auto simp: run_ended_def)

lemma turn_ends:
  assumes t: "turn w s a = Inl (a', r)" and p: "list_all spoken (r_pending s)" "r_pending s \<noteq> [] \<or> last_assistant a = None"
  obtains b new err where "a' = end_run new err b" "run_ended w s a b new err r"
proof -
  obtain a1 new1 where f: "fold add_message (r_pending s) (pass (emit (EvTurnStart (sid_of a) (r_turn s) (now w a)) a), r_new s) = (a1, new1)"
    by (rule prod.exhaust)
  note st = turn_starts [OF f p, of w]
  show thesis
  proof (cases "is_aborted w a1")
    case True
    define m where "m = build_abort_message w a1 None"
    obtain a2 new2 where a2: "add_message (Assistant m) (a1, new1) = (a2, new2)"
      by (rule prod.exhaust)
    have m: "failed m" "am_error m = Some ''Aborted''"
      by (simp_all add: m_def failed_def build_abort_message_def)
    note w2 = went_add_message [OF a2, of w]
    have "went w a a2 (r_pending s @ [Assistant m]) [] [] (r_pending s @ [Assistant m]) [Inl (r_turn s)]"
      using went_trans [of w a a1] st w2 by fastforce
    then have "run_ended w s a (end_turn (r_turn s) m [] a2) new2 (Some ''Aborted'') (Inr m)"
      using st w2 m by (intro run_ended_failed) auto
    moreover have "a' = end_run new2 (Some ''Aborted'') (end_turn (r_turn s) m [] a2)" "r = Inr m"
      using t f True a2 m(2) by (simp_all add: turn_def Let_def m_def)
    ultimately show thesis
      using that by blast
  next
    case False
    obtain a2 r1 where r1: "stream_assistant_response w a1 = (a2, r1)"
      by (rule prod.exhaust)
    have la: "last_assistant a1 = None"
      using st by blast
    show thesis
    proof (cases r1)
      case (Inl e)
      then obtain part where part: "part = [] \<or> (\<exists>p. part = [Assistant p])" "went w a1 a2 part [] [] [] []"
        using went_answer [OF la r1] by auto
      have "went w a a2 (r_pending s @ part) [] [] (r_pending s) [Inl (r_turn s)]"
        using went_trans [of w a a1] st part(2) by fastforce
      moreover have "a' = end_run new1 (Some e) a2" "r = Inl e"
        using t f False r1 Inl by (simp_all add: turn_def Let_def)
      ultimately show thesis
        using that [of new1 "Some e" a2] st part(1) unfolding run_ended_def by auto
    next
      case (Inr m)
      have "went w a1 a2 [Assistant m] [] [] [Assistant m] []"
        using went_answer [OF la r1] Inr by fastforce
      then have w2: "went w a a2 (r_pending s @ [Assistant m]) [] [] (r_pending s @ [Assistant m]) [Inl (r_turn s)]"
        using went_trans [of w a a1] st by fastforce
      show thesis
      proof (cases "failed m")
        case True
        have "a' = end_run (new1 @ [Assistant m]) (am_error m) (end_turn (r_turn s) m [] a2)" "r = Inr m"
          using t f False r1 Inr True by (simp_all add: turn_def Let_def failed_def)
        moreover have "run_ended w s a (end_turn (r_turn s) m [] a2) (new1 @ [Assistant m]) (am_error m) (Inr m)"
          using st by (intro run_ended_failed [OF w2 True]) auto
        ultimately show thesis
          using that by blast
      next
        case ok: False
        define stop where "stop = m\<lparr>am_stop := StopError, am_error := Some (max_iterations_error a2)\<rparr>"
        define c where "c = a2\<lparr>history := replace_last_assistant stop (history a2)\<rparr>"
        have "Inl (a', r) = Inl (stop_at_limit (r_turn s) m a2 (new1 @ [Assistant m]))"
          using t f False r1 Inr ok by (simp add: turn_def Let_def failed_def split: if_splits)
        then have "a' = end_run (new1 @ [Assistant stop]) (am_error stop) (end_turn (r_turn s) stop [] c)" "r = Inr stop"
          by (simp_all add: stop_at_limit_def stop_def c_def Let_def)
        moreover have "run_ended w s a (end_turn (r_turn s) stop [] c) (new1 @ [Assistant stop]) (am_error stop) (Inr stop)"
          unfolding c_def using st by (intro run_ended_failed [OF went_replace [OF w2]]) (auto simp: stop_def failed_def)
        ultimately show thesis
          using that by blast
      qed
    qed
  qed
qed

section \<open>What a run does\<close>

lemma shuffles_append_left: "zs \<in> shuffles xs ys \<Longrightarrow> zs @ us \<in> shuffles (xs @ us) ys"
proof (induction xs ys arbitrary: zs rule: shuffles.induct)
  case (1 ys)
  then show ?case
    by (induction ys arbitrary: zs) (auto simp: Cons_in_shuffles_rightI)
next
  case (3 x xs y ys)
  then show ?case
    by (auto simp: Cons_in_shuffles_iff)
qed simp

lemma shuffles_append_right: "zs \<in> shuffles xs ys \<Longrightarrow> zs @ us \<in> shuffles xs (ys @ us)"
  using shuffles_append_left by (metis shuffles_commutes)

text \<open>The prompts, then the messages taken from both queues, each in its order.\<close>

definition told :: "message list \<Rightarrow> message list \<Rightarrow> message list \<Rightarrow> message list \<Rightarrow> bool" where
  "told prompts ss fs xs \<longleftrightarrow> xs \<in> (@) prompts ` shuffles ss fs"

lemma told_left: "told prompts ss fs xs \<Longrightarrow> told prompts (ss @ us) fs (xs @ us)"
  unfolding told_def by (elim imageE) (simp add: shuffles_append_left)

lemma told_right: "told prompts ss fs xs \<Longrightarrow> told prompts ss (fs @ us) (xs @ us)"
  unfolding told_def by (elim imageE) (simp add: shuffles_append_right)

text \<open>Whatever waits or will be fetched was said by people or programs.\<close>

definition polite :: "world \<Rightarrow> agent \<Rightarrow> bool" where
  "polite w a \<longleftrightarrow> (\<forall>k. list_all spoken (waiting k (queue a)) \<and> (\<forall>t. list_all spoken (fetched w k t)))"

lemma polite_drained:
  assumes "polite w a" "drained w k a a' ms"
  shows "list_all spoken ms \<and> list_all spoken (waiting k (queue a'))"
proof -
  obtain ts where ts: "waiting k (queue a) @ concat (map (fetched w k) ts) = ms @ waiting k (queue a')"
    using assms(2) unfolding drained_def by blast
  have "list_all spoken (waiting k (queue a) @ concat (map (fetched w k) ts))"
    using assms(1) by (auto simp: polite_def list_all_iff)
  then show ?thesis
    unfolding ts by simp
qed

lemma polite_went: "polite w a \<Longrightarrow> went w a a' ms ss fs ds mk \<Longrightarrow> polite w a' \<and> list_all spoken ss \<and> list_all spoken fs"
  unfolding went_def stepped_def using polite_drained by (metis (full_types) polite_def queue_kind.exhaust)

definition all_turns :: "nat \<Rightarrow> (nat + nat) list" where
  "all_turns n = concat (map (\<lambda>i. [Inl i, Inr i]) [0..<n])"

lemma all_turns_simps [simp]: "all_turns 0 = []" "all_turns (Suc n) = all_turns n @ [Inl n, Inr n]"
  by (simp_all add: all_turns_def)

text \<open>Before a turn of a run that began in \<open>b\<close>.\<close>

definition run_inv :: "world \<Rightarrow> agent \<Rightarrow> message list \<Rightarrow> run_state \<Rightarrow> agent \<Rightarrow> bool" where
  "run_inv w b prompts s a \<longleftrightarrow>
     paired [] (history b @ r_new s) \<and> list_all spoken (r_pending s) \<and> polite w a \<and>
     (\<exists>ss fs. went w b a (r_new s) ss fs (r_new s) (all_turns (r_turn s)) \<and>
        told prompts ss fs (filter spoken (r_new s) @ r_pending s))"

text \<open>The end of a run: the state before the last event, and what was said.\<close>

definition run_done ::
  "world \<Rightarrow> agent \<Rightarrow> message list \<Rightarrow> agent \<Rightarrow> message list \<Rightarrow> string option \<Rightarrow> string + assistant_message \<Rightarrow> bool" where
  "run_done w b prompts a new err r \<longleftrightarrow>
     (\<exists>ss fs. told prompts ss fs (filter spoken new) \<and>
        (case r of
           Inr m \<Rightarrow>
             (\<exists>pre m0 n. new = pre @ [Assistant m] \<and> paired [] (history b @ pre) \<and> am_content m0 = am_content m \<and>
                went w b a new ss fs (pre @ [Assistant m0]) (all_turns n) \<and>
                (if failed m then err = am_error m
                 else err = None \<and> m0 = m \<and> extract_tool_calls (am_content m) = [] \<and> (\<forall>k. waiting k (queue a) = [])))
         | Inl e \<Rightarrow>
             (\<exists>part n. paired [] (history b @ new) \<and> (part = [] \<or> (\<exists>p. part = [Assistant p])) \<and> err = Some e \<and>
                went w b a (new @ part) ss fs new (all_turns n @ [Inl n]))))"

lemma run_done_Inr:
  assumes "run_done w b prompts a new err (Inr m)"
  obtains ss fs pre m0 n where "told prompts ss fs (filter spoken new)" "new = pre @ [Assistant m]" "paired [] (history b @ pre)"
    "am_content m0 = am_content m" "went w b a new ss fs (pre @ [Assistant m0]) (all_turns n)"
    "failed m \<Longrightarrow> err = am_error m" "\<not> failed m \<Longrightarrow> err = None" "\<not> failed m \<Longrightarrow> m0 = m"
    "\<not> failed m \<Longrightarrow> extract_tool_calls (am_content m) = []" "\<And>k. \<not> failed m \<Longrightarrow> waiting k (queue a) = []"
  using assms unfolding run_done_def sum.case by (elim exE conjE) (auto split: if_splits)

lemma run_done_Inl:
  assumes "run_done w b prompts a new err (Inl e)"
  obtains ss fs part n where "told prompts ss fs (filter spoken new)" "paired [] (history b @ new)"
    "part = [] \<or> (\<exists>p. part = [Assistant p])" "err = Some e" "went w b a (new @ part) ss fs new (all_turns n @ [Inl n])"
  using assms unfolding run_done_def sum.case by (elim exE conjE) blast

lemma filter_spoken: "list_all spoken ms \<Longrightarrow> filter spoken ms = ms"
  by (simp add: list_all_iff)

lemma spoken_simps [simp]:
  "spoken (User u t)" "spoken (Custom c)" "\<not> spoken (Assistant m)" "\<not> spoken (ToolResult r)" "filter spoken (map ToolResult rs) = []"
  by (simp_all add: spoken_def)

lemma run_inv_turn:
  assumes i: "run_inv w b prompts s a" and l: "r_pending s \<noteq> [] \<or> last_assistant a = None" and t: "turn w s a = Inr (a', s')"
  shows "run_inv w b prompts s' a' \<and> (r_more s' \<longrightarrow> last_assistant a' = None) \<and>
    (r_pending s' = [] \<longrightarrow> waiting Steering (queue a') = []) \<and>
    (\<not> r_more s' \<longrightarrow> (\<exists>m pre. r_last s' = Some m \<and> \<not> failed m \<and> extract_tool_calls (am_content m) = [] \<and>
       r_new s' = pre @ [Assistant m] \<and> paired [] (history b @ pre)))"
proof -
  have p: "list_all spoken (r_pending s)"
    using i by (simp add: run_inv_def)
  obtain m rs where
    w: "went w a a' (turn_messages s m rs) (r_pending s') [] (turn_messages s m rs) [Inl (r_turn s), Inr (r_turn s)]" and
    rs: "list_all2 replies (extract_tool_calls (am_content m)) rs" and m: "\<not> failed m" and
    new: "r_new s' = r_new s @ turn_messages s m rs" and la: "r_last s' = Some m" and
    n: "r_turn s' = Suc (r_turn s)" and mo: "r_more s' \<longleftrightarrow> extract_tool_calls (am_content m) \<noteq> []" and
    q: "r_pending s' = [] \<longrightarrow> waiting Steering (queue a') = []"
    by (rule turn_continues [OF t p l]) blast
  obtain ss fs where o: "went w b a (r_new s) ss fs (r_new s) (all_turns (r_turn s))"
    "told prompts ss fs (filter spoken (r_new s) @ r_pending s)"
    using i unfolding run_inv_def by blast
  have pr: "paired [] (history b @ r_new s @ r_pending s)"
    using paired_append [OF _ paired_spoken [OF p], of "[]" "history b @ r_new s"] i by (simp add: run_inv_def)
  have "went w b a' (r_new s') (ss @ r_pending s') fs (r_new s') (all_turns (r_turn s'))"
    using went_trans [OF o(1) w] by (simp add: new n)
  moreover have "told prompts (ss @ r_pending s') fs (filter spoken (r_new s') @ r_pending s')"
    using told_left [OF o(2), of "r_pending s'"] by (simp add: new turn_messages_def filter_spoken [OF p])
  moreover have "polite w a' \<and> list_all spoken (r_pending s')"
    using polite_went [OF _ w] i by (simp add: run_inv_def)
  moreover have "paired [] (history b @ r_new s')"
    using paired_append [OF pr paired_answer [OF rs]] by (simp add: new turn_messages_def)
  moreover have "last_assistant a' = None" if "r_more s'"
  proof -
    have "rs \<noteq> []"
      using that mo rs by auto
    then show ?thesis
      using went_history [OF w] by (auto simp: last_assistant_def turn_messages_def last_map)
  qed
  moreover have "rs = []" if "\<not> r_more s'"
    using that mo rs by simp
  moreover have "r_new s' = (r_new s @ r_pending s) @ [Assistant m]" if "rs = []"
    using that by (simp add: new turn_messages_def)
  ultimately show ?thesis
    using q la m mo pr unfolding run_inv_def by (metis append_assoc)
qed

lemma run_inv_follow_up:
  assumes "run_inv w b prompts s a" "drain_follow_up_messages w a = (a', ms)" "r_pending s = []"
  shows "run_inv w b prompts (s\<lparr>r_pending := ms, r_more := True\<rparr>) a'"
proof -
  obtain ss fs where o: "went w b a (r_new s) ss fs (r_new s) (all_turns (r_turn s))"
    "told prompts ss fs (filter spoken (r_new s))"
    using assms(1,3) unfolding run_inv_def by auto
  have d: "went w a a' [] [] ms [] []"
    using went_drain [OF assms(2)] by simp
  have "told prompts ss (fs @ ms) (filter spoken (r_new s) @ ms)"
    by (rule told_right [OF o(2)])
  then show ?thesis
    using went_trans [OF o(1) d] polite_went [OF _ d] assms(1) unfolding run_inv_def by auto
qed

lemma run_inv_ends:
  assumes "run_inv w b prompts s a" "run_ended w s a c new err r"
  shows "run_done w b prompts c new err r"
proof -
  obtain ss fs where o: "went w b a (r_new s) ss fs (r_new s) (all_turns (r_turn s))"
    "told prompts ss fs (filter spoken (r_new s) @ r_pending s)"
    using assms(1) unfolding run_inv_def by blast
  have p: "list_all spoken (r_pending s)"
    using assms(1) by (simp add: run_inv_def)
  have pr: "paired [] (history b @ r_new s @ r_pending s)"
    using paired_append [OF _ paired_spoken [OF p], of "[]" "history b @ r_new s"] assms(1) by (simp add: run_inv_def)
  show ?thesis
  proof (cases r)
    case (Inl e)
    then obtain part where part: "part = [] \<or> (\<exists>p. part = [Assistant p])"
      "went w a c (r_pending s @ part) [] [] (r_pending s) [Inl (r_turn s)]" "new = r_new s @ r_pending s" "err = Some e"
      using assms(2) by (auto simp: run_ended_def)
    have "went w b c (new @ part) ss fs new (all_turns (r_turn s) @ [Inl (r_turn s)])"
      using went_trans [OF o(1) part(2)] by (simp add: part(3))
    moreover have "told prompts ss fs (filter spoken new)"
      using o(2) by (simp add: part(3) filter_spoken [OF p])
    moreover have "paired [] (history b @ new)"
      using pr by (simp add: part(3))
    ultimately show ?thesis
      unfolding run_done_def Inl using part(1,4) by (simp only: sum.case) blast
  next
    case (Inr m)
    then obtain m0 where m0: "am_content m0 = am_content m"
      "went w a c (r_pending s @ [Assistant m]) [] [] (r_pending s @ [Assistant m0]) [Inl (r_turn s), Inr (r_turn s)]"
      "failed m" "new = r_new s @ r_pending s @ [Assistant m]" "err = am_error m"
      using assms(2) by (auto simp: run_ended_def)
    have "went w b c new ss fs ((r_new s @ r_pending s) @ [Assistant m0]) (all_turns (Suc (r_turn s)))"
      using went_trans [OF o(1) m0(2)] by (simp add: m0(4))
    moreover have "told prompts ss fs (filter spoken new)"
      using o(2) by (simp add: m0(4) filter_spoken [OF p])
    moreover have "new = (r_new s @ r_pending s) @ [Assistant m]" "paired [] (history b @ (r_new s @ r_pending s))"
      using m0(4) pr by simp_all
    ultimately show ?thesis
      unfolding run_done_def Inr using m0(1,3,5) by (simp only: sum.case if_True) blast
  qed
qed

lemma run_turns_done:
  "run_turns w s a = Some (a', r) \<Longrightarrow> run_inv w b prompts s a \<Longrightarrow> r_pending s \<noteq> [] \<or> last_assistant a = None \<Longrightarrow>
     \<exists>c new err. a' = end_run new err c \<and> run_done w b prompts c new err r"
proof (induction w s a "(a', r)" rule: run_turns.raw_induct [rotated 1, consumes 1])
  case (1 loop w s a)
  show ?case
  proof (cases "turn w s a")
    case (Inl outcome)
    then have t: "turn w s a = Inl (a', r)"
      using 1(2) by simp
    have "list_all spoken (r_pending s)"
      using 1(3) by (simp add: run_inv_def)
    then show ?thesis
      using turn_ends [OF t _ 1(4)] run_inv_ends [OF 1(3)] by metis
  next
    case (Inr x)
    obtain a1 s1 where x: "x = (a1, s1)"
      by (rule prod.exhaust)
    note i1 = run_inv_turn [OF 1(3,4) Inr [unfolded x]]
    show ?thesis
    proof (cases "r_more s1 \<or> r_pending s1 \<noteq> []")
      case True
      then show ?thesis
        using 1(1) [of w s1 a1] 1(2) i1 Inr x by auto
    next
      case False
      obtain a2 ms where d: "drain_follow_up_messages w a1 = (a2, ms)"
        by (rule prod.exhaust)
      show ?thesis
      proof (cases "ms = []")
        case more: False
        then show ?thesis
          using 1(1) [of w "s1\<lparr>r_pending := ms, r_more := True\<rparr>" a2] 1(2) False Inr x d
            run_inv_follow_up [OF conjunct1 [OF i1] d] by auto
      next
        case True
        obtain m pre where m: "r_last s1 = Some m" "\<not> failed m" "extract_tool_calls (am_content m) = []"
          "r_new s1 = pre @ [Assistant m]" "paired [] (history b @ pre)"
          using i1 False by blast
        have "waiting FollowUp (queue a2) = []" "waiting Steering (queue a2) = waiting Steering (queue a1)"
          using drain_steps [OF d] True by auto
        then have w: "waiting k (queue a2) = []" for k
          using i1 False by (cases k) auto
        obtain ss fs where o: "went w b a2 (r_new s1) ss fs (r_new s1) (all_turns (r_turn s1))"
          "told prompts ss fs (filter spoken (r_new s1))"
          using run_inv_follow_up [OF conjunct1 [OF i1] d] False True unfolding run_inv_def by auto
        have "a' = end_run (r_new s1) None a2" "r = Inr m"
          using 1(2) False Inr x d True m(1) by (simp_all add: end_normally_def)
        moreover have "run_done w b prompts a2 (r_new s1) None (Inr m)"
          unfolding run_done_def using o m w by (intro exI [of _ ss] exI [of _ fs] conjI) auto
        ultimately show ?thesis
          by blast
      qed
    qed
  qed
qed

definition first_state :: "message list \<Rightarrow> message list \<Rightarrow> run_state" where
  "first_state new pending =
     \<lparr>r_new = new, r_iterations = 0, r_turn = 0, r_last = None, r_pending = pending, r_more = True\<rparr>"

definition run_base :: "agent \<Rightarrow> agent" where
  "run_base a = pass (emit (EvAgentStart (sid_of a)) a)"

lemma run_base_simps [simp]:
  "history (run_base a) = history a" "queue (run_base a) = queue a" "tick (run_base a) = Suc (tick a)"
  "emitted (run_base a) = emitted a @ [EvAgentStart (sid_of a)]" "sid_of (run_base a) = sid_of a"
  "max_tool_iterations (run_base a) = max_tool_iterations a"
  by (simp_all add: run_base_def pass_def emit_def sid_of_def)

lemma last_assistant_cong: "history a = history b \<Longrightarrow> last_assistant a = last_assistant b"
  by (simp add: last_assistant_def)

lemma run_loop_begins:
  assumes "list_all spoken prompts" "prompts \<noteq> [] \<or> last_assistant a = None"
  obtains a2 pending where
    "run_loop w prompts a = run_turns w (first_state prompts pending) a2" "last_assistant a2 = None"
    "went w (run_base a) a2 prompts pending [] prompts []"
proof -
  obtain a1 new where f: "fold add_message prompts (run_base a, []) = (a1, new)"
    by (rule prod.exhaust)
  obtain a2 pending where d: "drain_steering_messages w a1 = (a2, pending)"
    by (rule prod.exhaust)
  have w: "went w (run_base a) a1 prompts [] [] prompts []" "new = prompts"
    using went_add_messages [OF f, of w] by auto
  have w2: "went w (run_base a) a2 prompts pending [] prompts []"
    using went_trans [OF w(1) went_drain [OF d]] by simp
  moreover have "last_assistant a2 = None"
    by (rule last_said [OF went_history [OF w2] assms(1)])
       (use assms(2) last_assistant_cong [of "run_base a" a] in auto)
  moreover have "run_loop w prompts a = run_turns w (first_state prompts pending) a2"
    using f d w(2) by (simp add: run_loop_def first_state_def run_base_def)
  ultimately show thesis
    using that by blast
qed

lemma run_loop_done:
  assumes "run_loop w prompts a = Some (a', r)" "paired [] (history a)" "polite w a" "list_all spoken prompts"
    "prompts \<noteq> [] \<or> last_assistant a = None"
  obtains c new err where "a' = end_run new err c" "run_done w (run_base a) prompts c new err r"
proof -
  obtain a2 pending where b: "run_loop w prompts a = run_turns w (first_state prompts pending) a2" "last_assistant a2 = None"
    "went w (run_base a) a2 prompts pending [] prompts []"
    by (rule run_loop_begins [OF assms(4,5)])
  have "polite w (run_base a)"
    using assms(3) by (simp add: polite_def)
  then have "polite w a2 \<and> list_all spoken pending"
    using polite_went [OF _ b(3)] by blast
  moreover have "told prompts pending [] (filter spoken prompts @ pending)"
    by (simp add: told_def filter_spoken [OF assms(4)])
  ultimately have "run_inv w (run_base a) prompts (first_state prompts pending) a2"
    using b(3) paired_append [OF assms(2) paired_spoken [OF assms(4)]] unfolding run_inv_def by (auto simp: first_state_def)
  then show thesis
    using run_turns_done [of w "first_state prompts pending" a2 a' r "run_base a" prompts] assms(1) b(1,2) that by auto
qed

section \<open>A run ends\<close>

text \<open>The messages that wait or will be fetched before the instant \<open>T\<close>.\<close>

definition coming :: "world \<Rightarrow> nat \<Rightarrow> queue_kind \<Rightarrow> agent \<Rightarrow> nat" where
  "coming w T k a = length (waiting k (queue a)) + (\<Sum>t = tick a..<T. length (fetched w k t))"

lemma coming_drained:
  assumes "drained w k a a' ms" "tick a \<le> tick a'" "\<And>t. T \<le> t \<Longrightarrow> fetched w k t = []"
  shows "length ms + coming w T k a' \<le> coming w T k a"
proof -
  let ?f = "\<lambda>t. length (fetched w k t)"
  obtain ts where ts: "sorted_wrt (<) ts" "\<forall>t \<in> set ts. tick a \<le> t \<and> t < tick a'"
    "waiting k (queue a) @ concat (map (fetched w k) ts) = ms @ waiting k (queue a')"
    using assms(1) unfolding drained_def by blast
  have "length (concat (map (fetched w k) ts)) = (\<Sum>t \<in> set ts. ?f t)"
    using ts(1) by (simp add: length_concat sum_list_distinct_conv_sum_set strict_sorted_iff comp_def)
  also have "\<dots> = (\<Sum>t \<in> set ts \<inter> {..<T}. ?f t)"
    using assms(3) by (intro sum.mono_neutral_right) (auto simp: not_less)
  finally have l: "length (concat (map (fetched w k) ts)) = (\<Sum>t \<in> set ts \<inter> {..<T}. ?f t)" .
  have "(\<Sum>t \<in> set ts \<inter> {..<T}. ?f t) + (\<Sum>t = tick a'..<T. ?f t) = (\<Sum>t \<in> (set ts \<inter> {..<T}) \<union> {tick a'..<T}. ?f t)"
    using ts(2) by (intro sum.union_disjoint [symmetric]) auto
  also have "\<dots> \<le> (\<Sum>t = tick a..<T. ?f t)"
    using ts(2) assms(2) by (intro sum_mono2) auto
  finally have "length (concat (map (fetched w k) ts)) + (\<Sum>t = tick a'..<T. ?f t) \<le> (\<Sum>t = tick a..<T. ?f t)"
    by (simp add: l)
  moreover have "length (waiting k (queue a)) + length (concat (map (fetched w k) ts)) = length ms + length (waiting k (queue a'))"
    using arg_cong [OF ts(3), of length] by simp
  ultimately show ?thesis
    by (simp add: coming_def)
qed

text \<open>What a run has left: messages, those taken already, iterations, and a turn owed.\<close>

definition left_over :: "world \<Rightarrow> nat \<Rightarrow> run_state \<Rightarrow> agent \<Rightarrow> nat" where
  "left_over w T s a =
     2 * (coming w T Steering a + coming w T FollowUp a) + length (r_pending s) +
     2 * (max_tool_iterations a - r_iterations s) + (if r_more s then 1 else 0)"

lemma went_coming:
  assumes "went w a a' ms ss fs ds mk" "\<And>k t. T \<le> t \<Longrightarrow> fetched w k t = []"
  shows "length ss + coming w T Steering a' \<le> coming w T Steering a \<and> length fs + coming w T FollowUp a' \<le> coming w T FollowUp a"
  using assms coming_drained went_setup [OF assms(1)] unfolding went_def stepped_def by blast

lemma turn_uses:
  assumes T: "\<And>k t. T \<le> t \<Longrightarrow> fetched w k t = []"
    and t: "turn w s a = Inr (a', s')" and p: "list_all spoken (r_pending s)" "r_pending s \<noteq> [] \<or> last_assistant a = None"
    and m: "r_more s \<or> r_pending s \<noteq> []"
  shows "left_over w T s' a' < left_over w T s a"
proof -
  obtain m rs where
    w: "went w a a' (turn_messages s m rs) (r_pending s') [] (turn_messages s m rs) [Inl (r_turn s), Inr (r_turn s)]" and
    it: "r_iterations s' = r_iterations s + (if r_more s' then 1 else 0)" "r_more s' \<longrightarrow> r_iterations s' \<le> max_tool_iterations a"
    by (rule turn_continues [OF t p]) blast
  have c: "length (r_pending s') + coming w T Steering a' \<le> coming w T Steering a" "coming w T FollowUp a' \<le> coming w T FollowUp a"
    using went_coming [OF w T] by auto
  have mi: "max_tool_iterations a' = max_tool_iterations a"
    using went_setup [OF w] by simp
  show ?thesis
    using c it m unfolding left_over_def mi by (cases "r_more s'"; cases "r_pending s") auto
qed

lemma run_turns_returns:
  assumes T: "\<And>k t. T \<le> t \<Longrightarrow> fetched w k t = []"
  shows "polite w a \<Longrightarrow> list_all spoken (r_pending s) \<Longrightarrow> r_pending s \<noteq> [] \<or> last_assistant a = None \<Longrightarrow>
     r_more s \<or> r_pending s \<noteq> [] \<Longrightarrow> \<exists>y. run_turns w s a = Some y"
proof (induction "left_over w T s a" arbitrary: s a rule: less_induct)
  case less
  show ?case
  proof (cases "turn w s a")
    case (Inl outcome)
    then show ?thesis
      by (simp add: run_turns.simps [of w s a])
  next
    case (Inr x)
    obtain a1 s1 where x: "x = (a1, s1)"
      by (rule prod.exhaust)
    obtain m rs where
      w: "went w a a1 (turn_messages s m rs) (r_pending s1) [] (turn_messages s m rs) [Inl (r_turn s), Inr (r_turn s)]" and
      rs: "list_all2 replies (extract_tool_calls (am_content m)) rs" "r_more s1 \<longleftrightarrow> extract_tool_calls (am_content m) \<noteq> []"
      by (rule turn_continues [OF Inr [unfolded x] less(3,4)]) blast
    have p1: "polite w a1" "list_all spoken (r_pending s1)"
      using polite_went [OF less(2) w] by auto
    have u: "left_over w T s1 a1 < left_over w T s a"
      by (rule turn_uses [OF T Inr [unfolded x] less(3-5)])
    have la: "r_more s1 \<Longrightarrow> last_assistant a1 = None"
      using rs went_history [OF w] by (auto simp: last_assistant_def turn_messages_def last_map)
    show ?thesis
    proof (cases "r_more s1 \<or> r_pending s1 \<noteq> []")
      case True
      then show ?thesis
        using less(1) [OF u p1] la Inr x by (auto simp: run_turns.simps [of w s a])
    next
      case False
      obtain a2 ms where d: "drain_follow_up_messages w a1 = (a2, ms)"
        by (rule prod.exhaust)
      have wd: "went w a1 a2 [] [] ms [] []"
        using went_drain [OF d] by simp
      show ?thesis
      proof (cases "ms = []")
        case True
        then show ?thesis
          using Inr x False d by (simp add: run_turns.simps [of w s a])
      next
        case more: False
        define s2 where "s2 = s1\<lparr>r_pending := ms, r_more := True\<rparr>"
        have "coming w T Steering a2 \<le> coming w T Steering a1" "length ms + coming w T FollowUp a2 \<le> coming w T FollowUp a1"
          using went_coming [OF wd T] by auto
        moreover have "1 \<le> length ms"
          using more by (cases ms) auto
        ultimately have "left_over w T s2 a2 \<le> left_over w T s1 a1"
          using False went_setup [OF wd] unfolding left_over_def by (simp add: s2_def)
        moreover have "polite w a2" "list_all spoken (r_pending s2)"
          using polite_went [OF p1(1) wd] by (auto simp: s2_def)
        ultimately have "\<exists>y. run_turns w s2 a2 = Some y"
          using less(1) [of s2 a2] u more by (auto simp: s2_def)
        then show ?thesis
          using Inr x False d more by (simp add: run_turns.simps [of w s a] s2_def)
      qed
    qed
  qed
qed

end
