(* ===== verification/Agent_Runs.thy ===== *)
theory Agent_Runs
  imports Agent_Loop
begin

text \<open>
  What a run of the agent guarantees, and what it leaves behind when an answer is cut off.
\<close>

section \<open>An example\<close>

text \<open>A prompt, a message that waits, an answer that calls a tool, and a last one.\<close>

definition sample_call :: tool_call where
  "sample_call = \<lparr>call_id = ''c1'', call_name = ''bash'', call_args = JNull, call_signature = None\<rparr>"

definition sample_answer :: "stop_reason \<Rightarrow> block list \<Rightarrow> assistant_message" where
  "sample_answer r bs =
     \<lparr>am_content = bs, am_api = ''api'', am_provider = ''p'', am_model = ''m'', am_usage = no_usage, am_stop = r,
      am_error = None, am_timestamp = 0\<rparr>"

definition sample_stream :: "llm_context \<Rightarrow> (string + stream_event) list" where
  "sample_stream ctx =
     (case last (cx_messages ctx) of
        ToolResult _ \<Rightarrow>
          [Inr (SStart (sample_answer StopNormal [])), Inr (STextStart 0), Inr (STextDelta 0 ''ok''),
           Inr (SDone StopNormal (sample_answer StopNormal [TextB ''ok'' None]))]
      | _ \<Rightarrow> [Inr (SDone StopToolUse (sample_answer StopToolUse [CallB sample_call]))])"

definition sample_world :: world where
  "sample_world =
     \<lparr>aborts_at = None, fetched = \<lambda>_ _. [], opened = \<lambda>_ ctx. Inr (sample_stream ctx), tool_defs = [],
      read_only = (\<lambda>n. if n = ''bash'' then Some False else None), extended = False, call_hook = \<lambda>_ _. Inr None,
      result_hook = \<lambda>_ _ _ _. Inr None, ran = \<lambda>_ _. ([], Inr \<lparr>out_content = [TextB ''done'' None], out_details = None, out_error = False\<rparr>),
      woven = \<lambda>_. 0, at_once = \<lambda>_. False, clock = \<lambda>_. 0\<rparr>"

definition sample_agent :: agent where
  "sample_agent =
     \<lparr>pr_api = ''api'', pr_name = ''p'', pr_model = ''m'', system_prompt = None, max_tool_iterations = 50,
      session_id = Some ''s'', block_images = False, history = [],
      queue = fst (push_queue 0 Steering (User (PlainText ''and'') 0) (new_queue OneAtATime OneAtATime)), emitted = [], tick = 0\<rparr>"

lemmas run_evaluation =
  run_loop_def run_turns.simps turn_def next_turn_def end_turn_def end_run_def end_normally_def stop_at_limit_def
  sid_of_def add_message_def emit_def pass_def push_message_def is_aborted_def now_def drain_queue_def pop_queue_def
  take_queue_def push_queue_def new_queue_def stream_assistant_response_def stream_loop.simps stream_step_def
  last_assistant_def replace_last_def update_partial_message_def finalize_assistant_message_def build_context_def
  shown_def open_block_def change_block_def execute_tool_calls_def flush_rest_def flush_parallel_def
  execute_tool_def start_tool_def execute_tool_without_hooks_def apply_tool_result_hook_def late_steering_def
  settle_call_def give_result_def Let_def

abbreviation sample_prompts :: "message list" where
  "sample_prompts \<equiv> [User (PlainText ''go'') 0]"

abbreviation sample_end :: "assistant_message" where
  "sample_end \<equiv> sample_answer StopNormal [TextB ''ok'' None]"

definition sample_result :: tool_result_message where
  "sample_result =
     \<lparr>tr_call_id = ''c1'', tr_tool_name = ''bash'', tr_content = [TextB ''done'' None], tr_details = None,
      tr_is_error = False, tr_timestamp = 0\<rparr>"

definition sample_said :: "message list" where
  "sample_said =
     [User (PlainText ''go'') 0, User (PlainText ''and'') 0, Assistant (sample_answer StopToolUse [CallB sample_call]),
      ToolResult sample_result]"

lemma sample_run:
  obtains a' where "run_loop sample_world sample_prompts sample_agent = Some (a', Inr sample_end)"
    "history a' = sample_said @ [Assistant sample_end]"
proof -
  have "\<exists>a'. run_loop sample_world sample_prompts sample_agent = Some (a', Inr sample_end) \<and>
    history a' = sample_said @ [Assistant sample_end]"
    by (simp add: run_evaluation sample_world_def sample_agent_def sample_stream_def sample_answer_def sample_call_def
      sample_said_def sample_result_def)
  then show thesis
    using that by blast
qed

lemma sample_polite: "polite sample_world sample_agent"
  unfolding polite_def
proof
  fix k
  show "list_all spoken (waiting k (queue sample_agent)) \<and> (\<forall>t. list_all spoken (fetched sample_world k t))"
    by (cases k) (simp_all add: sample_world_def sample_agent_def waiting_def push_queue_def new_queue_def Let_def spoken_def)
qed

lemma sample_spoken [simp]: "list_all spoken sample_prompts" "paired [] (history sample_agent)"
  by (simp_all add: spoken_def sample_agent_def)

lemma sample_new: "drop (length (history sample_agent)) (sample_said @ [Assistant sample_end]) = sample_said @ [Assistant sample_end]"
  by (simp add: sample_agent_def)

section \<open>The transcript\<close>

text \<open>C7. Given a transcript where every call of a tool is answered, a run leaves one: what was said is such a
  transcript, and only the last message may break it, by an answer that failed or was cut off.\<close>

theorem run_transcript:
  assumes "run_loop w prompts a = Some (a', r)" "paired [] (history a)" "polite w a" "list_all spoken prompts"
    "prompts \<noteq> [] \<or> last_assistant a = None"
  shows "\<exists>said. paired [] (history a @ said) \<and>
    (case r of
       Inr m \<Rightarrow> history a' = history a @ said @ [Assistant m] \<and> (failed m \<or> paired [] (history a'))
     | Inl e \<Rightarrow> history a' = history a @ said \<or> (\<exists>p. history a' = history a @ said @ [Assistant p]))"
proof -
  obtain c new err where c: "a' = end_run new err c" "run_done w (run_base a) prompts c new err r"
    by (rule run_loop_done [OF assms])
  have h: "history a' = history c"
    by (simp add: c(1) end_run_def emit_def)
  show ?thesis
  proof (cases r)
    case (Inl e)
    obtain ss fs part n where d: "paired [] (history (run_base a) @ new)" "part = [] \<or> (\<exists>p. part = [Assistant p])"
      "went w (run_base a) c (new @ part) ss fs new (all_turns n @ [Inl n])"
      by (rule run_done_Inl [OF c(2) [unfolded Inl]]) blast
    show ?thesis
      unfolding Inl h using d(1,2) went_history [OF d(3)] by (intro exI [of _ new]) auto
  next
    case (Inr m)
    obtain ss fs pre m0 n where d: "new = pre @ [Assistant m]" "paired [] (history (run_base a) @ pre)"
      "went w (run_base a) c new ss fs (pre @ [Assistant m0]) (all_turns n)"
      "\<not> failed m \<Longrightarrow> extract_tool_calls (am_content m) = []"
      by (rule run_done_Inr [OF c(2) [unfolded Inr]]) blast
    have "paired [] (history a @ pre @ [Assistant m])" if "\<not> failed m"
      using paired_append [OF d(2), of "[Assistant m]"] d(4) [OF that] by simp
    then show ?thesis
      unfolding Inr h using d(1,2) went_history [OF d(3)] by (intro exI [of _ pre]) auto
  qed
qed

theorem run_transcript_witness:
  "\<exists>a' said. run_loop sample_world sample_prompts sample_agent = Some (a', Inr sample_end) \<and>
     paired [] (history sample_agent @ said) \<and> history a' = history sample_agent @ said @ [Assistant sample_end]"
proof (rule sample_run)
  fix a'
  assume "run_loop sample_world sample_prompts sample_agent = Some (a', Inr sample_end)"
  then show ?thesis
    using run_transcript [of sample_world sample_prompts sample_agent a' "Inr sample_end"] sample_polite by auto
qed

section \<open>Queued messages\<close>

lemma drained_run:
  assumes "went w (run_base a) c ms ss fs ds mk"
  shows "drained w Steering a (end_run new err c) ss \<and> drained w FollowUp a (end_run new err c) fs"
proof -
  have "queue (end_run new err c) = queue c" "tick (end_run new err c) = tick c"
    by (simp_all add: end_run_def emit_def)
  then show ?thesis
    using assms unfolding went_def stepped_def drained_def by simp (meson Suc_leD)
qed

text \<open>C8. The messages of people in what a run adds are its prompts and then those taken from the two queues,
  each queue's in the order of arrival: of what waited and what was fetched at successive instants none is
  lost, said twice or out of order, and what was not taken still waits. After a run that did not fail nothing
  waits.\<close>

theorem run_delivers:
  assumes "run_loop w prompts a = Some (a', r)" "paired [] (history a)" "polite w a" "list_all spoken prompts"
    "prompts \<noteq> [] \<or> last_assistant a = None"
  shows "\<exists>ss fs. drained w Steering a a' ss \<and> drained w FollowUp a a' fs \<and>
    told prompts ss fs (filter spoken (drop (length (history a)) (history a'))) \<and>
    (\<forall>m k. r = Inr m \<longrightarrow> failed m \<or> waiting k (queue a') = [])"
proof -
  obtain c new err where c: "a' = end_run new err c" "run_done w (run_base a) prompts c new err r"
    by (rule run_loop_done [OF assms])
  have h: "history a' = history c" "queue a' = queue c"
    by (simp_all add: c(1) end_run_def emit_def)
  show ?thesis
  proof (cases r)
    case (Inl e)
    obtain ss fs part n where d: "told prompts ss fs (filter spoken new)" "part = [] \<or> (\<exists>p. part = [Assistant p])"
      "went w (run_base a) c (new @ part) ss fs new (all_turns n @ [Inl n])"
      by (rule run_done_Inl [OF c(2) [unfolded Inl]]) blast
    have "filter spoken (drop (length (history a)) (history a')) = filter spoken new"
      using d(2) went_history [OF d(3)] by (auto simp: h)
    then show ?thesis
      using d(1) drained_run [OF d(3), of new err] Inl unfolding c(1) [symmetric] by auto
  next
    case (Inr m)
    obtain ss fs pre m0 n where d: "told prompts ss fs (filter spoken new)"
      "went w (run_base a) c new ss fs (pre @ [Assistant m0]) (all_turns n)" "\<And>k. \<not> failed m \<Longrightarrow> waiting k (queue c) = []"
      by (rule run_done_Inr [OF c(2) [unfolded Inr]]) blast
    have "drop (length (history a)) (history a') = new"
      using went_history [OF d(2)] by (simp add: h)
    then show ?thesis
      using d(1,3) drained_run [OF d(2), of new err] Inr unfolding c(1) [symmetric] h(2) by auto
  qed
qed

theorem run_delivers_witness:
  "\<exists>a' ss fs. run_loop sample_world sample_prompts sample_agent = Some (a', Inr sample_end) \<and>
     drained sample_world Steering sample_agent a' ss \<and>
     told sample_prompts ss fs [User (PlainText ''go'') 0, User (PlainText ''and'') 0] \<and> (\<forall>k. waiting k (queue a') = [])"
proof (rule sample_run)
  fix a'
  assume a': "run_loop sample_world sample_prompts sample_agent = Some (a', Inr sample_end)"
    "history a' = sample_said @ [Assistant sample_end]"
  have "filter spoken (drop (length (history sample_agent)) (history a')) = [User (PlainText ''go'') 0, User (PlainText ''and'') 0]"
    unfolding a'(2) sample_new by (simp add: sample_said_def)
  moreover have "\<not> failed sample_end"
    by (simp add: failed_def sample_answer_def)
  ultimately show ?thesis
    using run_delivers [OF a'(1)] sample_polite a'(1) by auto
qed

section \<open>A run returns\<close>

text \<open>C10. A run whose answers end returns, whatever the tools and hooks do, when from some instant on no
  more messages are fetched: calls of tools are bounded by the limit of iterations, and every other turn
  uses up a message.\<close>

theorem run_returns:
  assumes "\<And>k t. T \<le> t \<Longrightarrow> fetched w k t = []" "polite w a" "list_all spoken prompts" "prompts \<noteq> [] \<or> last_assistant a = None"
  shows "\<exists>a' r. run_loop w prompts a = Some (a', r)"
proof -
  obtain a2 pending where b: "run_loop w prompts a = run_turns w (first_state prompts pending) a2" "last_assistant a2 = None"
    "went w (run_base a) a2 prompts pending [] prompts []"
    by (rule run_loop_begins [OF assms(3,4)])
  have "polite w (run_base a)"
    using assms(2) by (simp add: polite_def)
  then have "polite w a2 \<and> list_all spoken pending"
    using polite_went [OF _ b(3)] by blast
  then show ?thesis
    using run_turns_returns [OF assms(1), where a = a2 and s = "first_state prompts pending"] b(1,2) by (auto simp: first_state_def)
qed

theorem run_returns_witness: "\<exists>a' r. run_loop sample_world sample_prompts sample_agent = Some (a', r)"
  by (rule run_returns [of 0]) (simp_all add: sample_world_def sample_polite [unfolded sample_world_def])

section \<open>The calls of an answer\<close>

text \<open>C9. Whatever is queued, blocked, aborted or run together, each call of an answer is started once and
  ended once, in order, and gets one result, in order, in the history, the new messages and the events: that
  of a run of this very call or a refusal; without an abort and with nothing queued it is no refusal.\<close>

theorem calls_answered_once:
  assumes "execute_tool_calls w calls (a, new) = ((a', new'), rs, steering)"
  shows "history a' = history a @ map ToolResult rs \<and> new' = new @ map ToolResult rs \<and>
    list_all2 (\<lambda>c r. replies c r \<and> (refusal r \<or> (\<exists>v. produced w c v \<and> gives v r))) calls rs \<and>
    (\<exists>es. emitted a' = emitted a @ es \<and> tool_starts es = map call_id calls \<and> tool_ends es = map call_id calls \<and>
       ended es = map ToolResult rs) \<and>
    (aborts_at w = None \<and> steering = None \<longrightarrow> list_all2 (\<lambda>c r. \<exists>v. produced w c v \<and> gives v r) calls rs)"
proof -
  note e = execute_tool_calls_all [OF assms]
  then obtain es where es: "stepped w a a' (map ToolResult rs) es (case_option [] id steering) []" "new' = new @ map ToolResult rs"
    "list_all2 replies calls rs" "ended es = map ToolResult rs" "tool_starts es = map call_id calls" "tool_ends es = map call_id calls"
    unfolding all_answered_def by auto
  have "history a' = history a @ map ToolResult rs" "emitted a' = emitted a @ es"
    using es(1) moved_fields unfolding stepped_def by blast+
  moreover have "list_all2 (\<lambda>c r. replies c r \<and> (refusal r \<or> (\<exists>v. produced w c v \<and> gives v r))) calls rs"
    using conjunct1 [OF conjunct2 [OF conjunct2 [OF e]]] es(3) by (auto simp: list_all2_conv_all_nth)
  ultimately show ?thesis
    using es conjunct2 [OF conjunct2 [OF conjunct2 [OF e]]] by blast
qed

text \<open>Two calls of a read-only tool, and one that is not.\<close>

definition reading_call :: "string \<Rightarrow> tool_call" where
  "reading_call i = \<lparr>call_id = i, call_name = ''read'', call_args = JNull, call_signature = None\<rparr>"

definition reading_world :: world where
  "reading_world = sample_world\<lparr>read_only := (\<lambda>n. Some (n = ''read'')), woven := \<lambda>_. 1\<rparr>"

theorem calls_answered_once_witness:
  "\<exists>a' new' rs. execute_tool_calls reading_world [reading_call ''c2'', reading_call ''c3'', sample_call]
       (sample_agent\<lparr>queue := new_queue OneAtATime OneAtATime\<rparr>, []) = ((a', new'), rs, None) \<and>
     map tr_call_id rs = [''c2'', ''c3'', ''c1''] \<and> length (history a') = 3 \<and>
     list_all2 (\<lambda>c r. \<exists>v. produced reading_world c v \<and> gives v r) [reading_call ''c2'', reading_call ''c3'', sample_call] rs"
proof -
  have "\<exists>a' new' rs. execute_tool_calls reading_world [reading_call ''c2'', reading_call ''c3'', sample_call]
       (sample_agent\<lparr>queue := new_queue OneAtATime OneAtATime\<rparr>, []) = ((a', new'), rs, None) \<and>
     map tr_call_id rs = [''c2'', ''c3'', ''c1'']"
    by (simp add: run_evaluation reading_world_def sample_world_def sample_agent_def sample_call_def reading_call_def
      execute_parallel_batch_def batch_loop.simps MAX_CONCURRENT_TOOLS_def start_running_def without_def store_results_def)
  then obtain a' new' rs where r: "execute_tool_calls reading_world [reading_call ''c2'', reading_call ''c3'', sample_call]
       (sample_agent\<lparr>queue := new_queue OneAtATime OneAtATime\<rparr>, []) = ((a', new'), rs, None)"
    "map tr_call_id rs = [''c2'', ''c3'', ''c1'']"
    by (elim exE conjE) (rule that)
  have "aborts_at reading_world = None" "history (sample_agent\<lparr>queue := new_queue OneAtATime OneAtATime\<rparr>) = []"
    by (simp_all add: reading_world_def sample_world_def sample_agent_def)
  moreover have "length rs = 3"
    using arg_cong [OF r(2), of length] by simp
  ultimately show ?thesis
    using calls_answered_once [OF r(1)] r by simp
qed

section \<open>Answers that are cut off\<close>

definition cut_world :: "(string + stream_event) list \<Rightarrow> world" where
  "cut_world items = sample_world\<lparr>opened := \<lambda>_ _. Inr items\<rparr>"

text \<open>A stream that ends after a call was read leaves the call in the history, unanswered, and in every later
  request.\<close>

lemma cut_answer_left_unanswered:
  "\<exists>a' m. run_loop (cut_world [Inr (SStart (sample_answer StopNormal [])), Inr (SCallStart 0), Inr (SCallEnd 0 sample_call)])
      sample_prompts sample_agent = Some (a', Inr m) \<and>
     last (history a') = Assistant m \<and> extract_tool_calls (am_content m) = [sample_call] \<and> \<not> paired [] (history a') \<and>
     \<not> paired [] (cx_messages (build_context (cut_world []) (push_message (User (PlainText ''again'') 0) a')))"
  by (simp add: run_evaluation cut_world_def sample_world_def sample_agent_def sample_answer_def sample_call_def)

text \<open>A stream that fails after its start leaves a message in the history whose end no event reports.\<close>

lemma failed_stream_unreported:
  "\<exists>a' new. run_loop (cut_world [Inr (SStart (sample_answer StopNormal [])), Inl ''reset'']) sample_prompts sample_agent =
       Some (a', Inl ''reset'') \<and>
     last (emitted a') = EvAgentEnd ''s'' new (Some ''reset'') \<and>
     history a' = new @ [Assistant (sample_answer StopNormal [])] \<and> Assistant (sample_answer StopNormal []) \<notin> set (ended (emitted a'))"
  by (simp add: run_evaluation cut_world_def sample_world_def sample_agent_def sample_answer_def sample_call_def)

end
