(* ===== verification/Anthropic_Stream.thy ===== *)
theory Anthropic_Stream
  imports Sse_Stream Agent_Runs
begin

text \<open>
  How an answer of the Anthropic messages API becomes the stream of the agent:
  \<open>patches/pi_agent_rust/src/providers/anthropic.rs\<close>, from the events of \<open>Sse_Stream\<close> to those that
  \<open>Agent_Stream\<close> takes in. The parser of serde_json is a parameter; what its derived readers accept of a
  value is here, for objects that have each key once and structs written as objects. The text of a reader's
  error is a parameter too.
\<close>

section \<open>Events of the API\<close>

datatype anth_start = StartText | StartThinking | StartToolUse "string option" "string option"

datatype anth_delta =
    DText "string option"
  | DThinking "string option"
  | DInputJson "string option"
  | DSignature "string option"

datatype anth_stop = EndTurn | MaxTokens | ToolUse | StopSequence

record anth_usage =
  au_input :: nat
  au_cache_read :: "nat option"
  au_cache_write :: "nat option"

text \<open>A delta of a message carries its reason to stop and the tokens put out.\<close>

datatype anth_event =
    AMessageStart "anth_usage option"
  | ABlockStart nat anth_start
  | ABlockDelta nat anth_delta
  | ABlockStop nat
  | AMessageDelta "anth_stop option" "nat option"
  | AMessageStop
  | AError string
  | APing

text \<open>An optional field: absent or null, or read.\<close>

definition opt_field :: "(json \<Rightarrow> 'a option) \<Rightarrow> string \<Rightarrow> json \<Rightarrow> 'a option option" where
  "opt_field f k j =
     (case jget k j of None \<Rightarrow> Some None | Some JNull \<Rightarrow> Some None | Some v \<Rightarrow> map_option Some (f v))"

definition field :: "(json \<Rightarrow> 'a option) \<Rightarrow> string \<Rightarrow> json \<Rightarrow> 'a option" where
  "field f k j = Option.bind (jget k j) f"

definition is_object :: "json \<Rightarrow> bool" where
  "is_object j = (case j of JObj _ \<Rightarrow> True | _ \<Rightarrow> False)"

definition as_u32 :: "json \<Rightarrow> nat option" where
  "as_u32 j = Option.bind (as_u64 j) (\<lambda>n. if n < 2 ^ 32 then Some n else None)"

definition read_usage :: "json \<Rightarrow> anth_usage option" where
  "read_usage j =
     (case (field as_u64 ''input_tokens'' j, opt_field as_u64 ''cache_read_input_tokens'' j,
            opt_field as_u64 ''cache_creation_input_tokens'' j) of
        (Some i, Some r, Some w) \<Rightarrow> Some \<lparr>au_input = i, au_cache_read = r, au_cache_write = w\<rparr>
      | _ \<Rightarrow> None)"

definition read_start :: "json \<Rightarrow> anth_start option" where
  "read_start j =
     (let t = jget_str ''type'' j
      in if t = Some ''text'' then Some StartText
         else if t = Some ''thinking'' then Some StartThinking
         else if t = Some ''tool_use'' then
           (case (opt_field as_str ''id'' j, opt_field as_str ''name'' j) of
              (Some i, Some n) \<Rightarrow> Some (StartToolUse i n)
            | _ \<Rightarrow> None)
         else None)"

definition read_delta :: "json \<Rightarrow> anth_delta option" where
  "read_delta j =
     (let t = jget_str ''type'' j
      in if t = Some ''text_delta'' then map_option DText (opt_field as_str ''text'' j)
         else if t = Some ''thinking_delta'' then map_option DThinking (opt_field as_str ''thinking'' j)
         else if t = Some ''input_json_delta'' then map_option DInputJson (opt_field as_str ''partial_json'' j)
         else if t = Some ''signature_delta'' then map_option DSignature (opt_field as_str ''signature'' j)
         else None)"

definition read_stop :: "json \<Rightarrow> anth_stop option" where
  "read_stop j =
     (let t = as_str j
      in if t = Some ''end_turn'' then Some EndTurn
         else if t = Some ''max_tokens'' then Some MaxTokens
         else if t = Some ''tool_use'' then Some ToolUse
         else if t = Some ''stop_sequence'' then Some StopSequence
         else None)"

definition read_event :: "json \<Rightarrow> anth_event option" where
  "read_event j =
     (let t = jget_str ''type'' j
      in if t = Some ''message_start'' then
           Option.bind (field Some ''message'' j)
             (\<lambda>m. if is_object m then map_option AMessageStart (opt_field read_usage ''usage'' m) else None)
         else if t = Some ''content_block_start'' then
           (case (field as_u32 ''index'' j, field read_start ''content_block'' j) of
              (Some i, Some b) \<Rightarrow> Some (ABlockStart i b) | _ \<Rightarrow> None)
         else if t = Some ''content_block_delta'' then
           (case (field as_u32 ''index'' j, field read_delta ''delta'' j) of
              (Some i, Some d) \<Rightarrow> Some (ABlockDelta i d) | _ \<Rightarrow> None)
         else if t = Some ''content_block_stop'' then map_option ABlockStop (field as_u32 ''index'' j)
         else if t = Some ''message_delta'' then
           Option.bind (field Some ''delta'' j)
             (\<lambda>d. if is_object d then
                (case (opt_field read_stop ''stop_reason'' d, opt_field (field as_u64 ''output_tokens'') ''usage'' j) of
                   (Some r, Some u) \<Rightarrow> Some (AMessageDelta r u) | _ \<Rightarrow> None) else None)
         else if t = Some ''message_stop'' then Some AMessageStop
         else if t = Some ''error'' then map_option AError (Option.bind (jget ''error'' j) (field as_str ''message''))
         else if t = Some ''ping'' then Some APing
         else None)"

section \<open>The state of a stream\<close>

record anth_state =
  sp_partial :: assistant_message
  sp_tool_json :: string
  sp_tool_id :: "string option"
  sp_tool_name :: "string option"

text \<open>serde_json's parser, and the text of the error when its value is not an event.\<close>

record json_reader =
  from_text :: "string \<Rightarrow> string + json"
  misread :: "string \<Rightarrow> string"

definition u64_max :: nat where
  "u64_max = 2 ^ 64 - 1"

definition sat_add :: "nat \<Rightarrow> nat \<Rightarrow> nat" where
  "sat_add m n = min (m + n) u64_max"

definition recompute_total_tokens :: "usage \<Rightarrow> usage" where
  "recompute_total_tokens u =
     u\<lparr>tokens_total := sat_add (sat_add (sat_add (tokens_input u) (tokens_output u)) (tokens_cache_read u)) (tokens_cache_write u)\<rparr>"

definition anth_new :: "string \<Rightarrow> string \<Rightarrow> string \<Rightarrow> int \<Rightarrow> anth_state" where
  "anth_new model api pname t =
     \<lparr>sp_partial =
        \<lparr>am_content = [], am_api = api, am_provider = pname, am_model = model, am_usage = no_usage, am_stop = StopNormal,
         am_error = None, am_timestamp = t\<rparr>,
      sp_tool_json = [], sp_tool_id = None, sp_tool_name = None\<rparr>"

definition change_usage :: "(usage \<Rightarrow> usage) \<Rightarrow> anth_state \<Rightarrow> anth_state" where
  "change_usage f st = st\<lparr>sp_partial := (sp_partial st)\<lparr>am_usage := recompute_total_tokens (f (am_usage (sp_partial st)))\<rparr>\<rparr>"

definition content_of :: "anth_state \<Rightarrow> block list" where
  "content_of st = am_content (sp_partial st)"

definition set_content :: "block list \<Rightarrow> anth_state \<Rightarrow> anth_state" where
  "set_content bs st = st\<lparr>sp_partial := (sp_partial st)\<lparr>am_content := bs\<rparr>\<rparr>"

definition handle_message_start :: "anth_usage option \<Rightarrow> anth_state \<Rightarrow> anth_state \<times> stream_event" where
  "handle_message_start u st =
     (let st1 =
        (case u of
           None \<Rightarrow> st
         | Some v \<Rightarrow>
             change_usage
               (\<lambda>us. us\<lparr>tokens_input := au_input v, tokens_cache_read := case_option 0 id (au_cache_read v),
                        tokens_cache_write := case_option 0 id (au_cache_write v)\<rparr>) st)
      in (st1, SStart (sp_partial st1)))"

definition handle_content_block_start :: "nat \<Rightarrow> anth_start \<Rightarrow> anth_state \<Rightarrow> anth_state \<times> stream_event" where
  "handle_content_block_start i b st =
     (case b of
        StartText \<Rightarrow> (set_content (content_of st @ [TextB [] None]) st, STextStart i)
      | StartThinking \<Rightarrow> (set_content (content_of st @ [ThinkingB [] None]) st, SThinkingStart i)
      | StartToolUse ident name \<Rightarrow>
          (set_content
             (content_of st @
              [CallB \<lparr>call_id = case_option [] id ident, call_name = case_option [] id name, call_args = JNull,
                      call_signature = None\<rparr>])
             (st\<lparr>sp_tool_json := [], sp_tool_id := ident, sp_tool_name := name\<rparr>),
           SCallStart i))"

definition handle_content_block_delta :: "nat \<Rightarrow> anth_delta \<Rightarrow> anth_state \<Rightarrow> anth_state \<times> stream_event option" where
  "handle_content_block_delta i d st =
     (case d of
        DText (Some t) \<Rightarrow>
          (set_content (change_block i (\<lambda>b. case b of TextB u s \<Rightarrow> TextB (u @ t) s | _ \<Rightarrow> b) (content_of st)) st,
           Some (STextDelta i t))
      | DThinking (Some t) \<Rightarrow>
          (set_content (change_block i (\<lambda>b. case b of ThinkingB u s \<Rightarrow> ThinkingB (u @ t) s | _ \<Rightarrow> b) (content_of st)) st,
           Some (SThinkingDelta i t))
      | DInputJson (Some t) \<Rightarrow> (st\<lparr>sp_tool_json := sp_tool_json st @ t\<rparr>, Some (SCallDelta i t))
      | DSignature (Some g) \<Rightarrow>
          (set_content (change_block i (\<lambda>b. case b of ThinkingB u s \<Rightarrow> ThinkingB u (Some g) | _ \<Rightarrow> b) (content_of st)) st, None)
      | _ \<Rightarrow> (st, None))"

definition handle_content_block_stop :: "json_reader \<Rightarrow> nat \<Rightarrow> anth_state \<Rightarrow> anth_state \<times> stream_event option" where
  "handle_content_block_stop rd i st =
     (if i < length (content_of st) then
        (case content_of st ! i of
           TextB t _ \<Rightarrow> (st, Some (STextEnd i t))
         | ThinkingB t _ \<Rightarrow> (st, Some (SThinkingEnd i t))
         | CallB c \<Rightarrow>
             (let args = (case from_text rd (sp_tool_json st) of Inr v \<Rightarrow> v | Inl _ \<Rightarrow> JNull);
                  done_call = \<lparr>call_id = case_option [] id (sp_tool_id st), call_name = case_option [] id (sp_tool_name st),
                               call_args = args, call_signature = None\<rparr>
              in (set_content ((content_of st)[i := CallB (c\<lparr>call_args := args\<rparr>)])
                    (st\<lparr>sp_tool_json := [], sp_tool_id := None, sp_tool_name := None\<rparr>),
                  Some (SCallEnd i done_call)))
         | ImageB _ _ \<Rightarrow> (st, None))
      else (st, None))"

definition stop_of :: "anth_stop \<Rightarrow> stop_reason" where
  "stop_of r = (case r of MaxTokens \<Rightarrow> StopLength | ToolUse \<Rightarrow> StopToolUse | EndTurn \<Rightarrow> StopNormal | StopSequence \<Rightarrow> StopNormal)"

definition handle_message_delta :: "anth_stop option \<Rightarrow> nat option \<Rightarrow> anth_state \<Rightarrow> anth_state" where
  "handle_message_delta r u st =
     (let st1 = (case r of None \<Rightarrow> st | Some v \<Rightarrow> st\<lparr>sp_partial := (sp_partial st)\<lparr>am_stop := stop_of v\<rparr>\<rparr>)
      in case u of None \<Rightarrow> st1 | Some n \<Rightarrow> change_usage (\<lambda>us. us\<lparr>tokens_output := n\<rparr>) st1)"

definition handle_event :: "json_reader \<Rightarrow> anth_event \<Rightarrow> anth_state \<Rightarrow> anth_state \<times> stream_event option" where
  "handle_event rd e st =
     (case e of
        AMessageStart u \<Rightarrow> (case handle_message_start u st of (st', ev) \<Rightarrow> (st', Some ev))
      | ABlockStart i b \<Rightarrow> (case handle_content_block_start i b st of (st', ev) \<Rightarrow> (st', Some ev))
      | ABlockDelta i d \<Rightarrow> handle_content_block_delta i d st
      | ABlockStop i \<Rightarrow> handle_content_block_stop rd i st
      | AMessageDelta r u \<Rightarrow> (handle_message_delta r u st, None)
      | AMessageStop \<Rightarrow> (st, Some (SDone (am_stop (sp_partial st)) (sp_partial st)))
      | AError msg \<Rightarrow>
          (let m = (sp_partial st)\<lparr>am_stop := StopError, am_error := Some msg\<rparr>
           in (st\<lparr>sp_partial := m\<rparr>, Some (SError StopError m)))
      | APing \<Rightarrow> (st, None))"

definition process_event :: "json_reader \<Rightarrow> string \<Rightarrow> anth_state \<Rightarrow> anth_state \<times> (string + stream_event option)" where
  "process_event rd data st =
     (case from_text rd data of
        Inl e \<Rightarrow> (st, Inl (''API error: JSON parse error: '' @ e))
      | Inr j \<Rightarrow>
          (case read_event j of
             None \<Rightarrow> (st, Inl (''API error: JSON parse error: '' @ misread rd data))
           | Some e \<Rightarrow> (case handle_event rd e st of (st', ev) \<Rightarrow> (st', Inr ev))))"

text \<open>The stream the provider returns; \<open>[]\<close> is the end of the events.\<close>

fun anth_items :: "json_reader \<Rightarrow> anth_state \<Rightarrow> (string + sse_event) list \<Rightarrow> (string + stream_event) list" where
  "anth_items rd st [] = [Inr (SDone (am_stop (sp_partial st)) (sp_partial st))]"
| "anth_items rd st (Inl e # es) = [Inl (''API error: SSE error: '' @ e)]"
| "anth_items rd st (Inr m # es) =
     (if event_type m = ''ping'' then anth_items rd st es
      else
        (case process_event rd (event_data m) st of
           (st', Inl e) \<Rightarrow> [Inl e]
         | (st', Inr None) \<Rightarrow> anth_items rd st' es
         | (st', Inr (Some ev)) \<Rightarrow>
             (case ev of
                SDone _ _ \<Rightarrow> [Inr ev]
              | SError _ _ \<Rightarrow> [Inr ev]
              | _ \<Rightarrow> Inr ev # anth_items rd st' es)))"

end
