(* ===== verification/Agent_Frames.thy ===== *)
theory Agent_Frames
  imports Agent_Runs Ws_Events
begin

text \<open>
  What the client of \<open>src-tauri/src/server/ws.rs\<close> gets of a run of the agent: the events of \<open>Agent_Loop\<close>,
  as \<open>Ws_Events\<close> turns them into frames.
\<close>

text \<open>The parts of an event that \<open>pi_event_to_ws_json\<close> reads.\<close>

definition view_block :: "block \<Rightarrow> content_block" where
  "view_block b = (case b of TextB t _ \<Rightarrow> TextBlock t | _ \<Rightarrow> OtherBlock)"

fun view_update :: "assistant_update \<Rightarrow> assistant_event" where
  "view_update (UTextDelta i d m) = TextDelta d"
| "view_update (UThinkingDelta i d m) = ThinkingDelta d"
| "view_update (UCallDelta i d m) = ToolCallDelta d"
| "view_update (UCallEnd i c m) = ToolCallEnd (call_id c) (call_name c) (call_args c)"
| "view_update (UStart m) = StartEvent"
| "view_update _ = OtherAssistantEvent"

fun view_event :: "agent_ev \<Rightarrow> agent_event" where
  "view_event (EvMessageStart m) = MessageStart"
| "view_event (EvMessageUpdate m u) = MessageUpdate (view_update u)"
| "view_event (EvMessageEnd m) = MessageEnd"
| "view_event (EvToolStart i n args) = ToolExecutionStart i n args"
| "view_event (EvToolUpdate i n args out) = ToolExecutionUpdate i n (map view_block (out_content out))"
| "view_event (EvToolEnd i n out err) = ToolExecutionEnd i n (map view_block (out_content out)) err"
| "view_event (EvAgentEnd sid new err) = AgentEnd"
| "view_event (EvAgentStart sid) = OtherEvent"
| "view_event (EvTurnStart sid n t) = OtherEvent"
| "view_event (EvTurnEnd sid n m rs) = OtherEvent"

definition run_frames :: "string \<Rightarrow> agent_ev list \<Rightarrow> json list" where
  "run_frames sid es = frames_of sid (map view_event es)"

definition end_frame :: "string \<Rightarrow> json" where
  "end_frame sid = JObj [(''type'', JStr ''agent_end''), (''sessionId'', JStr sid)]"

text \<open>The ids of the calls in frames of a type.\<close>

definition frame_calls :: "string \<Rightarrow> json list \<Rightarrow> string list" where
  "frame_calls ty js =
     List.map_filter (\<lambda>j. if jget_str ''type'' j = Some ty then jget_str ''toolCallId'' j else None) js"

lemma frame_calls_simps:
  "frame_calls ty [] = []"
  "frame_calls ty (j # js) =
     (case (if jget_str ''type'' j = Some ty then jget_str ''toolCallId'' j else None) of None \<Rightarrow> [] | Some i \<Rightarrow> [i]) @ frame_calls ty js"
  by (simp_all add: frame_calls_def List.map_filter_def split: option.split)

lemma run_frames_simps [simp]:
  "run_frames sid [] = []"
  "run_frames sid (e # es) = (case pi_event_to_ws_json (view_event e) sid of None \<Rightarrow> [] | Some j \<Rightarrow> [j]) @ run_frames sid es"
  "run_frames sid (es @ es') = run_frames sid es @ run_frames sid es'"
  by (simp_all add: run_frames_def)

lemma frames_of_tools:
  "frame_calls ''tool_execution_start'' (run_frames sid es) = tool_starts es \<and>
   frame_calls ''tool_execution_end'' (run_frames sid es) = tool_ends es"
proof (induction es)
  case (Cons e es)
  then show ?case
    by (cases e; simp add: pi_event_to_ws_json_def tool_fields_def jget_str_def frame_calls_simps)
       (auto simp: delta_of_def frame_calls_simps jget_str_def split: assistant_event.splits)
qed (simp add: frame_calls_simps)

section \<open>The frames of a run\<close>

lemma frames_within: "list_all within_run es \<Longrightarrow> j \<in> set (run_frames sid es) \<Longrightarrow> jget_str ''type'' j \<noteq> Some ''agent_end''"
proof (induction es)
  case (Cons e es)
  then show ?case
    by (cases e; simp add: within_run_def pi_event_to_ws_json_def tool_fields_def jget_str_def)
       (auto simp: delta_of_def jget_str_def split: assistant_event.splits)
qed simp

lemma run_events:
  assumes "run_done w (run_base a) prompts c new err r"
  obtains es where
    "emitted (end_run new err c) = emitted a @ EvAgentStart (sid_of a) # es @ [EvAgentEnd (sid_of a) new err]"
    "list_all within_run es" "tool_starts es = tool_ends es"
    "case r of
       Inr m \<Rightarrow> history c = history a @ new \<and> butlast (ended es) = butlast new \<and> (\<exists>n. turn_marks es = all_turns n)
     | Inl e \<Rightarrow> err = Some e \<and> ended es = new \<and> (\<exists>n. turn_marks es = all_turns n @ [Inl n])"
proof -
  obtain ms ss fs ds mk where g: "went w (run_base a) c ms ss fs ds mk"
    "case r of
       Inr m \<Rightarrow> ms = new \<and> butlast ds = butlast new \<and> (\<exists>n. mk = all_turns n)
     | Inl e \<Rightarrow> err = Some e \<and> ds = new \<and> (\<exists>n. mk = all_turns n @ [Inl n])"
  proof (cases r)
    case (Inl e)
    obtain ss fs part n where "err = Some e" "went w (run_base a) c (new @ part) ss fs new (all_turns n @ [Inl n])"
      by (rule run_done_Inl [OF assms [unfolded Inl]]) blast
    then show thesis
      using that [of "new @ part" ss fs new "all_turns n @ [Inl n]"] by (auto simp: Inl)
  next
    case (Inr m)
    obtain ss fs pre m0 n where "new = pre @ [Assistant m]" "went w (run_base a) c new ss fs (pre @ [Assistant m0]) (all_turns n)"
      by (rule run_done_Inr [OF assms [unfolded Inr]]) blast
    then show thesis
      using that [of new ss fs "pre @ [Assistant m0]" "all_turns n"] by (auto simp: Inr)
  qed
  then obtain es where es: "moved (run_base a) c ms es" "list_all within_run es" "ended es = ds" "turn_marks es = mk"
    "tool_starts es = tool_ends es"
    unfolding went_def stepped_def by blast
  have "sid_of c = sid_of a"
    using moved_fields [OF es(1)] by (simp add: sid_of_def run_base_def pass_def emit_def)
  then have "emitted (end_run new err c) = emitted a @ EvAgentStart (sid_of a) # es @ [EvAgentEnd (sid_of a) new err]"
    using moved_fields [OF es(1)] by (simp add: end_run_def emit_def [of "EvAgentEnd _ _ _"])
  then show thesis
    using that [of es] es g(2) moved_fields [OF es(1)] by (cases r) auto
qed

text \<open>C11. A run's events are its start, turns numbered from zero that each end unless their answer failed to
  arrive, and its end with the new messages, which are what joined the history and whose ends were reported in
  this order; the client gets one end frame, after all others, and the calls whose start it is told are those
  whose end it is told, in the same order.\<close>

theorem run_reported:
  assumes "run_loop w prompts a = Some (a', r)" "paired [] (history a)" "polite w a" "list_all spoken prompts"
    "prompts \<noteq> [] \<or> last_assistant a = None"
  shows "\<exists>es new err fs.
    emitted a' = emitted a @ EvAgentStart (sid_of a) # es @ [EvAgentEnd (sid_of a) new err] \<and>
    (case r of
       Inr m \<Rightarrow> history a' = history a @ new \<and> butlast (ended es) = butlast new \<and> (\<exists>n. turn_marks es = all_turns n)
     | Inl e \<Rightarrow> err = Some e \<and> ended es = new \<and> (\<exists>n. turn_marks es = all_turns n @ [Inl n])) \<and>
    run_frames sid (drop (length (emitted a)) (emitted a')) = fs @ [end_frame sid] \<and>
    (\<forall>f \<in> set fs. jget_str ''type'' f \<noteq> Some ''agent_end'') \<and>
    frame_calls ''tool_execution_start'' fs = frame_calls ''tool_execution_end'' fs"
proof -
  obtain c new err where c: "a' = end_run new err c" "run_done w (run_base a) prompts c new err r"
    by (rule run_loop_done [OF assms])
  obtain es where es: "emitted a' = emitted a @ EvAgentStart (sid_of a) # es @ [EvAgentEnd (sid_of a) new err]"
    "list_all within_run es" "tool_starts es = tool_ends es"
    "case r of
       Inr m \<Rightarrow> history c = history a @ new \<and> butlast (ended es) = butlast new \<and> (\<exists>n. turn_marks es = all_turns n)
     | Inl e \<Rightarrow> err = Some e \<and> ended es = new \<and> (\<exists>n. turn_marks es = all_turns n @ [Inl n])"
    using run_events [OF c(2)] unfolding c(1) by blast
  have h: "history a' = history c"
    by (simp add: c(1) end_run_def emit_def)
  have "run_frames sid (drop (length (emitted a)) (emitted a')) = run_frames sid es @ [end_frame sid]"
    by (simp add: es(1) pi_event_to_ws_json_def end_frame_def)
  then show ?thesis
    unfolding h using es(1,3,4) frames_within [OF es(2)] frames_of_tools [of sid es]
    by (intro exI [of _ es] exI [of _ new] exI [of _ err] exI [of _ "run_frames sid es"] conjI) (assumption | blast | simp)+
qed

theorem run_reported_witness:
  "\<exists>a' fs. run_loop sample_world sample_prompts sample_agent = Some (a', Inr sample_end) \<and>
     run_frames ''s'' (emitted a') = fs @ [end_frame ''s''] \<and> (\<forall>f \<in> set fs. jget_str ''type'' f \<noteq> Some ''agent_end'')"
proof (rule sample_run)
  fix a'
  assume a': "run_loop sample_world sample_prompts sample_agent = Some (a', Inr sample_end)"
  have "emitted sample_agent = []"
    by (simp add: sample_agent_def)
  then show ?thesis
    using run_reported [OF a' _ sample_polite, of "''s''"] a' by auto
qed

text \<open>The frame that announces a message says the assistant speaks, for a prompt and a tool's result too.\<close>

lemma prompt_announced_as_assistant:
  "\<exists>a'. run_loop sample_world sample_prompts sample_agent = Some (a', Inr sample_end) \<and> history a' ! 0 = User (PlainText ''go'') 0 \<and>
     hd (run_frames ''s'' (emitted a')) =
       JObj [(''type'', JStr ''message_start''), (''sessionId'', JStr ''s''), (''message'', JObj [(''role'', JStr ''assistant'')])]"
  by (simp add: run_evaluation sample_world_def sample_agent_def sample_stream_def sample_answer_def sample_call_def
    pi_event_to_ws_json_def)

end
