(* ===== verification/Anthropic_Answers.thy ===== *)
theory Anthropic_Answers
  imports Anthropic_Stream Agent_Frames
begin

text \<open>
  An answer of the Anthropic API from the bytes of its connection to the history of the agent and the frames
  of the client. An answer is a list of parts, sent one after another as the API documents: a start, deltas
  and a stop with the part's index.
\<close>

section \<open>Answers in parts\<close>

text \<open>A text, a thought with its signature, a call with its id, name and the pieces of its arguments.\<close>

datatype part = TextPart "string list" | ThoughtPart "string list" "string option" | CallPart string string "string list"

fun part_events :: "nat \<Rightarrow> part \<Rightarrow> anth_event list" where
  "part_events i (TextPart ds) = ABlockStart i StartText # map (\<lambda>d. ABlockDelta i (DText (Some d))) ds @ [ABlockStop i]"
| "part_events i (ThoughtPart ds g) =
     ABlockStart i StartThinking # map (\<lambda>d. ABlockDelta i (DThinking (Some d))) ds @
     [ABlockDelta i (DSignature g), ABlockStop i]"
| "part_events i (CallPart ident name ds) =
     ABlockStart i (StartToolUse (Some ident) (Some name)) # map (\<lambda>d. ABlockDelta i (DInputJson (Some d))) ds @ [ABlockStop i]"

definition arguments_of :: "json_reader \<Rightarrow> string \<Rightarrow> json" where
  "arguments_of rd s = (case from_text rd s of Inr v \<Rightarrow> v | Inl _ \<Rightarrow> JNull)"

definition part_call :: "json_reader \<Rightarrow> string \<Rightarrow> string \<Rightarrow> string list \<Rightarrow> tool_call" where
  "part_call rd ident name ds =
     \<lparr>call_id = ident, call_name = name, call_args = arguments_of rd (concat ds), call_signature = None\<rparr>"

fun part_block :: "json_reader \<Rightarrow> part \<Rightarrow> block" where
  "part_block rd (TextPart ds) = TextB (concat ds) None"
| "part_block rd (ThoughtPart ds g) = ThinkingB (concat ds) g"
| "part_block rd (CallPart ident name ds) = CallB (part_call rd ident name ds)"

fun part_stream :: "json_reader \<Rightarrow> nat \<Rightarrow> part \<Rightarrow> stream_event list" where
  "part_stream rd i (TextPart ds) = STextStart i # map (STextDelta i) ds @ [STextEnd i (concat ds)]"
| "part_stream rd i (ThoughtPart ds g) = SThinkingStart i # map (SThinkingDelta i) ds @ [SThinkingEnd i (concat ds)]"
| "part_stream rd i (CallPart ident name ds) =
     SCallStart i # map (SCallDelta i) ds @ [SCallEnd i (part_call rd ident name ds)]"

fun parts_events :: "nat \<Rightarrow> part list \<Rightarrow> anth_event list" where
  "parts_events i [] = []"
| "parts_events i (p # ps) = part_events i p @ parts_events (Suc i) ps"

fun parts_stream :: "json_reader \<Rightarrow> nat \<Rightarrow> part list \<Rightarrow> stream_event list" where
  "parts_stream rd i [] = []"
| "parts_stream rd i (p # ps) = part_stream rd i p @ parts_stream rd (Suc i) ps"

definition answer_events :: "anth_usage option \<Rightarrow> part list \<Rightarrow> anth_stop option \<Rightarrow> nat option \<Rightarrow> anth_event list" where
  "answer_events u ps r n = AMessageStart u # parts_events 0 ps @ [AMessageDelta r n, AMessageStop]"

text \<open>The text of an answer.\<close>

fun part_text :: "part \<Rightarrow> string" where
  "part_text (TextPart ds) = concat ds"
| "part_text (ThoughtPart ds g) = []"
| "part_text (CallPart ident name ds) = []"

section \<open>From events to the stream of the agent\<close>

text \<open>\<open>anth_items\<close> on events that were read.\<close>

fun anth_run :: "json_reader \<Rightarrow> anth_state \<Rightarrow> anth_event list \<Rightarrow> stream_event list" where
  "anth_run rd st [] = [SDone (am_stop (sp_partial st)) (sp_partial st)]"
| "anth_run rd st (e # es) =
     (case handle_event rd e st of
        (st', None) \<Rightarrow> anth_run rd st' es
      | (st', Some ev) \<Rightarrow>
          ev # (case ev of SDone _ _ \<Rightarrow> [] | SError _ _ \<Rightarrow> [] | _ \<Rightarrow> anth_run rd st' es))"

fun read_all :: "json_reader \<Rightarrow> sse_event list \<Rightarrow> anth_event list option" where
  "read_all rd [] = Some []"
| "read_all rd (m # ms) =
     (if event_type m = ''ping'' then read_all rd ms
      else
        (case from_text rd (event_data m) of
           Inl _ \<Rightarrow> None
         | Inr j \<Rightarrow> Option.bind (read_event j) (\<lambda>e. map_option ((#) e) (read_all rd ms))))"

lemma items_run: "read_all rd ms = Some es \<Longrightarrow> anth_items rd st (map Inr ms) = map Inr (anth_run rd st es)"
proof (induction ms arbitrary: st es)
  case (Cons m ms)
  show ?case
  proof (cases "event_type m = ''ping''")
    case True
    then show ?thesis
      using Cons by simp
  next
    case False
    then obtain j e es' where r: "from_text rd (event_data m) = Inr j" "read_event j = Some e" "read_all rd ms = Some es'" "es = e # es'"
      using Cons(2) by (auto split: sum.splits Option.bind_splits)
    obtain st' oev where h: "handle_event rd e st = (st', oev)"
      by (rule prod.exhaust)
    show ?thesis
      using False r h Cons(1) [OF r(3)]
      by (cases oev) (auto simp: process_event_def split: stream_event.splits)
  qed
qed simp

lemma run_pings: "anth_run rd st (filter (\<lambda>e. e \<noteq> APing) es) = anth_run rd st es"
proof (induction es arbitrary: st)
  case (Cons e es)
  show ?case
  proof (cases "e = APing")
    case True
    then show ?thesis
      using Cons by (simp add: handle_event_def)
  next
    case False
    obtain st' oev where "handle_event rd e st = (st', oev)"
      by (rule prod.exhaust)
    then show ?thesis
      using False Cons by (cases oev) (auto split: stream_event.splits)
  qed
qed simp

lemma set_content_simps [simp]:
  "content_of (set_content bs st) = bs" "set_content bs (set_content cs st) = set_content bs st"
  "sp_tool_json (set_content bs st) = sp_tool_json st" "sp_tool_id (set_content bs st) = sp_tool_id st"
  "sp_tool_name (set_content bs st) = sp_tool_name st" "content_of (st\<lparr>sp_tool_json := s\<rparr>) = content_of st"
  by (simp_all add: content_of_def set_content_def)

lemma set_content_same: "content_of st = bs \<Longrightarrow> set_content bs st = st"
  by (cases st; cases "sp_partial st") (auto simp: content_of_def set_content_def)

lemma text_deltas:
  "content_of st = bs @ [TextB t None] \<Longrightarrow>
     anth_run rd st (map (\<lambda>d. ABlockDelta (length bs) (DText (Some d))) ds @ es) =
       map (STextDelta (length bs)) ds @ anth_run rd (set_content (bs @ [TextB (t @ concat ds) None]) st) es"
proof (induction ds arbitrary: st t)
  case Nil
  then show ?case
    by (simp add: set_content_same)
next
  case (Cons d ds)
  then show ?case
    using Cons(1) [of "set_content (bs @ [TextB (t @ d) None]) st" "t @ d"]
    by (simp add: handle_event_def handle_content_block_delta_def change_block_def)
qed

lemma thinking_deltas:
  "content_of st = bs @ [ThinkingB t None] \<Longrightarrow>
     anth_run rd st (map (\<lambda>d. ABlockDelta (length bs) (DThinking (Some d))) ds @ es) =
       map (SThinkingDelta (length bs)) ds @ anth_run rd (set_content (bs @ [ThinkingB (t @ concat ds) None]) st) es"
proof (induction ds arbitrary: st t)
  case Nil
  then show ?case
    by (simp add: set_content_same)
next
  case (Cons d ds)
  then show ?case
    using Cons(1) [of "set_content (bs @ [ThinkingB (t @ d) None]) st" "t @ d"]
    by (simp add: handle_event_def handle_content_block_delta_def change_block_def)
qed

lemma json_deltas:
  "anth_run rd st (map (\<lambda>d. ABlockDelta i (DInputJson (Some d))) ds @ es) =
     map (SCallDelta i) ds @ anth_run rd (st\<lparr>sp_tool_json := sp_tool_json st @ concat ds\<rparr>) es"
  by (induction ds arbitrary: st) (simp_all add: handle_event_def handle_content_block_delta_def)

text \<open>One part: its block joins the content.\<close>

definition same_message :: "anth_state \<Rightarrow> anth_state \<Rightarrow> bool" where
  "same_message st st' \<longleftrightarrow> (sp_partial st')\<lparr>am_content := []\<rparr> = (sp_partial st)\<lparr>am_content := []\<rparr>"

lemma same_message_simps [simp]:
  "same_message st (set_content bs st') = same_message st st'" "same_message st (st'\<lparr>sp_tool_json := s\<rparr>) = same_message st st'"
  "same_message st (st'\<lparr>sp_tool_id := i\<rparr>) = same_message st st'" "same_message st (st'\<lparr>sp_tool_name := i\<rparr>) = same_message st st'"
  "same_message st st"
  by (simp_all add: same_message_def set_content_def)

lemma part_run:
  "\<exists>st'. anth_run rd st (part_events (length (content_of st)) p @ es) = part_stream rd (length (content_of st)) p @ anth_run rd st' es \<and>
     content_of st' = content_of st @ [part_block rd p] \<and> same_message st st'"
proof (cases p)
  case (TextPart ds)
  define bs where "bs = content_of st"
  define st1 where "st1 = set_content (bs @ [TextB (concat ds) None]) st"
  have "anth_run rd st (part_events (length bs) p @ es) =
    STextStart (length bs) # anth_run rd (set_content (bs @ [TextB [] None]) st)
      (map (\<lambda>d. ABlockDelta (length bs) (DText (Some d))) ds @ ABlockStop (length bs) # es)"
    by (simp add: TextPart handle_event_def handle_content_block_start_def bs_def)
  also have "\<dots> = part_stream rd (length bs) p @ anth_run rd st1 es"
    using text_deltas [of "set_content (bs @ [TextB [] None]) st" bs "[]" rd ds "ABlockStop (length bs) # es"]
    by (simp add: TextPart st1_def handle_event_def handle_content_block_stop_def)
  finally show ?thesis
    by (intro exI [of _ st1]) (simp add: TextPart st1_def bs_def)
next
  case (ThoughtPart ds g)
  define bs where "bs = content_of st"
  define st1 where "st1 = set_content (bs @ [ThinkingB (concat ds) g]) st"
  have "anth_run rd st (part_events (length bs) p @ es) =
    SThinkingStart (length bs) # anth_run rd (set_content (bs @ [ThinkingB [] None]) st)
      (map (\<lambda>d. ABlockDelta (length bs) (DThinking (Some d))) ds @ ABlockDelta (length bs) (DSignature g) # ABlockStop (length bs) # es)"
    by (simp add: ThoughtPart handle_event_def handle_content_block_start_def bs_def)
  also have "\<dots> = part_stream rd (length bs) p @ anth_run rd st1 es"
    using thinking_deltas [of "set_content (bs @ [ThinkingB [] None]) st" bs "[]" rd ds
        "ABlockDelta (length bs) (DSignature g) # ABlockStop (length bs) # es"]
    by (cases g) (simp_all add: ThoughtPart st1_def handle_event_def handle_content_block_stop_def
      handle_content_block_delta_def change_block_def)
  finally show ?thesis
    by (intro exI [of _ st1]) (simp add: ThoughtPart st1_def bs_def)
next
  case (CallPart ident name ds)
  define bs where "bs = content_of st"
  define c0 where "c0 = \<lparr>call_id = ident, call_name = name, call_args = JNull, call_signature = None\<rparr>"
  define st0 where "st0 = set_content (bs @ [CallB c0]) (st\<lparr>sp_tool_json := [], sp_tool_id := Some ident, sp_tool_name := Some name\<rparr>)"
  define st1 where "st1 = set_content (bs @ [CallB (part_call rd ident name ds)])
    (st\<lparr>sp_tool_json := [], sp_tool_id := None, sp_tool_name := None\<rparr>)"
  have "anth_run rd st (part_events (length bs) p @ es) =
    SCallStart (length bs) # anth_run rd st0
      (map (\<lambda>d. ABlockDelta (length bs) (DInputJson (Some d))) ds @ ABlockStop (length bs) # es)"
    by (simp add: CallPart handle_event_def handle_content_block_start_def bs_def st0_def c0_def)
  also have "\<dots> = SCallStart (length bs) # map (SCallDelta (length bs)) ds @
      anth_run rd (st0\<lparr>sp_tool_json := concat ds\<rparr>) (ABlockStop (length bs) # es)"
    using json_deltas [of rd st0 "length bs" ds "ABlockStop (length bs) # es"] by (simp add: st0_def set_content_def)
  also have "anth_run rd (st0\<lparr>sp_tool_json := concat ds\<rparr>) (ABlockStop (length bs) # es) =
      SCallEnd (length bs) (part_call rd ident name ds) # anth_run rd st1 es"
    by (simp add: handle_event_def handle_content_block_stop_def st0_def st1_def c0_def part_call_def arguments_of_def
      Let_def) (simp add: set_content_def)
  finally show ?thesis
    by (intro exI [of _ st1]) (simp add: CallPart st1_def bs_def content_of_def set_content_def same_message_def)
qed

lemma parts_run:
  "\<exists>st'. anth_run rd st (parts_events (length (content_of st)) ps @ es) =
      parts_stream rd (length (content_of st)) ps @ anth_run rd st' es \<and>
     content_of st' = content_of st @ map (part_block rd) ps \<and> same_message st st'"
proof (induction ps arbitrary: st)
  case (Cons p ps)
  obtain st1 where st1: "anth_run rd st (part_events (length (content_of st)) p @ (parts_events (Suc (length (content_of st))) ps @ es)) =
      part_stream rd (length (content_of st)) p @ anth_run rd st1 (parts_events (Suc (length (content_of st))) ps @ es)"
    "content_of st1 = content_of st @ [part_block rd p]" "same_message st st1"
    using part_run by blast
  then show ?case
    using Cons [of st1] by (auto simp: same_message_def)
qed auto

lemma answer_run:
  assumes "filter (\<lambda>e. e \<noteq> APing) es = answer_events u ps r n"
  obtains p0 m where "anth_run rd (anth_new model api pname t) es = SStart p0 # parts_stream rd 0 ps @ [SDone (am_stop m) m]"
    "am_content p0 = []" "am_content m = map (part_block rd) ps" "am_stop m = (case r of None \<Rightarrow> StopNormal | Some v \<Rightarrow> stop_of v)"
proof -
  define st0 where "st0 = fst (handle_message_start u (anth_new model api pname t))"
  have c0: "content_of st0 = []" "am_stop (sp_partial st0) = StopNormal"
    by (cases u; simp add: st0_def handle_message_start_def anth_new_def change_usage_def content_of_def)+
  obtain st1 where st1: "anth_run rd st0 (parts_events 0 ps @ [AMessageDelta r n, AMessageStop]) =
      parts_stream rd 0 ps @ anth_run rd st1 [AMessageDelta r n, AMessageStop]"
    "content_of st1 = map (part_block rd) ps" "same_message st0 st1"
    using parts_run [of rd st0 ps "[AMessageDelta r n, AMessageStop]"] c0 by auto
  define m where "m = sp_partial (handle_message_delta r n st1)"
  have stop1: "am_stop (sp_partial st1) = StopNormal"
    using st1(3) c0(2) unfolding same_message_def by (metis assistant_message.select_convs(6) assistant_message.surjective assistant_message.update_convs(1))
  have "anth_run rd (anth_new model api pname t) es = anth_run rd (anth_new model api pname t) (answer_events u ps r n)"
    using run_pings [of rd "anth_new model api pname t" es] assms by simp
  also have "\<dots> = SStart (sp_partial st0) # parts_stream rd 0 ps @ [SDone (am_stop m) m]"
    using st1(1) by (simp add: answer_events_def handle_event_def st0_def m_def handle_message_start_def Let_def)
  finally show thesis
    by (rule that)
       (use c0 st1(2) stop1 in \<open>auto simp: m_def content_of_def handle_message_delta_def change_usage_def split: option.splits\<close>)
qed

section \<open>What is shown while the answer arrives\<close>

text \<open>The block the agent has built of a part: all but the signature, which no event of the stream carries.\<close>

fun shown_block :: "json_reader \<Rightarrow> part \<Rightarrow> block" where
  "shown_block rd (ThoughtPart ds g) = ThinkingB (concat ds) None"
| "shown_block rd p = part_block rd p"

lemma change_last [simp]: "change_block (length bs) f (bs @ [b]) = bs @ [f b]"
  by (simp add: change_block_def)

lemma deltas_shown:
  "fold content_after (map (STextDelta (length bs)) ds) (bs @ [TextB t g]) = bs @ [TextB (t @ concat ds) g]"
  "fold content_after (map (SThinkingDelta (length bs)) ds) (bs @ [ThinkingB t g]) = bs @ [ThinkingB (t @ concat ds) g]"
  "fold content_after (map (SCallDelta i) ds) cs = cs"
  by (induction ds arbitrary: t) simp_all

lemma part_shown: "fold content_after (part_stream rd (length bs) p) bs = bs @ [shown_block rd p]"
  by (cases p) (simp_all add: open_block_def deltas_shown)

lemma parts_shown: "fold content_after (parts_stream rd (length bs) ps) bs = bs @ map (shown_block rd) ps"
proof (induction ps arbitrary: bs)
  case (Cons p ps)
  then show ?case
    using Cons [of "bs @ [shown_block rd p]"] part_shown [of rd bs p] by simp
qed simp

text \<open>Events of a stream within a message, and the text they carry.\<close>

definition inside :: "stream_event \<Rightarrow> bool" where
  "inside ev = (case ev of SStart _ \<Rightarrow> False | SDone _ _ \<Rightarrow> False | SError _ _ \<Rightarrow> False | _ \<Rightarrow> True)"

definition stream_text :: "stream_event \<Rightarrow> string" where
  "stream_text ev = (case ev of STextDelta i d \<Rightarrow> d | _ \<Rightarrow> [])"

lemma parts_inside: "list_all inside (parts_stream rd i ps)"
proof (induction ps arbitrary: i)
  case (Cons p ps)
  have "list_all inside (part_stream rd i p)"
    by (cases p) (auto simp: inside_def list_all_iff)
  then show ?case
    using Cons by simp
qed simp

lemma deltas_text:
  "concat (map stream_text (map (STextDelta i) ds)) = concat ds"
  "concat (map stream_text (map (SThinkingDelta i) ds)) = []"
  "concat (map stream_text (map (SCallDelta i) ds)) = []"
  by (induction ds) (simp_all add: stream_text_def)

lemma parts_text: "concat (map stream_text (parts_stream rd i ps)) = concat (map part_text ps)"
proof (induction ps arbitrary: i)
  case (Cons p ps)
  have "concat (map stream_text (part_stream rd i p)) = part_text p"
    using deltas_text by (cases p) (simp_all add: stream_text_def del: map_map)
  then show ?case
    using Cons by simp
qed simp

lemma update_text: "event_text (view_event (EvMessageUpdate m (update_of ev m'))) = stream_text ev"
  by (cases ev) (simp_all add: event_text_def stream_text_def)

definition sent_text :: "agent_ev list \<Rightarrow> string" where
  "sent_text es = concat (map (event_text \<circ> view_event) es)"

lemma sent_text_simps [simp]: "sent_text [] = []" "sent_text (es @ es') = sent_text es @ sent_text es'"
  by (simp_all add: sent_text_def)

lemma stream_loop_inside:
  assumes "aborts_at w = None"
  shows "list_all inside evs \<Longrightarrow> last_assistant b = Some p \<Longrightarrow>
     \<exists>c es. stream_loop w (map Inr evs @ items) True True b = stream_loop w items True True c \<and>
       history c = butlast (history b) @ [Assistant (p\<lparr>am_content := fold content_after evs (am_content p)\<rparr>)] \<and>
       emitted c = emitted b @ es \<and> sent_text es = concat (map stream_text evs)"
proof (induction evs arbitrary: b p)
  case Nil
  have "history b = butlast (history b) @ [Assistant p]"
    using Nil(2) by (cases "history b" rule: rev_cases) (auto simp: last_assistant_def split: message.splits)
  then show ?case
    by (intro exI [of _ b] exI [of _ "[]"]) simp
next
  case (Cons ev evs)
  define p' where "p' = p\<lparr>am_content := content_after ev (am_content p)\<rparr>"
  define c where "c = pass (emit (EvMessageUpdate (Assistant p') (update_of ev p')) (replace_last (Assistant p') b))"
  have "stream_loop w (map Inr (ev # evs) @ items) True True b = stream_loop w (map Inr evs @ items) True True c"
    using Cons(2,3) assms
    by (cases ev) (simp_all add: stream_loop.simps [of w "Inr x # xs" for x xs] is_aborted_def stream_step_def inside_def
      c_def p'_def Let_def)
  moreover have c: "last_assistant c = Some p'" "history c = butlast (history b) @ [Assistant p']"
    "emitted c = emitted b @ [EvMessageUpdate (Assistant p') (update_of ev p')]"
    by (simp_all add: c_def pass_def emit_def replace_last_def last_assistant_def)
  moreover obtain d es where "stream_loop w (map Inr evs @ items) True True c = stream_loop w items True True d"
    "history d = butlast (history c) @ [Assistant (p'\<lparr>am_content := fold content_after evs (am_content p')\<rparr>)]"
    "emitted d = emitted c @ es" "sent_text es = concat (map stream_text evs)"
    using Cons(1) [OF _ c(1)] Cons(2) by auto
  ultimately show ?case
    using update_text [of "Assistant p'" ev p']
    by (intro exI [of _ d] exI [of _ "EvMessageUpdate (Assistant p') (update_of ev p') # es"])
       (simp add: sent_text_def p'_def)
qed

text \<open>An answer that was read as parts, taken in by the agent; \<open>c\<close> is the agent before the last event.\<close>

lemma answer_taken:
  assumes "aborts_at w = None" "last_assistant a = None" "am_content p0 = []"
    "opened w (tick a) (build_context w a) = Inr (map Inr (SStart p0 # parts_stream rd 0 ps @ [SDone (am_stop m) m]))"
  obtains a' c es where "stream_assistant_response w a = (a', Inr m)" "a' = finalize_assistant_message m True c"
    "history c = history a @ [Assistant (p0\<lparr>am_content := map (shown_block rd) ps\<rparr>)]"
    "emitted a' = emitted a @ es" "sent_text es = concat (map part_text ps)" "history a' = history a @ [Assistant m]"
proof -
  define b where "b = pass (emit (EvMessageUpdate (Assistant p0) (UStart p0))
    (emit (EvMessageStart (Assistant p0)) (update_partial_message p0 False (pass a))))"
  have b: "last_assistant b = Some p0" "history b = history a @ [Assistant p0]"
    "emitted b = emitted a @ [EvMessageStart (Assistant p0), EvMessageUpdate (Assistant p0) (UStart p0)]"
    by (simp_all add: b_def pass_def emit_def update_partial_message_def push_message_def last_assistant_def)
  obtain c es where c: "stream_loop w (map Inr (parts_stream rd 0 ps) @ [Inr (SDone (am_stop m) m)]) True True b =
      stream_loop w [Inr (SDone (am_stop m) m)] True True c"
    "history c = history a @ [Assistant (p0\<lparr>am_content := fold content_after (parts_stream rd 0 ps) []\<rparr>)]"
    "emitted c = emitted b @ es" "sent_text es = concat (map part_text ps)"
    using stream_loop_inside [OF assms(1) parts_inside b(1), of rd 0 ps "[Inr (SDone (am_stop m) m)]"] b(2) assms(3)
    by (auto simp: parts_text)
  define a' where "a' = finalize_assistant_message m True c"
  have la: "last_assistant c \<noteq> None"
    by (simp add: last_assistant_def c(2))
  have "stream_assistant_response w a =
    stream_loop w (map Inr (parts_stream rd 0 ps) @ [Inr (SDone (am_stop m) m)]) True True b"
    using assms(1,4) by (simp add: stream_assistant_response_def stream_loop.simps [of w "Inr (SStart p0) # xs" for xs]
      is_aborted_def b_def)
  also have "\<dots> = (a', Inr m)"
    using assms(1) by (simp add: c(1) stream_loop.simps [of w "[Inr (SDone r m)]" for r] is_aborted_def a'_def)
  finally have r: "stream_assistant_response w a = (a', Inr m)" .
  have e: "emitted a' = emitted a @ ([EvMessageStart (Assistant p0), EvMessageUpdate (Assistant p0) (UStart p0)] @ es @
      [EvMessageEnd (Assistant m)])"
    using la by (simp add: a'_def finalize_assistant_message_def emit_def replace_last_def c(3) b(3))
  have h: "history a' = history a @ [Assistant m]"
    using la by (simp add: a'_def finalize_assistant_message_def emit_def replace_last_def c(2))
  show thesis
    using that [OF r a'_def _ e _ h] c(2,4) parts_shown [of rd "[]" ps] by (simp add: sent_text_def event_text_def)
qed

section \<open>From the connection to the history and the client\<close>

lemma not_failed: "\<not> failed_in xs \<Longrightarrow> xs = map Inr (sent_in xs)"
  by (induction xs rule: sent_in.induct) auto

lemma drain_bytes:
  assumes "decode (bytes_of xs) = (tx, [], False)" "length (bytes_of xs) \<le> max_buffer_size" "\<not> broken_in xs"
  shows "drain xs stream_new = map Inr (events_of tx @ last_event tx)"
proof -
  have "tracks stream_new []"
    by (simp add: tracks_def stream_new_def state_of_def)
  from drain_tracks [OF this _ _ _ _, of xs tx "[]" False] assms
  have "sent_in (drain xs stream_new) = events_of tx @ last_event tx" "\<not> failed_in (drain xs stream_new)"
    by (auto simp: stream_new_def)
  then show ?thesis
    using not_failed by metis
qed

text \<open>An answer of the API, in whatever pieces its bytes come, whose events are those of its parts with
  pings anywhere between, is read whole: the agent keeps one message with a block for each part, its texts,
  thoughts and signatures and the arguments of its calls put together from their deltas, and the reason to
  stop; just before, it showed the same blocks without signatures; and the text the client puts together from
  its frames is the text of the parts.\<close>

theorem anthropic_answer_exact:
  assumes "decode (bytes_of xs) = (tx, [], False)" "length (bytes_of xs) \<le> max_buffer_size" "\<not> broken_in xs"
    "read_all rd (events_of tx @ last_event tx) = Some es" "filter (\<lambda>e. e \<noteq> APing) es = answer_events u ps r n"
    "opened w (tick a) (build_context w a) = Inr (anth_items rd (anth_new model api pname t) (drain xs stream_new))"
    "aborts_at w = None" "last_assistant a = None"
  shows "\<exists>a' m c p0 evs. stream_assistant_response w a = (a', Inr m) \<and> history a' = history a @ [Assistant m] \<and>
    am_content m = map (part_block rd) ps \<and> am_stop m = (case r of None \<Rightarrow> StopNormal | Some v \<Rightarrow> stop_of v) \<and>
    a' = finalize_assistant_message m True c \<and> last_assistant c = Some (p0\<lparr>am_content := map (shown_block rd) ps\<rparr>) \<and>
    emitted a' = emitted a @ evs \<and> concat (map frame_text (run_frames sid evs)) = concat (map part_text ps)"
proof -
  obtain p0 m where m: "anth_run rd (anth_new model api pname t) es = SStart p0 # parts_stream rd 0 ps @ [SDone (am_stop m) m]"
    "am_content p0 = []" "am_content m = map (part_block rd) ps" "am_stop m = (case r of None \<Rightarrow> StopNormal | Some v \<Rightarrow> stop_of v)"
    by (rule answer_run [OF assms(5)])
  have "opened w (tick a) (build_context w a) = Inr (map Inr (SStart p0 # parts_stream rd 0 ps @ [SDone (am_stop m) m]))"
    using assms(6) unfolding drain_bytes [OF assms(1-3)] items_run [OF assms(4)] m(1) .
  from answer_taken [OF assms(7,8) m(2) this] obtain a' c evs where
    "stream_assistant_response w a = (a', Inr m)" "a' = finalize_assistant_message m True c"
    "history c = history a @ [Assistant (p0\<lparr>am_content := map (shown_block rd) ps\<rparr>)]"
    "emitted a' = emitted a @ evs" "sent_text evs = concat (map part_text ps)" "history a' = history a @ [Assistant m]"
    by metis
  moreover from this have "concat (map frame_text (run_frames sid evs)) = concat (map part_text ps)"
    by (simp add: run_frames_def frames_text sent_text_def)
  ultimately show ?thesis
    using m(3,4) by (intro exI [of _ a'] exI [of _ m] exI [of _ c] exI [of _ p0] exI [of _ evs]) (simp add: last_assistant_def)
qed

text \<open>A connection for the witnesses: a reader that knows a few letters, and their events one after another.\<close>

definition letter_reader :: json_reader where
  "letter_reader =
     \<lparr>from_text = \<lambda>s.
        let i = (''index'', JInt 0) in
        if s = ''s'' then Inr (JObj [(''type'', JStr ''message_start''), (''message'', JObj [])])
        else if s = ''b'' then Inr (JObj [(''type'', JStr ''content_block_start''), i, (''content_block'', JObj [(''type'', JStr ''text'')])])
        else if s = ''c'' then
          Inr (JObj [(''type'', JStr ''content_block_start''), i,
            (''content_block'', JObj [(''type'', JStr ''tool_use''), (''id'', JStr ''c1''), (''name'', JStr ''bash'')])])
        else if s = ''d'' then
          Inr (JObj [(''type'', JStr ''content_block_delta''), i,
            (''delta'', JObj [(''type'', JStr ''text_delta''), (''text'', JStr ''hi'')])])
        else if s = ''e'' then Inr (JObj [(''type'', JStr ''content_block_stop''), i])
        else if s = ''m'' then Inr (JObj [(''type'', JStr ''message_delta''), (''delta'', JObj [(''stop_reason'', JStr ''end_turn'')])])
        else if s = ''t'' then Inr (JObj [(''type'', JStr ''message_delta''), (''delta'', JObj [(''stop_reason'', JStr ''tool_use'')])])
        else if s = ''x'' then Inr (JObj [(''type'', JStr ''message_stop'')])
        else Inl ''unknown'',
      misread = \<lambda>_. []\<rparr>"

definition letter_line :: "char \<Rightarrow> string" where
  "letter_line c = ''data: '' @ [c, LF, LF]"

lemmas read_defs =
  letter_reader_def read_event_def read_start_def read_delta_def read_stop_def opt_field_def field_def is_object_def
  as_u32_def as_u64_def jget_str_def Let_def

lemma letter_events:
  "events_of (concat (map letter_line ''sbdemx'')) =
     map (\<lambda>c. default_event\<lparr>event_data := [c]\<rparr>) ''sbdemx'' \<and> last_event (concat (map letter_line ''sbdemx'')) = []"
  by (simp add: letter_line_def events_of_def lines_of_def strip_bom_def bom_def take_line_def process_line_def split_once_def
    strip_prefix_def finished_def default_event_def data_limit_def suffix_Cons Let_def last_event_def flush_def state_of_def rest_of_def)

definition letter_bytes :: string where
  "letter_bytes = concat (map letter_line ''sbdemx'')"

definition letter_chunks :: "inner list" where
  "letter_chunks = [Chunk (take 13 letter_bytes), Wait, Chunk (drop 13 letter_bytes)]"

lemma letter_chunks_bytes: "bytes_of letter_chunks = letter_bytes" "\<not> broken_in letter_chunks" "length letter_bytes = 54"
  by (simp_all add: letter_chunks_def letter_bytes_def letter_line_def)

lemma letter_decode: "decode letter_bytes = (letter_bytes, [], False)"
  unfolding letter_bytes_def letter_line_def by (simp add: decode.simps utf8_lead_def)

lemma letter_read:
  "read_all letter_reader (map (\<lambda>c. default_event\<lparr>event_data := [c]\<rparr>) ''sbdemx'') =
     Some (answer_events None [TextPart [''hi'']] (Some EndTurn) None)"
  by (simp add: read_defs answer_events_def default_event_def)

definition letter_world :: "inner list \<Rightarrow> world" where
  "letter_world xs =
     sample_world\<lparr>opened := \<lambda>_ _. Inr (anth_items letter_reader (anth_new ''m'' ''anthropic-messages'' ''anthropic'' 0) (drain xs stream_new))\<rparr>"

theorem anthropic_answer_exact_witness:
  "\<exists>a' m evs. stream_assistant_response (letter_world letter_chunks) sample_agent = (a', Inr m) \<and>
     history a' = [Assistant m] \<and> am_content m = [TextB ''hi'' None] \<and> am_stop m = StopNormal \<and>
     emitted a' = evs \<and> concat (map frame_text (run_frames ''s'' evs)) = ''hi''"
proof -
  let ?ps = "[TextPart [''hi'']]" and ?w = "letter_world letter_chunks"
  have "filter (\<lambda>e. e \<noteq> APing) (answer_events None ?ps (Some EndTurn) None) = answer_events None ?ps (Some EndTurn) None"
    by (simp add: answer_events_def)
  moreover have "read_all letter_reader (events_of letter_bytes @ last_event letter_bytes) =
      Some (answer_events None ?ps (Some EndTurn) None)"
    using letter_events letter_read by (simp add: letter_bytes_def)
  moreover have "decode (bytes_of letter_chunks) = (letter_bytes, [], False)" "length (bytes_of letter_chunks) \<le> max_buffer_size"
    using letter_chunks_bytes letter_decode by (simp_all add: max_buffer_size_def)
  moreover have "opened ?w (tick sample_agent) (build_context ?w sample_agent) =
      Inr (anth_items letter_reader (anth_new ''m'' ''anthropic-messages'' ''anthropic'' 0) (drain letter_chunks stream_new))"
    "aborts_at ?w = None" "last_assistant sample_agent = None" "history sample_agent = []" "emitted sample_agent = []"
    by (simp_all add: letter_world_def sample_world_def sample_agent_def last_assistant_def)
  ultimately show ?thesis
    using anthropic_answer_exact [of letter_chunks letter_bytes letter_reader _ None ?ps "Some EndTurn" None ?w sample_agent
        "''m''" "''anthropic-messages''" "''anthropic''" 0 "''s''"] letter_chunks_bytes(2)
    by (force simp: stop_of_def)
qed

section \<open>Answers that break off\<close>

text \<open>A connection that ends within a call is taken for an answer that is complete: the message does not say
  that it failed, and the agent runs the tool with null for its arguments.\<close>

definition broken_call :: tool_call where
  "broken_call = \<lparr>call_id = ''c1'', call_name = ''bash'', call_args = JNull, call_signature = None\<rparr>"

lemma broken_call_items:
  "\<exists>p0 m. anth_items letter_reader (anth_new ''m'' ''anthropic-messages'' ''anthropic'' 0)
       (map (\<lambda>c. Inr (default_event\<lparr>event_data := [c]\<rparr>)) ''sc'') = [Inr (SStart p0), Inr (SCallStart 0), Inr (SDone StopNormal m)] \<and>
     am_content m = [CallB broken_call] \<and> am_stop m = StopNormal \<and> am_error m = None"
  by (simp add: read_defs default_event_def process_event_def handle_event_def handle_message_start_def anth_new_def
    handle_content_block_start_def set_content_def content_of_def broken_call_def)

definition broken_world :: world where
  "broken_world =
     sample_world\<lparr>opened := \<lambda>t _. Inr
       (if t < 4 then anth_items letter_reader (anth_new ''m'' ''anthropic-messages'' ''anthropic'' 0)
          (map (\<lambda>c. Inr (default_event\<lparr>event_data := [c]\<rparr>)) ''sc'')
        else [Inr (SDone StopNormal (sample_answer StopNormal []))])\<rparr>"

lemma broken_call_runs:
  "\<exists>a' r. run_loop broken_world sample_prompts (sample_agent\<lparr>queue := new_queue OneAtATime OneAtATime\<rparr>) = Some (a', Inr r) \<and>
     am_stop r = StopNormal \<and> EvToolStart ''c1'' ''bash'' JNull \<in> set (emitted a') \<and> ToolResult sample_result \<in> set (history a')"
  by (simp add: run_evaluation broken_world_def sample_world_def sample_agent_def sample_answer_def sample_result_def
    read_defs default_event_def process_event_def handle_event_def handle_message_start_def anth_new_def
    handle_content_block_start_def set_content_def content_of_def)

text \<open>So is a call without pieces of arguments, when the parser refuses the empty text.\<close>

lemma empty_arguments_are_null: "from_text rd [] = Inl e \<Longrightarrow> part_block rd (CallPart i n []) = CallB \<lparr>call_id = i, call_name = n, call_args = JNull, call_signature = None\<rparr>"
  by (simp add: part_call_def arguments_of_def)

end
