(* ===== verification/Anthropic_Request.thy ===== *)
theory Anthropic_Request
  imports Anthropic_Answers Pi_Credentials "HOL-Library.Word"
begin

text \<open>
  What the agent sends to the Anthropic API: \<open>patches/pi_agent_rust/src/providers/anthropic.rs\<close>, from a
  context of \<open>Agent_Stream\<close> and a key of \<open>Pi_Credentials\<close> to headers and body. The body is the value that
  is printed. Strings are bytes.
\<close>

section \<open>Keys\<close>

definition is_anthropic_oauth_token :: "string \<Rightarrow> bool" where
  "is_anthropic_oauth_token token = str_contains token ''sk-ant-oat''"

definition is_anthropic_provider :: "string \<Rightarrow> bool" where
  "is_anthropic_provider p \<longleftrightarrow> canonical_or_self p = ''anthropic''"

definition is_anthropic_bearer_token :: "string \<Rightarrow> string \<Rightarrow> bool" where
  "is_anthropic_bearer_token p token =
     (if \<not> is_anthropic_provider p then False
      else
        (let t = trim token
         in if t = [] then False
            else if is_anthropic_oauth_token t then True
            else strip_prefix ''sk-ant-'' t = None))"

definition is_kimi_coding_provider :: "string \<Rightarrow> bool" where
  "is_kimi_coding_provider p \<longleftrightarrow> canonical_or_self p = ''kimi-for-coding''"

definition is_kimi_oauth_token :: "string \<Rightarrow> string \<Rightarrow> bool" where
  "is_kimi_oauth_token p token \<longleftrightarrow> is_kimi_coding_provider p \<and> strip_prefix ''sk-'' token = None"

section \<open>The device of Kimi\<close>

definition is_ascii :: "char \<Rightarrow> bool" where
  "is_ascii c \<longleftrightarrow> (of_char c :: nat) < 128"

definition sanitize_ascii_header_value :: "string \<Rightarrow> string \<Rightarrow> string" where
  "sanitize_ascii_header_value v fallback =
     (if list_all is_ascii v \<and> trim v \<noteq> [] then v
      else (let s = trim (filter is_ascii v) in if s = [] then fallback else s))"

type_synonym environ = "string \<rightharpoonup> string"

text \<open>The source has \<open>home_dir_with_env_lookup\<close> and \<open>kimi_share_dir_with_env_lookup\<close> a second time, word for
  word those of \<open>auth.rs\<close>.\<close>

definition kimi_device_id_paths :: "environ \<Rightarrow> (string \<times> string) option" where
  "kimi_device_id_paths env =
     (case kimi_share_dir_with_env_lookup env of
        None \<Rightarrow> None
      | Some d \<Rightarrow>
          (let primary = join_path d ''device_id''
           in Some (primary,
                case home_dir_with_env_lookup env of
                  None \<Rightarrow> primary
                | Some h \<Rightarrow> join_path (join_path (join_path h ''.pi'') ''agent'') ''kimi-device-id'')))"

text \<open>The files that can be read, and whether the new id can be written.\<close>

definition kimi_device_id :: "environ \<Rightarrow> bool \<Rightarrow> string \<Rightarrow> (string \<rightharpoonup> string) \<Rightarrow> string \<times> (string \<rightharpoonup> string)" where
  "kimi_device_id env writable generated files =
     (case kimi_device_id_paths env of
        None \<Rightarrow> (generated, files)
      | Some (primary, legacy) \<Rightarrow>
          (case find_map (\<lambda>p. Option.bind (map_option trim (files p)) nonempty) [primary, legacy] of
             Some i \<Rightarrow> (i, files)
           | None \<Rightarrow> (generated, if writable then files(primary \<mapsto> generated) else files)))"

text \<open>\<open>pkg\<close>: the package's version, the operating system and the architecture.\<close>

definition kimi_common_headers :: "environ \<Rightarrow> string \<times> string \<times> string \<Rightarrow> string \<Rightarrow> (string \<times> string) list" where
  "kimi_common_headers env pkg device =
     (case pkg of (version, os, arch) \<Rightarrow>
        (let device_name = (case env ''HOSTNAME'' of Some n \<Rightarrow> n | None \<Rightarrow>
               (case env ''COMPUTERNAME'' of Some n \<Rightarrow> n | None \<Rightarrow> ''unknown''));
             clean = \<lambda>v. sanitize_ascii_header_value v ''unknown''
         in [(''X-Msh-Platform'', clean ''kimi_cli''), (''X-Msh-Version'', clean version),
             (''X-Msh-Device-Name'', clean device_name), (''X-Msh-Device-Model'', clean (os @ '' '' @ arch)),
             (''X-Msh-Os-Version'', clean os), (''X-Msh-Device-Id'', clean device)]))"

section \<open>The body\<close>

datatype anth_result_content = ResultText string | ResultImage string string

text \<open>An image is its type and its data.\<close>

datatype anth_content =
    AText string
  | AThinking string string
  | AImage string string
  | AToolUse string string json
  | AToolResult string "anth_result_content list" "bool option"

record anth_message =
  an_role :: string
  an_content :: "anth_content list"

definition result_content :: "block list \<Rightarrow> anth_result_content list" where
  "result_content bs =
     List.map_filter (\<lambda>b. case b of TextB t _ \<Rightarrow> Some (ResultText t) | ImageB d m \<Rightarrow> Some (ResultImage m d) | _ \<Rightarrow> None) bs"

definition convert_user_content :: "user_content \<Rightarrow> anth_content list" where
  "convert_user_content u =
     (case u of
        PlainText t \<Rightarrow> [AText t]
      | UserBlocks bs \<Rightarrow>
          List.map_filter (\<lambda>b. case b of TextB t _ \<Rightarrow> Some (AText t) | ImageB d m \<Rightarrow> Some (AImage m d) | _ \<Rightarrow> None) bs)"

fun convert_content_block_to_anthropic :: "block \<Rightarrow> anth_content option" where
  "convert_content_block_to_anthropic (TextB t _) = Some (AText t)"
| "convert_content_block_to_anthropic (CallB c) = Some (AToolUse (call_id c) (call_name c) (call_args c))"
| "convert_content_block_to_anthropic (ThinkingB t g) = map_option (AThinking t) g"
| "convert_content_block_to_anthropic (ImageB _ _) = None"

fun convert_message_to_anthropic :: "message \<Rightarrow> anth_message" where
  "convert_message_to_anthropic (User u _) = \<lparr>an_role = ''user'', an_content = convert_user_content u\<rparr>"
| "convert_message_to_anthropic (Custom c) = \<lparr>an_role = ''user'', an_content = [AText (cm_content c)]\<rparr>"
| "convert_message_to_anthropic (Assistant m) =
     \<lparr>an_role = ''assistant'', an_content = List.map_filter convert_content_block_to_anthropic (am_content m)\<rparr>"
| "convert_message_to_anthropic (ToolResult r) =
     \<lparr>an_role = ''user'',
      an_content = [AToolResult (tr_call_id r) (result_content (tr_content r)) (if tr_is_error r then Some True else None)]\<rparr>"

datatype think_level = ThinkOff | ThinkMinimal | ThinkLow | ThinkMedium | ThinkHigh | ThinkXHigh

record think_budgets =
  tb_minimal :: "32 word"
  tb_low :: "32 word"
  tb_medium :: "32 word"
  tb_high :: "32 word"
  tb_xhigh :: "32 word"

datatype cache_retention = CacheNone | CacheShort | CacheLong

record stream_options =
  so_temperature :: "real option"
  so_max_tokens :: "32 word option"
  so_api_key :: "string option"
  so_cache :: cache_retention
  so_headers :: "(string \<times> string) list"
  so_thinking :: "think_level option"
  so_budgets :: "think_budgets option"

fun default_budget :: "think_level \<Rightarrow> 32 word" where
  "default_budget ThinkOff = 0"
| "default_budget ThinkMinimal = 1024"
| "default_budget ThinkLow = 2048"
| "default_budget ThinkMedium = 8192"
| "default_budget ThinkHigh = 16384"
| "default_budget ThinkXHigh = 32768"

fun chosen_budget :: "think_level \<Rightarrow> think_budgets \<Rightarrow> 32 word" where
  "chosen_budget ThinkOff b = 0"
| "chosen_budget ThinkMinimal b = tb_minimal b"
| "chosen_budget ThinkLow b = tb_low b"
| "chosen_budget ThinkMedium b = tb_medium b"
| "chosen_budget ThinkHigh b = tb_high b"
| "chosen_budget ThinkXHigh b = tb_xhigh b"

definition thinking_of :: "stream_options \<Rightarrow> 32 word option" where
  "thinking_of opts =
     Option.bind (so_thinking opts)
       (\<lambda>l. if l = ThinkOff then None
            else Some (case so_budgets opts of None \<Rightarrow> default_budget l | Some b \<Rightarrow> chosen_budget l b))"

definition DEFAULT_MAX_TOKENS :: "32 word" where
  "DEFAULT_MAX_TOKENS = 8192"

text \<open>The sum wraps, as in a release build.\<close>

definition max_tokens_of :: "stream_options \<Rightarrow> 32 word" where
  "max_tokens_of opts =
     (let n = case_option DEFAULT_MAX_TOKENS id (so_max_tokens opts)
      in case thinking_of opts of None \<Rightarrow> n | Some b \<Rightarrow> if n \<le> b then b + 4096 else n)"

record anth_request =
  rq_model :: string
  rq_messages :: "anth_message list"
  rq_system :: "string option"
  rq_max_tokens :: "32 word"
  rq_temperature :: "real option"
  rq_tools :: "(string \<times> string \<times> json) list option"
  rq_stream :: bool
  rq_thinking :: "32 word option"

record anth_provider =
  ap_model :: string
  ap_base_url :: string
  ap_provider :: string
  ap_custom_headers :: "(string \<times> string) list option"

definition build_request :: "anth_provider \<Rightarrow> llm_context \<Rightarrow> stream_options \<Rightarrow> anth_request" where
  "build_request prov ctx opts =
     \<lparr>rq_model = ap_model prov, rq_messages = map convert_message_to_anthropic (cx_messages ctx), rq_system = cx_system ctx,
      rq_max_tokens = max_tokens_of opts, rq_temperature = so_temperature opts,
      rq_tools = (if cx_tools ctx = [] then None else Some (cx_tools ctx)), rq_stream = True, rq_thinking = thinking_of opts\<rparr>"

section \<open>The request\<close>

text \<open>\<open>RequestBuilder::header\<close> adds a line, whatever the others are.\<close>

definition auth_headers :: "environ \<Rightarrow> string \<times> string \<times> string \<Rightarrow> string \<Rightarrow> string \<Rightarrow> bool \<Rightarrow> string \<Rightarrow> (string \<times> string) list" where
  "auth_headers env pkg device pname force_bearer auth =
     (if force_bearer \<or> is_anthropic_bearer_token pname auth then
        [(''Authorization'', ''Bearer '' @ auth), (''anthropic-dangerous-direct-browser-access'', ''true''), (''x-app'', ''cli''),
         (''user-agent'', ''pi_agent_rust/'' @ fst pkg @ '' (external, cli)'')]
      else if is_kimi_oauth_token pname auth then
        [(''Authorization'', ''Bearer '' @ auth), (''user-agent'', ''pi_agent_rust/'' @ fst pkg @ '' (kimi-oauth, cli)'')] @
        kimi_common_headers env pkg device
      else [(''X-API-Key'', auth)])"

definition beta_headers :: "bool \<Rightarrow> cache_retention \<Rightarrow> (string \<times> string) list" where
  "beta_headers bearer cache =
     (let flags = (if bearer then [''claude-code-20250219,oauth-2025-04-20''] else []) @
                  (if cache \<noteq> CacheNone then [''prompt-caching-2024-07-31''] else [])
      in if flags = [] then [] else [(''anthropic-beta'', join '','' flags)])"

definition raw_key :: "environ \<Rightarrow> stream_options \<Rightarrow> string option" where
  "raw_key env opts = (case so_api_key opts of Some k \<Rightarrow> Some k | None \<Rightarrow> env ''ANTHROPIC_API_KEY'')"

definition forced_token :: "string \<Rightarrow> string \<Rightarrow> string option" where
  "forced_token pname key = (if is_anthropic_provider pname then unmark_anthropic_oauth_bearer_token key else None)"

definition provider_error :: "string \<Rightarrow> string \<Rightarrow> string" where
  "provider_error pname msg = ''Provider error: '' @ pname @ '': '' @ msg"

definition anth_headers ::
  "environ \<Rightarrow> string \<times> string \<times> string \<Rightarrow> string \<Rightarrow> anth_provider \<Rightarrow> stream_options \<Rightarrow> string \<Rightarrow> (string \<times> string) list" where
  "anth_headers env pkg device prov opts key =
     (let forced = forced_token (ap_provider prov) key;
          auth = (case forced of Some t \<Rightarrow> t | None \<Rightarrow> key);
          bearer = (forced \<noteq> None \<or> is_anthropic_bearer_token (ap_provider prov) auth)
      in [(''Accept'', ''text/event-stream''), (''anthropic-version'', ''2023-06-01'')] @
         auth_headers env pkg device (ap_provider prov) (forced \<noteq> None) auth @
         beta_headers bearer (so_cache opts) @ case_option [] id (ap_custom_headers prov) @ so_headers opts @
         [(''Content-Type'', ''application/json'')])"

text \<open>What the connection answers: an error, or a status, the body as text and as pieces.\<close>

type_synonym http_answer = "string + (nat \<times> (string + string) \<times> inner list)"

definition provider_stream ::
  "environ \<Rightarrow> string \<times> string \<times> string \<Rightarrow> string \<Rightarrow> json_reader \<Rightarrow> int \<Rightarrow>
     (string \<Rightarrow> (string \<times> string) list \<Rightarrow> anth_request \<Rightarrow> http_answer) \<Rightarrow> anth_provider \<Rightarrow> llm_context \<Rightarrow> stream_options \<Rightarrow>
     string + (string + stream_event) list" where
  "provider_stream env pkg device rd t send prov ctx opts =
     (case raw_key env opts of
        None \<Rightarrow>
          Inl (provider_error (ap_provider prov)
            (''Missing API key for provider. Configure credentials with /login <provider> or set the provider'' @ [CHR 0x27] @ ''s API key env var.''))
      | Some key \<Rightarrow>
          (case send (ap_base_url prov) (anth_headers env pkg device prov opts key) (build_request prov ctx opts) of
             Inl e \<Rightarrow> Inl e
           | Inr (status, body, chunks) \<Rightarrow>
               if status < 200 \<or> 300 \<le> status then
                 Inl (provider_error (ap_provider prov)
                   (''Anthropic API error (HTTP '' @ show_nat status @ ''): '' @
                    (case body of Inr s \<Rightarrow> s | Inl e \<Rightarrow> ''<failed to read body: '' @ e @ ''>'')))
               else
                 Inr (anth_items rd (anth_new (ap_model prov) ''anthropic-messages'' (ap_provider prov) t) (drain chunks stream_new))))"

section \<open>Calls and their results in a request\<close>

definition tool_uses :: "anth_message \<Rightarrow> string list" where
  "tool_uses m = List.map_filter (\<lambda>c. case c of AToolUse i _ _ \<Rightarrow> Some i | _ \<Rightarrow> None) (an_content m)"

definition tool_results :: "anth_message \<Rightarrow> string list" where
  "tool_results m = List.map_filter (\<lambda>c. case c of AToolResult i _ _ \<Rightarrow> Some i | _ \<Rightarrow> None) (an_content m)"

text \<open>What the API asks for: the calls of a message are answered by the next ones, in order, before anything
  else, and nothing is answered that was not called.\<close>

fun api_paired :: "string list \<Rightarrow> anth_message list \<Rightarrow> bool" where
  "api_paired owed [] \<longleftrightarrow> owed = []"
| "api_paired (i # owed) (m # ms) \<longleftrightarrow> an_role m = ''user'' \<and> tool_uses m = [] \<and> tool_results m = [i] \<and> api_paired owed ms"
| "api_paired [] (m # ms) \<longleftrightarrow> tool_results m = [] \<and> (tool_uses m \<noteq> [] \<longrightarrow> an_role m = ''assistant'') \<and> api_paired (tool_uses m) ms"

lemma map_filter_simps2 [simp]:
  "List.map_filter f [] = []" "List.map_filter f (x # xs) = (case f x of None \<Rightarrow> [] | Some y \<Rightarrow> [y]) @ List.map_filter f xs"
  by (simp_all add: List.map_filter_def split: option.split)

lemma uses_of_answer: "tool_uses (convert_message_to_anthropic (Assistant m)) = map call_id (extract_tool_calls (am_content m))"
proof -
  have "List.map_filter (\<lambda>c. case c of AToolUse i _ _ \<Rightarrow> Some i | _ \<Rightarrow> None) (List.map_filter convert_content_block_to_anthropic bs) =
      map call_id (extract_tool_calls bs)" for bs
  proof (induction bs)
    case (Cons b bs)
    show ?case
    proof (cases b)
      case (ThinkingB t g)
      then show ?thesis
        using Cons by (cases g) simp_all
    qed (use Cons in simp_all)
  qed simp
  then show ?thesis
    by (simp add: tool_uses_def)
qed

lemma results_of_answer: "tool_results (convert_message_to_anthropic (Assistant m)) = []"
proof -
  have "List.map_filter (\<lambda>c. case c of AToolResult i _ _ \<Rightarrow> Some i | _ \<Rightarrow> None) (List.map_filter convert_content_block_to_anthropic bs) = []" for bs
  proof (induction bs)
    case (Cons b bs)
    show ?case
    proof (cases b)
      case (ThinkingB t g)
      then show ?thesis
        using Cons by (cases g) simp_all
    qed (use Cons in simp_all)
  qed simp
  then show ?thesis
    by (simp add: tool_results_def)
qed

lemma spoken_converted: "spoken m \<Longrightarrow> tool_uses (convert_message_to_anthropic m) = [] \<and> tool_results (convert_message_to_anthropic m) = []"
proof -
  have "List.map_filter (\<lambda>c. case c of AToolUse i _ _ \<Rightarrow> Some i | _ \<Rightarrow> None) (convert_user_content (UserBlocks bs)) = [] \<and>
      List.map_filter (\<lambda>c. case c of AToolResult i _ _ \<Rightarrow> Some i | _ \<Rightarrow> None) (convert_user_content (UserBlocks bs)) = []" for bs
  proof (induction bs)
    case (Cons b bs)
    then show ?case
      by (cases b) (simp_all add: convert_user_content_def)
  qed (simp add: convert_user_content_def)
  then show "spoken m \<Longrightarrow> tool_uses (convert_message_to_anthropic m) = [] \<and> tool_results (convert_message_to_anthropic m) = []"
    by (cases m rule: filter_images_from_message.cases)
       (simp_all add: tool_uses_def tool_results_def convert_user_content_def [of "PlainText _"])
qed

lemma paired_converted: "paired owed ms \<Longrightarrow> api_paired (map call_id owed) (map convert_message_to_anthropic ms)"
proof (induction owed ms rule: paired.induct)
  case (2 c owed m ms)
  then show ?case
    by (cases m) (auto simp: replies_def tool_uses_def tool_results_def)
next
  case (3 m ms)
  then show ?case
    using uses_of_answer results_of_answer spoken_converted [of m]
    by (cases m) (auto simp del: convert_message_to_anthropic.simps simp: convert_message_to_anthropic.simps(3))
qed simp

lemma paired_shown: "paired owed ms \<Longrightarrow> paired owed (filter shown ms)"
  by (induction owed ms rule: paired.induct) (auto simp: shown_def split: message.splits)

lemma filter_image_blocks_calls: "extract_tool_calls (filter_image_blocks bs) = extract_tool_calls bs"
proof -
  have app: "extract_tool_calls (xs @ ys) = extract_tool_calls xs @ extract_tool_calls ys" for xs ys
    by (induction xs rule: extract_tool_calls.induct) simp_all
  have "extract_tool_calls (fold filter_step bs acc) = extract_tool_calls acc @ extract_tool_calls bs" for acc
  proof (induction bs arbitrary: acc)
    case (Cons b bs)
    then show ?case
      by (cases b) (simp_all add: filter_step_def app)
  qed simp
  then show ?thesis
    by (simp add: filter_image_blocks_def)
qed

lemma paired_images: "paired owed ms \<Longrightarrow> paired owed (map filter_images_from_message ms)"
proof (induction owed ms rule: paired.induct)
  case (2 c owed m ms)
  then show ?case
    by (cases m) (auto simp: replies_def)
next
  case (3 m ms)
  then show ?case
    by (cases m rule: filter_images_from_message.cases) (auto simp: filter_image_blocks_calls)
qed simp

text \<open>A provider and options for the witnesses.\<close>

definition sample_provider :: anth_provider where
  "sample_provider = \<lparr>ap_model = ''m'', ap_base_url = ''u'', ap_provider = ''anthropic'', ap_custom_headers = None\<rparr>"

definition sample_options :: stream_options where
  "sample_options =
     \<lparr>so_temperature = None, so_max_tokens = None, so_api_key = Some (mark_anthropic_oauth_bearer_token ''tok''),
      so_cache = CacheNone, so_headers = [], so_thinking = None, so_budgets = None\<rparr>"

text \<open>C13. From a transcript where every call is answered, as runs keep it, the agent sends a request where every
  tool use is followed at once by its result, in order, and no result is without its use, whether hidden
  messages and images are left out or not.\<close>

theorem request_answers_calls:
  assumes "paired [] (history a)"
  shows "api_paired [] (rq_messages (build_request prov (build_context w a) opts))"
  using paired_converted [of "[]"] paired_shown [OF assms] paired_images
  by (simp add: build_request_def build_context_def Let_def)

lemma sample_said_paired: "paired [] (sample_said @ [Assistant sample_end])"
  by (simp add: sample_said_def sample_answer_def sample_result_def sample_call_def replies_def)

theorem request_answers_calls_witness:
  "api_paired [] (rq_messages (build_request sample_provider
      (build_context sample_world (sample_agent\<lparr>history := sample_said @ [Assistant sample_end]\<rparr>)) sample_options))"
  by (rule request_answers_calls) (simp add: sample_said_paired)

section \<open>Limits\<close>

lemma max_tokens_above_budget:
  assumes "thinking_of opts = Some b" "b \<le> 2 ^ 32 - 4097"
  shows "b < max_tokens_of opts"
proof (cases "case_option DEFAULT_MAX_TOKENS id (so_max_tokens opts) \<le> b")
  case True
  have "b < b + 4096"
    using assms(2) by (simp add: word_less_nat_alt word_le_nat_alt unat_word_ariths)
  then show ?thesis
    using True assms(1) by (simp add: max_tokens_of_def Let_def)
next
  case False
  then show ?thesis
    unfolding max_tokens_of_def Let_def assms(1) option.case if_not_P [OF False] by (simp only: not_le)
qed

text \<open>With a larger budget the sum wraps, below the budget it should exceed.\<close>

lemma max_tokens_wrap:
  "max_tokens_of \<lparr>so_temperature = None, so_max_tokens = None, so_api_key = None, so_cache = CacheNone, so_headers = [],
     so_thinking = Some ThinkHigh,
     so_budgets = Some \<lparr>tb_minimal = 0, tb_low = 0, tb_medium = 0, tb_high = - 1, tb_xhigh = 0\<rparr>\<rparr> = 4095"
  by (simp add: max_tokens_of_def thinking_of_def DEFAULT_MAX_TOKENS_def Let_def)

section \<open>Keys on their way\<close>

definition key_header :: "string \<times> string \<Rightarrow> bool" where
  "key_header h \<longleftrightarrow> fst h \<in> {''Authorization'', ''X-API-Key''}"

lemma key_headers:
  "filter key_header (anth_headers env pkg device prov opts key) =
     (let forced = forced_token (ap_provider prov) key; auth = case_option key id forced
      in if forced \<noteq> None \<or> is_anthropic_bearer_token (ap_provider prov) auth \<or> is_kimi_oauth_token (ap_provider prov) auth
         then [(''Authorization'', ''Bearer '' @ auth)] else [(''X-API-Key'', auth)]) @
     filter key_header (case_option [] id (ap_custom_headers prov) @ so_headers opts)"
  by (cases "forced_token (ap_provider prov) key")
     (simp_all add: anth_headers_def auth_headers_def beta_headers_def kimi_common_headers_def key_header_def Let_def
       split: prod.split)

text \<open>A login to Anthropic that is in force is sent as a bearer token, as it was stored: the mark under which
  it travels from the stored credentials to the provider is taken off, and it is never sent as an API key.\<close>

theorem login_sent_as_bearer:
  assumes "is_anthropic_provider (ap_provider prov)" "now_ms e < x"
    "credential_for_provider (stored st) (ap_provider prov) = Some (OAuth tok refresh x url cid)"
    "so_api_key opts = resolve_api_key e st (ap_provider prov) None" "raw_key env opts = Some key"
  shows "filter key_header (anth_headers env pkg device prov opts key) =
    (''Authorization'', ''Bearer '' @ tok) # filter key_header (case_option [] id (ap_custom_headers prov) @ so_headers opts)"
proof -
  have "stored_login e st (ap_provider prov) = Some (mark_anthropic_oauth_bearer_token tok)"
    using assms(1-3) by (simp add: stored_login_def is_anthropic_provider_def api_key_from_credential_def)
  then have "key = mark_anthropic_oauth_bearer_token tok"
    using assms(4,5) by (simp add: resolve_api_key_def raw_key_def)
  then have "forced_token (ap_provider prov) key = Some tok"
    using assms(1) by (simp add: forced_token_def unmark_anthropic_oauth_bearer_token_def mark_anthropic_oauth_bearer_token_def)
  then show ?thesis
    by (simp add: key_headers)
qed

lemma anthropic_is_anthropic: "is_anthropic_provider ''anthropic''"
proof -
  have c: "canonical_id (known_provider i d a k on r) = i" for i d a k on r
    by (simp add: known_provider_def)
  have "canonical_or_self ''anthropic'' = ''anthropic''"
  proof (cases "provider_metadata ''anthropic''")
    case None
    then show ?thesis
      by (simp add: canonical_or_self_def canonical_provider_id_def)
  next
    case (Some m)
    have "to_lowercase ''anthropic'' = ''anthropic''"
      by code_simp
    then have "m \<in> set provider_table \<and> ''anthropic'' \<in> set (names m)"
      using Some by (simp add: provider_metadata_iff)
    then show ?thesis
      using Some by (auto simp: canonical_or_self_def canonical_provider_id_def provider_parts names_known_provider c)
  qed
  then show ?thesis
    by (simp add: is_anthropic_provider_def)
qed

theorem login_sent_as_bearer_witness:
  "filter key_header (anth_headers (\<lambda>_. None) (''1'', ''linux'', ''x86_64'') ''d'' sample_provider sample_options (mark_anthropic_oauth_bearer_token ''tok'')) =
     [(''Authorization'', ''Bearer tok'')]"
proof -
  let ?e = "\<lparr>env_var = \<lambda>_. None, read_text = \<lambda>_. None, json_of = \<lambda>_. Inl [], text_of = \<lambda>_. [], now_ms = 0, auth_path = []\<rparr>"
  let ?st = "\<lparr>storage_path = [], stored = [(''anthropic'', OAuth ''tok'' ''r'' 50 None None)]\<rparr>"
  have p: "ap_provider sample_provider = ''anthropic''"
    by (simp add: sample_provider_def)
  have c: "credential_for_provider (stored ?st) ''anthropic'' = Some (OAuth ''tok'' ''r'' 50 None None)"
    by (simp add: credential_for_provider_def entry_named_def)
  have "stored_login ?e ?st ''anthropic'' = Some (mark_anthropic_oauth_bearer_token ''tok'')"
    using c anthropic_is_anthropic by (simp add: stored_login_def is_anthropic_provider_def api_key_from_credential_def)
  then have a: "so_api_key sample_options = resolve_api_key ?e ?st (ap_provider sample_provider) None"
    by (simp add: sample_options_def sample_provider_def resolve_api_key_def)
  have k: "raw_key (\<lambda>_. None) sample_options = Some (mark_anthropic_oauth_bearer_token ''tok'')"
    by (simp add: raw_key_def sample_options_def)
  have "is_anthropic_provider (ap_provider sample_provider)"
    "credential_for_provider (stored ?st) (ap_provider sample_provider) = Some (OAuth ''tok'' ''r'' 50 None None)"
    using p c anthropic_is_anthropic by simp_all
  moreover have "now_ms ?e < 50"
    by simp
  moreover have "filter key_header (case_option [] id (ap_custom_headers sample_provider) @ so_headers sample_options) = []"
    by (simp add: sample_provider_def sample_options_def)
  ultimately show ?thesis
    using login_sent_as_bearer [of sample_provider ?e 50 ?st "''tok''" "''r''" None None sample_options "\<lambda>_. None"
        "mark_anthropic_oauth_bearer_token ''tok''" "(''1'', ''linux'', ''x86_64'')" "''d''", OF _ _ _ a k] by (metis append_Cons append_Nil)
qed

text \<open>A header of a request is added to those before; it does not take their place.\<close>

lemma request_header_added:
  "filter key_header (anth_headers env pkg device sample_provider (sample_options\<lparr>so_headers := [(''X-API-Key'', ''k2'')]\<rparr>) ''sk-ant-1'') =
     [(''X-API-Key'', ''sk-ant-1''), (''X-API-Key'', ''k2'')]"
proof -
  have "is_anthropic_bearer_token ''anthropic'' ''sk-ant-1'' = False" "is_kimi_oauth_token ''anthropic'' ''sk-ant-1'' = False"
    by (simp_all add: is_anthropic_bearer_token_def is_kimi_oauth_token_def trim_id is_ws_def is_anthropic_oauth_token_def
      strip_prefix_def Let_def)
  then show ?thesis
    by (simp add: key_headers sample_provider_def sample_options_def forced_token_def unmark_anthropic_oauth_bearer_token_def
      anthropic_marker_def strip_prefix_def key_header_def Let_def)
qed

text \<open>An id that could be written is found again.\<close>

lemma kimi_device_id_stays:
  assumes "kimi_device_id env True generated files = (i, files')" "kimi_device_id_paths env \<noteq> None" "trim generated = generated" "generated \<noteq> []"
  shows "kimi_device_id env True other files' = (i, files')"
  using assms by (auto simp: kimi_device_id_def nonempty_def split: option.splits prod.splits if_splits)

end
