(* ===== verification/Find_Text.thy ===== *)
theory Find_Text
  imports Rust_Prelude
begin

text \<open>
  The first place of a pattern in a text, for bytes and for characters: what the HTTP client and the edit tool
  share.
\<close>

text \<open>The first place of a pattern: \<open>windows(n).position\<close>, \<open>str::find\<close>.\<close>

fun find_str :: "'a list \<Rightarrow> 'a list \<Rightarrow> nat option" where
  "find_str p [] = (if p = [] then Some 0 else None)"
| "find_str p (c # s) = (if take (length p) (c # s) = p then Some 0 else map_option Suc (find_str p s))"

lemma find_str_less: "find_str p s = Some i \<Longrightarrow> i + length p \<le> length s"
  by (induction p s arbitrary: i rule: find_str.induct) (auto split: if_splits dest: arg_cong [where f = length])

section \<open>Places of a pattern\<close>

definition at_place :: "'a list \<Rightarrow> 'a list \<Rightarrow> nat \<Rightarrow> bool" where
  "at_place p s i \<longleftrightarrow> take (length p) (drop i s) = p"

lemma find_str_first: "p \<noteq> [] \<Longrightarrow> find_str p s = Some i \<Longrightarrow> at_place p s i \<and> (\<forall>j < i. \<not> at_place p s j)"
proof (induction p s arbitrary: i rule: find_str.induct)
  case (2 p c s)
  show ?case
  proof (cases "take (length p) (c # s) = p")
    case True
    then show ?thesis
      using 2(3) by (simp add: at_place_def)
  next
    case False
    then obtain k where k: "i = Suc k" "find_str p s = Some k"
      using 2(3) by auto
    have "\<not> at_place p (c # s) j" if "j < i" for j
      using 2(1) [OF False 2(2) k(2)] that False k(1) by (cases j) (auto simp: at_place_def)
    then show ?thesis
      using 2(1) [OF False 2(2) k(2)] k(1) by (simp add: at_place_def)
  qed
qed simp

lemma find_str_none: "p \<noteq> [] \<Longrightarrow> find_str p s = None \<Longrightarrow> \<not> at_place p s j"
proof (induction p s arbitrary: j rule: find_str.induct)
  case (2 p c s)
  then show ?case
    by (cases j) (auto simp: at_place_def split: if_splits)
qed (simp add: at_place_def)

lemma find_str_at:
  assumes "p \<noteq> []" "at_place p s i" "\<And>j. j < i \<Longrightarrow> \<not> at_place p s j"
  shows "find_str p s = Some i"
proof (cases "find_str p s")
  case None
  then show ?thesis
    using find_str_none assms(1,2) by blast
next
  case (Some k)
  then show ?thesis
    using find_str_first [OF assms(1) Some] assms(2,3) by (metis linorder_neqE_nat)
qed

lemma at_place_length: "p \<noteq> [] \<Longrightarrow> at_place p s i \<Longrightarrow> i + length p \<le> length s"
  unfolding at_place_def by (metis add.commute length_drop length_take length_0_conv min.absorb_iff1 nat_le_linear
      le_diff_conv2 diff_is_0_eq' drop_eq_Nil take_Nil min_def)

lemma at_place_append: "i + length p \<le> length s \<Longrightarrow> at_place p (s @ r) i = at_place p s i"
  by (simp add: at_place_def)

lemma find_str_append: "p \<noteq> [] \<Longrightarrow> find_str p s = Some i \<Longrightarrow> find_str p (s @ r) = Some i"
proof -
  assume a: "p \<noteq> []" "find_str p s = Some i"
  then have "i + length p \<le> length s"
    using find_str_less by blast
  then show ?thesis
    using find_str_first [OF a] at_place_append by (intro find_str_at [OF a(1)]) auto
qed

text \<open>A pattern that is not there yet ends after what is there.\<close>

lemma find_str_later: "p \<noteq> [] \<Longrightarrow> find_str p s = None \<Longrightarrow> find_str p (s @ r) = Some i \<Longrightarrow> length s < i + length p"
proof (rule ccontr)
  assume a: "p \<noteq> []" "find_str p s = None" "find_str p (s @ r) = Some i" "\<not> length s < i + length p"
  then have "at_place p s i"
    using find_str_first [OF a(1,3)] at_place_append [of i p s r] by simp
  then show False
    using find_str_none [OF a(1,2)] by blast
qed

end
