(* ===== verification/Http_Client.thy ===== *)
theory Http_Client
  imports Sse_Stream Pi_Encoding Find_Text
begin

text \<open>
  The HTTP client of the agent: \<open>patches/pi_agent_rust/src/http/client.rs\<close>, with the URLs of
  \<open>patches/asupersync/src/http/h1/http_client.rs\<close>. A connection is what its reads give, one after another;
  after the last it is closed. Opening it, TLS and writing are one function. The recorder used by tests is
  left out. Strings are bytes.
\<close>

section \<open>Text\<close>

text \<open>\<open>str::split\<close> by a string.\<close>

function split_str :: "string \<Rightarrow> string \<Rightarrow> string list" where
  "split_str p s =
     (case find_str p s of
        None \<Rightarrow> [s]
      | Some i \<Rightarrow> if p = [] then [s] else take i s # split_str p (drop (i + length p) s))"
  by pat_completeness auto
termination
  by (relation "measure (\<lambda>(p, s). length s)") (auto dest!: find_str_less intro!: diff_less)

declare split_str.simps [simp del]

fun split_by :: "(char \<Rightarrow> bool) \<Rightarrow> string \<Rightarrow> string list" where
  "split_by P [] = [[]]"
| "split_by P (c # s) =
     (if P c then [] # split_by P s else (case split_by P s of [] \<Rightarrow> [[c]] | w # ws \<Rightarrow> (c # w) # ws))"

definition split_whitespace :: "string \<Rightarrow> string list" where
  "split_whitespace s = filter (\<lambda>w. w \<noteq> []) (split_by is_ws s)"

definition crlf :: string where
  "crlf = [CHR 0x0D, CHR 0x0A]"

fun hex_digits_val :: "nat \<Rightarrow> string \<Rightarrow> nat option" where
  "hex_digits_val acc [] = Some acc"
| "hex_digits_val acc (c # s) = (case hex_val c of None \<Rightarrow> None | Some d \<Rightarrow> hex_digits_val (16 * acc + d) s)"

text \<open>\<open>usize::from_str_radix(_, 16)\<close>.\<close>

definition parse_hex :: "string \<Rightarrow> nat option" where
  "parse_hex s =
     (let d = (case s of [] \<Rightarrow> [] | c # t \<Rightarrow> if c = CHR ''+'' then t else s)
      in if d = [] then None
         else Option.bind (hex_digits_val 0 d) (\<lambda>n. if n < 2 ^ 64 then Some n else None))"

text \<open>The text of a \<open>Utf8Error\<close>, and \<open>String::from_utf8_lossy\<close>.\<close>

definition utf8_error_text :: "nat \<Rightarrow> utf8_error \<Rightarrow> string" where
  "utf8_error_text n e =
     (case e of
        Invalid k \<Rightarrow> ''invalid utf-8 sequence of '' @ show_nat k @ '' bytes from index '' @ show_nat n
      | Truncated \<Rightarrow> ''incomplete utf-8 byte sequence from index '' @ show_nat n)"

function from_utf8_lossy :: "string \<Rightarrow> string" where
  "from_utf8_lossy bs =
     (case from_utf8 bs of
        (n, None) \<Rightarrow> bs
      | (n, Some Truncated) \<Rightarrow> take n bs @ [CHR 0xEF, CHR 0xBF, CHR 0xBD]
      | (n, Some (Invalid k)) \<Rightarrow>
          take n bs @ [CHR 0xEF, CHR 0xBF, CHR 0xBD] @ (if n + k = 0 \<or> bs = [] then [] else from_utf8_lossy (drop (n + k) bs)))"
  by pat_completeness auto
termination
  by (relation "measure length") auto

declare from_utf8_lossy.simps [simp del]

section \<open>URLs and requests\<close>

datatype scheme = Http | Https

record parsed_url =
  pu_scheme :: scheme
  pu_host :: string
  pu_port :: nat
  pu_path :: string

definition default_port :: "scheme \<Rightarrow> nat" where
  "default_port s = (case s of Http \<Rightarrow> 80 | Https \<Rightarrow> 443)"

definition bad_url :: "string \<Rightarrow> 'a res" where
  "bad_url m = Inl (''invalid URL: '' @ m)"

definition parse_port :: "string \<Rightarrow> nat res" where
  "parse_port s = (case parse_uint 16 s of Some n \<Rightarrow> Inr n | None \<Rightarrow> bad_url (''invalid port: '' @ s))"

definition host_and_port :: "scheme \<Rightarrow> string \<Rightarrow> (string \<times> nat) res" where
  "host_and_port sch authority =
     (if authority \<noteq> [] \<and> hd authority = CHR ''['' then
        (case find_char (CHR '']'') authority of
           None \<Rightarrow> bad_url ''unclosed bracket in IPv6 address''
         | Some e \<Rightarrow>
             (let host = take (Suc e) authority; rest = drop (Suc e) authority
              in case strip_prefix '':'' rest of
                   Some p \<Rightarrow> map_sum id (\<lambda>n. (host, n)) (parse_port p)
                 | None \<Rightarrow> if rest = [] then Inr (host, default_port sch)
                           else bad_url (''unexpected characters after IPv6 address: '' @ rest)))
      else
        (case rfind_char (CHR '':'') authority of
           Some i \<Rightarrow> map_sum id (\<lambda>n. (take i authority, n)) (parse_port (drop (Suc i) authority))
         | None \<Rightarrow> Inr (authority, default_port sch)))"

definition parse_url :: "string \<Rightarrow> parsed_url res" where
  "parse_url url =
     (case (strip_prefix ''https://'' url, strip_prefix ''http://'' url) of
        (None, None) \<Rightarrow> bad_url (''unsupported scheme in: '' @ url)
      | (a, b) \<Rightarrow>
          (let sch = (if a \<noteq> None then Https else Http);
               rest = (case a of Some r \<Rightarrow> r | None \<Rightarrow> the b);
               authority = takeWhile (\<lambda>c. c \<notin> {CHR ''/'', CHR ''?'', CHR ''#''}) rest;
               tail = drop (length authority) rest;
               path = (if tail = [] then ''/'' else tail)
           in if CHR ''@'' \<in> set authority \<and> \<not> (authority \<noteq> [] \<and> hd authority = CHR ''['') then
                bad_url ''URL must not contain userinfo (user@host)''
              else
                (case host_and_port sch authority of
                   Inl e \<Rightarrow> Inl e
                 | Inr (host, port) \<Rightarrow>
                     if host = [] then bad_url ''empty host''
                     else Inr \<lparr>pu_scheme = sch, pu_host = host, pu_port = port, pu_path = path\<rparr>)))"

datatype http_method = Get | Post

definition method_text :: "http_method \<Rightarrow> string" where
  "method_text m = (case m of Get \<Rightarrow> ''GET'' | Post \<Rightarrow> ''POST'')"

definition sanitize_header_value :: "string \<Rightarrow> string" where
  "sanitize_header_value = filter (\<lambda>c. c \<noteq> CHR 0x0D \<and> c \<noteq> CHR 0x0A)"

definition header_line :: "string \<times> string \<Rightarrow> string" where
  "header_line h = sanitize_header_value (fst h) @ '': '' @ sanitize_header_value (snd h) @ crlf"

definition build_request_bytes :: "http_method \<Rightarrow> parsed_url \<Rightarrow> string \<Rightarrow> (string \<times> string) list \<Rightarrow> string \<Rightarrow> string" where
  "build_request_bytes m u agent hs body =
     method_text m @ '' '' @ pu_path u @ '' HTTP/1.1'' @ crlf @
     ''Host: '' @ pu_host u @ crlf @
     ''User-Agent: '' @ agent @ crlf @
     ''Content-Length: '' @ show_nat (length body) @ crlf @
     concat (map header_line hs) @ crlf"

definition default_request_timeout_from_env :: "(string \<rightharpoonup> string) \<Rightarrow> nat option" where
  "default_request_timeout_from_env env =
     (let n = (case Option.bind (env ''PI_HTTP_REQUEST_TIMEOUT_SECS'') (\<lambda>raw. parse_uint 64 (trim raw)) of
                 Some n \<Rightarrow> n | None \<Rightarrow> 60)
      in if n = 0 then None else Some n)"

definition user_agent_of :: "(string \<rightharpoonup> string) \<Rightarrow> string \<Rightarrow> string" where
  "user_agent_of env version =
     (let base = ''pi_agent_rust/'' @ version
      in case env ''PI_AI_ANTIGRAVITY_VERSION'' of None \<Rightarrow> base | Some v \<Rightarrow> base @ '' Antigravity/'' @ v)"

section \<open>The head of an answer\<close>

text \<open>What a connection gives: bytes, or an error; no bytes is its end.\<close>

type_synonym transport = "(string + string) list"

definition read_some :: "transport \<Rightarrow> (string + string) \<times> transport" where
  "read_some rs = (case rs of [] \<Rightarrow> (Inr [], []) | r # rs' \<Rightarrow> (r, rs'))"

definition MAX_HEADER_BYTES :: nat where
  "MAX_HEADER_BYTES = 65536"

definition READ_CHUNK_BYTES :: nat where
  "READ_CHUNK_BYTES = 16384"

definition MAX_BUFFERED_BYTES :: nat where
  "MAX_BUFFERED_BYTES = 262144"

definition MAX_TEXT_BODY_BYTES :: nat where
  "MAX_TEXT_BODY_BYTES = 52428800"

definition api_error :: "string \<Rightarrow> string" where
  "api_error m = ''API error: '' @ m"

definition io_error :: "string \<Rightarrow> string" where
  "io_error m = ''IO error: '' @ m"

definition find_headers_end :: "string \<Rightarrow> nat option" where
  "find_headers_end buf = map_option (\<lambda>p. p + 4) (find_str (crlf @ crlf) buf)"

fun header_fields :: "string list \<Rightarrow> (string \<times> string) list res" where
  "header_fields [] = Inr []"
| "header_fields (l # ls) =
     (if l = [] then header_fields ls
      else
        (case split_once (CHR '':'') l of
           None \<Rightarrow> Inl (api_error ''Invalid HTTP header line'')
         | Some (n, v) \<Rightarrow> map_sum id (\<lambda>hs. (trim n, trim v) # hs) (header_fields ls)))"

definition parse_response_head :: "string \<Rightarrow> (nat \<times> (string \<times> string) list) res" where
  "parse_response_head buf =
     (case from_utf8 buf of
        (n, Some e) \<Rightarrow> Inl (api_error (''Invalid HTTP headers: '' @ utf8_error_text n e))
      | (n, None) \<Rightarrow>
          (let ls = split_str crlf buf
           in case split_whitespace (hd ls) of
                version # status # _ \<Rightarrow>
                  (case parse_uint 16 status of
                     None \<Rightarrow> Inl (api_error ''Invalid HTTP status code'')
                   | Some s \<Rightarrow> map_sum id (\<lambda>hs. (s, hs)) (header_fields (tl ls)))
              | _ \<Rightarrow> Inl (api_error ''Invalid HTTP status line'')))"

text \<open>With the bytes after the head, and the connection.\<close>

function read_head :: "string \<Rightarrow> nat \<Rightarrow> transport \<Rightarrow> string + (nat \<times> (string \<times> string) list \<times> string \<times> transport)" where
  "read_head buf search_start rs =
     (if MAX_HEADER_BYTES < length buf then Inl (api_error ''HTTP response headers too large'')
      else
        (case find_headers_end (drop search_start buf) of
           Some p \<Rightarrow>
             (case parse_response_head (take (search_start + p) buf) of
                Inl e \<Rightarrow> Inl e
              | Inr (status, hs) \<Rightarrow> Inr (status, hs, drop (search_start + p) buf, rs))
         | None \<Rightarrow>
             (case read_some rs of
                (Inl e, _) \<Rightarrow> Inl (io_error e)
              | (Inr b, rs') \<Rightarrow>
                  if b = [] then Inl (api_error ''HTTP connection closed before headers'')
                  else read_head (buf @ b) (length buf - 3) rs')))"
  by pat_completeness auto
termination
  by (relation "measure (\<lambda>(buf, n, rs). length rs)") (auto simp: read_some_def split: list.splits)

declare read_head.simps [simp del]

datatype body_kind = EmptyBody | ContentLength nat | Chunked | UntilEof

definition length_and_encoding :: "string \<times> string \<Rightarrow> nat option \<times> string option \<Rightarrow> nat option \<times> string option" where
  "length_and_encoding h s =
     (let n = to_lowercase (fst h)
      in if n = ''content-length'' then (parse_uint 64 (trim (snd h)), snd s)
         else if n = ''transfer-encoding'' then (fst s, Some (to_lowercase (snd h)))
         else s)"

definition body_kind_from_headers :: "(string \<times> string) list \<Rightarrow> body_kind" where
  "body_kind_from_headers hs =
     (case fold length_and_encoding hs (None, None) of
        (len, te) \<Rightarrow>
          if (case te of None \<Rightarrow> False | Some t \<Rightarrow> list_ex (\<lambda>v. trim v = ''chunked'') (split_on (CHR '','') t)) then Chunked
          else (case len of Some n \<Rightarrow> if n = 0 then EmptyBody else ContentLength n | None \<Rightarrow> UntilEof))"

section \<open>The body of an answer\<close>

record buffer =
  bf_bytes :: string
  bf_pos :: nat

definition buffer_new :: "string \<Rightarrow> buffer" where
  "buffer_new initial = \<lparr>bf_bytes = initial, bf_pos = 0\<rparr>"

definition available :: "buffer \<Rightarrow> string" where
  "available b = drop (bf_pos b) (bf_bytes b)"

definition consume :: "nat \<Rightarrow> buffer \<Rightarrow> buffer" where
  "consume n b =
     (let p = bf_pos b + n
      in if p = length (bf_bytes b) then \<lparr>bf_bytes = [], bf_pos = 0\<rparr>
         else if 0 < p \<and> length (bf_bytes b) div 2 \<le> p then \<lparr>bf_bytes = drop p (bf_bytes b), bf_pos = 0\<rparr>
         else b\<lparr>bf_pos := p\<rparr>)"

definition extend_buffer :: "string \<Rightarrow> buffer \<Rightarrow> buffer res" where
  "extend_buffer d b =
     (if MAX_BUFFERED_BYTES < length (bf_bytes b) + length d then Inl (api_error ''HTTP body buffer exceeded'')
      else Inr (b\<lparr>bf_bytes := bf_bytes b @ d\<rparr>))"

definition split_to_vec :: "nat \<Rightarrow> buffer \<Rightarrow> string \<times> buffer" where
  "split_to_vec n b = (let k = min n (length (available b)) in (take k (available b), consume k b))"

datatype chunked_state = SizeLine | ChunkData nat | DataCrlf | Trailers | ChunksDone

record body_state =
  bd_reads :: transport
  bd_kind :: body_kind
  bd_buf :: buffer
  bd_chunked :: chunked_state
  bd_remaining :: nat

definition body_new :: "transport \<Rightarrow> body_kind \<Rightarrow> string \<Rightarrow> body_state" where
  "body_new rs k leftover =
     \<lparr>bd_reads = rs, bd_kind = k, bd_buf = buffer_new leftover, bd_chunked = SizeLine,
      bd_remaining = (case k of ContentLength n \<Rightarrow> n | _ \<Rightarrow> 0)\<rparr>"

text \<open>\<open>n\<close> bytes were read.\<close>

definition read_more :: "body_state \<Rightarrow> (string + nat) \<times> body_state" where
  "read_more st =
     (case read_some (bd_reads st) of
        (Inl e, rs) \<Rightarrow> (Inl e, st\<lparr>bd_reads := rs\<rparr>)
      | (Inr d, rs) \<Rightarrow>
          if d = [] then (Inr 0, st\<lparr>bd_reads := rs\<rparr>)
          else
            (case extend_buffer d (bd_buf st) of
               Inl e \<Rightarrow> (Inl e, st\<lparr>bd_reads := rs\<rparr>)
             | Inr b \<Rightarrow> (Inr (length d), st\<lparr>bd_reads := rs, bd_buf := b\<rparr>)))"

definition take_out :: "nat \<Rightarrow> body_state \<Rightarrow> string \<times> body_state" where
  "take_out n st = (case split_to_vec n (bd_buf st) of (out, b) \<Rightarrow> (out, st\<lparr>bd_buf := b\<rparr>))"

type_synonym next_item = "string + string option"

definition next_eof :: "body_state \<Rightarrow> next_item \<times> body_state" where
  "next_eof st =
     (if available (bd_buf st) \<noteq> [] then
        (case take_out (length (available (bd_buf st))) st of (out, st') \<Rightarrow> (Inr (Some out), st'))
      else
        (case read_more st of
           (Inl e, st1) \<Rightarrow> (Inl e, st1)
         | (Inr n, st1) \<Rightarrow>
             if n = 0 then (Inr None, st1)
             else (case take_out (length (available (bd_buf st1))) st1 of (out, st') \<Rightarrow> (Inr (Some out), st'))))"

definition filled :: "string \<Rightarrow> body_state \<Rightarrow> (string + unit) \<times> body_state" where
  "filled eof st =
     (if available (bd_buf st) \<noteq> [] then (Inr (), st)
      else
        (case read_more st of
           (Inl e, st1) \<Rightarrow> (Inl e, st1)
         | (Inr n, st1) \<Rightarrow> if n = 0 then (Inl eof, st1) else (Inr (), st1)))"

definition next_content_length :: "body_state \<Rightarrow> next_item \<times> body_state" where
  "next_content_length st =
     (if bd_remaining st = 0 then (Inr None, st)
      else
        (case filled ''unexpected EOF reading content-length body'' st of
           (Inl e, st1) \<Rightarrow> (Inl e, st1)
         | (Inr _, st1) \<Rightarrow>
             (case take_out (min (min (bd_remaining st1) (length (available (bd_buf st1)))) READ_CHUNK_BYTES) st1 of
                (out, st2) \<Rightarrow> (Inr (Some out), st2\<lparr>bd_remaining := bd_remaining st2 - length out\<rparr>))))"

definition chunk_size :: "string \<Rightarrow> nat res" where
  "chunk_size line =
     (case from_utf8 line of
        (n, Some e) \<Rightarrow> Inl (utf8_error_text n e)
      | (n, None) \<Rightarrow>
          (let part = trim (hd (split_on (CHR '';'') line))
           in if part = [] then Inl ''invalid chunk size''
              else ok_or ''invalid chunk size'' (parse_hex part)))"

definition trailers_end :: "string \<Rightarrow> nat option" where
  "trailers_end s = (if take 2 s = crlf then Some 2 else find_headers_end s)"

text \<open>One turn of the loop of \<open>next_chunked\<close>: an answer, or the state to go on with. \<open>await\<close> reads more.\<close>

definition await :: "string \<Rightarrow> body_state \<Rightarrow> next_item option \<times> body_state" where
  "await eof st =
     (case read_more st of
        (Inl e, st1) \<Rightarrow> (Some (Inl e), st1)
      | (Inr n, st1) \<Rightarrow> (if n = 0 then Some (Inl eof) else None, st1))"

definition chunked_turn :: "body_state \<Rightarrow> next_item option \<times> body_state" where
  "chunked_turn st =
     (let av = available (bd_buf st)
      in case bd_chunked st of
           SizeLine \<Rightarrow>
             (case find_str crlf av of
                None \<Rightarrow> await ''unexpected EOF reading chunk size'' st
              | Some i \<Rightarrow>
                  (case chunk_size (take i av) of
                     Inl e \<Rightarrow> (Some (Inl e), st)
                   | Inr n \<Rightarrow>
                       (None, st\<lparr>bd_buf := consume (i + 2) (bd_buf st),
                                 bd_chunked := (if n = 0 then Trailers else ChunkData n)\<rparr>)))
         | ChunkData remaining \<Rightarrow>
             if remaining = 0 then (None, st\<lparr>bd_chunked := DataCrlf\<rparr>)
             else
               (case filled ''unexpected EOF reading chunk data'' st of
                  (Inl e, st1) \<Rightarrow> (Some (Inl e), st1)
                | (Inr _, st1) \<Rightarrow>
                    (case take_out (min (min remaining (length (available (bd_buf st1)))) READ_CHUNK_BYTES) st1 of
                       (out, st2) \<Rightarrow> (Some (Inr (Some out)), st2\<lparr>bd_chunked := ChunkData (remaining - length out)\<rparr>)))
         | DataCrlf \<Rightarrow>
             if length av < 2 then await ''unexpected EOF reading chunk CRLF'' st
             else if take 2 av \<noteq> crlf then (Some (Inl ''invalid chunk CRLF''), st)
             else (None, st\<lparr>bd_buf := consume 2 (bd_buf st), bd_chunked := SizeLine\<rparr>)
         | Trailers \<Rightarrow>
             (case trailers_end av of
                Some e \<Rightarrow> (Some (Inr None), st\<lparr>bd_buf := consume e (bd_buf st), bd_chunked := ChunksDone\<rparr>)
              | None \<Rightarrow> await ''unexpected EOF reading trailers'' st)
         | ChunksDone \<Rightarrow> (Some (Inr None), st))"


subsection \<open>The loops end\<close>

lemma available_consume [simp]: "available (consume n b) = drop n (available b)"
  by (auto simp: available_def consume_def Let_def add.commute)

lemma read_some_simps [simp]: "read_some [] = (Inr [], [])" "read_some (r # rs) = (r, rs)"
  by (simp_all add: read_some_def)

lemma extend_available:
  assumes "extend_buffer d b = Inr b'" "bf_pos b \<le> length (bf_bytes b)"
  shows "available b' = available b @ d"
  using assms by (auto simp: extend_buffer_def available_def split: if_splits)

lemma read_more_cases:
  obtains e where "read_more st = (Inl e, st\<lparr>bd_reads := tl (bd_reads st)\<rparr>)"
  | "read_more st = (Inr 0, st\<lparr>bd_reads := tl (bd_reads st)\<rparr>)"
  | d rs b where "bd_reads st = Inr d # rs" "d \<noteq> []" "extend_buffer d (bd_buf st) = Inr b"
      "read_more st = (Inr (length d), st\<lparr>bd_reads := rs, bd_buf := b\<rparr>)"
  by (cases "bd_reads st"; cases "hd (bd_reads st)"; cases "extend_buffer (projr (hd (bd_reads st))) (bd_buf st)")
     (fastforce simp: read_more_def split: if_splits)+

lemma read_more_shorter: "read_more st = (Inr n, st') \<Longrightarrow> n \<noteq> 0 \<Longrightarrow> length (bd_reads st') < length (bd_reads st)"
  by (cases st rule: read_more_cases) auto

definition turn_rank :: "chunked_state \<Rightarrow> nat" where
  "turn_rank s = (case s of ChunkData _ \<Rightarrow> 1 | _ \<Rightarrow> 0)"

definition body_order :: "(body_state \<times> body_state) set" where
  "body_order =
     measures [\<lambda>st. length (bd_reads st), \<lambda>st. length (available (bd_buf st)), \<lambda>st. turn_rank (bd_chunked st)]"

lemma wf_body_order: "wf body_order"
  by (simp add: body_order_def)

lemma await_shorter: "await m st = (None, st') \<Longrightarrow> length (bd_reads st') < length (bd_reads st)"
  by (auto simp: await_def split: prod.splits sum.splits if_splits dest: read_more_shorter)

lemma await_gives: "await m st = (Some r, st') \<Longrightarrow> \<exists>e. r = Inl e"
  by (auto simp: await_def split: prod.splits sum.splits if_splits)

lemma filled_cases:
  "filled m st = (Inr u, st1) \<Longrightarrow> st1 = st \<and> available (bd_buf st) \<noteq> [] \<or> length (bd_reads st1) < length (bd_reads st)"
  by (auto simp: filled_def split: prod.splits sum.splits if_splits dest: read_more_shorter)

lemma take_out_order:
  assumes "take_out n st1 = (out, st2)" "st1 = st \<and> available (bd_buf st) \<noteq> [] \<or> length (bd_reads st1) < length (bd_reads st)"
    "st1 = st \<Longrightarrow> 0 < n" "bd_reads st' = bd_reads st2" "bd_buf st' = bd_buf st2"
  shows "(st', st) \<in> body_order"
proof -
  have "bd_reads st2 = bd_reads st1" "bd_buf st2 = consume (min n (length (available (bd_buf st1)))) (bd_buf st1)"
    using assms(1) by (auto simp: take_out_def split_to_vec_def Let_def)
  then show ?thesis
    using assms(2-) by (auto simp: body_order_def)
qed

lemma turn_order:
  assumes "chunked_turn st = (r, st')" "\<And>x. r = Some x \<Longrightarrow> \<exists>b. x = Inr (Some b)"
  shows "(st', st) \<in> body_order"
proof -
  note order = body_order_def turn_rank_def
  have awaited: "(st', st) \<in> body_order" if "await m st = (r, st')" for m
    using that assms(2) await_gives [of m st] await_shorter [of m st st'] by (cases r) (auto simp: body_order_def)
  show ?thesis
  proof (cases "bd_chunked st")
    case SizeLine
    show ?thesis
    proof (cases "find_str crlf (available (bd_buf st))")
      case None
      then show ?thesis
        using awaited assms(1) by (simp add: chunked_turn_def SizeLine)
    next
      case (Some i)
      then show ?thesis
        using assms find_str_less [OF Some]
        by (auto simp: chunked_turn_def SizeLine order crlf_def split: sum.splits)
    qed
  next
    case (ChunkData n)
    show ?thesis
    proof (cases "n = 0")
      case True
      then show ?thesis
        using assms(1) by (auto simp: chunked_turn_def ChunkData order)
    next
      case False
      then show ?thesis
        using assms unfolding chunked_turn_def ChunkData
        by (auto split: prod.splits sum.splits simp: READ_CHUNK_BYTES_def intro!: take_out_order dest!: filled_cases)
    qed
  next
    case DataCrlf
    then show ?thesis
      using awaited [of "''unexpected EOF reading chunk CRLF''"] assms
      by (auto simp: chunked_turn_def Let_def order split: if_splits)
  next
    case Trailers
    then show ?thesis
      using awaited assms by (auto simp: chunked_turn_def split: option.splits)
  next
    case ChunksDone
    then show ?thesis
      using assms by (auto simp: chunked_turn_def)
  qed
qed

function next_chunked :: "body_state \<Rightarrow> next_item \<times> body_state" where
  "next_chunked st = (case chunked_turn st of (Some r, st') \<Rightarrow> (r, st') | (None, st') \<Rightarrow> next_chunked st')"
  by pat_completeness auto
termination
  by (relation body_order) (rule wf_body_order, rule turn_order, auto)

declare next_chunked.simps [simp del]

definition next_bytes :: "body_state \<Rightarrow> next_item \<times> body_state" where
  "next_bytes st =
     (case bd_kind st of
        EmptyBody \<Rightarrow> (Inr None, st)
      | UntilEof \<Rightarrow> next_eof st
      | ContentLength _ \<Rightarrow> next_content_length st
      | Chunked \<Rightarrow> next_chunked st)"

lemma trans_body_order: "trans body_order"
  unfolding trans_def body_order_def by auto

lemma next_chunked_order: "next_chunked st = (Inr (Some b), st') \<Longrightarrow> (st', st) \<in> body_order"
proof (induction st rule: next_chunked.induct)
  case (1 st)
  show ?case
  proof (cases "chunked_turn st")
    case (Pair r st1)
    show ?thesis
    proof (cases r)
      case None
      then show ?thesis
        using 1 Pair turn_order [OF Pair] trans_body_order by (auto simp: next_chunked.simps [of st] dest: transD)
    next
      case (Some x)
      then show ?thesis
        using 1(2) Pair turn_order [OF Pair] by (simp add: next_chunked.simps [of st])
    qed
  qed
qed

lemma next_bytes_order:
  assumes "next_bytes st = (Inr (Some b), st')"
  shows "(st', st) \<in> body_order"
proof (cases "bd_kind st")
  case UntilEof
  show ?thesis
    using assms unfolding next_bytes_def UntilEof next_eof_def
    by (auto split: prod.splits sum.splits if_splits intro: take_out_order dest: read_more_shorter)
next
  case (ContentLength n)
  then show ?thesis
    using assms unfolding next_bytes_def next_content_length_def
    by (auto split: prod.splits sum.splits if_splits simp: READ_CHUNK_BYTES_def intro!: take_out_order dest!: filled_cases)
qed (use assms next_chunked_order in \<open>auto simp: next_bytes_def\<close>)

text \<open>The stream of a body, as the parser of events reads it.\<close>

function body_items :: "body_state \<Rightarrow> inner list" where
  "body_items st =
     (case next_bytes st of
        (Inl e, _) \<Rightarrow> [Broken e]
      | (Inr None, _) \<Rightarrow> []
      | (Inr (Some b), st') \<Rightarrow> Chunk b # body_items st')"
  by pat_completeness auto
termination
  by (relation body_order) (rule wf_body_order, metis next_bytes_order)

declare body_items.simps [simp del]

section \<open>A request and its answer\<close>

fun collect_body :: "string \<Rightarrow> inner list \<Rightarrow> string res" where
  "collect_body acc [] = Inr acc"
| "collect_body acc (Chunk b # xs) =
     (if MAX_TEXT_BODY_BYTES < length acc + length b then Inl (io_error ''response body too large'') else collect_body (acc @ b) xs)"
| "collect_body acc (Broken e # xs) = Inl (io_error e)"
| "collect_body acc (Wait # xs) = collect_body acc xs"

definition response_text :: "inner list \<Rightarrow> string res" where
  "response_text xs =
     map_sum id (\<lambda>bs. if snd (from_utf8 bs) = None then bs else from_utf8_lossy bs) (collect_body [] xs)"

text \<open>\<open>exchange\<close> opens the connection, with TLS for https, and writes; its errors are those of the client.\<close>

type_synonym exchange = "parsed_url \<Rightarrow> string \<Rightarrow> string + transport"

definition send_parts ::
  "exchange \<Rightarrow> string \<Rightarrow> http_method \<Rightarrow> string \<Rightarrow> (string \<times> string) list \<Rightarrow> string \<Rightarrow>
     (nat \<times> (string \<times> string) list \<times> inner list) res" where
  "send_parts exchange agent m url hs body =
     (case parse_url url of
        Inl e \<Rightarrow> Inl (api_error (''Invalid URL: '' @ e))
      | Inr u \<Rightarrow>
          (case exchange u (build_request_bytes m u agent hs body @ body) of
             Inl e \<Rightarrow> Inl e
           | Inr rs \<Rightarrow>
               (case read_head [] 0 rs of
                  Inl e \<Rightarrow> Inl e
                | Inr (status, answer_hs, leftover, rs') \<Rightarrow>
                    Inr (status, answer_hs, body_items (body_new rs' (body_kind_from_headers answer_hs) leftover)))))"

text \<open>\<open>late d\<close>: the head was not there after \<open>d\<close> seconds.\<close>

definition send_request ::
  "(nat \<Rightarrow> bool) \<Rightarrow> nat option \<Rightarrow> exchange \<Rightarrow> string \<Rightarrow> http_method \<Rightarrow> string \<Rightarrow> (string \<times> string) list \<Rightarrow> string \<Rightarrow>
     (nat \<times> (string \<times> string) list \<times> inner list) res" where
  "send_request late timeout exchange agent m url hs body =
     (if (case timeout of None \<Rightarrow> False | Some d \<Rightarrow> late d) then Inl (api_error ''Request timed out'')
      else send_parts exchange agent m url hs body)"

end
