(* ===== verification/Http_Body.thy ===== *)
theory Http_Body
  imports Http_Client
begin

text \<open>
  What the HTTP client of \<open>Http_Client\<close> makes of the bytes of a connection does not depend on how its reads cut
  them: the head and the body are those of the whole text.
\<close>

section \<open>The buffer\<close>

text \<open>At least half of the bytes kept are still to be given out.\<close>

definition buffer_ok :: "buffer \<Rightarrow> bool" where
  "buffer_ok b \<longleftrightarrow> bf_pos b \<le> length (bf_bytes b) \<and> length (bf_bytes b) \<le> 2 * length (available b)"

lemma buffer_new_ok: "buffer_ok (buffer_new s)" "available (buffer_new s) = s"
  by (simp_all add: buffer_ok_def buffer_new_def available_def)

lemma consume_ok: "buffer_ok b \<Longrightarrow> n \<le> length (available b) \<Longrightarrow> buffer_ok (consume n b)"
  by (auto simp: buffer_ok_def consume_def available_def Let_def)

lemma extend_ok:
  assumes "buffer_ok b" "length (available b) \<le> 122880" "length d \<le> READ_CHUNK_BYTES"
  obtains b' where "extend_buffer d b = Inr b'" "buffer_ok b'" "available b' = available b @ d"
proof -
  have "length (bf_bytes b) + length d \<le> MAX_BUFFERED_BYTES"
    using assms by (simp add: buffer_ok_def READ_CHUNK_BYTES_def MAX_BUFFERED_BYTES_def)
  then have e: "extend_buffer d b = Inr (b\<lparr>bf_bytes := bf_bytes b @ d\<rparr>)"
    by (simp add: extend_buffer_def)
  moreover have "available (b\<lparr>bf_bytes := bf_bytes b @ d\<rparr>) = available b @ d"
    using extend_available [OF e] assms(1) by (simp add: buffer_ok_def)
  moreover from this have "buffer_ok (b\<lparr>bf_bytes := bf_bytes b @ d\<rparr>)"
    using assms(1) by (simp add: buffer_ok_def)
  ultimately show thesis
    using that by blast
qed

section \<open>What is still to come\<close>

text \<open>Reads that give bytes, then the end of the connection: closed, or \<open>Some e\<close> when it fails.\<close>

definition plain_reads :: "string list \<Rightarrow> bool" where
  "plain_reads bss \<longleftrightarrow> (\<forall>b \<in> set bss. b \<noteq> [] \<and> length b \<le> READ_CHUNK_BYTES)"

definition closing :: "string option \<Rightarrow> transport \<Rightarrow> bool" where
  "closing fin rs = (case fin of None \<Rightarrow> rs = [] \<or> hd rs = Inr [] | Some e \<Rightarrow> rs \<noteq> [] \<and> hd rs = Inl e)"

definition comes :: "string option \<Rightarrow> body_state \<Rightarrow> string \<Rightarrow> bool" where
  "comes fin st s \<longleftrightarrow>
     buffer_ok (bd_buf st) \<and>
     (\<exists>bss rs. bd_reads st = map Inr bss @ rs \<and> plain_reads bss \<and> closing fin rs \<and> s = available (bd_buf st) @ concat bss)"

definition at_end :: "string option \<Rightarrow> string \<Rightarrow> string" where
  "at_end fin m = case_option m id fin"

lemma comes_cong: "bd_buf st' = bd_buf st \<Longrightarrow> bd_reads st' = bd_reads st \<Longrightarrow> comes fin st' s = comes fin st s"
  by (simp add: comes_def)

lemma comes_consume:
  assumes "comes fin st s" "n \<le> length (available (bd_buf st))" "bd_buf st' = consume n (bd_buf st)" "bd_reads st' = bd_reads st"
  shows "comes fin st' (drop n s)"
proof -
  obtain bss rs where "bd_reads st = map Inr bss @ rs" "plain_reads bss" "closing fin rs" "s = available (bd_buf st) @ concat bss"
    using assms(1) by (auto simp: comes_def)
  then show ?thesis
    using assms unfolding comes_def by (intro conjI exI [of _ bss] exI [of _ rs]) (simp_all add: consume_ok)
qed

lemma comes_available: "comes fin st s \<Longrightarrow> \<exists>r. s = available (bd_buf st) @ r"
  by (auto simp: comes_def)

lemma read_more_comes:
  assumes "comes fin st s" "length (available (bd_buf st)) \<le> 122880"
  obtains (got) n st1 where "read_more st = (Inr n, st1)" "n \<noteq> 0" "comes fin st1 s" "available (bd_buf st1) \<noteq> []"
      "bd_chunked st1 = bd_chunked st" "bd_kind st1 = bd_kind st" "bd_remaining st1 = bd_remaining st"
  | (ended) st1 where "read_more st = (case fin of None \<Rightarrow> Inr 0 | Some e \<Rightarrow> Inl e, st1)" "s = available (bd_buf st)"
      "bd_kind st1 = bd_kind st"
proof -
  obtain bss rs where c: "buffer_ok (bd_buf st)" "bd_reads st = map Inr bss @ rs" "plain_reads bss" "closing fin rs"
    "s = available (bd_buf st) @ concat bss"
    using assms(1) by (auto simp: comes_def)
  show thesis
  proof (cases bss)
    case Nil
    then have "fst (read_some (bd_reads st)) = (case fin of None \<Rightarrow> Inr [] | Some e \<Rightarrow> Inl e)"
      using c(2,4) by (cases rs) (auto simp: closing_def split: option.splits)
    then have "fst (read_more st) = (case fin of None \<Rightarrow> Inr 0 | Some e \<Rightarrow> Inl e)" "bd_kind (snd (read_more st)) = bd_kind st"
      by (auto simp: read_more_def split: option.splits prod.splits)
    then show thesis
      using ended [of "snd (read_more st)"] c(5) Nil by (metis append_Nil2 concat.simps(1) prod.collapse)
  next
    case (Cons d ds)
    have d: "d \<noteq> []" "length d \<le> READ_CHUNK_BYTES" "plain_reads ds"
      using c(3) Cons by (auto simp: plain_reads_def)
    obtain b where b: "extend_buffer d (bd_buf st) = Inr b" "buffer_ok b" "available b = available (bd_buf st) @ d"
      by (rule extend_ok [OF c(1) assms(2) d(2)])
    have "read_more st = (Inr (length d), st\<lparr>bd_reads := map Inr ds @ rs, bd_buf := b\<rparr>)"
      using c(2) Cons d(1) b(1) by (simp add: read_more_def)
    moreover have "comes fin (st\<lparr>bd_reads := map Inr ds @ rs, bd_buf := b\<rparr>) s"
      using c b d(3) Cons by (auto simp: comes_def)
    ultimately show thesis
      using got d(1) b(3) by auto
  qed
qed

lemma await_comes:
  assumes "comes fin st s" "length (available (bd_buf st)) \<le> 122880" "await m st = (r, st')"
  shows "bd_kind st' = bd_kind st \<and> bd_remaining st' = bd_remaining st \<and>
     (r = None \<and> comes fin st' s \<and> bd_chunked st' = bd_chunked st \<or> r = Some (Inl (at_end fin m)) \<and> s = available (bd_buf st))"
  using assms(1,2)
proof (cases rule: read_more_comes)
  case (got n st1)
  then show ?thesis
    using assms(3) by (simp add: await_def)
next
  case (ended st1)
  moreover have "bd_remaining st1 = bd_remaining st"
    using ended(1) by (cases st rule: read_more_cases) (auto split: option.splits)
  ultimately show ?thesis
    using assms(3) by (auto simp: await_def at_end_def split: option.splits)
qed

lemma filled_comes:
  assumes "comes fin st s" "filled m st = (r, st')"
  shows "bd_kind st' = bd_kind st \<and>
     ((\<exists>u. r = Inr u) \<and> comes fin st' s \<and> available (bd_buf st') \<noteq> [] \<and> bd_chunked st' = bd_chunked st \<and>
      bd_remaining st' = bd_remaining st \<or>
      r = Inl (at_end fin m) \<and> s = [])"
proof (cases "available (bd_buf st) = []")
  case True
  then have "length (available (bd_buf st)) \<le> 122880"
    by simp
  with assms(1) show ?thesis
  proof (cases rule: read_more_comes)
    case (got n st1)
    then show ?thesis
      using assms(2) True by (simp add: filled_def)
  next
    case (ended st1)
    then show ?thesis
      using assms(2) True by (auto simp: filled_def at_end_def split: option.splits)
  qed
next
  case False
  then show ?thesis
    using assms by (simp add: filled_def)
qed

lemma take_out_comes:
  assumes "comes fin st s" "take_out n st = (out, st')" "n \<le> length (available (bd_buf st))"
  shows "length out = n \<and> s = out @ drop n s \<and> comes fin st' (drop n s) \<and> bd_kind st' = bd_kind st \<and>
     bd_chunked st' = bd_chunked st \<and> bd_remaining st' = bd_remaining st"
proof -
  have o: "out = take n (available (bd_buf st))" "st' = st\<lparr>bd_buf := consume n (bd_buf st)\<rparr>"
    using assms(2,3) by (auto simp: take_out_def split_to_vec_def Let_def)
  moreover have "comes fin st' (drop n s)"
    by (rule comes_consume [OF assms(1,3)]) (simp_all add: o)
  moreover obtain r where "s = available (bd_buf st) @ r"
    using comes_available [OF assms(1)] by blast
  ultimately show ?thesis
    using assms(3) by simp
qed

section \<open>The body of a whole text\<close>

text \<open>What the text of a body says: the bytes of the body, and the error at their end.\<close>

function unchunk :: "string option \<Rightarrow> chunked_state \<Rightarrow> string \<Rightarrow> string \<times> string option" where
  "unchunk fin SizeLine s =
     (case find_str crlf s of
        None \<Rightarrow> ([], Some (at_end fin ''unexpected EOF reading chunk size''))
      | Some i \<Rightarrow>
          (case chunk_size (take i s) of
             Inl e \<Rightarrow> ([], Some e)
           | Inr n \<Rightarrow> unchunk fin (if n = 0 then Trailers else ChunkData n) (drop (i + 2) s)))"
| "unchunk fin (ChunkData n) s =
     (if length s < n then (s, Some (at_end fin ''unexpected EOF reading chunk data''))
      else (case unchunk fin DataCrlf (drop n s) of (p, e) \<Rightarrow> (take n s @ p, e)))"
| "unchunk fin DataCrlf s =
     (if length s < 2 then ([], Some (at_end fin ''unexpected EOF reading chunk CRLF''))
      else if take 2 s \<noteq> crlf then ([], Some ''invalid chunk CRLF'')
      else unchunk fin SizeLine (drop 2 s))"
| "unchunk fin Trailers s =
     ([], if trailers_end s = None then Some (at_end fin ''unexpected EOF reading trailers'') else None)"
| "unchunk fin ChunksDone s = ([], None)"
  by pat_completeness auto
termination
  by (relation "measures [\<lambda>(f, c, s). length s, \<lambda>(f, c, s). turn_rank c]")
     (auto simp: turn_rank_def crlf_def dest!: find_str_less)

declare unchunk.simps [simp del]

text \<open>The lines that are not data, each of at most \<open>n\<close> bytes.\<close>

function lines_within :: "nat \<Rightarrow> chunked_state \<Rightarrow> string \<Rightarrow> bool" where
  "lines_within l SizeLine s =
     (case find_str crlf s of
        None \<Rightarrow> length s \<le> l
      | Some i \<Rightarrow> i \<le> l \<and>
          (case chunk_size (take i s) of
             Inl e \<Rightarrow> True
           | Inr n \<Rightarrow> lines_within l (if n = 0 then Trailers else ChunkData n) (drop (i + 2) s)))"
| "lines_within l (ChunkData n) s = (length s < n \<or> lines_within l DataCrlf (drop n s))"
| "lines_within l DataCrlf s = (if length s < 2 \<or> take 2 s \<noteq> crlf then True else lines_within l SizeLine (drop 2 s))"
| "lines_within l Trailers s = (case trailers_end s of None \<Rightarrow> length s \<le> l | Some e \<Rightarrow> e \<le> l)"
| "lines_within l ChunksDone s = True"
  by pat_completeness auto
termination
  by (relation "measures [\<lambda>(f, c, s). length s, \<lambda>(f, c, s). turn_rank c]")
     (auto simp: turn_rank_def crlf_def dest!: find_str_less)

declare lines_within.simps [simp del]

definition body_of :: "string option \<Rightarrow> body_kind \<Rightarrow> nat \<Rightarrow> chunked_state \<Rightarrow> string \<Rightarrow> string \<times> string option" where
  "body_of fin k n c s =
     (case k of
        EmptyBody \<Rightarrow> ([], None)
      | UntilEof \<Rightarrow> (s, fin)
      | ContentLength _ \<Rightarrow>
          if length s < n then (s, Some (at_end fin ''unexpected EOF reading content-length body'')) else (take n s, None)
      | Chunked \<Rightarrow> unchunk fin c s)"

section \<open>The stream of a body\<close>

text \<open>What a state has still to give, and the lines it may read at once.\<close>

definition rest_of_body :: "string option \<Rightarrow> body_state \<Rightarrow> string \<Rightarrow> string \<times> string option" where
  "rest_of_body fin st s = body_of fin (bd_kind st) (bd_remaining st) (bd_chunked st) s"

definition LINE_LIMIT :: nat where
  "LINE_LIMIT = 122000"

definition fits :: "body_state \<Rightarrow> string \<Rightarrow> bool" where
  "fits st s \<longleftrightarrow> (bd_kind st = Chunked \<longrightarrow> lines_within LINE_LIMIT (bd_chunked st) s)"

text \<open>An answer says what the rest of the body is.\<close>

definition agrees :: "string option \<Rightarrow> body_state \<Rightarrow> string \<Rightarrow> next_item \<Rightarrow> body_state \<Rightarrow> bool" where
  "agrees fin st s r st' =
     (case r of
        Inl e \<Rightarrow> rest_of_body fin st s = ([], Some e)
      | Inr None \<Rightarrow> rest_of_body fin st s = ([], None)
      | Inr (Some out) \<Rightarrow>
          (\<exists>s'. comes fin st' s' \<and> fits st' s' \<and> rest_of_body fin st s = apfst ((@) out) (rest_of_body fin st' s')))"

lemma lines_limit:
  assumes "find_str p av = None" "p \<noteq> []" "length p \<le> 4"
    "case find_str p (av @ r) of None \<Rightarrow> length (av @ r) \<le> LINE_LIMIT | Some i \<Rightarrow> i \<le> LINE_LIMIT"
  shows "length av \<le> 122880"
proof (cases "find_str p (av @ r)")
  case None
  then show ?thesis
    using assms(4) by (simp add: LINE_LIMIT_def)
next
  case (Some i)
  then show ?thesis
    using assms find_str_later [OF assms(2,1) Some] by (simp add: LINE_LIMIT_def)
qed

lemma unchunk_data:
  assumes "length out \<le> n"
  shows "unchunk fin (ChunkData n) (out @ s) = apfst ((@) out) (unchunk fin (ChunkData (n - length out)) s)"
  using assms by (auto simp: unchunk.simps split: prod.split)

lemma lines_data: "length out \<le> n \<Longrightarrow> lines_within l (ChunkData n) (out @ s) = lines_within l (ChunkData (n - length out)) s"
  by (auto simp: lines_within.simps)

lemma crlf_not_Nil [simp]: "crlf \<noteq> []" "length crlf = 2"
  by (simp_all add: crlf_def)

lemma trailers_end_append: "trailers_end av = Some e \<Longrightarrow> trailers_end (av @ r) = Some e"
proof -
  assume a: "trailers_end av = Some e"
  show ?thesis
  proof (cases "take 2 av = crlf")
    case True
    then have "2 \<le> length av"
      by (metis crlf_not_Nil(2) length_take min.absorb_iff2 min.commute)
    then show ?thesis
      using a True by (simp add: trailers_end_def)
  next
    case False
    then obtain i where i: "find_str (crlf @ crlf) av = Some i" "e = i + 4"
      using a by (auto simp: trailers_end_def find_headers_end_def)
    then have "2 \<le> length av"
      using find_str_less [OF i(1)] by simp
    then show ?thesis
      using a False find_str_append [OF _ i(1), of r] i by (simp add: trailers_end_def find_headers_end_def)
  qed
qed

lemma trailers_end_less: "trailers_end av = Some e \<Longrightarrow> e \<le> length av"
  by (auto simp: trailers_end_def find_headers_end_def crlf_def split: if_splits dest: find_str_less arg_cong [where f = length])

lemma trailers_limit:
  assumes "trailers_end av = None" "case trailers_end (av @ r) of None \<Rightarrow> length (av @ r) \<le> LINE_LIMIT | Some e \<Rightarrow> e \<le> LINE_LIMIT"
  shows "length av \<le> 122880"
proof -
  have f: "find_str (crlf @ crlf) av = None" "take 2 av \<noteq> crlf"
    using assms(1) by (auto simp: trailers_end_def find_headers_end_def split: if_splits)
  show ?thesis
  proof (cases "take 2 (av @ r) = crlf")
    case True
    then have "length av < 2"
      using f(2) by (cases "2 \<le> length av") simp_all
    then show ?thesis
      by simp
  next
    case False
    then have "case find_str (crlf @ crlf) (av @ r) of None \<Rightarrow> length (av @ r) \<le> LINE_LIMIT | Some i \<Rightarrow> i \<le> LINE_LIMIT"
      using assms(2) by (auto simp: trailers_end_def find_headers_end_def split: option.splits)
    then show ?thesis
      using lines_limit [OF f(1), of r] by simp
  qed
qed

lemma await_agrees:
  assumes "comes fin st s" "fits st s" "length (available (bd_buf st)) \<le> 122880" "await m st = (r, st')"
    "s = available (bd_buf st) \<Longrightarrow> rest_of_body fin st s = ([], Some (at_end fin m))"
  shows "bd_kind st' = bd_kind st \<and>
    (case r of
       Some x \<Rightarrow> agrees fin st s x st'
     | None \<Rightarrow> \<exists>s'. comes fin st' s' \<and> fits st' s' \<and> rest_of_body fin st' s' = rest_of_body fin st s)"
proof -
  note a = await_comes [OF assms(1,3,4)]
  show ?thesis
  proof (cases r)
    case None
    then show ?thesis
      using a assms(2) by (intro conjI) (auto simp: fits_def rest_of_body_def intro!: exI [of _ s])
  next
    case (Some x)
    then show ?thesis
      using a assms(5) by (auto simp: agrees_def)
  qed
qed

lemma turn_agrees:
  assumes "comes fin st s" "bd_kind st = Chunked" "fits st s" "chunked_turn st = (r, st')"
  shows "bd_kind st' = Chunked \<and>
    (case r of
       Some x \<Rightarrow> agrees fin st s x st'
     | None \<Rightarrow> \<exists>s'. comes fin st' s' \<and> fits st' s' \<and> rest_of_body fin st' s' = rest_of_body fin st s)"
proof -
  obtain t where t: "s = available (bd_buf st) @ t"
    using comes_available [OF assms(1)] by blast
  note defs = agrees_def rest_of_body_def body_of_def fits_def assms(2)
  have lines: "lines_within LINE_LIMIT (bd_chunked st) s"
    using assms(2,3) by (simp add: fits_def)
  show ?thesis
  proof (cases "bd_chunked st")
    case SizeLine
    show ?thesis
    proof (cases "find_str crlf (available (bd_buf st))")
      case None
      have a: "await ''unexpected EOF reading chunk size'' st = (r, st')"
        using assms(4) by (simp add: chunked_turn_def SizeLine None)
      have "length (available (bd_buf st)) \<le> 122880"
        using lines lines_limit [OF None, of t] by (auto simp: SizeLine lines_within.simps t split: option.splits)
      from await_agrees [OF assms(1,3) this a] show ?thesis
        using assms(2) SizeLine None by (simp add: rest_of_body_def body_of_def unchunk.simps)
    next
      case (Some i)
      have i: "find_str crlf s = Some i" "i + 2 \<le> length (available (bd_buf st))"
        using find_str_append [OF _ Some, of t] find_str_less [OF Some] by (simp_all add: t)
      have l: "take i (available (bd_buf st)) = take i s"
        using i(2) by (simp add: t)
      show ?thesis
      proof (cases "chunk_size (take i s)")
        case (Inl e)
        then have r: "r = Some (Inl e)" "st' = st"
          using assms(4) by (simp_all add: chunked_turn_def SizeLine Some l)
        show ?thesis
          using i Inl by (simp add: r defs SizeLine unchunk.simps)
      next
        case (Inr n)
        define c where "c = (if n = 0 then Trailers else ChunkData n)"
        have r: "r = None" "st' = st\<lparr>bd_buf := consume (i + 2) (bd_buf st), bd_chunked := c\<rparr>"
          using assms(4) by (auto simp: chunked_turn_def SizeLine Some l Inr c_def)
        moreover have "comes fin st' (drop (i + 2) s)"
          by (rule comes_consume [OF assms(1) i(2)]) (simp_all add: r)
        moreover have "lines_within LINE_LIMIT c (drop (i + 2) s)"
          using lines i(1) Inr by (simp add: SizeLine lines_within.simps(1) [of _ s] c_def)
        moreover have "unchunk fin SizeLine s = unchunk fin c (drop (i + 2) s)"
          using i(1) Inr by (simp add: unchunk.simps(1) [of _ s] c_def)
        ultimately show ?thesis
          using assms(2) SizeLine by (auto simp: defs)
      qed
    qed
  next
    case (ChunkData n)
    show ?thesis
    proof (cases "n = 0")
      case True
      then have "r = None" "st' = st\<lparr>bd_chunked := DataCrlf\<rparr>"
        using assms(4) by (auto simp: chunked_turn_def ChunkData)
      moreover have "comes fin (st\<lparr>bd_chunked := DataCrlf\<rparr>) s"
        using assms(1) by (simp add: comes_def)
      ultimately show ?thesis
        using lines assms(2) True ChunkData
        by (auto simp: defs unchunk.simps(2) lines_within.simps(2) split: prod.split)
    next
      case False
      obtain u st1 where f: "filled ''unexpected EOF reading chunk data'' st = (u, st1)"
        by (rule prod.exhaust)
      show ?thesis
      proof (cases u)
        case (Inl e)
        then have "r = Some (Inl e)" "st' = st1"
          using assms(4) f False by (auto simp: chunked_turn_def ChunkData)
        then show ?thesis
          using filled_comes [OF assms(1) f] Inl assms(2) False ChunkData by (auto simp: defs unchunk.simps)
      next
        case (Inr v)
        have st1: "comes fin st1 s" "available (bd_buf st1) \<noteq> []" "bd_kind st1 = Chunked"
          using filled_comes [OF assms(1) f] Inr assms(2) by auto
        define k where "k = min (min n (length (available (bd_buf st1)))) READ_CHUNK_BYTES"
        obtain out st2 where o: "take_out k st1 = (out, st2)"
          by (rule prod.exhaust)
        have k: "k \<le> length (available (bd_buf st1))" "k \<le> n"
          by (simp_all add: k_def)
        have r: "r = Some (Inr (Some out))" "st' = st2\<lparr>bd_chunked := ChunkData (n - length out)\<rparr>"
          using assms(4) f False Inr o by (auto simp: chunked_turn_def ChunkData k_def)
        note t2 = take_out_comes [OF st1(1) o k(1)]
        have "comes fin st' (drop k s)"
          using t2 comes_cong [of st' st2] by (simp add: r)
        moreover have "lines_within LINE_LIMIT (ChunkData (n - length out)) (drop k s)"
          using lines lines_data [of out n LINE_LIMIT "drop k s"] t2 k(2) ChunkData by simp
        moreover have "unchunk fin (ChunkData n) s = apfst ((@) out) (unchunk fin (ChunkData (n - length out)) (drop k s))"
          using unchunk_data [of out n fin "drop k s"] t2 k(2) by simp
        ultimately show ?thesis
          using r t2 st1(3) assms(2) ChunkData by (auto simp: defs)
      qed
    qed
  next
    case DataCrlf
    show ?thesis
    proof (cases "length (available (bd_buf st)) < 2")
      case True
      then have a: "await ''unexpected EOF reading chunk CRLF'' st = (r, st')"
        using assms(4) by (simp add: chunked_turn_def DataCrlf)
      from True have "length (available (bd_buf st)) \<le> 122880"
        by simp
      from await_agrees [OF assms(1,3) this a] show ?thesis
        using assms(2) DataCrlf True by (simp add: rest_of_body_def body_of_def unchunk.simps)
    next
      case False
      then have p: "take 2 (available (bd_buf st)) = take 2 s" "\<not> length s < 2"
        by (simp_all add: t)
      show ?thesis
      proof (cases "take 2 s = crlf")
        case True
        then have r: "r = None" "st' = st\<lparr>bd_buf := consume 2 (bd_buf st), bd_chunked := SizeLine\<rparr>"
          using assms(4) False p by (auto simp: chunked_turn_def DataCrlf)
        moreover have "comes fin st' (drop 2 s)"
          by (rule comes_consume [OF assms(1), of 2]) (use False r in simp_all)
        moreover have "lines_within LINE_LIMIT SizeLine (drop 2 s)"
          using lines True p DataCrlf by (simp add: lines_within.simps(3))
        ultimately show ?thesis
          using assms(2) DataCrlf True p by (auto simp: defs unchunk.simps(3) [of _ s])
      next
        case no: False
        then have r: "r = Some (Inl ''invalid chunk CRLF'')" "st' = st"
          using assms(4) False p by (simp_all add: chunked_turn_def DataCrlf)
        show ?thesis
          using no p by (simp add: r defs DataCrlf unchunk.simps)
      qed
    qed
  next
    case Trailers
    show ?thesis
    proof (cases "trailers_end (available (bd_buf st))")
      case None
      then have a: "await ''unexpected EOF reading trailers'' st = (r, st')"
        using assms(4) by (simp add: chunked_turn_def Trailers)
      have "length (available (bd_buf st)) \<le> 122880"
        using lines trailers_limit [OF None, of t] by (simp add: Trailers lines_within.simps t)
      from await_agrees [OF assms(1,3) this a] show ?thesis
        using assms(2) Trailers None by (simp add: rest_of_body_def body_of_def unchunk.simps)
    next
      case (Some e)
      then have "trailers_end s = Some e"
        using trailers_end_append by (simp add: t)
      moreover have r: "r = Some (Inr None)" "bd_kind st' = Chunked"
        using assms(2,4) Some by (auto simp: chunked_turn_def Trailers)
      ultimately show ?thesis
        by (simp add: r defs Trailers unchunk.simps)
    qed
  next
    case ChunksDone
    then have r: "r = Some (Inr None)" "st' = st"
      using assms(4) by (simp_all add: chunked_turn_def)
    show ?thesis
      by (simp add: r defs ChunksDone unchunk.simps)
  qed
qed

lemma chunked_agrees:
  "comes fin st s \<Longrightarrow> bd_kind st = Chunked \<Longrightarrow> fits st s \<Longrightarrow> next_chunked st = (r, st') \<Longrightarrow>
     bd_kind st' = Chunked \<and> agrees fin st s r st'"
proof (induction st arbitrary: s rule: next_chunked.induct)
  case (1 st)
  obtain t st1 where t: "chunked_turn st = (t, st1)"
    by (rule prod.exhaust)
  note a = turn_agrees [OF 1(2-4) t]
  show ?case
  proof (cases t)
    case None
    then obtain s1 where s1: "comes fin st1 s1" "fits st1 s1" "rest_of_body fin st1 s1 = rest_of_body fin st s"
      using a by auto
    have "next_chunked st1 = (r, st')"
      using 1(5) t None by (simp add: next_chunked.simps [of st])
    with 1(1) [OF t [symmetric] None s1(1) _ s1(2)] a s1(3) show ?thesis
      by (auto simp: agrees_def split: sum.splits option.splits)
  next
    case (Some x)
    then show ?thesis
      using a 1(5) t by (simp add: next_chunked.simps [of st])
  qed
qed

lemma sized_data:
  "length out \<le> n \<Longrightarrow>
     body_of fin (ContentLength l) n c (out @ s) = apfst ((@) out) (body_of fin (ContentLength l) (n - length out) c' s)"
  by (auto simp: body_of_def)

lemma next_agrees:
  assumes "comes fin st s" "fits st s" "next_bytes st = (r, st')"
  shows "bd_kind st' = bd_kind st \<and> agrees fin st s r st'"
proof (cases "bd_kind st")
  case EmptyBody
  then show ?thesis
    using assms(3) by (auto simp: next_bytes_def agrees_def rest_of_body_def body_of_def)
next
  case (ContentLength n)
  show ?thesis
  proof (cases "bd_remaining st = 0")
    case True
    then show ?thesis
      using assms(3) ContentLength
      by (auto simp: next_bytes_def next_content_length_def agrees_def rest_of_body_def body_of_def)
  next
    case False
    obtain u st1 where f: "filled ''unexpected EOF reading content-length body'' st = (u, st1)"
      by (rule prod.exhaust)
    show ?thesis
    proof (cases u)
      case (Inl e)
      then show ?thesis
        using filled_comes [OF assms(1) f] assms(3) False f ContentLength
        by (auto simp: next_bytes_def next_content_length_def agrees_def rest_of_body_def body_of_def)
    next
      case (Inr v)
      have st1: "comes fin st1 s" "bd_kind st1 = bd_kind st" "bd_remaining st1 = bd_remaining st"
        using filled_comes [OF assms(1) f] Inr by auto
      define k where "k = min (min (bd_remaining st) (length (available (bd_buf st1)))) READ_CHUNK_BYTES"
      obtain out st2 where o: "take_out k st1 = (out, st2)"
        by (rule prod.exhaust)
      have k: "k \<le> length (available (bd_buf st1))" "k \<le> bd_remaining st"
        by (simp_all add: k_def)
      note t2 = take_out_comes [OF st1(1) o k(1)]
      have r: "r = Inr (Some out)" "st' = st2\<lparr>bd_remaining := bd_remaining st - k\<rparr>"
        using assms(3) f False Inr o st1(3) t2 ContentLength by (auto simp: next_bytes_def next_content_length_def k_def)
      have "comes fin st' (drop k s)"
        using t2 comes_cong [of st' st2] by (simp add: r)
      moreover have "rest_of_body fin st s = apfst ((@) out) (rest_of_body fin st' (drop k s))"
        using sized_data [of out "bd_remaining st" fin n _ "drop k s"] t2 k(2) ContentLength st1(2)
        by (simp add: rest_of_body_def r)
      ultimately show ?thesis
        using t2 r ContentLength st1(2) by (auto simp: agrees_def fits_def)
    qed
  qed
next
  case Chunked
  then show ?thesis
    using chunked_agrees [OF assms(1) Chunked assms(2)] assms(3) by (simp add: next_bytes_def)
next
  case UntilEof
  show ?thesis
  proof (cases "available (bd_buf st) = []")
    case True
    then have "length (available (bd_buf st)) \<le> 122880"
      by simp
    with assms(1) show ?thesis
    proof (cases rule: read_more_comes)
      case (got n st1)
      obtain out st2 where o: "take_out (length (available (bd_buf st1))) st1 = (out, st2)"
        by (rule prod.exhaust)
      show ?thesis
        using take_out_comes [OF got(3) o] got assms(3) True o UntilEof
        by (auto simp: next_bytes_def next_eof_def agrees_def rest_of_body_def body_of_def fits_def)
    next
      case (ended st1)
      then show ?thesis
        using assms(3) True UntilEof
        by (auto simp: next_bytes_def next_eof_def agrees_def rest_of_body_def body_of_def split: option.splits)
    qed
  next
    case False
    obtain out st2 where o: "take_out (length (available (bd_buf st))) st = (out, st2)"
      by (rule prod.exhaust)
    show ?thesis
      using take_out_comes [OF assms(1) o] assms(3) False o UntilEof
      by (auto simp: next_bytes_def next_eof_def agrees_def rest_of_body_def body_of_def fits_def)
  qed
qed

text \<open>The bytes of a stream up to its first error.\<close>

fun outcome :: "inner list \<Rightarrow> string \<times> string option" where
  "outcome [] = ([], None)"
| "outcome (Chunk b # xs) = apfst ((@) b) (outcome xs)"
| "outcome (Broken e # xs) = ([], Some e)"
| "outcome (Wait # xs) = outcome xs"

lemma body_items_outcome: "comes fin st s \<Longrightarrow> fits st s \<Longrightarrow> outcome (body_items st) = rest_of_body fin st s"
proof (induction st arbitrary: s rule: body_items.induct)
  case (1 st)
  obtain r st' where n: "next_bytes st = (r, st')"
    by (rule prod.exhaust)
  note a = next_agrees [OF 1(2,3) n]
  show ?case
  proof (cases r)
    case (Inl e)
    then show ?thesis
      using a n by (simp add: body_items.simps [of st] agrees_def)
  next
    case (Inr x)
    show ?thesis
    proof (cases x)
      case None
      then show ?thesis
        using a n Inr by (simp add: body_items.simps [of st] agrees_def)
    next
      case (Some out)
      then obtain s' where "comes fin st' s'" "fits st' s'" "rest_of_body fin st s = apfst ((@) out) (rest_of_body fin st' s')"
        using a Inr by (auto simp: agrees_def)
      moreover from 1(1) [OF n [symmetric] Inr Some this(1,2)] have "outcome (body_items st') = rest_of_body fin st' s'" .
      ultimately show ?thesis
        using n Inr Some by (simp add: body_items.simps [of st])
    qed
  qed
qed

section \<open>The head\<close>

lemma blank_line_length: "crlf @ crlf \<noteq> []" "length (crlf @ crlf) = 4"
  by (simp_all add: crlf_def)

lemma searched:
  assumes "\<And>j. j < n \<Longrightarrow> \<not> at_place p buf j" "p \<noteq> []"
  shows "find_str p (drop n buf) = None \<Longrightarrow> find_str p buf = None"
    and "find_str p (drop n buf) = Some i \<Longrightarrow> find_str p buf = Some (n + i)"
proof -
  have shift: "at_place p (drop n buf) (j - n) = at_place p buf j" if "n \<le> j" for j
    using that by (simp add: at_place_def)
  show "find_str p buf = None" if "find_str p (drop n buf) = None"
  proof (cases "find_str p buf")
    case (Some j)
    then have "at_place p buf j"
      using find_str_first [OF assms(2)] by blast
    then show ?thesis
      using assms(1) shift [of j] find_str_none [OF assms(2) that] by (metis not_le)
  qed simp
  show "find_str p buf = Some (n + i)" if f: "find_str p (drop n buf) = Some i"
  proof (rule find_str_at [OF assms(2)])
    show "at_place p buf (n + i)"
      using find_str_first [OF assms(2) f] shift [of "n + i"] by simp
    show "\<not> at_place p buf j" if "j < n + i" for j
    proof (cases "j < n")
      case False
      then show ?thesis
        using find_str_first [OF assms(2) f] shift [of j] that by (metis less_diff_conv2 add.commute not_le)
    qed (rule assms(1))
  qed
qed

lemma read_head_found:
  assumes "find_headers_end (front @ body) = Some (length front)" "buf @ r = front @ body"
    "\<And>j. j < start \<Longrightarrow> \<not> at_place (crlf @ crlf) buf j" "length buf \<le> MAX_HEADER_BYTES"
    "parse_response_head front = Inr (status, hs)" "find_headers_end (drop start buf) = Some p"
  shows "read_head buf start rs = Inr (status, hs, drop (length front) buf, rs) \<and> drop (length front) buf @ r = body"
proof -
  have place: "find_str (crlf @ crlf) (buf @ r) = Some (length front - 4)" "4 \<le> length front"
    using assms(1,2) by (auto simp: find_headers_end_def)
  obtain i where i: "find_str (crlf @ crlf) buf = Some (start + i)" "p = i + 4"
    using searched(2) [OF assms(3) blank_line_length(1)] assms(6) by (auto simp: find_headers_end_def)
  have "start + p = length front" "length front \<le> length buf"
    using find_str_append [OF blank_line_length(1) i(1)] find_str_less [OF i(1)] place i(2) blank_line_length(2) by auto
  moreover from this have "take (length front) buf = front" "drop (length front) buf @ r = body"
    using assms(2) by (metis append_eq_conv_conj take_append diff_is_0_eq' take0 append_Nil2,
        metis append_eq_conv_conj drop_append diff_is_0_eq' drop0)
  ultimately show ?thesis
    using assms(4-6) by (simp add: read_head.simps [of buf])
qed

text \<open>The search goes on where the last one could have missed a place that was not complete.\<close>

lemma read_head_whole:
  assumes "find_headers_end (front @ body) = Some (length front)" "length front \<le> 49152" "plain_reads bss"
    "buf @ concat bss = front @ body" "\<And>j. j < start \<Longrightarrow> \<not> at_place (crlf @ crlf) buf j" "length buf \<le> MAX_HEADER_BYTES"
    "parse_response_head front = Inr (status, hs)"
  shows "\<exists>lo bss'. read_head buf start (map Inr bss @ rs) = Inr (status, hs, lo, map Inr bss' @ rs) \<and>
    lo @ concat bss' = body \<and> plain_reads bss'"
  using assms(3-6)
proof (induction bss arbitrary: buf start)
  case (Cons d bss)
  have place: "find_str (crlf @ crlf) (buf @ concat (d # bss)) = Some (length front - 4)" "4 \<le> length front"
    using assms(1) Cons.prems(2) by (auto simp: find_headers_end_def)
  show ?case
  proof (cases "find_headers_end (drop start buf)")
    case None
    then have none: "find_str (crlf @ crlf) buf = None"
      using searched(1) [OF Cons.prems(3) blank_line_length(1)] by (simp add: find_headers_end_def)
    have len: "length buf < length front"
      using find_str_later [OF blank_line_length(1) none place(1)] blank_line_length(2) place(2) by simp
    have d: "d \<noteq> []" "length d \<le> READ_CHUNK_BYTES" "plain_reads bss"
      using Cons.prems(1) by (auto simp: plain_reads_def)
    have "\<exists>lo bss'. read_head (buf @ d) (length buf - 3) (map Inr bss @ rs) = Inr (status, hs, lo, map Inr bss' @ rs) \<and>
      lo @ concat bss' = body \<and> plain_reads bss'"
    proof (rule Cons.IH [OF d(3)])
      show "\<not> at_place (crlf @ crlf) (buf @ d) j" if "j < length buf - 3" for j
        using find_str_none [OF blank_line_length(1) none, of j] that at_place_append [of j "crlf @ crlf" buf d]
        by (simp add: blank_line_length(2) del: append_assoc length_append)
      show "length (buf @ d) \<le> MAX_HEADER_BYTES"
        using len d(2) assms(2) by (simp add: READ_CHUNK_BYTES_def MAX_HEADER_BYTES_def)
    qed (use Cons.prems(2) in simp)
    then show ?thesis
      using None d(1) Cons.prems(4) by (simp add: read_head.simps [of buf])
  next
    case (Some p)
    then show ?thesis
      using read_head_found [OF assms(1) Cons.prems(2,3,4) assms(7) Some] Cons.prems(1) by blast
  qed
next
  case Nil
  have "find_str (crlf @ crlf) buf \<noteq> None"
    using assms(1) Nil(2) by (auto simp: find_headers_end_def)
  then have "find_str (crlf @ crlf) (drop start buf) \<noteq> None"
    using searched(1) [of start "crlf @ crlf" buf, OF Nil(3) blank_line_length(1)] by metis
  then obtain p where "find_headers_end (drop start buf) = Some p"
    by (auto simp: find_headers_end_def)
  from read_head_found [OF assms(1) Nil(2,3,4) assms(7) this] Nil(1) show ?case
    by blast
qed

section \<open>Answers and requests\<close>

definition body_text :: "string option \<Rightarrow> (string \<times> string) list \<Rightarrow> string \<Rightarrow> string \<times> string option" where
  "body_text fin hs body =
     (let k = body_kind_from_headers hs in body_of fin k (case k of ContentLength n \<Rightarrow> n | _ \<Rightarrow> 0) SizeLine body)"

definition body_fits :: "(string \<times> string) list \<Rightarrow> string \<Rightarrow> bool" where
  "body_fits hs body \<longleftrightarrow> (body_kind_from_headers hs = Chunked \<longrightarrow> lines_within LINE_LIMIT SizeLine body)"

lemma body_new_comes:
  assumes "plain_reads bss" "closing fin rs"
  shows "comes fin (body_new (map Inr bss @ rs) k lo) (lo @ concat bss)"
proof -
  have "buffer_ok (buffer_new lo)" "available (buffer_new lo) = lo"
    by (rule buffer_new_ok)+
  then show ?thesis
    using assms unfolding comes_def body_new_def by (intro conjI exI [of _ bss] exI [of _ rs]) simp_all
qed

text \<open>A connection that gives an answer: its head, within the limit, and the text of its body.\<close>

definition answers_with ::
  "string list \<Rightarrow> nat \<Rightarrow> (string \<times> string) list \<Rightarrow> string \<Rightarrow> bool" where
  "answers_with bss status hs body \<longleftrightarrow>
     plain_reads bss \<and>
     (\<exists>front. concat bss = front @ body \<and> find_headers_end (front @ body) = Some (length front) \<and> length front \<le> 49152 \<and>
       parse_response_head front = Inr (status, hs))"

lemma head_and_body:
  assumes "answers_with bss status hs body" "closing fin rs" "body_fits hs body"
  obtains lo rs' where "read_head [] 0 (map Inr bss @ rs) = Inr (status, hs, lo, rs')"
    "outcome (body_items (body_new rs' (body_kind_from_headers hs) lo)) = body_text fin hs body"
proof -
  obtain front where f: "plain_reads bss" "concat bss = front @ body" "find_headers_end (front @ body) = Some (length front)"
    "length front \<le> 49152" "parse_response_head front = Inr (status, hs)"
    using assms(1) by (auto simp: answers_with_def)
  obtain lo bss' where h: "read_head [] 0 (map Inr bss @ rs) = Inr (status, hs, lo, map Inr bss' @ rs)"
    "lo @ concat bss' = body" "plain_reads bss'"
    using read_head_whole [OF f(3,4,1) _ _ _ f(5), of "[]" 0 rs] f(2) by auto
  let ?st = "body_new (map Inr bss' @ rs) (body_kind_from_headers hs) lo"
  have "comes fin ?st body"
    using body_new_comes [OF h(3) assms(2), of _ lo] h(2) by simp
  moreover have "fits ?st body"
    using assms(3) by (simp add: fits_def body_fits_def body_new_def)
  ultimately have "outcome (body_items ?st) = body_text fin hs body"
    using body_items_outcome by (simp add: rest_of_body_def body_text_def body_new_def Let_def)
  then show thesis
    using that h(1) by blast
qed

text \<open>So a text made of chunks, each behind a line with its size, is the data of the chunks.\<close>

lemma find_crlf: "CHR 0x0D \<notin> set l \<Longrightarrow> find_str crlf (l @ crlf @ r) = Some (length l)"
  by (induction l) (auto simp: crlf_def)

lemma split_crlf:
  "CHR 0x0D \<notin> set l \<Longrightarrow> split_str crlf (l @ crlf @ r) = l # split_str crlf r"
  "CHR 0x0D \<notin> set l \<Longrightarrow> split_str crlf l = [l]"
proof -
  show "CHR 0x0D \<notin> set l \<Longrightarrow> split_str crlf (l @ crlf @ r) = l # split_str crlf r"
    using find_crlf [of l r] by (simp add: split_str.simps [of _ "l @ crlf @ r"])
  have "CHR 0x0D \<notin> set l \<Longrightarrow> find_str crlf l = None"
    by (induction l) (auto simp: crlf_def)
  then show "CHR 0x0D \<notin> set l \<Longrightarrow> split_str crlf l = [l]"
    by (simp add: split_str.simps [of _ l])
qed

fun chunks_text :: "(string \<times> string) list \<Rightarrow> string" where
  "chunks_text [] = []"
| "chunks_text ((l, d) # cs) = l @ crlf @ d @ crlf @ chunks_text cs"

lemma chunks_read:
  "\<forall>(l, d) \<in> set cs. CHR 0x0D \<notin> set l \<and> chunk_size l = Inr (length d) \<and> d \<noteq> [] \<Longrightarrow> CHR 0x0D \<notin> set l0 \<Longrightarrow> chunk_size l0 = Inr 0 \<Longrightarrow>
     unchunk fin SizeLine (chunks_text cs @ l0 @ crlf @ crlf @ r) = (concat (map snd cs), None)"
proof (induction cs rule: chunks_text.induct)
  case 1
  then show ?case
    using find_crlf [of l0 "crlf @ r"] by (simp add: unchunk.simps trailers_end_def)
next
  case (2 l d cs)
  let ?r = "chunks_text cs @ l0 @ crlf @ crlf @ r"
  have "unchunk fin SizeLine (l @ crlf @ d @ crlf @ ?r) = unchunk fin (ChunkData (length d)) (d @ crlf @ ?r)"
    using find_crlf [of l "d @ crlf @ ?r"] 2(2) by (simp add: unchunk.simps(1) [of _ "l @ crlf @ d @ crlf @ ?r"])
  also have "\<dots> = apfst ((@) d) (unchunk fin SizeLine ?r)"
    by (simp add: unchunk.simps(2,3) split: prod.split)
  finally show ?case
    using 2 by simp
qed

lemma chunks_within:
  "\<forall>(l, d) \<in> set cs. CHR 0x0D \<notin> set l \<and> length l \<le> n \<and> chunk_size l = Inr (length d) \<and> d \<noteq> [] \<Longrightarrow>
     CHR 0x0D \<notin> set l0 \<Longrightarrow> length l0 \<le> n \<Longrightarrow> chunk_size l0 = Inr 0 \<Longrightarrow> 2 \<le> n \<Longrightarrow>
     lines_within n SizeLine (chunks_text cs @ l0 @ crlf @ crlf @ r)"
proof (induction cs rule: chunks_text.induct)
  case 1
  then show ?case
    using find_crlf [of l0 "crlf @ r"] by (simp add: lines_within.simps trailers_end_def)
next
  case (2 l d cs)
  let ?r = "chunks_text cs @ l0 @ crlf @ crlf @ r"
  have "lines_within n SizeLine (l @ crlf @ d @ crlf @ ?r) = lines_within n (ChunkData (length d)) (d @ crlf @ ?r)"
    using find_crlf [of l "d @ crlf @ ?r"] 2(2) by (simp add: lines_within.simps(1) [of _ "l @ crlf @ d @ crlf @ ?r"])
  also have "\<dots> = lines_within n SizeLine ?r"
    by (simp add: lines_within.simps(2,3))
  finally show ?case
    using 2 by simp
qed

text \<open>C25. However the reads of a connection cut an answer, and whether it ends or breaks afterwards, the client
  gives the status and headers of its head, and a stream whose bytes, and whose error after them, are those of
  the text of its body: chunked, of a given length, or up to the end.\<close>

theorem http_answer_exact:
  assumes "parse_url url = Inr u" "exchange u (build_request_bytes m u agent qs content @ content) = Inr (map Inr bss @ rs)"
    "answers_with bss status hs body" "closing fin rs" "body_fits hs body"
  shows "\<exists>items. send_parts exchange agent m url qs content = Inr (status, hs, items) \<and> outcome items = body_text fin hs body"
proof -
  obtain lo rs' where "read_head [] 0 (map Inr bss @ rs) = Inr (status, hs, lo, rs')"
    "outcome (body_items (body_new rs' (body_kind_from_headers hs) lo)) = body_text fin hs body"
    by (rule head_and_body [OF assms(3-5)])
  then show ?thesis
    using assms(1,2) by (simp add: send_parts_def)
qed

definition sample_url :: parsed_url where
  "sample_url = \<lparr>pu_scheme = Https, pu_host = ''h'', pu_port = 443, pu_path = ''/v1''\<rparr>"

definition sample_front :: string where
  "sample_front = ''HTTP/1.1 200 OK'' @ crlf @ ''Transfer-Encoding: chunked'' @ crlf @ crlf"

definition sample_headers :: "(string \<times> string) list" where
  "sample_headers = [(''Transfer-Encoding'', ''chunked'')]"

text \<open>One byte a read; a text in one chunk, whose size \<open>l\<close> says, and the last chunk.\<close>

definition sample_reads :: "string \<Rightarrow> string list" where
  "sample_reads body = map (\<lambda>c. [c]) (sample_front @ body)"

definition one_chunk :: "string \<Rightarrow> string \<Rightarrow> string" where
  "one_chunk l d = chunks_text [(l, d)] @ ''0'' @ crlf @ crlf @ []"

lemma sample_answers: "answers_with (sample_reads body) 200 sample_headers body"
proof -
  have "concat (sample_reads body) = sample_front @ body"
  proof -
    have "concat (map (\<lambda>c. [c]) xs) = xs" for xs :: string
      by (induction xs) simp_all
    then show ?thesis
      by (simp only: sample_reads_def)
  qed
  moreover have "find_headers_end (sample_front @ body) = Some (length sample_front)" "length sample_front \<le> 49152"
    by (simp_all add: sample_front_def crlf_def find_headers_end_def)
  moreover have "parse_response_head sample_front = Inr (200, sample_headers)"
  proof -
    have "split_str crlf sample_front = [''HTTP/1.1 200 OK'', ''Transfer-Encoding: chunked'', [], []]"
      using split_crlf(1) [of "''HTTP/1.1 200 OK''" "''Transfer-Encoding: chunked'' @ crlf @ crlf"]
        split_crlf(1) [of "''Transfer-Encoding: chunked''" crlf] split_crlf(1) [of "[]" "[]"] split_crlf(2) [of "[]"]
      unfolding sample_front_def by (simp del: append.simps(2))
    moreover have "snd (from_utf8 sample_front) = None" "split_whitespace ''HTTP/1.1 200 OK'' = [''HTTP/1.1'', ''200'', ''OK'']"
      "header_fields [''Transfer-Encoding: chunked'', [], []] = Inr sample_headers"
      by code_simp+
    moreover have "parse_uint 16 ''200'' = Some 200"
      by (simp add: parse_uint_def is_digit_def digit_val_def)
    ultimately show ?thesis
      by (cases "from_utf8 sample_front") (simp add: parse_response_head_def)
  qed
  ultimately show ?thesis
    by (auto simp: answers_with_def plain_reads_def sample_reads_def READ_CHUNK_BYTES_def)
qed

lemma chunk_sizeI:
  "snd (from_utf8 l) = None \<Longrightarrow> trim (hd (split_on (CHR '';'') l)) = p \<Longrightarrow> p \<noteq> [] \<Longrightarrow> parse_hex p = Some n \<Longrightarrow> chunk_size l = Inr n"
  by (cases "from_utf8 l") (simp add: chunk_size_def)

lemma last_chunk_size: "chunk_size ''0'' = Inr 0"
proof (rule chunk_sizeI)
  show "snd (from_utf8 ''0'') = None" "trim (hd (split_on (CHR '';'') ''0'')) = ''0''"
    by code_simp+
qed (simp_all add: parse_hex_def hex_val_def Let_def)

lemma one_chunk_read:
  assumes "CHR 0x0D \<notin> set l" "length l \<le> 100" "chunk_size l = Inr (length d)" "d \<noteq> []"
  shows "body_fits sample_headers (one_chunk l d)" "body_text None sample_headers (one_chunk l d) = (d, None)"
proof -
  have k: "body_kind_from_headers sample_headers = Chunked"
    by code_simp
  show "body_fits sample_headers (one_chunk l d)"
    using chunks_within [of "[(l, d)]" LINE_LIMIT "''0''" "[]"] assms last_chunk_size
    by (simp add: body_fits_def one_chunk_def LINE_LIMIT_def)
  show "body_text None sample_headers (one_chunk l d) = (d, None)"
    using chunks_read [of "[(l, d)]" "''0''" None "[]"] assms last_chunk_size k
    by (simp add: body_text_def body_of_def one_chunk_def)
qed

lemma sample_chunk_size: "chunk_size ''2;x'' = Inr 2"
proof (rule chunk_sizeI)
  show "snd (from_utf8 ''2;x'') = None" "trim (hd (split_on (CHR '';'') ''2;x'')) = ''2''"
    by code_simp+
qed (simp_all add: parse_hex_def hex_val_def Let_def)

theorem http_answer_exact_witness:
  "\<exists>items. send_parts (\<lambda>u b. Inr (map Inr (sample_reads (one_chunk ''2;x'' ''hi'')))) ''pi'' Get ''https://h/v1'' [] [] =
     Inr (200, sample_headers, items) \<and> outcome items = (''hi'', None)"
proof -
  have "parse_url ''https://h/v1'' = Inr sample_url"
    by code_simp
  moreover have "closing None []"
    by (simp add: closing_def)
  moreover have "body_fits sample_headers (one_chunk ''2;x'' ''hi'')" "body_text None sample_headers (one_chunk ''2;x'' ''hi'') = (''hi'', None)"
    using one_chunk_read [of "''2;x''" "''hi''"] sample_chunk_size by simp_all
  ultimately show ?thesis
    using http_answer_exact [of "''https://h/v1''" sample_url
        "\<lambda>u b. Inr (map Inr (sample_reads (one_chunk ''2;x'' ''hi'')))" Get "''pi''" "[]" "[]"
        "sample_reads (one_chunk ''2;x'' ''hi'')" "[]" 200 sample_headers "one_chunk ''2;x'' ''hi''" None] sample_answers
    by simp
qed

end
