(* ===== verification/Anthropic_Http.thy ===== *)
theory Anthropic_Http
  imports Anthropic_Request Http_Body
begin

text \<open>
  The Anthropic provider over the HTTP client: \<open>provider_stream\<close> of \<open>Anthropic_Request\<close> with the client of
  \<open>Http_Client\<close>, from the bytes of the connection to the history of the agent and the text of its client; and
  the lines of a request.
\<close>

section \<open>An answer over a connection\<close>

text \<open>\<open>print_rq\<close> is serde_json's printer of the body.\<close>

definition http_send ::
  "(nat \<Rightarrow> bool) \<Rightarrow> nat option \<Rightarrow> exchange \<Rightarrow> string \<Rightarrow> (anth_request \<Rightarrow> string) \<Rightarrow> string \<Rightarrow> (string \<times> string) list \<Rightarrow>
     anth_request \<Rightarrow> http_answer" where
  "http_send late timeout exchange agent print_rq url hs rq =
     map_sum id (\<lambda>(status, answer_hs, items). (status, response_text items, items))
       (send_request late timeout exchange agent Post url hs (print_rq rq))"

lemma outcome_whole: "outcome xs = (p, None) \<Longrightarrow> bytes_of xs = p \<and> \<not> broken_in xs"
proof (induction xs arbitrary: p rule: outcome.induct)
  case (2 b xs)
  then show ?case
    by (cases "outcome xs") auto
qed auto

lemma provider_over_http:
  assumes "raw_key env opts = Some key" "parse_url (ap_base_url prov) = Inr u"
    "case timeout of None \<Rightarrow> True | Some d \<Rightarrow> \<not> late d"
    "exchange u (build_request_bytes Post u agent (anth_headers env pkg device prov opts key) (print_rq (build_request prov ctx opts)) @
       print_rq (build_request prov ctx opts)) = Inr (map Inr bss @ rs)"
    "answers_with bss status hs body" "closing fin rs" "body_fits hs body" "200 \<le> status" "status < 300"
  obtains items where "provider_stream env pkg device rd t (http_send late timeout exchange agent print_rq) prov ctx opts =
      Inr (anth_items rd (anth_new (ap_model prov) ''anthropic-messages'' (ap_provider prov) t) (drain items stream_new))"
    "outcome items = body_text fin hs body"
proof -
  obtain lo rs' where h: "read_head [] 0 (map Inr bss @ rs) = Inr (status, hs, lo, rs')"
    "outcome (body_items (body_new rs' (body_kind_from_headers hs) lo)) = body_text fin hs body"
    by (rule head_and_body [OF assms(5-7)])
  have "send_request late timeout exchange agent Post (ap_base_url prov) (anth_headers env pkg device prov opts key)
      (print_rq (build_request prov ctx opts)) = Inr (status, hs, body_items (body_new rs' (body_kind_from_headers hs) lo))"
    using assms(2-4) h(1) by (auto simp: send_request_def send_parts_def split: option.splits)
  then show thesis
    using that [OF _ h(2)] assms(1,8,9) by (simp add: provider_stream_def http_send_def)
qed

text \<open>C12. When the server answers with success, and the body of the answer, in whatever reads and chunks it
  comes, is an answer of the API whose events are those of its parts, then the agent keeps one message with a
  block for each part and the reason to stop, and the text the client puts together from its frames is the text
  of the parts.\<close>

theorem anthropic_over_http:
  assumes "raw_key env opts = Some key" "parse_url (ap_base_url prov) = Inr u"
    "case timeout of None \<Rightarrow> True | Some d \<Rightarrow> \<not> late d"
    "exchange u (build_request_bytes Post u agent (anth_headers env pkg device prov opts key)
       (print_rq (build_request prov (build_context w a) opts)) @ print_rq (build_request prov (build_context w a) opts)) =
     Inr (map Inr bss @ rs)"
    "answers_with bss status hs body" "closing None rs" "body_fits hs body" "200 \<le> status" "status < 300"
    "body_text None hs body = (payload, None)" "decode payload = (tx, [], False)" "length payload \<le> max_buffer_size"
    "read_all rd (events_of tx @ last_event tx) = Some es" "filter (\<lambda>e. e \<noteq> APing) es = answer_events us ps r n"
    "opened w (tick a) (build_context w a) =
       provider_stream env pkg device rd t (http_send late timeout exchange agent print_rq) prov (build_context w a) opts"
    "aborts_at w = None" "last_assistant a = None"
  shows "\<exists>a' m evs. stream_assistant_response w a = (a', Inr m) \<and> history a' = history a @ [Assistant m] \<and>
    am_content m = map (part_block rd) ps \<and> am_stop m = (case r of None \<Rightarrow> StopNormal | Some v \<Rightarrow> stop_of v) \<and>
    emitted a' = emitted a @ evs \<and> concat (map frame_text (run_frames sid evs)) = concat (map part_text ps)"
proof -
  obtain items where i: "provider_stream env pkg device rd t (http_send late timeout exchange agent print_rq) prov (build_context w a) opts =
      Inr (anth_items rd (anth_new (ap_model prov) ''anthropic-messages'' (ap_provider prov) t) (drain items stream_new))"
    "outcome items = body_text None hs body"
    by (rule provider_over_http [where late = late and timeout = timeout and ctx = "build_context w a" and print_rq = print_rq and
          exchange = exchange and u = u and agent = agent and env = env and pkg = pkg and device = device and prov = prov and
          opts = opts and key = key, OF assms(1-9)])
  have b: "bytes_of items = payload" "\<not> broken_in items"
    using outcome_whole i(2) assms(10) by simp_all
  have "opened w (tick a) (build_context w a) =
      Inr (anth_items rd (anth_new (ap_model prov) ''anthropic-messages'' (ap_provider prov) t) (drain items stream_new))"
    using assms(15) i(1) by simp
  from anthropic_answer_exact [OF _ _ b(2) assms(13,14) this assms(16,17), of sid] show ?thesis
    using b(1) assms(11,12) by metis
qed

definition http_provider :: anth_provider where
  "http_provider = sample_provider\<lparr>ap_base_url := ''https://h/v1''\<rparr>"

definition http_world :: world where
  "http_world =
     sample_world\<lparr>opened := \<lambda>_ ctx.
       provider_stream (\<lambda>_. None) (''1'', ''linux'', ''x86_64'') ''d'' letter_reader 0
         (http_send (\<lambda>_. False) (Some 60) (\<lambda>_ _. Inr (map Inr (sample_reads (one_chunk ''36'' letter_bytes)) @ [])) ''pi'' (\<lambda>_. ''{}''))
         http_provider ctx sample_options\<rparr>"

lemma letter_chunk:
  "body_fits sample_headers (one_chunk ''36'' letter_bytes)"
  "body_text None sample_headers (one_chunk ''36'' letter_bytes) = (letter_bytes, None)"
proof -
  have "chunk_size ''36'' = Inr 54"
  proof (rule chunk_sizeI)
    show "snd (from_utf8 ''36'') = None" "trim (hd (split_on (CHR '';'') ''36'')) = ''36''"
      by code_simp+
  qed (simp_all add: parse_hex_def hex_val_def Let_def)
  moreover have "letter_bytes \<noteq> []"
    using letter_chunks_bytes(3) by auto
  ultimately show "body_fits sample_headers (one_chunk ''36'' letter_bytes)"
    "body_text None sample_headers (one_chunk ''36'' letter_bytes) = (letter_bytes, None)"
    using one_chunk_read [of "''36''" letter_bytes] letter_chunks_bytes(3) by simp_all
qed

theorem anthropic_over_http_witness:
  "\<exists>a' m evs. stream_assistant_response http_world sample_agent = (a', Inr m) \<and> history a' = [Assistant m] \<and>
     am_content m = [TextB ''hi'' None] \<and> am_stop m = StopNormal \<and>
     emitted a' = evs \<and> concat (map frame_text (run_frames ''s'' evs)) = ''hi''"
proof -
  let ?ps = "[TextPart [''hi'']]"
  have url: "parse_url (ap_base_url http_provider) = Inr sample_url"
  proof -
    have "parse_url ''https://h/v1'' = Inr sample_url"
      by code_simp
    then show ?thesis
      by (simp add: http_provider_def)
  qed
  have key: "raw_key (\<lambda>_. None) sample_options = Some (mark_anthropic_oauth_bearer_token ''tok'')"
    by (simp add: raw_key_def sample_options_def)
  have events: "filter (\<lambda>e. e \<noteq> APing) (answer_events None ?ps (Some EndTurn) None) = answer_events None ?ps (Some EndTurn) None"
    by (simp add: answer_events_def)
  have read: "read_all letter_reader (events_of letter_bytes @ last_event letter_bytes) =
      Some (answer_events None ?ps (Some EndTurn) None)"
    using letter_events letter_read by (simp add: letter_bytes_def)
  have world: "opened http_world (tick sample_agent) (build_context http_world sample_agent) =
      provider_stream (\<lambda>_. None) (''1'', ''linux'', ''x86_64'') ''d'' letter_reader 0
         (http_send (\<lambda>_. False) (Some 60) (\<lambda>_ _. Inr (map Inr (sample_reads (one_chunk ''36'' letter_bytes)) @ [])) ''pi'' (\<lambda>_. ''{}''))
         http_provider (build_context http_world sample_agent) sample_options"
    "aborts_at http_world = None" "last_assistant sample_agent = None" "history sample_agent = []" "emitted sample_agent = []"
    by (simp_all add: http_world_def sample_world_def sample_agent_def last_assistant_def)
  have small: "length letter_bytes \<le> max_buffer_size" and closed: "closing None []"
    using letter_chunks_bytes(3) by (simp_all add: max_buffer_size_def closing_def)
  from anthropic_over_http [where late = "\<lambda>_. False" and timeout = "Some 60" and sid = "''s''", OF key url _ _ sample_answers closed
      letter_chunk(1) _ _ letter_chunk(2) letter_decode small read events world(1-3)]
  show ?thesis
    using world(4,5) by (force simp: stop_of_def)
qed

section \<open>The lines of a request\<close>

lemma sanitized: "CHR 0x0D \<notin> set (sanitize_header_value v)" "CHR 0x0A \<notin> set (sanitize_header_value v)"
  by (auto simp: sanitize_header_value_def)

lemma header_lines_split:
  "split_str crlf (concat (map header_line hs) @ crlf) =
     map (\<lambda>h. sanitize_header_value (fst h) @ '': '' @ sanitize_header_value (snd h)) hs @ [[], []]"
proof (induction hs)
  case Nil
  show ?case
    using split_crlf(1) [of "[]" "[]"] split_crlf(2) [of "[]"] by simp
next
  case (Cons h hs)
  have "CHR 0x0D \<notin> set (sanitize_header_value (fst h) @ '': '' @ sanitize_header_value (snd h))"
    using sanitized(1) by simp
  from split_crlf(1) [OF this] Cons show ?case
    by (simp add: header_line_def)
qed

text \<open>Whatever names and values of headers hold, each is one line of the request, and none is added.\<close>

lemma request_has_its_lines:
  assumes "CHR 0x0D \<notin> set (pu_path u)" "CHR 0x0D \<notin> set (pu_host u)" "CHR 0x0D \<notin> set agent"
  shows "split_str crlf (build_request_bytes m u agent hs body) =
     [method_text m @ '' '' @ pu_path u @ '' HTTP/1.1'', ''Host: '' @ pu_host u, ''User-Agent: '' @ agent,
      ''Content-Length: '' @ show_nat (length body)] @
     map (\<lambda>h. sanitize_header_value (fst h) @ '': '' @ sanitize_header_value (snd h)) hs @ [[], []]"
proof -
  have "CHR 0x0D \<notin> set (show_nat (length body))"
    using show_nat_digits [of "CHR 0x0D" "length body"] by (auto simp: is_digit_def)
  then have l: "CHR 0x0D \<notin> set (''Content-Length: '' @ show_nat (length body))" "CHR 0x0D \<notin> set (''User-Agent: '' @ agent)"
    "CHR 0x0D \<notin> set (''Host: '' @ pu_host u)" "CHR 0x0D \<notin> set (method_text m @ '' '' @ pu_path u @ '' HTTP/1.1'')"
    using assms by (simp_all add: method_text_def split: http_method.split)
  show ?thesis
    using split_crlf(1) [OF l(4)] split_crlf(1) [OF l(3)] split_crlf(1) [OF l(2)] split_crlf(1) [OF l(1)]
      header_lines_split [of hs]
    by (simp add: build_request_bytes_def del: append.simps(2))
qed

text \<open>But the path of the URL is not cleaned, and the port is left out of \<open>Host\<close>.\<close>

lemma path_adds_line:
  "\<exists>u. parse_url (''http://h:8080/'' @ crlf @ ''X:y'') = Inr u \<and> pu_port u = 8080 \<and>
     take 3 (split_str crlf (build_request_bytes Get u ''pi'' [] [])) = [''GET /'', ''X:y HTTP/1.1'', ''Host: h'']"
proof -
  define u where "u = \<lparr>pu_scheme = Http, pu_host = ''h'', pu_port = 8080, pu_path = ''/'' @ crlf @ ''X:y''\<rparr>"
  have p: "parse_url (''http://h:8080/'' @ crlf @ ''X:y'') = Inr u"
    by (simp add: parse_url_def host_and_port_def parse_port_def parse_uint_def is_digit_def digit_val_def rfind_char_def
      strip_prefix_def crlf_def u_def Let_def)
  have "split_str crlf (build_request_bytes Get u ''pi'' [] []) =
      ''GET /'' # ''X:y HTTP/1.1'' # ''Host: h'' # split_str crlf (''User-Agent: pi'' @ crlf @ ''Content-Length: '' @ show_nat 0 @ crlf @ crlf)"
    using split_crlf(1) [of "''GET /''" "''X:y HTTP/1.1'' @ crlf @ ''Host: h'' @ crlf @ ''User-Agent: pi'' @ crlf @ ''Content-Length: '' @ show_nat 0 @ crlf @ crlf"]
      split_crlf(1) [of "''X:y HTTP/1.1''" "''Host: h'' @ crlf @ ''User-Agent: pi'' @ crlf @ ''Content-Length: '' @ show_nat 0 @ crlf @ crlf"]
      split_crlf(1) [of "''Host: h''" "''User-Agent: pi'' @ crlf @ ''Content-Length: '' @ show_nat 0 @ crlf @ crlf"]
    by (simp add: build_request_bytes_def u_def method_text_def)
  then show ?thesis
    using p by (simp add: u_def)
qed

end
