(* ===== verification/Edit_Tool.thy ===== *)
theory Edit_Tool
  imports Find_Text
begin

text \<open>
  The edit tool of the agent: \<open>patches/pi_agent_rust/src/tools.rs\<close>, from its input to the file it writes. A text
  is its list of code points, offsets count the bytes of their UTF-8 form, as in the code. The Unicode forms NFC
  and NFD, the choice of a path on disk and the diff that is shown are parameters or left out.
\<close>

section \<open>Characters and offsets\<close>

type_synonym utext = "nat list"

definition len_utf8 :: "nat \<Rightarrow> nat" where
  "len_utf8 c = (if c < 0x80 then 1 else if c < 0x800 then 2 else if c < 0x10000 then 3 else 4)"

definition byte_len :: "utext \<Rightarrow> nat" where
  "byte_len s = sum_list (map len_utf8 s)"

text \<open>\<open>char::is_whitespace\<close>.\<close>

definition is_whitespace :: "nat \<Rightarrow> bool" where
  "is_whitespace c \<longleftrightarrow>
     9 \<le> c \<and> c \<le> 13 \<or> c \<in> {0x20, 0x85, 0xA0, 0x1680, 0x2028, 0x2029, 0x202F, 0x205F, 0x3000} \<or> 0x2000 \<le> c \<and> c \<le> 0x200A"

abbreviation nl :: nat where
  "nl \<equiv> 10"

text \<open>The two parts of a text at a byte offset; none where a character would be cut, which panics.\<close>

fun split_at :: "nat \<Rightarrow> utext \<Rightarrow> (utext \<times> utext) option" where
  "split_at n [] = (if n = 0 then Some ([], []) else None)"
| "split_at n (c # s) =
     (if n = 0 then Some ([], c # s)
      else if len_utf8 c \<le> n then map_option (apfst ((#) c)) (split_at (n - len_utf8 c) s)
      else None)"

text \<open>\<open>str::find\<close>.\<close>

definition find_text :: "utext \<Rightarrow> utext \<Rightarrow> nat option" where
  "find_text p s = map_option (\<lambda>i. byte_len (take i s)) (find_str p s)"

definition trim_end_text :: "utext \<Rightarrow> utext" where
  "trim_end_text s = rev (dropWhile is_whitespace (rev s))"

text \<open>\<open>split\<close> and \<open>split_inclusive\<close> at line breaks; the flag says that a break follows.\<close>

fun split_lines_text :: "utext \<Rightarrow> utext list" where
  "split_lines_text [] = [[]]"
| "split_lines_text (c # s) =
     (if c = nl then [] # split_lines_text s
      else (case split_lines_text s of [] \<Rightarrow> [[c]] | l # ls \<Rightarrow> (c # l) # ls))"

fun inclusive_lines :: "utext \<Rightarrow> (utext \<times> bool) list" where
  "inclusive_lines [] = []"
| "inclusive_lines (c # s) =
     (if c = nl then ([], True) # inclusive_lines s
      else (case inclusive_lines s of [] \<Rightarrow> [([c], False)] | (l, b) # ls \<Rightarrow> (c # l, b) # ls))"

section \<open>Matching up to quotes, dashes and spaces\<close>

definition is_special_unicode_space :: "nat \<Rightarrow> bool" where
  "is_special_unicode_space c \<longleftrightarrow> c \<in> {0xA0, 0x202F, 0x205F, 0x3000} \<or> 0x2000 \<le> c \<and> c \<le> 0x200A"

definition normalize_char :: "nat \<Rightarrow> nat" where
  "normalize_char c =
     (if is_special_unicode_space c then 32
      else if c \<in> {0x2018, 0x2019} then 39
      else if c \<in> {0x201C, 0x201D, 0x201E, 0x201F} then 34
      else if c \<in> {0x2010, 0x2011, 0x2012, 0x2013, 0x2014, 0x2015, 0x2212} then 45
      else c)"

fun normalize_chars :: "nat \<Rightarrow> nat \<Rightarrow> utext \<Rightarrow> utext" where
  "normalize_chars trimmed off [] = []"
| "normalize_chars trimmed off (c # s) =
     (if trimmed \<le> off then [] else [normalize_char c]) @ normalize_chars trimmed (off + len_utf8 c) s"

fun build_lines :: "utext list \<Rightarrow> utext" where
  "build_lines [] = []"
| "build_lines [l] = normalize_chars (byte_len (trim_end_text l)) 0 l"
| "build_lines (l # ls) = normalize_chars (byte_len (trim_end_text l)) 0 l @ [nl] @ build_lines ls"

definition build_normalized_content :: "utext \<Rightarrow> utext" where
  "build_normalized_content s = build_lines (split_lines_text s)"

text \<open>The offset in the normalised text, and where in the text the match was seen to start and end.\<close>

type_synonym scan = "nat \<times> nat option \<times> nat option"

definition note_at :: "bool \<Rightarrow> nat \<Rightarrow> nat option \<Rightarrow> nat option" where
  "note_at hit off m = (if hit \<and> m = None then Some off else m)"

fun scan_chars :: "nat \<Rightarrow> nat \<Rightarrow> nat \<Rightarrow> nat \<Rightarrow> nat \<Rightarrow> utext \<Rightarrow> scan \<Rightarrow> scan" where
  "scan_chars ns ne trimmed base off [] sc = sc"
| "scan_chars ns ne trimmed base off (c # s) (pos, ms, me) =
     (let me1 = note_at (pos = ne) (base + off) me
      in if trimmed \<le> off then scan_chars ns ne trimmed base (off + len_utf8 c) s (pos, ms, me1)
         else
           (let ms1 = note_at (pos = ns) (base + off) ms
            in if ms1 \<noteq> None \<and> me1 \<noteq> None then (pos, ms1, me1)
               else scan_chars ns ne trimmed base (off + len_utf8 c) s (pos + len_utf8 (normalize_char c), ms1, me1)))"

fun scan_lines :: "nat \<Rightarrow> nat \<Rightarrow> nat \<Rightarrow> (utext \<times> bool) list \<Rightarrow> scan \<Rightarrow> nat \<times> scan" where
  "scan_lines ns ne orig [] sc = (orig, sc)"
| "scan_lines ns ne orig ((l, b) # ls) sc =
     (case scan_chars ns ne (byte_len (trim_end_text l)) orig 0 l sc of
        (pos, ms, me) \<Rightarrow>
          (let orig1 = orig + byte_len l;
               (orig2, pos2, ms2, me2) =
                 (if b then (orig1 + 1, pos + 1, note_at (pos = ns) orig1 ms, note_at (pos = ne) orig1 me)
                  else (orig1, pos, ms, me))
           in if ms2 \<noteq> None \<and> me2 \<noteq> None then (orig2, pos2, ms2, me2)
              else scan_lines ns ne orig2 ls (pos2, ms2, me2)))"

definition map_normalized_range_to_original :: "utext \<Rightarrow> nat \<Rightarrow> nat \<Rightarrow> nat \<times> nat" where
  "map_normalized_range_to_original s ns n =
     (case scan_lines ns (ns + n) 0 (inclusive_lines s) (0, None, None) of
        (orig, pos, ms, me) \<Rightarrow>
          (let start = case_option 0 id ms; stop = case_option (byte_len s) id (note_at (pos = ns + n) orig me)
           in (start, stop - start)))"

text \<open>Where, and how many bytes.\<close>

definition fuzzy_find_text :: "utext \<Rightarrow> utext \<Rightarrow> utext \<Rightarrow> utext \<Rightarrow> (nat \<times> nat) option" where
  "fuzzy_find_text s old norm_s norm_old =
     (case find_text old s of
        Some i \<Rightarrow> Some (i, byte_len old)
      | None \<Rightarrow>
          (case find_text norm_old norm_s of
             Some i \<Rightarrow> Some (map_normalized_range_to_original s i (byte_len norm_old))
           | None \<Rightarrow> None))"

section \<open>Line endings\<close>

definition bom_char :: nat where
  "bom_char = 0xFEFF"

definition strip_bom_text :: "utext \<Rightarrow> utext \<times> bool" where
  "strip_bom_text s = (case s of [] \<Rightarrow> ([], False) | c # t \<Rightarrow> if c = bom_char then (t, True) else (s, False))"

text \<open>Whether the first line ends in CR LF.\<close>

definition detect_line_ending :: "utext \<Rightarrow> utext" where
  "detect_line_ending s =
     (case (find_text [nl] s, find_text [13, nl] s) of
        (None, _) \<Rightarrow> [nl]
      | (_, None) \<Rightarrow> [nl]
      | (Some l, Some c) \<Rightarrow> if c < l then [13, nl] else [nl])"

text \<open>\<open>replace\<close> of CR LF and of CR by LF, one after the other.\<close>

fun crlf_to_lf :: "utext \<Rightarrow> utext" where
  "crlf_to_lf [] = []"
| "crlf_to_lf [c] = [c]"
| "crlf_to_lf (c # d # s) = (if c = 13 \<and> d = nl then nl # crlf_to_lf s else c # crlf_to_lf (d # s))"

definition normalize_to_lf :: "utext \<Rightarrow> utext" where
  "normalize_to_lf s = map (\<lambda>c. if c = 13 then nl else c) (crlf_to_lf s)"

definition restore_line_endings :: "utext \<Rightarrow> utext \<Rightarrow> utext" where
  "restore_line_endings s ending = (if ending = [13, nl] then concat (map (\<lambda>c. if c = nl then [13, nl] else [c]) s) else s)"

section \<open>The tool\<close>

text \<open>How often a pattern that is not empty occurs, each occurrence after the end of the one before.\<close>

function occurrences :: "utext \<Rightarrow> utext \<Rightarrow> nat" where
  "occurrences p s =
     (case find_str p s of
        None \<Rightarrow> 0
      | Some i \<Rightarrow> if p = [] then 0 else Suc (occurrences p (drop (i + length p) s)))"
  by pat_completeness auto
termination
  by (relation "measure (\<lambda>(p, s). length s)") (auto dest!: find_str_less intro!: diff_less)

declare occurrences.simps [simp del]

text \<open>The variants of the old text, in order, and the first that is found.\<close>

definition old_variants :: "(utext \<Rightarrow> utext) \<Rightarrow> (utext \<Rightarrow> utext) \<Rightarrow> utext \<Rightarrow> utext list" where
  "old_variants nfc nfd old =
     old # (if nfc old \<noteq> old then [nfc old] else []) @ (if nfd old \<noteq> old then [nfd old] else [])"

definition best_match :: "utext \<Rightarrow> utext list \<Rightarrow> ((nat \<times> nat) \<times> utext) option" where
  "best_match s vs =
     find_map (\<lambda>v. map_option (\<lambda>m. (m, build_normalized_content v))
       (fuzzy_find_text s v (build_normalized_content s) (build_normalized_content v))) vs"

definition tool_error :: "string \<Rightarrow> 'a res" where
  "tool_error m = Inl (''Tool error: edit: '' @ m)"

definition WRITE_TOOL_MAX_BYTES :: nat where
  "WRITE_TOOL_MAX_BYTES = 104857600"

definition READ_TOOL_MAX_BYTES :: nat where
  "READ_TOOL_MAX_BYTES = 104857600"

text \<open>The text that is written; \<open>None\<close> is a panic. \<open>path\<close> is the one of the input.\<close>

definition edit_text :: "(utext \<Rightarrow> utext) \<Rightarrow> (utext \<Rightarrow> utext) \<Rightarrow> string \<Rightarrow> utext \<Rightarrow> utext \<Rightarrow> utext \<Rightarrow> utext res option" where
  "edit_text nfc nfd path old new raw =
     (case strip_bom_text raw of
        (s, had_bom) \<Rightarrow>
          (let old_lf = normalize_to_lf old
           in if old_lf = [] then
                Some (tool_error ''The old text cannot be empty. To prepend text, include the first line's content in oldText and newText.'')
              else
                (case best_match s (old_variants nfc nfd old_lf) of
                   None \<Rightarrow>
                     Some (tool_error (''Could not find the exact text in '' @ path @ ''. The old text must match exactly including all whitespace and newlines.''))
                 | Some ((idx, match_len), norm_old) \<Rightarrow>
                     (let n = (if norm_old = [] then 0 else occurrences norm_old (build_normalized_content s))
                      in if 1 < n then
                           Some (tool_error (''Found '' @ show_nat n @ '' occurrences of the text in '' @ path @ ''. The text must be unique. Please provide more context to make it unique.''))
                         else
                           (let adapted = restore_line_endings (normalize_to_lf new) (detect_line_ending s)
                            in case (split_at idx s, split_at (idx + match_len) s) of
                                 (Some (front, _), Some (_, rest)) \<Rightarrow>
                                   (let edited = front @ adapted @ rest
                                    in if s = edited then
                                         Some (tool_error (''No changes made to '' @ path @ ''. The replacement produced identical content. This might indicate an issue with special characters or the text not existing as expected.''))
                                       else Some (Inr (if had_bom then bom_char # edited else edited)))
                               | _ \<Rightarrow> None)))))"

text \<open>A file: whether it can be opened for reading and writing, its size, the error of reading it, its text if it
  is UTF-8.\<close>

record edit_file =
  ef_opens :: bool
  ef_size :: "nat option"
  ef_read :: "string option"
  ef_text :: "utext option"

text \<open>\<open>resolve\<close> picks the file; \<open>write_fault\<close>: making, writing or placing the temporary file fails.\<close>

definition edit_execute ::
  "(utext \<Rightarrow> utext) \<Rightarrow> (utext \<Rightarrow> utext) \<Rightarrow> (string \<Rightarrow> string) \<Rightarrow> string option \<Rightarrow> string \<Rightarrow> utext \<Rightarrow> utext \<Rightarrow> (string \<rightharpoonup> edit_file) \<Rightarrow>
     string res option \<times> (string \<rightharpoonup> edit_file)" where
  "edit_execute nfc nfd resolve write_fault path old new fs =
     (if WRITE_TOOL_MAX_BYTES < byte_len new then
        (Some (Inl (''Validation error: New text size exceeds maximum allowed ('' @ show_nat (byte_len new) @ '' > '' @
           show_nat WRITE_TOOL_MAX_BYTES @ '' bytes)'')), fs)
      else
        (let p = resolve path
         in case fs p of
              None \<Rightarrow> (Some (tool_error (''File not found: '' @ path)), fs)
            | Some f \<Rightarrow>
                if \<not> ef_opens f then (Some (tool_error (''File not found: '' @ path)), fs)
                else if (case ef_size f of None \<Rightarrow> False | Some n \<Rightarrow> READ_TOOL_MAX_BYTES < n) then
                  (Some (tool_error (''File is too large ('' @ show_nat (the (ef_size f)) @ '' bytes). Max allowed for editing is '' @
                     show_nat READ_TOOL_MAX_BYTES @ '' bytes.'')), fs)
                else
                  (case (ef_read f, ef_text f) of
                     (Some e, _) \<Rightarrow> (Some (tool_error (''Failed to read file: '' @ e)), fs)
                   | (None, None) \<Rightarrow>
                       (Some (tool_error ''File contains invalid UTF-8 characters and cannot be safely edited as text.''), fs)
                   | (None, Some raw) \<Rightarrow>
                       (case edit_text nfc nfd path old new raw of
                          None \<Rightarrow> (None, fs)
                        | Some (Inl e) \<Rightarrow> (Some (Inl e), fs)
                        | Some (Inr final) \<Rightarrow>
                            (case write_fault of
                               Some e \<Rightarrow> (Some (tool_error e), fs)
                             | None \<Rightarrow>
                                 (Some (Inr (''Successfully replaced text in '' @ path @ ''.'')),
                                  fs(p \<mapsto> f\<lparr>ef_size := Some (byte_len final), ef_text := Some final\<rparr>)))))))"

end
