(* ===== verification/Edit_Range.thy ===== *)
theory Edit_Range
  imports Edit_Tool
begin

text \<open>
  What the edit tool of \<open>Edit_Tool\<close> replaces. A normalised text is described character by character: a character
  counts unless it is white space with nothing else behind it in its line. The scan that maps a place of the
  normalised text back is followed along this description.
\<close>

section \<open>Normalising, character by character\<close>

lemma byte_len_simps [simp]: "byte_len [] = 0" "byte_len (c # s) = len_utf8 c + byte_len s" "byte_len (s @ t) = byte_len s + byte_len t"
  by (simp_all add: byte_len_def)

lemma len_utf8_pos [simp]: "0 < len_utf8 c" "len_utf8 c \<noteq> 0"
  by (simp_all add: len_utf8_def)

lemma byte_len_zero [simp]: "byte_len s = 0 \<longleftrightarrow> s = []"
  by (cases s) simp_all

lemma len_utf8_nl [simp]: "len_utf8 nl = 1"
  by (simp add: len_utf8_def)

text \<open>\<open>live c s\<close>: the character \<open>c\<close> before \<open>s\<close> is kept.\<close>

definition rest_of_line :: "utext \<Rightarrow> utext" where
  "rest_of_line s = takeWhile (\<lambda>c. c \<noteq> nl) s"

definition live :: "nat \<Rightarrow> utext \<Rightarrow> bool" where
  "live c s \<longleftrightarrow> c = nl \<or> \<not> is_whitespace c \<or> (\<exists>d \<in> set (rest_of_line s). \<not> is_whitespace d)"

text \<open>What becomes of \<open>s\<close> when \<open>t\<close> follows.\<close>

fun normalized :: "utext \<Rightarrow> utext \<Rightarrow> utext" where
  "normalized [] t = []"
| "normalized (c # s) t = (if live c (s @ t) then [normalize_char c] else []) @ normalized s t"

lemma normalized_append: "normalized (s @ u) t = normalized s (u @ t) @ normalized u t"
  by (induction s) simp_all

lemma whitespace_nl [simp]: "is_whitespace nl"
  by (simp add: is_whitespace_def)

lemma normalize_nl [simp]: "normalize_char nl = nl"
  by (simp add: normalize_char_def is_special_unicode_space_def)

lemma normalize_is_nl: "normalize_char c = nl \<longleftrightarrow> c = nl"
  by (auto simp: normalize_char_def is_special_unicode_space_def)

lemma normalize_whitespace: "is_whitespace (normalize_char c) = is_whitespace c"
  by (auto simp: normalize_char_def is_special_unicode_space_def is_whitespace_def)

lemma rest_of_line_simps [simp]: "rest_of_line [] = []" "rest_of_line (nl # s) = []" "c \<noteq> nl \<Longrightarrow> rest_of_line (c # s) = c # rest_of_line s"
  by (simp_all add: rest_of_line_def)

section \<open>Lines\<close>

text \<open>A line in front of an end or of a line break.\<close>

definition ends_line :: "utext \<Rightarrow> bool" where
  "ends_line t \<longleftrightarrow> t = [] \<or> hd t = nl"

lemma rest_of_line_end: "nl \<notin> set l \<Longrightarrow> ends_line t \<Longrightarrow> rest_of_line (l @ t) = l"
  by (induction l; cases t) (auto simp: ends_line_def rest_of_line_def)

lemma trim_end_split: "\<exists>w. l = trim_end_text l @ w \<and> (\<forall>c \<in> set w. is_whitespace c)"
proof -
  have "l = rev (takeWhile is_whitespace (rev l) @ dropWhile is_whitespace (rev l))"
    by simp
  then have "l = trim_end_text l @ rev (takeWhile is_whitespace (rev l))"
    by (simp only: trim_end_text_def rev_append)
  then show ?thesis
    by (metis set_rev set_takeWhileD)
qed

lemma trim_end_last: "trim_end_text l \<noteq> [] \<Longrightarrow> \<not> is_whitespace (last (trim_end_text l))"
  by (simp add: trim_end_text_def last_rev hd_dropWhile)

text \<open>A character of a line is kept if and only if it starts before the end of the trimmed line.\<close>

lemma live_in_line:
  assumes "l = u @ c # v" "nl \<notin> set l" "ends_line t"
  shows "live c (v @ t) \<longleftrightarrow> byte_len u < byte_len (trim_end_text l)"
proof -
  obtain w where w: "l = trim_end_text l @ w" "\<forall>c \<in> set w. is_whitespace c"
    using trim_end_split by blast
  have v: "rest_of_line (v @ t) = v" "c \<noteq> nl"
    using rest_of_line_end [of v t] assms by auto
  show ?thesis
  proof (cases "length u < length (trim_end_text l)")
    case True
    then obtain x where x: "trim_end_text l = u @ c # x" "v = x @ w"
    proof -
      have "take (length u) (trim_end_text l) = u" "drop (length u) (trim_end_text l) @ w = c # v"
        using True w(1) assms(1) by (metis append_eq_append_conv_if less_imp_le_nat append_take_drop_id append_eq_conv_conj)+
      moreover obtain y x where "drop (length u) (trim_end_text l) = y # x"
        using True by (metis drop_eq_Nil list.exhaust not_le)
      ultimately show thesis
        using that by (metis append_Cons append_take_drop_id list.inject)
    qed
    have "\<not> is_whitespace (last (c # x))"
      using trim_end_last [of l] x(1) by simp
    then have "live c (v @ t)"
      using v x(2) by (cases "x = []") (auto simp: live_def dest: last_in_set)
    then show ?thesis
      using x(1) by simp
  next
    case False
    then obtain x where x: "u = trim_end_text l @ x" "w = x @ c # v"
      using w(1) assms(1) by (metis append_eq_append_conv_if append_eq_conv_conj not_le)
    then have "\<not> live c (v @ t)"
      using w(2) v by (auto simp: live_def)
    then show ?thesis
      using x(1) by simp
  qed
qed

lemma normalize_chars_line:
  "l = u @ v \<Longrightarrow> nl \<notin> set l \<Longrightarrow> ends_line t \<Longrightarrow> normalize_chars (byte_len (trim_end_text l)) (byte_len u) v = normalized v t"
proof (induction v arbitrary: u)
  case (Cons c v)
  then show ?case
    using Cons(1) [of "u @ [c]"] live_in_line [of l u c v t] by auto
qed simp

lemma split_lines_not_Nil: "split_lines_text s \<noteq> []"
  by (cases s) (auto split: list.split)

lemma build_normalized_eq: "build_normalized_content s = normalized s []"
proof -
  have "build_lines (case split_lines_text s of l # ls \<Rightarrow> (u @ l) # ls) = normalized (u @ s) []" if "nl \<notin> set u" for u
    using that
  proof (induction s arbitrary: u)
    case Nil
    then show ?case
      using normalize_chars_line [of u "[]" u "[]"] by (simp add: ends_line_def)
  next
    case (Cons c s)
    obtain l ls where l: "split_lines_text s = l # ls"
      using split_lines_not_Nil by (meson list.exhaust)
    show ?case
    proof (cases "c = nl")
      case True
      have "normalize_chars (byte_len (trim_end_text u)) 0 u = normalized u (nl # s)"
        using normalize_chars_line [of u "[]" u "nl # s"] Cons(2) by (simp add: ends_line_def)
      then show ?thesis
        using Cons(1) [of "[]"] True l by (simp add: normalized_append live_def)
    next
      case False
      then show ?thesis
        using Cons(1) [of "u @ [c]"] Cons(2) l by simp
    qed
  qed
  from this [of "[]"] show ?thesis
    using split_lines_not_Nil [of s] by (cases "split_lines_text s") (auto simp: build_normalized_content_def)
qed

section \<open>The scan\<close>

text \<open>The scan without its lines and breaks.\<close>

fun seek :: "nat \<Rightarrow> nat \<Rightarrow> nat \<Rightarrow> utext \<Rightarrow> scan \<Rightarrow> nat \<times> scan" where
  "seek ns ne off [] sc = (off, sc)"
| "seek ns ne off (c # s) (k, ms, me) =
     (if live c s then
        seek ns ne (off + len_utf8 c) s (k + len_utf8 (normalize_char c), note_at (k = ns) off ms, note_at (k = ne) off me)
      else seek ns ne (off + len_utf8 c) s (k, ms, note_at (k = ne) off me))"

definition found_at :: "nat \<Rightarrow> nat \<times> scan \<Rightarrow> nat option \<times> nat option" where
  "found_at ne r = (case r of (off, k, ms, me) \<Rightarrow> (ms, note_at (k = ne) off me))"

lemma note_at_Some [simp]: "note_at b off (Some x) = Some x"
  by (simp add: note_at_def)

lemma seek_settled: "found_at ne (seek ns ne off s (k, Some x, Some y)) = (Some x, Some y)"
  by (induction s arbitrary: off k) (simp_all add: found_at_def)

lemma scan_chars_seek:
  assumes "scan_chars ns ne (byte_len (trim_end_text l)) base (byte_len u) v (k, ms, me) = (k1, ms1, me1)"
    "l = u @ v" "nl \<notin> set l" "ends_line t"
  shows "seek ns ne (base + byte_len u) (v @ t) (k, ms, me) = seek ns ne (base + byte_len l) t (k1, ms1, me1) \<or>
    ms1 \<noteq> None \<and> me1 \<noteq> None \<and> found_at ne (seek ns ne (base + byte_len u) (v @ t) (k, ms, me)) = (ms1, me1)"
  using assms
proof (induction v arbitrary: u k ms me)
  case (Cons c v)
  have n: "l = (u @ [c]) @ v"
    using Cons(3) by simp
  note live = live_in_line [OF Cons(3-5)]
  let ?me = "note_at (k = ne) (base + byte_len u) me" and ?ms = "note_at (k = ns) (base + byte_len u) ms"
  show ?case
  proof (cases "live c (v @ t)")
    case False
    then have "scan_chars ns ne (byte_len (trim_end_text l)) base (byte_len (u @ [c])) v (k, ms, ?me) = (k1, ms1, me1)"
      using Cons(2) live by simp
    from Cons(1) [OF this n Cons(4,5)] False show ?thesis
      by (simp add: add.assoc)
  next
    case True
    show ?thesis
    proof (cases "?ms \<noteq> None \<and> ?me \<noteq> None")
      case settled: True
      then have "ms1 = ?ms" "me1 = ?me"
        using Cons(2) True live by (auto simp: Let_def)
      then show ?thesis
        using settled True seek_settled by auto
    next
      case False
      then have "scan_chars ns ne (byte_len (trim_end_text l)) base (byte_len (u @ [c])) v
          (k + len_utf8 (normalize_char c), ?ms, ?me) = (k1, ms1, me1)"
        using Cons(2) True live by (auto simp: Let_def split: if_splits)
      from Cons(1) [OF this n Cons(4,5)] True show ?thesis
        by (simp add: add.assoc)
    qed
  qed
qed simp

lemma inclusive_first: "nl \<notin> set l \<Longrightarrow> inclusive_lines (l @ nl # t) = (l, True) # inclusive_lines t"
  by (induction l) simp_all

lemma inclusive_last: "nl \<notin> set l \<Longrightarrow> l \<noteq> [] \<Longrightarrow> inclusive_lines l = [(l, False)]"
proof (induction l)
  case (Cons c l)
  then show ?case
    by (cases l) simp_all
qed simp

lemma scan_lines_seek:
  "found_at ne (scan_lines ns ne orig (inclusive_lines s) (k, ms, me)) = found_at ne (seek ns ne orig s (k, ms, me))"
proof (induction s arbitrary: orig k ms me rule: length_induct)
  case (1 s)
  show ?case
  proof (cases "s = []")
    case False
    define l where "l = rest_of_line s"
    define t where "t = drop (length l) s"
    have s: "s = l @ t" "nl \<notin> set l" "ends_line t"
      using hd_dropWhile [of "\<lambda>c. c \<noteq> nl" s]
      by (auto simp: l_def t_def rest_of_line_def ends_line_def dropWhile_eq_drop [symmetric] dest: set_takeWhileD)
    obtain k1 ms1 me1 where c: "scan_chars ns ne (byte_len (trim_end_text l)) orig (byte_len []) l (k, ms, me) = (k1, ms1, me1)"
      by (metis prod_cases3)
    note chars = scan_chars_seek [OF c _ s(2,3), simplified]
    show ?thesis
    proof (cases t)
      case Nil
      then have i: "inclusive_lines l = [(l, False)]" "s = l"
        using inclusive_last [OF s(2)] s(1) False by simp_all
      show ?thesis
        using chars c by (auto simp: i Nil found_at_def Let_def)
    next
      case (Cons x t')
      then have i: "inclusive_lines s = (l, True) # inclusive_lines t'" "x = nl"
        using inclusive_first [OF s(2)] s(1,3) by (auto simp: ends_line_def)
      let ?ms = "note_at (k1 = ns) (orig + byte_len l) ms1" and ?me = "note_at (k1 = ne) (orig + byte_len l) me1"
      have step: "seek ns ne (orig + byte_len l) t (k1, ms1, me1) = seek ns ne (orig + byte_len l + 1) t' (k1 + 1, ?ms, ?me)"
        by (simp add: Cons i(2) live_def)
      have len: "length t' < length s"
        using s(1) Cons by simp
      have whole: "found_at ne (seek ns ne orig s (k, ms, me)) = found_at ne (seek ns ne (orig + byte_len l + 1) t' (k1 + 1, ?ms, ?me))"
        using chars step seek_settled by (auto simp: s(1))
      show ?thesis
      proof (cases "?ms \<noteq> None \<and> ?me \<noteq> None")
        case True
        then have "found_at ne (scan_lines ns ne orig (inclusive_lines s) (k, ms, me)) = (?ms, ?me)"
          using c by (auto simp: i(1) found_at_def)
        then show ?thesis
          using True seek_settled by (auto simp: whole)
      next
        case False
        then have "scan_lines ns ne orig (inclusive_lines s) (k, ms, me) =
            scan_lines ns ne (orig + byte_len l + 1) (inclusive_lines t') (k1 + 1, ?ms, ?me)"
          using c by (auto simp: i(1) Let_def)
        then show ?thesis
          using 1 len by (simp add: whole)
      qed
    qed
  qed simp
qed

section \<open>The range that is found\<close>

text \<open>Once the start is seen: the end is noted right behind the last character that counts.\<close>

lemma seek_end:
  "normalized s [] = p @ q \<Longrightarrow> k + byte_len p = ne \<Longrightarrow>
     \<exists>mid rest. s = mid @ rest \<and> normalized mid rest = p \<and> (mid = [] \<or> live (last mid) rest) \<and>
       found_at ne (seek ns ne off s (k, Some x, None)) = (Some x, Some (off + byte_len mid))"
proof (induction s arbitrary: p k off)
  case Nil
  then show ?case
    by (auto simp: found_at_def note_at_def)
next
  case (Cons c s)
  show ?case
  proof (cases p)
    case Nil
    then have "found_at ne (seek ns ne off (c # s) (k, Some x, None)) = (Some x, Some off)"
      using Cons(3) seek_settled by (simp add: note_at_def)
    then show ?thesis
      using Nil by (intro exI [of _ "[]"] exI [of _ "c # s"]) simp
  next
    case (Cons d p')
    then have k: "k \<noteq> ne"
      using Cons.prems(2) by (cases "len_utf8 d") auto
    show ?thesis
    proof (cases "live c s")
      case True
      then have d: "d = normalize_char c" "normalized s [] = p' @ q"
        using Cons.prems(1) Cons by simp_all
      then obtain mid rest where m: "s = mid @ rest" "normalized mid rest = p'" "mid = [] \<or> live (last mid) rest"
        "found_at ne (seek ns ne (off + len_utf8 c) s (k + len_utf8 (normalize_char c), Some x, None)) =
          (Some x, Some (off + len_utf8 c + byte_len mid))"
        using Cons.IH [of p' "k + len_utf8 (normalize_char c)" "off + len_utf8 c"] Cons.prems(2) Cons by (auto simp: add.assoc)
      then show ?thesis
        using True k d Cons by (intro exI [of _ "c # mid"] exI [of _ rest]) (auto simp: note_at_def add.assoc)
    next
      case False
      then obtain mid rest where m: "s = mid @ rest" "normalized mid rest = p" "mid = [] \<or> live (last mid) rest"
        "found_at ne (seek ns ne (off + len_utf8 c) s (k, Some x, None)) = (Some x, Some (off + len_utf8 c + byte_len mid))"
        using Cons.IH [of p k "off + len_utf8 c"] Cons.prems by auto
      then show ?thesis
        using False k Cons by (intro exI [of _ "c # mid"] exI [of _ rest]) (auto simp: note_at_def add.assoc)
    qed
  qed
qed

lemma seek_start:
  "normalized s [] = n1 @ p @ q \<Longrightarrow> p \<noteq> [] \<Longrightarrow> k + byte_len n1 = ns \<Longrightarrow> ne = ns + byte_len p \<Longrightarrow>
     \<exists>front mid rest. s = front @ mid @ rest \<and> normalized mid rest = p \<and> live (last mid) rest \<and> mid \<noteq> [] \<and>
       found_at ne (seek ns ne off s (k, None, None)) = (Some (off + byte_len front), Some (off + byte_len front + byte_len mid))"
proof (induction s arbitrary: n1 k off)
  case (Cons c s)
  have k: "k \<noteq> ne"
    using Cons.prems(2-4) by (cases "byte_len p") (auto simp: Suc_le_eq)
  show ?case
  proof (cases "live c s")
    case False
    then obtain front mid rest where f: "s = front @ mid @ rest" "normalized mid rest = p" "live (last mid) rest" "mid \<noteq> []"
      "found_at ne (seek ns ne (off + len_utf8 c) s (k, None, None)) =
        (Some (off + len_utf8 c + byte_len front), Some (off + len_utf8 c + byte_len front + byte_len mid))"
      using Cons.IH [of n1 k "off + len_utf8 c"] Cons.prems by auto
    then show ?thesis
      using False k by (intro exI [of _ "c # front"] exI [of _ mid] exI [of _ rest]) (auto simp: note_at_def add.assoc)
  next
    case True
    show ?thesis
    proof (cases n1)
      case Nil
      then obtain p' where p: "p = normalize_char c # p'" "normalized s [] = p' @ q"
        using Cons.prems(1,2) True by (cases p) auto
      have ks: "k = ns"
        using Cons.prems(3) Nil by simp
      obtain mid rest where m: "s = mid @ rest" "normalized mid rest = p'" "mid = [] \<or> live (last mid) rest"
        "found_at ne (seek ns ne (off + len_utf8 c) s (k + len_utf8 (normalize_char c), Some off, None)) =
          (Some off, Some (off + len_utf8 c + byte_len mid))"
        using seek_end [OF p(2), of "k + len_utf8 (normalize_char c)" ne ns "off + len_utf8 c" off] Cons.prems(4) p(1) ks
        by (auto simp: add.assoc)
      then show ?thesis
        using True k ks p(1)
        by (intro exI [of _ "[]"] exI [of _ "c # mid"] exI [of _ rest]) (auto simp: note_at_def add.assoc)
    next
      case (Cons d n1')
      then have d: "d = normalize_char c" "normalized s [] = n1' @ p @ q"
        using Cons.prems(1) True by simp_all
      have ks: "k \<noteq> ns"
        using Cons.prems(3) Cons by (cases "len_utf8 d") auto
      obtain front mid rest where f: "s = front @ mid @ rest" "normalized mid rest = p" "live (last mid) rest" "mid \<noteq> []"
        "found_at ne (seek ns ne (off + len_utf8 c) s (k + len_utf8 (normalize_char c), None, None)) =
          (Some (off + len_utf8 c + byte_len front), Some (off + len_utf8 c + byte_len front + byte_len mid))"
        using Cons.IH [OF d(2) Cons.prems(2), of "k + len_utf8 (normalize_char c)" "off + len_utf8 c"] Cons.prems(3,4) Cons d(1)
        by (auto simp: add.assoc)
      then show ?thesis
        using True k ks by (intro exI [of _ "c # front"] exI [of _ mid] exI [of _ rest]) (auto simp: note_at_def add.assoc)
    qed
  qed
qed simp

text \<open>A normalised text has no white space at the end of a line.\<close>

lemma live_of_nonblank: "d \<in> set s \<Longrightarrow> \<not> is_whitespace d \<Longrightarrow> normalized s t \<noteq> []"
  by (induction s) (auto simp: live_def)

lemma last_normalized: "normalized s [] \<noteq> [] \<Longrightarrow> last (normalized s []) = nl \<or> \<not> is_whitespace (last (normalized s []))"
proof (induction s)
  case (Cons c s)
  show ?case
  proof (cases "normalized s [] = []")
    case True
    then have l: "live c s" "normalized (c # s) [] = [normalize_char c]"
      using Cons(2) by (auto split: if_splits)
    have "\<forall>d \<in> set (rest_of_line s). is_whitespace d"
      using True live_of_nonblank by (auto simp: rest_of_line_def dest: set_takeWhileD)
    then show ?thesis
      using l by (auto simp: live_def normalize_whitespace)
  next
    case False
    then show ?thesis
      using Cons by simp
  qed
qed simp

lemma one_line: "nl \<notin> set s \<Longrightarrow> rest_of_line (s @ t) = s @ rest_of_line t"
  by (induction s) auto

text \<open>Cut behind a character that is no blank, a text is normalised as it was.\<close>

lemma normalized_alone:
  "s = [] \<or> last s = nl \<or> \<not> is_whitespace (last s) \<Longrightarrow> normalized s t = normalized s []"
proof (induction s)
  case (Cons c s)
  have "live c (s @ t) = live c s"
  proof (cases "nl \<in> set s")
    case True
    then have "rest_of_line (s @ t) = rest_of_line s"
      by (simp add: rest_of_line_def takeWhile_append1)
    then show ?thesis
      by (simp add: live_def)
  next
    case False
    show ?thesis
    proof (cases "s = []")
      case True
      then show ?thesis
        using Cons(2) by (auto simp: live_def)
    next
      case no: False
      have "\<not> is_whitespace (last s)" "last s \<in> set s"
        using Cons(2) False no last_in_set [OF no] by (auto simp del: last_in_set)
      moreover have "set (rest_of_line s) = set s" "set s \<subseteq> set (rest_of_line (s @ t))"
        using one_line [OF False, of t] one_line [OF False, of "[]"] by auto
      ultimately show ?thesis
        by (auto simp: live_def)
    qed
  qed
  then show ?case
    using Cons by (cases "s = []") auto
qed simp

lemma mapped_range:
  assumes "build_normalized_content s = n1 @ build_normalized_content v @ n2" "build_normalized_content v \<noteq> []"
    "map_normalized_range_to_original s (byte_len n1) (byte_len (build_normalized_content v)) = (i, n)"
  obtains front mid rest where "s = front @ mid @ rest" "i = byte_len front" "n = byte_len mid"
    "build_normalized_content mid = build_normalized_content v"
proof -
  let ?p = "normalized v []"
  let ?ne = "byte_len n1 + byte_len ?p"
  have n: "normalized s [] = n1 @ ?p @ n2" "?p \<noteq> []"
    using assms(1,2) by (simp_all add: build_normalized_eq)
  obtain front mid rest where f: "s = front @ mid @ rest" "normalized mid rest = ?p" "live (last mid) rest" "mid \<noteq> []"
    "found_at ?ne (seek (byte_len n1) ?ne 0 s (0, None, None)) = (Some (byte_len front), Some (byte_len front + byte_len mid))"
    using seek_start [OF n, of 0 "byte_len n1" ?ne 0] by auto
  have "last ?p = normalize_char (last mid)"
    using f(2-4) normalized_append [of "butlast mid" "[last mid]" rest] by simp
  then have "last mid = nl \<or> \<not> is_whitespace (last mid)"
    using last_normalized [OF n(2)] by (simp add: normalize_is_nl normalize_whitespace)
  then have "normalized mid [] = ?p"
    using normalized_alone [of mid rest] f(2) by simp
  moreover have "i = byte_len front \<and> n = byte_len mid"
    using assms(3) f(5) scan_lines_seek [of ?ne "byte_len n1" 0 s 0 None None]
    by (auto simp: map_normalized_range_to_original_def build_normalized_eq found_at_def split: prod.splits)
  ultimately show thesis
    using that f(1) by (simp add: build_normalized_eq)
qed

section \<open>The edit\<close>

lemma split_at_parts: "split_at (byte_len u) (u @ v) = Some (u, v)"
  by (induction u) (cases v, simp_all)

lemma find_text_parts: "find_text p s = Some i \<Longrightarrow> \<exists>u v. s = u @ p @ v \<and> i = byte_len u"
proof -
  assume "find_text p s = Some i"
  then obtain j where j: "find_str p s = Some j" "i = byte_len (take j s)"
    by (auto simp: find_text_def)
  show ?thesis
  proof (cases "p = []")
    case True
    then show ?thesis
      using j by (intro exI [of _ "take j s"] exI [of _ "drop j s"]) simp
  next
    case False
    then have "take (length p) (drop j s) = p"
      using find_str_first [OF False j(1)] by (simp add: at_place_def)
    then have "s = take j s @ p @ drop (length p) (drop j s)"
      by (metis append_take_drop_id)
    then show ?thesis
      using j(2) by blast
  qed
qed

lemma seek_with_end:
  "\<exists>ms. found_at ne (seek ns ne off s (k, None, Some y)) = (ms, Some y) \<and>
     (ms = None \<or> (\<exists>front rest. s = front @ rest \<and> ms = Some (off + byte_len front)))"
proof (induction s arbitrary: off k)
  case (Cons c s)
  show ?case
  proof (cases "live c s \<and> k = ns")
    case True
    then show ?thesis
      using seek_settled [of ne ns "off + len_utf8 c" s "k + len_utf8 (normalize_char c)" off y]
      by (intro exI [of _ "Some off"]) (auto simp: note_at_def intro!: exI [of _ "[]"])
  next
    case False
    then obtain k' where "seek ns ne off (c # s) (k, None, Some y) = seek ns ne (off + len_utf8 c) s (k', None, Some y)"
      by (cases "live c s") (auto simp: note_at_def)
    moreover obtain ms where m: "found_at ne (seek ns ne (off + len_utf8 c) s (k', None, Some y)) = (ms, Some y)"
      "ms = None \<or> (\<exists>front rest. s = front @ rest \<and> ms = Some (off + len_utf8 c + byte_len front))"
      using Cons by blast
    moreover from m(2) have "ms = None \<or> (\<exists>front rest. c # s = front @ rest \<and> ms = Some (off + byte_len front))"
      by (metis add.assoc append_Cons byte_len_simps(2))
    ultimately show ?thesis
      by auto
  qed
qed (simp add: found_at_def)

text \<open>An old text of white space only is nothing when normalised, and is taken to be found between two characters.\<close>

lemma empty_range:
  assumes "map_normalized_range_to_original s 0 0 = (i, n)"
  obtains front rest where "s = front @ rest" "i = byte_len front" "n = 0"
proof -
  obtain ms where m: "found_at 0 (seek 0 0 0 s (0, None, None)) = (ms, Some 0)"
    "ms = None \<or> (\<exists>front rest. s = front @ rest \<and> ms = Some (byte_len front))"
  proof (cases s)
    case Nil
    then show thesis
      using that [of None] by (simp add: found_at_def note_at_def)
  next
    case (Cons c t)
    show thesis
    proof (cases "live c t")
      case True
      then show thesis
        using that [of "Some 0"] Cons seek_settled by (auto simp: note_at_def intro!: exI [of _ "[]"])
    next
      case False
      obtain ms where "found_at 0 (seek 0 0 (len_utf8 c) t (0, None, Some 0)) = (ms, Some 0)"
        "ms = None \<or> (\<exists>front rest. t = front @ rest \<and> ms = Some (len_utf8 c + byte_len front))"
        using seek_with_end by metis
      moreover from this(2) have "ms = None \<or> (\<exists>front rest. s = front @ rest \<and> ms = Some (byte_len front))"
        using Cons by (metis append_Cons byte_len_simps(2))
      ultimately show thesis
        using that [of ms] Cons False by (simp add: note_at_def)
    qed
  qed
  have f: "found_at 0 (scan_lines 0 0 0 (inclusive_lines s) (0, None, None)) = (ms, Some 0)"
    using m(1) by (simp add: scan_lines_seek)
  then have "i = case_option 0 id ms \<and> n = 0"
    using assms by (auto simp: map_normalized_range_to_original_def found_at_def split: prod.splits)
  then show thesis
    using that m(2) by (cases ms) (auto simp: that [of "[]" s])
qed

lemma fuzzy_range:
  assumes "fuzzy_find_text s v (build_normalized_content s) (build_normalized_content v) = Some (i, n)"
  obtains front mid rest where "s = front @ mid @ rest" "i = byte_len front" "n = byte_len mid"
    "build_normalized_content mid = build_normalized_content v"
proof (cases "find_text v s")
  case (Some j)
  then obtain front rest where "s = front @ v @ rest" "j = byte_len front"
    using find_text_parts by metis
  then show thesis
    using that assms Some by (simp add: fuzzy_find_text_def)
next
  case None
  then obtain j where j: "find_text (build_normalized_content v) (build_normalized_content s) = Some j"
    "map_normalized_range_to_original s j (byte_len (build_normalized_content v)) = (i, n)"
    using assms by (auto simp: fuzzy_find_text_def split: option.splits)
  obtain n1 n2 where n: "build_normalized_content s = n1 @ build_normalized_content v @ n2" "j = byte_len n1"
    using find_text_parts [OF j(1)] by blast
  show thesis
  proof (cases "build_normalized_content v = []")
    case True
    then have "j = 0"
      using j(1) by (cases "build_normalized_content s") (auto simp: find_text_def)
    then show thesis
      using empty_range [of s i n] j(2) True that [of _ "[]"]
      by (metis append_Nil build_normalized_eq byte_len_simps(1) normalized.simps(1))
  next
    case False
    then show thesis
      using mapped_range [OF n(1) False] j(2) n(2) that by metis
  qed
qed

lemma edit_text_cases:
  obtains e where "edit_text nfc nfd path old new raw = Some (Inl e)"
  | mark front mid rest v where
      "edit_text nfc nfd path old new raw =
         Some (Inr (mark @ front @ restore_line_endings (normalize_to_lf new) (detect_line_ending (front @ mid @ rest)) @ rest))"
      "raw = mark @ front @ mid @ rest" "mark \<in> {[], [bom_char]}" "v \<in> set (old_variants nfc nfd (normalize_to_lf old))"
      "build_normalized_content mid = build_normalized_content v"
      "build_normalized_content v = [] \<or>
         occurrences (build_normalized_content v) (build_normalized_content (front @ mid @ rest)) \<le> 1"
proof -
  obtain s had where b: "strip_bom_text raw = (s, had)"
    by (rule prod.exhaust)
  define mark where "mark = (if had then [bom_char] else [])"
  have raw: "raw = mark @ s" "mark \<in> {[], [bom_char]}"
    using b by (auto simp: strip_bom_text_def mark_def split: list.splits if_splits)
  show thesis
  proof (cases "best_match s (old_variants nfc nfd (normalize_to_lf old))")
    case None
    then have "\<exists>e. edit_text nfc nfd path old new raw = Some (Inl e)"
      using b by (simp add: edit_text_def tool_error_def Let_def)
    then show thesis
      using that(1) by blast
  next
    case (Some m)
    obtain i n p where m: "m = ((i, n), p)"
      by (metis prod.exhaust)
    obtain v where v: "v \<in> set (old_variants nfc nfd (normalize_to_lf old))"
      "fuzzy_find_text s v (build_normalized_content s) (build_normalized_content v) = Some (i, n)" "p = build_normalized_content v"
      using find_map_Some [OF Some [unfolded best_match_def]] m by auto
    obtain front mid rest where f: "s = front @ mid @ rest" "i = byte_len front" "n = byte_len mid"
      "build_normalized_content mid = build_normalized_content v"
      by (rule fuzzy_range [OF v(2)])
    have cut: "split_at i s = Some (front, mid @ rest)" "split_at (i + n) s = Some (front @ mid, rest)"
      using split_at_parts [of front "mid @ rest"] split_at_parts [of "front @ mid" rest] f(1-3) by simp_all
    let ?adapted = "restore_line_endings (normalize_to_lf new) (detect_line_ending s)"
    have r: "(\<exists>e. edit_text nfc nfd path old new raw = Some (Inl e)) \<or>
        edit_text nfc nfd path old new raw = Some (Inr (mark @ front @ ?adapted @ rest)) \<and> (p = [] \<or> occurrences p (build_normalized_content s) \<le> 1)"
      using b Some m cut by (auto simp: edit_text_def tool_error_def Let_def mark_def)
    show thesis
      using r that(1) that(2) [of mark front mid rest v] raw v f(1,4) by auto
  qed
qed


section \<open>What counts as found\<close>

lemmas edit_evaluation =
  edit_text_def strip_bom_text_def bom_char_def old_variants_def best_match_def fuzzy_find_text_def find_text_def
  build_normalized_content_def trim_end_text_def is_whitespace_def normalize_char_def is_special_unicode_space_def
  normalize_to_lf_def restore_line_endings_def detect_line_ending_def map_normalized_range_to_original_def note_at_def
  len_utf8_def occurrences.simps Let_def

text \<open>White space at the end of the old text is ignored, so the rest of it is found within a word: \<open>foo\<close> with a blank
  behind it in \<open>foobar\<close>.\<close>

lemma trailing_blank_matches_in_word:
  "edit_text id id ''f'' [102, 111, 111, 32] [120] [102, 111, 111, 98, 97, 114] = Some (Inr [120, 98, 97, 114])"
  by (simp add: edit_evaluation)

text \<open>An old text of white space only need not be unique, nor be in the file: a tabulator that is not there puts the new
  text to the start.\<close>

lemma blank_text_not_unique: "edit_text id id ''f'' [32] [95] [97, 32, 98, 32, 99] = Some (Inr [97, 95, 98, 32, 99])"
  by (simp add: edit_evaluation)

lemma blank_text_not_there: "edit_text id id ''f'' [9] [95] [97, 98] = Some (Inr [95, 97, 98])"
  by (simp add: edit_evaluation)

text \<open>Occurrences that overlap count as one.\<close>

lemma overlap_counts_once: "edit_text id id ''f'' [97, 97] [98] [97, 97, 97] = Some (Inr [98, 97])"
  by (simp add: edit_evaluation)

end
