(* ===== verification/Spec2Isabelle.thy ===== *)
theory Spec2Isabelle
  imports Dictation Meeting Recorder Library Models Session_Spec Ws_Invariants Mcp Files Http_Server Notices Shortcuts Plugins Skills Llm Windows Processes Login_Flow Anthropic_Http Edit_Range
begin

text \<open>
  A verification of the Rust backend of workwithme, a desktop assistant built with Tauri. The code
  is under \<open>src/src-tauri/src\<close>; paths below are relative to it.

  The program has two halves. The native half answers the frontend's commands: voice dictation,
  meetings, screen recording and the capture library. The server half (\<open>server/\<close>) is an HTTP and
  WebSocket server on the loopback interface: sessions of the agent, models, settings, credentials,
  logins. Each half keeps its state in mutexes, files and SQLite databases. The agent itself is the
  library \<open>pi_agent_rust\<close>, kept under \<open>src/patches\<close>; the parts of it through which a login, a prompt
  and an answer go are verified too, and their paths are given in full.

  Theories, in the order of their imports:

  \<^item> \<open>Rust_Prelude\<close>: results as \<open>string + 'a\<close>, Rust's string functions on ASCII strings, slices,
    faults of database statements, the locale \<open>step_invariant\<close> for threads that interleave, and the
    lemmas about them that the other theories share.
  \<^item> \<open>Audio\<close>: \<open>audio.rs\<close>, the microphone: stream, buffer, callback.
  \<^item> \<open>Transcription\<close>: \<open>transcription.rs\<close>: \<open>SilenceDetector\<close> (with the locale \<open>chunker\<close>, what its
    clients rely on), the filter on Whisper's output, the resampler, typing text.
  \<^item> \<open>Dictation\<close>: \<open>lib.rs\<close>: hotkey, in-app button, polling thread, worker and their bounded channel
    as a step relation; the invariant holds for every interleaving.
  \<^item> \<open>Voice_Db\<close>: \<open>voice_db.rs\<close>, every function, over tables as lists of rows; recovery at startup.
  \<^item> \<open>Meeting\<close>: \<open>meeting.rs\<close>: commands, transcription job and summary task over \<open>Voice_Db\<close>.
  \<^item> \<open>Recorder\<close>: \<open>recorder.rs\<close>: the single recording slot, ffmpeg's arguments and output.
  \<^item> \<open>Library\<close>: \<open>library/db.rs\<close>, \<open>commands.rs\<close>, \<open>ocr.rs\<close>.
  \<^item> \<open>Json_Value\<close>, \<open>Key_Value\<close>: serde_json's values; the locale of a key-value store.
  \<^item> \<open>Keychain\<close>, \<open>Settings\<close>, \<open>Models\<close>, \<open>Oauth\<close>: the files of the same names under \<open>server/\<close> and
    their endpoints. Keychain and settings interpret \<open>kv_store\<close>; models rest on the settings' facts,
    stored credentials and login states on the keychain's. The locale \<open>config_file\<close> is what a
    configuration kept whole in a file relies on; shortcuts and language model interpret it.
  \<^item> \<open>Sessions\<close>, \<open>Session_Spec\<close>: \<open>server/sessions.rs\<close> and its endpoints, files in a directory and
    an archive; the abstract store of two maps that they refine.
  \<^item> \<open>Agent_Api\<close>: \<open>server/agent_endpoints.rs\<close> and \<open>extensions.rs\<close>: the running sessions, their
    agents, models, projects and labels.
  \<^item> \<open>Ws_Events\<close>, \<open>Ws_Server\<close>, \<open>Ws_Invariants\<close>: \<open>server/ws_events.rs\<close>, \<open>ws.rs\<close> and \<open>approval.rs\<close>:
    events as frames; connections, prompts, aborts and approvals as a step relation; its invariants.
  \<^item> \<open>Mcp_Catalog\<close>, \<open>Mcp\<close>: the table of servers, the configuration, the URL filter, the endpoints.
  \<^item> \<open>Files\<close>: \<open>server/files.rs\<close>, with a file system of directories, files and links.
  \<^item> \<open>Http_Server\<close>: \<open>server/mod.rs\<close>: the token, the routes and the layers around them.
  \<^item> \<open>Notices\<close>: notifications, audit log, debug log and clipboard under \<open>server/\<close>.
  \<^item> \<open>Shortcuts\<close>: \<open>voice_shortcuts.rs\<close>. \<open>Plugins\<close>, \<open>Skills\<close> (with the static files): the files of
    these names under \<open>server/\<close>. \<open>Llm\<close>: \<open>llm_config.rs\<close>, over the settings' file.
  \<^item> \<open>Capture\<close>: \<open>capture.rs\<close> and \<open>window_capture.rs\<close>. \<open>Windows\<close>: the openers of \<open>lib.rs\<close>,
    \<open>recorder.rs\<close> and \<open>capture.rs\<close>, the tray menu and the shortcut handler over \<open>Shortcuts\<close>,
    \<open>Recorder\<close> and \<open>Capture\<close>.
  \<^item> \<open>Processes\<close>: \<open>server/processes.rs\<close>: bodies, and the order of its two locks as a step relation.


  Theories of the agent library, from \<open>patches/pi_agent_rust/src\<close>:

  \<^item> \<open>Utf8\<close>, \<open>Sse\<close>, \<open>Sse_Stream\<close>: \<open>sse.rs\<close>, the parser of server-sent events and the stream that feeds
    it with pieces of bytes, against the lines of the whole text.
  \<^item> \<open>Provider_Table\<close>: \<open>provider_metadata.rs\<close>, the 90 providers with names, keys and routes.
  \<^item> \<open>Pi_Encoding\<close>, \<open>Pi_Redact\<close>, \<open>Pi_Credentials\<close>, \<open>Pi_Login\<close>, \<open>Pi_Refresh\<close>: \<open>auth.rs\<close>: percent and base64
    encoding, redaction of secrets, the storage of credentials and the choice of a key, logins with PKCE,
    renewal. \<open>Login_Flow\<close>: the server's login endpoints over them.
  \<^item> \<open>Agent_Model\<close>, \<open>Agent_Stream\<close>, \<open>Agent_Tools\<close>, \<open>Agent_Loop\<close>: \<open>agent.rs\<close> and \<open>model.rs\<close>: messages and queues, the
    context of a request and the stream of an answer, the tools of an answer, the loop of turns.
    \<open>Agent_Answers\<close>, \<open>Agent_Runs\<close>: what holds of a batch of tools and of a run; \<open>Agent_Frames\<close>: the events of
    a run as the client of \<open>Ws_Events\<close> gets them.
  \<^item> \<open>Anthropic_Stream\<close>, \<open>Anthropic_Answers\<close>, \<open>Anthropic_Request\<close>: \<open>providers/anthropic.rs\<close>: the events of the API
    as those of \<open>Agent_Stream\<close>, an answer from the bytes of the connection to the client, and the headers
    and body of a request from a context and a key.
  \<^item> \<open>Http_Client\<close>, \<open>Http_Body\<close>: \<open>http/client.rs\<close>: requests, the head and the body of an answer as a state
    machine over the reads of the connection, against the whole text. \<open>Anthropic_Http\<close>: the provider over it.
  \<^item> \<open>Edit_Tool\<close>, \<open>Edit_Range\<close>: the edit tool of \<open>tools.rs\<close>, on texts as lists of code points, and the piece of a
    file it replaces. \<open>Find_Text\<close>: places of a pattern, for both.

  What the lemmas show. For the audio path, that no sample is lost, duplicated or reordered from the
  microphone to the chunks, that \<open>push\<close> computes a function of the buffered audio alone, and that
  sessions are opened and closed by one source at a time. For the databases, that every sequence of
  calls keeps keys unique and the full text index equal to its table, and that searches are sound and
  complete up to their limit. For meetings and recordings, which processes run, which files exist and
  what is stored. For the server: who may do what (token, layers, URL filter, home directory, login
  states), what one stored value does to the others, that session files are neither lost nor found
  outside their directory, that a prompt's client sees all events in order, and that a stop reaches the
  running turn. For stores read at startup (shortcuts, plugins), what a restart finds. For windows, that
  what is asked for is seen. For logins, that a callback is used once and by the login it belongs to, which
  key a request gets, and that logging out leaves none. For the agent, that a run returns, that each call
  of a tool is answered once and in its place, in the transcript as in the next request, that queued
  messages arrive once and in order, that the client hears of all of it, and that an answer is read whole
  however the connection cuts it. Where the code does not do what it means to, a lemma shows the run, and the
  manifest names it.

  How the code is rendered. A Rust struct is a record, an enum a datatype, \<open>Result<T, String>\<close> the
  sum \<open>'a res\<close>. A handler is a function from the state it locks to the new state and its answer; a
  body that two threads interleave is cut into the steps between which others can run. A \<open>u32\<close> or
  \<open>u64\<close> on which the code computes is a word, and wraps as in a release build; \<open>usize\<close> counters are
  \<open>nat\<close>. \<open>f32\<close> and \<open>f64\<close> are real numbers, so rounding is not modelled. Strings are lists of
  characters read as bytes; case and white space are those of ASCII. The loop of \<open>push\<close> may run
  forever: it is a partial function, \<open>None\<close> being divergence, and \<open>detector_ok\<close> is proved to exclude
  that. So is the agent's loop of turns, and \<open>run_returns\<close> shows when it returns. No other loop needs
  fuel. The lines of a chunked body are bounded by 122000 bytes and the head of an answer by 49152,
  below which the limits of the code hold however the reads cut them. Walks of the file system recurse
  on the depth the code bounds.

  Parameters. What the program asks of code that is not in the repository is an argument: the sound
  card, Whisper, ffmpeg's output, SQLite's full text matching, the operating system's keychain, HTTP
  answers, random bytes and SHA-256, the agent's tools, the answers of providers other than Anthropic,
  the printer and parser of serde_json, the parsers of URLs, of key names and of toml, the rate
  limiter of the server, the clipboard, ids and the clock. A statement that may fail takes
  \<open>faults\<close>, so every error path is a branch. Assumptions on parameters are hypotheses of the
  theorems that use them.

  Not modelled: the vendored libraries under \<open>patches/\<close> but for the parts above (the asynchronous
  runtime, opening connections and TLS, extensions, the other tools, the session tree and the other providers are
  what the program calls), the frontend, reading CoreFoundation values and
  running Vision's text recognition (system calls), the texts of the tray, the CORS layer, the
  registration of commands with Tauri, and \<open>main.rs\<close>, which calls \<open>run\<close>.
\<close>

end
